(* ===== verification/Prelude.thy ===== *)
theory Prelude
  imports Main "HOL-Library.Word" "HOL-Library.Monad_Syntax"
begin

unbundle bit_operations_syntax

text \<open>
  Shared vocabulary of the development.

  A Rust function that can panic (an index out of bounds, an arithmetic underflow of an unsigned
  integer, a failed \<^verbatim>\<open>assert!\<close> or \<^verbatim>\<open>debug_assert!\<close>) is a function into \<open>option\<close>: \<open>None\<close> is the panic
  and \<open>Some x\<close> a normal return. The models follow the checked (debug) build, so a proof that an
  operation returns also covers the release build, which evaluates the same expressions without
  the checks. Statements are sequenced with the \<open>do\<close> notation of the option monad.

  \<open>returns m Q\<close> says that \<open>m\<close> returns normally with a result that satisfies \<open>Q\<close>: the total
  correctness judgement the components' lemmas are stated in. \<open>mfold\<close> is the \<^verbatim>\<open>for\<close> loop over a
  list of indices. The rest of the theory holds the bit-flag operations of the \<^verbatim>\<open>bitflags\<close> sets the
  program declares, Rust's slice primitives that the sources use (index, range index, swap,
  truncate), and generic lemmas on them.
\<close>

named_theorems wp "rules for the judgement returns"
named_theorems flag_simps "evaluation of bit flag operations"

subsection \<open>Panics\<close>

definition returns :: "'a option \<Rightarrow> ('a \<Rightarrow> bool) \<Rightarrow> bool" where
  "returns m Q \<longleftrightarrow> (\<exists>x. m = Some x \<and> Q x)"

lemma returns_Some [simp, wp]: "returns (Some x) Q \<longleftrightarrow> Q x"
  by (simp add: returns_def)

lemma returns_None [simp, wp]: "\<not> returns None Q"
  by (simp add: returns_def)

lemma returns_bind [simp, wp]: "returns (m \<bind> f) Q \<longleftrightarrow> returns m (\<lambda>x. returns (f x) Q)"
  by (cases m) simp_all

lemma returns_if [wp]:
  "returns (if b then m else n) Q \<longleftrightarrow> (if b then returns m Q else returns n Q)"
  by simp

lemma returns_map_option [simp, wp]: "returns (map_option f m) Q \<longleftrightarrow> returns m (\<lambda>x. Q (f x))"
  by (cases m) simp_all

lemma returns_mono: "returns m P \<Longrightarrow> (\<And>x. P x \<Longrightarrow> Q x) \<Longrightarrow> returns m Q"
  by (auto simp: returns_def)

lemma returns_mono_eq: "returns m P \<Longrightarrow> (\<And>x. m = Some x \<Longrightarrow> P x \<Longrightarrow> Q x) \<Longrightarrow> returns m Q"
  by (auto simp: returns_def)

lemma returns_conj: "returns m P \<Longrightarrow> returns m Q \<Longrightarrow> returns m (\<lambda>x. P x \<and> Q x)"
  by (auto simp: returns_def)

lemma returnsD: "returns m Q \<Longrightarrow> m = Some x \<Longrightarrow> Q x"
  by (simp add: returns_def)

lemma returns_ex: "returns m Q \<longleftrightarrow> (\<exists>x. m = Some x \<and> Q x)"
  by (simp add: returns_def)

text \<open>A runtime check: \<^verbatim>\<open>assert!(b)\<close>, \<^verbatim>\<open>debug_assert!(b)\<close> or an implicit bounds check.\<close>

definition guard :: "bool \<Rightarrow> unit option" where
  "guard b = (if b then Some () else None)"

lemma returns_guard [simp, wp]: "returns (guard b) Q \<longleftrightarrow> b \<and> Q ()"
  by (simp add: guard_def)

lemma guard_True [simp]: "guard True = Some ()"
  by (simp add: guard_def)

lemma guard_False [simp]: "guard False = None"
  by (simp add: guard_def)

lemma guard_bind: "(guard b \<bind> f) = (if b then f () else None)"
  by (simp add: guard_def)

text \<open>Unsigned subtraction: it panics on underflow in a checked build.\<close>

definition usub :: "nat \<Rightarrow> nat \<Rightarrow> nat option" where
  "usub a b = (if b \<le> a then Some (a - b) else None)"

lemma returns_usub [simp, wp]: "returns (usub a b) Q \<longleftrightarrow> b \<le> a \<and> Q (a - b)"
  by (simp add: usub_def)

lemma usub_Some [simp]: "b \<le> a \<Longrightarrow> usub a b = Some (a - b)"
  by (simp add: usub_def)

text \<open>The cast \<^verbatim>\<open>x as usize\<close> of a signed integer: defined here on non-negative values, which is
  what every use in the sources has; a negative value would wrap to a huge index, so it is treated
  as the panic of the index that follows.\<close>

definition as_usize :: "int \<Rightarrow> nat option" where
  "as_usize i = (if 0 \<le> i then Some (nat i) else None)"

lemma returns_as_usize [simp, wp]: "returns (as_usize i) Q \<longleftrightarrow> 0 \<le> i \<and> Q (nat i)"
  by (simp add: as_usize_def)

lemma as_usize_Some [simp]: "0 \<le> i \<Longrightarrow> as_usize i = Some (nat i)"
  by (simp add: as_usize_def)

subsection \<open>Loops over a list of indices\<close>

fun mfold :: "('a \<Rightarrow> 's \<Rightarrow> 's option) \<Rightarrow> 'a list \<Rightarrow> 's \<Rightarrow> 's option" where
  "mfold f [] s = Some s"
| "mfold f (x # xs) s = f x s \<bind> mfold f xs"

lemma mfold_append: "mfold f (xs @ ys) s = mfold f xs s \<bind> mfold f ys"
  by (induction xs arbitrary: s) (auto split: bind_split)

text \<open>The invariant rule: \<open>I i\<close> holds after the first \<open>i\<close> iterations.\<close>

lemma mfold_rule:
  assumes "I 0 s"
    and "\<And>i s. i < length xs \<Longrightarrow> I i s \<Longrightarrow> returns (f (xs ! i) s) (I (Suc i))"
    and "\<And>s. I (length xs) s \<Longrightarrow> Q s"
  shows "returns (mfold f xs s) Q"
  using assms
proof (induction xs arbitrary: s I)
  case Nil
  then show ?case by simp
next
  case (Cons x xs)
  have "returns (f x s) (I (Suc 0))"
    using Cons.prems(1) Cons.prems(2) [of 0] by simp
  moreover have "returns (mfold f xs s') Q" if "I (Suc 0) s'" for s'
  proof (rule Cons.IH [where I = "\<lambda>i. I (Suc i)"])
    show "I (Suc 0) s'" by (fact that)
    show "returns (f (xs ! i) s) (I (Suc (Suc i)))" if "i < length xs" "I (Suc i) s" for i s
      using Cons.prems(2) [of "Suc i"] that by simp
    show "Q s" if "I (Suc (length xs)) s" for s
      using Cons.prems(3) that by simp
  qed
  ultimately show ?case
    by (auto intro: returns_mono)
qed

lemma mfold_map: "mfold f (map g xs) s = mfold (\<lambda>x. f (g x)) xs s"
  by (induction xs arbitrary: s) (auto split: bind_split)

text \<open>The rule for an invariant that does not depend on the iteration.\<close>

lemma mfold_inv:
  assumes "I s" and "\<And>x s. x \<in> set xs \<Longrightarrow> I s \<Longrightarrow> returns (f x s) I"
  shows "returns (mfold f xs s) I"
  by (rule mfold_rule [where I = "\<lambda>_. I"]) (auto simp: assms)

text \<open>The half-open range \<^verbatim>\<open>a..b\<close> of signed indices.\<close>

definition irange :: "int \<Rightarrow> int \<Rightarrow> int list" where
  "irange a b = [a..b - 1]"

lemma set_irange [simp]: "set (irange a b) = {a..<b}"
  by (auto simp: irange_def)

lemma length_irange [simp]: "length (irange a b) = nat (b - a)"
  by (simp add: irange_def)

lemma nth_irange [simp]: "i < nat (b - a) \<Longrightarrow> irange a b ! i = a + int i"
  by (simp add: irange_def)

lemma irange_empty [simp]: "b \<le> a \<Longrightarrow> irange a b = []"
  by (simp add: irange_def)

lemma distinct_irange [simp]: "distinct (irange a b)"
  by (simp add: irange_def)

lemma irange_shift: "irange (a + k) (b + k) = map (\<lambda>i. i + k) (irange a b)"
  by (rule nth_equalityI) auto

lemma rev_irange: "rev (irange a b) = map uminus (irange (1 - b) (1 - a))"
proof (rule nth_equalityI)
  show "length (rev (irange a b)) = length (map uminus (irange (1 - b) (1 - a)))" by simp
  fix i assume "i < length (rev (irange a b))"
  then show "rev (irange a b) ! i = map uminus (irange (1 - b) (1 - a)) ! i"
    by (simp add: rev_nth)
qed

lemma irange_step: "a < b \<Longrightarrow> irange a b = a # irange (a + 1) b"
  by (simp add: irange_def upto_rec1)

subsection \<open>Truncating remainder\<close>

text \<open>Rust's \<^verbatim>\<open>a % b\<close> on signed integers takes the sign of \<open>a\<close>.\<close>

definition irem :: "int \<Rightarrow> int \<Rightarrow> int" where
  "irem a b = sgn a * (\<bar>a\<bar> mod \<bar>b\<bar>)"

lemma irem_nonneg: "0 \<le> a \<Longrightarrow> 0 < b \<Longrightarrow> irem a b = a mod b"
  by (cases "a = 0") (auto simp: irem_def)

lemma irem_nonpos: "a \<le> 0 \<Longrightarrow> 0 < b \<Longrightarrow> irem a b = - ((- a) mod b)"
  by (cases "a = 0") (auto simp: irem_def)

lemma irem_bounds_nonneg: "0 \<le> a \<Longrightarrow> 0 < b \<Longrightarrow> 0 \<le> irem a b \<and> irem a b < b"
  by (simp add: irem_nonneg)

lemma irem_bounds_nonpos: "a \<le> 0 \<Longrightarrow> 0 < b \<Longrightarrow> - b < irem a b \<and> irem a b \<le> 0"
  by (simp add: irem_nonpos)

subsection \<open>Slices\<close>

text \<open>\<^verbatim>\<open>&v[i]\<close>: panics out of range.\<close>

definition vget :: "'a list \<Rightarrow> nat \<Rightarrow> 'a option" where
  "vget xs i = (if i < length xs then Some (xs ! i) else None)"

lemma returns_vget [simp, wp]: "returns (vget xs i) Q \<longleftrightarrow> i < length xs \<and> Q (xs ! i)"
  by (simp add: vget_def)

lemma vget_Some [simp]: "i < length xs \<Longrightarrow> vget xs i = Some (xs ! i)"
  by (simp add: vget_def)

text \<open>\<^verbatim>\<open>v[i] = f(v[i])\<close>: panics out of range.\<close>

definition vmod :: "'a list \<Rightarrow> nat \<Rightarrow> ('a \<Rightarrow> 'a) \<Rightarrow> 'a list option" where
  "vmod xs i f = (if i < length xs then Some (xs[i := f (xs ! i)]) else None)"

lemma returns_vmod [simp, wp]:
  "returns (vmod xs i f) Q \<longleftrightarrow> i < length xs \<and> Q (xs[i := f (xs ! i)])"
  by (simp add: vmod_def)

lemma vmod_Some [simp]: "i < length xs \<Longrightarrow> vmod xs i f = Some (xs[i := f (xs ! i)])"
  by (simp add: vmod_def)

text \<open>\<^verbatim>\<open>v.swap(a, b)\<close>: panics out of range.\<close>

definition vswap :: "'a list \<Rightarrow> nat \<Rightarrow> nat \<Rightarrow> 'a list option" where
  "vswap xs a b = (if a < length xs \<and> b < length xs then Some (xs[a := xs ! b, b := xs ! a]) else None)"

lemma returns_vswap [simp, wp]:
  "returns (vswap xs a b) Q \<longleftrightarrow>
     a < length xs \<and> b < length xs \<and> Q (xs[a := xs ! b, b := xs ! a])"
  by (auto simp: vswap_def)

text \<open>Overwriting the elements of \<^verbatim>\<open>v[a..b]\<close> with one value: the loop
  \<^verbatim>\<open>for x in &mut v[a..b] { *x = c }\<close>; the range index panics unless \<open>a \<le> b \<le> len\<close>.\<close>

definition vfill :: "'a list \<Rightarrow> nat \<Rightarrow> nat \<Rightarrow> 'a \<Rightarrow> 'a list option" where
  "vfill xs a b c =
     (if a \<le> b \<and> b \<le> length xs then Some (take a xs @ replicate (b - a) c @ drop b xs) else None)"

lemma returns_vfill [simp, wp]:
  "returns (vfill xs a b c) Q \<longleftrightarrow>
     a \<le> b \<and> b \<le> length xs \<and> Q (take a xs @ replicate (b - a) c @ drop b xs)"
  by (auto simp: vfill_def)

lemma nth_fill:
  assumes "a \<le> b" "b \<le> length xs" "i < length xs"
  shows "(take a xs @ replicate (b - a) c @ drop b xs) ! i = (if a \<le> i \<and> i < b then c else xs ! i)"
  using assms by (auto simp: nth_append min_def)

lemma length_fill:
  "a \<le> b \<Longrightarrow> b \<le> length xs \<Longrightarrow> length (take a xs @ replicate (b - a) c @ drop b xs) = length xs"
  by simp

text \<open>Swapping two list positions, pointwise.\<close>

lemma nth_swap:
  "a < length xs \<Longrightarrow> b < length xs \<Longrightarrow> i < length xs \<Longrightarrow>
   xs[a := xs ! b, b := xs ! a] ! i = (if i = a then xs ! b else if i = b then xs ! a else xs ! i)"
  by (auto simp: nth_list_update)

lemma set_vswap [simp]:
  "a < length xs \<Longrightarrow> b < length xs \<Longrightarrow> set (xs[a := xs ! b, b := xs ! a]) = set xs"
  by (rule set_swap)

lemma list_all_update: "\<forall>x\<in>set xs. P x \<Longrightarrow> P y \<Longrightarrow> \<forall>x\<in>set (xs[i := y]). P x"
  using set_update_subset_insert [of xs i y] by blast

subsection \<open>Bit flags\<close>

text \<open>The operations \<^verbatim>\<open>contains\<close>, \<^verbatim>\<open>intersects\<close>, \<^verbatim>\<open>insert\<close>, \<^verbatim>\<open>remove\<close> and \<^verbatim>\<open>set\<close> of a \<^verbatim>\<open>bitflags\<close> set held in a
  machine word.\<close>

definition fl_contains :: "'a::len word \<Rightarrow> 'a word \<Rightarrow> bool" where
  "fl_contains f m \<longleftrightarrow> f AND m = m"

definition fl_intersects :: "'a::len word \<Rightarrow> 'a word \<Rightarrow> bool" where
  "fl_intersects f m \<longleftrightarrow> f AND m \<noteq> 0"

definition fl_insert :: "'a::len word \<Rightarrow> 'a word \<Rightarrow> 'a word" where
  "fl_insert f m = f OR m"

definition fl_remove :: "'a::len word \<Rightarrow> 'a word \<Rightarrow> 'a word" where
  "fl_remove f m = f AND NOT m"

definition fl_set :: "'a::len word \<Rightarrow> 'a word \<Rightarrow> bool \<Rightarrow> 'a word" where
  "fl_set f m b = (if b then fl_insert f m else fl_remove f m)"

lemma fl_contains_insert_same [simp]: "fl_contains (fl_insert f m) m"
  by (simp add: fl_contains_def fl_insert_def bit_eq_iff bit_simps)

lemma fl_contains_insert_other:
  "m AND m' = 0 \<Longrightarrow> fl_contains (fl_insert f m') m \<longleftrightarrow> fl_contains f m"
  by (auto simp: fl_contains_def fl_insert_def bit_eq_iff bit_simps)

lemma fl_contains_remove_other:
  "m AND m' = 0 \<Longrightarrow> fl_contains (fl_remove f m') m \<longleftrightarrow> fl_contains f m"
  by (auto simp: fl_contains_def fl_remove_def bit_eq_iff bit_simps)

lemma fl_contains_remove_same [simp]: "m \<noteq> 0 \<Longrightarrow> \<not> fl_contains (fl_remove f m) m"
  by (auto simp: fl_contains_def fl_remove_def bit_eq_iff bit_simps)

lemma fl_intersects_remove_same [simp]: "\<not> fl_intersects (fl_remove f m) m"
  by (simp add: fl_intersects_def fl_remove_def bit_eq_iff bit_simps)

lemma fl_intersects_insert_other:
  "m AND m' = 0 \<Longrightarrow> fl_intersects (fl_insert f m') m \<longleftrightarrow> fl_intersects f m"
  by (auto simp: fl_intersects_def fl_insert_def bit_eq_iff bit_simps)

lemma fl_contains_zero [simp]: "m \<noteq> 0 \<Longrightarrow> \<not> fl_contains 0 m"
  by (simp add: fl_contains_def)

lemma fl_intersects_zero [simp]: "\<not> fl_intersects 0 m"
  by (simp add: fl_intersects_def)

lemma fl_contains_imp_intersects: "fl_contains f m \<Longrightarrow> m \<noteq> 0 \<Longrightarrow> fl_intersects f m"
  by (simp add: fl_contains_def fl_intersects_def)

lemma fl_xor_toggle: "(f XOR m) XOR m = (f :: 'a::len word)"
  by (auto simp: bit_eq_iff bit_simps)

subsection \<open>Text\<close>

text \<open>A Rust \<^verbatim>\<open>char\<close> is a Unicode scalar value, here its number; a \<^verbatim>\<open>String\<close> is the list of them.
  \<open>lit\<close> embeds an ASCII literal and \<open>dec\<close> is the decimal rendering \<^verbatim>\<open>{}\<close> of an unsigned integer.\<close>

type_synonym uchar = nat
type_synonym ustring = "uchar list"

definition lit :: "string \<Rightarrow> ustring" where
  "lit s = map of_char s"

fun dec :: "nat \<Rightarrow> ustring" where
  "dec n = (if n < 10 then [48 + n] else dec (n div 10) @ [48 + n mod 10])"

declare dec.simps [simp del]

lemma dec_nonempty [simp]: "dec n \<noteq> []"
  by (subst dec.simps) simp

lemma dec_digits: "c \<in> set (dec n) \<Longrightarrow> 48 \<le> c \<and> c < 58"
proof (induction n rule: dec.induct)
  case (1 n)
  then show ?case
    by (cases "n < 10") (auto simp: dec.simps [of n])
qed

text \<open>Reading the digits back, as \<^verbatim>\<open>str::parse\<close> does on digit strings.\<close>

definition undec :: "ustring \<Rightarrow> nat" where
  "undec s = foldl (\<lambda>n c. 10 * n + (c - 48)) 0 s"

lemma undec_snoc: "undec (s @ [c]) = 10 * undec s + (c - 48)"
  by (simp add: undec_def)

lemma undec_dec [simp]: "undec (dec n) = n"
proof (induction n rule: dec.induct)
  case (1 n)
  show ?case
  proof (cases "n < 10")
    case True
    then show ?thesis by (simp add: dec.simps [of n] undec_def)
  next
    case False
    then show ?thesis using 1 by (simp add: dec.simps [of n] undec_snoc)
  qed
qed

lemma dec_inject [simp]: "dec m = dec n \<longleftrightarrow> m = n"
  by (metis undec_dec)

end
