(* ===== verification/Cell.thy ===== *)
theory Cell
  imports Prelude
begin

text \<open>
  Terminal cells: \<^verbatim>\<open>velacritty_terminal/src/term/cell.rs\<close>.

  The colour types come from the \<^verbatim>\<open>vte\<close> crate; their constructors are the ones the sources match on
  (\<^verbatim>\<open>velacritty/src/display/color.rs\<close> and \<^verbatim>\<open>content.rs\<close>). The \<^verbatim>\<open>bitflags\<close> set \<^verbatim>\<open>Flags\<close> is a 16-bit word.
  \<^verbatim>\<open>Arc::make_mut\<close> is copy-on-write, so the shared \<^verbatim>\<open>CellExtra\<close> is an ordinary value here. The locale
  \<open>grid_cell\<close> is the part of the traits \<^verbatim>\<open>GridCell\<close>, \<^verbatim>\<open>Default\<close> and \<^verbatim>\<open>ResetDiscriminant\<close> that the rows
  rely on, with the laws a cell type has to obey for the dirty-prefix optimisation of \<^verbatim>\<open>Row::reset\<close> to
  be sound; \<open>cell\<close> is interpreted as an instance.
\<close>

datatype named_color =
    Black | Red | Green | Yellow | Blue | Magenta | Cyan | White
  | BrightBlack | BrightRed | BrightGreen | BrightYellow | BrightBlue | BrightMagenta
  | BrightCyan | BrightWhite
  | Foreground | Background | Cursor
  | DimBlack | DimRed | DimGreen | DimYellow | DimBlue | DimMagenta | DimCyan | DimWhite
  | BrightForeground | DimForeground

datatype rgb = Rgb (rgb_r: "8 word") (rgb_g: "8 word") (rgb_b: "8 word")

datatype color = Named named_color | Spec rgb | Indexed "8 word"

subsection \<open>Flags\<close>

type_synonym flags = "16 word"

definition INVERSE :: flags where "INVERSE = 0x0001"
definition BOLD :: flags where "BOLD = 0x0002"
definition ITALIC :: flags where "ITALIC = 0x0004"
definition BOLD_ITALIC :: flags where "BOLD_ITALIC = 0x0006"
definition UNDERLINE :: flags where "UNDERLINE = 0x0008"
definition WRAPLINE :: flags where "WRAPLINE = 0x0010"
definition WIDE_CHAR :: flags where "WIDE_CHAR = 0x0020"
definition WIDE_CHAR_SPACER :: flags where "WIDE_CHAR_SPACER = 0x0040"
definition DIM :: flags where "DIM = 0x0080"
definition DIM_BOLD :: flags where "DIM_BOLD = 0x0082"
definition HIDDEN :: flags where "HIDDEN = 0x0100"
definition STRIKEOUT :: flags where "STRIKEOUT = 0x0200"
definition LEADING_WIDE_CHAR_SPACER :: flags where "LEADING_WIDE_CHAR_SPACER = 0x0400"
definition DOUBLE_UNDERLINE :: flags where "DOUBLE_UNDERLINE = 0x0800"
definition UNDERCURL :: flags where "UNDERCURL = 0x1000"
definition DOTTED_UNDERLINE :: flags where "DOTTED_UNDERLINE = 0x2000"
definition DASHED_UNDERLINE :: flags where "DASHED_UNDERLINE = 0x4000"
definition ALL_UNDERLINES :: flags where
  "ALL_UNDERLINES =
     UNDERLINE OR DOUBLE_UNDERLINE OR UNDERCURL OR DOTTED_UNDERLINE OR DASHED_UNDERLINE"

lemmas flag_defs [flag_simps] =
  INVERSE_def BOLD_def ITALIC_def BOLD_ITALIC_def UNDERLINE_def WRAPLINE_def WIDE_CHAR_def
  WIDE_CHAR_SPACER_def DIM_def DIM_BOLD_def HIDDEN_def STRIKEOUT_def LEADING_WIDE_CHAR_SPACER_def
  DOUBLE_UNDERLINE_def UNDERCURL_def DOTTED_UNDERLINE_def DASHED_UNDERLINE_def ALL_UNDERLINES_def

subsection \<open>Hyperlinks\<close>

record hyperlink =
  hl_id :: ustring
  hl_uri :: ustring

text \<open>\<^verbatim>\<open>HyperlinkInner::new\<close> reads and increments the global counter \<^verbatim>\<open>HYPERLINK_ID_SUFFIX\<close> when no
  identifier is given; the counter is a 32-bit atomic that wraps around.\<close>

definition hyperlink_new :: "32 word \<Rightarrow> ustring option \<Rightarrow> ustring \<Rightarrow> hyperlink \<times> 32 word" where
  "hyperlink_new suffix link_id uri =
     (case link_id of
        Some i \<Rightarrow> (\<lparr>hl_id = i, hl_uri = uri\<rparr>, suffix)
      | None \<Rightarrow> (\<lparr>hl_id = dec (unat suffix) @ lit ''_velacritty'', hl_uri = uri\<rparr>, suffix + 1))"

subsection \<open>Cells\<close>

record cell_extra =
  ce_zerowidth :: ustring
  ce_underline_color :: "color option"
  ce_hyperlink :: "hyperlink option"

definition default_extra :: cell_extra where
  "default_extra = \<lparr>ce_zerowidth = [], ce_underline_color = None, ce_hyperlink = None\<rparr>"

record cell =
  c_char :: uchar
  c_fg :: color
  c_bg :: color
  c_flags :: flags
  c_extra :: "cell_extra option"

definition default_cell :: cell where
  "default_cell =
     \<lparr>c_char = 32, c_fg = Named Foreground, c_bg = Named Background, c_flags = 0, c_extra = None\<rparr>"

definition get_extra :: "cell \<Rightarrow> cell_extra" where
  "get_extra x = (case c_extra x of None \<Rightarrow> default_extra | Some e \<Rightarrow> e)"

definition zerowidth :: "cell \<Rightarrow> ustring option" where
  "zerowidth x = map_option ce_zerowidth (c_extra x)"

definition push_zerowidth :: "uchar \<Rightarrow> cell \<Rightarrow> cell" where
  "push_zerowidth ch x =
     (let e = get_extra x in x\<lparr>c_extra := Some (e\<lparr>ce_zerowidth := ce_zerowidth e @ [ch]\<rparr>)\<rparr>)"

definition clear_wide :: "cell \<Rightarrow> cell" where
  "clear_wide x =
     x\<lparr>c_flags := fl_remove (c_flags x) WIDE_CHAR,
       c_extra := map_option (\<lambda>e. e\<lparr>ce_zerowidth := []\<rparr>) (c_extra x),
       c_char := 32\<rparr>"

definition set_underline_color :: "color option \<Rightarrow> cell \<Rightarrow> cell" where
  "set_underline_color col x =
     (if col = None \<and>
         (case c_extra x of None \<Rightarrow> True | Some e \<Rightarrow> ce_zerowidth e = [] \<and> ce_hyperlink e = None)
      then x\<lparr>c_extra := None\<rparr>
      else x\<lparr>c_extra := Some ((get_extra x)\<lparr>ce_underline_color := col\<rparr>)\<rparr>)"

definition underline_color :: "cell \<Rightarrow> color option" where
  "underline_color x = Option.bind (c_extra x) ce_underline_color"

definition set_hyperlink :: "hyperlink option \<Rightarrow> cell \<Rightarrow> cell" where
  "set_hyperlink link x =
     (if link = None \<and>
         (case c_extra x of None \<Rightarrow> True
          | Some e \<Rightarrow> ce_zerowidth e = [] \<and> ce_underline_color e = None)
      then x\<lparr>c_extra := None\<rparr>
      else x\<lparr>c_extra := Some ((get_extra x)\<lparr>ce_hyperlink := link\<rparr>)\<rparr>)"

definition hyperlink :: "cell \<Rightarrow> hyperlink option" where
  "hyperlink x = Option.bind (c_extra x) ce_hyperlink"

definition cell_is_empty :: "cell \<Rightarrow> bool" where
  "cell_is_empty x \<longleftrightarrow>
     (c_char x = 32 \<or> c_char x = 9)
     \<and> c_bg x = Named Background
     \<and> c_fg x = Named Foreground
     \<and> \<not> fl_intersects (c_flags x)
           (INVERSE OR ALL_UNDERLINES OR STRIKEOUT OR WRAPLINE OR WIDE_CHAR_SPACER
            OR LEADING_WIDE_CHAR_SPACER)
     \<and> map_option (\<lambda>e. ce_zerowidth e = []) (c_extra x) \<noteq> Some False"

definition cell_of_color :: "color \<Rightarrow> cell" where
  "cell_of_color col = default_cell\<lparr>c_bg := col\<rparr>"

definition cell_reset :: "cell \<Rightarrow> cell \<Rightarrow> cell" where
  "cell_reset template x = default_cell\<lparr>c_bg := c_bg template\<rparr>"

lemma cell_reset_eq: "cell_reset t x = cell_of_color (c_bg t)"
  by (simp add: cell_reset_def cell_of_color_def)

lemma c_bg_cell_of_color [simp]: "c_bg (cell_of_color b) = b"
  by (simp add: cell_of_color_def)

lemma default_cell_eq: "default_cell = cell_of_color (Named Background)"
  by (simp add: default_cell_def cell_of_color_def)

lemma c_bg_default_cell [simp]: "c_bg default_cell = Named Background"
  by (simp add: default_cell_def)

subsection \<open>The interface the grid relies on\<close>

locale grid_cell =
  fixes dflt :: 'c
    and is_empty :: "'c \<Rightarrow> bool"
    and reset :: "'c \<Rightarrow> 'c \<Rightarrow> 'c"
    and discriminant :: "'c \<Rightarrow> 'd"
  assumes reset_any: "reset t x = reset t y"
    and reset_discriminant: "discriminant (reset t x) = discriminant t"
    and discriminant_reset: "discriminant t = discriminant t' \<Longrightarrow> reset t x = reset t' x"
    and dflt_reset: "reset dflt x = dflt"
    and dflt_empty: "is_empty dflt"
begin

lemma reset_reset: "reset (reset t x) y = reset t x"
  using discriminant_reset [OF reset_discriminant] reset_any by metis

lemma reset_dflt_discriminant: "discriminant t = discriminant dflt \<Longrightarrow> reset t x = dflt"
  using discriminant_reset [of t dflt x] dflt_reset by simp

end

interpretation cell: grid_cell default_cell cell_is_empty cell_reset c_bg
proof
  show "cell_is_empty default_cell"
    by (simp add: cell_is_empty_def default_cell_def)
qed (simp_all add: cell_reset_def default_cell_def)

subsection \<open>Properties\<close>

text \<open>Optional attributes: reading back what was written, and keeping the others.\<close>

lemma underline_set_underline [simp]: "underline_color (set_underline_color col x) = col"
  by (auto simp: underline_color_def set_underline_color_def)

lemma hyperlink_set_hyperlink [simp]: "hyperlink (set_hyperlink link x) = link"
  by (auto simp: hyperlink_def set_hyperlink_def)

lemma hyperlink_set_underline: "hyperlink (set_underline_color col x) = hyperlink x"
  by (auto simp: hyperlink_def set_underline_color_def get_extra_def default_extra_def
      split: option.splits)

lemma underline_set_hyperlink: "underline_color (set_hyperlink link x) = underline_color x"
  by (auto simp: underline_color_def set_hyperlink_def get_extra_def default_extra_def
      split: option.splits)

lemma zerowidth_push: "zerowidth (push_zerowidth ch x) = Some (case_option [] id (zerowidth x) @ [ch])"
  by (auto simp: zerowidth_def push_zerowidth_def get_extra_def default_extra_def Let_def
      split: option.splits)

lemma clear_wide_not_wide: "\<not> fl_contains (c_flags (clear_wide x)) WIDE_CHAR"
  by (simp add: clear_wide_def WIDE_CHAR_def)

end
