(* ===== verification/Row.thy ===== *)
theory Row
  imports Cell
begin

text \<open>
  Rows: \<^verbatim>\<open>velacritty_terminal/src/grid/row.rs\<close>, and \<^verbatim>\<open>LineLength for Row<Cell>\<close> of
  \<^verbatim>\<open>velacritty_terminal/src/term/cell.rs\<close>.

  A row is its cells and the bound \<^verbatim>\<open>occ\<close>: cells at or after \<^verbatim>\<open>occ\<close> have not been written since the last
  reset. \<^verbatim>\<open>Row::reset\<close> clears only the dirty prefix, unless the template's discriminant differs from the
  last cell's. The row type is polymorphic as in the source; the trait methods a function needs are its
  arguments. Inside the locale \<open>grid_cell\<close> the invariant \<open>row_ok\<close> is shown to make the optimised reset
  equal to a full reset, and to be kept by every mutable access a row offers.
\<close>

record 'c row =
  row_inner :: "'c list"
  row_occ :: nat

definition row_len :: "'c row \<Rightarrow> nat" where
  "row_len r = length (row_inner r)"

definition row_new :: "'c \<Rightarrow> nat \<Rightarrow> 'c row option" where
  "row_new dflt cols = do {
     guard (1 \<le> cols);
     Some \<lparr>row_inner = replicate cols dflt, row_occ = 0\<rparr>
   }"

definition row_grow :: "'c \<Rightarrow> nat \<Rightarrow> 'c row \<Rightarrow> 'c row" where
  "row_grow dflt cols r =
     (if length (row_inner r) \<ge> cols then r
      else r\<lparr>row_inner := row_inner r @ replicate (cols - length (row_inner r)) dflt\<rparr>)"

text \<open>\<^verbatim>\<open>iter().rposition(p)\<close>: the last index whose element satisfies the predicate.\<close>

fun rposition :: "('a \<Rightarrow> bool) \<Rightarrow> 'a list \<Rightarrow> nat option" where
  "rposition p [] = None"
| "rposition p (x # xs) =
     (case rposition p xs of Some i \<Rightarrow> Some (Suc i) | None \<Rightarrow> if p x then Some 0 else None)"

definition row_shrink :: "('c \<Rightarrow> bool) \<Rightarrow> nat \<Rightarrow> 'c row \<Rightarrow> 'c row \<times> 'c list option" where
  "row_shrink is_empty cols r =
     (if length (row_inner r) \<le> cols then (r, None)
      else
        let new_row = drop cols (row_inner r);
            index = (case rposition (\<lambda>x. \<not> is_empty x) new_row of None \<Rightarrow> 0 | Some i \<Rightarrow> i + 1);
            new_row = take index new_row;
            r' = r\<lparr>row_inner := take cols (row_inner r), row_occ := min (row_occ r) cols\<rparr>
        in (r', if new_row = [] then None else Some new_row))"

definition row_reset :: "('c \<Rightarrow> 'd) \<Rightarrow> ('c \<Rightarrow> 'c \<Rightarrow> 'c) \<Rightarrow> 'c \<Rightarrow> 'c row \<Rightarrow> 'c row option" where
  "row_reset discr reset template r = do {
     guard (row_inner r \<noteq> []);
     let len = length (row_inner r);
     let occ = (if discr (row_inner r ! (len - 1)) \<noteq> discr template then len else row_occ r);
     guard (occ \<le> len);
     Some \<lparr>row_inner = map (reset template) (take occ (row_inner r)) @ drop occ (row_inner r),
           row_occ = 0\<rparr>
   }"

definition row_from_vec :: "'c list \<Rightarrow> nat \<Rightarrow> 'c row" where
  "row_from_vec v occ = \<lparr>row_inner = v, row_occ = occ\<rparr>"

definition row_last :: "'c row \<Rightarrow> 'c option" where
  "row_last r = (if row_inner r = [] then None else Some (last (row_inner r)))"

text \<open>\<^verbatim>\<open>if let Some(cell) = row.last_mut() { f(cell) }\<close>\<close>

definition row_mod_last :: "('c \<Rightarrow> 'c) \<Rightarrow> 'c row \<Rightarrow> 'c row" where
  "row_mod_last f r =
     (let n = length (row_inner r) in
      r\<lparr>row_occ := n,
        row_inner := (if row_inner r = [] then [] else (row_inner r)[n - 1 := f (row_inner r ! (n - 1))])\<rparr>)"

definition row_append :: "'c list \<Rightarrow> 'c row \<Rightarrow> 'c row" where
  "row_append v r = r\<lparr>row_occ := row_occ r + length v, row_inner := row_inner r @ v\<rparr>"

definition row_append_front :: "'c list \<Rightarrow> 'c row \<Rightarrow> 'c row" where
  "row_append_front v r = r\<lparr>row_occ := row_occ r + length v, row_inner := v @ row_inner r\<rparr>"

definition row_is_clear :: "('c \<Rightarrow> bool) \<Rightarrow> 'c row \<Rightarrow> bool" where
  "row_is_clear is_empty r \<longleftrightarrow> list_all is_empty (row_inner r)"

definition row_front_split_off :: "nat \<Rightarrow> 'c row \<Rightarrow> ('c row \<times> 'c list) option" where
  "row_front_split_off at r = do {
     guard (at \<le> length (row_inner r));
     Some (r\<lparr>row_occ := row_occ r - at, row_inner := drop at (row_inner r)\<rparr>, take at (row_inner r))
   }"

definition row_get :: "'c row \<Rightarrow> nat \<Rightarrow> 'c option" where
  "row_get r i = vget (row_inner r) i"

definition row_mod :: "nat \<Rightarrow> ('c \<Rightarrow> 'c) \<Rightarrow> 'c row \<Rightarrow> 'c row option" where
  "row_mod i f r = do {
     v \<leftarrow> vmod (row_inner r) i f;
     Some (r\<lparr>row_occ := max (row_occ r) (i + 1), row_inner := v\<rparr>)
   }"

text \<open>Writing through \<^verbatim>\<open>row[a..b]\<close>, \<^verbatim>\<open>row[..b]\<close>, \<^verbatim>\<open>row[a..]\<close> and \<^verbatim>\<open>row[..]\<close>.\<close>

definition row_fill :: "nat \<Rightarrow> nat \<Rightarrow> 'c \<Rightarrow> 'c row \<Rightarrow> 'c row option" where
  "row_fill a b x r = do {
     v \<leftarrow> vfill (row_inner r) a b x;
     Some (r\<lparr>row_occ := max (row_occ r) b, row_inner := v\<rparr>)
   }"

definition row_fill_to :: "nat \<Rightarrow> 'c \<Rightarrow> 'c row \<Rightarrow> 'c row option" where
  "row_fill_to b x r = do {
     v \<leftarrow> vfill (row_inner r) 0 b x;
     Some (r\<lparr>row_occ := max (row_occ r) b, row_inner := v\<rparr>)
   }"

definition row_fill_from :: "nat \<Rightarrow> 'c \<Rightarrow> 'c row \<Rightarrow> 'c row option" where
  "row_fill_from a x r = do {
     v \<leftarrow> vfill (row_inner r) a (length (row_inner r)) x;
     Some (r\<lparr>row_occ := length (row_inner r), row_inner := v\<rparr>)
   }"

definition row_full_mut :: "('c list \<Rightarrow> 'c list option) \<Rightarrow> 'c row \<Rightarrow> 'c row option" where
  "row_full_mut f r = do {
     v \<leftarrow> f (row_inner r);
     Some (r\<lparr>row_occ := length (row_inner r), row_inner := v\<rparr>)
   }"

text \<open>\<^verbatim>\<open>line_length\<close>: the occupied prefix of a row of cells.\<close>

definition occupied_cell :: "cell \<Rightarrow> bool" where
  "occupied_cell x \<longleftrightarrow>
     c_char x \<noteq> 32 \<or> map_option (\<lambda>e. ce_zerowidth e = []) (c_extra x) = Some False"

definition line_length :: "cell row \<Rightarrow> nat option" where
  "line_length r = do {
     i \<leftarrow> usub (row_len r) 1;
     x \<leftarrow> row_get r i;
     if fl_contains (c_flags x) WRAPLINE then Some (row_len r)
     else Some (case rposition occupied_cell (row_inner r) of None \<Rightarrow> 0 | Some j \<Rightarrow> j + 1)
   }"

lemmas row_defs = row_len_def row_get_def row_mod_def row_fill_def row_fill_to_def
  row_fill_from_def row_full_mut_def

lemma rposition_None: "rposition p xs = None \<longleftrightarrow> (\<forall>x\<in>set xs. \<not> p x)"
  by (induction xs) (auto split: option.splits)

lemma rposition_Some:
  "rposition p xs = Some i \<Longrightarrow> i < length xs \<and> p (xs ! i) \<and> (\<forall>j. i < j \<and> j < length xs \<longrightarrow> \<not> p (xs ! j))"
proof (induction xs arbitrary: i)
  case Nil
  then show ?case by simp
next
  case (Cons x xs)
  show ?case
  proof (cases "rposition p xs")
    case None
    then have "\<forall>x\<in>set xs. \<not> p x" by (simp add: rposition_None)
    then show ?thesis using Cons.prems None by (auto split: if_splits simp: nth_Cons')
  next
    case (Some k)
    then show ?thesis using Cons by (auto simp: nth_Cons split: nat.splits)
  qed
qed

subsection \<open>The dirty prefix\<close>

text \<open>The row invariant: cells at or beyond \<^verbatim>\<open>occ\<close> are blank cells, all with the discriminant of the
  last cell.\<close>

definition row_ok :: "('c \<Rightarrow> 'c \<Rightarrow> 'c) \<Rightarrow> nat \<Rightarrow> 'c row \<Rightarrow> bool" where
  "row_ok reset cols r \<longleftrightarrow>
     length (row_inner r) = cols \<and> row_occ r \<le> cols
     \<and> list_all (\<lambda>x. x = reset (last (row_inner r)) (last (row_inner r)))
         (drop (row_occ r) (row_inner r))"

context grid_cell
begin

lemma row_ok_iff:
  "row_ok reset cols r \<longleftrightarrow>
     length (row_inner r) = cols \<and> row_occ r \<le> cols
     \<and> (\<exists>t. \<forall>i. row_occ r \<le> i \<and> i < cols \<longrightarrow> row_inner r ! i = reset t t)"
    (is "?l \<longleftrightarrow> ?r")
proof
  assume ?l
  then have "row_inner r ! i = reset (last (row_inner r)) (last (row_inner r))"
    if "row_occ r \<le> i" "i < cols" for i
    using that by (auto simp: row_ok_def list_all_length dest!: spec [of _ "i - row_occ r"])
  then show ?r using \<open>?l\<close> by (auto simp: row_ok_def)
next
  assume ?r
  then obtain t where len: "length (row_inner r) = cols" "row_occ r \<le> cols"
    and t: "\<And>i. row_occ r \<le> i \<Longrightarrow> i < cols \<Longrightarrow> row_inner r ! i = reset t t"
    by blast
  have "x = reset (last (row_inner r)) (last (row_inner r))" if mem: "x \<in> set (drop (row_occ r) (row_inner r))" for x
  proof -
    obtain k where "k < length (drop (row_occ r) (row_inner r))" "drop (row_occ r) (row_inner r) ! k = x"
      using mem by (meson in_set_conv_nth)
    then have "x = row_inner r ! (row_occ r + k)" "row_occ r + k < cols"
      using len by auto
    moreover from this have "last (row_inner r) = row_inner r ! (cols - 1)"
      using len by (metis last_conv_nth length_0_conv not_less_zero)
    ultimately show ?thesis
      using t [of "row_occ r + k"] t [of "cols - 1"] by (simp add: reset_reset)
  qed
  then show ?l using len by (simp add: row_ok_def list_all_iff)
qed

lemma row_okI_full: "length (row_inner r) = cols \<Longrightarrow> row_occ r = cols \<Longrightarrow> row_ok reset cols r"
  by (auto simp: row_ok_iff)

lemma row_ok_new: "1 \<le> cols \<Longrightarrow> returns (row_new dflt cols) (row_ok reset cols)"
  using dflt_reset by (auto simp: row_new_def row_ok_iff intro!: exI [of _ dflt])

lemma row_reset_full:
  assumes "row_ok reset cols r" "1 \<le> cols"
  shows "row_reset discriminant reset t r = Some \<lparr>row_inner = replicate cols (reset t t), row_occ = 0\<rparr>"
proof -
  let ?xs = "row_inner r"
  let ?occ = "if discriminant (?xs ! (cols - 1)) \<noteq> discriminant t then cols else row_occ r"
  obtain t0 where len: "length ?xs = cols" and occ: "row_occ r \<le> cols"
    and t0: "\<And>i. row_occ r \<le> i \<Longrightarrow> i < cols \<Longrightarrow> ?xs ! i = reset t0 t0"
    using assms(1) by (auto simp: row_ok_iff)
  have tail: "?xs ! i = reset t t" if "?occ \<le> i" "i < cols" for i
  proof -
    have d: "discriminant (?xs ! (cols - 1)) = discriminant t" and "row_occ r \<le> i"
      using that by (auto split: if_splits)
    then have "?xs ! (cols - 1) = reset t0 t0" "?xs ! i = reset t0 t0"
      using t0 that by auto
    then have "discriminant t0 = discriminant t"
      using d reset_discriminant by metis
    then show ?thesis
      using \<open>?xs ! i = reset t0 t0\<close> discriminant_reset [of t0 t] reset_any by metis
  qed
  have "map (reset t) (take ?occ ?xs) @ drop ?occ ?xs = replicate cols (reset t t)"
  proof (rule nth_equalityI)
    show "length (map (reset t) (take ?occ ?xs) @ drop ?occ ?xs) = length (replicate cols (reset t t))"
      using len occ by simp
  next
    fix i
    assume "i < length (map (reset t) (take ?occ ?xs) @ drop ?occ ?xs)"
    then have i: "i < cols" using len occ by simp
    show "(map (reset t) (take ?occ ?xs) @ drop ?occ ?xs) ! i = replicate cols (reset t t) ! i"
    proof (cases "i < ?occ")
      case True
      then show ?thesis
        using i len occ reset_any [of t "?xs ! i" t] by (simp add: nth_append)
    next
      case False
      then show ?thesis
        using i len occ tail [of i] by (simp add: nth_append)
    qed
  qed
  moreover have "?xs \<noteq> []" "?occ \<le> cols" using len assms(2) occ by auto
  ultimately show ?thesis
    using len by (simp add: row_reset_def Let_def guard_bind)
qed

lemma row_ok_blank: "row_ok reset cols \<lparr>row_inner = replicate cols (reset t t), row_occ = 0\<rparr>"
  by (auto simp: row_ok_iff)

lemma row_ok_len: "row_ok reset cols r \<Longrightarrow> length (row_inner r) = cols"
  by (simp add: row_ok_iff)

lemma row_mod_ok: "row_ok reset cols r \<Longrightarrow> i < cols \<Longrightarrow> returns (row_mod i f r) (row_ok reset cols)"
  by (auto simp: row_mod_def row_ok_iff)

lemma row_fill_ok:
  "row_ok reset cols r \<Longrightarrow> a \<le> b \<Longrightarrow> b \<le> cols \<Longrightarrow> returns (row_fill a b x r) (row_ok reset cols)"
  by (auto simp: row_fill_def row_ok_iff nth_append)

lemma row_fill_to_ok: "row_ok reset cols r \<Longrightarrow> b \<le> cols \<Longrightarrow> returns (row_fill_to b x r) (row_ok reset cols)"
  by (auto simp: row_fill_to_def row_ok_iff nth_append)

lemma row_fill_from_ok: "row_ok reset cols r \<Longrightarrow> a \<le> cols \<Longrightarrow> returns (row_fill_from a x r) (row_ok reset cols)"
  by (auto simp: row_fill_from_def row_ok_iff)

lemma row_full_mut_ok:
  "row_ok reset cols r \<Longrightarrow> returns (f (row_inner r)) (\<lambda>v. length v = cols) \<Longrightarrow>
   returns (row_full_mut f r) (row_ok reset cols)"
  by (auto simp: row_full_mut_def row_ok_iff elim!: returns_mono)

end

end
