(* ===== verification/Storage.thy ===== *)
theory Storage
  imports Row
begin

text \<open>
  The ring buffer of rows: \<^verbatim>\<open>velacritty_terminal/src/grid/storage.rs\<close>.

  A storage holds the raw buffer \<^verbatim>\<open>inner\<close>, the offset \<^verbatim>\<open>zero\<close> of the bottommost row, the number of
  visible lines and the number \<^verbatim>\<open>len\<close> of active lines (the rest of \<^verbatim>\<open>inner\<close> is a cache of unused rows).
  \<open>st_row s l\<close> is the abstract view the grid works with: the row at a line. The locale \<open>line_buffer\<close>
  states what the grid's loops rely on (reading, updating and swapping lines by number, with the frame of
  each operation), proves the effect of the loops over it once, and is interpreted on the storage.
  The last section shows that the whole buffer refines a plain list of rows.
\<close>

definition MAX_CACHE_SIZE :: nat where
  "MAX_CACHE_SIZE = 1000"

record 'c storage =
  st_inner :: "'c row list"
  st_zero :: nat
  st_visible_lines :: nat
  st_len :: nat

text \<open>\<^verbatim>\<open>inner.resize_with(n, || Row::new(columns))\<close>\<close>

definition resize_rows :: "'c \<Rightarrow> nat \<Rightarrow> nat \<Rightarrow> 'c row list \<Rightarrow> 'c row list option" where
  "resize_rows dflt n cols xs =
     (if n \<le> length xs then Some (take n xs)
      else do {
        r \<leftarrow> row_new dflt cols;
        Some (xs @ replicate (n - length xs) r)
      })"

definition with_capacity :: "'c \<Rightarrow> nat \<Rightarrow> nat \<Rightarrow> 'c storage option" where
  "with_capacity dflt lines cols = do {
     v \<leftarrow> resize_rows dflt lines cols [];
     Some \<lparr>st_inner = v, st_zero = 0, st_visible_lines = lines, st_len = lines\<rparr>
   }"

definition compute_index :: "'c storage \<Rightarrow> int \<Rightarrow> nat option" where
  "compute_index s requested = do {
     guard (requested < int (st_visible_lines s));
     v \<leftarrow> as_usize (- (requested - int (st_visible_lines s)));
     positive \<leftarrow> usub v 1;
     guard (positive < st_len s);
     let zeroed = st_zero s + positive;
     if zeroed \<ge> length (st_inner s) then Some (zeroed - length (st_inner s)) else Some zeroed
   }"

definition rezero :: "'c storage \<Rightarrow> 'c storage option" where
  "rezero s =
     (if st_zero s = 0 then Some s
      else do {
        guard (st_zero s \<le> length (st_inner s));
        Some (s\<lparr>st_inner := rotate (st_zero s) (st_inner s), st_zero := 0\<rparr>)
      })"

definition st_truncate :: "'c storage \<Rightarrow> 'c storage option" where
  "st_truncate s = do {
     s \<leftarrow> rezero s;
     Some (s\<lparr>st_inner := take (st_len s) (st_inner s)\<rparr>)
   }"

definition st_shrink_lines :: "nat \<Rightarrow> 'c storage \<Rightarrow> 'c storage option" where
  "st_shrink_lines shrinkage s = do {
     n \<leftarrow> usub (st_len s) shrinkage;
     let s = s\<lparr>st_len := n\<rparr>;
     if length (st_inner s) > st_len s + MAX_CACHE_SIZE then st_truncate s else Some s
   }"

definition initialize :: "'c \<Rightarrow> nat \<Rightarrow> nat \<Rightarrow> 'c storage \<Rightarrow> 'c storage option" where
  "initialize dflt additional_rows cols s = do {
     s \<leftarrow> (if st_len s + additional_rows > length (st_inner s)
           then do {
             s \<leftarrow> rezero s;
             let realloc_size = length (st_inner s) + max additional_rows MAX_CACHE_SIZE;
             v \<leftarrow> resize_rows dflt realloc_size cols (st_inner s);
             Some (s\<lparr>st_inner := v\<rparr>)
           }
           else Some s);
     Some (s\<lparr>st_len := st_len s + additional_rows\<rparr>)
   }"

definition st_get :: "'c storage \<Rightarrow> int \<Rightarrow> 'c row option" where
  "st_get s l = do { i \<leftarrow> compute_index s l; vget (st_inner s) i }"

definition st_mod :: "int \<Rightarrow> ('c row \<Rightarrow> 'c row option) \<Rightarrow> 'c storage \<Rightarrow> 'c storage option" where
  "st_mod l f s = do {
     i \<leftarrow> compute_index s l;
     r \<leftarrow> vget (st_inner s) i;
     r' \<leftarrow> f r;
     Some (s\<lparr>st_inner := (st_inner s)[i := r']\<rparr>)
   }"

definition st_swap :: "int \<Rightarrow> int \<Rightarrow> 'c storage \<Rightarrow> 'c storage option" where
  "st_swap a b s = do {
     i \<leftarrow> compute_index s a;
     j \<leftarrow> compute_index s b;
     v \<leftarrow> vswap (st_inner s) i j;
     Some (s\<lparr>st_inner := v\<rparr>)
   }"

definition grow_visible_lines :: "'c \<Rightarrow> nat \<Rightarrow> 'c storage \<Rightarrow> 'c storage option" where
  "grow_visible_lines dflt nxt s = do {
     additional_lines \<leftarrow> usub nxt (st_visible_lines s);
     r \<leftarrow> st_get s 0;
     s \<leftarrow> initialize dflt additional_lines (row_len r) s;
     Some (s\<lparr>st_visible_lines := nxt\<rparr>)
   }"

definition shrink_visible_lines :: "nat \<Rightarrow> 'c storage \<Rightarrow> 'c storage option" where
  "shrink_visible_lines nxt s = do {
     shrinkage \<leftarrow> usub (st_visible_lines s) nxt;
     s \<leftarrow> st_shrink_lines shrinkage s;
     Some (s\<lparr>st_visible_lines := nxt\<rparr>)
   }"

definition st_rotate :: "int \<Rightarrow> 'c storage \<Rightarrow> 'c storage option" where
  "st_rotate count s = do {
     guard (\<bar>count\<bar> \<le> int (length (st_inner s)));
     z \<leftarrow> as_usize (int (st_zero s) + count + int (length (st_inner s)));
     guard (length (st_inner s) \<noteq> 0);
     Some (s\<lparr>st_zero := z mod length (st_inner s)\<rparr>)
   }"

definition st_rotate_down :: "nat \<Rightarrow> 'c storage \<Rightarrow> 'c storage option" where
  "st_rotate_down count s = do {
     guard (length (st_inner s) \<noteq> 0);
     Some (s\<lparr>st_zero := (st_zero s + count) mod length (st_inner s)\<rparr>)
   }"

definition replace_inner :: "'c row list \<Rightarrow> 'c storage \<Rightarrow> 'c storage" where
  "replace_inner v s = s\<lparr>st_len := length v, st_inner := v, st_zero := 0\<rparr>"

definition take_all :: "'c storage \<Rightarrow> ('c row list \<times> 'c storage) option" where
  "take_all s = do {
     s \<leftarrow> st_truncate s;
     Some (st_inner s, s\<lparr>st_inner := [], st_len := 0\<rparr>)
   }"

subsection \<open>The view by line\<close>

definition storage_ok :: "('c row \<Rightarrow> bool) \<Rightarrow> 'c storage \<Rightarrow> bool" where
  "storage_ok R s \<longleftrightarrow>
     1 \<le> st_visible_lines s \<and> st_visible_lines s \<le> st_len s \<and> st_len s \<le> length (st_inner s)
     \<and> st_zero s < length (st_inner s) \<and> list_all R (st_inner s)"

text \<open>Lines that may be accessed, and lines that have a row in the raw buffer.\<close>

definition valid_line :: "'c storage \<Rightarrow> int \<Rightarrow> bool" where
  "valid_line s l \<longleftrightarrow> int (st_visible_lines s) - int (st_len s) \<le> l \<and> l < int (st_visible_lines s)"

definition phys_line :: "'c storage \<Rightarrow> int \<Rightarrow> bool" where
  "phys_line s l \<longleftrightarrow>
     int (st_visible_lines s) - int (length (st_inner s)) \<le> l \<and> l < int (st_visible_lines s)"

definition st_pos :: "'c storage \<Rightarrow> int \<Rightarrow> nat" where
  "st_pos s l = (st_zero s + nat (int (st_visible_lines s) - 1 - l)) mod length (st_inner s)"

definition st_row :: "'c storage \<Rightarrow> int \<Rightarrow> 'c row" where
  "st_row s l = st_inner s ! st_pos s l"

definition st_shape :: "'c storage \<Rightarrow> nat \<times> nat \<times> nat \<times> nat" where
  "st_shape s = (length (st_inner s), st_zero s, st_visible_lines s, st_len s)"

lemmas storage_line_defs = valid_line_def phys_line_def st_pos_def st_shape_def

lemma valid_phys: "storage_ok R s \<Longrightarrow> valid_line s l \<Longrightarrow> phys_line s l"
  by (auto simp: storage_ok_def storage_line_defs)

lemma st_pos_less: "storage_ok R s \<Longrightarrow> st_pos s l < length (st_inner s)"
  by (auto simp: storage_ok_def st_pos_def intro: mod_less_divisor)

lemma mod_small_eq:
  assumes "(a::nat) < 2 * n"
  shows "a mod n = (if a \<ge> n then a - n else a)"
  using assms by (simp add: mod_if)

lemma mod_shift_inject:
  assumes "(p::nat) < n" "q < n" "(z + p) mod n = (z + q) mod n"
  shows "p = q"
proof -
  have y: "z mod n < n" using assms by simp
  have "(z mod n + p) mod n = (z mod n + q) mod n"
    using assms(3) by (simp add: mod_add_left_eq)
  then show ?thesis
    using assms(1,2) y by (simp add: mod_small_eq split: if_splits)
qed

lemma st_pos_inject:
  assumes "phys_line s l" "phys_line s l'"
  shows "st_pos s l = st_pos s l' \<longleftrightarrow> l = l'"
proof
  assume "st_pos s l = st_pos s l'"
  then have "nat (int (st_visible_lines s) - 1 - l) = nat (int (st_visible_lines s) - 1 - l')"
    unfolding st_pos_def
    by (rule mod_shift_inject [rotated 2]) (use assms in \<open>auto simp: phys_line_def\<close>)
  then show "l = l'" using assms by (auto simp: phys_line_def)
qed simp

lemma compute_index_pos:
  assumes "storage_ok R s" "valid_line s l"
  shows "compute_index s l = Some (st_pos s l)"
proof -
  have "nat (int (st_visible_lines s) - l) - Suc 0 = nat (int (st_visible_lines s) - 1 - l)"
    using assms by (auto simp: valid_line_def)
  then show ?thesis
    using assms
    by (auto simp: compute_index_def storage_ok_def valid_line_def st_pos_def Let_def guard_bind
        mod_small_eq usub_def)
qed

text \<open>Outside the valid lines every access panics.\<close>

lemma compute_index_None:
  assumes "\<not> valid_line s l"
  shows "compute_index s l = None"
  using assms
  by (auto simp: compute_index_def valid_line_def guard_bind usub_def as_usize_def)

lemma st_row_update:
  assumes "storage_ok R s" "phys_line s l" "phys_line s l'"
  shows "st_row (s\<lparr>st_inner := (st_inner s)[st_pos s l := r]\<rparr>) l' = (if l' = l then r else st_row s l')"
proof -
  have "st_pos (s\<lparr>st_inner := (st_inner s)[st_pos s l := r]\<rparr>) l' = st_pos s l'"
    by (simp add: st_pos_def)
  then show ?thesis
    using st_pos_inject [OF assms(2,3)] st_pos_less [OF assms(1), of l]
    by (auto simp: st_row_def)
qed

lemma st_row_R: "storage_ok R s \<Longrightarrow> R (st_row s l)"
  using st_pos_less [of R s l] by (auto simp: storage_ok_def st_row_def list_all_iff)

lemma st_get_row: "storage_ok R s \<Longrightarrow> valid_line s l \<Longrightarrow> st_get s l = Some (st_row s l)"
  using st_pos_less [of R s l] by (simp add: st_get_def compute_index_pos st_row_def)

lemma storage_ok_update:
  "storage_ok R s \<Longrightarrow> R r \<Longrightarrow> storage_ok R (s\<lparr>st_inner := (st_inner s)[i := r]\<rparr>)"
  by (auto simp: storage_ok_def list_all_iff dest!: set_update_subset_insert [THEN subsetD])

lemma st_mod_row:
  assumes "storage_ok R s" "valid_line s l" "f (st_row s l) = Some r" "R r"
  shows "\<exists>s'. st_mod l f s = Some s' \<and> storage_ok R s' \<and> st_shape s' = st_shape s
    \<and> (\<forall>l'. phys_line s l' \<longrightarrow> st_row s' l' = (if l' = l then r else st_row s l'))"
proof (intro exI conjI allI impI)
  let ?s' = "s\<lparr>st_inner := (st_inner s)[st_pos s l := r]\<rparr>"
  show "st_mod l f s = Some ?s'"
    using assms st_pos_less [OF assms(1), of l]
    by (simp add: st_mod_def compute_index_pos st_row_def)
  show "storage_ok R ?s'" by (rule storage_ok_update [OF assms(1,4)])
  show "st_shape ?s' = st_shape s" by (simp add: st_shape_def)
  show "st_row ?s' l' = (if l' = l then r else st_row s l')" if "phys_line s l'" for l'
    by (rule st_row_update [OF assms(1) valid_phys [OF assms(1,2)] that])
qed

lemma st_swap_row:
  assumes "storage_ok R s" "valid_line s a" "valid_line s b"
  shows "\<exists>s'. st_swap a b s = Some s' \<and> storage_ok R s' \<and> st_shape s' = st_shape s
    \<and> (\<forall>l. phys_line s l \<longrightarrow>
       st_row s' l = (if l = a then st_row s b else if l = b then st_row s a else st_row s l))"
proof (intro exI conjI allI impI)
  let ?i = "st_pos s a" and ?j = "st_pos s b" and ?v = "st_inner s"
  let ?s' = "s\<lparr>st_inner := ?v[?i := ?v ! ?j, ?j := ?v ! ?i]\<rparr>"
  have ij: "?i < length ?v" "?j < length ?v" using st_pos_less [OF assms(1)] by auto
  show "st_swap a b s = Some ?s'"
    using assms ij by (simp add: st_swap_def compute_index_pos vswap_def)
  have "set (?v[?i := ?v ! ?j, ?j := ?v ! ?i]) = set ?v"
    using ij by (rule set_vswap)
  then show "storage_ok R ?s'"
    using assms(1) unfolding storage_ok_def list_all_iff by simp
  show "st_shape ?s' = st_shape s" by (simp add: st_shape_def)
  fix l assume l: "phys_line s l"
  have "st_row ?s' l = ?v[?i := ?v ! ?j, ?j := ?v ! ?i] ! st_pos s l"
    by (simp add: st_row_def st_pos_def)
  also have "\<dots> = (if st_pos s l = ?i then ?v ! ?j else if st_pos s l = ?j then ?v ! ?i
                  else ?v ! st_pos s l)"
    by (rule nth_swap [OF ij st_pos_less [OF assms(1)]])
  finally show "st_row ?s' l = (if l = a then st_row s b else if l = b then st_row s a else st_row s l)"
    using st_pos_inject [OF l valid_phys [OF assms(1,2)]] st_pos_inject [OF l valid_phys [OF assms(1,3)]]
    by (simp add: st_row_def)
qed

lemma valid_line_shape: "st_shape s = st_shape s' \<Longrightarrow> valid_line s l = valid_line s' l"
  by (simp add: storage_line_defs)

lemma phys_line_shape: "st_shape s = st_shape s' \<Longrightarrow> phys_line s l = phys_line s' l"
  by (simp add: storage_line_defs)

subsection \<open>The interface of the grid's loops\<close>

locale line_buffer =
  fixes ok :: "'s \<Rightarrow> bool"
    and R :: "'r \<Rightarrow> bool"
    and shape :: "'s \<Rightarrow> 'x"
    and valid :: "'s \<Rightarrow> int \<Rightarrow> bool"
    and phys :: "'s \<Rightarrow> int \<Rightarrow> bool"
    and row :: "'s \<Rightarrow> int \<Rightarrow> 'r"
    and modify :: "int \<Rightarrow> ('r \<Rightarrow> 'r option) \<Rightarrow> 's \<Rightarrow> 's option"
    and swap :: "int \<Rightarrow> int \<Rightarrow> 's \<Rightarrow> 's option"
  assumes valid_is_phys: "ok s \<Longrightarrow> valid s l \<Longrightarrow> phys s l"
    and valid_by_shape: "shape s = shape s' \<Longrightarrow> valid s l = valid s' l"
    and phys_by_shape: "shape s = shape s' \<Longrightarrow> phys s l = phys s' l"
    and row_has_R: "ok s \<Longrightarrow> R (row s l)"
    and modify_law: "ok s \<Longrightarrow> valid s l \<Longrightarrow> f (row s l) = Some r \<Longrightarrow> R r \<Longrightarrow>
      \<exists>s'. modify l f s = Some s' \<and> ok s' \<and> shape s' = shape s
        \<and> (\<forall>l'. phys s l' \<longrightarrow> row s' l' = (if l' = l then r else row s l'))"
    and swap_law: "ok s \<Longrightarrow> valid s a \<Longrightarrow> valid s b \<Longrightarrow>
      \<exists>s'. swap a b s = Some s' \<and> ok s' \<and> shape s' = shape s
        \<and> (\<forall>l. phys s l \<longrightarrow> row s' l = (if l = a then row s b else if l = b then row s a else row s l))"
begin

text \<open>\<open>s'\<close> has the shape of \<open>s\<close> and the rows \<open>v\<close>.\<close>

definition has_rows :: "'s \<Rightarrow> (int \<Rightarrow> 'r) \<Rightarrow> 's \<Rightarrow> bool" where
  "has_rows s v s' \<longleftrightarrow> ok s' \<and> shape s' = shape s \<and> (\<forall>l. phys s l \<longrightarrow> row s' l = v l)"

lemma modify_returns:
  assumes "ok s" "valid s l" "f (row s l) = Some r" "R r"
  shows "returns (modify l f s) (has_rows s (\<lambda>l'. if l' = l then r else row s l'))"
  using modify_law [OF assms(1,2), of f r] assms(3,4) by (auto simp: returns_def has_rows_def)

lemma modify_loop:
  assumes "ok s" "distinct ls" "\<And>l. l \<in> set ls \<Longrightarrow> valid s l"
    and "\<And>l. l \<in> set ls \<Longrightarrow> f (row s l) = Some (g l) \<and> R (g l)"
  shows "returns (mfold (\<lambda>l. modify l f) ls s)
           (has_rows s (\<lambda>l. if l \<in> set ls then g l else row s l))"
proof (rule mfold_rule [where
      I = "\<lambda>i. has_rows s (\<lambda>l. if l \<in> set (take i ls) then g l else row s l)"])
  show "has_rows s (\<lambda>l. if l \<in> set (take 0 ls) then g l else row s l) s"
    using assms(1) by (simp add: has_rows_def)
next
  fix i s1
  assume i: "i < length ls"
    and s1: "has_rows s (\<lambda>l. if l \<in> set (take i ls) then g l else row s l) s1"
  let ?l = "ls ! i"
  have mem: "?l \<in> set ls" "?l \<notin> set (take i ls)"
    using i assms(2) by (auto simp: in_set_conv_nth nth_eq_iff_index_eq)
  have sh: "shape s1 = shape s" and ok1: "ok s1" using s1 by (auto simp: has_rows_def)
  have v: "valid s1 ?l" "phys s ?l"
    using assms(3) [OF mem(1)] valid_by_shape [OF sh] valid_is_phys [OF assms(1)] by auto
  have "row s1 ?l = row s ?l" using s1 v mem by (simp add: has_rows_def)
  then have "returns (modify ?l f s1) (has_rows s1 (\<lambda>l'. if l' = ?l then g ?l else row s1 l'))"
    using modify_returns [OF ok1 v(1), of f "g ?l"] assms(4) [OF mem(1)] by simp
  then show "returns (modify ?l f s1)
      (has_rows s (\<lambda>l. if l \<in> set (take (Suc i) ls) then g l else row s l))"
    by (rule returns_mono)
      (use s1 sh i phys_by_shape [OF sh] in \<open>auto simp: has_rows_def take_Suc_conv_app_nth\<close>)
qed simp

text \<open>The upward swap loop \<^verbatim>\<open>for i in a..b-k { swap(i, i + k) }\<close> moves the lines of \<open>a..b\<close> up by \<open>k\<close>; the
  first \<open>k\<close> rows end up, in some order, in the last \<open>k\<close> lines.\<close>

definition shifted_up :: "'s \<Rightarrow> int \<Rightarrow> int \<Rightarrow> int \<Rightarrow> 's \<Rightarrow> bool" where
  "shifted_up s a b k s' \<longleftrightarrow> ok s' \<and> shape s' = shape s
     \<and> (\<forall>l. phys s l \<longrightarrow>
          (l < a \<or> b \<le> l \<longrightarrow> row s' l = row s l)
          \<and> (a \<le> l \<and> l < b - k \<longrightarrow> row s' l = row s (l + k))
          \<and> (b - k \<le> l \<and> l < b \<longrightarrow> (\<exists>l'. a \<le> l' \<and> l' < a + k \<and> row s' l = row s l')))"

lemma shift_up_step:
  assumes "ok s" "0 \<le> k" "\<And>l. a \<le> l \<Longrightarrow> l < b + k + 1 \<Longrightarrow> valid s l" "a \<le> b"
    and "shifted_up s a (b + k) k s1"
  shows "returns (swap b (b + k) s1) (shifted_up s a (b + 1 + k) k)"
    "returns (swap (b + k) b s1) (shifted_up s a (b + 1 + k) k)"
proof -
  have sh: "shape s1 = shape s" and ok1: "ok s1" using assms(5) by (auto simp: shifted_up_def)
  have v: "valid s1 b" "valid s1 (b + k)" using assms(2,3,4) valid_by_shape [OF sh] by auto
  have p: "phys s l" if "a \<le> l" "l < b + k + 1" for l
    using assms(1,3) valid_is_phys that by blast
  have win: "0 < k \<Longrightarrow> \<exists>l'. a \<le> l' \<and> l' < a + k \<and> row s1 b = row s l'"
    using assms(5) p [of b] assms(2,4) by (auto simp: shifted_up_def)
  have up: "row s1 (b + k) = row s (b + k)"
    using assms(5) p [of "b + k"] assms(2,4) by (auto simp: shifted_up_def)
  have *: "shifted_up s a (b + 1 + k) k s2"
    if s2: "ok s2" "shape s2 = shape s1"
      "\<And>l. phys s1 l \<Longrightarrow> row s2 l =
         (if l = b then row s1 (b + k) else if l = b + k then row s1 b else row s1 l)" for s2
  proof -
    have r: "row s2 l = (if l = b then row s (b + k) else if l = b + k then row s1 b else row s1 l)"
      if "phys s l" for l
      using s2(3) [of l] that up phys_by_shape [OF sh] by simp
    show ?thesis
      unfolding shifted_up_def
    proof (intro conjI allI impI)
      fix l assume l: "phys s l"
      note s1 = assms(5) [unfolded shifted_up_def, THEN conjunct2, THEN conjunct2, rule_format, OF l]
      show "row s2 l = row s l" if "l < a \<or> b + 1 + k \<le> l"
        using r [OF l] s1 that assms(2,4) by auto
      show "row s2 l = row s (l + k)" if "a \<le> l \<and> l < b + 1 + k - k"
        using r [OF l] s1 that assms(2) by auto
      show "\<exists>l'. a \<le> l' \<and> l' < a + k \<and> row s2 l = row s l'"
        if "b + 1 + k - k \<le> l \<and> l < b + 1 + k"
        using r [OF l] s1 that win by (cases "l = b + k") auto
    qed (use s2 sh in auto)
  qed
  show "returns (swap b (b + k) s1) (shifted_up s a (b + 1 + k) k)"
    using swap_law [OF ok1 v] * by (auto simp: returns_def)
  show "returns (swap (b + k) b s1) (shifted_up s a (b + 1 + k) k)"
    using swap_law [OF ok1 v(2,1)] * assms(2) by (fastforce simp: returns_def)
qed

lemma shift_up_loop:
  assumes "ok s" "0 \<le> k" "a + k \<le> b" "\<And>l. a \<le> l \<Longrightarrow> l < b \<Longrightarrow> valid s l"
  shows "returns (mfold (\<lambda>i. swap i (i + k)) (irange a (b - k)) s) (shifted_up s a b k)"
    "returns (mfold (\<lambda>i. swap (i + k) i) (irange a (b - k)) s) (shifted_up s a b k)"
proof -
  have start: "shifted_up s a (a + int 0 + k) k s"
    using assms(1,2) by (auto simp: shifted_up_def)
  have len: "a + int (length (irange a (b - k))) + k = b"
    using assms(3) by simp
  have step: "returns (swap (irange a (b - k) ! i) (irange a (b - k) ! i + k) s1)
        (shifted_up s a (a + int (Suc i) + k) k)"
      "returns (swap (irange a (b - k) ! i + k) (irange a (b - k) ! i) s1)
        (shifted_up s a (a + int (Suc i) + k) k)"
    if i: "i < length (irange a (b - k))" "shifted_up s a (a + int i + k) k s1" for i s1
  proof -
    have e: "irange a (b - k) ! i = a + int i" "a + int (Suc i) + k = a + int i + 1 + k" using i by auto
    have v: "valid s l" if "a \<le> l" "l < a + int i + k + 1" for l
      by (rule assms(4)) (use that i in auto)
    have "a \<le> a + int i" by simp
    note st = shift_up_step [OF assms(1,2) v this i(2)]
    show "returns (swap (irange a (b - k) ! i) (irange a (b - k) ! i + k) s1)
        (shifted_up s a (a + int (Suc i) + k) k)"
      unfolding e by (rule st(1))
    show "returns (swap (irange a (b - k) ! i + k) (irange a (b - k) ! i) s1)
        (shifted_up s a (a + int (Suc i) + k) k)"
      unfolding e by (rule st(2))
  qed
  show "returns (mfold (\<lambda>i. swap i (i + k)) (irange a (b - k)) s) (shifted_up s a b k)"
    by (rule mfold_rule [where I = "\<lambda>i. shifted_up s a (a + int i + k) k"])
      (rule start, erule (1) step, simp only: len)
  show "returns (mfold (\<lambda>i. swap (i + k) i) (irange a (b - k)) s) (shifted_up s a b k)"
    by (rule mfold_rule [where I = "\<lambda>i. shifted_up s a (a + int i + k) k"])
      (rule start, erule (1) step, simp only: len)
qed

text \<open>The contract is symmetric in the direction of the lines, which gives the downward loop.\<close>

lemma mirrored:
  "line_buffer ok R shape (\<lambda>s l. valid s (- l)) (\<lambda>s l. phys s (- l)) (\<lambda>s l. row s (- l))
     (\<lambda>l. modify (- l)) (\<lambda>a b. swap (- a) (- b))"
proof
  fix s l f r
  assume *: "ok s" "valid s (- l)" "f (row s (- l)) = Some r" "R r"
  show "\<exists>s'. modify (- l) f s = Some s' \<and> ok s' \<and> shape s' = shape s
        \<and> (\<forall>l'. phys s (- l') \<longrightarrow> row s' (- l') = (if l' = l then r else row s (- l')))"
    using modify_law [OF *(1,2), of f r] *(3,4) by fastforce
next
  fix s a b
  assume *: "ok s" "valid s (- a)" "valid s (- b)"
  show "\<exists>s'. swap (- a) (- b) s = Some s' \<and> ok s' \<and> shape s' = shape s
        \<and> (\<forall>l. phys s (- l) \<longrightarrow> row s' (- l) =
            (if l = a then row s (- b) else if l = b then row s (- a) else row s (- l)))"
    using swap_law [OF *] by fastforce
qed (auto dest: valid_is_phys row_has_R valid_by_shape phys_by_shape)

definition shifted_down :: "'s \<Rightarrow> int \<Rightarrow> int \<Rightarrow> int \<Rightarrow> 's \<Rightarrow> bool" where
  "shifted_down s a b k s' \<longleftrightarrow> ok s' \<and> shape s' = shape s
     \<and> (\<forall>l. phys s l \<longrightarrow>
          (l < a \<or> b \<le> l \<longrightarrow> row s' l = row s l)
          \<and> (a + k \<le> l \<and> l < b \<longrightarrow> row s' l = row s (l - k))
          \<and> (a \<le> l \<and> l < a + k \<longrightarrow> (\<exists>l'. b - k \<le> l' \<and> l' < b \<and> row s' l = row s l')))"

lemma shift_down_loop:
  assumes "ok s" "0 \<le> k" "a + k \<le> b" "\<And>l. a \<le> l \<Longrightarrow> l < b \<Longrightarrow> valid s l"
  shows "returns (mfold (\<lambda>i. swap i (i - k)) (rev (irange (a + k) b)) s) (shifted_down s a b k)"
proof -
  have "returns (mfold (\<lambda>i. swap (- i) (- (i + k))) (irange (1 - b) (1 - a - k)) s)
      (line_buffer.shifted_up ok shape (\<lambda>s l. phys s (- l)) (\<lambda>s l. row s (- l)) s (1 - b) (1 - a) k)"
    by (rule line_buffer.shift_up_loop(1) [OF mirrored]) (use assms in auto)
  then have "returns (mfold (\<lambda>i. swap i (i - k)) (rev (irange (a + k) b)) s)
      (line_buffer.shifted_up ok shape (\<lambda>s l. phys s (- l)) (\<lambda>s l. row s (- l)) s (1 - b) (1 - a) k)"
    by (simp add: rev_irange mfold_map diff_diff_eq)
  then show ?thesis
  proof (rule returns_mono)
    fix s'
    assume *: "line_buffer.shifted_up ok shape (\<lambda>s l. phys s (- l)) (\<lambda>s l. row s (- l)) s (1 - b) (1 - a) k s'"
    show "shifted_down s a b k s'"
      unfolding shifted_down_def
    proof (intro conjI allI impI)
      fix l assume l: "phys s l"
      note m = * [unfolded line_buffer.shifted_up_def [OF mirrored], THEN conjunct2, THEN conjunct2,
          rule_format, of "- l", simplified, OF l]
      show "row s' l = row s l" if "l < a \<or> b \<le> l" using m that by auto
      show "row s' l = row s (l - k)" if "a + k \<le> l \<and> l < b" using m that by auto
      show "\<exists>l'. b - k \<le> l' \<and> l' < b \<and> row s' l = row s l'" if al: "a \<le> l \<and> l < a + k"
      proof -
        obtain l' where "1 - b \<le> l'" "l' < 1 - b + k" "row s' l = row s (- l')"
          using m al by auto
        then show ?thesis by (intro exI [of _ "- l'"]) auto
      qed
    qed (use * in \<open>auto simp: line_buffer.shifted_up_def [OF mirrored]\<close>)
  qed
qed

end

interpretation storage: line_buffer "storage_ok R" R st_shape valid_line phys_line st_row st_mod st_swap
  for R :: "'c row \<Rightarrow> bool"
  by unfold_locales
    (erule (1) valid_phys, erule valid_line_shape, erule phys_line_shape, erule st_row_R,
     (rule st_mod_row, assumption+), (rule st_swap_row, assumption+))

subsection \<open>Operations on the whole buffer\<close>

text \<open>The row at a distance from the bottom of the buffer.\<close>

definition st_at :: "'c storage \<Rightarrow> nat \<Rightarrow> 'c row" where
  "st_at s p = st_inner s ! ((st_zero s + p) mod length (st_inner s))"

text \<open>The part of \<open>storage_ok\<close> that does not involve the number of visible lines.\<close>

definition ring_ok :: "('c row \<Rightarrow> bool) \<Rightarrow> 'c storage \<Rightarrow> bool" where
  "ring_ok R s \<longleftrightarrow> 1 \<le> st_len s \<and> st_len s \<le> length (st_inner s)
     \<and> st_zero s < length (st_inner s) \<and> list_all R (st_inner s)"

lemma storage_ok_ring:
  "storage_ok R s \<longleftrightarrow> ring_ok R s \<and> 1 \<le> st_visible_lines s \<and> st_visible_lines s \<le> st_len s"
  by (auto simp: storage_ok_def ring_ok_def)

lemma st_row_at: "st_row s l = st_at s (nat (int (st_visible_lines s) - 1 - l))"
  by (simp add: st_row_def st_at_def st_pos_def)

lemma st_at_less: "ring_ok R s \<Longrightarrow> (st_zero s + p) mod length (st_inner s) < length (st_inner s)"
  by (auto simp: ring_ok_def intro: mod_less_divisor)

lemma list_all_rotate [simp]: "list_all P (rotate n xs) \<longleftrightarrow> list_all P xs"
  by (simp add: list_all_iff)

lemma rezero_returns:
  assumes "ring_ok R s"
  shows "returns (rezero s) (\<lambda>s'. ring_ok R s' \<and> st_zero s' = 0 \<and> st_len s' = st_len s
     \<and> st_visible_lines s' = st_visible_lines s \<and> length (st_inner s') = length (st_inner s)
     \<and> (\<forall>p < length (st_inner s). st_at s' p = st_at s p))"
  using assms by (auto simp: rezero_def ring_ok_def st_at_def nth_rotate)

lemma truncate_returns:
  assumes "ring_ok R s"
  shows "returns (st_truncate s) (\<lambda>s'. ring_ok R s' \<and> st_zero s' = 0 \<and> st_len s' = st_len s
     \<and> st_visible_lines s' = st_visible_lines s \<and> length (st_inner s') = st_len s
     \<and> (\<forall>p < st_len s. st_at s' p = st_at s p))"
proof -
  have "st_len s \<le> length (st_inner s)" using assms by (simp add: ring_ok_def)
  with rezero_returns [OF assms] show ?thesis
    unfolding st_truncate_def returns_bind
    by (elim returns_mono) (auto simp: ring_ok_def st_at_def list_all_iff dest: in_set_takeD)
qed

lemma shrink_lines_returns:
  assumes "ring_ok R s" "k < st_len s"
  shows "returns (st_shrink_lines k s) (\<lambda>s'. ring_ok R s' \<and> st_len s' = st_len s - k
     \<and> st_visible_lines s' = st_visible_lines s
     \<and> (\<forall>p < st_len s - k. st_at s' p = st_at s p))"
proof -
  let ?s = "s\<lparr>st_len := st_len s - k\<rparr>"
  have ok: "ring_ok R ?s" using assms by (auto simp: ring_ok_def)
  have at: "st_at ?s p = st_at s p" for p by (simp add: st_at_def)
  show ?thesis
    using truncate_returns [OF ok] ok assms at
    by (auto simp: st_shrink_lines_def Let_def elim!: returns_mono)
qed

lemma resize_rows_returns:
  assumes "R \<lparr>row_inner = replicate cols dflt, row_occ = 0\<rparr>" "1 \<le> cols" "list_all R xs" "length xs \<le> n"
  shows "returns (resize_rows dflt n cols xs)
    (\<lambda>v. list_all R v \<and> length v = n \<and> (\<forall>i < length xs. v ! i = xs ! i))"
  using assms by (auto simp: resize_rows_def row_new_def guard_bind nth_append list_all_iff)

lemma initialize_returns:
  assumes "ring_ok R s" "1 \<le> cols" "R \<lparr>row_inner = replicate cols dflt, row_occ = 0\<rparr>"
  shows "returns (initialize dflt k cols s) (\<lambda>s'. ring_ok R s' \<and> st_len s' = st_len s + k
     \<and> st_visible_lines s' = st_visible_lines s \<and> length (st_inner s) \<le> length (st_inner s')
     \<and> (\<forall>p < length (st_inner s). st_at s' p = st_at s p))"
proof (cases "st_len s + k > length (st_inner s)")
  case False
  then show ?thesis
    using assms by (auto simp: initialize_def ring_ok_def st_at_def)
next
  case True
  let ?n = "length (st_inner s) + max k MAX_CACHE_SIZE"
  have grow: "returns (resize_rows dflt ?n cols (st_inner s1))
      (\<lambda>v. ring_ok R (s1\<lparr>st_inner := v, st_len := st_len s + k\<rparr>)
         \<and> length v = ?n \<and> (\<forall>p < length (st_inner s). st_at (s1\<lparr>st_inner := v, st_len := st_len s + k\<rparr>) p = st_at s p))"
    if s1: "ring_ok R s1" "st_zero s1 = 0" "length (st_inner s1) = length (st_inner s)"
      "\<forall>p < length (st_inner s). st_at s1 p = st_at s p" "st_len s1 = st_len s" for s1
  proof -
    have "returns (resize_rows dflt ?n cols (st_inner s1))
      (\<lambda>v. list_all R v \<and> length v = ?n \<and> (\<forall>i < length (st_inner s1). v ! i = st_inner s1 ! i))"
      by (rule resize_rows_returns) (use assms s1 in \<open>auto simp: ring_ok_def\<close>)
    then show ?thesis
      by (rule returns_mono) (use s1 assms in \<open>auto simp: ring_ok_def st_at_def\<close>)
  qed
  show ?thesis
    using True rezero_returns [OF assms(1)]
    by (auto simp: initialize_def Let_def elim!: returns_mono dest!: grow)
qed

text \<open>Rotation renumbers the lines: \<open>count\<close> positive moves every row \<open>count\<close> lines down.\<close>

definition wrap_line :: "'c storage \<Rightarrow> int \<Rightarrow> int" where
  "wrap_line s l =
     (if l \<ge> int (st_visible_lines s) then l - int (length (st_inner s))
      else if l < int (st_visible_lines s) - int (length (st_inner s)) then l + int (length (st_inner s))
      else l)"

lemma mod_add_shift:
  assumes "(z::nat) < n" "\<bar>c\<bar> \<le> int n" "p < n"
  shows "(nat (int z + c + int n) mod n + p) mod n =
    (z + nat (if int p + c < 0 then int p + c + int n
              else if int p + c \<ge> int n then int p + c - int n else int p + c)) mod n"
proof -
  let ?q = "if int p + c < 0 then int p + c + int n
            else if int p + c \<ge> int n then int p + c - int n else int p + c"
  have q: "0 \<le> ?q" "\<exists>k. ?q = int p + c + k * int n"
    using assms by (auto intro: exI [of _ 1] exI [of _ "- 1"] exI [of _ 0])
  then obtain k where k: "?q = int p + c + k * int n" by blast
  have "int ((nat (int z + c + int n) mod n + p) mod n) = (int z + c + int n + int p) mod int n"
    using assms by (simp add: of_nat_mod mod_add_left_eq)
  also have "\<dots> = (int z + ?q) mod int n"
    unfolding k by (metis (no_types, opaque_lifting) add.assoc add.commute mod_add_self2 mod_mult_self1)
  also have "\<dots> = int ((z + nat ?q) mod n)"
    using q by (simp add: of_nat_mod)
  finally show ?thesis by linarith
qed

lemma st_at_rotated:
  assumes "ring_ok R s" "\<bar>c\<bar> \<le> int (length (st_inner s))" "phys_line s l"
    and "s' = s\<lparr>st_zero := nat (int (st_zero s) + c + int (length (st_inner s))) mod length (st_inner s)\<rparr>"
  shows "st_row s' l = st_row s (wrap_line s (l - c))"
proof -
  let ?n = "length (st_inner s)" and ?p = "nat (int (st_visible_lines s) - 1 - l)"
  have z: "st_zero s < ?n" using assms(1) by (simp add: ring_ok_def)
  have p: "?p < ?n" "int ?p = int (st_visible_lines s) - 1 - l" using assms(3) by (auto simp: phys_line_def)
  have "int (st_visible_lines s) - 1 - wrap_line s (l - c) =
      (if int ?p + c < 0 then int ?p + c + int ?n
       else if int ?p + c \<ge> int ?n then int ?p + c - int ?n else int ?p + c)"
    using p(2) by (auto simp: wrap_line_def)
  then show ?thesis
    using mod_add_shift [OF z assms(2) p(1)] assms(4) by (simp add: st_row_at st_at_def)
qed

lemma rotate_returns:
  assumes "storage_ok R s" "\<bar>c\<bar> \<le> int (length (st_inner s))"
  shows "returns (st_rotate c s) (\<lambda>s'. storage_ok R s'
     \<and> st_len s' = st_len s \<and> st_visible_lines s' = st_visible_lines s \<and> st_inner s' = st_inner s
     \<and> (\<forall>l. phys_line s l \<longrightarrow> st_row s' l = st_row s (wrap_line s (l - c))))"
proof -
  have "0 < length (st_inner s)" using assms by (auto simp: storage_ok_def)
  then show ?thesis
    using assms st_at_rotated [of R s c] mod_less_divisor [of "length (st_inner s)"]
    by (auto simp: st_rotate_def storage_ok_ring ring_ok_def)
qed

lemma rotate_down_returns:
  assumes "storage_ok R s" "k \<le> length (st_inner s)"
  shows "returns (st_rotate_down k s) (\<lambda>s'. storage_ok R s'
     \<and> st_len s' = st_len s \<and> st_visible_lines s' = st_visible_lines s \<and> st_inner s' = st_inner s
     \<and> (\<forall>l. phys_line s l \<longrightarrow> st_row s' l = st_row s (wrap_line s (l - int k))))"
proof -
  have "(st_zero s + k) mod length (st_inner s) =
      nat (int (st_zero s) + int k + int (length (st_inner s))) mod length (st_inner s)"
    by (simp add: nat_add_distrib nat_int_add)
  moreover have "0 < length (st_inner s)" using assms by (auto simp: storage_ok_def)
  ultimately show ?thesis
    using assms st_at_rotated [of R s "int k"] mod_less_divisor [of "length (st_inner s)"]
    by (auto simp: st_rotate_down_def storage_ok_ring ring_ok_def)
qed

lemma with_capacity_returns:
  assumes "1 \<le> lines" "1 \<le> cols" "R \<lparr>row_inner = replicate cols dflt, row_occ = 0\<rparr>"
  shows "returns (with_capacity dflt lines cols) (\<lambda>s. storage_ok R s \<and> st_len s = lines
     \<and> st_visible_lines s = lines
     \<and> (\<forall>l. st_row s l = \<lparr>row_inner = replicate cols dflt, row_occ = 0\<rparr>))"
  using assms
  by (auto simp: with_capacity_def resize_rows_def row_new_def storage_ok_def st_row_def st_pos_def
      list_all_iff)

subsection \<open>Refinement to a list of rows\<close>

text \<open>The active rows, bottommost first.\<close>

definition st_rows :: "'c storage \<Rightarrow> 'c row list" where
  "st_rows s = take (st_len s) (rotate (st_zero s) (st_inner s))"

lemma st_rows_at:
  assumes "ring_ok R s"
  shows "st_rows s = map (st_at s) [0..<st_len s]"
proof (rule nth_equalityI)
  show "length (st_rows s) = length (map (st_at s) [0..<st_len s])"
    using assms by (simp add: st_rows_def ring_ok_def)
  fix i assume "i < length (st_rows s)"
  then show "st_rows s ! i = map (st_at s) [0..<st_len s] ! i"
    using assms by (simp add: st_rows_def st_at_def ring_ok_def nth_rotate)
qed

lemma st_rows_eqI:
  "ring_ok R s \<Longrightarrow> ring_ok R' s' \<Longrightarrow> st_len s' = st_len s \<Longrightarrow> \<forall>p < st_len s. st_at s' p = st_at s p \<Longrightarrow>
   st_rows s' = st_rows s"
  by (simp add: st_rows_at)

end
