(* ===== verification/Index_Types.thy ===== *)
theory Index_Types
  imports Prelude
begin

text \<open>
  Grid coordinates: \<^verbatim>\<open>velacritty_terminal/src/index.rs\<close> and the trait \<^verbatim>\<open>Dimensions\<close> of
  \<^verbatim>\<open>velacritty_terminal/src/grid/mod.rs\<close>.

  A \<^verbatim>\<open>Line\<close> is an \<open>int\<close> (0 is the top of the active screen, negative lines are history) and a
  \<^verbatim>\<open>Column\<close> a \<open>nat\<close>; the newtypes only forward the arithmetic of \<^verbatim>\<open>i32\<close> and \<^verbatim>\<open>usize\<close>. Line numbers are
  bounded by the number of stored lines, which configuration caps far below the range of \<^verbatim>\<open>i32\<close>, so
  they are unbounded integers here. \<^verbatim>\<open>Row::new\<close> asserts at least one column, hence \<^verbatim>\<open>last_column\<close>
  never underflows. The trait is a record of its three required methods; the provided methods are
  functions on it. The results are a complete description of \<^verbatim>\<open>Point::add\<close> and \<^verbatim>\<open>Point::sub\<close> as
  saturating arithmetic on the linear cell index, and of the clamping functions.
\<close>

datatype direction = DirLeft | DirRight

fun opposite :: "direction \<Rightarrow> direction" where
  "opposite DirRight = DirLeft"
| "opposite DirLeft = DirRight"

lemma opposite_involutive [simp]: "opposite (opposite d) = d"
  by (cases d) simp_all

datatype boundary = BCursor | BGrid | BNone

subsection \<open>Points\<close>

datatype 'l gpoint = Point (p_line: 'l) (p_column: nat)

type_synonym point = "int gpoint"

instantiation gpoint :: (linorder) linorder
begin

definition less_eq_gpoint :: "'a gpoint \<Rightarrow> 'a gpoint \<Rightarrow> bool" where
  "less_eq_gpoint p q \<longleftrightarrow> p_line p < p_line q \<or> (p_line p = p_line q \<and> p_column p \<le> p_column q)"

definition less_gpoint :: "'a gpoint \<Rightarrow> 'a gpoint \<Rightarrow> bool" where
  "less_gpoint p q \<longleftrightarrow> p_line p < p_line q \<or> (p_line p = p_line q \<and> p_column p < p_column q)"

instance
proof
  fix p q r :: "'a gpoint"
  show "(p < q) = (p \<le> q \<and> \<not> q \<le> p)"
    by (auto simp: less_eq_gpoint_def less_gpoint_def)
  show "p \<le> p"
    by (simp add: less_eq_gpoint_def)
  show "p \<le> q \<Longrightarrow> q \<le> r \<Longrightarrow> p \<le> r"
    by (auto simp: less_eq_gpoint_def)
  show "p \<le> q \<Longrightarrow> q \<le> p \<Longrightarrow> p = q"
    by (auto simp: less_eq_gpoint_def gpoint.expand)
  show "p \<le> q \<or> q \<le> p"
    by (auto simp: less_eq_gpoint_def)
qed

end

lemma Point_le [simp]: "Point l c \<le> Point l' c' \<longleftrightarrow> l < l' \<or> (l = l' \<and> c \<le> c')"
  by (simp add: less_eq_gpoint_def)

lemma Point_less [simp]: "Point l c < Point l' c' \<longleftrightarrow> l < l' \<or> (l = l' \<and> c < c')"
  by (simp add: less_gpoint_def)

definition default_point :: point where
  "default_point = Point 0 0"

subsection \<open>Dimensions\<close>

record dims =
  total_lines :: nat
  screen_lines :: nat
  columns :: nat

definition last_column :: "dims \<Rightarrow> nat" where
  "last_column d = columns d - 1"

definition history_size :: "dims \<Rightarrow> nat" where
  "history_size d = total_lines d - screen_lines d"

definition topmost_line :: "dims \<Rightarrow> int" where
  "topmost_line d = - int (history_size d)"

definition bottommost_line :: "dims \<Rightarrow> int" where
  "bottommost_line d = int (screen_lines d) - 1"

definition wf_dims :: "dims \<Rightarrow> bool" where
  "wf_dims d \<longleftrightarrow> 1 \<le> columns d \<and> 1 \<le> screen_lines d \<and> screen_lines d \<le> total_lines d"

subsection \<open>Clamping\<close>

fun line_grid_clamp :: "dims \<Rightarrow> boundary \<Rightarrow> int \<Rightarrow> int" where
  "line_grid_clamp d BCursor l = max 0 (min (bottommost_line d) l)"
| "line_grid_clamp d BGrid l = max (topmost_line d) (min (bottommost_line d) l)"
| "line_grid_clamp d BNone l =
     (if l \<ge> int (screen_lines d)
      then topmost_line d + irem (l - int (screen_lines d)) (int (total_lines d))
      else bottommost_line d + irem (l - int (screen_lines d) + 1) (int (total_lines d)))"

definition point_grid_clamp :: "dims \<Rightarrow> boundary \<Rightarrow> point \<Rightarrow> point" where
  "point_grid_clamp d b p =
     (let q = Point (p_line p) (min (p_column p) (last_column d)) in
      case b of
        BCursor \<Rightarrow> (if p_line q < 0 then Point 0 0
                    else if p_line q > bottommost_line d then Point (bottommost_line d) (last_column d)
                    else q)
      | BGrid \<Rightarrow> (if p_line q < topmost_line d then Point (topmost_line d) 0
                  else if p_line q > bottommost_line d then Point (bottommost_line d) (last_column d)
                  else q)
      | BNone \<Rightarrow> Point (line_grid_clamp d b (p_line q)) (p_column q))"

definition point_sub :: "dims \<Rightarrow> boundary \<Rightarrow> nat \<Rightarrow> point \<Rightarrow> point" where
  "point_sub d b rhs p =
     (let cols = columns d;
          line_changes = (rhs + cols - 1 - p_column p) div cols
      in point_grid_clamp d b
           (Point (p_line p - int line_changes) ((cols + p_column p - rhs mod cols) mod cols)))"

definition point_add :: "dims \<Rightarrow> boundary \<Rightarrow> nat \<Rightarrow> point \<Rightarrow> point" where
  "point_add d b rhs p =
     (let cols = columns d
      in point_grid_clamp d b
           (Point (p_line p + int ((rhs + p_column p) div cols)) ((p_column p + rhs) mod cols)))"

definition in_grid :: "dims \<Rightarrow> point \<Rightarrow> bool" where
  "in_grid d p \<longleftrightarrow> topmost_line d \<le> p_line p \<and> p_line p \<le> bottommost_line d \<and> p_column p < columns d"

definition in_screen :: "dims \<Rightarrow> point \<Rightarrow> bool" where
  "in_screen d p \<longleftrightarrow> 0 \<le> p_line p \<and> p_line p \<le> bottommost_line d \<and> p_column p < columns d"

text \<open>The linear index of a cell: cells are numbered row by row.\<close>

definition lin :: "dims \<Rightarrow> point \<Rightarrow> int" where
  "lin d p = p_line p * int (columns d) + int (p_column p)"

lemmas dims_defs = last_column_def history_size_def topmost_line_def bottommost_line_def wf_dims_def

lemma in_screen_in_grid: "in_screen d p \<Longrightarrow> in_grid d p"
  by (auto simp: in_screen_def in_grid_def topmost_line_def)

lemma line_clamp_range:
  assumes "wf_dims d"
  shows "topmost_line d \<le> line_grid_clamp d b l \<and> line_grid_clamp d b l \<le> bottommost_line d"
proof (cases b)
  case BCursor
  then show ?thesis using assms by (auto simp: dims_defs)
next
  case BGrid
  then show ?thesis using assms by (auto simp: dims_defs)
next
  case BNone
  let ?t = "int (total_lines d)" and ?s = "int (screen_lines d)"
  have t: "0 < ?t" "?s \<le> ?t" using assms by (auto simp: wf_dims_def)
  have h: "int (total_lines d - screen_lines d) = ?t - ?s" using t by simp
  show ?thesis
  proof (cases "l \<ge> ?s")
    case True
    then show ?thesis
      using irem_bounds_nonneg [of "l - ?s" ?t] t h BNone by (auto simp: dims_defs)
  next
    case False
    then show ?thesis
      using irem_bounds_nonpos [of "l - ?s + 1" ?t] t h BNone by (auto simp: dims_defs)
  qed
qed

lemma line_clamp_id:
  "wf_dims d \<Longrightarrow> topmost_line d \<le> l \<Longrightarrow> l \<le> bottommost_line d \<Longrightarrow> line_grid_clamp d BGrid l = l"
  by simp

lemma point_clamp_in_grid:
  assumes "wf_dims d"
  shows "in_grid d (point_grid_clamp d b p)"
  using assms line_clamp_range [OF assms, of BNone "p_line p"]
  by (cases b) (auto simp: point_grid_clamp_def in_grid_def dims_defs Let_def)

lemma point_clamp_in_screen:
  assumes "wf_dims d"
  shows "in_screen d (point_grid_clamp d BCursor p)"
  using assms by (auto simp: point_grid_clamp_def in_screen_def dims_defs Let_def)

lemma point_clamp_id: "in_grid d p \<Longrightarrow> point_grid_clamp d BGrid p = p"
  by (cases p) (auto simp: point_grid_clamp_def in_grid_def last_column_def Let_def)

subsection \<open>Linear arithmetic on points\<close>

lemma lin_unclamped_add:
  "0 < columns d \<Longrightarrow>
   lin d (Point (l + int ((n + c) div columns d)) ((c + n) mod columns d)) = lin d (Point l c) + int n"
proof -
  assume "0 < columns d"
  have "int (c + n) = int ((c + n) div columns d) * int (columns d) + int ((c + n) mod columns d)"
    by (metis div_mult_mod_eq of_nat_add of_nat_mult)
  then show ?thesis
    by (simp add: lin_def algebra_simps)
qed

lemma lin_unclamped_sub:
  assumes c: "c < columns d"
  shows "lin d (Point (l - int ((n + columns d - 1 - c) div columns d))
                  ((columns d + c - n mod columns d) mod columns d)) = lin d (Point l c) - int n"
proof -
  let ?w = "columns d"
  obtain q r where qr: "n div ?w = q" "n mod ?w = r" by blast
  have n: "n = q * ?w + r" and r: "r < ?w"
    using c qr by auto
  show ?thesis
  proof (cases "r \<le> c")
    case True
    have "(n + ?w - 1 - c) div ?w = q"
    proof (rule div_nat_eqI)
      have "q * ?w \<le> n + ?w - 1 - c" using c n by linarith
      then show "?w * q \<le> n + ?w - 1 - c" by (simp add: mult.commute)
      have "n + ?w - 1 - c < q * ?w + ?w" using c n True r by linarith
      then show "n + ?w - 1 - c < ?w * Suc q" by (simp add: algebra_simps)
    qed
    moreover have "(?w + c - r) mod ?w = c - r"
    proof -
      have "?w + c - r = (c - r) + ?w" using True by simp
      then show ?thesis using c by (simp only: mod_add_self2) simp
    qed
    ultimately show ?thesis
      using True qr(2) arg_cong [OF n, of int] unfolding lin_def
      by (simp only: gpoint.sel) (simp add: algebra_simps of_nat_diff)
  next
    case False
    have "(n + ?w - 1 - c) div ?w = Suc q"
    proof (rule div_nat_eqI)
      have "q * ?w + ?w \<le> n + ?w - 1 - c" using n False by linarith
      then show "?w * Suc q \<le> n + ?w - 1 - c" by (simp add: algebra_simps)
      have "n + ?w - 1 - c < q * ?w + ?w + ?w" using c n r by linarith
      then show "n + ?w - 1 - c < ?w * Suc (Suc q)" by (simp add: algebra_simps)
    qed
    moreover have "(?w + c - r) mod ?w = ?w + c - r"
      using c False by simp
    ultimately show ?thesis
      using False r c qr(2) arg_cong [OF n, of int] unfolding lin_def
      by (simp only: gpoint.sel) (simp add: algebra_simps of_nat_diff)
  qed
qed

lemma lin_less_iff_line:
  assumes "p_column p < columns d" "p_column q < columns d"
  shows "lin d p < lin d q \<longleftrightarrow> p < q"
proof -
  have "lin d p < lin d q" if "p_line p < p_line q" "p_column p < columns d" for p q
  proof -
    have "(p_line p + 1) * int (columns d) \<le> p_line q * int (columns d)"
      using that by (intro mult_right_mono) auto
    then show ?thesis using that by (simp add: lin_def algebra_simps)
  qed
  note * = this
  show ?thesis
    using assms *[of p q] *[of q p]
    by (cases "p_line p" "p_line q" rule: linorder_cases) (auto simp: less_gpoint_def lin_def)
qed

lemma lin_inject:
  assumes "p_column p < columns d" "p_column q < columns d"
  shows "lin d p = lin d q \<longleftrightarrow> p = q"
  using lin_less_iff_line [OF assms] lin_less_iff_line [OF assms(2,1)]
  by (metis less_irrefl linorder_less_linear)

lemma point_clamp_grid_eq:
  assumes "wf_dims d" "p_column p < columns d"
  shows "point_grid_clamp d BGrid p =
    max (Point (topmost_line d) 0) (min (Point (bottommost_line d) (last_column d)) p)"
  using assms
  by (cases p) (auto simp: point_grid_clamp_def max_def min_def dims_defs Let_def)

lemma lin_mono:
  assumes "p_column p < columns d" "p_column q < columns d"
  shows "lin d p \<le> lin d q \<longleftrightarrow> p \<le> q"
  using lin_less_iff_line [OF assms(2,1)] by (simp add: linorder_not_less [symmetric])

lemma lin_max_min:
  assumes "p_column p < columns d" "p_column q < columns d"
  shows "lin d (max p q) = max (lin d p) (lin d q)" "lin d (min p q) = min (lin d p) (lin d q)"
  using lin_mono [OF assms] lin_mono [OF assms(2,1)] by (auto simp: max_def min_def)

lemma lin_clamp_grid:
  assumes "wf_dims d" "p_column p < columns d"
  shows "lin d (point_grid_clamp d BGrid p) =
    max (lin d (Point (topmost_line d) 0))
        (min (lin d (Point (bottommost_line d) (last_column d))) (lin d p))"
proof -
  have "p_column (min (Point (bottommost_line d) (last_column d)) p) < columns d"
    using assms by (auto simp: min_def dims_defs)
  then show ?thesis
    using assms by (simp add: point_clamp_grid_eq lin_max_min dims_defs)
qed

theorem point_add_lin:
  assumes "wf_dims d" "in_grid d p"
  shows "lin d (point_add d BGrid n p) =
    min (lin d (Point (bottommost_line d) (last_column d))) (lin d p + int n)"
proof -
  let ?q = "Point (p_line p + int ((n + p_column p) div columns d)) ((p_column p + n) mod columns d)"
  have w: "0 < columns d" using assms by (simp add: wf_dims_def)
  have q: "lin d ?q = lin d p + int n"
    using lin_unclamped_add [OF w, of "p_line p" n "p_column p"] by simp
  have "lin d (Point (topmost_line d) 0) \<le> lin d p"
    using assms w lin_mono [of "Point (topmost_line d) 0" d p]
    by (cases p) (auto simp: in_grid_def)
  moreover have "lin d (Point (topmost_line d) 0) \<le> lin d (Point (bottommost_line d) (last_column d))"
    using assms w by (subst lin_mono) (auto simp: dims_defs)
  ultimately show ?thesis
    using lin_clamp_grid [OF assms(1), of ?q] w q by (simp add: point_add_def Let_def)
qed

theorem point_sub_lin:
  assumes "wf_dims d" "in_grid d p"
  shows "lin d (point_sub d BGrid n p) = max (lin d (Point (topmost_line d) 0)) (lin d p - int n)"
proof -
  let ?q = "Point (p_line p - int ((n + columns d - 1 - p_column p) div columns d))
              ((columns d + p_column p - n mod columns d) mod columns d)"
  have w: "0 < columns d" "p_column p < columns d" using assms by (auto simp: wf_dims_def in_grid_def)
  have q: "lin d ?q = lin d p - int n"
    using lin_unclamped_sub [OF w(2), of "p_line p" n] by simp
  have "lin d p \<le> lin d (Point (bottommost_line d) (last_column d))"
    using assms w lin_mono [of p d "Point (bottommost_line d) (last_column d)"]
    by (cases p) (auto simp: in_grid_def dims_defs)
  then have "lin d ?q \<le> lin d (Point (bottommost_line d) (last_column d))"
    using q by linarith
  then show ?thesis
    using lin_clamp_grid [OF assms(1), of ?q] w q by (simp add: point_sub_def Let_def)
qed

lemma point_add_in_grid: "wf_dims d \<Longrightarrow> in_grid d (point_add d b n p)"
  by (simp add: point_add_def Let_def point_clamp_in_grid)

lemma point_sub_in_grid: "wf_dims d \<Longrightarrow> in_grid d (point_sub d b n p)"
  by (simp add: point_sub_def Let_def point_clamp_in_grid)

theorem point_sub_add:
  assumes "wf_dims d" "in_grid d p"
    and "lin d p + int n \<le> lin d (Point (bottommost_line d) (last_column d))"
  shows "point_sub d BGrid n (point_add d BGrid n p) = p"
proof -
  have "in_grid d (point_add d BGrid n p)" "in_grid d (point_sub d BGrid n (point_add d BGrid n p))"
    using assms(1) by (simp_all add: point_add_in_grid point_sub_in_grid)
  moreover have "lin d (Point (topmost_line d) 0) \<le> lin d p"
    using assms lin_mono [of "Point (topmost_line d) 0" d p]
    by (cases p) (auto simp: in_grid_def)
  ultimately show ?thesis
    using assms by (subst lin_inject [of _ d, symmetric])
      (auto simp: point_sub_lin point_add_lin in_grid_def)
qed

end
