(* ===== verification/Grid.thy ===== *)
theory Grid
  imports Storage Index_Types
begin

text \<open>
  The terminal grid: \<^verbatim>\<open>velacritty_terminal/src/grid/mod.rs\<close>, at the cell type of the terminal.

  A grid is the ring buffer of rows with the cursor, the saved cursor, the dimensions, the scroll position
  of the display and the limit of the scrollback. \<open>grid_ok\<close> is its invariant. The central results give the
  exact effect of \<^verbatim>\<open>scroll_up\<close> and \<^verbatim>\<open>scroll_down\<close>, which rotate the ring buffer and repair the lines outside
  the scrolling region by swaps, on the rows seen by line number, and show that no operation panics from a
  grid that satisfies the invariant.
\<close>

datatype standard_charset = Ascii | SpecialCharacterAndLineDrawing

datatype charset_index = G0 | G1 | G2 | G3

type_synonym charsets = "charset_index \<Rightarrow> standard_charset"

record cursor =
  cu_point :: point
  cu_template :: cell
  cu_charsets :: charsets
  cu_input_needs_wrap :: bool

definition default_cursor :: cursor where
  "default_cursor =
     \<lparr>cu_point = default_point, cu_template = default_cell, cu_charsets = (\<lambda>_. Ascii),
      cu_input_needs_wrap = False\<rparr>"

datatype scroll = Delta int | PageUp | PageDown | Top | Bottom

record grid =
  g_cursor :: cursor
  g_saved_cursor :: cursor
  g_raw :: "cell storage"
  g_columns :: nat
  g_lines :: nat
  g_display_offset :: nat
  g_max_scroll_limit :: nat
  g_auto_scroll_enabled :: bool

definition grid_dims :: "grid \<Rightarrow> dims" where
  "grid_dims g = \<lparr>total_lines = st_len (g_raw g), screen_lines = g_lines g, columns = g_columns g\<rparr>"

abbreviation g_history_size :: "grid \<Rightarrow> nat" where
  "g_history_size g \<equiv> history_size (grid_dims g)"

definition grid_new :: "nat \<Rightarrow> nat \<Rightarrow> nat \<Rightarrow> grid option" where
  "grid_new lines cols max_scroll_limit = do {
     raw \<leftarrow> with_capacity default_cell lines cols;
     Some \<lparr>g_cursor = default_cursor, g_saved_cursor = default_cursor, g_raw = raw,
           g_columns = cols, g_lines = lines, g_display_offset = 0,
           g_max_scroll_limit = max_scroll_limit, g_auto_scroll_enabled = True\<rparr>
   }"

subsection \<open>Indexing\<close>

definition grid_row :: "grid \<Rightarrow> int \<Rightarrow> cell row option" where
  "grid_row g l = st_get (g_raw g) l"

definition grid_mod_row :: "int \<Rightarrow> (cell row \<Rightarrow> cell row option) \<Rightarrow> grid \<Rightarrow> grid option" where
  "grid_mod_row l f g = do {
     raw \<leftarrow> st_mod l f (g_raw g);
     Some (g\<lparr>g_raw := raw\<rparr>)
   }"

definition grid_get :: "grid \<Rightarrow> point \<Rightarrow> cell option" where
  "grid_get g p = do { r \<leftarrow> grid_row g (p_line p); row_get r (p_column p) }"

definition grid_mod :: "point \<Rightarrow> (cell \<Rightarrow> cell) \<Rightarrow> grid \<Rightarrow> grid option" where
  "grid_mod p f g = grid_mod_row (p_line p) (row_mod (p_column p) f) g"

definition mod_cursor_cell :: "(cell \<Rightarrow> cell) \<Rightarrow> grid \<Rightarrow> grid option" where
  "mod_cursor_cell f g = grid_mod (cu_point (g_cursor g)) f g"

subsection \<open>History\<close>

definition update_history :: "nat \<Rightarrow> grid \<Rightarrow> grid option" where
  "update_history new_size g = do {
     let current_history_size = g_history_size g;
     raw \<leftarrow> (if current_history_size > new_size
             then st_shrink_lines (current_history_size - new_size) (g_raw g)
             else Some (g_raw g));
     Some (g\<lparr>g_raw := raw, g_display_offset := min (g_display_offset g) new_size,
             g_max_scroll_limit := new_size\<rparr>)
   }"

fun scroll_target :: "grid \<Rightarrow> scroll \<Rightarrow> nat" where
  "scroll_target g (Delta count) =
     min (nat (max (int (g_display_offset g) + count) 0)) (g_history_size g)"
| "scroll_target g PageUp = min (g_display_offset g + g_lines g) (g_history_size g)"
| "scroll_target g PageDown = g_display_offset g - g_lines g"
| "scroll_target g Top = g_history_size g"
| "scroll_target g Bottom = 0"

definition grid_scroll_display :: "scroll \<Rightarrow> grid \<Rightarrow> grid" where
  "grid_scroll_display sc g = g\<lparr>g_display_offset := scroll_target g sc\<rparr>"

definition increase_scroll_limit :: "nat \<Rightarrow> grid \<Rightarrow> grid option" where
  "increase_scroll_limit count g = do {
     room \<leftarrow> usub (g_max_scroll_limit g) (g_history_size g);
     let count = min count room;
     if count \<noteq> 0 then do {
       raw \<leftarrow> initialize default_cell count (g_columns g) (g_raw g);
       Some (g\<lparr>g_raw := raw\<rparr>)
     } else Some g
   }"

definition decrease_scroll_limit :: "nat \<Rightarrow> grid \<Rightarrow> grid option" where
  "decrease_scroll_limit count g =
     (let count = min count (g_history_size g) in
      if count \<noteq> 0 then do {
        raw \<leftarrow> st_shrink_lines (min count (g_history_size g)) (g_raw g);
        let g = g\<lparr>g_raw := raw\<rparr>;
        Some (g\<lparr>g_display_offset := min (g_display_offset g) (g_history_size g)\<rparr>)
      } else Some g)"

definition clear_history :: "grid \<Rightarrow> grid option" where
  "clear_history g = do {
     raw \<leftarrow> st_shrink_lines (g_history_size g) (g_raw g);
     Some (g\<lparr>g_raw := raw, g_display_offset := 0\<rparr>)
   }"

definition grid_truncate :: "grid \<Rightarrow> grid option" where
  "grid_truncate g = do { raw \<leftarrow> st_truncate (g_raw g); Some (g\<lparr>g_raw := raw\<rparr>) }"

definition initialize_all :: "grid \<Rightarrow> grid option" where
  "initialize_all g = do {
     g \<leftarrow> grid_truncate g;
     room \<leftarrow> usub (g_max_scroll_limit g) (g_history_size g);
     raw \<leftarrow> initialize default_cell room (g_columns g) (g_raw g);
     Some (g\<lparr>g_raw := raw\<rparr>)
   }"

definition set_auto_scroll_enabled :: "bool \<Rightarrow> grid \<Rightarrow> grid" where
  "set_auto_scroll_enabled enabled g = g\<lparr>g_auto_scroll_enabled := enabled\<rparr>"

subsection \<open>Scrolling\<close>

definition reset_lines :: "cell \<Rightarrow> int list \<Rightarrow> cell storage \<Rightarrow> cell storage option" where
  "reset_lines template ls = mfold (\<lambda>l. st_mod l (row_reset c_bg cell_reset template)) ls"

definition grid_scroll_down :: "int \<times> int \<Rightarrow> nat \<Rightarrow> grid \<Rightarrow> grid option" where
  "grid_scroll_down region positions g = do {
     let (start, stop) = region;
     let template = cu_template (g_cursor g);
     let k = int positions;
     if stop - start \<le> k then do {
       raw \<leftarrow> reset_lines template (irange start stop) (g_raw g);
       Some (g\<lparr>g_raw := raw\<rparr>)
     }
     else if g_max_scroll_limit g = 0 then do {
       raw \<leftarrow> mfold (\<lambda>i. st_swap i (i - k)) (irange stop (int (g_lines g))) (g_raw g);
       raw \<leftarrow> st_rotate_down positions raw;
       raw \<leftarrow> reset_lines template (irange 0 k) raw;
       raw \<leftarrow> mfold (\<lambda>i. st_swap i (i + k)) (irange 0 start) raw;
       Some (g\<lparr>g_raw := raw\<rparr>)
     }
     else do {
       raw \<leftarrow> mfold (\<lambda>i. st_swap i (i - k)) (rev (irange (start + k) stop)) (g_raw g);
       raw \<leftarrow> reset_lines template (rev (irange start (start + k))) raw;
       Some (g\<lparr>g_raw := raw\<rparr>)
     }
   }"

definition grid_scroll_up :: "int \<times> int \<Rightarrow> nat \<Rightarrow> grid \<Rightarrow> grid option" where
  "grid_scroll_up region positions g = do {
     let (start, stop) = region;
     let template = cu_template (g_cursor g);
     let k = int positions;
     if stop - start \<le> k \<and> start \<noteq> 0 then do {
       raw \<leftarrow> reset_lines template (irange start stop) (g_raw g);
       Some (g\<lparr>g_raw := raw\<rparr>)
     }
     else do {
       let g = (if g_display_offset g \<noteq> 0 \<or> \<not> g_auto_scroll_enabled g
                then g\<lparr>g_display_offset := min (g_display_offset g + positions) (g_max_scroll_limit g)\<rparr>
                else g);
       g \<leftarrow> (if start = 0 then do {
               g \<leftarrow> increase_scroll_limit positions g;
               raw \<leftarrow> mfold (\<lambda>i. st_swap i (i + k)) (rev (irange 0 start)) (g_raw g);
               raw \<leftarrow> st_rotate (- k) raw;
               raw \<leftarrow> mfold (\<lambda>i. st_swap i (i - k)) (rev (irange stop (int (g_lines g)))) raw;
               Some (g\<lparr>g_raw := raw\<rparr>)
             }
             else do {
               raw \<leftarrow> mfold (\<lambda>i. st_swap i (i + k)) (irange start (stop - k)) (g_raw g);
               Some (g\<lparr>g_raw := raw\<rparr>)
             });
       raw \<leftarrow> reset_lines template (irange (stop - k) stop) (g_raw g);
       Some (g\<lparr>g_raw := raw\<rparr>)
     }
   }"

subsection \<open>Iteration over cells\<close>

record grid_iter =
  it_point :: point
  it_end :: point

definition iter_from :: "grid \<Rightarrow> point \<Rightarrow> grid_iter" where
  "iter_from g p =
     \<lparr>it_point = p, it_end = Point (bottommost_line (grid_dims g)) (last_column (grid_dims g))\<rparr>"

definition display_iter :: "grid \<Rightarrow> grid_iter" where
  "display_iter g =
     (let lc = last_column (grid_dims g);
          start = - int (g_display_offset g) - 1;
          end_line = min (start + int (g_lines g)) (bottommost_line (grid_dims g))
      in \<lparr>it_point = Point start lc, it_end = Point end_line lc\<rparr>)"

definition next_point :: "grid \<Rightarrow> point \<Rightarrow> point" where
  "next_point g p =
     (if p_column p \<ge> last_column (grid_dims g) then Point (p_line p + 1) 0
      else Point (p_line p) (p_column p + 1))"

definition iter_next :: "grid \<Rightarrow> grid_iter \<Rightarrow> (grid_iter \<times> (point \<times> cell) option) option" where
  "iter_next g it =
     (if it_point it \<ge> it_end it then Some (it, None)
      else do {
        let p = next_point g (it_point it);
        x \<leftarrow> grid_get g p;
        Some (it\<lparr>it_point := p\<rparr>, Some (p, x))
      })"

definition iter_size_hint :: "grid \<Rightarrow> grid_iter \<Rightarrow> nat option" where
  "iter_size_hint g it =
     (let p = it_point it; e = it_end it in
      if p \<ge> e then Some 0
      else if p_line p = p_line e then usub (p_column e) (p_column p)
      else do {
        d \<leftarrow> as_usize (p_line e - p_line p);
        middle_lines \<leftarrow> usub d 1;
        Some ((g_columns g - (p_column p + 1)) + middle_lines * g_columns g + (p_column e + 1))
      })"

definition prev_point :: "grid \<Rightarrow> point \<Rightarrow> point" where
  "prev_point g p =
     (if p_column p = 0 then Point (p_line p - 1) (last_column (grid_dims g))
      else Point (p_line p) (p_column p - 1))"

definition iter_prev :: "grid \<Rightarrow> grid_iter \<Rightarrow> (grid_iter \<times> (point \<times> cell) option) option" where
  "iter_prev g it =
     (if it_point it \<le> Point (topmost_line (grid_dims g)) 0 then Some (it, None)
      else do {
        let p = prev_point g (it_point it);
        x \<leftarrow> grid_get g p;
        Some (it\<lparr>it_point := p\<rparr>, Some (p, x))
      })"

text \<open>The loop of \<^verbatim>\<open>clear_viewport\<close>: \<^verbatim>\<open>while let Some(cell) = iter.prev()\<close> until a cell that is not empty or
  in the history; its result is the last position of the iterator.\<close>

function clear_viewport_scan :: "grid \<Rightarrow> point \<Rightarrow> point option" where
  "clear_viewport_scan g p =
     (if p \<le> Point (topmost_line (grid_dims g)) 0 then Some p
      else do {
        let q = prev_point g p;
        x \<leftarrow> grid_get g q;
        if \<not> cell_is_empty x \<or> p_line q < 0 then Some q else clear_viewport_scan g q
      })"
  by pat_completeness auto
termination
  by (relation "measures [\<lambda>(g, p). nat (p_line p - topmost_line (grid_dims g)), \<lambda>(g, p). p_column p]")
    (auto simp: prev_point_def less_eq_gpoint_def)

declare clear_viewport_scan.simps [simp del]

definition clear_viewport :: "grid \<Rightarrow> grid option" where
  "clear_viewport g = do {
     p \<leftarrow> clear_viewport_scan g (Point (int (g_lines g) - 1) (g_columns g));
     guard (p_line p \<ge> - 1);
     positions \<leftarrow> as_usize (p_line p + 1);
     g \<leftarrow> grid_scroll_up (0, int (g_lines g)) positions g;
     n \<leftarrow> usub (g_lines g) positions;
     raw \<leftarrow> reset_lines (cu_template (g_cursor g)) (irange 0 (int n)) (g_raw g);
     Some (g\<lparr>g_raw := raw\<rparr>)
   }"

text \<open>\<^verbatim>\<open>reset_region(bounds)\<close> with the bounds already read off the range: \<open>None\<close> is unbounded.\<close>

definition reset_region :: "int option \<Rightarrow> int option \<Rightarrow> grid \<Rightarrow> grid option" where
  "reset_region lo hi g = do {
     let start = (case lo of None \<Rightarrow> 0 | Some l \<Rightarrow> l);
     let stop = (case hi of None \<Rightarrow> int (g_lines g) | Some l \<Rightarrow> l);
     guard (start < int (g_lines g));
     guard (stop \<le> int (g_lines g));
     raw \<leftarrow> reset_lines (cu_template (g_cursor g)) (irange start stop) (g_raw g);
     Some (g\<lparr>g_raw := raw\<rparr>)
   }"

definition grid_reset :: "grid \<Rightarrow> grid option" where
  "grid_reset g = do {
     g \<leftarrow> clear_history g;
     let g = g\<lparr>g_saved_cursor := default_cursor, g_cursor := default_cursor, g_display_offset := 0\<rparr>;
     raw \<leftarrow> reset_lines (cu_template (g_cursor g))
              (irange (topmost_line (grid_dims g)) (int (g_lines g))) (g_raw g);
     Some (g\<lparr>g_raw := raw\<rparr>)
   }"

subsection \<open>The invariant\<close>

definition blank_row :: "nat \<Rightarrow> color \<Rightarrow> cell row" where
  "blank_row cols bg = \<lparr>row_inner = replicate cols (cell_of_color bg), row_occ = 0\<rparr>"

abbreviation cell_row_ok :: "nat \<Rightarrow> cell row \<Rightarrow> bool" where
  "cell_row_ok \<equiv> row_ok cell_reset"

definition grid_core_ok :: "grid \<Rightarrow> bool" where
  "grid_core_ok g \<longleftrightarrow>
     storage_ok (cell_row_ok (g_columns g)) (g_raw g)
     \<and> st_visible_lines (g_raw g) = g_lines g \<and> 1 \<le> g_columns g
     \<and> g_history_size g \<le> g_max_scroll_limit g
     \<and> g_display_offset g \<le> g_max_scroll_limit g"

definition grid_ok :: "grid \<Rightarrow> bool" where
  "grid_ok g \<longleftrightarrow> grid_core_ok g
     \<and> in_screen (grid_dims g) (cu_point (g_cursor g))
     \<and> in_screen (grid_dims g) (cu_point (g_saved_cursor g))"

text \<open>The row of a line, and the lines that exist.\<close>

definition g_row :: "grid \<Rightarrow> int \<Rightarrow> cell row" where
  "g_row g l = st_row (g_raw g) l"

definition g_valid :: "grid \<Rightarrow> int \<Rightarrow> bool" where
  "g_valid g l \<longleftrightarrow> topmost_line (grid_dims g) \<le> l \<and> l \<le> bottommost_line (grid_dims g)"

text \<open>Everything but the rows is the same.\<close>

definition same_frame :: "grid \<Rightarrow> grid \<Rightarrow> bool" where
  "same_frame g g' \<longleftrightarrow>
     g_cursor g' = g_cursor g \<and> g_saved_cursor g' = g_saved_cursor g \<and> g_columns g' = g_columns g
     \<and> g_lines g' = g_lines g \<and> g_max_scroll_limit g' = g_max_scroll_limit g
     \<and> g_auto_scroll_enabled g' = g_auto_scroll_enabled g"

lemma same_frame_refl [simp]: "same_frame g g"
  by (simp add: same_frame_def)

lemma same_frame_trans: "same_frame g g' \<Longrightarrow> same_frame g' g'' \<Longrightarrow> same_frame g g''"
  by (simp add: same_frame_def)

lemma same_frame_raw [simp]: "same_frame g (g\<lparr>g_raw := raw\<rparr>)"
  by (simp add: same_frame_def)

definition raw_frame :: "grid \<Rightarrow> grid \<Rightarrow> bool" where
  "raw_frame g g' \<longleftrightarrow> same_frame g g' \<and> g_display_offset g' = g_display_offset g"

lemma raw_frame_raw [simp]: "raw_frame g (g\<lparr>g_raw := raw\<rparr>)"
  by (simp add: raw_frame_def)

lemma raw_frame_refl [simp]: "raw_frame g g"
  by (simp add: raw_frame_def)

lemma raw_frame_trans: "raw_frame g g' \<Longrightarrow> raw_frame g' g'' \<Longrightarrow> raw_frame g g''"
  by (auto simp: raw_frame_def intro: same_frame_trans)

lemma raw_frame_eq: "raw_frame g g' \<Longrightarrow> g' = g\<lparr>g_raw := g_raw g'\<rparr>"
  by (simp add: raw_frame_def same_frame_def)

lemma grid_dims_sel [simp]:
  "total_lines (grid_dims g) = st_len (g_raw g)" "screen_lines (grid_dims g) = g_lines g"
  "columns (grid_dims g) = g_columns g"
  by (simp_all add: grid_dims_def)

lemma grid_core_ok_dims: "grid_core_ok g \<Longrightarrow> wf_dims (grid_dims g)"
  by (simp add: grid_core_ok_def storage_ok_def wf_dims_def)

lemma grid_ok_core: "grid_ok g \<Longrightarrow> grid_core_ok g"
  by (simp add: grid_ok_def)

lemma g_valid_line: "grid_core_ok g \<Longrightarrow> g_valid g l \<longleftrightarrow> valid_line (g_raw g) l"
  by (auto simp: g_valid_def valid_line_def grid_core_ok_def storage_ok_def dims_defs)

lemma g_valid_phys: "grid_core_ok g \<Longrightarrow> g_valid g l \<Longrightarrow> phys_line (g_raw g) l"
  using valid_phys [of _ "g_raw g" l] by (auto simp: g_valid_line) (auto simp: grid_core_ok_def)

lemma g_valid_iff: "grid_core_ok g \<Longrightarrow> g_valid g l \<longleftrightarrow> - int (g_history_size g) \<le> l \<and> l < int (g_lines g)"
  by (auto simp: g_valid_def dims_defs)

lemma g_screen_valid: "grid_core_ok g \<Longrightarrow> 0 \<le> l \<Longrightarrow> l < int (g_lines g) \<Longrightarrow> g_valid g l"
  by (simp add: g_valid_iff)

lemma in_screen_frame:
  "same_frame g g' \<Longrightarrow> in_screen (grid_dims g') p \<longleftrightarrow> in_screen (grid_dims g) p"
  by (simp add: in_screen_def same_frame_def bottommost_line_def)

lemma grid_ok_frame: "grid_ok g \<Longrightarrow> same_frame g g' \<Longrightarrow> grid_core_ok g' \<Longrightarrow> grid_ok g'"
  using in_screen_frame [of g g'] by (simp add: grid_ok_def same_frame_def)

lemma g_row_ok: "grid_core_ok g \<Longrightarrow> cell_row_ok (g_columns g) (g_row g l)"
  by (simp add: grid_core_ok_def g_row_def st_row_R)

lemma g_row_len: "grid_core_ok g \<Longrightarrow> length (row_inner (g_row g l)) = g_columns g"
  using g_row_ok [of g l] by (simp add: row_ok_def)

lemma blank_row_ok [simp]: "cell_row_ok cols (blank_row cols bg)"
  using cell.row_ok_blank [of cols "cell_of_color bg"]
  by (simp add: blank_row_def cell_reset_eq)

lemma grid_row_get: "grid_core_ok g \<Longrightarrow> g_valid g l \<Longrightarrow> grid_row g l = Some (g_row g l)"
  using st_get_row [of "cell_row_ok (g_columns g)" "g_raw g" l]
  by (simp add: g_valid_line grid_row_def g_row_def) (simp add: grid_core_ok_def)

lemma grid_row_None: "grid_core_ok g \<Longrightarrow> \<not> g_valid g l \<Longrightarrow> grid_row g l = None"
  by (simp add: g_valid_line grid_row_def st_get_def compute_index_None)

text \<open>The cell at a point.\<close>

definition g_cell :: "grid \<Rightarrow> point \<Rightarrow> cell" where
  "g_cell g p = row_inner (g_row g (p_line p)) ! p_column p"

lemma grid_get_cell:
  "grid_core_ok g \<Longrightarrow> in_grid (grid_dims g) p \<Longrightarrow> grid_get g p = Some (g_cell g p)"
  using g_row_len [of g "p_line p"]
  by (simp add: grid_get_def grid_row_get g_valid_def in_grid_def row_get_def g_cell_def)

lemma reset_blank:
  assumes "grid_core_ok g"
  shows "row_reset c_bg cell_reset t (g_row g l) = Some (blank_row (g_columns g) (c_bg t))"
  using cell.row_reset_full [OF g_row_ok [OF assms, of l]] assms
  by (simp add: grid_core_ok_def blank_row_def cell_reset_eq)

text \<open>A grid whose raw buffer was replaced by one of the same shape.\<close>

lemma grid_core_ok_raw:
  assumes "grid_core_ok g" "storage_ok (cell_row_ok (g_columns g)) raw" "st_shape raw = st_shape (g_raw g)"
  shows "grid_core_ok (g\<lparr>g_raw := raw\<rparr>)"
  using assms by (simp add: grid_core_ok_def st_shape_def history_size_def)

lemma grid_mod_row_returns:
  assumes "grid_core_ok g" "g_valid g l" "f (g_row g l) = Some r" "cell_row_ok (g_columns g) r"
  shows "returns (grid_mod_row l f g) (\<lambda>g'. grid_core_ok g' \<and> raw_frame g g'
     \<and> st_len (g_raw g') = st_len (g_raw g)
     \<and> (\<forall>l'. g_valid g l' \<longrightarrow> g_row g' l' = (if l' = l then r else g_row g l')))"
proof -
  have st: "storage_ok (cell_row_ok (g_columns g)) (g_raw g)" using assms(1) by (simp add: grid_core_ok_def)
  have "returns (st_mod l f (g_raw g))
      (storage.has_rows (cell_row_ok (g_columns g)) (g_raw g) (\<lambda>l'. if l' = l then r else g_row g l'))"
    using storage.modify_returns [OF st, of l f r] assms unfolding g_row_def by (simp add: g_valid_line)
  then show ?thesis
    unfolding grid_mod_row_def returns_bind returns_Some
  proof (rule returns_mono)
    fix raw
    assume "storage.has_rows (cell_row_ok (g_columns g)) (g_raw g) (\<lambda>l'. if l' = l then r else g_row g l') raw"
    then have raw: "storage_ok (cell_row_ok (g_columns g)) raw" "st_shape raw = st_shape (g_raw g)"
      "\<And>l'. phys_line (g_raw g) l' \<Longrightarrow> st_row raw l' = (if l' = l then r else g_row g l')"
      by (auto simp: storage.has_rows_def)
    show "grid_core_ok (g\<lparr>g_raw := raw\<rparr>) \<and> raw_frame g (g\<lparr>g_raw := raw\<rparr>)
       \<and> st_len (g_raw (g\<lparr>g_raw := raw\<rparr>)) = st_len (g_raw g)
       \<and> (\<forall>l'. g_valid g l' \<longrightarrow> g_row (g\<lparr>g_raw := raw\<rparr>) l' = (if l' = l then r else g_row g l'))"
      using grid_core_ok_raw [OF assms(1) raw(1,2)] raw valid_phys [OF st]
      by (auto simp: g_row_def st_shape_def g_valid_line [OF assms(1)])
  qed
qed

subsection \<open>Clearing lines\<close>

lemma raw_reset_lines:
  assumes st: "storage_ok (cell_row_ok cols) raw" and "1 \<le> cols"
    and "distinct ls" "\<And>l. l \<in> set ls \<Longrightarrow> valid_line raw l"
  shows "returns (reset_lines t ls raw) (storage.has_rows (cell_row_ok cols) raw
     (\<lambda>l. if l \<in> set ls then blank_row cols (c_bg t) else st_row raw l))"
  unfolding reset_lines_def
proof (rule storage.modify_loop [OF st assms(3,4)])
  fix l
  show "row_reset c_bg cell_reset t (st_row raw l) = Some (blank_row cols (c_bg t))
      \<and> cell_row_ok cols (blank_row cols (c_bg t))"
    using cell.row_reset_full [OF st_row_R [OF st, of l] assms(2), of t]
    by (simp add: blank_row_def [symmetric] cell_reset_eq)
qed

text \<open>An update of the raw buffer as an update of the grid.\<close>

lemma grid_raw_returns:
  assumes g: "grid_core_ok g"
    and raw: "returns (f (g_raw g)) (storage.has_rows (cell_row_ok (g_columns g)) (g_raw g) v)"
  shows "returns (f (g_raw g)) (\<lambda>raw. grid_core_ok (g\<lparr>g_raw := raw\<rparr>)
     \<and> st_len raw = st_len (g_raw g) \<and> (\<forall>l. g_valid g l \<longrightarrow> g_row (g\<lparr>g_raw := raw\<rparr>) l = v l))"
  using raw
proof (rule returns_mono)
  fix r
  assume "storage.has_rows (cell_row_ok (g_columns g)) (g_raw g) v r"
  then show "grid_core_ok (g\<lparr>g_raw := r\<rparr>) \<and> st_len r = st_len (g_raw g)
      \<and> (\<forall>l. g_valid g l \<longrightarrow> g_row (g\<lparr>g_raw := r\<rparr>) l = v l)"
    using grid_core_ok_raw [OF g, of r] g_valid_phys [OF g]
    by (auto simp: storage.has_rows_def g_row_def st_shape_def)
qed

lemma reset_lines_returns:
  assumes g: "grid_core_ok g" and "distinct ls" "\<And>l. l \<in> set ls \<Longrightarrow> g_valid g l"
  shows "returns (reset_lines t ls (g_raw g)) (\<lambda>raw. grid_core_ok (g\<lparr>g_raw := raw\<rparr>)
     \<and> st_len raw = st_len (g_raw g)
     \<and> (\<forall>l. g_valid g l \<longrightarrow> g_row (g\<lparr>g_raw := raw\<rparr>) l =
          (if l \<in> set ls then blank_row (g_columns g) (c_bg t) else g_row g l)))"
  unfolding g_row_def [of g]
  by (rule grid_raw_returns [OF g], rule raw_reset_lines)
    (use assms in \<open>auto simp: grid_core_ok_def g_valid_line [OF g]\<close>)

subsection \<open>Scrolling up\<close>

text \<open>The rows after scrolling a region up: a region that starts at the top of the screen pushes its first
  rows into the history, any other region drops them.\<close>

definition scrolled_up :: "int \<Rightarrow> int \<Rightarrow> int \<Rightarrow> cell row \<Rightarrow> (int \<Rightarrow> cell row) \<Rightarrow> int \<Rightarrow> cell row" where
  "scrolled_up start stop k blank rows l =
     (if l \<ge> stop \<or> (start \<noteq> 0 \<and> l < start) then rows l
      else if l \<ge> stop - k then blank
      else rows (l + k))"

lemma increase_scroll_limit_returns:
  assumes g: "grid_core_ok g"
  shows "returns (increase_scroll_limit k g) (\<lambda>g'. grid_core_ok g' \<and> raw_frame g g'
     \<and> g_history_size g' = min (g_history_size g + k) (g_max_scroll_limit g)
     \<and> (\<forall>l. g_valid g l \<longrightarrow> g_row g' l = g_row g l))"
proof -
  let ?h = "g_history_size g" and ?R = "cell_row_ok (g_columns g)"
  let ?c = "min k (g_max_scroll_limit g - ?h)"
  have h: "?h \<le> g_max_scroll_limit g" and ring: "ring_ok ?R (g_raw g)" and c1: "1 \<le> g_columns g"
    using g by (auto simp: grid_core_ok_def storage_ok_ring)
  have R: "?R \<lparr>row_inner = replicate (g_columns g) default_cell, row_occ = 0\<rparr>"
    using blank_row_ok [of "g_columns g" "Named Background"] by (simp add: blank_row_def default_cell_eq)
  have ini: "returns (initialize default_cell ?c (g_columns g) (g_raw g)) (\<lambda>raw.
      grid_core_ok (g\<lparr>g_raw := raw\<rparr>) \<and> st_len raw = st_len (g_raw g) + ?c
      \<and> (\<forall>l. g_valid g l \<longrightarrow> g_row (g\<lparr>g_raw := raw\<rparr>) l = g_row g l))"
  proof (rule returns_mono [OF initialize_returns [OF ring c1 R]])
    fix raw
    assume a: "ring_ok ?R raw \<and> st_len raw = st_len (g_raw g) + ?c
      \<and> st_visible_lines raw = st_visible_lines (g_raw g)
      \<and> length (st_inner (g_raw g)) \<le> length (st_inner raw)
      \<and> (\<forall>p < length (st_inner (g_raw g)). st_at raw p = st_at (g_raw g) p)"
    have "g_row (g\<lparr>g_raw := raw\<rparr>) l = g_row g l" if "g_valid g l" for l
      using a that valid_phys [of ?R "g_raw g" l] g
      by (simp add: g_row_def st_row_at g_valid_line phys_line_def) (auto simp: grid_core_ok_def)
    moreover have "grid_core_ok (g\<lparr>g_raw := raw\<rparr>)"
      using a g h by (auto simp: grid_core_ok_def storage_ok_ring history_size_def)
    ultimately show "grid_core_ok (g\<lparr>g_raw := raw\<rparr>) \<and> st_len raw = st_len (g_raw g) + ?c
      \<and> (\<forall>l. g_valid g l \<longrightarrow> g_row (g\<lparr>g_raw := raw\<rparr>) l = g_row g l)"
      using a by blast
  qed
  have vis: "g_lines g \<le> st_len (g_raw g)" using g by (auto simp: grid_core_ok_def storage_ok_def)
  show ?thesis
  proof (cases "?c = 0")
    case True
    then show ?thesis using g h by (auto simp: increase_scroll_limit_def Let_def)
  next
    case False
    then have "increase_scroll_limit k g =
        initialize default_cell ?c (g_columns g) (g_raw g) \<bind> (\<lambda>raw. Some (g\<lparr>g_raw := raw\<rparr>))"
      using h by (simp add: increase_scroll_limit_def Let_def)
    then show ?thesis
      unfolding returns_bind returns_Some
      by (simp only: returns_bind returns_Some)
        (rule returns_mono [OF ini], use h vis in \<open>auto simp: history_size_def\<close>)
  qed
qed

lemma rotate_up_rows:
  assumes g: "grid_core_ok g" and k: "0 \<le> k" "k \<le> stop" "stop \<le> int (g_lines g)"
  shows "returns (do {
       raw \<leftarrow> st_rotate (- k) (g_raw g);
       mfold (\<lambda>i. st_swap i (i - k)) (rev (irange stop (int (g_lines g)))) raw
     }) (\<lambda>raw. grid_core_ok (g\<lparr>g_raw := raw\<rparr>) \<and> st_len raw = st_len (g_raw g)
       \<and> (\<forall>l. g_valid g l \<longrightarrow> (stop \<le> l \<longrightarrow> g_row (g\<lparr>g_raw := raw\<rparr>) l = g_row g l)
            \<and> (l < stop - k \<longrightarrow> g_row (g\<lparr>g_raw := raw\<rparr>) l = g_row g (l + k))))"
  unfolding returns_bind
proof (rule returns_mono)
  let ?R = "cell_row_ok (g_columns g)" and ?s = "g_raw g" and ?n = "int (g_lines g)"
  have st: "storage_ok ?R ?s" and vis: "st_visible_lines ?s = g_lines g"
    using g by (auto simp: grid_core_ok_def)
  have len: "g_lines g \<le> st_len ?s" "st_len ?s \<le> length (st_inner ?s)"
    using st vis by (auto simp: storage_ok_def)
  show "returns (st_rotate (- k) ?s) (\<lambda>s'. storage_ok ?R s' \<and> st_len s' = st_len ?s
      \<and> st_visible_lines s' = st_visible_lines ?s \<and> st_inner s' = st_inner ?s
      \<and> (\<forall>l. phys_line ?s l \<longrightarrow> st_row s' l = st_row ?s (wrap_line ?s (l - - k))))"
    by (rule rotate_returns [OF st]) (use k len in auto)
  fix s1
  assume s1: "storage_ok ?R s1 \<and> st_len s1 = st_len ?s
      \<and> st_visible_lines s1 = st_visible_lines ?s \<and> st_inner s1 = st_inner ?s
      \<and> (\<forall>l. phys_line ?s l \<longrightarrow> st_row s1 l = st_row ?s (wrap_line ?s (l - - k)))"
  have row1: "st_row s1 l = g_row g (l + k)" if "g_valid g l" "l + k < ?n" for l
    using s1 that g_valid_phys [OF g that(1)] k vis
    by (auto simp: g_row_def wrap_line_def phys_line_def)
  have "returns (mfold (\<lambda>i. st_swap i (i - k)) (rev (irange (stop - k + k) ?n)) s1)
      (storage.shifted_down ?R s1 (stop - k) ?n k)"
    by (rule storage.shift_down_loop) (use s1 k len vis in \<open>auto simp: valid_line_def\<close>)
  then have "returns (mfold (\<lambda>i. st_swap i (i - k)) (rev (irange stop ?n)) s1)
      (storage.shifted_down ?R s1 (stop - k) ?n k)" by simp
  then show "returns (mfold (\<lambda>i. st_swap i (i - k)) (rev (irange stop ?n)) s1)
     (\<lambda>raw. grid_core_ok (g\<lparr>g_raw := raw\<rparr>) \<and> st_len raw = st_len (g_raw g)
       \<and> (\<forall>l. g_valid g l \<longrightarrow> (stop \<le> l \<longrightarrow> g_row (g\<lparr>g_raw := raw\<rparr>) l = g_row g l)
            \<and> (l < stop - k \<longrightarrow> g_row (g\<lparr>g_raw := raw\<rparr>) l = g_row g (l + k))))"
  proof (rule returns_mono)
    fix raw assume "storage.shifted_down ?R s1 (stop - k) ?n k raw"
    then have raw: "storage_ok ?R raw" "st_shape raw = st_shape s1"
      "\<And>l. phys_line s1 l \<Longrightarrow> l < stop - k \<Longrightarrow> st_row raw l = st_row s1 l"
      "\<And>l. phys_line s1 l \<Longrightarrow> stop \<le> l \<Longrightarrow> l < ?n \<Longrightarrow> st_row raw l = st_row s1 (l - k)"
      by (auto simp: storage.shifted_down_def)
    have ok: "grid_core_ok (g\<lparr>g_raw := raw\<rparr>)" "st_len raw = st_len ?s"
      using g raw s1 vis by (auto simp: grid_core_ok_def st_shape_def history_size_def)
    have rows: "g_row (g\<lparr>g_raw := raw\<rparr>) l = g_row g l" if "g_valid g l" "stop \<le> l" for l
    proof -
      have "l < ?n" "g_valid g (l - k)" using that g k by (auto simp: g_valid_iff)
      then show ?thesis
        using raw(4) [of l] row1 [of "l - k"] that g_valid_phys [OF g that(1)] s1
        by (auto simp: g_row_def phys_line_def)
    qed
    have "g_row (g\<lparr>g_raw := raw\<rparr>) l = g_row g (l + k)" if "g_valid g l" "l < stop - k" for l
      using raw(3) [of l] row1 [of l] that k g_valid_phys [OF g that(1)] s1
      by (auto simp: g_row_def phys_line_def)
    then show "grid_core_ok (g\<lparr>g_raw := raw\<rparr>) \<and> st_len raw = st_len (g_raw g)
       \<and> (\<forall>l. g_valid g l \<longrightarrow> (stop \<le> l \<longrightarrow> g_row (g\<lparr>g_raw := raw\<rparr>) l = g_row g l)
            \<and> (l < stop - k \<longrightarrow> g_row (g\<lparr>g_raw := raw\<rparr>) l = g_row g (l + k)))"
      using ok rows by auto
  qed
qed

lemma shift_up_rows:
  assumes g: "grid_core_ok g" and k: "0 \<le> k" "0 \<le> start" "start + k \<le> stop" "stop \<le> int (g_lines g)"
  shows "returns (mfold (\<lambda>i. st_swap i (i + k)) (irange start (stop - k)) (g_raw g))
     (\<lambda>raw. grid_core_ok (g\<lparr>g_raw := raw\<rparr>) \<and> st_len raw = st_len (g_raw g)
       \<and> (\<forall>l. g_valid g l \<longrightarrow> (l < start \<or> stop \<le> l \<longrightarrow> g_row (g\<lparr>g_raw := raw\<rparr>) l = g_row g l)
            \<and> (start \<le> l \<and> l < stop - k \<longrightarrow> g_row (g\<lparr>g_raw := raw\<rparr>) l = g_row g (l + k))))"
proof -
  let ?R = "cell_row_ok (g_columns g)"
  have st: "storage_ok ?R (g_raw g)" and vis: "st_visible_lines (g_raw g) = g_lines g"
    using g by (auto simp: grid_core_ok_def)
  have "returns (mfold (\<lambda>i. st_swap i (i + k)) (irange start (stop - k)) (g_raw g))
      (storage.shifted_up ?R (g_raw g) start stop k)"
    by (rule storage.shift_up_loop(1) [OF st]) (use k st vis in \<open>auto simp: valid_line_def storage_ok_def\<close>)
  then show ?thesis
  proof (rule returns_mono)
    fix raw assume raw: "storage.shifted_up ?R (g_raw g) start stop k raw"
    then have "grid_core_ok (g\<lparr>g_raw := raw\<rparr>)"
      by (intro grid_core_ok_raw [OF g]) (auto simp: storage.shifted_up_def)
    then show "grid_core_ok (g\<lparr>g_raw := raw\<rparr>) \<and> st_len raw = st_len (g_raw g)
       \<and> (\<forall>l. g_valid g l \<longrightarrow> (l < start \<or> stop \<le> l \<longrightarrow> g_row (g\<lparr>g_raw := raw\<rparr>) l = g_row g l)
            \<and> (start \<le> l \<and> l < stop - k \<longrightarrow> g_row (g\<lparr>g_raw := raw\<rparr>) l = g_row g (l + k)))"
      using raw g_valid_phys [OF g] by (auto simp: storage.shifted_up_def g_row_def st_shape_def)
  qed
qed

definition scroll_up_offset :: "int \<Rightarrow> int \<Rightarrow> nat \<Rightarrow> grid \<Rightarrow> nat" where
  "scroll_up_offset start stop k g =
     (if stop - start \<le> int k \<and> start \<noteq> 0 then g_display_offset g
      else if g_display_offset g \<noteq> 0 \<or> \<not> g_auto_scroll_enabled g
      then min (g_display_offset g + k) (g_max_scroll_limit g)
      else g_display_offset g)"

text \<open>The result of scrolling up: invariant, frame, history, display offset and rows.\<close>

definition scroll_up_post :: "int \<Rightarrow> int \<Rightarrow> nat \<Rightarrow> grid \<Rightarrow> grid \<Rightarrow> bool" where
  "scroll_up_post start stop k g g' \<longleftrightarrow>
     grid_core_ok g' \<and> same_frame g g'
     \<and> g_history_size g' =
         (if start = 0 then min (g_history_size g + k) (g_max_scroll_limit g) else g_history_size g)
     \<and> g_display_offset g' = scroll_up_offset start stop k g
     \<and> (\<forall>l. g_valid g' l \<longrightarrow> g_row g' l =
          scrolled_up start stop (int k) (blank_row (g_columns g) (c_bg (cu_template (g_cursor g))))
            (g_row g) l)"

lemma set_offset_core_ok:
  "grid_core_ok g \<Longrightarrow> off \<le> g_max_scroll_limit g \<Longrightarrow> grid_core_ok (g\<lparr>g_display_offset := off\<rparr>)"
  by (simp add: grid_core_ok_def history_size_def)

lemma scroll_up_fill:
  assumes g2: "grid_core_ok g2" and frame: "same_frame g g2"
    and hist: "g_history_size g2 =
       (if start = 0 then min (g_history_size g + k) (g_max_scroll_limit g) else g_history_size g)"
    and off: "g_display_offset g2 = scroll_up_offset start stop k g"
    and reg: "0 \<le> start" "start + int k \<le> stop" "stop \<le> int (g_lines g)"
    and rows: "\<And>l. g_valid g2 l \<Longrightarrow> l < stop - int k \<or> stop \<le> l \<Longrightarrow> g_row g2 l =
       scrolled_up start stop (int k) (blank_row (g_columns g) (c_bg (cu_template (g_cursor g)))) (g_row g) l"
  shows "returns (reset_lines (cu_template (g_cursor g)) (irange (stop - int k) stop) (g_raw g2))
     (\<lambda>raw. scroll_up_post start stop k g (g2\<lparr>g_raw := raw\<rparr>))"
proof (rule returns_mono [OF reset_lines_returns [OF g2]])
  show "g_valid g2 l" if "l \<in> set (irange (stop - int k) stop)" for l
    using that reg frame g2 by (auto simp: g_valid_iff same_frame_def)
  fix raw
  assume *: "grid_core_ok (g2\<lparr>g_raw := raw\<rparr>) \<and> st_len raw = st_len (g_raw g2)
     \<and> (\<forall>l. g_valid g2 l \<longrightarrow> g_row (g2\<lparr>g_raw := raw\<rparr>) l =
          (if l \<in> set (irange (stop - int k) stop)
           then blank_row (g_columns g2) (c_bg (cu_template (g_cursor g))) else g_row g2 l))"
  have v: "g_valid (g2\<lparr>g_raw := raw\<rparr>) l = g_valid g2 l" for l
    using * by (simp add: g_valid_def dims_defs)
  have r: "g_row (g2\<lparr>g_raw := raw\<rparr>) l =
       scrolled_up start stop (int k) (blank_row (g_columns g) (c_bg (cu_template (g_cursor g)))) (g_row g) l"
    if "g_valid g2 l" for l
  proof (cases "l \<in> set (irange (stop - int k) stop)")
    case True
    then show ?thesis using * that reg frame by (auto simp: scrolled_up_def same_frame_def)
  next
    case False
    then have "l < stop - int k \<or> stop \<le> l" by auto
    then show ?thesis using * that False rows [of l] by auto
  qed
  have "g_history_size (g2\<lparr>g_raw := raw\<rparr>) = g_history_size g2"
    using * by (simp add: history_size_def)
  then show "scroll_up_post start stop k g (g2\<lparr>g_raw := raw\<rparr>)"
    using * v r hist off frame by (simp add: scroll_up_post_def same_frame_def)
qed simp

lemma scroll_up_top:
  assumes g: "grid_core_ok g" and reg: "int k \<le> stop" "stop \<le> int (g_lines g)"
  shows "returns (grid_scroll_up (0, stop) k g) (scroll_up_post 0 stop k g)"
proof -
  let ?t = "cu_template (g_cursor g)"
  define g1 where "g1 = g\<lparr>g_display_offset := scroll_up_offset 0 stop k g\<rparr>"
  have g1: "grid_core_ok g1"
    using g by (auto simp: g1_def scroll_up_offset_def grid_core_ok_def history_size_def)
  have fr1: "same_frame g g1" "g_raw g1 = g_raw g" "g_display_offset g1 = scroll_up_offset 0 stop k g"
    by (simp_all add: g1_def same_frame_def)
  have hv: "g_history_size g1 = g_history_size g" "g_row g1 = g_row g" "g_max_scroll_limit g1 = g_max_scroll_limit g"
    by (simp_all add: g1_def history_size_def g_row_def [abs_def])
  have "returns (increase_scroll_limit k g1) (\<lambda>g2. returns (do {
       raw \<leftarrow> st_rotate (- int k) (g_raw g2);
       mfold (\<lambda>i. st_swap i (i - int k)) (rev (irange stop (int (g_lines g2)))) raw
     }) (\<lambda>raw. returns (reset_lines ?t (irange (stop - int k) stop) raw)
     (\<lambda>raw. scroll_up_post 0 stop k g (g2\<lparr>g_raw := raw\<rparr>))))"
  proof (rule returns_mono [OF increase_scroll_limit_returns [OF g1]])
    fix g2
    assume *: "grid_core_ok g2 \<and> raw_frame g1 g2
     \<and> g_history_size g2 = min (g_history_size g1 + k) (g_max_scroll_limit g1)
     \<and> (\<forall>l. g_valid g1 l \<longrightarrow> g_row g2 l = g_row g1 l)"
    then have g2: "grid_core_ok g2" by blast
    have f2: "same_frame g g2" "g_display_offset g2 = scroll_up_offset 0 stop k g" "g_lines g2 = g_lines g"
      using * fr1 by (auto simp: raw_frame_def same_frame_def)
    show "returns (do {
       raw \<leftarrow> st_rotate (- int k) (g_raw g2);
       mfold (\<lambda>i. st_swap i (i - int k)) (rev (irange stop (int (g_lines g2)))) raw
     }) (\<lambda>raw. returns (reset_lines ?t (irange (stop - int k) stop) raw)
     (\<lambda>raw. scroll_up_post 0 stop k g (g2\<lparr>g_raw := raw\<rparr>)))"
    proof (rule returns_mono [OF rotate_up_rows [OF g2]])
      fix raw
      assume r: "grid_core_ok (g2\<lparr>g_raw := raw\<rparr>) \<and> st_len raw = st_len (g_raw g2)
       \<and> (\<forall>l. g_valid g2 l \<longrightarrow> (stop \<le> l \<longrightarrow> g_row (g2\<lparr>g_raw := raw\<rparr>) l = g_row g2 l)
            \<and> (l < stop - int k \<longrightarrow> g_row (g2\<lparr>g_raw := raw\<rparr>) l = g_row g2 (l + int k)))"
      let ?g3 = "g2\<lparr>g_raw := raw\<rparr>"
      have h3: "g_history_size ?g3 = min (g_history_size g + k) (g_max_scroll_limit g)"
        using r * hv by (simp add: history_size_def)
      have v3: "g_valid ?g3 l = g_valid g2 l" for l using r by (simp add: g_valid_def dims_defs)
      have "returns (reset_lines ?t (irange (stop - int k) stop) (g_raw ?g3))
         (\<lambda>raw. scroll_up_post 0 stop k g (?g3\<lparr>g_raw := raw\<rparr>))"
      proof (rule scroll_up_fill)
        show "g_row ?g3 l = scrolled_up 0 stop (int k) (blank_row (g_columns g) (c_bg ?t)) (g_row g) l"
          if l: "g_valid ?g3 l" "l < stop - int k \<or> stop \<le> l" for l
        proof -
          have "g_lines g1 = g_lines g" "- int (g_history_size ?g3) \<le> l" "l < int (g_lines g)"
            using l(1) r f2(3) fr1(1) by (auto simp: g_valid_iff same_frame_def)
          then have old: "l < stop - int k \<Longrightarrow> g_valid g1 (l + int k)" "stop \<le> l \<Longrightarrow> g_valid g1 l"
            using h3 hv(1) reg g1 by (auto simp: g_valid_iff)
          show ?thesis
            using l v3 r * hv old by (auto simp: scrolled_up_def)
        qed
      qed (use r h3 f2 reg in \<open>auto simp: same_frame_def\<close>)
      then show "returns (reset_lines ?t (irange (stop - int k) stop) raw)
         (\<lambda>raw. scroll_up_post 0 stop k g (g2\<lparr>g_raw := raw\<rparr>))" by simp
    qed (use reg f2 in auto)
  qed
  moreover have e: "(if g_display_offset g \<noteq> 0 \<or> \<not> g_auto_scroll_enabled g
      then g\<lparr>g_display_offset := min (g_display_offset g + k) (g_max_scroll_limit g)\<rparr> else g) = g1"
    by (simp add: g1_def scroll_up_offset_def)
  ultimately show ?thesis
    unfolding grid_scroll_up_def Let_def prod.case e by simp
qed

lemma scroll_up_inner:
  assumes g: "grid_core_ok g" and reg: "0 < start" "start \<le> stop" "stop \<le> int (g_lines g)"
  shows "returns (grid_scroll_up (start, stop) k g) (scroll_up_post start stop k g)"
proof (cases "stop - start \<le> int k")
  case True
  have "returns (reset_lines (cu_template (g_cursor g)) (irange start stop) (g_raw g))
      (\<lambda>raw. scroll_up_post start stop k g (g\<lparr>g_raw := raw\<rparr>))"
  proof (rule returns_mono [OF reset_lines_returns [OF g]])
    show "g_valid g l" if "l \<in> set (irange start stop)" for l
      using that reg g by (auto simp: g_valid_iff)
  qed (use True reg in \<open>auto simp: scroll_up_post_def scroll_up_offset_def history_size_def
      g_valid_def dims_defs scrolled_up_def\<close>)
  then show ?thesis using True reg by (simp add: grid_scroll_up_def Let_def)
next
  case False
  let ?t = "cu_template (g_cursor g)"
  define g1 where "g1 = g\<lparr>g_display_offset := scroll_up_offset start stop k g\<rparr>"
  have g1: "grid_core_ok g1"
    using g by (auto simp: g1_def scroll_up_offset_def grid_core_ok_def history_size_def)
  have fr1: "same_frame g g1" "g_raw g1 = g_raw g" "g_lines g1 = g_lines g"
    by (simp_all add: g1_def same_frame_def)
  have rg: "g_row g1 = g_row g" "g_history_size g1 = g_history_size g"
    by (simp_all add: g1_def g_row_def [abs_def] history_size_def)
  have "returns (mfold (\<lambda>i. st_swap i (i + int k)) (irange start (stop - int k)) (g_raw g1))
     (\<lambda>raw. returns (reset_lines ?t (irange (stop - int k) stop) (g_raw (g1\<lparr>g_raw := raw\<rparr>)))
       (\<lambda>raw'. scroll_up_post start stop k g (g1\<lparr>g_raw := raw, g_raw := raw'\<rparr>)))"
  proof (rule returns_mono [OF shift_up_rows [OF g1]])
    fix raw
    assume r: "grid_core_ok (g1\<lparr>g_raw := raw\<rparr>) \<and> st_len raw = st_len (g_raw g1)
       \<and> (\<forall>l. g_valid g1 l \<longrightarrow> (l < start \<or> stop \<le> l \<longrightarrow> g_row (g1\<lparr>g_raw := raw\<rparr>) l = g_row g1 l)
          \<and> (start \<le> l \<and> l < stop - int k \<longrightarrow> g_row (g1\<lparr>g_raw := raw\<rparr>) l = g_row g1 (l + int k)))"
    have v: "g_valid (g1\<lparr>g_raw := raw\<rparr>) l = g_valid g1 l" for l using r by (simp add: g_valid_def dims_defs)
    show "returns (reset_lines ?t (irange (stop - int k) stop) (g_raw (g1\<lparr>g_raw := raw\<rparr>)))
       (\<lambda>raw'. scroll_up_post start stop k g (g1\<lparr>g_raw := raw, g_raw := raw'\<rparr>))"
    proof (rule scroll_up_fill)
      show "g_history_size (g1\<lparr>g_raw := raw\<rparr>) = (if start = 0 then min (g_history_size g + k) (g_max_scroll_limit g) else g_history_size g)"
        using r rg reg by (simp add: history_size_def fr1)
    qed (use r v rg fr1 reg False in \<open>auto simp: scrolled_up_def same_frame_def g1_def\<close>)
  qed (use reg False fr1 in auto)
  moreover have e: "(if g_display_offset g \<noteq> 0 \<or> \<not> g_auto_scroll_enabled g
      then g\<lparr>g_display_offset := min (g_display_offset g + k) (g_max_scroll_limit g)\<rparr> else g) = g1"
    using False by (simp add: g1_def scroll_up_offset_def)
  ultimately show ?thesis
    using reg False unfolding grid_scroll_up_def Let_def prod.case e by simp
qed

lemma scroll_up_returns:
  assumes "grid_core_ok g" "0 \<le> start" "start \<le> stop" "stop \<le> int (g_lines g)"
    and "start = 0 \<Longrightarrow> int k \<le> stop"
  shows "returns (grid_scroll_up (start, stop) k g) (scroll_up_post start stop k g)"
  using scroll_up_top [of g k stop] scroll_up_inner [of g start stop k] assms
  by (cases "start = 0") auto

subsection \<open>Scrolling down\<close>

definition scrolled_down :: "int \<Rightarrow> int \<Rightarrow> int \<Rightarrow> cell row \<Rightarrow> (int \<Rightarrow> cell row) \<Rightarrow> int \<Rightarrow> cell row" where
  "scrolled_down start stop k blank rows l =
     (if l < start \<or> stop \<le> l then rows l
      else if l < start + k then blank
      else rows (l - k))"

definition scroll_down_post :: "int \<Rightarrow> int \<Rightarrow> nat \<Rightarrow> grid \<Rightarrow> grid \<Rightarrow> bool" where
  "scroll_down_post start stop k g g' \<longleftrightarrow>
     grid_core_ok g' \<and> raw_frame g g' \<and> st_len (g_raw g') = st_len (g_raw g)
     \<and> (\<forall>l. g_valid g l \<longrightarrow> g_row g' l =
          scrolled_down start stop (int k) (blank_row (g_columns g) (c_bg (cu_template (g_cursor g))))
            (g_row g) l)"

lemma swap_commuted_loop:
  "mfold (\<lambda>i. st_swap i (i - k)) (irange a b) s = mfold (\<lambda>i. st_swap (i + k) i) (irange (a - k) (b - k)) s"
  using irange_shift [of "a - k" k "b - k"] by (simp add: mfold_map)

text \<open>Without a scrollback the whole buffer is rotated.\<close>

lemma scroll_down_rotate:
  assumes g: "grid_core_ok g" and lim: "g_max_scroll_limit g = 0"
    and reg: "0 \<le> start" "start + int k < stop" "stop \<le> int (g_lines g)"
  shows "returns (do {
       raw \<leftarrow> mfold (\<lambda>i. st_swap i (i - int k)) (irange stop (int (g_lines g))) (g_raw g);
       raw \<leftarrow> st_rotate_down k raw;
       raw \<leftarrow> reset_lines t (irange 0 (int k)) raw;
       mfold (\<lambda>i. st_swap i (i + int k)) (irange 0 start) raw
     }) (\<lambda>raw. storage_ok (cell_row_ok (g_columns g)) raw \<and> st_len raw = st_len (g_raw g)
       \<and> st_visible_lines raw = g_lines g
       \<and> (\<forall>l. 0 \<le> l \<and> l < int (g_lines g) \<longrightarrow> st_row raw l =
            scrolled_down start stop (int k) (blank_row (g_columns g) (c_bg t)) (g_row g) l))"
proof -
  let ?R = "cell_row_ok (g_columns g)" and ?s = "g_raw g" and ?n = "int (g_lines g)" and ?k = "int k"
  let ?b = "blank_row (g_columns g) (c_bg t)"
  have st: "storage_ok ?R ?s" and vis: "st_visible_lines ?s = g_lines g" and c1: "1 \<le> g_columns g"
    using g by (auto simp: grid_core_ok_def)
  have len: "st_len ?s = g_lines g" "g_lines g \<le> length (st_inner ?s)"
    using g lim st vis by (auto simp: grid_core_ok_def storage_ok_def history_size_def)
  have ph: "phys_line s' l" if "st_visible_lines s' = g_lines g" "length (st_inner s') = length (st_inner ?s)"
      "0 \<le> l" "l < ?n" for s' :: "cell storage" and l
    using that len by (auto simp: phys_line_def)
  show ?thesis
    unfolding returns_bind swap_commuted_loop
  proof (rule returns_mono)
    show "returns (mfold (\<lambda>i. st_swap (i + ?k) i) (irange (stop - ?k) (?n - ?k)) ?s)
        (storage.shifted_up ?R ?s (stop - ?k) ?n ?k)"
      by (rule storage.shift_up_loop(2) [OF st]) (use reg len vis in \<open>auto simp: valid_line_def\<close>)
    fix s1 assume s1': "storage.shifted_up ?R ?s (stop - ?k) ?n ?k s1"
    then have s1: "storage_ok ?R s1" "st_shape s1 = st_shape ?s"
      "\<And>l. 0 \<le> l \<Longrightarrow> l < stop - ?k \<Longrightarrow> st_row s1 l = g_row g l"
      "\<And>l. stop - ?k \<le> l \<Longrightarrow> l < ?n - ?k \<Longrightarrow> st_row s1 l = g_row g (l + ?k)"
      using ph [OF vis] reg by (auto simp: storage.shifted_up_def g_row_def)
    have sh1: "st_visible_lines s1 = g_lines g" "length (st_inner s1) = length (st_inner ?s)" "st_len s1 = g_lines g"
      using s1(2) vis len by (auto simp: st_shape_def)
    show "returns (st_rotate_down k s1) (\<lambda>raw. returns (reset_lines t (irange 0 ?k) raw)
      (\<lambda>raw. returns (mfold (\<lambda>i. st_swap i (i + ?k)) (irange 0 start) raw)
        (\<lambda>raw. storage_ok ?R raw \<and> st_len raw = st_len ?s \<and> st_visible_lines raw = g_lines g
          \<and> (\<forall>l. 0 \<le> l \<and> l < ?n \<longrightarrow> st_row raw l = scrolled_down start stop ?k ?b (g_row g) l))))"
    proof (rule returns_mono [OF rotate_down_returns [OF s1(1)]])
      show "k \<le> length (st_inner s1)" using sh1 len reg by linarith
      fix s2
      assume "storage_ok ?R s2 \<and> st_len s2 = st_len s1 \<and> st_visible_lines s2 = st_visible_lines s1
        \<and> st_inner s2 = st_inner s1
        \<and> (\<forall>l. phys_line s1 l \<longrightarrow> st_row s2 l = st_row s1 (wrap_line s1 (l - ?k)))"
      then have s2: "storage_ok ?R s2" "st_len s2 = g_lines g" "st_visible_lines s2 = g_lines g"
        "length (st_inner s2) = length (st_inner ?s)"
        "\<And>l. ?k \<le> l \<Longrightarrow> l < ?n \<Longrightarrow> st_row s2 l = (if l < stop then g_row g (l - ?k) else g_row g l)"
        using sh1 len ph [of s1] s1(3,4) by (auto simp: wrap_line_def)
      show "returns (reset_lines t (irange 0 ?k) s2)
        (\<lambda>raw. returns (mfold (\<lambda>i. st_swap i (i + ?k)) (irange 0 start) raw)
          (\<lambda>raw. storage_ok ?R raw \<and> st_len raw = st_len ?s \<and> st_visible_lines raw = g_lines g
            \<and> (\<forall>l. 0 \<le> l \<and> l < ?n \<longrightarrow> st_row raw l = scrolled_down start stop ?k ?b (g_row g) l)))"
      proof (rule returns_mono [OF raw_reset_lines [OF s2(1) c1]])
        show "valid_line s2 l" if "l \<in> set (irange 0 ?k)" for l
          using that s2 reg by (auto simp: valid_line_def)
        fix s3
        assume "storage.has_rows ?R s2 (\<lambda>l. if l \<in> set (irange 0 ?k) then ?b else st_row s2 l) s3"
        then have s3: "storage_ok ?R s3" "st_shape s3 = st_shape s2"
          "\<And>l. 0 \<le> l \<Longrightarrow> l < ?n \<Longrightarrow> st_row s3 l =
             (if l < ?k then ?b else if l < stop then g_row g (l - ?k) else g_row g l)"
          using ph [OF s2(3,4)] s2(5) by (auto simp: storage.has_rows_def)
        have sh3: "st_visible_lines s3 = g_lines g" "length (st_inner s3) = length (st_inner ?s)"
            "st_len s3 = g_lines g"
          using s3(2) s2 by (auto simp: st_shape_def)
        have "returns (mfold (\<lambda>i. st_swap i (i + ?k)) (irange 0 (start + ?k - ?k)) s3)
            (storage.shifted_up ?R s3 0 (start + ?k) ?k)"
          by (rule storage.shift_up_loop(1) [OF s3(1)]) (use reg sh3 in \<open>auto simp: valid_line_def\<close>)
        then have "returns (mfold (\<lambda>i. st_swap i (i + ?k)) (irange 0 start) s3)
            (storage.shifted_up ?R s3 0 (start + ?k) ?k)" by simp
        then show "returns (mfold (\<lambda>i. st_swap i (i + ?k)) (irange 0 start) s3)
          (\<lambda>raw. storage_ok ?R raw \<and> st_len raw = st_len ?s \<and> st_visible_lines raw = g_lines g
            \<and> (\<forall>l. 0 \<le> l \<and> l < ?n \<longrightarrow> st_row raw l = scrolled_down start stop ?k ?b (g_row g) l))"
        proof (rule returns_mono)
          fix s4 assume s4: "storage.shifted_up ?R s3 0 (start + ?k) ?k s4"
          have "st_row s4 l = scrolled_down start stop ?k ?b (g_row g) l" if l: "0 \<le> l" "l < ?n" for l
          proof -
            note r = s4 [unfolded storage.shifted_up_def, THEN conjunct2, THEN conjunct2, rule_format,
                OF ph [OF sh3(1,2) l]]
            consider "l < start" | "start \<le> l" "l < start + ?k" | "start + ?k \<le> l" by linarith
            then show ?thesis
            proof cases
              case 1
              then show ?thesis using r l reg s3(3) [of "l + ?k"] by (auto simp: scrolled_down_def)
            next
              case 2
              then obtain l' where "0 \<le> l'" "l' < ?k" "st_row s4 l = st_row s3 l'" using r by auto
              then show ?thesis using 2 reg s3(3) [of l'] by (auto simp: scrolled_down_def)
            next
              case 3
              then show ?thesis using r l reg s3(3) [of l] by (auto simp: scrolled_down_def)
            qed
          qed
          then show "storage_ok ?R s4 \<and> st_len s4 = st_len ?s \<and> st_visible_lines s4 = g_lines g
            \<and> (\<forall>l. 0 \<le> l \<and> l < ?n \<longrightarrow> st_row s4 l = scrolled_down start stop ?k ?b (g_row g) l)"
            using s4 sh3 len by (auto simp: storage.shifted_up_def st_shape_def)
        qed
      qed simp
    qed
  qed
qed

text \<open>With a scrollback only the region is moved.\<close>

lemma scroll_down_swaps:
  assumes g: "grid_core_ok g"
    and reg: "0 \<le> start" "start + int k < stop" "stop \<le> int (g_lines g)"
  shows "returns (do {
       raw \<leftarrow> mfold (\<lambda>i. st_swap i (i - int k)) (rev (irange (start + int k) stop)) (g_raw g);
       reset_lines t (rev (irange start (start + int k))) raw
     }) (storage.has_rows (cell_row_ok (g_columns g)) (g_raw g)
       (scrolled_down start stop (int k) (blank_row (g_columns g) (c_bg t)) (g_row g)))"
proof -
  let ?R = "cell_row_ok (g_columns g)" and ?s = "g_raw g" and ?k = "int k"
  let ?b = "blank_row (g_columns g) (c_bg t)"
  have st: "storage_ok ?R ?s" and vis: "st_visible_lines ?s = g_lines g" and c1: "1 \<le> g_columns g"
    using g by (auto simp: grid_core_ok_def)
  have len: "g_lines g \<le> st_len ?s" using st vis by (auto simp: storage_ok_def)
  show ?thesis
    unfolding returns_bind
  proof (rule returns_mono [OF storage.shift_down_loop [OF st]])
    fix s1 assume s1: "storage.shifted_down ?R ?s start stop ?k s1"
    then have ok1: "storage_ok ?R s1" and sh1: "st_shape s1 = st_shape ?s"
      by (auto simp: storage.shifted_down_def)
    show "returns (reset_lines t (rev (irange start (start + ?k))) s1)
        (storage.has_rows ?R ?s (scrolled_down start stop ?k ?b (g_row g)))"
    proof (rule returns_mono [OF raw_reset_lines [OF ok1 c1]])
      show "valid_line s1 l" if "l \<in> set (rev (irange start (start + ?k)))" for l
        using that reg sh1 vis len by (auto simp: valid_line_def st_shape_def)
      fix s2
      assume s2: "storage.has_rows ?R s1
        (\<lambda>l. if l \<in> set (rev (irange start (start + ?k))) then ?b else st_row s1 l) s2"
      have "st_row s2 l = scrolled_down start stop ?k ?b (g_row g) l" if l: "phys_line ?s l" for l
        using s2 s1 l reg phys_line_shape [OF sh1, of l]
        by (auto simp: storage.has_rows_def storage.shifted_down_def scrolled_down_def g_row_def)
      then show "storage.has_rows ?R ?s (scrolled_down start stop ?k ?b (g_row g)) s2"
        using s2 sh1 by (simp add: storage.has_rows_def)
    qed simp
  qed (use reg vis len in \<open>auto simp: valid_line_def\<close>)
qed

lemma scroll_down_returns:
  assumes g: "grid_core_ok g" and reg: "0 \<le> start" "start \<le> stop" "stop \<le> int (g_lines g)"
  shows "returns (grid_scroll_down (start, stop) k g) (scroll_down_post start stop k g)"
proof -
  let ?t = "cu_template (g_cursor g)"
  consider (all) "stop - start \<le> int k" | (rot) "start + int k < stop" "g_max_scroll_limit g = 0"
    | (swap) "start + int k < stop" "g_max_scroll_limit g \<noteq> 0" by linarith
  then show ?thesis
  proof cases
    case all
    have "returns (reset_lines ?t (irange start stop) (g_raw g))
        (\<lambda>raw. scroll_down_post start stop k g (g\<lparr>g_raw := raw\<rparr>))"
    proof (rule returns_mono [OF reset_lines_returns [OF g]])
      show "g_valid g l" if "l \<in> set (irange start stop)" for l
        using that reg g by (auto simp: g_valid_iff)
    qed (use all reg in \<open>auto simp: scroll_down_post_def scrolled_down_def\<close>)
    then show ?thesis using all by (simp add: grid_scroll_down_def Let_def)
  next
    case rot
    have hist: "g_history_size g = 0" using g rot by (simp add: grid_core_ok_def)
    have "scroll_down_post start stop k g (g\<lparr>g_raw := raw\<rparr>)"
      if "storage_ok (cell_row_ok (g_columns g)) raw \<and> st_len raw = st_len (g_raw g)
       \<and> st_visible_lines raw = g_lines g
       \<and> (\<forall>l. 0 \<le> l \<and> l < int (g_lines g) \<longrightarrow> st_row raw l =
            scrolled_down start stop (int k) (blank_row (g_columns g) (c_bg ?t)) (g_row g) l)" for raw
      using that g hist
      by (auto simp: scroll_down_post_def g_valid_iff g_row_def [of "g\<lparr>g_raw := raw\<rparr>"])
        (auto simp: grid_core_ok_def history_size_def)
    then show ?thesis
      using returns_mono [OF scroll_down_rotate [OF g rot(2) reg(1) rot(1) reg(3), of ?t]] rot
      by (simp add: grid_scroll_down_def Let_def)
  next
    case swap
    have "scroll_down_post start stop k g (g\<lparr>g_raw := raw\<rparr>)"
      if "storage.has_rows (cell_row_ok (g_columns g)) (g_raw g)
       (scrolled_down start stop (int k) (blank_row (g_columns g) (c_bg ?t)) (g_row g)) raw" for raw
      using that grid_core_ok_raw [OF g, of raw] g_valid_phys [OF g]
      by (auto simp: scroll_down_post_def storage.has_rows_def st_shape_def g_row_def [of "g\<lparr>g_raw := raw\<rparr>"])
    then show ?thesis
      using returns_mono [OF scroll_down_swaps [OF g reg(1) swap(1) reg(3), of ?t]] swap
      by (simp add: grid_scroll_down_def Let_def)
  qed
qed

subsection \<open>Regions and history\<close>

lemma reset_region_returns:
  assumes g: "grid_core_ok g" and "0 \<le> case_option 0 id lo" "case_option 0 id lo < int (g_lines g)"
    "case_option (int (g_lines g)) id hi \<le> int (g_lines g)"
  shows "returns (reset_region lo hi g) (\<lambda>g'. grid_core_ok g' \<and> raw_frame g g'
     \<and> st_len (g_raw g') = st_len (g_raw g)
     \<and> (\<forall>l. g_valid g l \<longrightarrow> g_row g' l =
          (if case_option 0 id lo \<le> l \<and> l < case_option (int (g_lines g)) id hi
           then blank_row (g_columns g) (c_bg (cu_template (g_cursor g))) else g_row g l)))"
proof -
  have o: "(case lo of None \<Rightarrow> 0 | Some l \<Rightarrow> l) = case_option 0 id lo"
    "(case hi of None \<Rightarrow> int (g_lines g) | Some l \<Rightarrow> l) = case_option (int (g_lines g)) id hi"
    by (auto split: option.splits)
  have "returns (reset_lines (cu_template (g_cursor g))
      (irange (case_option 0 id lo) (case_option (int (g_lines g)) id hi)) (g_raw g))
      (\<lambda>raw. grid_core_ok (g\<lparr>g_raw := raw\<rparr>) \<and> st_len raw = st_len (g_raw g)
     \<and> (\<forall>l. g_valid g l \<longrightarrow> g_row (g\<lparr>g_raw := raw\<rparr>) l =
          (if l \<in> set (irange (case_option 0 id lo) (case_option (int (g_lines g)) id hi))
           then blank_row (g_columns g) (c_bg (cu_template (g_cursor g))) else g_row g l)))"
    by (rule reset_lines_returns [OF g]) (use assms in \<open>auto simp: g_valid_iff\<close>)
  then show ?thesis
    using assms(3,4) unfolding reset_region_def Let_def o by (auto elim!: returns_mono)
qed

lemma shrink_history_returns:
  assumes g: "grid_core_ok g" and k: "k \<le> g_history_size g"
  shows "returns (st_shrink_lines k (g_raw g)) (\<lambda>raw.
       storage_ok (cell_row_ok (g_columns g)) raw \<and> st_visible_lines raw = g_lines g
       \<and> st_len raw = st_len (g_raw g) - k
       \<and> (\<forall>l. g_valid g l \<and> - int (g_history_size g - k) \<le> l \<longrightarrow> st_row raw l = g_row g l))"
proof -
  have ring: "ring_ok (cell_row_ok (g_columns g)) (g_raw g)" and vis: "st_visible_lines (g_raw g) = g_lines g"
    "1 \<le> g_lines g" "g_lines g \<le> st_len (g_raw g)"
    using g by (auto simp: grid_core_ok_def storage_ok_ring)
  have "k < st_len (g_raw g)" using k vis by (auto simp: history_size_def)
  from returns_mono [OF shrink_lines_returns [OF ring this]] show ?thesis
    by (rule returns_mono) (use g k vis in \<open>auto simp: storage_ok_ring history_size_def g_valid_iff
        g_row_def st_row_at\<close>)
qed

lemma clear_history_returns:
  assumes g: "grid_core_ok g"
  shows "returns (clear_history g) (\<lambda>g'. grid_core_ok g' \<and> same_frame g g' \<and> g_history_size g' = 0
     \<and> g_display_offset g' = 0 \<and> (\<forall>l. 0 \<le> l \<and> l < int (g_lines g) \<longrightarrow> g_row g' l = g_row g l))"
  unfolding clear_history_def returns_bind returns_Some
  by (rule returns_mono [OF shrink_history_returns [OF g order.refl]])
    (use g in \<open>auto simp: same_frame_def g_valid_iff g_row_def [of "_\<lparr>g_raw := _, g_display_offset := _\<rparr>"]
      grid_core_ok_def history_size_def storage_ok_def\<close>)

lemma update_history_returns:
  assumes g: "grid_core_ok g"
  shows "returns (update_history n g) (\<lambda>g'. grid_core_ok g'
     \<and> g_cursor g' = g_cursor g \<and> g_saved_cursor g' = g_saved_cursor g
     \<and> g_columns g' = g_columns g \<and> g_lines g' = g_lines g \<and> g_max_scroll_limit g' = n
     \<and> g_display_offset g' = min (g_display_offset g) n
     \<and> g_history_size g' = min (g_history_size g) n
     \<and> (\<forall>l. g_valid g' l \<longrightarrow> g_row g' l = g_row g l))"
proof (cases "g_history_size g > n")
  case True
  then have k: "g_history_size g - n \<le> g_history_size g" by simp
  have lines: "g_lines g \<le> st_len (g_raw g)" using g by (auto simp: grid_core_ok_def storage_ok_def)
  show ?thesis
    using True unfolding update_history_def Let_def
    apply (simp only: if_True returns_bind returns_Some)
    apply (rule returns_mono [OF shrink_history_returns [OF g k]])
    using g True lines
    apply (auto simp: g_valid_def dims_defs g_row_def [of "_\<lparr>g_raw := _, g_display_offset := _, g_max_scroll_limit := _\<rparr>"]
        grid_core_ok_def)
    done
next
  case False
  then show ?thesis
    using g by (auto simp: update_history_def Let_def grid_core_ok_def history_size_def g_row_def)
qed

lemma scroll_target_le: "g_display_offset g \<le> g_history_size g \<Longrightarrow> scroll_target g sc \<le> g_history_size g"
  by (cases sc) auto

lemma scroll_target_limit: "grid_core_ok g \<Longrightarrow> scroll_target g sc \<le> g_max_scroll_limit g"
  by (cases sc) (auto simp: grid_core_ok_def)

lemma grid_scroll_display_ok: "grid_core_ok g \<Longrightarrow> grid_core_ok (grid_scroll_display sc g)"
  by (simp add: grid_scroll_display_def set_offset_core_ok scroll_target_limit)

lemma decrease_scroll_limit_returns:
  assumes g: "grid_core_ok g"
  shows "returns (decrease_scroll_limit k g) (\<lambda>g'. grid_core_ok g' \<and> same_frame g g'
     \<and> g_history_size g' = g_history_size g - k
     \<and> (\<forall>l. g_valid g' l \<longrightarrow> g_row g' l = g_row g l))"
proof (cases "min k (g_history_size g) = 0")
  case True
  then show ?thesis using g by (auto simp: decrease_scroll_limit_def)
next
  case False
  have lines: "g_lines g \<le> st_len (g_raw g)" using g by (auto simp: grid_core_ok_def storage_ok_def)
  have post: "grid_core_ok g' \<and> same_frame g g' \<and> g_history_size g' = g_history_size g - k
      \<and> (\<forall>l. g_valid g' l \<longrightarrow> g_row g' l = g_row g l)"
    if raw: "storage_ok (cell_row_ok (g_columns g)) raw \<and> st_visible_lines raw = g_lines g
       \<and> st_len raw = st_len (g_raw g) - min k (g_history_size g)
       \<and> (\<forall>l. g_valid g l \<and> - int (g_history_size g - min k (g_history_size g)) \<le> l \<longrightarrow>
            st_row raw l = g_row g l)"
      and g': "g' = g\<lparr>g_raw := raw, g_display_offset := off\<rparr>" "off \<le> g_history_size g'" for raw g' off
  proof -
    have h: "g_history_size g' = g_history_size g - k"
      using raw g'(1) lines by (auto simp: history_size_def)
    then have ok: "grid_core_ok g'"
      using raw g' g by (auto simp: grid_core_ok_def)
    have gl: "g_lines g' = g_lines g" using g'(1) by simp
    have "g_row g' l = g_row g l" if l: "g_valid g' l" for l
    proof -
      have "g_row g' l = st_row raw l" using g'(1) by (simp add: g_row_def)
      moreover have "- int (g_history_size g - k) \<le> l \<and> l < int (g_lines g)"
        using l unfolding g_valid_iff [OF ok] h gl by auto
      then have "g_valid g l \<and> - int (g_history_size g - min k (g_history_size g)) \<le> l"
        unfolding g_valid_iff [OF g] by (auto simp: min_def)
      then have "st_row raw l = g_row g l"
        by (rule raw [THEN conjunct2, THEN conjunct2, THEN conjunct2, THEN spec, THEN mp])
      ultimately show ?thesis by (rule trans)
    qed
    then show ?thesis using ok h g'(1) by (simp add: same_frame_def)
  qed
  show ?thesis
    using False unfolding decrease_scroll_limit_def Let_def
    by (simp only: if_True returns_bind returns_Some min.right_idem not_False_eq_True)
      (rule returns_mono [OF shrink_history_returns [OF g min.cobounded2]],
        erule post, simp, simp add: history_size_def)
qed

lemma grid_new_returns:
  assumes "1 \<le> lines" "1 \<le> cols"
  shows "returns (grid_new lines cols lim) (\<lambda>g. grid_ok g \<and> g_lines g = lines \<and> g_columns g = cols
     \<and> g_max_scroll_limit g = lim \<and> g_history_size g = 0 \<and> g_display_offset g = 0
     \<and> g_cursor g = default_cursor \<and> g_saved_cursor g = default_cursor
     \<and> g_auto_scroll_enabled g
     \<and> (\<forall>l. g_row g l = blank_row cols (Named Background)))"
proof -
  have R: "cell_row_ok cols \<lparr>row_inner = replicate cols default_cell, row_occ = 0\<rparr>"
    using blank_row_ok [of cols "Named Background"] by (simp add: blank_row_def default_cell_eq)
  show ?thesis
    unfolding grid_new_def returns_bind returns_Some
    by (rule returns_mono [OF with_capacity_returns [of _ _ "cell_row_ok cols", OF assms R]])
      (use assms in \<open>auto simp: grid_ok_def grid_core_ok_def history_size_def g_row_def blank_row_def
        default_cell_eq in_screen_def default_cursor_def default_point_def bottommost_line_def\<close>)
qed

lemma grid_reset_returns:
  assumes g: "grid_core_ok g"
  shows "returns (grid_reset g) (\<lambda>g'. grid_ok g' \<and> g_lines g' = g_lines g \<and> g_columns g' = g_columns g
     \<and> g_max_scroll_limit g' = g_max_scroll_limit g \<and> g_history_size g' = 0
     \<and> g_display_offset g' = 0 \<and> g_cursor g' = default_cursor \<and> g_saved_cursor g' = default_cursor
     \<and> (\<forall>l. 0 \<le> l \<and> l < int (g_lines g) \<longrightarrow> g_row g' l = blank_row (g_columns g) (Named Background)))"
  unfolding grid_reset_def Let_def returns_bind returns_Some
proof (rule returns_mono [OF clear_history_returns [OF g]])
  fix g1
  assume g1: "grid_core_ok g1 \<and> same_frame g g1 \<and> g_history_size g1 = 0
     \<and> g_display_offset g1 = 0 \<and> (\<forall>l. 0 \<le> l \<and> l < int (g_lines g) \<longrightarrow> g_row g1 l = g_row g l)"
  let ?g2 = "g1\<lparr>g_saved_cursor := default_cursor, g_cursor := default_cursor, g_display_offset := 0\<rparr>"
  have g2: "grid_core_ok ?g2" "g_history_size ?g2 = 0" "g_lines ?g2 = g_lines g" "g_columns ?g2 = g_columns g"
    using g1 by (auto simp: grid_core_ok_def history_size_def same_frame_def)
  have pos: "1 \<le> g_lines g" "1 \<le> g_columns g" using g by (auto simp: grid_core_ok_def storage_ok_def)
  show "returns (reset_lines (cu_template (g_cursor ?g2))
      (irange (topmost_line (grid_dims ?g2)) (int (g_lines ?g2))) (g_raw ?g2))
     (\<lambda>raw. grid_ok (?g2\<lparr>g_raw := raw\<rparr>) \<and> g_lines (?g2\<lparr>g_raw := raw\<rparr>) = g_lines g
       \<and> g_columns (?g2\<lparr>g_raw := raw\<rparr>) = g_columns g
       \<and> g_max_scroll_limit (?g2\<lparr>g_raw := raw\<rparr>) = g_max_scroll_limit g
       \<and> g_history_size (?g2\<lparr>g_raw := raw\<rparr>) = 0 \<and> g_display_offset (?g2\<lparr>g_raw := raw\<rparr>) = 0
       \<and> g_cursor (?g2\<lparr>g_raw := raw\<rparr>) = default_cursor
       \<and> g_saved_cursor (?g2\<lparr>g_raw := raw\<rparr>) = default_cursor
       \<and> (\<forall>l. 0 \<le> l \<and> l < int (g_lines g) \<longrightarrow>
            g_row (?g2\<lparr>g_raw := raw\<rparr>) l = blank_row (g_columns g) (Named Background)))"
  proof (rule returns_mono [OF reset_lines_returns [OF g2(1)]])
    show "g_valid ?g2 l" if "l \<in> set (irange (topmost_line (grid_dims ?g2)) (int (g_lines ?g2)))" for l
      using that by (auto simp: g_valid_def bottommost_line_def)
  next
    fix raw
    assume r: "grid_core_ok (?g2\<lparr>g_raw := raw\<rparr>) \<and> st_len raw = st_len (g_raw ?g2)
     \<and> (\<forall>l. g_valid ?g2 l \<longrightarrow> g_row (?g2\<lparr>g_raw := raw\<rparr>) l =
          (if l \<in> set (irange (topmost_line (grid_dims ?g2)) (int (g_lines ?g2)))
           then blank_row (g_columns ?g2) (c_bg (cu_template (g_cursor ?g2))) else g_row ?g2 l))"
    have "g_row (?g2\<lparr>g_raw := raw\<rparr>) l = blank_row (g_columns g) (Named Background)"
      if "0 \<le> l" "l < int (g_lines g)" for l
    proof -
      have "g_valid ?g2 l" using that g2 by (simp add: g_valid_iff)
      moreover from this have "l \<in> set (irange (topmost_line (grid_dims ?g2)) (int (g_lines ?g2)))"
        using that g2(3) by (auto simp: g_valid_def)
      ultimately show ?thesis using r g2(4) by (simp add: default_cursor_def default_cell_def)
    qed
    moreover have "grid_ok (?g2\<lparr>g_raw := raw\<rparr>)"
      using r pos g1 by (auto simp: grid_ok_def in_screen_def default_cursor_def default_point_def
          bottommost_line_def same_frame_def)
    ultimately show "grid_ok (?g2\<lparr>g_raw := raw\<rparr>) \<and> g_lines (?g2\<lparr>g_raw := raw\<rparr>) = g_lines g
       \<and> g_columns (?g2\<lparr>g_raw := raw\<rparr>) = g_columns g
       \<and> g_max_scroll_limit (?g2\<lparr>g_raw := raw\<rparr>) = g_max_scroll_limit g
       \<and> g_history_size (?g2\<lparr>g_raw := raw\<rparr>) = 0 \<and> g_display_offset (?g2\<lparr>g_raw := raw\<rparr>) = 0
       \<and> g_cursor (?g2\<lparr>g_raw := raw\<rparr>) = default_cursor
       \<and> g_saved_cursor (?g2\<lparr>g_raw := raw\<rparr>) = default_cursor
       \<and> (\<forall>l. 0 \<le> l \<and> l < int (g_lines g) \<longrightarrow>
            g_row (?g2\<lparr>g_raw := raw\<rparr>) l = blank_row (g_columns g) (Named Background))"
      using g1 g2 r by (auto simp: same_frame_def history_size_def)
  qed simp
qed

subsection \<open>Clearing the viewport\<close>

lemma prev_point_in_grid:
  assumes g: "grid_core_ok g" and p: "Point (topmost_line (grid_dims g)) 0 < p" "p_column p \<le> g_columns g"
    "p_line p \<le> bottommost_line (grid_dims g)"
  shows "in_grid (grid_dims g) (prev_point g p)" "prev_point g p < p"
proof -
  have c: "1 \<le> g_columns g" using g by (simp add: grid_core_ok_def)
  show "in_grid (grid_dims g) (prev_point g p)"
    using p c by (cases p) (auto simp: prev_point_def in_grid_def last_column_def)
  show "prev_point g p < p" by (cases p) (auto simp: prev_point_def)
qed

text \<open>No point lies strictly between a point and its predecessor.\<close>

lemma prev_point_adjacent:
  "q < p \<Longrightarrow> p_column q < g_columns g \<Longrightarrow> p_column p \<le> g_columns g \<Longrightarrow> q \<le> prev_point g p"
  by (cases p; cases q) (auto simp: prev_point_def last_column_def)

lemma clear_viewport_scan_returns:
  assumes g: "grid_core_ok g" and p: "p_column p \<le> g_columns g" "0 \<le> p_line p" "p_line p \<le> bottommost_line (grid_dims g)"
  shows "returns (clear_viewport_scan g p) (\<lambda>q. - 1 \<le> p_line q \<and> p_line q \<le> p_line p
     \<and> (\<forall>r. q < r \<and> r < p \<and> p_column r < g_columns g \<longrightarrow> cell_is_empty (g_cell g r)))"
  using g p
proof (induction g p rule: clear_viewport_scan.induct)
  case (1 g p)
  show ?case
  proof (cases "p \<le> Point (topmost_line (grid_dims g)) 0")
    case True
    then show ?thesis using "1.prems" by (auto simp: clear_viewport_scan.simps [of g p])
  next
    case False
    let ?q = "prev_point g p"
    have q: "in_grid (grid_dims g) ?q" "?q < p"
      using prev_point_in_grid [OF "1.prems"(1)] "1.prems" False by auto
    then have ql: "?q < p" "p_column ?q < g_columns g" "p_line ?q \<le> p_line p" "- 1 \<le> p_line ?q"
      using "1.prems" by (auto simp: in_grid_def prev_point_def)
    have between: "r = ?q \<or> r < ?q" if "r < p" "p_column r < g_columns g" for r
      using prev_point_adjacent [OF that(1,2) "1.prems"(2)] by auto
    have step: "clear_viewport_scan g p =
        (if \<not> cell_is_empty (g_cell g ?q) \<or> p_line ?q < 0 then Some ?q else clear_viewport_scan g ?q)"
      using False grid_get_cell [OF "1.prems"(1) q(1)] by (simp add: clear_viewport_scan.simps [of g p] Let_def)
    show ?thesis
    proof (cases "\<not> cell_is_empty (g_cell g ?q) \<or> p_line ?q < 0")
      case True
      then show ?thesis
        unfolding step using ql between by (auto dest: less_asym)
    next
      case go: False
      have "returns (clear_viewport_scan g ?q) (\<lambda>q'. - 1 \<le> p_line q' \<and> p_line q' \<le> p_line ?q
        \<and> (\<forall>r. q' < r \<and> r < ?q \<and> p_column r < g_columns g \<longrightarrow> cell_is_empty (g_cell g r)))"
        by (rule "1.IH" [OF False refl grid_get_cell [OF "1.prems"(1) q(1)]])
          (use go "1.prems" ql q in \<open>auto simp: in_grid_def\<close>)
      then have "returns (clear_viewport_scan g ?q) (\<lambda>q'. - 1 \<le> p_line q' \<and> p_line q' \<le> p_line p
        \<and> (\<forall>r. q' < r \<and> r < p \<and> p_column r < g_columns g \<longrightarrow> cell_is_empty (g_cell g r)))"
        by (rule returns_mono) (use go ql between in \<open>force\<close>)
      then show ?thesis unfolding step using go by simp
    qed
  qed
qed

text \<open>The viewport was scrolled up by \<open>k\<close> lines and then blanked.\<close>

definition viewport_cleared :: "nat \<Rightarrow> grid \<Rightarrow> grid \<Rightarrow> bool" where
  "viewport_cleared k g g' \<longleftrightarrow> grid_core_ok g' \<and> same_frame g g'
     \<and> g_display_offset g \<le> g_display_offset g'
     \<and> g_history_size g' = min (g_history_size g + k) (g_max_scroll_limit g)
     \<and> (\<forall>l. g_valid g' l \<longrightarrow> g_row g' l =
           (if l < 0 then g_row g (l + int k)
            else blank_row (g_columns g) (c_bg (cu_template (g_cursor g)))))"

lemma viewport_blank:
  assumes g: "grid_core_ok g" and k: "k \<le> g_lines g" and "scroll_up_post 0 (int (g_lines g)) k g g1"
  shows "returns (reset_lines (cu_template (g_cursor g1)) (irange 0 (int (g_lines g1 - k))) (g_raw g1))
      (\<lambda>raw. viewport_cleared k g (g1\<lparr>g_raw := raw\<rparr>))"
proof -
  let ?b = "blank_row (g_columns g) (c_bg (cu_template (g_cursor g)))"
  have g1: "grid_core_ok g1" "same_frame g g1" "g_display_offset g1 = scroll_up_offset 0 (int (g_lines g)) k g"
    "g_history_size g1 = min (g_history_size g + k) (g_max_scroll_limit g)"
    "\<And>l. g_valid g1 l \<Longrightarrow> g_row g1 l = scrolled_up 0 (int (g_lines g)) (int k) ?b (g_row g) l"
    using assms(3) by (auto simp: scroll_up_post_def)
  have eqs: "g_lines g1 = g_lines g" "g_cursor g1 = g_cursor g" "g_columns g1 = g_columns g"
    using g1(2) by (auto simp: same_frame_def)
  have off: "g_display_offset g \<le> g_display_offset g1"
    using g by (simp add: g1(3) scroll_up_offset_def grid_core_ok_def)
  show ?thesis
  proof (rule returns_mono [OF reset_lines_returns [OF g1(1)]])
    show "g_valid g1 l" if "l \<in> set (irange 0 (int (g_lines g1 - k)))" for l
      using that g1(1) by (auto simp: g_valid_iff)
    fix raw
    assume r: "grid_core_ok (g1\<lparr>g_raw := raw\<rparr>) \<and> st_len raw = st_len (g_raw g1)
       \<and> (\<forall>l. g_valid g1 l \<longrightarrow> g_row (g1\<lparr>g_raw := raw\<rparr>) l =
          (if l \<in> set (irange 0 (int (g_lines g1 - k)))
           then blank_row (g_columns g1) (c_bg (cu_template (g_cursor g1))) else g_row g1 l))"
    have v: "g_valid (g1\<lparr>g_raw := raw\<rparr>) l = g_valid g1 l" for l using r by (simp add: g_valid_def dims_defs)
    have "g_row (g1\<lparr>g_raw := raw\<rparr>) l = (if l < 0 then g_row g (l + int k) else ?b)" if "g_valid g1 l" for l
      using r that g1(5) [OF that] eqs k g1(1)
      by (auto simp: scrolled_up_def g_valid_iff of_nat_diff split: if_splits)
    then show "viewport_cleared k g (g1\<lparr>g_raw := raw\<rparr>)"
      using r v g1(2,4) off by (simp add: viewport_cleared_def same_frame_def history_size_def)
  qed simp
qed

lemma viewport_scan:
  assumes g: "grid_core_ok g"
  shows "returns (clear_viewport_scan g (Point (int (g_lines g) - 1) (g_columns g))) (\<lambda>q.
     - 1 \<le> p_line q \<and> p_line q \<le> int (g_lines g) - 1
     \<and> (\<forall>l. p_line q < l \<and> l < int (g_lines g) \<longrightarrow> row_is_clear cell_is_empty (g_row g l)))"
proof (rule returns_mono [OF clear_viewport_scan_returns [OF g]])
  let ?n = "int (g_lines g)"
  have n: "1 \<le> g_lines g" using g by (auto simp: grid_core_ok_def storage_ok_def)
  then show "0 \<le> p_line (Point (?n - 1) (g_columns g))" by simp
  fix q
  assume q: "- 1 \<le> p_line q \<and> p_line q \<le> p_line (Point (?n - 1) (g_columns g))
   \<and> (\<forall>r. q < r \<and> r < Point (?n - 1) (g_columns g) \<and> p_column r < g_columns g \<longrightarrow> cell_is_empty (g_cell g r))"
  have "cell_is_empty (row_inner (g_row g l) ! i)" if l: "p_line q < l" "l < ?n" "i < g_columns g" for l i
  proof -
    have "q < Point l i" "Point l i < Point (?n - 1) (g_columns g)" using l by (cases q; auto)+
    then have "cell_is_empty (g_cell g (Point l i))" using q l(3) by simp
    then show ?thesis by (simp add: g_cell_def)
  qed
  then show "- 1 \<le> p_line q \<and> p_line q \<le> ?n - 1
   \<and> (\<forall>l. p_line q < l \<and> l < ?n \<longrightarrow> row_is_clear cell_is_empty (g_row g l))"
    using q g_row_len [OF g] by (auto simp: row_is_clear_def list_all_length)
qed (auto simp: bottommost_line_def)

lemma clear_viewport_returns:
  assumes g: "grid_core_ok g"
  shows "returns (clear_viewport g) (\<lambda>g'. \<exists>k \<le> g_lines g. viewport_cleared k g g'
     \<and> (\<forall>l. int k \<le> l \<and> l < int (g_lines g) \<longrightarrow> row_is_clear cell_is_empty (g_row g l)))"
  unfolding clear_viewport_def returns_bind
proof (rule returns_mono [OF viewport_scan [OF g]])
  fix q
  assume q: "- 1 \<le> p_line q \<and> p_line q \<le> int (g_lines g) - 1
   \<and> (\<forall>l. p_line q < l \<and> l < int (g_lines g) \<longrightarrow> row_is_clear cell_is_empty (g_row g l))"
  let ?k = "nat (p_line q + 1)"
  have k: "?k \<le> g_lines g" "int ?k \<le> int (g_lines g)" using q by auto
  have cl: "\<forall>l. int ?k \<le> l \<and> l < int (g_lines g) \<longrightarrow> row_is_clear cell_is_empty (g_row g l)" using q by auto
  have up: "returns (grid_scroll_up (0, int (g_lines g)) ?k g) (scroll_up_post 0 (int (g_lines g)) ?k g)"
    by (rule scroll_up_returns [OF g]) (use k in auto)
  have fin: "returns (usub (g_lines g1) ?k) (\<lambda>n.
      returns (reset_lines (cu_template (g_cursor g1)) (irange 0 (int n)) (g_raw g1))
        (\<lambda>raw. returns (Some (g1\<lparr>g_raw := raw\<rparr>)) (\<lambda>g'. \<exists>k \<le> g_lines g. viewport_cleared k g g'
     \<and> (\<forall>l. int k \<le> l \<and> l < int (g_lines g) \<longrightarrow> row_is_clear cell_is_empty (g_row g l)))))"
    if p: "scroll_up_post 0 (int (g_lines g)) ?k g g1" for g1
  proof -
    have "g_lines g1 = g_lines g" using p by (simp add: scroll_up_post_def same_frame_def)
    then have n: "?k \<le> g_lines g1" using k(1) by simp
    show ?thesis
      unfolding returns_usub
    proof (intro conjI)
      show "?k \<le> g_lines g1" by (rule n)
      show "returns (reset_lines (cu_template (g_cursor g1)) (irange 0 (int (g_lines g1 - ?k))) (g_raw g1))
        (\<lambda>raw. returns (Some (g1\<lparr>g_raw := raw\<rparr>)) (\<lambda>g'. \<exists>k \<le> g_lines g. viewport_cleared k g g'
     \<and> (\<forall>l. int k \<le> l \<and> l < int (g_lines g) \<longrightarrow> row_is_clear cell_is_empty (g_row g l))))"
        by (rule returns_mono [OF viewport_blank [OF g k(1) p]], unfold returns_Some)
          (rule exI [of _ ?k], rule conjI [OF k(1)], erule conjI [OF _ cl])
    qed
  qed
  show "returns (guard (- 1 \<le> p_line q)) (\<lambda>_. returns (as_usize (p_line q + 1)) (\<lambda>k.
     returns (grid_scroll_up (0, int (g_lines g)) k g) (\<lambda>g1. returns (usub (g_lines g1) k) (\<lambda>n.
     returns (reset_lines (cu_template (g_cursor g1)) (irange 0 (int n)) (g_raw g1))
     (\<lambda>raw. returns (Some (g1\<lparr>g_raw := raw\<rparr>)) (\<lambda>g'. \<exists>k \<le> g_lines g. viewport_cleared k g g'
     \<and> (\<forall>l. int k \<le> l \<and> l < int (g_lines g) \<longrightarrow> row_is_clear cell_is_empty (g_row g l))))))))"
    unfolding returns_guard returns_as_usize
    by (intro conjI) (use q in simp, use q in simp, rule returns_mono [OF up fin], assumption)
qed

end
