(* ===== verification/Damage.thy ===== *)
theory Damage
  imports Index_Types
begin

text \<open>
  Damage tracking of the terminal: \<^verbatim>\<open>LineDamageBounds\<close>, \<^verbatim>\<open>TermDamageIterator\<close> and \<^verbatim>\<open>TermDamageState\<close> of
  \<^verbatim>\<open>velacritty_terminal/src/term/mod.rs\<close>, with the viewport conversions of the same file.

  A line that was not touched holds the empty interval \<open>[columns, 0]\<close>; damage only widens it. The iterator
  drops the lines pushed out of the viewport by the scroll position and shifts the others. \<open>damage_ok\<close> says
  that the table has one entry per screen line, in order. \<open>damaged_cell\<close> is the specification: the set of
  cells of the screen the state marks as dirty.
\<close>

subsection \<open>Viewport coordinates\<close>

definition point_to_viewport :: "nat \<Rightarrow> point \<Rightarrow> nat gpoint option" where
  "point_to_viewport display_offset p =
     (let viewport_line = p_line p + int display_offset in
      map_option (\<lambda>l. Point l (p_column p)) (if viewport_line \<ge> 0 then Some (nat viewport_line) else None))"

definition viewport_to_point :: "nat \<Rightarrow> nat gpoint \<Rightarrow> point" where
  "viewport_to_point display_offset p = Point (int (p_line p) - int display_offset) (p_column p)"

lemma viewport_point_roundtrip: "point_to_viewport off (viewport_to_point off p) = Some p"
  by (cases p) (simp add: point_to_viewport_def viewport_to_point_def)

lemma point_viewport_roundtrip:
  "point_to_viewport off p = Some q \<Longrightarrow> viewport_to_point off q = p"
  by (cases p) (auto simp: point_to_viewport_def viewport_to_point_def Let_def split: if_splits)

subsection \<open>Line damage\<close>

record line_damage =
  ld_line :: nat
  ld_left :: nat
  ld_right :: nat

definition ld_new :: "nat \<Rightarrow> nat \<Rightarrow> nat \<Rightarrow> line_damage" where
  "ld_new line left right = \<lparr>ld_line = line, ld_left = left, ld_right = right\<rparr>"

definition undamaged :: "nat \<Rightarrow> nat \<Rightarrow> line_damage" where
  "undamaged line num_cols = \<lparr>ld_line = line, ld_left = num_cols, ld_right = 0\<rparr>"

definition ld_reset :: "nat \<Rightarrow> line_damage \<Rightarrow> line_damage" where
  "ld_reset num_cols d = undamaged (ld_line d) num_cols"

definition ld_expand :: "nat \<Rightarrow> nat \<Rightarrow> line_damage \<Rightarrow> line_damage" where
  "ld_expand left right d = d\<lparr>ld_left := min (ld_left d) left, ld_right := max (ld_right d) right\<rparr>"

definition is_damaged :: "line_damage \<Rightarrow> bool" where
  "is_damaged d \<longleftrightarrow> ld_left d \<le> ld_right d"

text \<open>The iterator: the visible prefix of the table, and \<^verbatim>\<open>next\<close> as \<^verbatim>\<open>find_map\<close> over it.\<close>

record damage_iterator =
  di_line_damage :: "line_damage list"
  di_display_offset :: nat

definition damage_iterator_new :: "line_damage list \<Rightarrow> nat \<Rightarrow> damage_iterator" where
  "damage_iterator_new ld display_offset =
     \<lparr>di_line_damage = take (length ld - display_offset) ld, di_display_offset = display_offset\<rparr>"

fun damage_find :: "nat \<Rightarrow> line_damage list \<Rightarrow> line_damage list \<times> line_damage option" where
  "damage_find off [] = ([], None)"
| "damage_find off (d # ds) =
     (if is_damaged d then (ds, Some (ld_new (ld_line d + off) (ld_left d) (ld_right d)))
      else damage_find off ds)"

definition damage_next :: "damage_iterator \<Rightarrow> damage_iterator \<times> line_damage option" where
  "damage_next it =
     (let (rest, found) = damage_find (di_display_offset it) (di_line_damage it)
      in (it\<lparr>di_line_damage := rest\<rparr>, found))"

text \<open>All items of an iterator: \<^verbatim>\<open>next\<close> until it returns \<^verbatim>\<open>None\<close>.\<close>

lemma damage_find_length: "damage_find off ds = (rest, Some d) \<Longrightarrow> length rest < length ds"
  by (induction ds arbitrary: rest) (auto split: if_splits simp: less_SucI)

function damage_collect :: "damage_iterator \<Rightarrow> line_damage list" where
  "damage_collect it =
     (case damage_next it of (it', None) \<Rightarrow> [] | (it', Some d) \<Rightarrow> d # damage_collect it')"
  by pat_completeness auto
termination
  by (relation "measure (\<lambda>it. length (di_line_damage it))")
    (auto simp: damage_next_def damage_find_length split: prod.splits)

declare damage_collect.simps [simp del]

subsection \<open>The damage state\<close>

record damage_state =
  dm_full :: bool
  dm_lines :: "line_damage list"
  dm_last_cursor :: point

definition undamaged_lines :: "nat \<Rightarrow> nat \<Rightarrow> line_damage list" where
  "undamaged_lines num_cols num_lines = map (\<lambda>line. undamaged line num_cols) [0..<num_lines]"

definition damage_new :: "nat \<Rightarrow> nat \<Rightarrow> damage_state" where
  "damage_new num_cols num_lines =
     \<lparr>dm_full = True, dm_lines = undamaged_lines num_cols num_lines, dm_last_cursor = default_point\<rparr>"

definition damage_resize :: "nat \<Rightarrow> nat \<Rightarrow> damage_state \<Rightarrow> damage_state" where
  "damage_resize num_cols num_lines d =
     d\<lparr>dm_last_cursor := default_point, dm_full := True, dm_lines := undamaged_lines num_cols num_lines\<rparr>"

definition damage_line :: "nat \<Rightarrow> nat \<Rightarrow> nat \<Rightarrow> damage_state \<Rightarrow> damage_state option" where
  "damage_line line left right d = do {
     lines \<leftarrow> vmod (dm_lines d) line (ld_expand left right);
     Some (d\<lparr>dm_lines := lines\<rparr>)
   }"

definition damage_point :: "nat gpoint \<Rightarrow> damage_state \<Rightarrow> damage_state option" where
  "damage_point p = damage_line (p_line p) (p_column p) (p_column p)"

definition damage_reset :: "nat \<Rightarrow> damage_state \<Rightarrow> damage_state" where
  "damage_reset num_cols d = d\<lparr>dm_full := False, dm_lines := map (ld_reset num_cols) (dm_lines d)\<rparr>"

subsection \<open>Invariant and meaning\<close>

definition damage_ok :: "nat \<Rightarrow> damage_state \<Rightarrow> bool" where
  "damage_ok n d \<longleftrightarrow> map ld_line (dm_lines d) = [0..<n]"

lemma damage_ok_length: "damage_ok n d \<Longrightarrow> length (dm_lines d) = n"
  unfolding damage_ok_def by (metis length_map diff_zero length_upt)

lemma damage_ok_line: "damage_ok n d \<Longrightarrow> i < n \<Longrightarrow> ld_line (dm_lines d ! i) = i"
  unfolding damage_ok_def by (metis add_0 diff_zero length_map length_upt nth_map nth_upt)

definition damaged_cell :: "damage_state \<Rightarrow> nat \<Rightarrow> nat \<Rightarrow> bool" where
  "damaged_cell d line col \<longleftrightarrow> dm_full d
     \<or> (line < length (dm_lines d) \<and> ld_left (dm_lines d ! line) \<le> col \<and> col \<le> ld_right (dm_lines d ! line))"

text \<open>What a state covers only grows, and a line's whole interval between two marks is covered.\<close>

definition damage_grows :: "damage_state \<Rightarrow> damage_state \<Rightarrow> bool" where
  "damage_grows d d' \<longleftrightarrow> (\<forall>l c. damaged_cell d l c \<longrightarrow> damaged_cell d' l c)"

lemma damage_grows_refl [simp]: "damage_grows d d"
  by (simp add: damage_grows_def)

lemma damage_grows_trans: "damage_grows d d' \<Longrightarrow> damage_grows d' d'' \<Longrightarrow> damage_grows d d''"
  by (simp add: damage_grows_def)

lemma undamaged_ok: "map ld_line (undamaged_lines c n) = [0..<n]"
  by (rule nth_equalityI) (auto simp: undamaged_lines_def undamaged_def)

lemma damage_new_ok [simp]: "damage_ok n (damage_new c n)"
  by (simp add: damage_ok_def damage_new_def undamaged_ok)

lemma damage_resize_ok [simp]: "damage_ok n (damage_resize c n d)"
  by (simp add: damage_ok_def damage_resize_def undamaged_ok)

lemma damage_reset_ok [simp]: "damage_ok n (damage_reset c d) \<longleftrightarrow> damage_ok n d"
  by (simp add: damage_ok_def damage_reset_def comp_def ld_reset_def undamaged_def)

lemma damage_full_ok [simp]: "damage_ok n (d\<lparr>dm_full := b\<rparr>) \<longleftrightarrow> damage_ok n d"
  by (simp add: damage_ok_def)

lemma damage_cursor_ok [simp]: "damage_ok n (d\<lparr>dm_last_cursor := p\<rparr>) \<longleftrightarrow> damage_ok n d"
  by (simp add: damage_ok_def)

lemma damage_line_returns:
  assumes "damage_ok n d" "line < n"
  shows "returns (damage_line line left right d) (\<lambda>d'. damage_ok n d' \<and> damage_grows d d'
     \<and> dm_full d' = dm_full d \<and> dm_last_cursor d' = dm_last_cursor d
     \<and> (\<forall>c. left \<le> c \<and> c \<le> right \<longrightarrow> damaged_cell d' line c))"
proof -
  have len: "line < length (dm_lines d)" using assms damage_ok_length by simp
  let ?d = "d\<lparr>dm_lines := (dm_lines d)[line := ld_expand left right (dm_lines d ! line)]\<rparr>"
  have "map ld_line (dm_lines ?d) = map ld_line (dm_lines d)"
    using len by (simp add: map_update ld_expand_def list_update_same_conv)
  then have "damage_ok n ?d" using assms(1) by (simp add: damage_ok_def)
  moreover have "damage_grows d ?d"
    using len by (auto simp: damage_grows_def damaged_cell_def nth_list_update ld_expand_def)
  moreover have "damaged_cell ?d line c" if "left \<le> c \<and> c \<le> right" for c
    using len that by (auto simp: damaged_cell_def ld_expand_def)
  ultimately show ?thesis
    using len by (simp add: damage_line_def)
qed

lemma damage_point_returns:
  "damage_ok n d \<Longrightarrow> p_line p < n \<Longrightarrow> returns (damage_point p d) (\<lambda>d'. damage_ok n d' \<and> damage_grows d d'
     \<and> dm_full d' = dm_full d \<and> dm_last_cursor d' = dm_last_cursor d
     \<and> damaged_cell d' (p_line p) (p_column p))"
  unfolding damage_point_def by (rule returns_mono [OF damage_line_returns]) auto

text \<open>A reset leaves no cell of the grid marked.\<close>

lemma damage_reset_clean: "c < cols \<Longrightarrow> 0 < cols \<Longrightarrow> \<not> damaged_cell (damage_reset cols d) l c"
  by (auto simp: damaged_cell_def damage_reset_def ld_reset_def undamaged_def)

subsection \<open>The iterator\<close>

lemma damage_collect_None: "damage_next it = (it', None) \<Longrightarrow> damage_collect it = []"
  by (subst damage_collect.simps) simp

lemma damage_collect_Some: "damage_next it = (it', Some d) \<Longrightarrow> damage_collect it = d # damage_collect it'"
  by (subst damage_collect.simps) simp

lemma damage_collect_cong: "damage_next it = damage_next it' \<Longrightarrow> damage_collect it = damage_collect it'"
  by (metis damage_collect.simps)

lemma damage_collect_find:
  "damage_collect \<lparr>di_line_damage = ds, di_display_offset = off\<rparr> =
     map (\<lambda>d. ld_new (ld_line d + off) (ld_left d) (ld_right d)) (filter is_damaged ds)"
proof (induction ds)
  case Nil
  show ?case
    by (subst damage_collect_None) (simp_all add: damage_next_def)
next
  case (Cons d ds)
  show ?case
  proof (cases "is_damaged d")
    case True
    then show ?thesis
      by (subst damage_collect_Some [of _ "\<lparr>di_line_damage = ds, di_display_offset = off\<rparr>"])
        (simp_all add: damage_next_def Cons.IH)
  next
    case False
    then show ?thesis
      by (subst damage_collect_cong [of _ "\<lparr>di_line_damage = ds, di_display_offset = off\<rparr>"])
        (simp_all add: damage_next_def Cons.IH)
  qed
qed

lemma damage_iterator_items:
  assumes "damage_ok n d" "\<not> dm_full d"
  shows "(\<exists>x \<in> set (damage_collect (damage_iterator_new (dm_lines d) off)).
           ld_line x = line \<and> ld_left x \<le> c \<and> c \<le> ld_right x)
     \<longleftrightarrow> off \<le> line \<and> line < n \<and> damaged_cell d (line - off) c"
proof -
  let ?ls = "take (n - off) (dm_lines d)"
  have len: "length (dm_lines d) = n" using assms(1) by (rule damage_ok_length)
  have "(\<exists>x \<in> set (damage_collect (damage_iterator_new (dm_lines d) off)).
           ld_line x = line \<and> ld_left x \<le> c \<and> c \<le> ld_right x)
     \<longleftrightarrow> (\<exists>y \<in> set ?ls. ld_line y + off = line \<and> ld_left y \<le> c \<and> c \<le> ld_right y)"
    unfolding damage_iterator_new_def damage_collect_find len
    by (auto simp: ld_new_def is_damaged_def)
  also have "\<dots> \<longleftrightarrow> (\<exists>i < n - off. i + off = line \<and> ld_left (dm_lines d ! i) \<le> c \<and> c \<le> ld_right (dm_lines d ! i))"
    using damage_ok_line [OF assms(1)] len by (auto simp: in_set_conv_nth Bex_def)
  also have "\<dots> \<longleftrightarrow> off \<le> line \<and> line < n \<and> damaged_cell d (line - off) c"
    using assms(2) len by (auto simp: damaged_cell_def intro!: exI [of _ "line - off"])
  finally show ?thesis .
qed

end
