(* ===== verification/Tabs.thy ===== *)
theory Tabs
  imports Index_Types
begin

text \<open>
  Tab stops: \<^verbatim>\<open>TabStops\<close> of \<^verbatim>\<open>velacritty_terminal/src/term/mod.rs\<close>, one flag per column, initially every
  eighth column.
\<close>

definition INITIAL_TABSTOPS :: nat where "INITIAL_TABSTOPS = 8"

type_synonym tab_stops = "bool list"

definition tabs_new :: "nat \<Rightarrow> tab_stops" where
  "tabs_new cols = map (\<lambda>i. i mod INITIAL_TABSTOPS = 0) [0..<cols]"

definition tabs_clear_all :: "tab_stops \<Rightarrow> tab_stops" where
  "tabs_clear_all tabs = map (\<lambda>_. False) tabs"

text \<open>\<^verbatim>\<open>resize_with\<close> truncates, or appends the values of a closure that counts up from the old length.\<close>

definition tabs_resize :: "nat \<Rightarrow> tab_stops \<Rightarrow> tab_stops" where
  "tabs_resize cols tabs =
     (if cols \<le> length tabs then take cols tabs
      else tabs @ map (\<lambda>index. index mod INITIAL_TABSTOPS = 0) [length tabs..<cols])"

definition tabs_get :: "tab_stops \<Rightarrow> nat \<Rightarrow> bool option" where
  "tabs_get tabs col = vget tabs col"

definition tabs_set :: "nat \<Rightarrow> bool \<Rightarrow> tab_stops \<Rightarrow> tab_stops option" where
  "tabs_set col b tabs = vmod tabs col (\<lambda>_. b)"

lemma tabs_length [simp]:
  "length (tabs_new cols) = cols" "length (tabs_clear_all tabs) = length tabs"
  "length (tabs_resize cols tabs) = cols"
  by (auto simp: tabs_new_def tabs_clear_all_def tabs_resize_def)

text \<open>Growing never moves a tab stop, and growing a fresh table is the same as making a larger one.\<close>

lemma tabs_resize_nth:
  "i < cols \<Longrightarrow> tabs_resize cols tabs ! i = (if i < length tabs then tabs ! i else i mod 8 = 0)"
  by (auto simp: tabs_resize_def nth_append INITIAL_TABSTOPS_def)

lemma tabs_resize_new: "tabs_resize m (tabs_new n) = tabs_new m"
proof (rule nth_equalityI)
  fix i assume "i < length (tabs_resize m (tabs_new n))"
  then show "tabs_resize m (tabs_new n) ! i = tabs_new m ! i"
    by (simp add: tabs_resize_nth) (simp add: tabs_new_def INITIAL_TABSTOPS_def)
qed simp

lemma tabs_set_get:
  "returns (tabs_set col b tabs) (\<lambda>tabs'. length tabs' = length tabs
     \<and> (\<forall>i. tabs_get tabs' i = (if i = col then Some b else tabs_get tabs i)))"
  if "col < length tabs"
  using that by (auto simp: tabs_set_def tabs_get_def vget_def nth_list_update)

end
