(* ===== verification/Selection.thy ===== *)
theory Selection
  imports Index_Types Cell
begin

text \<open>
  Selections: \<^verbatim>\<open>velacritty_terminal/src/selection.rs\<close>, the parts that need no terminal. (\<^verbatim>\<open>to_range\<close>, which
  searches the grid, is in the theory of searches.)

  An anchor is a cell and the half of it that was hit. \<open>anchor_edge\<close> gives it a meaning: the boundary
  between cells, counted from the origin, at which the selection starts or ends. The results say that
  \<^verbatim>\<open>range_simple\<close> selects exactly the cells between the two boundaries, that \<^verbatim>\<open>include_all\<close> always leaves a
  non-empty selection, and that \<^verbatim>\<open>rotate\<close> moves a selection inside a scrolled region with its text.
\<close>

type_synonym side = direction

datatype selection_type = Simple | Block | Semantic | Lines

record anchor =
  an_point :: point
  an_side :: side

record selection_range =
  sr_start :: point
  sr_end :: point
  sr_is_block :: bool

definition selection_range_new :: "point \<Rightarrow> point \<Rightarrow> bool \<Rightarrow> selection_range option" where
  "selection_range_new start stop is_block = do {
     guard (start \<le> stop);
     Some \<lparr>sr_start = start, sr_end = stop, sr_is_block = is_block\<rparr>
   }"

definition sr_contains :: "selection_range \<Rightarrow> point \<Rightarrow> bool" where
  "sr_contains r p \<longleftrightarrow>
     p_line (sr_start r) \<le> p_line p
     \<and> p_line (sr_end r) \<ge> p_line p
     \<and> (p_column (sr_start r) \<le> p_column p
         \<or> (p_line (sr_start r) \<noteq> p_line p \<and> \<not> sr_is_block r))
     \<and> (p_column (sr_end r) \<ge> p_column p
         \<or> (p_line (sr_end r) \<noteq> p_line p \<and> \<not> sr_is_block r))"

datatype cursor_shape = CBlock | CUnderline | CBeam | CHollowBlock | CHidden

definition sr_contains_cell ::
    "selection_range \<Rightarrow> point \<Rightarrow> cell \<Rightarrow> point \<Rightarrow> cursor_shape \<Rightarrow> bool" where
  "sr_contains_cell r ip x p shape =
     (if shape = CBlock \<and> p = ip
         \<and> (sr_start r = ip \<or> sr_end r = ip
            \<or> (sr_is_block r
               \<and> ((p_line (sr_start r) = p_line ip \<and> p_column (sr_end r) = p_column ip)
                  \<or> (p_line (sr_end r) = p_line ip \<and> p_column (sr_start r) = p_column ip))))
      then False
      else if sr_contains r ip then True
      else fl_contains (c_flags x) WIDE_CHAR \<and> sr_contains r (Point (p_line ip) (p_column ip + 1)))"

record selection =
  sel_ty :: selection_type
  sel_start :: anchor
  sel_end :: anchor

definition selection_new :: "selection_type \<Rightarrow> point \<Rightarrow> side \<Rightarrow> selection" where
  "selection_new ty location side =
     (let a = \<lparr>an_point = location, an_side = side\<rparr> in \<lparr>sel_ty = ty, sel_start = a, sel_end = a\<rparr>)"

definition selection_update :: "point \<Rightarrow> side \<Rightarrow> selection \<Rightarrow> selection" where
  "selection_update p side s = s\<lparr>sel_end := \<lparr>an_point = p, an_side = side\<rparr>\<rparr>"

subsection \<open>Rotation\<close>

text \<open>\<^verbatim>\<open>rotate\<close> works on references to the two anchors, in the order of their points. \<open>None\<close> deletes the
  selection. The arguments of the two halves are the region, the delta and the bottommost line.\<close>

definition rotate_start :: "selection_type \<Rightarrow> int \<times> int \<Rightarrow> int \<Rightarrow> int \<Rightarrow> anchor \<Rightarrow> anchor \<Rightarrow> anchor option" where
  "rotate_start ty rgn delta bottommost start stop =
     (let (range_top, range_bottom) = rgn in
      if (p_line (an_point start) \<ge> range_top \<or> range_top = 0) \<and> p_line (an_point start) < range_bottom
      then
        let line = min (p_line (an_point start) - delta) bottommost;
            start = start\<lparr>an_point := Point line (p_column (an_point start))\<rparr>
        in if line \<ge> range_bottom \<and> p_line (an_point stop) < range_bottom then None
           else if line < range_top \<and> range_top \<noteq> 0
           then Some (if ty \<noteq> Block then \<lparr>an_point = Point range_top 0, an_side = DirLeft\<rparr>
                      else start\<lparr>an_point := Point range_top (p_column (an_point start))\<rparr>)
           else Some start
      else Some start)"

definition rotate_end ::
    "selection_type \<Rightarrow> int \<times> int \<Rightarrow> int \<Rightarrow> dims \<Rightarrow> anchor \<Rightarrow> anchor \<Rightarrow> anchor option" where
  "rotate_end ty rgn delta d start stop =
     (let (range_top, range_bottom) = rgn in
      if (p_line (an_point stop) \<ge> range_top \<or> range_top = 0) \<and> p_line (an_point stop) < range_bottom
      then
        let line = min (p_line (an_point stop) - delta) (bottommost_line d);
            stop = stop\<lparr>an_point := Point line (p_column (an_point stop))\<rparr>
        in if line < p_line (an_point start) then None
           else if line \<ge> range_bottom
           then Some (if ty \<noteq> Block
                      then \<lparr>an_point = Point (range_bottom - 1) (last_column d), an_side = DirRight\<rparr>
                      else stop\<lparr>an_point := Point (range_bottom - 1) (p_column (an_point stop))\<rparr>)
           else Some stop
      else Some stop)"

definition selection_rotate :: "dims \<Rightarrow> int \<times> int \<Rightarrow> int \<Rightarrow> selection \<Rightarrow> selection option" where
  "selection_rotate d rgn delta s =
     (if an_point (sel_start s) > an_point (sel_end s)
      then do {
        start \<leftarrow> rotate_start (sel_ty s) rgn delta (bottommost_line d) (sel_end s) (sel_start s);
        stop \<leftarrow> rotate_end (sel_ty s) rgn delta d start (sel_start s);
        Some (s\<lparr>sel_end := start, sel_start := stop\<rparr>)
      }
      else do {
        start \<leftarrow> rotate_start (sel_ty s) rgn delta (bottommost_line d) (sel_start s) (sel_end s);
        stop \<leftarrow> rotate_end (sel_ty s) rgn delta d start (sel_end s);
        Some (s\<lparr>sel_start := start, sel_end := stop\<rparr>)
      })"

subsection \<open>Emptiness and intersection\<close>

definition selection_is_empty :: "selection \<Rightarrow> bool" where
  "selection_is_empty s =
     (case sel_ty s of
        Simple \<Rightarrow>
          (let (start, stop) =
             (if an_point (sel_start s) > an_point (sel_end s) then (sel_end s, sel_start s)
              else (sel_start s, sel_end s))
           in start = stop
              \<or> (an_side start = DirRight \<and> an_side stop = DirLeft
                 \<and> p_line (an_point start) = p_line (an_point stop)
                 \<and> p_column (an_point start) + 1 = p_column (an_point stop)))
      | Block \<Rightarrow>
          (let start = sel_start s; stop = sel_end s in
           (p_column (an_point start) = p_column (an_point stop) \<and> an_side start = an_side stop)
           \<or> (p_column (an_point start) + 1 = p_column (an_point stop)
              \<and> an_side start = DirRight \<and> an_side stop = DirLeft)
           \<or> (p_column (an_point stop) + 1 = p_column (an_point start)
              \<and> an_side start = DirLeft \<and> an_side stop = DirRight))
      | Semantic \<Rightarrow> False
      | Lines \<Rightarrow> False)"

datatype bound = Included int | Excluded int | Unbounded

definition intersects_range :: "bound \<Rightarrow> bound \<Rightarrow> selection \<Rightarrow> bool" where
  "intersects_range lo hi s =
     (let a = p_line (an_point (sel_start s));
          b = p_line (an_point (sel_end s));
          (start, stop) = (if a > b then (b, a) else (a, b));
          range_top = (case lo of Included l \<Rightarrow> l | Excluded l \<Rightarrow> l + 1 | Unbounded \<Rightarrow> - (2 ^ 31));
          range_bottom = (case hi of Included l \<Rightarrow> l | Excluded l \<Rightarrow> l - 1 | Unbounded \<Rightarrow> 2 ^ 31 - 1)
      in range_bottom \<ge> start \<and> range_top \<le> stop)"

definition include_all :: "selection \<Rightarrow> selection" where
  "include_all s =
     (let start = an_point (sel_start s);
          stop = an_point (sel_end s);
          (start_side, end_side) =
            (if sel_ty s = Block
             then (if p_column start > p_column stop
                      \<or> (p_column start = p_column stop \<and> p_line start > p_line stop)
                   then (DirRight, DirLeft) else (DirLeft, DirRight))
             else if start > stop then (DirRight, DirLeft) else (DirLeft, DirRight))
      in s\<lparr>sel_start := (sel_start s)\<lparr>an_side := start_side\<rparr>,
           sel_end := (sel_end s)\<lparr>an_side := end_side\<rparr>\<rparr>)"

subsection \<open>Selected cells\<close>

definition range_simple :: "selection \<Rightarrow> anchor \<Rightarrow> anchor \<Rightarrow> nat \<Rightarrow> selection_range option" where
  "range_simple s start stop cols =
     (if selection_is_empty s then None
      else
        let sp = an_point start;
            ep = an_point stop;
            ep = (if an_side stop = DirLeft \<and> sp \<noteq> ep
                  then (if p_column ep = 0 then Point (p_line ep - 1) (cols - 1)
                        else Point (p_line ep) (p_column ep - 1))
                  else ep);
            sp = (if an_side start = DirRight \<and> sp \<noteq> ep
                  then (if p_column sp + 1 = cols then Point (p_line sp + 1) 0
                        else Point (p_line sp) (p_column sp + 1))
                  else sp)
        in Some \<lparr>sr_start = sp, sr_end = ep, sr_is_block = False\<rparr>)"

definition range_block :: "selection \<Rightarrow> anchor \<Rightarrow> anchor \<Rightarrow> selection_range option" where
  "range_block s start stop =
     (if selection_is_empty s then None
      else
        let swap = p_column (an_point start) > p_column (an_point stop);
            ss = (if swap then an_side stop else an_side start);
            es = (if swap then an_side start else an_side stop);
            sp = (if swap then Point (p_line (an_point start)) (p_column (an_point stop)) else an_point start);
            ep = (if swap then Point (p_line (an_point stop)) (p_column (an_point start)) else an_point stop);
            ep = (if es = DirLeft \<and> sp \<noteq> ep \<and> p_column ep > 0
                  then Point (p_line ep) (p_column ep - 1) else ep);
            sp = (if ss = DirRight \<and> sp \<noteq> ep then Point (p_line sp) (p_column sp + 1) else sp)
        in Some \<lparr>sr_start = sp, sr_end = ep, sr_is_block = True\<rparr>)"

subsection \<open>Meaning and properties\<close>

text \<open>The boundary between two cells an anchor stands for: the left edge of cell \<open>n\<close> is \<open>n\<close>.\<close>

definition anchor_edge :: "dims \<Rightarrow> anchor \<Rightarrow> int" where
  "anchor_edge d a = lin d (an_point a) + (if an_side a = DirRight then 1 else 0)"

lemma sr_contains_order:
  "\<not> sr_is_block r \<Longrightarrow> sr_contains r p \<longleftrightarrow> sr_start r \<le> p \<and> p \<le> sr_end r"
  by (cases "sr_start r"; cases "sr_end r"; cases p) (auto simp: sr_contains_def)

lemma include_all_not_empty: "\<not> selection_is_empty (include_all s)"
  by (cases "sel_ty s") (auto simp: selection_is_empty_def include_all_def Let_def split: if_splits
      dest: arg_cong [where f = an_side])

lemma include_all_idem: "include_all (include_all s) = include_all s"
  by (simp add: include_all_def Let_def)

text \<open>A selection that intersects no line of a range has no anchor in it, nor one on each side.\<close>

lemma not_intersects_range:
  "\<not> intersects_range (Included a) (Excluded b) s \<longleftrightarrow>
     (p_line (an_point (sel_start s)) < a \<and> p_line (an_point (sel_end s)) < a)
     \<or> (p_line (an_point (sel_start s)) \<ge> b \<and> p_line (an_point (sel_end s)) \<ge> b)"
  by (auto simp: intersects_range_def Let_def)

text \<open>\<^verbatim>\<open>range_simple\<close> covers exactly the cells between the two boundaries.\<close>

definition prev_cell :: "nat \<Rightarrow> point \<Rightarrow> point" where
  "prev_cell cols p = (if p_column p = 0 then Point (p_line p - 1) (cols - 1) else Point (p_line p) (p_column p - 1))"

definition next_cell :: "nat \<Rightarrow> point \<Rightarrow> point" where
  "next_cell cols p = (if p_column p + 1 = cols then Point (p_line p + 1) 0 else Point (p_line p) (p_column p + 1))"

lemma lin_prev_cell: "0 < columns d \<Longrightarrow> p_column p < columns d \<Longrightarrow>
    lin d (prev_cell (columns d) p) = lin d p - 1 \<and> p_column (prev_cell (columns d) p) < columns d"
  by (auto simp: prev_cell_def lin_def algebra_simps of_nat_diff)

lemma lin_next_cell: "0 < columns d \<Longrightarrow> p_column p < columns d \<Longrightarrow>
    lin d (next_cell (columns d) p) = lin d p + 1 \<and> p_column (next_cell (columns d) p) < columns d"
  by (cases p) (auto simp: next_cell_def lin_def algebra_simps)

lemma range_simple_cells:
  assumes "0 < columns d" "p_column (an_point start) < columns d" "p_column (an_point stop) < columns d"
    and "an_point start \<le> an_point stop" "anchor_edge d start < anchor_edge d stop"
    and "range_simple s start stop (columns d) = Some r" "p_column p < columns d"
  shows "sr_contains r p \<longleftrightarrow> anchor_edge d start \<le> lin d p \<and> lin d p < anchor_edge d stop"
proof -
  let ?sp = "an_point start" and ?ep = "an_point stop"
  let ?e = "if an_side stop = DirLeft \<and> ?sp \<noteq> ?ep then prev_cell (columns d) ?ep else ?ep"
  let ?s = "if an_side start = DirRight \<and> ?sp \<noteq> ?e then next_cell (columns d) ?sp else ?sp"
  have r: "sr_start r = ?s" "sr_end r = ?e" "\<not> sr_is_block r"
    using assms(6) by (auto simp: range_simple_def Let_def prev_cell_def next_cell_def split: if_splits)
  have le: "lin d ?sp \<le> lin d ?ep" "?sp = ?ep \<longleftrightarrow> lin d ?sp = lin d ?ep"
    using lin_mono [of ?sp d ?ep] lin_inject [of ?sp d ?ep] assms by auto
  have e: "lin d ?e = anchor_edge d stop - 1" "p_column ?e < columns d"
    using assms le lin_prev_cell [of d ?ep] by (auto simp: anchor_edge_def split: if_splits) (metis direction.exhaust)+
  have "?sp = ?e \<longleftrightarrow> lin d ?sp = lin d ?e" using lin_inject [of ?sp d ?e] assms e(2) by simp
  then have s: "lin d ?s = anchor_edge d start" "p_column ?s < columns d"
    using assms le e lin_next_cell [of d ?sp] by (auto simp: anchor_edge_def split: if_splits)
  show ?thesis
    unfolding sr_contains_order [OF r(3)] r(1,2)
    using lin_mono [OF s(2) assms(7)] lin_mono [OF assms(7) e(2)] s(1) e(1) by linarith
qed

text \<open>A block selection covers the rectangle between the two column boundaries.\<close>

definition column_edge :: "anchor \<Rightarrow> nat" where
  "column_edge a = p_column (an_point a) + (if an_side a = DirRight then 1 else 0)"

lemma range_block_cells:
  assumes "range_block s start stop = Some r" "p_line (an_point start) \<le> p_line (an_point stop)"
    and "column_edge start \<noteq> column_edge stop"
    and "p_column (an_point start) = p_column (an_point stop) \<longrightarrow> an_side start = DirLeft"
  shows "sr_contains r p \<longleftrightarrow>
     p_line (an_point start) \<le> p_line p \<and> p_line p \<le> p_line (an_point stop)
     \<and> min (column_edge start) (column_edge stop) \<le> p_column p
     \<and> p_column p < max (column_edge start) (column_edge stop)"
  using assms
  by (cases "an_side start"; cases "an_side stop"; cases "an_point start"; cases "an_point stop")
    (auto simp: range_block_def sr_contains_def column_edge_def Let_def min_def max_def split: if_splits)

text \<open>The case the last hypothesis leaves out: dragged from the right half of a cell to the left half of a
  cell below it in the same column, the selection is not empty but its range holds no cell at all.\<close>

lemma range_block_same_column:
  assumes "sel_ty s = Block" "p_column (an_point (sel_start s)) = p_column (an_point (sel_end s))"
    and "an_side (sel_start s) = DirRight" "an_side (sel_end s) = DirLeft"
    and "p_line (an_point (sel_start s)) < p_line (an_point (sel_end s))"
  shows "\<exists>r. range_block s (sel_start s) (sel_end s) = Some r \<and> (\<forall>p. \<not> sr_contains r p)"
  using assms
  by (auto simp: range_block_def sr_contains_def selection_is_empty_def Let_def split: gpoint.splits)

text \<open>Scrolling a region that holds the whole selection moves both anchors with the text.\<close>

lemma rotate_inside:
  assumes "a \<le> p_line (an_point (sel_start s))" "p_line (an_point (sel_start s)) < b"
    and "a \<le> p_line (an_point (sel_end s))" "p_line (an_point (sel_end s)) < b"
    and "a = 0 \<or> (a \<le> p_line (an_point (sel_start s)) - delta \<and> a \<le> p_line (an_point (sel_end s)) - delta)"
    and "p_line (an_point (sel_start s)) - delta < b" "p_line (an_point (sel_end s)) - delta < b"
    and "b \<le> bottommost_line d + 1"
  shows "selection_rotate d (a, b) delta s = Some (s
     \<lparr>sel_start := (sel_start s)\<lparr>an_point := Point (p_line (an_point (sel_start s)) - delta) (p_column (an_point (sel_start s)))\<rparr>,
      sel_end := (sel_end s)\<lparr>an_point := Point (p_line (an_point (sel_end s)) - delta) (p_column (an_point (sel_end s)))\<rparr>\<rparr>)"
  using assms
  by (auto simp: selection_rotate_def rotate_start_def rotate_end_def Let_def min_def less_gpoint_def)

end
