(* ===== verification/Term_State.thy ===== *)
theory Term_State
  imports Grid Damage Tabs Selection
begin

text \<open>
  The state of the terminal: \<^verbatim>\<open>velacritty_terminal/src/term/mod.rs\<close> (\<^verbatim>\<open>TermMode\<close>, \<^verbatim>\<open>Config\<close>, \<^verbatim>\<open>Term\<close> and the
  methods of \<^verbatim>\<open>impl Term\<close> that the escape sequence handler builds on), \<^verbatim>\<open>event.rs\<close> and \<^verbatim>\<open>term/color.rs\<close>.

  \<open>terminal\<close> has the fields of \<^verbatim>\<open>Term\<close>; the event proxy is the list of the events it was sent, oldest first.
  The record \<open>externals\<close> collects what the sources take from other crates: the display width of a character
  (\<^verbatim>\<open>unicode_width\<close>), the character set tables, mode numbers and keyboard mode bits of \<^verbatim>\<open>vte\<close>, and \<^verbatim>\<open>base64\<close>.
  Every definition that calls one of them has it as an argument.
\<close>

subsection \<open>Modes\<close>

type_synonym term_mode = "32 word"

definition SHOW_CURSOR :: term_mode where "SHOW_CURSOR = 1"
definition APP_CURSOR :: term_mode where "APP_CURSOR = 0x2"
definition APP_KEYPAD :: term_mode where "APP_KEYPAD = 0x4"
definition MOUSE_REPORT_CLICK :: term_mode where "MOUSE_REPORT_CLICK = 0x8"
definition BRACKETED_PASTE :: term_mode where "BRACKETED_PASTE = 0x10"
definition SGR_MOUSE :: term_mode where "SGR_MOUSE = 0x20"
definition MOUSE_MOTION :: term_mode where "MOUSE_MOTION = 0x40"
definition LINE_WRAP :: term_mode where "LINE_WRAP = 0x80"
definition LINE_FEED_NEW_LINE :: term_mode where "LINE_FEED_NEW_LINE = 0x100"
definition ORIGIN :: term_mode where "ORIGIN = 0x200"
definition INSERT :: term_mode where "INSERT = 0x400"
definition FOCUS_IN_OUT :: term_mode where "FOCUS_IN_OUT = 0x800"
definition ALT_SCREEN :: term_mode where "ALT_SCREEN = 0x1000"
definition MOUSE_DRAG :: term_mode where "MOUSE_DRAG = 0x2000"
definition UTF8_MOUSE :: term_mode where "UTF8_MOUSE = 0x4000"
definition ALTERNATE_SCROLL :: term_mode where "ALTERNATE_SCROLL = 0x8000"
definition VI :: term_mode where "VI = 0x10000"
definition URGENCY_HINTS :: term_mode where "URGENCY_HINTS = 0x20000"
definition DISAMBIGUATE_ESC_CODES :: term_mode where "DISAMBIGUATE_ESC_CODES = 0x40000"
definition REPORT_EVENT_TYPES :: term_mode where "REPORT_EVENT_TYPES = 0x80000"
definition REPORT_ALTERNATE_KEYS :: term_mode where "REPORT_ALTERNATE_KEYS = 0x100000"
definition REPORT_ALL_KEYS_AS_ESC :: term_mode where "REPORT_ALL_KEYS_AS_ESC = 0x200000"
definition REPORT_ASSOCIATED_TEXT :: term_mode where "REPORT_ASSOCIATED_TEXT = 0x400000"
definition MOUSE_MODE :: term_mode where "MOUSE_MODE = MOUSE_REPORT_CLICK OR MOUSE_MOTION OR MOUSE_DRAG"
definition KITTY_KEYBOARD_PROTOCOL :: term_mode where
  "KITTY_KEYBOARD_PROTOCOL = DISAMBIGUATE_ESC_CODES OR REPORT_EVENT_TYPES OR REPORT_ALTERNATE_KEYS
     OR REPORT_ALL_KEYS_AS_ESC OR REPORT_ASSOCIATED_TEXT"

lemmas mode_defs [flag_simps] =
  SHOW_CURSOR_def APP_CURSOR_def APP_KEYPAD_def MOUSE_REPORT_CLICK_def BRACKETED_PASTE_def SGR_MOUSE_def
  MOUSE_MOTION_def LINE_WRAP_def LINE_FEED_NEW_LINE_def ORIGIN_def INSERT_def FOCUS_IN_OUT_def ALT_SCREEN_def
  MOUSE_DRAG_def UTF8_MOUSE_def ALTERNATE_SCROLL_def VI_def URGENCY_HINTS_def DISAMBIGUATE_ESC_CODES_def
  REPORT_EVENT_TYPES_def REPORT_ALTERNATE_KEYS_def REPORT_ALL_KEYS_AS_ESC_def REPORT_ASSOCIATED_TEXT_def
  MOUSE_MODE_def KITTY_KEYBOARD_PROTOCOL_def

definition default_mode :: term_mode where
  "default_mode = SHOW_CURSOR OR LINE_WRAP OR ALTERNATE_SCROLL OR URGENCY_HINTS"

text \<open>The flags of the kitty keyboard protocol as \<^verbatim>\<open>vte\<close> names them.\<close>

record keyboard_modes =
  kb_disambiguate_esc_codes :: bool
  kb_report_event_types :: bool
  kb_report_alternate_keys :: bool
  kb_report_all_keys_as_esc :: bool
  kb_report_associated_text :: bool

definition kb_NO_MODE :: keyboard_modes where
  "kb_NO_MODE =
     \<lparr>kb_disambiguate_esc_codes = False, kb_report_event_types = False, kb_report_alternate_keys = False,
      kb_report_all_keys_as_esc = False, kb_report_associated_text = False\<rparr>"

datatype apply_behavior = Replace | Union | Difference

definition mode_of_keyboard :: "keyboard_modes \<Rightarrow> term_mode" where
  "mode_of_keyboard v =
     (let mode = 0;
          mode = fl_set mode DISAMBIGUATE_ESC_CODES (kb_disambiguate_esc_codes v);
          mode = fl_set mode REPORT_EVENT_TYPES (kb_report_event_types v);
          mode = fl_set mode REPORT_ALTERNATE_KEYS (kb_report_alternate_keys v);
          mode = fl_set mode REPORT_ALL_KEYS_AS_ESC (kb_report_all_keys_as_esc v);
          mode = fl_set mode REPORT_ASSOCIATED_TEXT (kb_report_associated_text v)
      in mode)"

subsection \<open>Events, colours and configuration\<close>

datatype clipboard_type = Clipboard | SelectionClipboard

record window_size =
  ws_num_lines :: "16 word"
  ws_num_cols :: "16 word"
  ws_cell_width :: "16 word"
  ws_cell_height :: "16 word"

datatype event =
    MouseCursorDirty
  | Title ustring
  | ResetTitle
  | ClipboardStore clipboard_type ustring
  | ClipboardLoad clipboard_type "ustring \<Rightarrow> ustring"
  | ColorRequest nat "rgb \<Rightarrow> ustring"
  | PtyWrite ustring
  | TextAreaSizeRequest "window_size \<Rightarrow> ustring"
  | CursorBlinkingChange
  | Wakeup
  | Bell
  | Exit
  | ChildExit int

definition COUNT :: nat where "COUNT = 269"

type_synonym colors = "rgb option list"

definition default_colors :: colors where
  "default_colors = replicate COUNT None"

definition colors_get :: "colors \<Rightarrow> nat \<Rightarrow> rgb option option" where
  "colors_get cs i = vget cs i"

definition colors_set :: "nat \<Rightarrow> rgb option \<Rightarrow> colors \<Rightarrow> colors option" where
  "colors_set i c cs = vmod cs i (\<lambda>_. c)"

record cursor_style =
  cs_shape :: cursor_shape
  cs_blinking :: bool

datatype osc52 = Osc52Disabled | OnlyCopy | OnlyPaste | CopyPaste

record config =
  cfg_scrolling_history :: nat
  cfg_default_cursor_style :: cursor_style
  cfg_vi_mode_cursor_style :: "cursor_style option"
  cfg_semantic_escape_chars :: ustring
  cfg_kitty_keyboard :: bool
  cfg_osc52 :: osc52
  cfg_auto_scroll :: bool

text \<open>The default separators: the literal of the source, with the box drawing character U+2502.\<close>

definition SEMANTIC_ESCAPE_CHARS :: ustring where
  "SEMANTIC_ESCAPE_CHARS =
     lit '','' @ [0x2502] @ lit ''`|:'' @ [34] @ [39] @ lit '' ()[]{}<>'' @ [9]"

definition default_config :: "cursor_style \<Rightarrow> config" where
  "default_config style =
     \<lparr>cfg_scrolling_history = 10000, cfg_default_cursor_style = style, cfg_vi_mode_cursor_style = None,
      cfg_semantic_escape_chars = SEMANTIC_ESCAPE_CHARS, cfg_kitty_keyboard = False, cfg_osc52 = OnlyCopy,
      cfg_auto_scroll = True\<rparr>"

datatype named_private_mode =
    CursorKeys | ColumnMode | Origin | LineWrap | BlinkingCursor | ShowCursor | ReportMouseClicks
  | ReportCellMouseMotion | ReportAllMouseMotion | ReportFocusInOut | Utf8Mouse | SgrMouse | AlternateScroll
  | UrgencyHints | SwapScreenAndSetRestoreCursor | BracketedPaste | SyncUpdate

datatype private_mode = NamedPrivate named_private_mode | UnknownPrivate nat

datatype named_mode = Insert | LineFeedNewLine

datatype mode = NamedMode named_mode | UnknownMode nat

record externals =
  x_width :: "uchar \<Rightarrow> nat option"
  x_charset_map :: "standard_charset \<Rightarrow> uchar \<Rightarrow> uchar"
  x_keyboard_bits :: "keyboard_modes \<Rightarrow> nat"
  x_mode_raw :: "mode \<Rightarrow> nat"
  x_private_mode_raw :: "private_mode \<Rightarrow> nat"
  x_base64_decode :: "8 word list \<Rightarrow> 8 word list option"
  x_base64_encode :: "ustring \<Rightarrow> ustring"

subsection \<open>The terminal\<close>

record terminal =
  t_is_focused :: bool
  t_vi_cursor :: point
  t_selection :: "selection option"
  t_grid :: grid
  t_inactive_grid :: grid
  t_active_charset :: charset_index
  t_tabs :: tab_stops
  t_mode :: term_mode
  t_scroll_region :: "int \<times> int"
  t_colors :: colors
  t_cursor_style :: "cursor_style option"
  t_events :: "event list"
  t_title :: "ustring option"
  t_title_stack :: "ustring option list"
  t_keyboard_mode_stack :: "keyboard_modes list"
  t_inactive_keyboard_mode_stack :: "keyboard_modes list"
  t_damage :: damage_state
  t_config :: config

definition t_dims :: "terminal \<Rightarrow> dims" where
  "t_dims t = grid_dims (t_grid t)"

definition has_mode :: "terminal \<Rightarrow> term_mode \<Rightarrow> bool" where
  "has_mode t m \<longleftrightarrow> fl_contains (t_mode t) m"

definition insert_mode :: "term_mode \<Rightarrow> terminal \<Rightarrow> terminal" where
  "insert_mode m t = t\<lparr>t_mode := fl_insert (t_mode t) m\<rparr>"

definition remove_mode :: "term_mode \<Rightarrow> terminal \<Rightarrow> terminal" where
  "remove_mode m t = t\<lparr>t_mode := fl_remove (t_mode t) m\<rparr>"

definition send_event :: "event \<Rightarrow> terminal \<Rightarrow> terminal" where
  "send_event e t = t\<lparr>t_events := t_events t @ [e]\<rparr>"

abbreviation t_cursor :: "terminal \<Rightarrow> cursor" where
  "t_cursor t \<equiv> g_cursor (t_grid t)"

definition upd_cursor :: "(cursor \<Rightarrow> cursor) \<Rightarrow> terminal \<Rightarrow> terminal" where
  "upd_cursor f t = t\<lparr>t_grid := (t_grid t)\<lparr>g_cursor := f (g_cursor (t_grid t))\<rparr>\<rparr>"

definition set_cursor_point :: "point \<Rightarrow> terminal \<Rightarrow> terminal" where
  "set_cursor_point p = upd_cursor (\<lambda>c. c\<lparr>cu_point := p\<rparr>)"

definition set_cursor_line :: "int \<Rightarrow> terminal \<Rightarrow> terminal" where
  "set_cursor_line l = upd_cursor (\<lambda>c. c\<lparr>cu_point := Point l (p_column (cu_point c))\<rparr>)"

definition set_cursor_column :: "nat \<Rightarrow> terminal \<Rightarrow> terminal" where
  "set_cursor_column col = upd_cursor (\<lambda>c. c\<lparr>cu_point := Point (p_line (cu_point c)) col\<rparr>)"

definition set_needs_wrap :: "bool \<Rightarrow> terminal \<Rightarrow> terminal" where
  "set_needs_wrap b = upd_cursor (\<lambda>c. c\<lparr>cu_input_needs_wrap := b\<rparr>)"

definition upd_template :: "(cell \<Rightarrow> cell) \<Rightarrow> terminal \<Rightarrow> terminal" where
  "upd_template f = upd_cursor (\<lambda>c. c\<lparr>cu_template := f (cu_template c)\<rparr>)"

definition on_grid :: "(grid \<Rightarrow> grid option) \<Rightarrow> terminal \<Rightarrow> terminal option" where
  "on_grid f t = map_option (\<lambda>g. t\<lparr>t_grid := g\<rparr>) (f (t_grid t))"

definition on_damage :: "(damage_state \<Rightarrow> damage_state option) \<Rightarrow> terminal \<Rightarrow> terminal option" where
  "on_damage f t = map_option (\<lambda>d. t\<lparr>t_damage := d\<rparr>) (f (t_damage t))"

definition mark_fully_damaged :: "terminal \<Rightarrow> terminal" where
  "mark_fully_damaged t = t\<lparr>t_damage := (t_damage t)\<lparr>dm_full := True\<rparr>\<rparr>"

definition damage_cursor :: "terminal \<Rightarrow> terminal option" where
  "damage_cursor t = do {
     line \<leftarrow> as_usize (p_line (cu_point (t_cursor t)));
     on_damage (damage_point (Point line (p_column (cu_point (t_cursor t))))) t
   }"

text \<open>\<^verbatim>\<open>damage.damage_line(line as usize, left, right)\<close>\<close>

definition term_damage_line :: "int \<Rightarrow> nat \<Rightarrow> nat \<Rightarrow> terminal \<Rightarrow> terminal option" where
  "term_damage_line line left right t = do {
     line \<leftarrow> as_usize line;
     on_damage (damage_line line left right) t
   }"

definition term_new :: "config \<Rightarrow> nat \<Rightarrow> nat \<Rightarrow> terminal option" where
  "term_new cfg num_cols num_lines = do {
     grid \<leftarrow> grid_new num_lines num_cols (cfg_scrolling_history cfg);
     inactive_grid \<leftarrow> grid_new num_lines num_cols 0;
     Some \<lparr>t_is_focused = False, t_vi_cursor = default_point, t_selection = None, t_grid = grid,
           t_inactive_grid = inactive_grid, t_active_charset = G0, t_tabs = tabs_new (g_columns grid),
           t_mode = default_mode, t_scroll_region = (0, int (g_lines grid)), t_colors = default_colors,
           t_cursor_style = None, t_events = [], t_title = None, t_title_stack = [],
           t_keyboard_mode_stack = [], t_inactive_keyboard_mode_stack = [],
           t_damage = damage_new num_cols num_lines, t_config = cfg\<rparr>
   }"

subsection \<open>Damage\<close>

datatype term_damage = Full | Partial damage_iterator

text \<open>\<^verbatim>\<open>damage\<close>: the previous cursor position is marked only when the cursor moved, the current one always. The second
  half works on the state in which the last cursor position was replaced.\<close>

definition collect_damage :: "point \<Rightarrow> terminal \<Rightarrow> (terminal \<times> term_damage) option" where
  "collect_damage previous_cursor t =
     (if dm_full (t_damage t) then Some (t, Full)
      else do {
        t \<leftarrow> (if dm_last_cursor (t_damage t) \<noteq> previous_cursor
              then do {
                line \<leftarrow> as_usize (p_line previous_cursor);
                on_damage (damage_point (Point line (p_column previous_cursor))) t
              }
              else Some t);
        t \<leftarrow> damage_cursor t;
        Some (t, Partial (damage_iterator_new (dm_lines (t_damage t)) (g_display_offset (t_grid t))))
      })"

definition term_damage :: "terminal \<Rightarrow> (terminal \<times> term_damage) option" where
  "term_damage t =
     (let t = (if has_mode t INSERT then mark_fully_damaged t else t);
          previous_cursor = dm_last_cursor (t_damage t);
          t = t\<lparr>t_damage := (t_damage t)\<lparr>dm_last_cursor := cu_point (t_cursor t)\<rparr>\<rparr>
      in collect_damage previous_cursor t)"

definition term_reset_damage :: "terminal \<Rightarrow> terminal" where
  "term_reset_damage t = t\<lparr>t_damage := damage_reset (columns (t_dims t)) (t_damage t)\<rparr>"

definition set_options :: "config \<Rightarrow> terminal \<Rightarrow> terminal option" where
  "set_options options t = do {
     let old_config = t_config t;
     let t = t\<lparr>t_config := options\<rparr>;
     let t = send_event (case t_title t of Some title \<Rightarrow> Title title | None \<Rightarrow> ResetTitle) t;
     t \<leftarrow> (if has_mode t ALT_SCREEN
           then map_option (\<lambda>g. t\<lparr>t_inactive_grid := g\<rparr>)
                  (update_history (cfg_scrolling_history (t_config t)) (t_inactive_grid t))
           else on_grid (update_history (cfg_scrolling_history (t_config t))) t);
     let t = (if cfg_kitty_keyboard (t_config t) \<noteq> cfg_kitty_keyboard old_config
              then remove_mode KITTY_KEYBOARD_PROTOCOL
                     (t\<lparr>t_keyboard_mode_stack := [], t_inactive_keyboard_mode_stack := []\<rparr>)
              else t);
     Some (mark_fully_damaged t)
   }"

subsection \<open>Vi mode cursor and display position\<close>

definition vi_mode_recompute_selection :: "terminal \<Rightarrow> terminal" where
  "vi_mode_recompute_selection t =
     (if \<not> has_mode t VI then t
      else t\<lparr>t_selection := map_option
               (\<lambda>s. if selection_is_empty s then s else include_all (selection_update (t_vi_cursor t) DirLeft s))
               (t_selection t)\<rparr>)"

definition scroll_display :: "scroll \<Rightarrow> terminal \<Rightarrow> terminal" where
  "scroll_display sc t =
     (let old_display_offset = g_display_offset (t_grid t);
          t = t\<lparr>t_grid := grid_scroll_display sc (t_grid t)\<rparr>;
          t = send_event MouseCursorDirty t;
          viewport_start = - int (g_display_offset (t_grid t));
          viewport_end = viewport_start + bottommost_line (t_dims t);
          t = t\<lparr>t_vi_cursor := Point (min viewport_end (max viewport_start (p_line (t_vi_cursor t))))
                                      (p_column (t_vi_cursor t))\<rparr>;
          t = vi_mode_recompute_selection t
      in if old_display_offset \<noteq> g_display_offset (t_grid t) then mark_fully_damaged t else t)"

definition toggle_vi_mode :: "terminal \<Rightarrow> terminal" where
  "toggle_vi_mode t =
     (let t = t\<lparr>t_mode := t_mode t XOR VI\<rparr>;
          t = (if has_mode t VI
               then let display_offset = int (g_display_offset (t_grid t)) in
                    if p_line (cu_point (t_cursor t)) > bottommost_line (t_dims t) - display_offset
                    then t\<lparr>t_vi_cursor := Point (- display_offset) 0\<rparr>
                    else t\<lparr>t_vi_cursor := cu_point (t_cursor t)\<rparr>
               else t)
      in send_event CursorBlinkingChange t)"

definition scroll_to_point :: "point \<Rightarrow> terminal \<Rightarrow> terminal" where
  "scroll_to_point p t =
     (let display_offset = int (g_display_offset (t_grid t));
          screen_lines = int (g_lines (t_grid t))
      in if p_line p < - display_offset
         then scroll_display (Delta (- (p_line p + display_offset))) t
         else if p_line p \<ge> screen_lines - display_offset
         then scroll_display (Delta (- (p_line p + display_offset - screen_lines + 1))) t
         else t)"

definition vi_goto_point :: "point \<Rightarrow> terminal \<Rightarrow> terminal" where
  "vi_goto_point p t =
     (let t = scroll_to_point p t;
          t = t\<lparr>t_vi_cursor := p\<rparr>
      in vi_mode_recompute_selection t)"

definition term_exit :: "terminal \<Rightarrow> terminal" where
  "term_exit t = send_event Exit t"

definition term_cursor_style :: "terminal \<Rightarrow> cursor_style" where
  "term_cursor_style t =
     (let style = (case t_cursor_style t of Some s \<Rightarrow> s | None \<Rightarrow> cfg_default_cursor_style (t_config t))
      in if has_mode t VI
         then (case cfg_vi_mode_cursor_style (t_config t) of Some s \<Rightarrow> s | None \<Rightarrow> style)
         else style)"

subsection \<open>Screens and keyboard modes\<close>

definition apply_keyboard_mode :: "term_mode \<Rightarrow> apply_behavior \<Rightarrow> terminal \<Rightarrow> terminal" where
  "apply_keyboard_mode mode behavior t =
     (let active_mode = t_mode t AND KITTY_KEYBOARD_PROTOCOL;
          cleared = t_mode t AND NOT KITTY_KEYBOARD_PROTOCOL;
          new_mode = (case behavior of
              Replace \<Rightarrow> mode
            | Union \<Rightarrow> active_mode OR mode
            | Difference \<Rightarrow> active_mode AND NOT mode)
      in t\<lparr>t_mode := cleared OR new_mode\<rparr>)"

definition last_keyboard_mode :: "keyboard_modes list \<Rightarrow> keyboard_modes" where
  "last_keyboard_mode st = (if st = [] then kb_NO_MODE else last st)"

definition swap_screens :: "terminal \<Rightarrow> terminal" where
  "swap_screens t =
     (let t = t\<lparr>t_keyboard_mode_stack := t_inactive_keyboard_mode_stack t,
                t_inactive_keyboard_mode_stack := t_keyboard_mode_stack t\<rparr>;
          t = apply_keyboard_mode (mode_of_keyboard (last_keyboard_mode (t_keyboard_mode_stack t))) Replace t;
          t = t\<lparr>t_grid := t_inactive_grid t, t_inactive_grid := t_grid t,
                t_mode := t_mode t XOR ALT_SCREEN, t_selection := None\<rparr>
      in mark_fully_damaged t)"

definition swap_alt :: "terminal \<Rightarrow> terminal option" where
  "swap_alt t = do {
     t \<leftarrow> (if \<not> has_mode t ALT_SCREEN
           then do {
             let inactive = (t_inactive_grid t)\<lparr>g_cursor := t_cursor t\<rparr>;
             let t = t\<lparr>t_grid := (t_grid t)\<lparr>g_saved_cursor := t_cursor t\<rparr>\<rparr>;
             inactive \<leftarrow> reset_region None None inactive;
             Some (t\<lparr>t_inactive_grid := inactive\<rparr>)
           }
           else Some t);
     Some (swap_screens t)
   }"

subsection \<open>Scrolling\<close>

text \<open>How the vi mode cursor follows the text: the parts of the two functions below that move it.\<close>

definition vi_scroll_down :: "int \<times> int \<Rightarrow> nat \<Rightarrow> terminal \<Rightarrow> terminal" where
  "vi_scroll_down region lines t =
     (let line = p_line (t_vi_cursor t) in
      if fst region \<le> line \<and> snd region > line
      then t\<lparr>t_vi_cursor := Point (min (line + int lines) (snd region - 1)) (p_column (t_vi_cursor t))\<rparr>
      else t)"

definition vi_scroll_up :: "int \<times> int \<Rightarrow> nat \<Rightarrow> terminal \<Rightarrow> terminal" where
  "vi_scroll_up region lines t =
     (let viewport_top = - int (g_display_offset (t_grid t));
          top_line = (if fst region = 0 then viewport_top else fst region);
          line = p_line (t_vi_cursor t)
      in if top_line \<le> line \<and> snd region > line
         then t\<lparr>t_vi_cursor := Point (max (line - int lines) top_line) (p_column (t_vi_cursor t))\<rparr>
         else t)"

definition scroll_down_relative :: "int \<Rightarrow> nat \<Rightarrow> terminal \<Rightarrow> terminal option" where
  "scroll_down_relative origin lines t = do {
     height \<leftarrow> as_usize (snd (t_scroll_region t) - fst (t_scroll_region t));
     below \<leftarrow> as_usize (snd (t_scroll_region t) - origin);
     let lines = min (min lines height) below;
     let region = (origin, snd (t_scroll_region t));
     let t = t\<lparr>t_selection := Option.bind (t_selection t) (selection_rotate (t_dims t) region (- int lines))\<rparr>;
     let t = vi_scroll_down region lines t;
     t \<leftarrow> on_grid (grid_scroll_down region lines) t;
     Some (mark_fully_damaged t)
   }"

definition scroll_up_relative :: "int \<Rightarrow> nat \<Rightarrow> terminal \<Rightarrow> terminal option" where
  "scroll_up_relative origin lines t = do {
     height \<leftarrow> as_usize (snd (t_scroll_region t) - fst (t_scroll_region t));
     let lines = min lines height;
     let region = (origin, snd (t_scroll_region t));
     let t = t\<lparr>t_selection := Option.bind (t_selection t) (selection_rotate (t_dims t) region (int lines))\<rparr>;
     t \<leftarrow> on_grid (grid_scroll_up region lines) t;
     let t = vi_scroll_up region lines t;
     Some (mark_fully_damaged t)
   }"

definition term_scroll_up :: "nat \<Rightarrow> terminal \<Rightarrow> terminal option" where
  "term_scroll_up lines t = scroll_up_relative (fst (t_scroll_region t)) lines t"

definition term_scroll_down :: "nat \<Rightarrow> terminal \<Rightarrow> terminal option" where
  "term_scroll_down lines t = scroll_down_relative (fst (t_scroll_region t)) lines t"

definition linefeed :: "terminal \<Rightarrow> terminal option" where
  "linefeed t =
     (let next = p_line (cu_point (t_cursor t)) + 1 in
      if next = snd (t_scroll_region t) then term_scroll_up 1 t
      else if next < int (screen_lines (t_dims t)) then do {
        t \<leftarrow> damage_cursor t;
        let t = set_cursor_line (p_line (cu_point (t_cursor t)) + 1) t;
        damage_cursor t
      }
      else Some t)"

definition wrapline :: "terminal \<Rightarrow> terminal option" where
  "wrapline t =
     (if \<not> has_mode t LINE_WRAP then Some t
      else do {
        t \<leftarrow> on_grid (mod_cursor_cell (\<lambda>x. x\<lparr>c_flags := fl_insert (c_flags x) WRAPLINE\<rparr>)) t;
        t \<leftarrow> (if p_line (cu_point (t_cursor t)) + 1 \<ge> snd (t_scroll_region t) then linefeed t
              else do {
                t \<leftarrow> damage_cursor t;
                Some (set_cursor_line (p_line (cu_point (t_cursor t)) + 1) t)
              });
        let t = set_needs_wrap False (set_cursor_column 0 t);
        damage_cursor t
      })"

subsection \<open>Writing\<close>

text \<open>The two clean-up steps of \<^verbatim>\<open>write_at_cursor\<close> when it overwrites half of a wide character: the other half, and the
  spacer at the end of the line above.\<close>

definition unwide_half :: "point \<Rightarrow> bool \<Rightarrow> terminal \<Rightarrow> terminal option" where
  "unwide_half p wide t =
     (if wide \<and> p_column p < last_column (t_dims t)
      then on_grid (grid_mod (Point (p_line p) (p_column p + 1))
             (\<lambda>y. y\<lparr>c_flags := fl_remove (c_flags y) WIDE_CHAR_SPACER\<rparr>)) t
      else if p_column p > 0
      then on_grid (grid_mod (Point (p_line p) (p_column p - 1)) clear_wide) t
      else Some t)"

definition unwide_above :: "point \<Rightarrow> terminal \<Rightarrow> terminal option" where
  "unwide_above p t =
     (if p_column p \<le> 1 \<and> p_line p \<noteq> topmost_line (t_dims t)
      then on_grid (grid_mod (Point (p_line p - 1) (last_column (t_dims t)))
             (\<lambda>y. y\<lparr>c_flags := fl_remove (c_flags y) LEADING_WIDE_CHAR_SPACER\<rparr>)) t
      else Some t)"

definition write_at_cursor :: "externals \<Rightarrow> uchar \<Rightarrow> terminal \<Rightarrow> terminal option" where
  "write_at_cursor x ch t = do {
     let ch = x_charset_map x (cu_charsets (t_cursor t) (t_active_charset t)) ch;
     let template = cu_template (t_cursor t);
     let p = cu_point (t_cursor t);
     cursor_cell \<leftarrow> grid_get (t_grid t) p;
     t \<leftarrow> (if fl_intersects (c_flags cursor_cell) (WIDE_CHAR OR WIDE_CHAR_SPACER)
           then do {
             t \<leftarrow> unwide_half p (fl_contains (c_flags cursor_cell) WIDE_CHAR) t;
             unwide_above p t
           }
           else Some t);
     on_grid (mod_cursor_cell (\<lambda>y. y
       \<lparr>c_char := ch, c_fg := c_fg template, c_bg := c_bg template, c_flags := c_flags template,
        c_extra := c_extra template\<rparr>)) t
   }"

subsection \<open>Wide cells\<close>

definition expand_wide :: "terminal \<Rightarrow> point \<Rightarrow> direction \<Rightarrow> point option" where
  "expand_wide t p dir = do {
     x \<leftarrow> grid_get (t_grid t) p;
     case dir of
       DirRight \<Rightarrow>
         (if fl_contains (c_flags x) LEADING_WIDE_CHAR_SPACER then Some (Point (p_line p + 1) 1)
          else if fl_contains (c_flags x) WIDE_CHAR
          then Some (Point (p_line p) (min (p_column p + 1) (last_column (t_dims t))))
          else Some p)
     | DirLeft \<Rightarrow>
         (if fl_intersects (c_flags x) (WIDE_CHAR OR WIDE_CHAR_SPACER)
          then do {
            p \<leftarrow> (if fl_contains (c_flags x) WIDE_CHAR_SPACER
                  then map_option (Point (p_line p)) (usub (p_column p) 1)
                  else Some p);
            let prev = point_sub (t_dims t) BGrid 1 p;
            y \<leftarrow> grid_get (t_grid t) prev;
            Some (if fl_contains (c_flags y) LEADING_WIDE_CHAR_SPACER then prev else p)
          }
          else Some p)
   }"

end
