(* ===== verification/Utf8.thy ===== *)
theory Utf8
  imports Prelude
begin

text \<open>
  UTF-8 and number rendering as the sources use them from the standard library: \<^verbatim>\<open>String::from_utf8\<close> on the
  bytes of a clipboard request, \<^verbatim>\<open>{:02x}\<close> and the parsing of decimal numbers. \<open>utf8_encode\<close> is the inverse, which
  a \<^verbatim>\<open>String\<close> is stored as; the round trip between the two is proved.
\<close>

definition is_cont :: "nat \<Rightarrow> bool" where
  "is_cont b \<longleftrightarrow> 0x80 \<le> b \<and> b \<le> 0xBF"

fun utf8_decode :: "nat list \<Rightarrow> ustring option" where
  "utf8_decode [] = Some []"
| "utf8_decode (b # bs) =
     (if b < 0x80 then map_option ((#) b) (utf8_decode bs)
      else if 0xC2 \<le> b \<and> b \<le> 0xDF then
        (case bs of
           b1 # bs' \<Rightarrow>
             if is_cont b1
             then map_option ((#) ((b - 0xC0) * 64 + (b1 - 0x80))) (utf8_decode bs')
             else None
         | _ \<Rightarrow> None)
      else if 0xE0 \<le> b \<and> b \<le> 0xEF then
        (case bs of
           b1 # b2 # bs' \<Rightarrow>
             if is_cont b1 \<and> is_cont b2 \<and> (b = 0xE0 \<longrightarrow> 0xA0 \<le> b1) \<and> (b = 0xED \<longrightarrow> b1 \<le> 0x9F)
             then map_option ((#) ((b - 0xE0) * 4096 + (b1 - 0x80) * 64 + (b2 - 0x80))) (utf8_decode bs')
             else None
         | _ \<Rightarrow> None)
      else if 0xF0 \<le> b \<and> b \<le> 0xF4 then
        (case bs of
           b1 # b2 # b3 # bs' \<Rightarrow>
             if is_cont b1 \<and> is_cont b2 \<and> is_cont b3 \<and> (b = 0xF0 \<longrightarrow> 0x90 \<le> b1) \<and> (b = 0xF4 \<longrightarrow> b1 \<le> 0x8F)
             then map_option ((#) ((b - 0xF0) * 262144 + (b1 - 0x80) * 4096 + (b2 - 0x80) * 64 + (b3 - 0x80)))
                    (utf8_decode bs')
             else None
         | _ \<Rightarrow> None)
      else None)"

definition scalar_value :: "uchar \<Rightarrow> bool" where
  "scalar_value c \<longleftrightarrow> c < 0xD800 \<or> (0xDFFF < c \<and> c \<le> 0x10FFFF)"

definition utf8_char :: "uchar \<Rightarrow> nat list" where
  "utf8_char c =
     (if c < 0x80 then [c]
      else if c < 0x800 then [0xC0 + c div 64, 0x80 + c mod 64]
      else if c < 0x10000 then [0xE0 + c div 4096, 0x80 + c div 64 mod 64, 0x80 + c mod 64]
      else [0xF0 + c div 262144, 0x80 + c div 4096 mod 64, 0x80 + c div 64 mod 64, 0x80 + c mod 64])"

definition utf8_encode :: "ustring \<Rightarrow> nat list" where
  "utf8_encode s = concat (map utf8_char s)"

lemma split2: "(c :: nat) div 64 * 64 + c mod 64 = c"
  by simp

lemma split3: "(c :: nat) div 4096 * 4096 + c div 64 mod 64 * 64 + c mod 64 = c"
proof -
  have "c div 4096 = c div 64 div 64" by (simp add: div_mult2_eq [symmetric])
  then show ?thesis using split2 [of c] split2 [of "c div 64"] by linarith
qed

lemma split4:
  "(c :: nat) div 262144 * 262144 + c div 4096 mod 64 * 4096 + c div 64 mod 64 * 64 + c mod 64 = c"
proof -
  have "c div 262144 = c div 4096 div 64" by (simp add: div_mult2_eq [symmetric])
  then show ?thesis using split3 [of c] split2 [of "c div 4096"] by linarith
qed

lemma utf8_decode_char:
  assumes "scalar_value c"
  shows "utf8_decode (utf8_char c @ bs) = map_option ((#) c) (utf8_decode bs)"
proof -
  consider "c < 0x80" | "0x80 \<le> c" "c < 0x800" | "0x800 \<le> c" "c < 0x10000" | "0x10000 \<le> c" "c \<le> 0x10FFFF"
    using assms unfolding scalar_value_def by linarith
  then show ?thesis
  proof cases
    case 1
    then show ?thesis by (simp add: utf8_char_def)
  next
    case 2
    define q where "q = c div 64"
    define r where "r = c mod 64"
    have c: "q * 64 + r = c" using split2 [of c] by (simp add: q_def r_def)
    have b: "r < 64" by (simp add: r_def)
    have q: "2 \<le> q" "q \<le> 31" using 2 c b by linarith+
    have u: "utf8_char c = [0xC0 + q, 0x80 + r]" using 2 by (simp add: utf8_char_def q_def r_def)
    show ?thesis
      using b q c unfolding u by (auto simp: is_cont_def)
  next
    case 3
    define q where "q = c div 4096"
    define r where "r = c div 64 mod 64"
    define s where "s = c mod 64"
    have c: "q * 4096 + r * 64 + s = c" using split3 [of c] by (simp add: q_def r_def s_def)
    have b: "r < 64" "s < 64" by (simp_all add: r_def s_def)
    have q: "q \<le> 15" "q = 0 \<Longrightarrow> 32 \<le> r" "q = 13 \<Longrightarrow> r \<le> 31"
      using 3 c b assms unfolding scalar_value_def by linarith+
    have u: "utf8_char c = [0xE0 + q, 0x80 + r, 0x80 + s]"
      using 3 by (simp add: utf8_char_def q_def r_def s_def)
    show ?thesis
      using b q c unfolding u by (auto simp: is_cont_def)
  next
    case 4
    define p where "p = c div 262144"
    define q where "q = c div 4096 mod 64"
    define r where "r = c div 64 mod 64"
    define s where "s = c mod 64"
    have c: "p * 262144 + q * 4096 + r * 64 + s = c" using split4 [of c] by (simp add: p_def q_def r_def s_def)
    have b: "q < 64" "r < 64" "s < 64" by (simp_all add: q_def r_def s_def)
    have q: "p \<le> 4" "p = 0 \<Longrightarrow> 16 \<le> q" "p = 4 \<Longrightarrow> q \<le> 15"
      using 4 c b by linarith+
    have u: "utf8_char c = [0xF0 + p, 0x80 + q, 0x80 + r, 0x80 + s]"
      using 4 by (simp add: utf8_char_def p_def q_def r_def s_def)
    show ?thesis
      using b q c unfolding u by (auto simp: is_cont_def)
  qed
qed

lemma utf8_roundtrip: "\<forall>c \<in> set s. scalar_value c \<Longrightarrow> utf8_decode (utf8_encode s) = Some s"
  by (induction s) (simp_all add: utf8_encode_def utf8_decode_char)

subsection \<open>Numbers\<close>

definition hex_digit :: "nat \<Rightarrow> uchar" where
  "hex_digit n = (if n < 10 then 48 + n else 87 + n)"

text \<open>\<^verbatim>\<open>{:02x}\<close> of a byte.\<close>

definition hex2 :: "8 word \<Rightarrow> ustring" where
  "hex2 w = [hex_digit (unat w div 16), hex_digit (unat w mod 16)]"

text \<open>\<^verbatim>\<open>{}\<close> of a signed integer.\<close>

definition dec_int :: "int \<Rightarrow> ustring" where
  "dec_int i = (if i < 0 then 45 # dec (nat (- i)) else dec (nat i))"

text \<open>\<^verbatim>\<open>str::parse::<usize>\<close>: an optional plus sign and at least one digit; an error when the value does not fit.\<close>

definition parse_usize :: "ustring \<Rightarrow> nat option" where
  "parse_usize s =
     (let digits = (case s of c # cs \<Rightarrow> if c = 43 then cs else s | [] \<Rightarrow> s) in
      if digits = [] \<or> \<not> list_all (\<lambda>c. 48 \<le> c \<and> c \<le> 57) digits then None
      else if undec digits < 2 ^ 64 then Some (undec digits) else None)"

lemma parse_dec: "n < 2 ^ 64 \<Longrightarrow> parse_usize (dec n) = Some n"
proof -
  assume n: "n < 2 ^ 64"
  obtain c cs where cs: "dec n = c # cs" by (metis dec_nonempty neq_Nil_conv)
  then have "c \<noteq> 43" using dec_digits [of c n] by auto
  then have "(case dec n of c # cs \<Rightarrow> if c = 43 then cs else dec n | [] \<Rightarrow> dec n) = dec n"
    using cs by simp
  moreover have "48 \<le> d \<and> d \<le> 57" if "d \<in> set (dec n)" for d
    using dec_digits [OF that] by simp
  ultimately show ?thesis
    using n by (simp add: parse_usize_def Let_def list_all_iff)
qed

text \<open>The white space that \<^verbatim>\<open>trim_end\<close> removes: the characters with the Unicode property \<^verbatim>\<open>White_Space\<close>.\<close>

definition is_whitespace :: "uchar \<Rightarrow> bool" where
  "is_whitespace c \<longleftrightarrow> (9 \<le> c \<and> c \<le> 13) \<or> c = 32 \<or> c = 0x85 \<or> c = 0xA0 \<or> c = 0x1680
     \<or> (0x2000 \<le> c \<and> c \<le> 0x200A) \<or> c = 0x2028 \<or> c = 0x2029 \<or> c = 0x202F \<or> c = 0x205F \<or> c = 0x3000"

definition trim_end :: "ustring \<Rightarrow> ustring" where
  "trim_end s = rev (dropWhile is_whitespace (rev s))"

definition trim_start :: "ustring \<Rightarrow> ustring" where
  "trim_start s = dropWhile is_whitespace s"

text \<open>A string is indexed by the bytes of its encoding; an index that is not the start of a character is a panic.\<close>

definition byte_len :: "ustring \<Rightarrow> nat" where
  "byte_len s = length (utf8_encode s)"

fun byte_split :: "nat \<Rightarrow> ustring \<Rightarrow> (ustring \<times> ustring) option" where
  "byte_split 0 s = Some ([], s)"
| "byte_split (Suc n) [] = None"
| "byte_split (Suc n) (c # cs) =
     (let k = length (utf8_char c) in
      if k \<le> Suc n then map_option (\<lambda>(a, b). (c # a, b)) (byte_split (Suc n - k) cs) else None)"

text \<open>\<^verbatim>\<open>String::truncate\<close> and \<^verbatim>\<open>str::rfind\<close>\<close>

definition str_truncate :: "nat \<Rightarrow> ustring \<Rightarrow> ustring option" where
  "str_truncate n s = (if n \<le> byte_len s then map_option fst (byte_split n s) else Some s)"

fun str_rfind :: "(uchar \<Rightarrow> bool) \<Rightarrow> ustring \<Rightarrow> nat option" where
  "str_rfind p [] = None"
| "str_rfind p (c # cs) =
     (case str_rfind p cs of
        Some i \<Rightarrow> Some (length (utf8_char c) + i)
      | None \<Rightarrow> if p c then Some 0 else None)"

text \<open>On ASCII text, bytes are characters.\<close>

lemma utf8_char_ascii [simp]: "c < 128 \<Longrightarrow> utf8_char c = [c]"
  by (simp add: utf8_char_def)

lemma byte_len_ascii: "\<forall>c \<in> set s. c < 128 \<Longrightarrow> byte_len s = length s"
  by (induction s) (auto simp: byte_len_def utf8_encode_def)

lemma byte_split_ascii: "\<forall>c \<in> set s. c < 128 \<Longrightarrow> n \<le> length s \<Longrightarrow> byte_split n s = Some (take n s, drop n s)"
  by (induction n s rule: byte_split.induct) auto

lemma str_truncate_ascii: "\<forall>c \<in> set s. c < 128 \<Longrightarrow> str_truncate n s = Some (take n s)"
  by (simp add: str_truncate_def byte_len_ascii byte_split_ascii)

lemma str_rfind_ascii: "\<forall>c \<in> set s. c < 128 \<Longrightarrow> str_rfind p s = Some i \<Longrightarrow> i < length s"
  by (induction s arbitrary: i) (auto split: option.splits if_splits)

end
