(* ===== verification/Term_Handler.thy ===== *)
theory Term_Handler
  imports Term_State Utf8
begin

text \<open>
  The escape sequence handler: \<^verbatim>\<open>impl Handler for Term\<close> of \<^verbatim>\<open>velacritty_terminal/src/term/mod.rs\<close>, every method,
  in the order of the source (\<^verbatim>\<open>linefeed\<close>, \<^verbatim>\<open>scroll_up\<close> and \<^verbatim>\<open>scroll_down\<close>, which \<^verbatim>\<open>wrapline\<close> needs, are in the
  theory of the state). Parameters that count are \<open>nat\<close>; a panic is \<open>None\<close>.
\<close>

definition esc :: "string \<Rightarrow> ustring" where
  "esc s = 27 # lit s"

subsection \<open>Input\<close>

text \<open>\<^verbatim>\<open>input\<close> in the order of its parts: a zero-width character is attached to the previous cell; insert mode first
  shifts the rest of the line; a wide character takes two cells and may have to wrap first.\<close>

definition input_zero_width :: "uchar \<Rightarrow> terminal \<Rightarrow> terminal option" where
  "input_zero_width ch t = do {
     let column = p_column (cu_point (t_cursor t));
     let column = (if \<not> cu_input_needs_wrap (t_cursor t) then column - 1 else column);
     let line = p_line (cu_point (t_cursor t));
     y \<leftarrow> grid_get (t_grid t) (Point line column);
     let column = (if fl_contains (c_flags y) WIDE_CHAR_SPACER then column - 1 else column);
     on_grid (grid_mod (Point line column) (push_zerowidth ch)) t
   }"

definition insert_shift :: "nat \<Rightarrow> terminal \<Rightarrow> terminal option" where
  "insert_shift width t =
     (let cols = columns (t_dims t); p = cu_point (t_cursor t) in
      if has_mode t INSERT \<and> p_column p + width < cols
      then on_grid (grid_mod_row (p_line p)
             (row_full_mut (mfold (\<lambda>col v. vswap v (col + width) col) (rev [p_column p..<cols - width])))) t
      else Some t)"

definition write_with_flag :: "externals \<Rightarrow> flags \<Rightarrow> uchar \<Rightarrow> terminal \<Rightarrow> terminal option" where
  "write_with_flag x flag ch t = do {
     let t = upd_template (\<lambda>y. y\<lparr>c_flags := fl_insert (c_flags y) flag\<rparr>) t;
     t \<leftarrow> write_at_cursor x ch t;
     Some (upd_template (\<lambda>y. y\<lparr>c_flags := fl_remove (c_flags y) flag\<rparr>) t)
   }"

definition advance_cursor :: "nat \<Rightarrow> terminal \<Rightarrow> terminal" where
  "advance_cursor cols t =
     (if p_column (cu_point (t_cursor t)) + 1 < cols
      then set_cursor_column (p_column (cu_point (t_cursor t)) + 1) t
      else set_needs_wrap True t)"

definition input_wide :: "externals \<Rightarrow> uchar \<Rightarrow> nat \<Rightarrow> terminal \<Rightarrow> terminal option" where
  "input_wide x ch cols t =
     (if p_column (cu_point (t_cursor t)) + 1 \<ge> cols \<and> \<not> has_mode t LINE_WRAP
      then Some (set_needs_wrap True t)
      else do {
        t \<leftarrow> (if p_column (cu_point (t_cursor t)) + 1 \<ge> cols
              then do { t \<leftarrow> write_with_flag x LEADING_WIDE_CHAR_SPACER 32 t; wrapline t }
              else Some t);
        t \<leftarrow> write_with_flag x WIDE_CHAR ch t;
        let t = set_cursor_column (p_column (cu_point (t_cursor t)) + 1) t;
        t \<leftarrow> write_with_flag x WIDE_CHAR_SPACER 32 t;
        Some (advance_cursor cols t)
      })"

definition input :: "externals \<Rightarrow> uchar \<Rightarrow> terminal \<Rightarrow> terminal option" where
  "input x ch t =
     (case x_width x ch of
        None \<Rightarrow> Some t
      | Some width \<Rightarrow>
        if width = 0 then input_zero_width ch t
        else do {
          t \<leftarrow> (if cu_input_needs_wrap (t_cursor t) then wrapline t else Some t);
          let cols = columns (t_dims t);
          t \<leftarrow> insert_shift width t;
          if width = 1 then do { t \<leftarrow> write_at_cursor x ch t; Some (advance_cursor cols t) }
          else input_wide x ch cols t
        })"

definition decaln :: "terminal \<Rightarrow> terminal option" where
  "decaln t = do {
     let cols = columns (t_dims t);
     t \<leftarrow> mfold (\<lambda>line. mfold (\<lambda>column.
              on_grid (grid_mod (Point line column) (\<lambda>_. default_cell\<lparr>c_char := 69\<rparr>))) [0..<cols])
            (irange 0 (int (screen_lines (t_dims t)))) t;
     Some (mark_fully_damaged t)
   }"

subsection \<open>Cursor movement\<close>

definition goto :: "int \<Rightarrow> nat \<Rightarrow> terminal \<Rightarrow> terminal option" where
  "goto line col t = do {
     let (y_offset, max_y) =
       (if has_mode t ORIGIN then (fst (t_scroll_region t), snd (t_scroll_region t) - 1)
        else (0, bottommost_line (t_dims t)));
     t \<leftarrow> damage_cursor t;
     let t = set_cursor_line (max (min (line + y_offset) max_y) 0) t;
     let t = set_cursor_column (min col (last_column (t_dims t))) t;
     t \<leftarrow> damage_cursor t;
     Some (set_needs_wrap False t)
   }"

definition goto_line :: "int \<Rightarrow> terminal \<Rightarrow> terminal option" where
  "goto_line line t = goto line (p_column (cu_point (t_cursor t))) t"

definition goto_col :: "nat \<Rightarrow> terminal \<Rightarrow> terminal option" where
  "goto_col col t = goto (p_line (cu_point (t_cursor t))) col t"

definition insert_blank :: "nat \<Rightarrow> terminal \<Rightarrow> terminal option" where
  "insert_blank count t = do {
     let cursor = t_cursor t;
     let bg = c_bg (cu_template cursor);
     let cols = columns (t_dims t);
     let source = p_column (cu_point cursor);
     room \<leftarrow> usub cols source;
     let count = min count room;
     let destination = source + count;
     num_cells \<leftarrow> usub cols destination;
     let line = p_line (cu_point cursor);
     t \<leftarrow> term_damage_line line 0 (cols - 1) t;
     on_grid (grid_mod_row line (row_full_mut (\<lambda>v. do {
       v \<leftarrow> mfold (\<lambda>offset v. vswap v (destination + offset) (source + offset)) (rev [0..<num_cells]) v;
       vfill v source destination (cell_of_color bg)
     }))) t
   }"

definition move_up :: "nat \<Rightarrow> terminal \<Rightarrow> terminal option" where
  "move_up lines t =
     goto (p_line (cu_point (t_cursor t)) - int lines) (p_column (cu_point (t_cursor t))) t"

definition move_down :: "nat \<Rightarrow> terminal \<Rightarrow> terminal option" where
  "move_down lines t =
     goto (p_line (cu_point (t_cursor t)) + int lines) (p_column (cu_point (t_cursor t))) t"

definition move_forward :: "nat \<Rightarrow> terminal \<Rightarrow> terminal option" where
  "move_forward cols t = do {
     let p = cu_point (t_cursor t);
     let last = min (p_column p + cols) (last_column (t_dims t));
     t \<leftarrow> term_damage_line (p_line p) (p_column p) last t;
     Some (set_needs_wrap False (set_cursor_column last t))
   }"

definition move_backward :: "nat \<Rightarrow> terminal \<Rightarrow> terminal option" where
  "move_backward cols t = do {
     let p = cu_point (t_cursor t);
     let column = p_column p - cols;
     t \<leftarrow> term_damage_line (p_line p) column (p_column p) t;
     Some (set_needs_wrap False (set_cursor_column column t))
   }"

definition move_down_and_cr :: "nat \<Rightarrow> terminal \<Rightarrow> terminal option" where
  "move_down_and_cr lines t = goto (p_line (cu_point (t_cursor t)) + int lines) 0 t"

definition move_up_and_cr :: "nat \<Rightarrow> terminal \<Rightarrow> terminal option" where
  "move_up_and_cr lines t = goto (p_line (cu_point (t_cursor t)) - int lines) 0 t"

subsection \<open>Reports\<close>

text \<open>\<^verbatim>\<open>version_number\<close>: the components from the right, weighted by powers of 100; \<open>usize\<close> overflow panics.\<close>

fun split_on :: "uchar \<Rightarrow> ustring \<Rightarrow> ustring list" where
  "split_on sep [] = [[]]"
| "split_on sep (c # cs) =
     (if c = sep then [] # split_on sep cs
      else case split_on sep cs of [] \<Rightarrow> [[c]] | s # ss \<Rightarrow> (c # s) # ss)"

definition before_last :: "uchar \<Rightarrow> ustring \<Rightarrow> ustring" where
  "before_last sep s = (if sep \<in> set s then rev (tl (dropWhile (\<lambda>c. c \<noteq> sep) (rev s))) else s)"

fun version_sum :: "nat \<Rightarrow> ustring list \<Rightarrow> nat \<Rightarrow> nat option" where
  "version_sum i [] acc = Some acc"
| "version_sum i (s # ss) acc = do {
     let semver_number = (case parse_usize s of Some n \<Rightarrow> n | None \<Rightarrow> 0);
     guard (100 ^ i < (2 :: nat) ^ 64);
     guard (100 ^ i * semver_number < 2 ^ 64);
     guard (acc + 100 ^ i * semver_number < 2 ^ 64);
     version_sum (i + 1) ss (acc + 100 ^ i * semver_number)
   }"

definition version_number :: "ustring \<Rightarrow> nat option" where
  "version_number version = version_sum 0 (rev (split_on 46 (before_last 45 version))) 0"

text \<open>The package version of \<^verbatim>\<open>velacritty_terminal/Cargo.toml\<close>.\<close>

definition CARGO_PKG_VERSION :: ustring where
  "CARGO_PKG_VERSION = lit ''0.25.2-dev''"

definition identify_terminal :: "uchar option \<Rightarrow> terminal \<Rightarrow> terminal option" where
  "identify_terminal intermediate t =
     (case intermediate of
        None \<Rightarrow> Some (send_event (PtyWrite (esc ''[?6c'')) t)
      | Some ch \<Rightarrow>
          if ch = 62 then do {
            version \<leftarrow> version_number CARGO_PKG_VERSION;
            Some (send_event (PtyWrite (esc ''[>0;'' @ dec version @ lit '';1c'')) t)
          }
          else Some t)"

definition report_keyboard_mode :: "externals \<Rightarrow> terminal \<Rightarrow> terminal" where
  "report_keyboard_mode x t =
     (if \<not> cfg_kitty_keyboard (t_config t) then t
      else let current_mode = x_keyboard_bits x (last_keyboard_mode (t_keyboard_mode_stack t))
           in send_event (PtyWrite (esc ''[?'' @ dec current_mode @ lit ''u'')) t)"

definition TITLE_STACK_MAX_DEPTH :: nat where "TITLE_STACK_MAX_DEPTH = 4096"

definition KEYBOARD_MODE_STACK_MAX_DEPTH :: nat where
  "KEYBOARD_MODE_STACK_MAX_DEPTH = TITLE_STACK_MAX_DEPTH"

definition push_keyboard_mode :: "keyboard_modes \<Rightarrow> terminal \<Rightarrow> terminal option" where
  "push_keyboard_mode m t =
     (if \<not> cfg_kitty_keyboard (t_config t) then Some t
      else do {
        t \<leftarrow> (if length (t_keyboard_mode_stack t) \<ge> KEYBOARD_MODE_STACK_MAX_DEPTH
              then do {
                guard (t_title_stack t \<noteq> []);
                Some (t\<lparr>t_title_stack := tl (t_title_stack t)\<rparr>)
              }
              else Some t);
        let t = t\<lparr>t_keyboard_mode_stack := t_keyboard_mode_stack t @ [m]\<rparr>;
        Some (apply_keyboard_mode (mode_of_keyboard m) Replace t)
      })"

definition pop_keyboard_modes :: "nat \<Rightarrow> terminal \<Rightarrow> terminal" where
  "pop_keyboard_modes to_pop t =
     (if \<not> cfg_kitty_keyboard (t_config t) then t
      else let new_len = length (t_keyboard_mode_stack t) - to_pop;
               t = t\<lparr>t_keyboard_mode_stack := take new_len (t_keyboard_mode_stack t)\<rparr>
           in apply_keyboard_mode (mode_of_keyboard (last_keyboard_mode (t_keyboard_mode_stack t))) Replace t)"

definition set_keyboard_mode :: "keyboard_modes \<Rightarrow> apply_behavior \<Rightarrow> terminal \<Rightarrow> terminal" where
  "set_keyboard_mode m behavior t =
     (if \<not> cfg_kitty_keyboard (t_config t) then t
      else apply_keyboard_mode (mode_of_keyboard m) behavior t)"

definition device_status :: "nat \<Rightarrow> terminal \<Rightarrow> terminal" where
  "device_status arg t =
     (if arg = 5 then send_event (PtyWrite (esc ''[0n'')) t
      else if arg = 6
      then let pos = cu_point (t_cursor t)
           in send_event (PtyWrite (esc ''['' @ dec_int (p_line pos + 1) @ lit '';'' @ dec (p_column pos + 1)
                @ lit ''R'')) t
      else t)"

subsection \<open>Tabs and control characters\<close>

text \<open>The inner loop of \<^verbatim>\<open>put_tab\<close>: to the next tab stop or the last column.\<close>

function tab_advance :: "tab_stops \<Rightarrow> nat \<Rightarrow> nat \<Rightarrow> nat option" where
  "tab_advance tabs cols col =
     (if col + 1 = cols then Some col
      else do {
        b \<leftarrow> tabs_get tabs (col + 1);
        if b then Some (col + 1) else tab_advance tabs cols (col + 1)
      })"
  by pat_completeness auto
termination
  by (relation "measure (\<lambda>(tabs, cols, col). length tabs - col)")
    (auto simp: tabs_get_def vget_def split: if_splits)

declare tab_advance.simps [simp del]

fun put_tab_loop :: "externals \<Rightarrow> nat \<Rightarrow> terminal \<Rightarrow> terminal option" where
  "put_tab_loop x 0 t = Some t"
| "put_tab_loop x (Suc count) t =
     (if p_column (cu_point (t_cursor t)) < columns (t_dims t)
      then do {
        let ch = x_charset_map x (cu_charsets (t_cursor t) (t_active_charset t)) 9;
        t \<leftarrow> on_grid (mod_cursor_cell (\<lambda>y. if c_char y = 32 then y\<lparr>c_char := ch\<rparr> else y)) t;
        col \<leftarrow> tab_advance (t_tabs t) (columns (t_dims t)) (p_column (cu_point (t_cursor t)));
        put_tab_loop x count (set_cursor_column col t)
      }
      else Some t)"

definition put_tab :: "externals \<Rightarrow> nat \<Rightarrow> terminal \<Rightarrow> terminal option" where
  "put_tab x count t =
     (if cu_input_needs_wrap (t_cursor t) then wrapline t else put_tab_loop x count t)"

definition backspace :: "terminal \<Rightarrow> terminal option" where
  "backspace t =
     (let p = cu_point (t_cursor t) in
      if p_column p > 0
      then term_damage_line (p_line p) (p_column p - 1) (p_column p)
             (set_needs_wrap False (set_cursor_column (p_column p - 1) t))
      else Some t)"

definition carriage_return :: "terminal \<Rightarrow> terminal option" where
  "carriage_return t = do {
     let p = cu_point (t_cursor t);
     t \<leftarrow> term_damage_line (p_line p) 0 (p_column p) t;
     Some (set_needs_wrap False (set_cursor_column 0 t))
   }"

definition bell :: "terminal \<Rightarrow> terminal" where
  "bell t = send_event Bell t"

definition substitute :: "terminal \<Rightarrow> terminal" where
  "substitute t = t"

definition newline :: "terminal \<Rightarrow> terminal option" where
  "newline t = do {
     t \<leftarrow> linefeed t;
     if has_mode t LINE_FEED_NEW_LINE then carriage_return t else Some t
   }"

definition set_horizontal_tabstop :: "terminal \<Rightarrow> terminal option" where
  "set_horizontal_tabstop t =
     map_option (\<lambda>tabs. t\<lparr>t_tabs := tabs\<rparr>) (tabs_set (p_column (cu_point (t_cursor t))) True (t_tabs t))"

subsection \<open>Lines and characters\<close>

definition in_scroll_region :: "terminal \<Rightarrow> int \<Rightarrow> bool" where
  "in_scroll_region t l \<longleftrightarrow> fst (t_scroll_region t) \<le> l \<and> l < snd (t_scroll_region t)"

definition insert_blank_lines :: "nat \<Rightarrow> terminal \<Rightarrow> terminal option" where
  "insert_blank_lines lines t =
     (let origin = p_line (cu_point (t_cursor t)) in
      if in_scroll_region t origin then scroll_down_relative origin lines t else Some t)"

definition delete_lines :: "nat \<Rightarrow> terminal \<Rightarrow> terminal option" where
  "delete_lines lines t = do {
     let origin = p_line (cu_point (t_cursor t));
     o' \<leftarrow> as_usize origin;
     room \<leftarrow> usub (screen_lines (t_dims t)) o';
     let lines = min room lines;
     if lines > 0 \<and> in_scroll_region t origin then scroll_up_relative origin lines t else Some t
   }"

definition erase_chars :: "nat \<Rightarrow> terminal \<Rightarrow> terminal option" where
  "erase_chars count t = do {
     let p = cu_point (t_cursor t);
     let start = p_column p;
     let stop = min (start + count) (columns (t_dims t));
     let bg = c_bg (cu_template (t_cursor t));
     t \<leftarrow> term_damage_line (p_line p) start stop t;
     on_grid (grid_mod_row (p_line p) (row_fill start stop (cell_of_color bg))) t
   }"

definition delete_chars :: "nat \<Rightarrow> terminal \<Rightarrow> terminal option" where
  "delete_chars count t = do {
     let cols = columns (t_dims t);
     let p = cu_point (t_cursor t);
     let bg = c_bg (cu_template (t_cursor t));
     let count = min count cols;
     let start = p_column p;
     last \<leftarrow> usub cols 1;
     let stop = min (start + count) last;
     num_cells \<leftarrow> usub cols stop;
     t \<leftarrow> term_damage_line (p_line p) 0 last t;
     on_grid (grid_mod_row (p_line p) (row_full_mut (\<lambda>v. do {
       v \<leftarrow> mfold (\<lambda>offset v. vswap v (start + offset) (stop + offset)) [0..<num_cells] v;
       vfill v (cols - count) (length v) (cell_of_color bg)
     }))) t
   }"

fun find_tab_back :: "tab_stops \<Rightarrow> nat list \<Rightarrow> nat \<Rightarrow> nat option" where
  "find_tab_back tabs [] col = Some col"
| "find_tab_back tabs (i # is) col = do {
     b \<leftarrow> tabs_get tabs i;
     if b then Some i else find_tab_back tabs is col
   }"

fun back_tabs :: "tab_stops \<Rightarrow> nat \<Rightarrow> nat \<Rightarrow> nat option" where
  "back_tabs tabs 0 col = Some col"
| "back_tabs tabs (Suc count) col =
     (if col = 0 then Some col
      else do { col \<leftarrow> find_tab_back tabs (rev [0..<col]) col; back_tabs tabs count col })"

definition move_backward_tabs :: "nat \<Rightarrow> terminal \<Rightarrow> terminal option" where
  "move_backward_tabs count t = do {
     let old_col = p_column (cu_point (t_cursor t));
     col \<leftarrow> back_tabs (t_tabs t) count old_col;
     let t = set_cursor_column col t;
     term_damage_line (p_line (cu_point (t_cursor t))) col old_col t
   }"

fun find_tab_forward :: "tab_stops \<Rightarrow> nat list \<Rightarrow> nat \<Rightarrow> nat option" where
  "find_tab_forward tabs [] col = Some col"
| "find_tab_forward tabs (i # is) col = do {
     b \<leftarrow> tabs_get tabs i;
     if b then Some i else find_tab_forward tabs is i
   }"

fun forward_tabs :: "tab_stops \<Rightarrow> nat \<Rightarrow> nat \<Rightarrow> nat \<Rightarrow> nat option" where
  "forward_tabs tabs num_cols 0 col = Some col"
| "forward_tabs tabs num_cols (Suc count) col =
     (if col = num_cols - 1 then Some col
      else do { col \<leftarrow> find_tab_forward tabs [col + 1..<num_cols] col; forward_tabs tabs num_cols count col })"

definition move_forward_tabs :: "nat \<Rightarrow> terminal \<Rightarrow> terminal option" where
  "move_forward_tabs count t = do {
     let num_cols = columns (t_dims t);
     let old_col = p_column (cu_point (t_cursor t));
     col \<leftarrow> forward_tabs (t_tabs t) num_cols count old_col;
     let t = set_cursor_column col t;
     term_damage_line (p_line (cu_point (t_cursor t))) old_col col t
   }"

definition save_cursor_position :: "terminal \<Rightarrow> terminal" where
  "save_cursor_position t = t\<lparr>t_grid := (t_grid t)\<lparr>g_saved_cursor := t_cursor t\<rparr>\<rparr>"

definition restore_cursor_position :: "terminal \<Rightarrow> terminal option" where
  "restore_cursor_position t = do {
     t \<leftarrow> damage_cursor t;
     let t = t\<lparr>t_grid := (t_grid t)\<lparr>g_cursor := g_saved_cursor (t_grid t)\<rparr>\<rparr>;
     damage_cursor t
   }"

subsection \<open>Clearing\<close>

datatype line_clear_mode = ClearRight | ClearLeft | ClearLine

definition filter_selection :: "bound \<Rightarrow> bound \<Rightarrow> terminal \<Rightarrow> terminal" where
  "filter_selection lo hi t =
     t\<lparr>t_selection := (case t_selection t of
         None \<Rightarrow> None
       | Some s \<Rightarrow> if intersects_range lo hi s then None else Some s)\<rparr>"

definition clear_line :: "line_clear_mode \<Rightarrow> terminal \<Rightarrow> terminal option" where
  "clear_line m t =
     (let cursor = t_cursor t;
          bg = c_bg (cu_template cursor);
          p = cu_point cursor
      in if m = ClearRight \<and> cu_input_needs_wrap cursor then Some t
         else do {
           let (left, right) = (case m of
               ClearRight \<Rightarrow> (p_column p, columns (t_dims t))
             | ClearLeft \<Rightarrow> (0, p_column p + 1)
             | ClearLine \<Rightarrow> (0, columns (t_dims t)));
           last \<leftarrow> usub right 1;
           t \<leftarrow> term_damage_line (p_line p) left last t;
           t \<leftarrow> on_grid (grid_mod_row (p_line p) (row_fill left right (cell_of_color bg))) t;
           let l = p_line (cu_point (t_cursor t));
           Some (filter_selection (Included l) (Included l) t)
         })"

text \<open>The index of the cursor colour: \<^verbatim>\<open>NamedColor::Cursor as usize\<close>, documented in \<^verbatim>\<open>term/color.rs\<close>.\<close>

definition CURSOR_COLOR :: nat where "CURSOR_COLOR = 258"

definition set_color :: "nat \<Rightarrow> rgb \<Rightarrow> terminal \<Rightarrow> terminal option" where
  "set_color index col t = do {
     t \<leftarrow> (if index \<noteq> CURSOR_COLOR
           then do {
             old \<leftarrow> colors_get (t_colors t) index;
             Some (if old \<noteq> Some col then mark_fully_damaged t else t)
           }
           else Some t);
     colors \<leftarrow> colors_set index (Some col) (t_colors t);
     Some (t\<lparr>t_colors := colors\<rparr>)
   }"

definition color_response :: "ustring \<Rightarrow> ustring \<Rightarrow> rgb \<Rightarrow> ustring" where
  "color_response prefix terminator c =
     esc '']'' @ prefix @ lit '';rgb:'' @ hex2 (rgb_r c) @ hex2 (rgb_r c) @ lit ''/''
       @ hex2 (rgb_g c) @ hex2 (rgb_g c) @ lit ''/'' @ hex2 (rgb_b c) @ hex2 (rgb_b c) @ terminator"

definition dynamic_color_sequence :: "ustring \<Rightarrow> nat \<Rightarrow> ustring \<Rightarrow> terminal \<Rightarrow> terminal" where
  "dynamic_color_sequence prefix index terminator t =
     send_event (ColorRequest index (color_response prefix terminator)) t"

definition reset_color :: "nat \<Rightarrow> terminal \<Rightarrow> terminal option" where
  "reset_color index t = do {
     t \<leftarrow> (if index \<noteq> CURSOR_COLOR
           then do {
             old \<leftarrow> colors_get (t_colors t) index;
             Some (if old \<noteq> None then mark_fully_damaged t else t)
           }
           else Some t);
     colors \<leftarrow> colors_set index None (t_colors t);
     Some (t\<lparr>t_colors := colors\<rparr>)
   }"

definition clipboard_of_byte :: "nat \<Rightarrow> clipboard_type option" where
  "clipboard_of_byte b =
     (if b = 99 then Some Clipboard else if b = 112 \<or> b = 115 then Some SelectionClipboard else None)"

definition clipboard_store :: "externals \<Rightarrow> nat \<Rightarrow> 8 word list \<Rightarrow> terminal \<Rightarrow> terminal" where
  "clipboard_store x clipboard base64 t =
     (if cfg_osc52 (t_config t) \<noteq> OnlyCopy \<and> cfg_osc52 (t_config t) \<noteq> CopyPaste then t
      else case clipboard_of_byte clipboard of
        None \<Rightarrow> t
      | Some ty \<Rightarrow>
        (case x_base64_decode x base64 of
           None \<Rightarrow> t
         | Some bytes \<Rightarrow>
           (case utf8_decode (map unat bytes) of
              None \<Rightarrow> t
            | Some text' \<Rightarrow> send_event (ClipboardStore ty text') t)))"

definition clipboard_load :: "externals \<Rightarrow> nat \<Rightarrow> ustring \<Rightarrow> terminal \<Rightarrow> terminal" where
  "clipboard_load x clipboard terminator t =
     (if cfg_osc52 (t_config t) \<noteq> OnlyPaste \<and> cfg_osc52 (t_config t) \<noteq> CopyPaste then t
      else case clipboard_of_byte clipboard of
        None \<Rightarrow> t
      | Some ty \<Rightarrow>
        send_event (ClipboardLoad ty (\<lambda>s.
          esc '']52;'' @ [clipboard] @ lit '';'' @ x_base64_encode x s @ terminator)) t)"

datatype clear_mode = ClearBelow | ClearAbove | ClearAll | ClearSaved

definition clear_screen :: "clear_mode \<Rightarrow> terminal \<Rightarrow> terminal option" where
  "clear_screen m t = do {
     let bg = c_bg (cu_template (t_cursor t));
     let n = screen_lines (t_dims t);
     let p = cu_point (t_cursor t);
     t \<leftarrow> (case m of
         ClearAbove \<Rightarrow> do {
           t \<leftarrow> (if p_line p > 1 then on_grid (reset_region None (Some (p_line p))) t else Some t);
           let stop = min (p_column p + 1) (columns (t_dims t));
           t \<leftarrow> on_grid (grid_mod_row (p_line p) (row_fill_to stop (cell_of_color bg))) t;
           Some (filter_selection (Included 0) (Included (p_line p)) t)
         }
       | ClearBelow \<Rightarrow> do {
           t \<leftarrow> on_grid (grid_mod_row (p_line p) (row_fill_from (p_column p) (cell_of_color bg))) t;
           last \<leftarrow> usub n 1;
           line \<leftarrow> as_usize (p_line p);
           t \<leftarrow> (if line < last then on_grid (reset_region (Some (p_line p + 1)) None) t else Some t);
           Some (filter_selection (Included (p_line p)) (Excluded (int n)) t)
         }
       | ClearAll \<Rightarrow>
           if has_mode t ALT_SCREEN
           then do { t \<leftarrow> on_grid (reset_region None None) t; Some (t\<lparr>t_selection := None\<rparr>) }
           else do {
             let old_offset = g_display_offset (t_grid t);
             t \<leftarrow> on_grid clear_viewport t;
             let lines = g_display_offset (t_grid t) - old_offset;
             let line = line_grid_clamp (t_dims t) BGrid (p_line (t_vi_cursor t) - int lines);
             Some (t\<lparr>t_vi_cursor := Point line (p_column (t_vi_cursor t)), t_selection := None\<rparr>)
           }
       | ClearSaved \<Rightarrow>
           if history_size (t_dims t) > 0
           then do {
             t \<leftarrow> on_grid clear_history t;
             let line = line_grid_clamp (t_dims t) BCursor (p_line (t_vi_cursor t));
             Some (filter_selection Unbounded (Excluded 0)
               (t\<lparr>t_vi_cursor := Point line (p_column (t_vi_cursor t))\<rparr>))
           }
           else Some t);
     Some (mark_fully_damaged t)
   }"

datatype tab_clear_mode = ClearCurrentTab | ClearAllTabs

definition clear_tabs :: "tab_clear_mode \<Rightarrow> terminal \<Rightarrow> terminal option" where
  "clear_tabs m t =
     (case m of
        ClearCurrentTab \<Rightarrow>
          map_option (\<lambda>tabs. t\<lparr>t_tabs := tabs\<rparr>) (tabs_set (p_column (cu_point (t_cursor t))) False (t_tabs t))
      | ClearAllTabs \<Rightarrow> Some (t\<lparr>t_tabs := tabs_clear_all (t_tabs t)\<rparr>))"

text \<open>\<^verbatim>\<open>reset_state\<close> after the two grids were reset.\<close>

definition reset_fields :: "grid \<Rightarrow> grid \<Rightarrow> terminal \<Rightarrow> terminal" where
  "reset_fields grid inactive t =
     (let t = t\<lparr>t_grid := grid, t_inactive_grid := inactive\<rparr>;
          t = t\<lparr>t_scroll_region := (0, int (screen_lines (t_dims t))), t_tabs := tabs_new (columns (t_dims t)),
                t_title_stack := [], t_title := None, t_selection := None, t_vi_cursor := default_point,
                t_keyboard_mode_stack := [], t_inactive_keyboard_mode_stack := [],
                t_mode := fl_insert (t_mode t AND VI) default_mode\<rparr>
      in mark_fully_damaged (send_event CursorBlinkingChange t))"

definition reset_state :: "terminal \<Rightarrow> terminal option" where
  "reset_state t = do {
     let t = (if has_mode t ALT_SCREEN
              then t\<lparr>t_grid := t_inactive_grid t, t_inactive_grid := t_grid t\<rparr> else t);
     let t = t\<lparr>t_active_charset := G0, t_cursor_style := None\<rparr>;
     grid \<leftarrow> grid_reset (t_grid t);
     inactive \<leftarrow> grid_reset (t_inactive_grid t);
     Some (reset_fields grid inactive t)
   }"

definition reverse_index :: "terminal \<Rightarrow> terminal option" where
  "reverse_index t =
     (if p_line (cu_point (t_cursor t)) = fst (t_scroll_region t) then term_scroll_down 1 t
      else do {
        t \<leftarrow> damage_cursor t;
        let t = set_cursor_line (max (p_line (cu_point (t_cursor t)) - 1) 0) t;
        damage_cursor t
      })"

subsection \<open>Attributes\<close>

text \<open>\<^verbatim>\<open>set_hyperlink\<close> converts the hyperlink, which may draw an identifier from the global counter.\<close>

definition term_set_hyperlink ::
    "32 word \<Rightarrow> (ustring option \<times> ustring) option \<Rightarrow> terminal \<Rightarrow> terminal \<times> 32 word" where
  "term_set_hyperlink suffix link t =
     (case link of
        None \<Rightarrow> (upd_template (Cell.set_hyperlink None) t, suffix)
      | Some (link_id, uri) \<Rightarrow>
          let (h, suffix') = hyperlink_new suffix link_id uri
          in (upd_template (Cell.set_hyperlink (Some h)) t, suffix'))"

datatype attr =
    AttrForeground color | AttrBackground color | AttrUnderlineColor "color option" | AttrReset
  | AttrReverse | AttrCancelReverse | AttrBold | AttrCancelBold | AttrDim | AttrCancelBoldDim
  | AttrItalic | AttrCancelItalic | AttrUnderline | AttrDoubleUnderline | AttrUndercurl
  | AttrDottedUnderline | AttrDashedUnderline | AttrCancelUnderline | AttrHidden | AttrCancelHidden
  | AttrStrike | AttrCancelStrike | AttrUnhandled

definition insert_flags :: "flags \<Rightarrow> cell \<Rightarrow> cell" where
  "insert_flags m y = y\<lparr>c_flags := fl_insert (c_flags y) m\<rparr>"

definition remove_flags :: "flags \<Rightarrow> cell \<Rightarrow> cell" where
  "remove_flags m y = y\<lparr>c_flags := fl_remove (c_flags y) m\<rparr>"

fun apply_attr :: "attr \<Rightarrow> cell \<Rightarrow> cell" where
  "apply_attr (AttrForeground c) y = y\<lparr>c_fg := c\<rparr>"
| "apply_attr (AttrBackground c) y = y\<lparr>c_bg := c\<rparr>"
| "apply_attr (AttrUnderlineColor c) y = set_underline_color c y"
| "apply_attr AttrReset y =
     set_underline_color None (y\<lparr>c_fg := Named Foreground, c_bg := Named Background, c_flags := 0\<rparr>)"
| "apply_attr AttrReverse y = insert_flags INVERSE y"
| "apply_attr AttrCancelReverse y = remove_flags INVERSE y"
| "apply_attr AttrBold y = insert_flags BOLD y"
| "apply_attr AttrCancelBold y = remove_flags BOLD y"
| "apply_attr AttrDim y = insert_flags DIM y"
| "apply_attr AttrCancelBoldDim y = remove_flags (BOLD OR DIM) y"
| "apply_attr AttrItalic y = insert_flags ITALIC y"
| "apply_attr AttrCancelItalic y = remove_flags ITALIC y"
| "apply_attr AttrUnderline y = insert_flags UNDERLINE (remove_flags ALL_UNDERLINES y)"
| "apply_attr AttrDoubleUnderline y = insert_flags DOUBLE_UNDERLINE (remove_flags ALL_UNDERLINES y)"
| "apply_attr AttrUndercurl y = insert_flags UNDERCURL (remove_flags ALL_UNDERLINES y)"
| "apply_attr AttrDottedUnderline y = insert_flags DOTTED_UNDERLINE (remove_flags ALL_UNDERLINES y)"
| "apply_attr AttrDashedUnderline y = insert_flags DASHED_UNDERLINE (remove_flags ALL_UNDERLINES y)"
| "apply_attr AttrCancelUnderline y = remove_flags ALL_UNDERLINES y"
| "apply_attr AttrHidden y = insert_flags HIDDEN y"
| "apply_attr AttrCancelHidden y = remove_flags HIDDEN y"
| "apply_attr AttrStrike y = insert_flags STRIKEOUT y"
| "apply_attr AttrCancelStrike y = remove_flags STRIKEOUT y"
| "apply_attr AttrUnhandled y = y"

definition terminal_attribute :: "attr \<Rightarrow> terminal \<Rightarrow> terminal" where
  "terminal_attribute a t = upd_template (apply_attr a) t"

subsection \<open>Modes\<close>

definition set_scrolling_region :: "nat \<Rightarrow> nat option \<Rightarrow> terminal \<Rightarrow> terminal option" where
  "set_scrolling_region first bottom t =
     (let bottom = (case bottom of Some b \<Rightarrow> b | None \<Rightarrow> screen_lines (t_dims t)) in
      if first \<ge> bottom then Some t
      else let start = int first - 1;
               stop = int bottom;
               n = int (screen_lines (t_dims t));
               t = t\<lparr>t_scroll_region := (min start n, min stop n)\<rparr>
           in goto 0 0 t)"

definition deccolm :: "terminal \<Rightarrow> terminal option" where
  "deccolm t = do {
     t \<leftarrow> set_scrolling_region 1 None t;
     t \<leftarrow> on_grid (reset_region None None) t;
     Some (mark_fully_damaged t)
   }"

text \<open>\<^verbatim>\<open>self.cursor_style.get_or_insert(default)\<close> followed by an update of the style.\<close>

definition with_cursor_style :: "(cursor_style \<Rightarrow> cursor_style) \<Rightarrow> terminal \<Rightarrow> terminal" where
  "with_cursor_style f t =
     t\<lparr>t_cursor_style := Some (f (case t_cursor_style t of
         Some s \<Rightarrow> s | None \<Rightarrow> cfg_default_cursor_style (t_config t)))\<rparr>"

fun set_named_private_mode :: "named_private_mode \<Rightarrow> terminal \<Rightarrow> terminal option" where
  "set_named_private_mode UrgencyHints t = Some (insert_mode URGENCY_HINTS t)"
| "set_named_private_mode SwapScreenAndSetRestoreCursor t =
     (if \<not> has_mode t ALT_SCREEN then swap_alt t else Some t)"
| "set_named_private_mode ShowCursor t = Some (insert_mode SHOW_CURSOR t)"
| "set_named_private_mode CursorKeys t = Some (insert_mode APP_CURSOR t)"
| "set_named_private_mode ReportMouseClicks t =
     Some (send_event MouseCursorDirty (insert_mode MOUSE_REPORT_CLICK (remove_mode MOUSE_MODE t)))"
| "set_named_private_mode ReportCellMouseMotion t =
     Some (send_event MouseCursorDirty (insert_mode MOUSE_DRAG (remove_mode MOUSE_MODE t)))"
| "set_named_private_mode ReportAllMouseMotion t =
     Some (send_event MouseCursorDirty (insert_mode MOUSE_MOTION (remove_mode MOUSE_MODE t)))"
| "set_named_private_mode ReportFocusInOut t = Some (insert_mode FOCUS_IN_OUT t)"
| "set_named_private_mode BracketedPaste t = Some (insert_mode BRACKETED_PASTE t)"
| "set_named_private_mode SgrMouse t = Some (insert_mode SGR_MOUSE (remove_mode UTF8_MOUSE t))"
| "set_named_private_mode Utf8Mouse t = Some (insert_mode UTF8_MOUSE (remove_mode SGR_MOUSE t))"
| "set_named_private_mode AlternateScroll t = Some (insert_mode ALTERNATE_SCROLL t)"
| "set_named_private_mode LineWrap t = Some (insert_mode LINE_WRAP t)"
| "set_named_private_mode Origin t = goto 0 0 (insert_mode ORIGIN t)"
| "set_named_private_mode ColumnMode t = deccolm t"
| "set_named_private_mode BlinkingCursor t =
     Some (send_event CursorBlinkingChange (with_cursor_style (\<lambda>s. s\<lparr>cs_blinking := True\<rparr>) t))"
| "set_named_private_mode SyncUpdate t = Some t"

fun set_private_mode :: "private_mode \<Rightarrow> terminal \<Rightarrow> terminal option" where
  "set_private_mode (NamedPrivate m) t = set_named_private_mode m t"
| "set_private_mode (UnknownPrivate n) t = Some t"

fun unset_named_private_mode :: "named_private_mode \<Rightarrow> terminal \<Rightarrow> terminal option" where
  "unset_named_private_mode UrgencyHints t = Some (remove_mode URGENCY_HINTS t)"
| "unset_named_private_mode SwapScreenAndSetRestoreCursor t =
     (if has_mode t ALT_SCREEN then swap_alt t else Some t)"
| "unset_named_private_mode ShowCursor t = Some (remove_mode SHOW_CURSOR t)"
| "unset_named_private_mode CursorKeys t = Some (remove_mode APP_CURSOR t)"
| "unset_named_private_mode ReportMouseClicks t =
     Some (send_event MouseCursorDirty (remove_mode MOUSE_REPORT_CLICK t))"
| "unset_named_private_mode ReportCellMouseMotion t =
     Some (send_event MouseCursorDirty (remove_mode MOUSE_DRAG t))"
| "unset_named_private_mode ReportAllMouseMotion t =
     Some (send_event MouseCursorDirty (remove_mode MOUSE_MOTION t))"
| "unset_named_private_mode ReportFocusInOut t = Some (remove_mode FOCUS_IN_OUT t)"
| "unset_named_private_mode BracketedPaste t = Some (remove_mode BRACKETED_PASTE t)"
| "unset_named_private_mode SgrMouse t = Some (remove_mode SGR_MOUSE t)"
| "unset_named_private_mode Utf8Mouse t = Some (remove_mode UTF8_MOUSE t)"
| "unset_named_private_mode AlternateScroll t = Some (remove_mode ALTERNATE_SCROLL t)"
| "unset_named_private_mode LineWrap t = Some (remove_mode LINE_WRAP t)"
| "unset_named_private_mode Origin t = Some (remove_mode ORIGIN t)"
| "unset_named_private_mode ColumnMode t = deccolm t"
| "unset_named_private_mode BlinkingCursor t =
     Some (send_event CursorBlinkingChange (with_cursor_style (\<lambda>s. s\<lparr>cs_blinking := False\<rparr>) t))"
| "unset_named_private_mode SyncUpdate t = Some t"

fun unset_private_mode :: "private_mode \<Rightarrow> terminal \<Rightarrow> terminal option" where
  "unset_private_mode (NamedPrivate m) t = unset_named_private_mode m t"
| "unset_private_mode (UnknownPrivate n) t = Some t"

datatype mode_state = NotSupported | StateSet | StateReset

fun mode_state_code :: "mode_state \<Rightarrow> nat" where
  "mode_state_code NotSupported = 0"
| "mode_state_code StateSet = 1"
| "mode_state_code StateReset = 2"

definition mode_state_of :: "bool \<Rightarrow> mode_state" where
  "mode_state_of b = (if b then StateSet else StateReset)"

fun private_mode_flag :: "named_private_mode \<Rightarrow> term_mode" where
  "private_mode_flag CursorKeys = APP_CURSOR"
| "private_mode_flag Origin = ORIGIN"
| "private_mode_flag LineWrap = LINE_WRAP"
| "private_mode_flag ShowCursor = SHOW_CURSOR"
| "private_mode_flag ReportMouseClicks = MOUSE_REPORT_CLICK"
| "private_mode_flag ReportCellMouseMotion = MOUSE_DRAG"
| "private_mode_flag ReportAllMouseMotion = MOUSE_MOTION"
| "private_mode_flag ReportFocusInOut = FOCUS_IN_OUT"
| "private_mode_flag Utf8Mouse = UTF8_MOUSE"
| "private_mode_flag SgrMouse = SGR_MOUSE"
| "private_mode_flag AlternateScroll = ALTERNATE_SCROLL"
| "private_mode_flag UrgencyHints = URGENCY_HINTS"
| "private_mode_flag SwapScreenAndSetRestoreCursor = ALT_SCREEN"
| "private_mode_flag BracketedPaste = BRACKETED_PASTE"
| "private_mode_flag _ = 0"

text \<open>The reported state; for the cursor style the query itself stores the default style.\<close>

definition private_mode_state :: "private_mode \<Rightarrow> terminal \<Rightarrow> terminal \<times> mode_state" where
  "private_mode_state m t =
     (case m of
        NamedPrivate n \<Rightarrow>
          (if n = BlinkingCursor
           then let t = with_cursor_style id t
                in (t, mode_state_of (case t_cursor_style t of Some s \<Rightarrow> cs_blinking s | None \<Rightarrow> False))
           else if n = SyncUpdate then (t, StateReset)
           else if n = ColumnMode then (t, NotSupported)
           else (t, mode_state_of (has_mode t (private_mode_flag n))))
      | UnknownPrivate _ \<Rightarrow> (t, NotSupported))"

definition report_private_mode :: "externals \<Rightarrow> private_mode \<Rightarrow> terminal \<Rightarrow> terminal" where
  "report_private_mode x m t =
     (let (t, st) = private_mode_state m t
      in send_event (PtyWrite (esc ''[?'' @ dec (x_private_mode_raw x m) @ lit '';''
           @ dec (mode_state_code st) @ lit ''$y'')) t)"

fun set_mode :: "mode \<Rightarrow> terminal \<Rightarrow> terminal" where
  "set_mode (NamedMode Insert) t = insert_mode INSERT t"
| "set_mode (NamedMode LineFeedNewLine) t = insert_mode LINE_FEED_NEW_LINE t"
| "set_mode (UnknownMode n) t = t"

fun unset_mode :: "mode \<Rightarrow> terminal \<Rightarrow> terminal" where
  "unset_mode (NamedMode Insert) t = mark_fully_damaged (remove_mode INSERT t)"
| "unset_mode (NamedMode LineFeedNewLine) t = remove_mode LINE_FEED_NEW_LINE t"
| "unset_mode (UnknownMode n) t = t"

fun public_mode_state :: "mode \<Rightarrow> terminal \<Rightarrow> mode_state" where
  "public_mode_state (NamedMode Insert) t = mode_state_of (has_mode t INSERT)"
| "public_mode_state (NamedMode LineFeedNewLine) t = mode_state_of (has_mode t LINE_FEED_NEW_LINE)"
| "public_mode_state (UnknownMode n) t = NotSupported"

definition report_mode :: "externals \<Rightarrow> mode \<Rightarrow> terminal \<Rightarrow> terminal" where
  "report_mode x m t =
     send_event (PtyWrite (esc ''['' @ dec (x_mode_raw x m) @ lit '';''
       @ dec (mode_state_code (public_mode_state m t)) @ lit ''$y'')) t"

definition set_keypad_application_mode :: "terminal \<Rightarrow> terminal" where
  "set_keypad_application_mode t = insert_mode APP_KEYPAD t"

definition unset_keypad_application_mode :: "terminal \<Rightarrow> terminal" where
  "unset_keypad_application_mode t = remove_mode APP_KEYPAD t"

definition configure_charset :: "charset_index \<Rightarrow> standard_charset \<Rightarrow> terminal \<Rightarrow> terminal" where
  "configure_charset i cs t = upd_cursor (\<lambda>c. c\<lparr>cu_charsets := (cu_charsets c)(i := cs)\<rparr>) t"

definition set_active_charset :: "charset_index \<Rightarrow> terminal \<Rightarrow> terminal" where
  "set_active_charset i t = t\<lparr>t_active_charset := i\<rparr>"

definition set_cursor_style :: "cursor_style option \<Rightarrow> terminal \<Rightarrow> terminal" where
  "set_cursor_style style t = send_event CursorBlinkingChange (t\<lparr>t_cursor_style := style\<rparr>)"

definition set_cursor_shape :: "cursor_shape \<Rightarrow> terminal \<Rightarrow> terminal" where
  "set_cursor_shape shape t = with_cursor_style (\<lambda>s. s\<lparr>cs_shape := shape\<rparr>) t"

subsection \<open>Titles and sizes\<close>

definition set_title :: "ustring option \<Rightarrow> terminal \<Rightarrow> terminal" where
  "set_title title t =
     send_event (case title of Some s \<Rightarrow> Title s | None \<Rightarrow> ResetTitle) (t\<lparr>t_title := title\<rparr>)"

definition push_title :: "terminal \<Rightarrow> terminal" where
  "push_title t =
     (let st = (if length (t_title_stack t) \<ge> TITLE_STACK_MAX_DEPTH then tl (t_title_stack t)
                else t_title_stack t)
      in t\<lparr>t_title_stack := st @ [t_title t]\<rparr>)"

definition pop_title :: "terminal \<Rightarrow> terminal" where
  "pop_title t =
     (if t_title_stack t = [] then t
      else set_title (last (t_title_stack t)) (t\<lparr>t_title_stack := butlast (t_title_stack t)\<rparr>))"

text \<open>The formatter multiplies 16-bit numbers; a release build wraps around.\<close>

definition text_area_response :: "window_size \<Rightarrow> ustring" where
  "text_area_response w =
     (let height = ws_num_lines w * ws_cell_height w;
          width = ws_num_cols w * ws_cell_width w
      in esc ''[4;'' @ dec (unat height) @ lit '';'' @ dec (unat width) @ lit ''t'')"

definition text_area_size_pixels :: "terminal \<Rightarrow> terminal" where
  "text_area_size_pixels t = send_event (TextAreaSizeRequest text_area_response) t"

definition text_area_size_chars :: "terminal \<Rightarrow> terminal" where
  "text_area_size_chars t =
     send_event (PtyWrite (esc ''[8;'' @ dec (screen_lines (t_dims t)) @ lit '';''
       @ dec (columns (t_dims t)) @ lit ''t'')) t"

end
