(* ===== verification/Grid_Cells.thy ===== *)
theory Grid_Cells
  imports Grid
begin

text \<open>
  Writing cells: the effect of the grid's mutable accesses seen cell by cell. \<open>cells_post g h g'\<close> says that \<open>g'\<close> is
  a well-formed grid with the frame and the size of \<open>g\<close> whose cells are given by \<open>h\<close>. Every way the terminal writes
  to a row (one cell, a range of columns, a permutation of the whole row) has one lemma here.
\<close>

definition cells_post :: "grid \<Rightarrow> (point \<Rightarrow> cell) \<Rightarrow> grid \<Rightarrow> bool" where
  "cells_post g h g' \<longleftrightarrow> grid_core_ok g' \<and> raw_frame g g' \<and> st_len (g_raw g') = st_len (g_raw g)
     \<and> (\<forall>p. in_grid (grid_dims g) p \<longrightarrow> g_cell g' p = h p)"

lemma cells_post_dims: "cells_post g h g' \<Longrightarrow> grid_dims g' = grid_dims g"
  by (auto simp: cells_post_def raw_frame_def same_frame_def grid_dims_def)

lemma cells_post_core: "cells_post g h g' \<Longrightarrow> grid_core_ok g'"
  by (simp add: cells_post_def)

lemma cells_post_frame: "cells_post g h g' \<Longrightarrow> raw_frame g g'"
  by (simp add: cells_post_def)

lemma cells_post_cell: "cells_post g h g' \<Longrightarrow> in_grid (grid_dims g) p \<Longrightarrow> g_cell g' p = h p"
  by (simp add: cells_post_def)

lemma cells_post_cong:
  "cells_post g h g' \<Longrightarrow> (\<And>p. in_grid (grid_dims g) p \<Longrightarrow> h p = h' p) \<Longrightarrow> cells_post g h' g'"
  by (simp add: cells_post_def)

lemma cells_post_refl: "grid_core_ok g \<Longrightarrow> cells_post g (g_cell g) g"
  by (simp add: cells_post_def)

lemma cells_post_trans:
  "cells_post g h g' \<Longrightarrow> cells_post g' h' g'' \<Longrightarrow> cells_post g h' g''"
  using cells_post_dims [of g h g'] by (auto simp: cells_post_def intro: raw_frame_trans)

lemma grid_mod_row_cells:
  assumes g: "grid_core_ok g" and l: "g_valid g l"
    and f: "returns (f (g_row g l)) (\<lambda>r. cell_row_ok (g_columns g) r
       \<and> (\<forall>i < g_columns g. row_inner r ! i = h (Point l i)))"
  shows "returns (grid_mod_row l f g) (cells_post g (\<lambda>p. if p_line p = l then h p else g_cell g p))"
proof -
  obtain r where r: "f (g_row g l) = Some r" "cell_row_ok (g_columns g) r"
    "\<And>i. i < g_columns g \<Longrightarrow> row_inner r ! i = h (Point l i)"
    using f by (auto simp: returns_def)
  have "g_cell g' p = (if p_line p = l then h p else g_cell g p)"
    if "\<forall>l'. g_valid g l' \<longrightarrow> g_row g' l' = (if l' = l then r else g_row g l')" "in_grid (grid_dims g) p" for g' p
    using that r(3) [of "p_column p"] by (cases p) (auto simp: g_cell_def in_grid_def g_valid_def)
  then show ?thesis
    using grid_mod_row_returns [of g l f r, OF g l r(1,2)]
    by (auto simp: cells_post_def elim!: returns_mono)
qed

lemma grid_mod_cells:
  assumes g: "grid_core_ok g" and p: "in_grid (grid_dims g) p"
  shows "returns (grid_mod p f g) (cells_post g ((g_cell g)(p := f (g_cell g p))))"
  unfolding grid_mod_def
proof (rule returns_mono [OF grid_mod_row_cells
      [OF g, where h = "(g_cell g)(p := f (g_cell g p))"]], goal_cases)
  case 1
  then show ?case using p by (simp add: in_grid_def g_valid_def)
next
  case 2
  have len: "length (row_inner (g_row g (p_line p))) = g_columns g" using g by (rule g_row_len)
  have c: "p_column p < g_columns g" using p by (simp add: in_grid_def)
  show ?case
  proof (rule returns_conj)
    show "returns (row_mod (p_column p) f (g_row g (p_line p))) (cell_row_ok (g_columns g))"
      by (rule cell.row_mod_ok [OF g_row_ok [OF g] c])
    show "returns (row_mod (p_column p) f (g_row g (p_line p))) (\<lambda>r. \<forall>i < g_columns g.
        row_inner r ! i = ((g_cell g)(p := f (g_cell g p))) (Point (p_line p) i))"
      using len c by (cases p) (auto simp: row_mod_def g_cell_def nth_list_update)
  qed
next
  case (3 g')
  then show ?case by (rule cells_post_cong) (auto simp: fun_upd_def)
qed

lemma mod_cursor_cell_cells:
  "grid_core_ok g \<Longrightarrow> in_grid (grid_dims g) (cu_point (g_cursor g)) \<Longrightarrow>
   returns (mod_cursor_cell f g)
     (cells_post g ((g_cell g)(cu_point (g_cursor g) := f (g_cell g (cu_point (g_cursor g))))))"
  unfolding mod_cursor_cell_def by (rule grid_mod_cells)

text \<open>A range of columns of one line set to one cell.\<close>

definition fill_cells :: "grid \<Rightarrow> int \<Rightarrow> nat \<Rightarrow> nat \<Rightarrow> cell \<Rightarrow> point \<Rightarrow> cell" where
  "fill_cells g l a b x p = (if p_line p = l \<and> a \<le> p_column p \<and> p_column p < b then x else g_cell g p)"

lemma fill_row_cells:
  assumes g: "grid_core_ok g" and l: "g_valid g l" and ab: "a \<le> b" "b \<le> g_columns g"
    and ok: "returns (f (g_row g l)) (cell_row_ok (g_columns g))"
    and eq: "returns (f (g_row g l)) (\<lambda>r. row_inner r =
       take a (row_inner (g_row g l)) @ replicate (b - a) x @ drop b (row_inner (g_row g l)))"
  shows "returns (grid_mod_row l f g) (cells_post g (fill_cells g l a b x))"
proof (rule returns_mono [OF grid_mod_row_cells [OF g l, where h = "fill_cells g l a b x"]])
  have len: "length (row_inner (g_row g l)) = g_columns g" using g by (rule g_row_len)
  show "returns (f (g_row g l)) (\<lambda>r. cell_row_ok (g_columns g) r
       \<and> (\<forall>i < g_columns g. row_inner r ! i = fill_cells g l a b x (Point l i)))"
    by (rule returns_mono [OF returns_conj [OF ok eq]])
      (use ab len in \<open>auto simp: nth_fill fill_cells_def g_cell_def\<close>)
  show "cells_post g (fill_cells g l a b x) g'"
    if "cells_post g (\<lambda>p. if p_line p = l then fill_cells g l a b x p else g_cell g p) g'" for g'
    using that by (rule cells_post_cong) (simp add: fill_cells_def)
qed

lemma row_fill_cells:
  assumes "grid_core_ok g" "g_valid g l" "a \<le> b" "b \<le> g_columns g"
  shows "returns (grid_mod_row l (row_fill a b x) g) (cells_post g (fill_cells g l a b x))"
proof (rule fill_row_cells [OF assms])
  show "returns (row_fill a b x (g_row g l)) (cell_row_ok (g_columns g))"
    by (rule cell.row_fill_ok [OF g_row_ok [OF assms(1)] assms(3,4)])
  show "returns (row_fill a b x (g_row g l)) (\<lambda>r. row_inner r =
       take a (row_inner (g_row g l)) @ replicate (b - a) x @ drop b (row_inner (g_row g l)))"
    using assms g_row_len [OF assms(1), of l] by (simp add: row_fill_def)
qed

lemma row_fill_to_cells:
  assumes "grid_core_ok g" "g_valid g l" "b \<le> g_columns g"
  shows "returns (grid_mod_row l (row_fill_to b x) g) (cells_post g (fill_cells g l 0 b x))"
proof (rule fill_row_cells [OF assms(1,2) _ assms(3)])
  show "returns (row_fill_to b x (g_row g l)) (cell_row_ok (g_columns g))"
    by (rule cell.row_fill_to_ok [OF g_row_ok [OF assms(1)] assms(3)])
  show "returns (row_fill_to b x (g_row g l)) (\<lambda>r. row_inner r =
       take 0 (row_inner (g_row g l)) @ replicate (b - 0) x @ drop b (row_inner (g_row g l)))"
    using assms g_row_len [OF assms(1), of l] by (simp add: row_fill_to_def)
qed simp

lemma row_fill_from_cells:
  assumes "grid_core_ok g" "g_valid g l" "a \<le> g_columns g"
  shows "returns (grid_mod_row l (row_fill_from a x) g) (cells_post g (fill_cells g l a (g_columns g) x))"
proof (rule fill_row_cells [OF assms(1,2) assms(3)])
  show "returns (row_fill_from a x (g_row g l)) (cell_row_ok (g_columns g))"
    by (rule cell.row_fill_from_ok [OF g_row_ok [OF assms(1)] assms(3)])
  show "returns (row_fill_from a x (g_row g l)) (\<lambda>r. row_inner r =
       take a (row_inner (g_row g l)) @ replicate (g_columns g - a) x @ drop (g_columns g) (row_inner (g_row g l)))"
    using assms g_row_len [OF assms(1), of l] by (simp add: row_fill_from_def)
qed simp

text \<open>Rewriting a whole row through \<^verbatim>\<open>row[..]\<close>.\<close>

lemma row_full_mut_cells:
  assumes g: "grid_core_ok g" and l: "g_valid g l"
    and f: "returns (f (row_inner (g_row g l))) (\<lambda>v. length v = g_columns g
       \<and> (\<forall>i < g_columns g. v ! i = h i))"
  shows "returns (grid_mod_row l (row_full_mut f) g)
     (cells_post g (\<lambda>p. if p_line p = l then h (p_column p) else g_cell g p))"
proof (rule returns_mono [OF grid_mod_row_cells [OF g l, where h = "\<lambda>p. h (p_column p)"]])
  have "returns (row_full_mut f (g_row g l)) (cell_row_ok (g_columns g))"
    by (rule cell.row_full_mut_ok [OF g_row_ok [OF g]]) (rule returns_mono [OF f], simp)
  moreover have "returns (row_full_mut f (g_row g l)) (\<lambda>r. \<forall>i < g_columns g. row_inner r ! i = h i)"
    unfolding row_full_mut_def returns_bind returns_Some by (rule returns_mono [OF f]) simp
  ultimately show "returns (row_full_mut f (g_row g l)) (\<lambda>r. cell_row_ok (g_columns g) r
       \<and> (\<forall>i < g_columns g. row_inner r ! i = h (p_column (Point l i))))"
    using returns_conj by (simp add: returns_conj)
qed simp

text \<open>The two shifting loops: swapping cell \<open>a + i\<close> with cell \<open>b + i\<close>, \<open>a < b\<close>, from the right moves the cells from
  \<open>a\<close> on right to \<open>b\<close>, and from the left moves the cells from \<open>b\<close> on left to \<open>a\<close>.\<close>

lemma shift_right_loop:
  assumes "b + n = length v" "a \<le> b"
  shows "returns (mfold (\<lambda>i w. vswap w (b + i) (a + i)) (rev [0..<n]) v) (\<lambda>w. length w = length v
     \<and> (\<forall>j < a. w ! j = v ! j) \<and> (\<forall>j. b \<le> j \<and> j < length v \<longrightarrow> w ! j = v ! (j - (b - a))))"
proof (cases "a = b")
  case True
  show ?thesis
    by (rule mfold_rule [where I = "\<lambda>_ w. w = v"]) (use True assms in \<open>auto simp: vswap_def rev_nth\<close>)
next
  case False
  then have ab: "a < b" using assms by simp
  show ?thesis
  proof (rule mfold_rule [where I = "\<lambda>k w. length w = length v
       \<and> (\<forall>j < a + (n - k). w ! j = v ! j) \<and> (\<forall>j. b + (n - k) \<le> j \<and> j < length v \<longrightarrow> w ! j = v ! (j - (b - a)))"])
    fix k w
    assume k: "k < length (rev [0..<n])"
      and w: "length w = length v \<and> (\<forall>j < a + (n - k). w ! j = v ! j)
        \<and> (\<forall>j. b + (n - k) \<le> j \<and> j < length v \<longrightarrow> w ! j = v ! (j - (b - a)))"
    let ?i = "n - Suc k"
    have i: "rev [0..<n] ! k = ?i" "?i < n" "n - k = Suc ?i" using k by (auto simp: rev_nth)
    have lt: "b + ?i < length w" "a + ?i < length w" "a + ?i < b + ?i" using i(2) assms ab w by auto
    have "length (w[b + ?i := w ! (a + ?i), a + ?i := w ! (b + ?i)]) = length v" using w by simp
    moreover have "w[b + ?i := w ! (a + ?i), a + ?i := w ! (b + ?i)] ! j = v ! j" if "j < a + ?i" for j
      using that lt w i(3) by (simp add: nth_list_update)
    moreover have "w[b + ?i := w ! (a + ?i), a + ?i := w ! (b + ?i)] ! j = v ! (j - (b - a))"
      if j: "b + ?i \<le> j" "j < length v" for j
    proof (cases "j = b + ?i")
      case True
      then have "j - (b - a) = a + ?i" using ab by simp
      then show ?thesis using True lt w i(3) by (simp add: nth_list_update)
    next
      case False
      then show ?thesis using j lt w i(3) by (simp add: nth_list_update)
    qed
    ultimately show "returns (vswap w (b + rev [0..<n] ! k) (a + rev [0..<n] ! k)) (\<lambda>w. length w = length v
       \<and> (\<forall>j < a + (n - Suc k). w ! j = v ! j)
       \<and> (\<forall>j. b + (n - Suc k) \<le> j \<and> j < length v \<longrightarrow> w ! j = v ! (j - (b - a))))"
      using lt unfolding i(1) by simp
  qed (use assms in auto)
qed

lemma shift_left_loop:
  assumes "b + n = length v" "a \<le> b"
  shows "returns (mfold (\<lambda>i w. vswap w (a + i) (b + i)) [0..<n] v) (\<lambda>w. length w = length v
     \<and> (\<forall>j < a. w ! j = v ! j) \<and> (\<forall>j. a \<le> j \<and> j < a + n \<longrightarrow> w ! j = v ! (j + (b - a))))"
proof (cases "a = b")
  case True
  show ?thesis
    by (rule mfold_rule [where I = "\<lambda>_ w. w = v"]) (use True assms in \<open>auto simp: vswap_def\<close>)
next
  case False
  then have ab: "a < b" using assms by simp
  show ?thesis
  proof (rule mfold_rule [where I = "\<lambda>k w. length w = length v \<and> (\<forall>j < a. w ! j = v ! j)
       \<and> (\<forall>j. a \<le> j \<and> j < a + k \<longrightarrow> w ! j = v ! (j + (b - a)))
       \<and> (\<forall>j. b + k \<le> j \<and> j < length v \<longrightarrow> w ! j = v ! j)"])
    fix k w
    assume k: "k < length [0..<n]"
      and w: "length w = length v \<and> (\<forall>j < a. w ! j = v ! j)
       \<and> (\<forall>j. a \<le> j \<and> j < a + k \<longrightarrow> w ! j = v ! (j + (b - a)))
       \<and> (\<forall>j. b + k \<le> j \<and> j < length v \<longrightarrow> w ! j = v ! j)"
    have lt: "b + k < length w" "a + k < length w" "a + k < b + k" using k assms ab w by auto
    have "w[a + k := w ! (b + k), b + k := w ! (a + k)] ! j = v ! (j + (b - a))"
      if j: "a \<le> j" "j < a + Suc k" for j
    proof (cases "j = a + k")
      case True
      then have "j + (b - a) = b + k" using ab by simp
      then show ?thesis using True lt w by (simp add: nth_list_update add.commute)
    next
      case False
      then show ?thesis using j lt w by (simp add: nth_list_update)
    qed
    then show "returns (vswap w (a + [0..<n] ! k) (b + [0..<n] ! k)) (\<lambda>w. length w = length v
       \<and> (\<forall>j < a. w ! j = v ! j) \<and> (\<forall>j. a \<le> j \<and> j < a + Suc k \<longrightarrow> w ! j = v ! (j + (b - a)))
       \<and> (\<forall>j. b + Suc k \<le> j \<and> j < length v \<longrightarrow> w ! j = v ! j))"
      using lt w k by (simp add: nth_list_update)
  qed (use assms in auto)
qed

end
