(* ===== verification/Term_Invariant.thy ===== *)
theory Term_Invariant
  imports Term_Handler Grid_Cells
begin

text \<open>
  The invariant of the terminal and the operations it is built from.

  \<open>wf_term\<close>: both grids satisfy their invariant and have the same size, with at least the two columns
  \<^verbatim>\<open>MIN_COLUMNS\<close> demands; there is one tab flag per column and one damage entry per line; the scrolling region
  lies on the screen; the colour table is complete; the title stack is bounded. \<open>cells_step\<close> and \<open>moved\<close> describe
  the two most common effects of a handler: cells of the active grid change, or the cursor moves. Everything else
  of the terminal is the same, except for the damage record, which only grows.
\<close>

definition wf_term :: "terminal \<Rightarrow> bool" where
  "wf_term t \<longleftrightarrow>
     grid_ok (t_grid t) \<and> grid_ok (t_inactive_grid t)
     \<and> g_columns (t_inactive_grid t) = g_columns (t_grid t) \<and> g_lines (t_inactive_grid t) = g_lines (t_grid t)
     \<and> 2 \<le> g_columns (t_grid t)
     \<and> length (t_tabs t) = g_columns (t_grid t)
     \<and> damage_ok (g_lines (t_grid t)) (t_damage t)
     \<and> in_screen (grid_dims (t_grid t)) (dm_last_cursor (t_damage t))
     \<and> 0 \<le> fst (t_scroll_region t) \<and> fst (t_scroll_region t) \<le> snd (t_scroll_region t)
     \<and> snd (t_scroll_region t) \<le> int (g_lines (t_grid t))
     \<and> length (t_colors t) = COUNT
     \<and> length (t_title_stack t) \<le> TITLE_STACK_MAX_DEPTH"

lemma t_dims_sel [simp]:
  "screen_lines (t_dims t) = g_lines (t_grid t)" "columns (t_dims t) = g_columns (t_grid t)"
  "total_lines (t_dims t) = st_len (g_raw (t_grid t))"
  by (simp_all add: t_dims_def)

lemma wf_grid [simp]: "wf_term t \<Longrightarrow> grid_ok (t_grid t)"
  by (simp add: wf_term_def)

lemma wf_core [simp]: "wf_term t \<Longrightarrow> grid_core_ok (t_grid t)"
  by (simp add: wf_term_def grid_ok_def)

lemma wf_inactive_core: "wf_term t \<Longrightarrow> grid_core_ok (t_inactive_grid t)"
  by (simp add: wf_term_def grid_ok_def)

lemma wf_cols: "wf_term t \<Longrightarrow> 2 \<le> g_columns (t_grid t)"
  by (simp add: wf_term_def)

lemma wf_tabs: "wf_term t \<Longrightarrow> length (t_tabs t) = g_columns (t_grid t)"
  by (simp add: wf_term_def)

lemma wf_region:
  "wf_term t \<Longrightarrow> 0 \<le> fst (t_scroll_region t) \<and> fst (t_scroll_region t) \<le> snd (t_scroll_region t)
     \<and> snd (t_scroll_region t) \<le> int (g_lines (t_grid t))"
  by (simp add: wf_term_def)

lemma wf_lines: "wf_term t \<Longrightarrow> 1 \<le> g_lines (t_grid t)"
  using grid_core_ok_dims [of "t_grid t"] by (simp add: wf_dims_def)

lemma wf_cursor: "wf_term t \<Longrightarrow> in_screen (grid_dims (t_grid t)) (cu_point (t_cursor t))"
  by (simp add: wf_term_def grid_ok_def)

lemma wf_cursor_bounds:
  assumes "wf_term t"
  shows "0 \<le> p_line (cu_point (t_cursor t))" "p_line (cu_point (t_cursor t)) < int (g_lines (t_grid t))"
    "p_column (cu_point (t_cursor t)) < g_columns (t_grid t)"
  using wf_cursor [OF assms] by (auto simp: in_screen_def bottommost_line_def)

lemma wf_cursor_in_grid: "wf_term t \<Longrightarrow> in_grid (grid_dims (t_grid t)) (cu_point (t_cursor t))"
  by (rule in_screen_in_grid [OF wf_cursor])

lemma wf_cursor_valid: "wf_term t \<Longrightarrow> g_valid (t_grid t) (p_line (cu_point (t_cursor t)))"
  using wf_cursor_bounds [of t] by (simp add: g_screen_valid)

subsection \<open>Updates that do not touch the invariant\<close>

lemma wf_unrelated [simp]:
  "wf_term (t\<lparr>t_is_focused := b\<rparr>) = wf_term t" "wf_term (t\<lparr>t_vi_cursor := p\<rparr>) = wf_term t"
  "wf_term (t\<lparr>t_selection := s\<rparr>) = wf_term t" "wf_term (t\<lparr>t_active_charset := i\<rparr>) = wf_term t"
  "wf_term (t\<lparr>t_mode := m\<rparr>) = wf_term t" "wf_term (t\<lparr>t_cursor_style := cs\<rparr>) = wf_term t"
  "wf_term (t\<lparr>t_events := es\<rparr>) = wf_term t" "wf_term (t\<lparr>t_title := ti\<rparr>) = wf_term t"
  "wf_term (t\<lparr>t_keyboard_mode_stack := ks\<rparr>) = wf_term t"
  "wf_term (t\<lparr>t_inactive_keyboard_mode_stack := ks\<rparr>) = wf_term t" "wf_term (t\<lparr>t_config := c\<rparr>) = wf_term t"
  by (simp_all add: wf_term_def)

lemma wf_modes [simp]:
  "wf_term (insert_mode m t) = wf_term t" "wf_term (remove_mode m t) = wf_term t"
  "wf_term (send_event e t) = wf_term t" "wf_term (mark_fully_damaged t) = wf_term t"
  "wf_term (with_cursor_style f t) = wf_term t" "wf_term (apply_keyboard_mode m b t) = wf_term t"
  "wf_term (filter_selection lo hi t) = wf_term t"
  by (simp_all add: insert_mode_def remove_mode_def send_event_def mark_fully_damaged_def with_cursor_style_def
      apply_keyboard_mode_def filter_selection_def Let_def) (simp_all add: wf_term_def)

lemma grid_core_ok_cursor [simp]:
  "grid_core_ok (g\<lparr>g_cursor := c\<rparr>) = grid_core_ok g" "grid_core_ok (g\<lparr>g_saved_cursor := c\<rparr>) = grid_core_ok g"
  by (simp_all add: grid_core_ok_def history_size_def)

lemma grid_dims_cursor [simp]:
  "grid_dims (g\<lparr>g_cursor := c\<rparr>) = grid_dims g" "grid_dims (g\<lparr>g_saved_cursor := c\<rparr>) = grid_dims g"
  by (simp_all add: grid_dims_def)

lemma g_cell_cursor [simp]:
  "g_cell (g\<lparr>g_cursor := c\<rparr>) = g_cell g" "g_cell (g\<lparr>g_saved_cursor := c\<rparr>) = g_cell g"
  by (simp_all add: g_cell_def g_row_def fun_eq_iff)

lemma wf_upd_cursor:
  "wf_term t \<Longrightarrow> in_screen (grid_dims (t_grid t)) (cu_point (f (t_cursor t))) \<Longrightarrow> wf_term (upd_cursor f t)"
  by (simp add: wf_term_def upd_cursor_def grid_ok_def)

lemma wf_upd_template [simp]: "wf_term t \<Longrightarrow> wf_term (upd_template f t)"
  unfolding upd_template_def by (rule wf_upd_cursor) (simp_all add: wf_cursor)

lemma wf_set_needs_wrap [simp]: "wf_term t \<Longrightarrow> wf_term (set_needs_wrap b t)"
  unfolding set_needs_wrap_def by (rule wf_upd_cursor) (simp_all add: wf_cursor)

lemma wf_set_cursor_column: "wf_term t \<Longrightarrow> c < g_columns (t_grid t) \<Longrightarrow> wf_term (set_cursor_column c t)"
  unfolding set_cursor_column_def by (rule wf_upd_cursor) (use wf_cursor [of t] in \<open>auto simp: in_screen_def\<close>)

lemma wf_set_cursor_line:
  "wf_term t \<Longrightarrow> 0 \<le> l \<Longrightarrow> l < int (g_lines (t_grid t)) \<Longrightarrow> wf_term (set_cursor_line l t)"
  unfolding set_cursor_line_def
  by (rule wf_upd_cursor) (use wf_cursor [of t] in \<open>auto simp: in_screen_def bottommost_line_def\<close>)

lemma wf_term_grid:
  assumes "wf_term t" "grid_core_ok g'" "same_frame (t_grid t) g'"
  shows "wf_term (t\<lparr>t_grid := g'\<rparr>)"
  using assms grid_ok_frame [of "t_grid t" g'] in_screen_frame [of "t_grid t" g']
  by (auto simp: wf_term_def same_frame_def)

lemma wf_term_cells: "wf_term t \<Longrightarrow> cells_post (t_grid t) h g' \<Longrightarrow> wf_term (t\<lparr>t_grid := g'\<rparr>)"
  by (rule wf_term_grid) (auto simp: cells_post_def raw_frame_def)

subsection \<open>Verification conditions\<close>

lemma on_grid_returns [wp]: "returns (on_grid f t) Q \<longleftrightarrow> returns (f (t_grid t)) (\<lambda>g. Q (t\<lparr>t_grid := g\<rparr>))"
  by (simp add: on_grid_def)

lemma on_damage_returns [wp]: "returns (on_damage f t) Q \<longleftrightarrow> returns (f (t_damage t)) (\<lambda>d. Q (t\<lparr>t_damage := d\<rparr>))"
  by (simp add: on_damage_def)

text \<open>The damage record after some more marks.\<close>

definition damage_step :: "terminal \<Rightarrow> damage_state \<Rightarrow> bool" where
  "damage_step t d \<longleftrightarrow> damage_ok (g_lines (t_grid t)) d \<and> damage_grows (t_damage t) d
     \<and> dm_full d = dm_full (t_damage t) \<and> dm_last_cursor d = dm_last_cursor (t_damage t)"

lemma damage_step_refl: "wf_term t \<Longrightarrow> damage_step t (t_damage t)"
  by (simp add: damage_step_def wf_term_def)

lemma damage_step_trans:
  "damage_step t d \<Longrightarrow> damage_step t' d' \<Longrightarrow> t_damage t' = d \<Longrightarrow> g_lines (t_grid t') = g_lines (t_grid t) \<Longrightarrow>
   damage_step t d'"
  by (auto simp: damage_step_def intro: damage_grows_trans)

lemma wf_damage [simp]: "wf_term t \<Longrightarrow> damage_step t d \<Longrightarrow> wf_term (t\<lparr>t_damage := d\<rparr>)"
  by (simp add: wf_term_def damage_step_def)

lemma term_damage_line_wp:
  assumes "wf_term t" "0 \<le> l" "l < int (g_lines (t_grid t))"
    and "\<And>d. damage_step t d \<Longrightarrow> (\<And>c. a \<le> c \<Longrightarrow> c \<le> b \<Longrightarrow> damaged_cell d (nat l) c) \<Longrightarrow> Q (t\<lparr>t_damage := d\<rparr>)"
  shows "returns (term_damage_line l a b t) Q"
proof -
  have ok: "damage_ok (g_lines (t_grid t)) (t_damage t)" "nat l < g_lines (t_grid t)"
    using assms(1-3) by (auto simp: wf_term_def)
  have "returns (damage_line (nat l) a b (t_damage t)) (\<lambda>d. Q (t\<lparr>t_damage := d\<rparr>))"
    by (rule returns_mono [OF damage_line_returns [OF ok]]) (rule assms(4), auto simp: damage_step_def)
  then show ?thesis using assms(2) by (simp add: term_damage_line_def wp)
qed

lemma damage_cursor_wp:
  assumes t: "wf_term t"
    and "\<And>d. damage_step t d \<Longrightarrow> damaged_cell d (nat (p_line (cu_point (t_cursor t)))) (p_column (cu_point (t_cursor t)))
      \<Longrightarrow> Q (t\<lparr>t_damage := d\<rparr>)"
  shows "returns (damage_cursor t) Q"
proof -
  have "returns (term_damage_line (p_line (cu_point (t_cursor t))) (p_column (cu_point (t_cursor t)))
      (p_column (cu_point (t_cursor t))) t) Q"
    by (rule term_damage_line_wp [OF t]) (use wf_cursor_bounds [OF t] assms(2) in auto)
  then show ?thesis
    by (simp add: damage_cursor_def term_damage_line_def damage_point_def)
qed

subsection \<open>Cursor movement\<close>

definition moved :: "point \<Rightarrow> terminal \<Rightarrow> terminal \<Rightarrow> bool" where
  "moved p t t' \<longleftrightarrow> (\<exists>d. damage_step t d
     \<and> t' = (upd_cursor (\<lambda>c. c\<lparr>cu_point := p, cu_input_needs_wrap := False\<rparr>) t)\<lparr>t_damage := d\<rparr>)"

lemma damage_step_cursor [simp]: "damage_step (upd_cursor f t) d = damage_step t d"
  by (simp add: damage_step_def upd_cursor_def)

lemma moved_wf:
  assumes t: "wf_term t" "in_screen (grid_dims (t_grid t)) p" and m: "moved p t t'"
  shows "wf_term t'"
proof -
  obtain d where d: "damage_step t d"
    "t' = (upd_cursor (\<lambda>c. c\<lparr>cu_point := p, cu_input_needs_wrap := False\<rparr>) t)\<lparr>t_damage := d\<rparr>"
    using m by (auto simp: moved_def)
  have "wf_term (upd_cursor (\<lambda>c. c\<lparr>cu_point := p, cu_input_needs_wrap := False\<rparr>) t)"
    by (rule wf_upd_cursor [OF t(1)]) (simp add: t(2))
  then show ?thesis unfolding d(2) by (rule wf_damage) (simp add: d(1))
qed

lemma moved_cursor: "moved p t t' \<Longrightarrow> t_cursor t' = (t_cursor t)\<lparr>cu_point := p, cu_input_needs_wrap := False\<rparr>"
  by (auto simp: moved_def upd_cursor_def)

text \<open>Where \<^verbatim>\<open>goto\<close> leaves the cursor.\<close>

definition goto_target :: "terminal \<Rightarrow> int \<Rightarrow> nat \<Rightarrow> point" where
  "goto_target t line col =
     Point (if has_mode t ORIGIN
            then max (min (line + fst (t_scroll_region t)) (snd (t_scroll_region t) - 1)) 0
            else max (min line (int (g_lines (t_grid t)) - 1)) 0)
       (min col (g_columns (t_grid t) - 1))"

lemma goto_target_in_screen:
  assumes "wf_term t"
  shows "in_screen (grid_dims (t_grid t)) (goto_target t line col)"
  using wf_region [OF assms] wf_cols [OF assms] wf_lines [OF assms]
  by (auto simp: goto_target_def in_screen_def bottommost_line_def)

lemma goto_returns:
  assumes t: "wf_term t"
  shows "returns (goto line col t) (moved (goto_target t line col) t)"
proof -
  let ?y = "p_line (goto_target t line col)"
  have s: "0 \<le> ?y" "?y < int (g_lines (t_grid t))" "p_column (goto_target t line col) < g_columns (t_grid t)"
    using goto_target_in_screen [OF t, of line col] by (auto simp: in_screen_def bottommost_line_def)
  have "returns (damage_cursor t) (\<lambda>t1. returns (damage_cursor
      (set_cursor_column (min col (last_column (t_dims (set_cursor_line ?y t1)))) (set_cursor_line ?y t1)))
      (\<lambda>t2. moved (goto_target t line col) t (set_needs_wrap False t2)))"
  proof (rule damage_cursor_wp [OF t])
    fix d assume d: "damage_step t d"
    let ?t1 = "t\<lparr>t_damage := d\<rparr>"
    let ?t2 = "set_cursor_column (min col (last_column (t_dims (set_cursor_line ?y ?t1)))) (set_cursor_line ?y ?t1)"
    have eq: "?t2 = upd_cursor (\<lambda>c. c\<lparr>cu_point := goto_target t line col\<rparr>) ?t1"
      by (simp add: set_cursor_column_def set_cursor_line_def upd_cursor_def goto_target_def last_column_def)
    have wf: "wf_term ?t2"
      unfolding eq by (rule wf_upd_cursor) (use t d goto_target_in_screen [OF t] in auto)
    show "returns (damage_cursor ?t2) (\<lambda>t2. moved (goto_target t line col) t (set_needs_wrap False t2))"
    proof (rule damage_cursor_wp [OF wf])
      fix d' assume d': "damage_step ?t2 d'"
      have "damage_step t d'"
        by (rule damage_step_trans [OF d d']) (simp_all add: eq upd_cursor_def)
      then show "moved (goto_target t line col) t (set_needs_wrap False (?t2\<lparr>t_damage := d'\<rparr>))"
        unfolding eq moved_def by (intro exI [of _ d']) (simp add: set_needs_wrap_def upd_cursor_def)
    qed
  qed
  then show ?thesis
    by (simp add: goto_def Let_def goto_target_def bottommost_line_def split: if_splits)
qed

lemma goto_wf: "wf_term t \<Longrightarrow> returns (goto line col t) wf_term"
  by (rule returns_mono [OF goto_returns]) (auto intro: moved_wf goto_target_in_screen)

lemma move_forward_returns:
  assumes t: "wf_term t"
  shows "returns (move_forward n t) (moved (Point (p_line (cu_point (t_cursor t)))
     (min (p_column (cu_point (t_cursor t)) + n) (g_columns (t_grid t) - 1))) t)"
  unfolding move_forward_def Let_def returns_bind
  by (rule term_damage_line_wp [OF t])
    (use wf_cursor_bounds [OF t] in
      \<open>auto simp: moved_def last_column_def set_needs_wrap_def set_cursor_column_def upd_cursor_def\<close>)

lemma move_backward_returns:
  assumes t: "wf_term t"
  shows "returns (move_backward n t) (moved (Point (p_line (cu_point (t_cursor t)))
     (p_column (cu_point (t_cursor t)) - n)) t)"
  unfolding move_backward_def Let_def returns_bind
  by (rule term_damage_line_wp [OF t])
    (use wf_cursor_bounds [OF t] in
      \<open>auto simp: moved_def set_needs_wrap_def set_cursor_column_def upd_cursor_def\<close>)

lemma carriage_return_returns:
  assumes t: "wf_term t"
  shows "returns (carriage_return t) (moved (Point (p_line (cu_point (t_cursor t))) 0) t)"
  unfolding carriage_return_def Let_def returns_bind
  by (rule term_damage_line_wp [OF t])
    (use wf_cursor_bounds [OF t] in
      \<open>auto simp: moved_def set_needs_wrap_def set_cursor_column_def upd_cursor_def\<close>)

end
