(* ===== verification/Term_Safety.thy ===== *)
theory Term_Safety
  imports Term_Invariant
begin

text \<open>
  No handler panics, and every handler keeps the invariant of the terminal; what each of them does to the screen.

  The lemmas follow the order of the handler. They are total: from a terminal that satisfies \<open>wf_term\<close> the operation
  returns, and the result satisfies a postcondition that implies \<open>wf_term\<close>.
\<close>

subsection \<open>Frames\<close>

text \<open>All but the grid, the selection, the vi mode cursor and the damage record is the same.\<close>

definition t_frame :: "terminal \<Rightarrow> terminal \<Rightarrow> bool" where
  "t_frame t t' \<longleftrightarrow> t' = t\<lparr>t_grid := t_grid t', t_selection := t_selection t', t_vi_cursor := t_vi_cursor t',
     t_damage := t_damage t'\<rparr>"

lemma t_frame_refl [simp]: "t_frame t t"
  by (simp add: t_frame_def)

lemma t_frame_trans:
  assumes "t_frame t t'" "t_frame t' t''"
  shows "t_frame t t''"
proof -
  have "t'' = (t\<lparr>t_grid := t_grid t', t_selection := t_selection t', t_vi_cursor := t_vi_cursor t',
      t_damage := t_damage t'\<rparr>)\<lparr>t_grid := t_grid t'', t_selection := t_selection t'',
      t_vi_cursor := t_vi_cursor t'', t_damage := t_damage t''\<rparr>"
    using assms unfolding t_frame_def by metis
  then show ?thesis unfolding t_frame_def by simp
qed

lemma t_frame_upd [simp]:
  "t_frame t (t\<lparr>t_grid := g\<rparr>)" "t_frame t (t\<lparr>t_selection := s\<rparr>)" "t_frame t (t\<lparr>t_vi_cursor := p\<rparr>)"
  "t_frame t (t\<lparr>t_damage := d\<rparr>)" "t_frame t (mark_fully_damaged t)" "t_frame t (upd_cursor f t)"
  "t_frame t (filter_selection lo hi t)"
  by (simp_all add: t_frame_def mark_fully_damaged_def upd_cursor_def filter_selection_def)

lemma t_frameD:
  assumes "t_frame t t'"
  shows "t_mode t' = t_mode t" "t_scroll_region t' = t_scroll_region t" "t_tabs t' = t_tabs t"
    "t_inactive_grid t' = t_inactive_grid t" "t_config t' = t_config t" "t_events t' = t_events t"
    "t_colors t' = t_colors t" "t_active_charset t' = t_active_charset t" "t_title_stack t' = t_title_stack t"
    "has_mode t' m = has_mode t m"
proof -
  have eq: "t' = t\<lparr>t_grid := t_grid t', t_selection := t_selection t', t_vi_cursor := t_vi_cursor t',
     t_damage := t_damage t'\<rparr>" using assms by (simp only: t_frame_def)
  show "t_mode t' = t_mode t" "t_scroll_region t' = t_scroll_region t" "t_tabs t' = t_tabs t"
    "t_inactive_grid t' = t_inactive_grid t" "t_config t' = t_config t" "t_events t' = t_events t"
    "t_colors t' = t_colors t" "t_active_charset t' = t_active_charset t" "t_title_stack t' = t_title_stack t"
    by (subst eq, simp)+
  then show "has_mode t' m = has_mode t m" by (simp add: has_mode_def)
qed

lemma moved_frame: "moved p t t' \<Longrightarrow> t_frame t t'"
  by (auto simp: moved_def t_frame_def upd_cursor_def)

subsection \<open>Scrolling\<close>

lemma mark_damaged_sel [simp]:
  "t_grid (mark_fully_damaged t) = t_grid t" "dm_full (t_damage (mark_fully_damaged t))"
  by (simp_all add: mark_fully_damaged_def)

lemma vi_scroll_sel [simp]:
  "wf_term (vi_scroll_up r k t) = wf_term t" "wf_term (vi_scroll_down r k t) = wf_term t"
  "t_grid (vi_scroll_up r k t) = t_grid t" "t_grid (vi_scroll_down r k t) = t_grid t"
  "t_frame t (vi_scroll_up r k t)" "t_frame t (vi_scroll_down r k t)"
  by (simp_all add: vi_scroll_up_def vi_scroll_down_def Let_def)

lemma scroll_up_relative_returns:
  assumes t: "wf_term t" and o: "0 \<le> origin" "origin \<le> snd (t_scroll_region t)"
  shows "returns (scroll_up_relative origin lines t) (\<lambda>t'. wf_term t' \<and> t_frame t t' \<and> dm_full (t_damage t')
     \<and> scroll_up_post origin (snd (t_scroll_region t))
         (min lines (nat (snd (t_scroll_region t) - fst (t_scroll_region t)))) (t_grid t) (t_grid t'))"
proof -
  let ?k = "min lines (nat (snd (t_scroll_region t) - fst (t_scroll_region t)))"
  let ?r = "(origin, snd (t_scroll_region t))"
  let ?t1 = "t\<lparr>t_selection := Option.bind (t_selection t) (selection_rotate (t_dims t) ?r (int ?k))\<rparr>"
  have reg: "fst (t_scroll_region t) \<le> snd (t_scroll_region t)" using wf_region [OF t] by simp
  have "returns (grid_scroll_up ?r ?k (t_grid t)) (scroll_up_post origin (snd (t_scroll_region t)) ?k (t_grid t))"
    by (rule scroll_up_returns) (use wf_core [OF t] o wf_region [OF t] in auto)
  then have up: "returns (grid_scroll_up ?r ?k (t_grid ?t1)) (scroll_up_post origin (snd (t_scroll_region t)) ?k (t_grid t))"
    by simp
  have "returns (on_grid (grid_scroll_up ?r ?k) ?t1) (\<lambda>t2.
      wf_term (vi_scroll_up ?r ?k t2) \<and> t_frame t (mark_fully_damaged (vi_scroll_up ?r ?k t2))
      \<and> scroll_up_post origin (snd (t_scroll_region t)) ?k (t_grid t) (t_grid t2))"
    unfolding on_grid_returns
  proof (rule returns_mono [OF up])
    fix g assume p: "scroll_up_post origin (snd (t_scroll_region t)) ?k (t_grid t) g"
    have "wf_term (?t1\<lparr>t_grid := g\<rparr>)"
      by (rule wf_term_grid) (use p t in \<open>auto simp: scroll_up_post_def\<close>)
    moreover have "t_frame t (mark_fully_damaged (vi_scroll_up ?r ?k (?t1\<lparr>t_grid := g\<rparr>)))"
      by (rule t_frame_trans [OF t_frame_trans [OF t_frame_trans [OF t_frame_upd(2) t_frame_upd(1)] vi_scroll_sel(5)]
            t_frame_upd(5)])
    ultimately show "wf_term (vi_scroll_up ?r ?k (?t1\<lparr>t_grid := g\<rparr>))
      \<and> t_frame t (mark_fully_damaged (vi_scroll_up ?r ?k (?t1\<lparr>t_grid := g\<rparr>)))
      \<and> scroll_up_post origin (snd (t_scroll_region t)) ?k (t_grid t) (t_grid (?t1\<lparr>t_grid := g\<rparr>))"
      using p by simp
  qed
  then show ?thesis
    using reg unfolding scroll_up_relative_def Let_def returns_bind returns_as_usize returns_Some by simp
qed

lemma scroll_down_relative_returns:
  assumes t: "wf_term t" and o: "0 \<le> origin" "origin \<le> snd (t_scroll_region t)"
  shows "returns (scroll_down_relative origin lines t) (\<lambda>t'. wf_term t' \<and> t_frame t t' \<and> dm_full (t_damage t')
     \<and> scroll_down_post origin (snd (t_scroll_region t))
         (min (min lines (nat (snd (t_scroll_region t) - fst (t_scroll_region t)))) (nat (snd (t_scroll_region t) - origin)))
         (t_grid t) (t_grid t'))"
proof -
  let ?k = "min (min lines (nat (snd (t_scroll_region t) - fst (t_scroll_region t)))) (nat (snd (t_scroll_region t) - origin))"
  let ?r = "(origin, snd (t_scroll_region t))"
  let ?t1 = "vi_scroll_down ?r ?k
    (t\<lparr>t_selection := Option.bind (t_selection t) (selection_rotate (t_dims t) ?r (- int ?k))\<rparr>)"
  have reg: "fst (t_scroll_region t) \<le> snd (t_scroll_region t)" using wf_region [OF t] by simp
  have down: "returns (grid_scroll_down ?r ?k (t_grid ?t1)) (scroll_down_post origin (snd (t_scroll_region t)) ?k (t_grid t))"
    using scroll_down_returns [of "t_grid t" origin "snd (t_scroll_region t)" ?k] wf_core [OF t] o wf_region [OF t]
    by simp
  have "returns (on_grid (grid_scroll_down ?r ?k) ?t1) (\<lambda>t2. wf_term t2 \<and> t_frame t (mark_fully_damaged t2)
      \<and> scroll_down_post origin (snd (t_scroll_region t)) ?k (t_grid t) (t_grid t2))"
    unfolding on_grid_returns
  proof (rule returns_mono [OF down])
    fix g assume p: "scroll_down_post origin (snd (t_scroll_region t)) ?k (t_grid t) g"
    have "wf_term (?t1\<lparr>t_grid := g\<rparr>)"
      by (rule wf_term_grid) (use p t in \<open>auto simp: scroll_down_post_def raw_frame_def\<close>)
    moreover have "t_frame t (mark_fully_damaged (?t1\<lparr>t_grid := g\<rparr>))"
      by (rule t_frame_trans [OF t_frame_trans [OF t_frame_trans [OF t_frame_upd(2) vi_scroll_sel(6)] t_frame_upd(1)]
            t_frame_upd(5)])
    ultimately show "wf_term (?t1\<lparr>t_grid := g\<rparr>) \<and> t_frame t (mark_fully_damaged (?t1\<lparr>t_grid := g\<rparr>))
      \<and> scroll_down_post origin (snd (t_scroll_region t)) ?k (t_grid t) (t_grid (?t1\<lparr>t_grid := g\<rparr>))"
      using p by simp
  qed
  then show ?thesis
    using reg o unfolding scroll_down_relative_def Let_def returns_bind returns_as_usize returns_Some by simp
qed

subsection \<open>Line feeds and wrapping\<close>

definition linefeed_post :: "terminal \<Rightarrow> terminal \<Rightarrow> bool" where
  "linefeed_post t t' \<longleftrightarrow>
     (let l = p_line (cu_point (t_cursor t)) in
      if l + 1 = snd (t_scroll_region t)
      then scroll_up_post (fst (t_scroll_region t)) (snd (t_scroll_region t))
             (min 1 (nat (snd (t_scroll_region t) - fst (t_scroll_region t)))) (t_grid t) (t_grid t')
      else t_grid t' = (t_grid t)\<lparr>g_cursor := (t_cursor t)
             \<lparr>cu_point := Point (min (l + 1) (int (g_lines (t_grid t)) - 1)) (p_column (cu_point (t_cursor t)))\<rparr>\<rparr>)"

lemma damage_cursor_returns:
  "wf_term t \<Longrightarrow> returns (damage_cursor t) (\<lambda>t'. wf_term t' \<and> t_frame t t' \<and> t_grid t' = t_grid t)"
  by (rule damage_cursor_wp) auto

lemma grid_set_cursor:
  "t_grid (set_cursor_line l t) = (t_grid t)\<lparr>g_cursor := (t_cursor t)\<lparr>cu_point := Point l (p_column (cu_point (t_cursor t)))\<rparr>\<rparr>"
  "t_grid (set_cursor_column c t) = (t_grid t)\<lparr>g_cursor := (t_cursor t)\<lparr>cu_point := Point (p_line (cu_point (t_cursor t))) c\<rparr>\<rparr>"
  "t_grid (set_needs_wrap b t) = (t_grid t)\<lparr>g_cursor := (t_cursor t)\<lparr>cu_input_needs_wrap := b\<rparr>\<rparr>"
  by (simp_all add: set_cursor_line_def set_cursor_column_def set_needs_wrap_def upd_cursor_def)

lemma t_frame_cursor [simp]:
  "t_frame t (set_cursor_line l t)" "t_frame t (set_cursor_column c t)" "t_frame t (set_needs_wrap b t)"
  "t_frame t (upd_template f t)"
  by (simp_all add: set_cursor_line_def set_cursor_column_def set_needs_wrap_def upd_template_def)

lemma move_line_returns:
  assumes t: "wf_term t" and l: "0 \<le> l" "l < int (g_lines (t_grid t))"
    and e: "\<And>t1. t_grid t1 = t_grid t \<Longrightarrow> e t1 = l"
  shows "returns (damage_cursor t) (\<lambda>t1. returns (damage_cursor (set_cursor_line (e t1) t1))
     (\<lambda>t'. wf_term t' \<and> t_frame t t' \<and> t_grid t' = t_grid (set_cursor_line l t)))"
proof (rule returns_mono [OF damage_cursor_returns [OF t]])
  fix t1 assume t1: "wf_term t1 \<and> t_frame t t1 \<and> t_grid t1 = t_grid t"
  have wf: "wf_term (set_cursor_line (e t1) t1)" by (rule wf_set_cursor_line) (use t1 l e in auto)
  show "returns (damage_cursor (set_cursor_line (e t1) t1))
     (\<lambda>t'. wf_term t' \<and> t_frame t t' \<and> t_grid t' = t_grid (set_cursor_line l t))"
    by (rule returns_mono [OF damage_cursor_returns [OF wf]])
      (use t1 e in \<open>auto simp: grid_set_cursor intro: t_frame_trans [OF t_frame_trans [OF _ t_frame_cursor(1)]]\<close>)
qed

lemma linefeed_returns:
  assumes t: "wf_term t"
  shows "returns (linefeed t) (\<lambda>t'. wf_term t' \<and> t_frame t t' \<and> linefeed_post t t')"
proof -
  let ?l = "p_line (cu_point (t_cursor t))"
  note b = wf_cursor_bounds [OF t] wf_region [OF t]
  consider "?l + 1 = snd (t_scroll_region t)"
    | "?l + 1 \<noteq> snd (t_scroll_region t)" "?l + 1 < int (g_lines (t_grid t))"
    | "?l + 1 \<noteq> snd (t_scroll_region t)" "\<not> ?l + 1 < int (g_lines (t_grid t))" by blast
  then show ?thesis
  proof cases
    case 1
    have "returns (scroll_up_relative (fst (t_scroll_region t)) 1 t) (\<lambda>t'. wf_term t' \<and> t_frame t t' \<and> linefeed_post t t')"
      by (rule returns_mono [OF scroll_up_relative_returns [OF t]]) (use 1 b in \<open>auto simp: linefeed_post_def\<close>)
    then show ?thesis
      using 1 by (simp add: linefeed_def term_scroll_up_def)
  next
    case 2
    have "returns (damage_cursor t) (\<lambda>t1. returns (damage_cursor
        (set_cursor_line (p_line (cu_point (t_cursor t1)) + 1) t1))
       (\<lambda>t'. wf_term t' \<and> t_frame t t' \<and> t_grid t' = t_grid (set_cursor_line (?l + 1) t)))"
      by (rule move_line_returns [OF t]) (use 2 b in auto)
    then have "returns (linefeed t) (\<lambda>t'. wf_term t' \<and> t_frame t t' \<and> t_grid t' = t_grid (set_cursor_line (?l + 1) t))"
      using 2 by (simp add: linefeed_def)
    then show ?thesis
      by (rule returns_mono) (use 2 in \<open>auto simp: linefeed_post_def grid_set_cursor Let_def min_def\<close>)
  next
    case 3
    then have "?l = int (g_lines (t_grid t)) - 1" using b by simp
    then have "Point (min (?l + 1) (int (g_lines (t_grid t)) - 1)) (p_column (cu_point (t_cursor t))) = cu_point (t_cursor t)"
      by (cases "cu_point (t_cursor t)") simp
    then show ?thesis
      using 3 t by (simp add: linefeed_def linefeed_post_def Let_def)
  qed
qed

lemma linefeed_cursor:
  assumes "linefeed_post t t'"
  shows "cu_template (t_cursor t') = cu_template (t_cursor t)" "cu_charsets (t_cursor t') = cu_charsets (t_cursor t)"
    "p_column (cu_point (t_cursor t')) = p_column (cu_point (t_cursor t))"
    "g_columns (t_grid t') = g_columns (t_grid t)" "g_lines (t_grid t') = g_lines (t_grid t)"
  using assms by (auto simp: linefeed_post_def scroll_up_post_def same_frame_def Let_def split: if_splits)

definition wrapline_post :: "terminal \<Rightarrow> terminal \<Rightarrow> bool" where
  "wrapline_post t t' \<longleftrightarrow> wf_term t' \<and> t_frame t t'
     \<and> cu_template (t_cursor t') = cu_template (t_cursor t) \<and> cu_charsets (t_cursor t') = cu_charsets (t_cursor t)
     \<and> g_columns (t_grid t') = g_columns (t_grid t) \<and> g_lines (t_grid t') = g_lines (t_grid t)
     \<and> (if has_mode t LINE_WRAP
        then p_column (cu_point (t_cursor t')) = 0 \<and> \<not> cu_input_needs_wrap (t_cursor t')
        else t' = t)"

lemma set_column_wrap_returns:
  assumes t: "wf_term t"
  shows "returns (damage_cursor (set_needs_wrap False (set_cursor_column 0 t))) (\<lambda>t'. wf_term t' \<and> t_frame t t'
     \<and> t_grid t' = t_grid (set_needs_wrap False (set_cursor_column 0 t)))"
proof -
  have wf: "wf_term (set_needs_wrap False (set_cursor_column 0 t))"
    by (intro wf_set_needs_wrap wf_set_cursor_column t) (use wf_cols [OF t] in simp)
  show ?thesis
    by (rule returns_mono [OF damage_cursor_returns [OF wf]])
      (auto intro: t_frame_trans [OF t_frame_trans [OF t_frame_cursor(2) t_frame_cursor(3)]])
qed

lemma wrap_cell_returns:
  assumes t: "wf_term t"
  shows "returns (on_grid (mod_cursor_cell f) t) (\<lambda>t'. wf_term t' \<and> t_frame t t'
     \<and> cells_post (t_grid t) ((g_cell (t_grid t))(cu_point (t_cursor t) := f (g_cell (t_grid t) (cu_point (t_cursor t)))))
         (t_grid t'))"
  unfolding on_grid_returns
  by (rule returns_mono [OF mod_cursor_cell_cells [OF wf_core [OF t] wf_cursor_in_grid [OF t]]])
    (auto intro: wf_term_cells [OF t])

lemma wrapline_move_returns:
  assumes t: "wf_term t"
  shows "returns (if p_line (cu_point (t_cursor t)) + 1 \<ge> snd (t_scroll_region t) then linefeed t
       else do { t \<leftarrow> damage_cursor t; Some (set_cursor_line (p_line (cu_point (t_cursor t)) + 1) t) })
     (\<lambda>t'. wf_term t' \<and> t_frame t t' \<and> linefeed_post t t')"
proof (cases "p_line (cu_point (t_cursor t)) + 1 \<ge> snd (t_scroll_region t)")
  case True
  then show ?thesis using linefeed_returns [OF t] by simp
next
  case False
  have b: "p_line (cu_point (t_cursor t)) + 1 < int (g_lines (t_grid t))" using False wf_region [OF t] by simp
  have "returns (damage_cursor t) (\<lambda>t1. wf_term (set_cursor_line (p_line (cu_point (t_cursor t1)) + 1) t1)
      \<and> t_frame t (set_cursor_line (p_line (cu_point (t_cursor t1)) + 1) t1)
      \<and> linefeed_post t (set_cursor_line (p_line (cu_point (t_cursor t1)) + 1) t1))"
    by (rule returns_mono [OF damage_cursor_returns [OF t]])
      (use b False wf_cursor_bounds [OF t] in \<open>auto simp: linefeed_post_def grid_set_cursor Let_def
        intro!: wf_set_cursor_line intro: t_frame_trans [OF _ t_frame_cursor(1)]\<close>)
  then show ?thesis using False by simp
qed

lemma wrapline_returns:
  assumes t: "wf_term t"
  shows "returns (wrapline t) (wrapline_post t)"
proof (cases "has_mode t LINE_WRAP")
  case False
  then show ?thesis using t by (simp add: wrapline_def wrapline_post_def)
next
  case True
  have "returns (wrapline t) (\<lambda>t'. wf_term t' \<and> t_frame t t'
     \<and> cu_template (t_cursor t') = cu_template (t_cursor t) \<and> cu_charsets (t_cursor t') = cu_charsets (t_cursor t)
     \<and> g_columns (t_grid t') = g_columns (t_grid t) \<and> g_lines (t_grid t') = g_lines (t_grid t)
     \<and> p_column (cu_point (t_cursor t')) = 0 \<and> \<not> cu_input_needs_wrap (t_cursor t'))"
    unfolding wrapline_def Let_def returns_bind if_not_P [OF not_not [THEN iffD2, OF True]]
  proof (rule returns_mono [OF wrap_cell_returns [OF t]], elim conjE)
    fix t1 h assume t1: "wf_term t1" "t_frame t t1" "cells_post (t_grid t) h (t_grid t1)"
    have f1: "same_frame (t_grid t) (t_grid t1)" using cells_post_frame [OF t1(3)] by (simp add: raw_frame_def)
    show "returns (if p_line (cu_point (t_cursor t1)) + 1 \<ge> snd (t_scroll_region t1) then linefeed t1
       else do { t \<leftarrow> damage_cursor t1; Some (set_cursor_line (p_line (cu_point (t_cursor t)) + 1) t) })
       (\<lambda>t2. returns (damage_cursor (set_needs_wrap False (set_cursor_column 0 t2))) (\<lambda>t'. wf_term t' \<and> t_frame t t'
     \<and> cu_template (t_cursor t') = cu_template (t_cursor t) \<and> cu_charsets (t_cursor t') = cu_charsets (t_cursor t)
     \<and> g_columns (t_grid t') = g_columns (t_grid t) \<and> g_lines (t_grid t') = g_lines (t_grid t)
     \<and> p_column (cu_point (t_cursor t')) = 0 \<and> \<not> cu_input_needs_wrap (t_cursor t')))"
    proof (rule returns_mono [OF wrapline_move_returns [OF t1(1)]], elim conjE)
      fix t2 assume t2: "wf_term t2" "t_frame t1 t2" "linefeed_post t1 t2"
      show "returns (damage_cursor (set_needs_wrap False (set_cursor_column 0 t2))) (\<lambda>t'. wf_term t' \<and> t_frame t t'
     \<and> cu_template (t_cursor t') = cu_template (t_cursor t) \<and> cu_charsets (t_cursor t') = cu_charsets (t_cursor t)
     \<and> g_columns (t_grid t') = g_columns (t_grid t) \<and> g_lines (t_grid t') = g_lines (t_grid t)
     \<and> p_column (cu_point (t_cursor t')) = 0 \<and> \<not> cu_input_needs_wrap (t_cursor t'))"
        by (rule returns_mono [OF set_column_wrap_returns [OF t2(1)]])
          (use linefeed_cursor [OF t2(3)] f1 t_frame_trans [OF t_frame_trans [OF t1(2) t2(2)]] in
            \<open>auto simp: grid_set_cursor same_frame_def\<close>)
    qed
  qed
  then show ?thesis by (rule returns_mono) (use True in \<open>simp add: wrapline_post_def\<close>)
qed

subsection \<open>Writing a character\<close>

text \<open>The cells after a write at \<open>p\<close>: overwriting one half of a wide character blanks or unmarks the other half, and
  the spacer a wide character left at the end of the line above.\<close>

definition unwide_half_cells :: "dims \<Rightarrow> point \<Rightarrow> bool \<Rightarrow> (point \<Rightarrow> cell) \<Rightarrow> point \<Rightarrow> cell" where
  "unwide_half_cells d p wide h =
     (let right = Point (p_line p) (p_column p + 1); left = Point (p_line p) (p_column p - 1) in
      if wide \<and> p_column p < last_column d then h(right := remove_flags WIDE_CHAR_SPACER (h right))
      else if p_column p > 0 then h(left := clear_wide (h left)) else h)"

definition unwide_above_cells :: "dims \<Rightarrow> point \<Rightarrow> (point \<Rightarrow> cell) \<Rightarrow> point \<Rightarrow> cell" where
  "unwide_above_cells d p h =
     (let above = Point (p_line p - 1) (last_column d) in
      if p_column p \<le> 1 \<and> p_line p \<noteq> topmost_line d
      then h(above := remove_flags LEADING_WIDE_CHAR_SPACER (h above)) else h)"

definition unwide_neighbours :: "grid \<Rightarrow> point \<Rightarrow> point \<Rightarrow> cell" where
  "unwide_neighbours g p =
     (if fl_intersects (c_flags (g_cell g p)) (WIDE_CHAR OR WIDE_CHAR_SPACER)
      then unwide_above_cells (grid_dims g) p
             (unwide_half_cells (grid_dims g) p (fl_contains (c_flags (g_cell g p)) WIDE_CHAR) (g_cell g))
      else g_cell g)"

definition written_cell :: "externals \<Rightarrow> uchar \<Rightarrow> terminal \<Rightarrow> cell" where
  "written_cell x ch t =
     (cu_template (t_cursor t))\<lparr>c_char := x_charset_map x (cu_charsets (t_cursor t) (t_active_charset t)) ch\<rparr>"

definition cells_step :: "(point \<Rightarrow> cell) \<Rightarrow> terminal \<Rightarrow> terminal \<Rightarrow> bool" where
  "cells_step h t t' \<longleftrightarrow> wf_term t' \<and> t_frame t t' \<and> cells_post (t_grid t) h (t_grid t')"

lemma cells_stepD:
  assumes "cells_step h t t'"
  shows "wf_term t'" "t_frame t t'" "cells_post (t_grid t) h (t_grid t')" "t_cursor t' = t_cursor t"
    "t_dims t' = t_dims t" "g_columns (t_grid t') = g_columns (t_grid t)" "g_lines (t_grid t') = g_lines (t_grid t)"
  using assms cells_post_dims [of "t_grid t" h "t_grid t'"]
  by (auto simp: cells_step_def cells_post_def raw_frame_def same_frame_def t_dims_def)

lemma cells_step_refl: "wf_term t \<Longrightarrow> cells_step (g_cell (t_grid t)) t t"
  by (simp add: cells_step_def cells_post_refl)

lemma cells_step_trans: "cells_step h t t' \<Longrightarrow> cells_step h' t' t'' \<Longrightarrow> cells_step h' t t''"
  by (auto simp: cells_step_def intro: t_frame_trans cells_post_trans)

lemma cells_step_cong:
  "cells_step h t t' \<Longrightarrow> (\<And>p. in_grid (grid_dims (t_grid t)) p \<Longrightarrow> h p = h' p) \<Longrightarrow> cells_step h' t t'"
  by (auto simp: cells_step_def intro: cells_post_cong)

lemma on_grid_cells:
  assumes "wf_term t" "returns (f (t_grid t)) (cells_post (t_grid t) h)"
  shows "returns (on_grid f t) (cells_step h t)"
  unfolding on_grid_returns
  by (rule returns_mono [OF assms(2)]) (use wf_term_cells [OF assms(1)] in \<open>auto simp: cells_step_def\<close>)

text \<open>Changing one more cell after some cells changed.\<close>

lemma grid_mod_step:
  assumes s: "cells_step h t t'" and p: "in_grid (grid_dims (t_grid t)) p"
  shows "returns (on_grid (grid_mod p f) t') (cells_step (h(p := f (h p))) t)"
proof -
  note d = cells_stepD [OF s]
  have dims: "grid_dims (t_grid t') = grid_dims (t_grid t)" using d(5) by (simp add: t_dims_def)
  have "returns (grid_mod p f (t_grid t')) (cells_post (t_grid t') ((g_cell (t_grid t'))(p := f (g_cell (t_grid t') p))))"
    by (rule grid_mod_cells) (use d(1) p dims in simp_all)
  from on_grid_cells [of t' "grid_mod p f", OF d(1) this]
  have "returns (on_grid (grid_mod p f) t') (cells_step ((g_cell (t_grid t'))(p := f (g_cell (t_grid t') p))) t')" .
  then show ?thesis
  proof (rule returns_mono)
    fix t'' assume "cells_step ((g_cell (t_grid t'))(p := f (g_cell (t_grid t') p))) t' t''"
    then have "cells_step ((g_cell (t_grid t'))(p := f (g_cell (t_grid t') p))) t t''"
      by (rule cells_step_trans [OF s])
    then show "cells_step (h(p := f (h p))) t t''"
      by (rule cells_step_cong) (use p cells_post_cell [OF d(3)] in auto)
  qed
qed

lemma unwide_half_step:
  assumes s: "cells_step h t t'" and p: "in_grid (t_dims t) p"
  shows "returns (unwide_half p wide t') (cells_step (unwide_half_cells (t_dims t) p wide h) t)"
  using s p cells_stepD(5) [OF s]
  by (auto simp: unwide_half_def unwide_half_cells_def remove_flags_def Let_def in_grid_def last_column_def t_dims_def
      intro!: grid_mod_step)

lemma unwide_above_step:
  assumes s: "cells_step h t t'" and p: "in_grid (t_dims t) p"
  shows "returns (unwide_above p t') (cells_step (unwide_above_cells (t_dims t) p h) t)"
  using s p cells_stepD(5) [OF s]
  by (auto simp: unwide_above_def unwide_above_cells_def remove_flags_def Let_def in_grid_def last_column_def t_dims_def
      intro!: grid_mod_step)

lemma write_at_cursor_returns:
  assumes t: "wf_term t"
  shows "returns (write_at_cursor x ch t)
     (cells_step ((unwide_neighbours (t_grid t) (cu_point (t_cursor t)))(cu_point (t_cursor t) := written_cell x ch t)) t)"
proof -
  let ?p = "cu_point (t_cursor t)" and ?g = "t_grid t"
  let ?x = "g_cell ?g ?p"
  let ?wide = "fl_intersects (c_flags ?x) (WIDE_CHAR OR WIDE_CHAR_SPACER)"
  let ?un = "if ?wide then unwide_half ?p (fl_contains (c_flags ?x) WIDE_CHAR) t \<bind> unwide_above ?p else Some t"
  let ?w = "\<lambda>y. y\<lparr>c_char := c_char (written_cell x ch t), c_fg := c_fg (cu_template (t_cursor t)),
         c_bg := c_bg (cu_template (t_cursor t)), c_flags := c_flags (cu_template (t_cursor t)),
         c_extra := c_extra (cu_template (t_cursor t))\<rparr>"
  have in_p: "in_grid (t_dims t) ?p" using wf_cursor_in_grid [OF t] by (simp add: t_dims_def)
  have w: "?w y = written_cell x ch t" for y by (simp add: written_cell_def)
  have "returns ?un (cells_step (unwide_neighbours ?g ?p) t)"
  proof (cases ?wide)
    case True
    then show ?thesis
      using returns_mono [OF unwide_half_step [OF cells_step_refl [OF t] in_p] unwide_above_step [OF _ in_p]]
      by (simp add: unwide_neighbours_def t_dims_def)
  next
    case False
    then show ?thesis using cells_step_refl [OF t] by (simp add: unwide_neighbours_def)
  qed
  then have "returns ?un (\<lambda>t2. returns (on_grid (mod_cursor_cell ?w) t2)
      (cells_step ((unwide_neighbours ?g ?p)(?p := written_cell x ch t)) t))"
    by (rule returns_mono, unfold mod_cursor_cell_def on_grid_def w)
      (use grid_mod_step [where p = ?p and f = "\<lambda>_. written_cell x ch t"] in_p cells_stepD(4) in
        \<open>auto simp: on_grid_def t_dims_def\<close>)
  then show ?thesis
    unfolding write_at_cursor_def Let_def
    by (simp add: grid_get_cell [OF wf_core [OF t]] in_p [unfolded t_dims_def] written_cell_def)
qed

subsection \<open>Input\<close>

lemma wf_advance_cursor: "wf_term t \<Longrightarrow> wf_term (advance_cursor (g_columns (t_grid t)) t)"
  by (simp add: advance_cursor_def wf_set_cursor_column)

lemma t_frame_advance [simp]: "t_frame t (advance_cursor cols t)"
  by (simp add: advance_cursor_def)

lemma write_with_flag_returns:
  assumes t: "wf_term t"
  shows "returns (write_with_flag x flag ch t) (\<lambda>t'. wf_term t' \<and> t_frame t t'
     \<and> g_columns (t_grid t') = g_columns (t_grid t) \<and> g_lines (t_grid t') = g_lines (t_grid t)
     \<and> cu_point (t_cursor t') = cu_point (t_cursor t)
     \<and> cells_post (t_grid (upd_template (insert_flags flag) t))
         ((unwide_neighbours (t_grid t) (cu_point (t_cursor t)))
            (cu_point (t_cursor t) := insert_flags flag (written_cell x ch t))) ((t_grid t')\<lparr>g_cursor := t_cursor (upd_template (insert_flags flag) t)\<rparr>))"
proof -
  let ?t1 = "upd_template (insert_flags flag) t"
  have wf: "wf_term ?t1" using t by simp
  have sel: "cu_point (t_cursor ?t1) = cu_point (t_cursor t)" "g_columns (t_grid ?t1) = g_columns (t_grid t)"
    "g_lines (t_grid ?t1) = g_lines (t_grid t)" "written_cell x ch ?t1 = insert_flags flag (written_cell x ch t)"
    "unwide_neighbours (t_grid ?t1) p = unwide_neighbours (t_grid t) p" for p
    by (simp_all add: upd_template_def upd_cursor_def written_cell_def insert_flags_def unwide_neighbours_def fun_eq_iff)
  show ?thesis
    unfolding write_with_flag_def Let_def returns_bind returns_Some insert_flags_def [symmetric]
  proof (rule returns_mono [OF write_at_cursor_returns [OF wf]])
    fix t2 assume s: "cells_step ((unwide_neighbours (t_grid ?t1) (cu_point (t_cursor ?t1)))
        (cu_point (t_cursor ?t1) := written_cell x ch ?t1)) ?t1 t2"
    note d = cells_stepD [OF s]
    let ?t3 = "upd_template (\<lambda>y. y\<lparr>c_flags := fl_remove (c_flags y) flag\<rparr>) t2"
    have g3: "g_columns (t_grid ?t3) = g_columns (t_grid t)" "g_lines (t_grid ?t3) = g_lines (t_grid t)"
      "cu_point (t_cursor ?t3) = cu_point (t_cursor t)" "(t_grid ?t3)\<lparr>g_cursor := t_cursor ?t1\<rparr> = t_grid t2"
      using d(4,6,7) sel(1,2,3) by (simp_all add: upd_template_def upd_cursor_def)
    show "wf_term ?t3 \<and> t_frame t ?t3
     \<and> g_columns (t_grid ?t3) = g_columns (t_grid t) \<and> g_lines (t_grid ?t3) = g_lines (t_grid t)
     \<and> cu_point (t_cursor ?t3) = cu_point (t_cursor t)
     \<and> cells_post (t_grid ?t1) ((unwide_neighbours (t_grid t) (cu_point (t_cursor t)))
            (cu_point (t_cursor t) := insert_flags flag (written_cell x ch t))) ((t_grid ?t3)\<lparr>g_cursor := t_cursor ?t1\<rparr>)"
      using d(1,3) g3 sel t_frame_trans [OF t_frame_trans [OF t_frame_cursor(4) d(2)] t_frame_cursor(4)]
      by simp
  qed
qed

lemma input_zero_width_returns:
  assumes t: "wf_term t"
  shows "returns (input_zero_width ch t) wf_term"
proof -
  let ?l = "p_line (cu_point (t_cursor t))"
  have g: "in_grid (grid_dims (t_grid t)) (Point ?l c)" if "c \<le> p_column (cu_point (t_cursor t))" for c
    using wf_cursor_in_grid [OF t] that by (simp add: in_grid_def)
  have m: "returns (on_grid (grid_mod (Point ?l c) (push_zerowidth ch)) t) wf_term"
    if "c \<le> p_column (cu_point (t_cursor t))" for c
    by (rule returns_mono [OF grid_mod_step [OF cells_step_refl [OF t] g [OF that]]]) (rule cells_stepD(1))
  show ?thesis
    unfolding input_zero_width_def Let_def
    using m by (auto simp: grid_get_cell [OF wf_core [OF t] g])
qed

lemma swap_loop_length:
  "(\<And>c. c \<in> set cs \<Longrightarrow> f c < length v \<and> g c < length v) \<Longrightarrow>
   returns (mfold (\<lambda>c v. vswap v (f c) (g c)) cs v) (\<lambda>w. length w = length v)"
  by (rule mfold_inv) auto

lemma insert_shift_returns:
  assumes t: "wf_term t"
  shows "returns (insert_shift width t) (\<lambda>t'. wf_term t' \<and> t_frame t t' \<and> t_cursor t' = t_cursor t
     \<and> g_columns (t_grid t') = g_columns (t_grid t) \<and> g_lines (t_grid t') = g_lines (t_grid t))"
proof (cases "has_mode t INSERT \<and> p_column (cu_point (t_cursor t)) + width < columns (t_dims t)")
  case False
  then show ?thesis using t unfolding insert_shift_def Let_def if_not_P [OF False] by simp
next
  case True
  let ?p = "cu_point (t_cursor t)" and ?g = "t_grid t"
  let ?f = "mfold (\<lambda>col v. vswap v (col + width) col) (rev [p_column ?p..<g_columns ?g - width])"
  have len: "length (row_inner (g_row ?g (p_line ?p))) = g_columns ?g" by (rule g_row_len [OF wf_core [OF t]])
  have "returns (?f (row_inner (g_row ?g (p_line ?p)))) (\<lambda>v. length v = length (row_inner (g_row ?g (p_line ?p))))"
    by (rule swap_loop_length) (use len in auto)
  then obtain v where v: "?f (row_inner (g_row ?g (p_line ?p))) = Some v" "length v = g_columns ?g"
    using len by (auto simp: returns_def)
  have "returns (on_grid (grid_mod_row (p_line ?p) (row_full_mut ?f)) t)
      (cells_step (\<lambda>q. if p_line q = p_line ?p then v ! p_column q else g_cell ?g q) t)"
    by (rule on_grid_cells [where f = "grid_mod_row (p_line ?p) (row_full_mut ?f)", OF t])
      (rule row_full_mut_cells [where f = ?f, OF wf_core [OF t] wf_cursor_valid [OF t]], use v in simp)
  then have "returns (insert_shift width t)
      (cells_step (\<lambda>q. if p_line q = p_line ?p then v ! p_column q else g_cell ?g q) t)"
    using True by (simp add: insert_shift_def Let_def)
  then show ?thesis by (rule returns_mono) (auto dest: cells_stepD)
qed

lemma input_wide_returns:
  assumes t: "wf_term t"
  shows "returns (input_wide x ch (g_columns (t_grid t)) t) (\<lambda>t'. wf_term t' \<and> t_frame t t')"
proof (cases "p_column (cu_point (t_cursor t)) + 1 \<ge> g_columns (t_grid t) \<and> \<not> has_mode t LINE_WRAP")
  case True
  then show ?thesis using t unfolding input_wide_def if_P [OF True] by simp
next
  case nowrap: False
  let ?cols = "g_columns (t_grid t)"
  let ?first = "if p_column (cu_point (t_cursor t)) + 1 \<ge> ?cols
      then do { t \<leftarrow> write_with_flag x LEADING_WIDE_CHAR_SPACER 32 t; wrapline t } else Some t"
  have 1: "returns ?first (\<lambda>t1. wf_term t1 \<and> t_frame t t1 \<and> g_columns (t_grid t1) = ?cols
      \<and> p_column (cu_point (t_cursor t1)) + 1 < ?cols)"
  proof (cases "p_column (cu_point (t_cursor t)) + 1 \<ge> ?cols")
    case True
    then have wrap: "has_mode t LINE_WRAP" using nowrap by simp
    have "returns (write_with_flag x LEADING_WIDE_CHAR_SPACER 32 t \<bind> wrapline) (\<lambda>t1. wf_term t1 \<and> t_frame t t1
        \<and> g_columns (t_grid t1) = ?cols \<and> p_column (cu_point (t_cursor t1)) + 1 < ?cols)"
      unfolding returns_bind
    proof (rule returns_mono [OF write_with_flag_returns [OF t]], elim conjE)
      fix t1 assume t1: "wf_term t1" "t_frame t t1" "g_columns (t_grid t1) = ?cols"
      show "returns (wrapline t1) (\<lambda>t1. wf_term t1 \<and> t_frame t t1
        \<and> g_columns (t_grid t1) = ?cols \<and> p_column (cu_point (t_cursor t1)) + 1 < ?cols)"
        by (rule returns_mono [OF wrapline_returns [OF t1(1)]])
          (use t1 wrap t_frameD(10) [OF t1(2)] wf_cols [OF t] in
            \<open>auto simp: wrapline_post_def intro: t_frame_trans\<close>)
    qed
    then show ?thesis using True by simp
  next
    case False
    then show ?thesis using t by simp
  qed
  have 3: "returns (write_with_flag x WIDE_CHAR_SPACER 32 t2) (\<lambda>t3. wf_term (advance_cursor ?cols t3) \<and> t_frame t (advance_cursor ?cols t3))"
    if t2: "wf_term t2" "t_frame t t2" "g_columns (t_grid t2) = ?cols" for t2
  proof (rule returns_mono [OF write_with_flag_returns [OF t2(1)]], elim conjE)
    fix t3 assume t3: "wf_term t3" "t_frame t2 t3" "g_columns (t_grid t3) = g_columns (t_grid t2)"
    have "wf_term (advance_cursor ?cols t3)" using wf_advance_cursor [OF t3(1)] by (simp only: t3(3) t2(3))
    then show "wf_term (advance_cursor ?cols t3) \<and> t_frame t (advance_cursor ?cols t3)"
      using t_frame_trans [OF t_frame_trans [OF t2(2) t3(2)] t_frame_advance] by (rule conjI)
  qed
  have 2: "returns (write_with_flag x WIDE_CHAR ch t1) (\<lambda>t2. returns
      (write_with_flag x WIDE_CHAR_SPACER 32 (set_cursor_column (p_column (cu_point (t_cursor t2)) + 1) t2))
      (\<lambda>t3. wf_term (advance_cursor ?cols t3) \<and> t_frame t (advance_cursor ?cols t3)))"
    if t1: "wf_term t1" "t_frame t t1" "g_columns (t_grid t1) = ?cols" "p_column (cu_point (t_cursor t1)) + 1 < ?cols" for t1
  proof (rule returns_mono [OF write_with_flag_returns [OF t1(1)]], elim conjE, rule 3)
    fix t2 assume t2: "wf_term t2" "t_frame t1 t2" "g_columns (t_grid t2) = g_columns (t_grid t1)"
      "cu_point (t_cursor t2) = cu_point (t_cursor t1)"
    let ?c = "p_column (cu_point (t_cursor t2)) + 1"
    show "wf_term (set_cursor_column ?c t2)" by (rule wf_set_cursor_column [OF t2(1)]) (simp add: t2(3,4) t1(3,4) del: One_nat_def)
    show "t_frame t (set_cursor_column ?c t2)"
      by (rule t_frame_trans [OF t_frame_trans [OF t1(2) t2(2)] t_frame_cursor(2)])
    show "g_columns (t_grid (set_cursor_column ?c t2)) = ?cols" by (simp add: grid_set_cursor t2(3) t1(3))
  qed
  show ?thesis
    unfolding input_wide_def if_not_P [OF nowrap] Let_def returns_bind [of ?first] returns_bind returns_Some
    by (rule returns_mono [OF 1]) (rule 2, auto)
qed

lemma input_returns:
  assumes t: "wf_term t"
  shows "returns (input x ch t) wf_term"
proof -
  have body: "returns (insert_shift w t1) (\<lambda>t2. returns
      (if w = 1 then do { t \<leftarrow> write_at_cursor x ch t2; Some (advance_cursor (columns (t_dims t1)) t) }
       else input_wide x ch (columns (t_dims t1)) t2) wf_term)" if t1: "wf_term t1" for w t1
  proof (rule returns_mono [OF insert_shift_returns [OF t1]], elim conjE)
    fix t2 assume t2: "wf_term t2" "g_columns (t_grid t2) = g_columns (t_grid t1)"
    have "returns (write_at_cursor x ch t2) (\<lambda>t3. wf_term (advance_cursor (g_columns (t_grid t2)) t3))"
      by (rule returns_mono [OF write_at_cursor_returns [OF t2(1)]])
        (use cells_stepD(1,6) wf_advance_cursor in metis)
    moreover have "returns (input_wide x ch (g_columns (t_grid t2)) t2) wf_term"
      by (rule returns_mono [OF input_wide_returns [OF t2(1)]]) simp
    ultimately show "returns (if w = 1
       then do { t \<leftarrow> write_at_cursor x ch t2; Some (advance_cursor (columns (t_dims t1)) t) }
       else input_wide x ch (columns (t_dims t1)) t2) wf_term"
      by (simp add: t2(2))
  qed
  have wrap: "returns (if cu_input_needs_wrap (t_cursor t) then wrapline t else Some t) wf_term"
    using returns_mono [OF wrapline_returns [OF t]] t by (simp add: wrapline_post_def)
  show ?thesis
  proof (cases "x_width x ch")
    case None
    then show ?thesis using t by (simp add: input_def)
  next
    case (Some w)
    have "returns (if cu_input_needs_wrap (t_cursor t) then wrapline t else Some t) (\<lambda>t1.
        returns (insert_shift w t1) (\<lambda>t2. returns
      (if w = 1 then do { t \<leftarrow> write_at_cursor x ch t2; Some (advance_cursor (columns (t_dims t1)) t) }
       else input_wide x ch (columns (t_dims t1)) t2) wf_term))"
      by (rule returns_mono [OF wrap body])
    then show ?thesis
      using Some input_zero_width_returns [OF t] unfolding input_def Let_def
      by (cases "w = 0") (simp_all only: option.case returns_bind if_True if_False simp_thms)
  qed
qed

end
