(* ===== verification/Term_Edit.thy ===== *)
theory Term_Edit
  imports Term_Safety
begin

text \<open>
  Editing operations: the exact effect on the cells of inserting, deleting and erasing characters and lines, of
  clearing lines and screens, and of the alignment pattern.
\<close>

subsection \<open>Characters\<close>

lemma cells_step_damage:
  assumes "wf_term t" "damage_step t d" "cells_step h (t\<lparr>t_damage := d\<rparr>) t'"
  shows "cells_step h t t'"
  using assms t_frame_trans [OF t_frame_upd(4) [of t d]] by (auto simp: cells_step_def)

lemma damage_then_cells:
  assumes t: "wf_term t" and l: "0 \<le> l" "l < int (g_lines (t_grid t))"
    and f: "returns (f (t_grid t)) (cells_post (t_grid t) h)"
  shows "returns (term_damage_line l a b t) (\<lambda>t1. returns (on_grid f t1) (cells_step h t))"
proof (rule term_damage_line_wp [OF t l])
  fix d assume d: "damage_step t d"
  have "returns (on_grid f (t\<lparr>t_damage := d\<rparr>)) (cells_step h (t\<lparr>t_damage := d\<rparr>))"
    by (rule on_grid_cells [where f = f]) (use t d f in simp_all)
  then show "returns (on_grid f (t\<lparr>t_damage := d\<rparr>)) (cells_step h t)"
    by (rule returns_mono) (rule cells_step_damage [OF t d])
qed

text \<open>The cells after \<^verbatim>\<open>ICH\<close>: those from the cursor on move right by \<open>count\<close>, at most to the end of the line.\<close>

definition inserted_cells :: "terminal \<Rightarrow> nat \<Rightarrow> point \<Rightarrow> cell" where
  "inserted_cells t count p =
     (let c = cu_point (t_cursor t) in
      if p_line p \<noteq> p_line c \<or> p_column p < p_column c then g_cell (t_grid t) p
      else if p_column p < p_column c + count then cell_of_color (c_bg (cu_template (t_cursor t)))
      else g_cell (t_grid t) (Point (p_line p) (p_column p - count)))"

lemma insert_blank_row:
  assumes v: "length v = cols" and s: "source + n \<le> cols"
  shows "returns (do { w \<leftarrow> mfold (\<lambda>i w. vswap w (source + n + i) (source + i)) (rev [0..<cols - (source + n)]) v;
       vfill w source (source + n) blank })
     (\<lambda>w. length w = cols \<and> (\<forall>i < cols. w ! i =
        (if i < source then v ! i else if i < source + n then blank else v ! (i - n))))"
  unfolding returns_bind
proof (rule returns_mono [OF shift_right_loop])
  show "source + n + (cols - (source + n)) = length v" "source \<le> source + n" using v s by auto
  fix w
  assume w: "length w = length v \<and> (\<forall>j < source. w ! j = v ! j)
     \<and> (\<forall>j. source + n \<le> j \<and> j < length v \<longrightarrow> w ! j = v ! (j - (source + n - source)))"
  then show "returns (vfill w source (source + n) blank) (\<lambda>w. length w = cols \<and> (\<forall>i < cols. w ! i =
        (if i < source then v ! i else if i < source + n then blank else v ! (i - n))))"
    using v s nth_fill [of source "source + n" w _ blank] by auto
qed

lemma insert_blank_returns:
  assumes t: "wf_term t"
  shows "returns (insert_blank count t) (cells_step (inserted_cells t count) t)"
proof -
  let ?p = "cu_point (t_cursor t)" and ?g = "t_grid t"
  let ?n = "min count (g_columns ?g - p_column ?p)"
  let ?b = "cell_of_color (c_bg (cu_template (t_cursor t)))"
  let ?v = "row_inner (g_row ?g (p_line ?p))"
  let ?f = "\<lambda>v. do { w \<leftarrow> mfold (\<lambda>i w. vswap w (p_column ?p + ?n + i) (p_column ?p + i))
        (rev [0..<g_columns ?g - (p_column ?p + ?n)]) v; vfill w (p_column ?p) (p_column ?p + ?n) ?b }"
  let ?h = "\<lambda>i. if i < p_column ?p then ?v ! i else if i < p_column ?p + ?n then ?b else ?v ! (i - ?n)"
  note b = wf_cursor_bounds [OF t]
  have len: "length ?v = g_columns ?g" by (rule g_row_len [OF wf_core [OF t]])
  have "returns (grid_mod_row (p_line ?p) (row_full_mut ?f) ?g)
      (cells_post ?g (\<lambda>q. if p_line q = p_line ?p then ?h (p_column q) else g_cell ?g q))"
    by (rule row_full_mut_cells [where f = ?f and h = ?h, OF wf_core [OF t] wf_cursor_valid [OF t]])
      (rule insert_blank_row [OF len], use b in simp)
  then have cells: "returns (grid_mod_row (p_line ?p) (row_full_mut ?f) ?g) (cells_post ?g (inserted_cells t count))"
    by (rule returns_mono, elim cells_post_cong)
      (auto simp: inserted_cells_def g_cell_def in_grid_def Let_def min_def)
  have "returns (term_damage_line (p_line ?p) 0 (g_columns ?g - 1) t)
      (\<lambda>t1. returns (on_grid (grid_mod_row (p_line ?p) (row_full_mut ?f)) t1) (cells_step (inserted_cells t count) t))"
    by (rule damage_then_cells [where f = "grid_mod_row (p_line ?p) (row_full_mut ?f)", OF t b(1,2) cells])
  then show ?thesis
    using b by (simp add: insert_blank_def Let_def)
qed

lemma erase_chars_returns:
  assumes t: "wf_term t"
  shows "returns (erase_chars count t) (cells_step (fill_cells (t_grid t) (p_line (cu_point (t_cursor t)))
     (p_column (cu_point (t_cursor t))) (min (p_column (cu_point (t_cursor t)) + count) (g_columns (t_grid t)))
     (cell_of_color (c_bg (cu_template (t_cursor t))))) t)"
proof -
  let ?p = "cu_point (t_cursor t)"
  let ?e = "min (p_column ?p + count) (g_columns (t_grid t))"
  let ?f = "grid_mod_row (p_line ?p) (row_fill (p_column ?p) ?e (cell_of_color (c_bg (cu_template (t_cursor t)))))"
  note b = wf_cursor_bounds [OF t]
  have "returns (?f (t_grid t)) (cells_post (t_grid t) (fill_cells (t_grid t) (p_line ?p) (p_column ?p) ?e
      (cell_of_color (c_bg (cu_template (t_cursor t))))))"
    by (rule row_fill_cells [OF wf_core [OF t] wf_cursor_valid [OF t]]) (use b in auto)
  from damage_then_cells [where f = ?f, OF t b(1,2) this] show ?thesis
    by (simp add: erase_chars_def Let_def)
qed

text \<open>The cells after \<^verbatim>\<open>DCH\<close>. The last \<open>count\<close> cells of the line are cleared even when fewer than \<open>count\<close> cells stand
  to the right of the cursor.\<close>

definition deleted_cells :: "terminal \<Rightarrow> nat \<Rightarrow> point \<Rightarrow> cell" where
  "deleted_cells t count p =
     (let c = cu_point (t_cursor t) in
      if p_line p \<noteq> p_line c then g_cell (t_grid t) p
      else if g_columns (t_grid t) - count \<le> p_column p then cell_of_color (c_bg (cu_template (t_cursor t)))
      else if p_column p < p_column c then g_cell (t_grid t) p
      else g_cell (t_grid t) (Point (p_line p) (p_column p + count)))"

lemma delete_chars_row:
  assumes v: "length v = cols" and s: "start < cols" "count \<le> cols"
    and e: "stop = min (start + count) (cols - 1)"
  shows "returns (do { w \<leftarrow> mfold (\<lambda>i w. vswap w (start + i) (stop + i)) [0..<cols - stop] v;
       vfill w (cols - count) (length w) blank })
     (\<lambda>w. length w = cols \<and> (\<forall>i < cols. w ! i =
        (if cols - count \<le> i then blank else if i < start then v ! i else v ! (i + count))))"
  unfolding returns_bind
proof (rule returns_mono [OF shift_left_loop])
  show "stop + (cols - stop) = length v" "start \<le> stop" using v s e by auto
  fix w
  assume w: "length w = length v \<and> (\<forall>j < start. w ! j = v ! j)
     \<and> (\<forall>j. start \<le> j \<and> j < start + (cols - stop) \<longrightarrow> w ! j = v ! (j + (stop - start)))"
  have "w ! i = v ! (i + count)" if i: "i < cols - count" "start \<le> i" for i
  proof -
    have "stop = start + count" using i e s by simp
    then show ?thesis using w i by (simp add: add.commute)
  qed
  then show "returns (vfill w (cols - count) (length w) blank) (\<lambda>w. length w = cols \<and> (\<forall>i < cols. w ! i =
        (if cols - count \<le> i then blank else if i < start then v ! i else v ! (i + count))))"
    using v s w by (auto simp: nth_append)
qed

lemma delete_chars_returns:
  assumes t: "wf_term t"
  shows "returns (delete_chars count t) (cells_step (deleted_cells t count) t)"
proof -
  let ?p = "cu_point (t_cursor t)" and ?g = "t_grid t"
  let ?n = "min count (g_columns ?g)"
  let ?s = "min (p_column ?p + ?n) (g_columns ?g - 1)"
  let ?b = "cell_of_color (c_bg (cu_template (t_cursor t)))"
  let ?v = "row_inner (g_row ?g (p_line ?p))"
  let ?f = "\<lambda>v. do { w \<leftarrow> mfold (\<lambda>i w. vswap w (p_column ?p + i) (?s + i)) [0..<g_columns ?g - ?s] v;
       vfill w (g_columns ?g - ?n) (length w) ?b }"
  let ?h = "\<lambda>i. if g_columns ?g - ?n \<le> i then ?b else if i < p_column ?p then ?v ! i else ?v ! (i + ?n)"
  note b = wf_cursor_bounds [OF t]
  have len: "length ?v = g_columns ?g" by (rule g_row_len [OF wf_core [OF t]])
  have "returns (grid_mod_row (p_line ?p) (row_full_mut ?f) ?g)
      (cells_post ?g (\<lambda>q. if p_line q = p_line ?p then ?h (p_column q) else g_cell ?g q))"
    by (rule row_full_mut_cells [where f = ?f and h = ?h, OF wf_core [OF t] wf_cursor_valid [OF t]])
      (rule delete_chars_row [OF len b(3)], simp_all)
  then have cells: "returns (grid_mod_row (p_line ?p) (row_full_mut ?f) ?g) (cells_post ?g (deleted_cells t count))"
    by (rule returns_mono, elim cells_post_cong)
      (auto simp: deleted_cells_def g_cell_def in_grid_def Let_def min_def)
  have "returns (term_damage_line (p_line ?p) 0 (g_columns ?g - 1) t)
      (\<lambda>t1. returns (on_grid (grid_mod_row (p_line ?p) (row_full_mut ?f)) t1) (cells_step (deleted_cells t count) t))"
    by (rule damage_then_cells [where f = "grid_mod_row (p_line ?p) (row_full_mut ?f)", OF t b(1,2) cells])
  then show ?thesis
    using b wf_cols [OF t] by (simp add: delete_chars_def Let_def)
qed

subsection \<open>Clearing\<close>

lemma cells_step_selection:
  "cells_step h t t' \<Longrightarrow> cells_step h t (filter_selection lo hi t')"
  "cells_step h t t' \<Longrightarrow> cells_step h t (t'\<lparr>t_selection := s\<rparr>)"
  "cells_step h t t' \<Longrightarrow> cells_step h t (mark_fully_damaged t')"
  using t_frame_trans [OF _ t_frame_upd(7)] t_frame_trans [OF _ t_frame_upd(2)] t_frame_trans [OF _ t_frame_upd(5)]
  by (auto simp: cells_step_def) (simp_all add: filter_selection_def)

definition cleared_line_cells :: "line_clear_mode \<Rightarrow> terminal \<Rightarrow> point \<Rightarrow> cell" where
  "cleared_line_cells m t =
     (let p = cu_point (t_cursor t); b = cell_of_color (c_bg (cu_template (t_cursor t))) in
      case m of
        ClearRight \<Rightarrow> (if cu_input_needs_wrap (t_cursor t) then g_cell (t_grid t)
                       else fill_cells (t_grid t) (p_line p) (p_column p) (g_columns (t_grid t)) b)
      | ClearLeft \<Rightarrow> fill_cells (t_grid t) (p_line p) 0 (p_column p + 1) b
      | ClearLine \<Rightarrow> fill_cells (t_grid t) (p_line p) 0 (g_columns (t_grid t)) b)"

lemma clear_line_fill:
  assumes t: "wf_term t" and ab: "a \<le> b" "b \<le> g_columns (t_grid t)" "1 \<le> b"
  shows "returns (do {
       last \<leftarrow> usub b 1;
       t1 \<leftarrow> term_damage_line (p_line (cu_point (t_cursor t))) a last t;
       t2 \<leftarrow> on_grid (grid_mod_row (p_line (cu_point (t_cursor t))) (row_fill a b x)) t1;
       Some (filter_selection (Included (p_line (cu_point (t_cursor t2)))) (Included (p_line (cu_point (t_cursor t2)))) t2)
     }) (cells_step (fill_cells (t_grid t) (p_line (cu_point (t_cursor t))) a b x) t)"
proof -
  let ?l = "p_line (cu_point (t_cursor t))"
  note c = wf_cursor_bounds [OF t]
  have r: "returns (grid_mod_row ?l (row_fill a b x) (t_grid t)) (cells_post (t_grid t) (fill_cells (t_grid t) ?l a b x))"
    by (rule row_fill_cells [OF wf_core [OF t] wf_cursor_valid [OF t] ab(1,2)])
  have "returns (term_damage_line ?l a (b - 1) t) (\<lambda>t1. returns (on_grid (grid_mod_row ?l (row_fill a b x)) t1)
      (\<lambda>t2. cells_step (fill_cells (t_grid t) ?l a b x) t (filter_selection (Included (p_line (cu_point (t_cursor t2))))
          (Included (p_line (cu_point (t_cursor t2)))) t2)))"
  proof (rule term_damage_line_wp [OF t c(1,2)])
    fix d assume d: "damage_step t d"
    have "returns (on_grid (grid_mod_row ?l (row_fill a b x)) (t\<lparr>t_damage := d\<rparr>))
        (cells_step (fill_cells (t_grid t) ?l a b x) (t\<lparr>t_damage := d\<rparr>))"
      by (rule on_grid_cells [where f = "grid_mod_row ?l (row_fill a b x)"]) (use t d r in simp_all)
    then show "returns (on_grid (grid_mod_row ?l (row_fill a b x)) (t\<lparr>t_damage := d\<rparr>))
      (\<lambda>t2. cells_step (fill_cells (t_grid t) ?l a b x) t (filter_selection (Included (p_line (cu_point (t_cursor t2))))
          (Included (p_line (cu_point (t_cursor t2)))) t2))"
      by (rule returns_mono) (rule cells_step_selection(1), erule cells_step_damage [OF t d])
  qed
  then show ?thesis using ab(3) by simp
qed

lemma clear_line_returns:
  assumes t: "wf_term t"
  shows "returns (clear_line m t) (cells_step (cleared_line_cells m t) t)"
proof -
  note b = wf_cursor_bounds [OF t]
  show ?thesis
  proof (cases "m = ClearRight \<and> cu_input_needs_wrap (t_cursor t)")
    case True
    then show ?thesis using cells_step_refl [OF t] by (simp add: clear_line_def cleared_line_cells_def Let_def)
  next
    case False
    have "returns (clear_line m t) (cells_step (case m of
        ClearRight \<Rightarrow> fill_cells (t_grid t) (p_line (cu_point (t_cursor t))) (p_column (cu_point (t_cursor t))) (g_columns (t_grid t))
          (cell_of_color (c_bg (cu_template (t_cursor t))))
      | ClearLeft \<Rightarrow> fill_cells (t_grid t) (p_line (cu_point (t_cursor t))) 0 (p_column (cu_point (t_cursor t)) + 1)
          (cell_of_color (c_bg (cu_template (t_cursor t))))
      | ClearLine \<Rightarrow> fill_cells (t_grid t) (p_line (cu_point (t_cursor t))) 0 (g_columns (t_grid t))
          (cell_of_color (c_bg (cu_template (t_cursor t))))) t)"
      using False b wf_cols [OF t] clear_line_fill [OF t]
        clear_line_fill [OF t, of 0 "p_column (cu_point (t_cursor t)) + 1"]
      by (cases m) (simp_all add: clear_line_def Let_def del: returns_bind One_nat_def)
    then show ?thesis
      using False by (simp add: cleared_line_cells_def Let_def split: line_clear_mode.splits)
  qed
qed

lemma reset_region_cells:
  assumes g: "grid_core_ok g" and "0 \<le> case_option 0 id lo" "case_option 0 id lo < int (g_lines g)"
    "case_option (int (g_lines g)) id hi \<le> int (g_lines g)"
  shows "returns (reset_region lo hi g) (cells_post g (\<lambda>p.
     if case_option 0 id lo \<le> p_line p \<and> p_line p < case_option (int (g_lines g)) id hi
     then cell_of_color (c_bg (cu_template (g_cursor g))) else g_cell g p))"
  by (rule returns_mono [OF reset_region_returns [OF assms]])
    (auto simp: cells_post_def g_cell_def blank_row_def in_grid_def g_valid_def)

text \<open>The cells after \<^verbatim>\<open>ED\<close>: from the start of the screen to the cursor, or from the cursor to the end. Clearing above
  leaves line 0 alone when the cursor is on line 1.\<close>

definition cleared_above_cells :: "terminal \<Rightarrow> point \<Rightarrow> cell" where
  "cleared_above_cells t p =
     (let c = cu_point (t_cursor t) in
      if 0 \<le> p_line p \<and> p \<le> c \<and> \<not> (p_line p = 0 \<and> p_line c = 1)
      then cell_of_color (c_bg (cu_template (t_cursor t))) else g_cell (t_grid t) p)"

definition cleared_below_cells :: "terminal \<Rightarrow> point \<Rightarrow> cell" where
  "cleared_below_cells t p =
     (if cu_point (t_cursor t) \<le> p then cell_of_color (c_bg (cu_template (t_cursor t))) else g_cell (t_grid t) p)"

text \<open>A second change of cells, described on the cells of the first.\<close>

lemma on_grid_step:
  assumes s: "cells_step h t t'" and f: "returns (f (t_grid t')) (cells_post (t_grid t') h')"
    and eq: "\<And>p. in_grid (grid_dims (t_grid t)) p \<Longrightarrow> (\<And>q. in_grid (grid_dims (t_grid t)) q \<Longrightarrow> g_cell (t_grid t') q = h q) \<Longrightarrow> h' p = h'' p"
  shows "returns (on_grid f t') (cells_step h'' t)"
proof -
  note d = cells_stepD [OF s]
  show ?thesis
    by (rule returns_mono [OF on_grid_cells [where f = f, OF d(1) f]], drule cells_step_trans [OF s], elim cells_step_cong)
      (rule eq, assumption, use cells_post_cell [OF d(3)] in blast)
qed

lemma clear_above_returns:
  assumes t: "wf_term t"
  shows "returns (clear_screen ClearAbove t) (\<lambda>t'. cells_step (cleared_above_cells t) t t' \<and> dm_full (t_damage t'))"
proof -
  let ?c = "cu_point (t_cursor t)" and ?b = "cell_of_color (c_bg (cu_template (t_cursor t)))"
  let ?h1 = "\<lambda>p. if 1 < p_line ?c \<and> 0 \<le> p_line p \<and> p_line p < p_line ?c then ?b else g_cell (t_grid t) p"
  let ?first = "if p_line ?c > 1 then on_grid (reset_region None (Some (p_line ?c))) t else Some t"
  note b = wf_cursor_bounds [OF t]
  have 1: "returns ?first (cells_step ?h1 t)"
  proof (cases "p_line ?c > 1")
    case True
    have "returns (reset_region None (Some (p_line ?c)) (t_grid t)) (cells_post (t_grid t) ?h1)"
      by (rule returns_mono [OF reset_region_cells [OF wf_core [OF t]]])
        (use True b wf_lines [OF t] in \<open>auto elim!: cells_post_cong\<close>)
    from on_grid_cells [where f = "reset_region None (Some (p_line ?c))", OF t this] show ?thesis using True by simp
  next
    case False
    then show ?thesis using cells_step_refl [OF t] by simp
  qed
  have 2: "returns (on_grid (grid_mod_row (p_line ?c) (row_fill_to (min (p_column ?c + 1) (g_columns (t_grid t))) ?b)) t1)
      (cells_step (cleared_above_cells t) t)" if s: "cells_step ?h1 t t1" for t1
  proof (rule on_grid_step [where f = "grid_mod_row (p_line ?c) (row_fill_to (min (p_column ?c + 1) (g_columns (t_grid t))) ?b)", OF s])
    note d = cells_stepD [OF s]
    show "returns (grid_mod_row (p_line ?c) (row_fill_to (min (p_column ?c + 1) (g_columns (t_grid t))) ?b) (t_grid t1))
        (cells_post (t_grid t1) (fill_cells (t_grid t1) (p_line ?c) 0 (min (p_column ?c + 1) (g_columns (t_grid t))) ?b))"
      by (rule row_fill_to_cells) (use d wf_cursor_valid [OF d(1)] in auto)
    show "fill_cells (t_grid t1) (p_line ?c) 0 (min (p_column ?c + 1) (g_columns (t_grid t))) ?b p = cleared_above_cells t p"
      if "in_grid (grid_dims (t_grid t)) p" "\<And>q. in_grid (grid_dims (t_grid t)) q \<Longrightarrow> g_cell (t_grid t1) q = ?h1 q" for p
      using that b by (cases p; cases ?c) (auto simp: fill_cells_def cleared_above_cells_def Let_def in_grid_def)
  qed
  have "returns ?first (\<lambda>t1. returns (on_grid (grid_mod_row (p_line ?c)
      (row_fill_to (min (p_column ?c + 1) (columns (t_dims t1))) ?b)) t1)
      (\<lambda>t2. cells_step (cleared_above_cells t) t (mark_fully_damaged (filter_selection (Included 0) (Included (p_line ?c)) t2))))"
    by (rule returns_mono [OF 1], subst t_dims_sel, subst cells_stepD(6), assumption, rule returns_mono [OF 2], assumption)
      (intro cells_step_selection)
  then show ?thesis
    unfolding clear_screen_def Let_def clear_mode.case returns_bind returns_Some by simp
qed

lemma clear_below_returns:
  assumes t: "wf_term t"
  shows "returns (clear_screen ClearBelow t) (\<lambda>t'. cells_step (cleared_below_cells t) t t' \<and> dm_full (t_damage t'))"
proof -
  let ?c = "cu_point (t_cursor t)" and ?b = "cell_of_color (c_bg (cu_template (t_cursor t)))" and ?n = "g_lines (t_grid t)"
  let ?h1 = "fill_cells (t_grid t) (p_line ?c) (p_column ?c) (g_columns (t_grid t)) ?b"
  let ?rest = "\<lambda>t1. if nat (p_line ?c) < ?n - 1 then on_grid (reset_region (Some (p_line ?c + 1)) None) t1 else Some t1"
  note b = wf_cursor_bounds [OF t]
  have "returns (grid_mod_row (p_line ?c) (row_fill_from (p_column ?c) ?b) (t_grid t)) (cells_post (t_grid t) ?h1)"
    by (rule row_fill_from_cells [OF wf_core [OF t] wf_cursor_valid [OF t]]) (use b in simp)
  then have 1: "returns (on_grid (grid_mod_row (p_line ?c) (row_fill_from (p_column ?c) ?b)) t) (cells_step ?h1 t)"
    by (rule on_grid_cells [where f = "grid_mod_row (p_line ?c) (row_fill_from (p_column ?c) ?b)", OF t])
  have 2: "returns (?rest t1) (cells_step (cleared_below_cells t) t)" if s: "cells_step ?h1 t t1" for t1
  proof (cases "nat (p_line ?c) < ?n - 1")
    case True
    note d = cells_stepD [OF s]
    have "returns (on_grid (reset_region (Some (p_line ?c + 1)) None) t1) (cells_step (cleared_below_cells t) t)"
    proof (rule on_grid_step [where f = "reset_region (Some (p_line ?c + 1)) None", OF s])
      show "returns (reset_region (Some (p_line ?c + 1)) None (t_grid t1)) (cells_post (t_grid t1) (\<lambda>p.
          if p_line ?c + 1 \<le> p_line p \<and> p_line p < int ?n then ?b else g_cell (t_grid t1) p))"
        by (rule returns_mono [OF reset_region_cells [OF wf_core [OF d(1)]]])
          (use True b d in \<open>auto elim!: cells_post_cong\<close>)
      show "(if p_line ?c + 1 \<le> p_line p \<and> p_line p < int ?n then ?b else g_cell (t_grid t1) p) = cleared_below_cells t p"
        if "in_grid (grid_dims (t_grid t)) p" "\<And>q. in_grid (grid_dims (t_grid t)) q \<Longrightarrow> g_cell (t_grid t1) q = ?h1 q" for p
        using that b by (cases p; cases ?c) (auto simp: fill_cells_def cleared_below_cells_def in_grid_def bottommost_line_def)
    qed
    then show ?thesis using True by simp
  next
    case False
    have "cells_step (cleared_below_cells t) t t1"
      by (rule cells_step_cong [OF s])
        (use b False in \<open>auto simp: fill_cells_def cleared_below_cells_def in_grid_def bottommost_line_def less_eq_gpoint_def\<close>)
    then show ?thesis using False by simp
  qed
  have "returns (on_grid (grid_mod_row (p_line ?c) (row_fill_from (p_column ?c) ?b)) t) (\<lambda>t1. returns (?rest t1)
      (\<lambda>t2. cells_step (cleared_below_cells t) t (mark_fully_damaged (filter_selection (Included (p_line ?c)) (Excluded (int ?n)) t2))))"
    by (rule returns_mono [OF 1], rule returns_mono [OF 2], assumption) (intro cells_step_selection)
  then show ?thesis
    using b wf_lines [OF t]
    unfolding clear_screen_def Let_def clear_mode.case returns_bind returns_Some returns_usub returns_as_usize by simp
qed

lemma on_grid_wf:
  assumes "wf_term t" "returns (f (t_grid t)) (\<lambda>g'. grid_core_ok g' \<and> same_frame (t_grid t) g' \<and> Q g')"
  shows "returns (on_grid f t) (\<lambda>t'. wf_term t' \<and> t_frame t t' \<and> Q (t_grid t'))"
  unfolding on_grid_returns by (rule returns_mono [OF assms(2)]) (use wf_term_grid [OF assms(1)] in auto)

text \<open>\<^verbatim>\<open>ED 2\<close> on the primary screen scrolls the used part of the screen into the history; on the alternate screen it only
  blanks the screen. \<^verbatim>\<open>ED 3\<close> empties the history.\<close>

lemma clear_all_alt_returns:
  assumes t: "wf_term t" and m: "has_mode t ALT_SCREEN"
  shows "returns (clear_screen ClearAll t) (\<lambda>t'. cells_step (\<lambda>p. if 0 \<le> p_line p
     then cell_of_color (c_bg (cu_template (t_cursor t))) else g_cell (t_grid t) p) t t'
     \<and> dm_full (t_damage t') \<and> t_selection t' = None)"
proof -
  let ?h = "\<lambda>p. if 0 \<le> p_line p then cell_of_color (c_bg (cu_template (t_cursor t))) else g_cell (t_grid t) p"
  have "returns (reset_region None None (t_grid t)) (cells_post (t_grid t) ?h)"
    by (rule returns_mono [OF reset_region_cells [OF wf_core [OF t]]])
      (use wf_lines [OF t] in \<open>auto elim!: cells_post_cong simp: in_grid_def bottommost_line_def\<close>)
  from on_grid_cells [where f = "reset_region None None", OF t this]
  have "returns (on_grid (reset_region None None) t) (\<lambda>t1. cells_step ?h t (mark_fully_damaged (t1\<lparr>t_selection := None\<rparr>)))"
    by (rule returns_mono) (intro cells_step_selection)
  then show ?thesis
    using m by (simp add: clear_screen_def) (simp add: mark_fully_damaged_def)
qed

lemma clear_all_primary_returns:
  assumes t: "wf_term t" and m: "\<not> has_mode t ALT_SCREEN"
  shows "returns (clear_screen ClearAll t) (\<lambda>t'. wf_term t' \<and> t_frame t t' \<and> dm_full (t_damage t') \<and> t_selection t' = None
     \<and> (\<exists>k \<le> g_lines (t_grid t). viewport_cleared k (t_grid t) (t_grid t')
        \<and> (\<forall>l. int k \<le> l \<and> l < int (g_lines (t_grid t)) \<longrightarrow> row_is_clear cell_is_empty (g_row (t_grid t) l))))"
proof -
  let ?Q = "\<lambda>g'. \<exists>k \<le> g_lines (t_grid t). viewport_cleared k (t_grid t) g'
     \<and> (\<forall>l. int k \<le> l \<and> l < int (g_lines (t_grid t)) \<longrightarrow> row_is_clear cell_is_empty (g_row (t_grid t) l))"
  have "returns (on_grid clear_viewport t) (\<lambda>t'. wf_term t' \<and> t_frame t t' \<and> ?Q (t_grid t'))"
    by (rule on_grid_wf [where f = clear_viewport, OF t], rule returns_mono [OF clear_viewport_returns [OF wf_core [OF t]]])
      (auto simp: viewport_cleared_def)
  then have "returns (on_grid clear_viewport t) (\<lambda>t1. wf_term t1 \<and> ?Q (t_grid t1)
      \<and> (\<forall>p. t_frame t (mark_fully_damaged (t1\<lparr>t_vi_cursor := p, t_selection := None\<rparr>))))"
    by (rule returns_mono) (auto intro: t_frame_trans [OF t_frame_trans [OF t_frame_trans [OF _ t_frame_upd(3)] t_frame_upd(2)] t_frame_upd(5)])
  then have "returns (on_grid clear_viewport t) (\<lambda>t1. (\<lambda>t'. wf_term t' \<and> t_frame t t' \<and> dm_full (t_damage t') \<and> t_selection t' = None \<and> ?Q (t_grid t'))
      (mark_fully_damaged (t1\<lparr>t_vi_cursor := Point (line_grid_clamp (t_dims t1) BGrid (p_line (t_vi_cursor t1) -
         int (g_display_offset (t_grid t1) - g_display_offset (t_grid t)))) (p_column (t_vi_cursor t1)), t_selection := None\<rparr>)))"
    by (rule returns_mono) (simp add: mark_fully_damaged_def [THEN arg_cong [of _ _ t_selection]])
  then show ?thesis
    unfolding clear_screen_def Let_def clear_mode.case if_not_P [OF m] returns_bind returns_Some .
qed

lemma clear_saved_returns:
  assumes t: "wf_term t"
  shows "returns (clear_screen ClearSaved t) (\<lambda>t'. wf_term t' \<and> t_frame t t' \<and> dm_full (t_damage t')
     \<and> g_history_size (t_grid t') = 0
     \<and> (\<forall>l. 0 \<le> l \<and> l < int (g_lines (t_grid t)) \<longrightarrow> g_row (t_grid t') l = g_row (t_grid t) l))"
proof (cases "history_size (t_dims t) > 0")
  case True
  let ?Q = "\<lambda>g'. g_history_size g' = 0
     \<and> (\<forall>l. 0 \<le> l \<and> l < int (g_lines (t_grid t)) \<longrightarrow> g_row g' l = g_row (t_grid t) l)"
  have "returns (on_grid clear_history t) (\<lambda>t'. wf_term t' \<and> t_frame t t' \<and> ?Q (t_grid t'))"
    by (rule on_grid_wf [where f = clear_history, OF t], rule returns_mono [OF clear_history_returns [OF wf_core [OF t]]]) auto
  then have "returns (on_grid clear_history t) (\<lambda>t1. wf_term t1 \<and> ?Q (t_grid t1)
      \<and> (\<forall>p. t_frame t (mark_fully_damaged (filter_selection Unbounded (Excluded 0) (t1\<lparr>t_vi_cursor := p\<rparr>)))))"
    by (rule returns_mono) (auto intro: t_frame_trans [OF t_frame_trans [OF t_frame_trans [OF _ t_frame_upd(3)] t_frame_upd(7)] t_frame_upd(5)])
  then have "returns (on_grid clear_history t) (\<lambda>t1. (\<lambda>t'. wf_term t' \<and> t_frame t t' \<and> dm_full (t_damage t') \<and> ?Q (t_grid t'))
      (mark_fully_damaged (filter_selection Unbounded (Excluded 0) (t1\<lparr>t_vi_cursor :=
         Point (line_grid_clamp (t_dims t1) BCursor (p_line (t_vi_cursor t1))) (p_column (t_vi_cursor t1))\<rparr>))))"
    by (rule returns_mono) (simp add: filter_selection_def [THEN arg_cong [of _ _ t_grid]])
  then show ?thesis
    unfolding clear_screen_def Let_def clear_mode.case if_P [OF True] returns_bind returns_Some .
next
  case False
  then show ?thesis using t by (simp add: clear_screen_def t_dims_def)
qed

subsection \<open>Lines\<close>

lemma in_region_bounds:
  "wf_term t \<Longrightarrow> in_scroll_region t l \<Longrightarrow> 0 \<le> l \<and> l \<le> snd (t_scroll_region t)"
  using wf_region [of t] by (auto simp: in_scroll_region_def)

lemma insert_blank_lines_returns:
  assumes t: "wf_term t"
  defines "l \<equiv> p_line (cu_point (t_cursor t))" and "stop \<equiv> snd (t_scroll_region t)"
  shows "returns (insert_blank_lines n t) (\<lambda>t'. wf_term t' \<and> t_frame t t'
     \<and> (if in_scroll_region t l then scroll_down_post l stop (min n (nat (stop - l))) (t_grid t) (t_grid t') else t' = t))"
proof (cases "in_scroll_region t l")
  case True
  have k: "min (min n (nat (stop - fst (t_scroll_region t)))) (nat (stop - l)) = min n (nat (stop - l))"
    using True by (auto simp: in_scroll_region_def stop_def)
  show ?thesis
    using True in_region_bounds [OF t, of l] scroll_down_relative_returns [OF t, of l n]
    by (auto simp: insert_blank_lines_def Let_def l_def [symmetric] stop_def [symmetric] k elim: returns_mono)
next
  case False
  then show ?thesis using t by (simp add: insert_blank_lines_def l_def)
qed

text \<open>The number of lines \<^verbatim>\<open>DL\<close> removes is bounded by the screen and by the height of the region, not by the lines
  between the cursor and the end of the region.\<close>

lemma delete_lines_returns:
  assumes t: "wf_term t"
  defines "l \<equiv> p_line (cu_point (t_cursor t))" and "start \<equiv> fst (t_scroll_region t)" and "stop \<equiv> snd (t_scroll_region t)"
  shows "returns (delete_lines n t) (\<lambda>t'. wf_term t' \<and> t_frame t t'
     \<and> (if 0 < n \<and> in_scroll_region t l
        then scroll_up_post l stop (min (min (g_lines (t_grid t) - nat l) n) (nat (stop - start))) (t_grid t) (t_grid t')
        else t' = t))"
proof -
  have l: "0 \<le> l" "nat l < g_lines (t_grid t)" using wf_cursor_bounds [OF t] by (auto simp: l_def)
  have d: "delete_lines n t = (if 0 < n \<and> in_scroll_region t l
      then scroll_up_relative l (min (g_lines (t_grid t) - nat l) n) t else Some t)"
    using l by (simp add: delete_lines_def l_def Let_def)
  show ?thesis
    using t in_region_bounds [OF t, of l] scroll_up_relative_returns [OF t, of l "min (g_lines (t_grid t) - nat l) n"]
    unfolding d start_def stop_def by (auto elim: returns_mono)
qed

subsection \<open>The alignment pattern\<close>

lemma fill_loop:
  assumes "cells_step h t t'" "\<And>p. p \<in> set ps \<Longrightarrow> in_grid (grid_dims (t_grid t)) p"
  shows "returns (mfold (\<lambda>p. on_grid (grid_mod p (\<lambda>_. x))) ps t') (cells_step (\<lambda>p. if p \<in> set ps then x else h p) t)"
  using assms
proof (induction ps arbitrary: h t')
  case Nil
  then show ?case by simp
next
  case (Cons q ps)
  have "returns (on_grid (grid_mod q (\<lambda>_. x)) t') (cells_step (h(q := x)) t)"
    by (rule grid_mod_step [OF Cons.prems(1)]) (use Cons.prems(2) in simp)
  then show ?case
    by (simp, elim returns_mono, intro returns_mono [OF Cons.IH])
      (use Cons.prems(2) in \<open>auto elim!: cells_step_cong\<close>)
qed

lemma fill_lines_loop:
  assumes "cells_step h t t'" "\<And>l. l \<in> set ls \<Longrightarrow> g_valid (t_grid t) l"
  shows "returns (mfold (\<lambda>l. mfold (\<lambda>c. on_grid (grid_mod (Point l c) (\<lambda>_. x))) [0..<g_columns (t_grid t)]) ls t')
     (cells_step (\<lambda>p. if p_line p \<in> set ls then x else h p) t)"
  using assms
proof (induction ls arbitrary: h t')
  case Nil
  then show ?case by simp
next
  case (Cons l ls)
  have "returns (mfold (\<lambda>p. on_grid (grid_mod p (\<lambda>_. x))) (map (Point l) [0..<g_columns (t_grid t)]) t')
      (cells_step (\<lambda>p. if p \<in> set (map (Point l) [0..<g_columns (t_grid t)]) then x else h p) t)"
    by (rule fill_loop [OF Cons.prems(1)]) (use Cons.prems(2) [of l] in \<open>auto simp: in_grid_def g_valid_def\<close>)
  then have "returns (mfold (\<lambda>c. on_grid (grid_mod (Point l c) (\<lambda>_. x))) [0..<g_columns (t_grid t)] t')
      (cells_step (\<lambda>p. if p_line p = l then x else h p) t)"
    unfolding mfold_map
  proof (rule returns_mono, elim cells_step_cong)
    fix p assume "in_grid (grid_dims (t_grid t)) p"
    then show "(if p \<in> set (map (Point l) [0..<g_columns (t_grid t)]) then x else h p) = (if p_line p = l then x else h p)"
      by (cases p) (auto simp: in_grid_def)
  qed
  then show ?case
    by (simp, elim returns_mono, intro returns_mono [OF Cons.IH])
      (use Cons.prems(2) in \<open>auto elim!: cells_step_cong\<close>)
qed

lemma decaln_returns:
  assumes t: "wf_term t"
  shows "returns (decaln t) (\<lambda>t'. cells_step (\<lambda>p. if 0 \<le> p_line p then default_cell\<lparr>c_char := 69\<rparr> else g_cell (t_grid t) p) t t'
     \<and> dm_full (t_damage t'))"
proof -
  have "returns (mfold (\<lambda>l. mfold (\<lambda>c. on_grid (grid_mod (Point l c) (\<lambda>_. default_cell\<lparr>c_char := 69\<rparr>))) [0..<g_columns (t_grid t)])
      (irange 0 (int (g_lines (t_grid t)))) t)
     (cells_step (\<lambda>p. if p_line p \<in> set (irange 0 (int (g_lines (t_grid t)))) then default_cell\<lparr>c_char := 69\<rparr> else g_cell (t_grid t) p) t)"
    by (rule fill_lines_loop [OF cells_step_refl [OF t]]) (use t in \<open>auto simp: g_screen_valid\<close>)
  then have "returns (mfold (\<lambda>l. mfold (\<lambda>c. on_grid (grid_mod (Point l c) (\<lambda>_. default_cell\<lparr>c_char := 69\<rparr>))) [0..<g_columns (t_grid t)])
      (irange 0 (int (g_lines (t_grid t)))) t) (\<lambda>t1. cells_step (\<lambda>p. if 0 \<le> p_line p then default_cell\<lparr>c_char := 69\<rparr>
        else g_cell (t_grid t) p) t (mark_fully_damaged t1))"
    by (rule returns_mono) (rule cells_step_selection(3), elim cells_step_cong, auto simp: in_grid_def bottommost_line_def)
  then show ?thesis
    by (simp add: decaln_def Let_def)
qed

end
