(* ===== verification/Term_Actions.thy ===== *)
theory Term_Actions
  imports Term_Edit
begin

text \<open>
  The terminal as a state machine. An \<open>action\<close> is one call of a handler method by the escape sequence parser, or one
  call of a method of \<^verbatim>\<open>Term\<close> by the user interface; \<open>exec\<close> performs it. \<open>allowed\<close> is what the callers guarantee: the
  parser numbers the lines of a scrolling region from 1 and colours within the table, and the keyboard mode stack
  is not pushed beyond its bound while the title stack is empty. \<open>reachable\<close> are the states of a terminal that
  started with \<^verbatim>\<open>Term::new\<close>. From every reachable state every allowed action returns: no input, in any order, makes
  the terminal panic.
\<close>

subsection \<open>Tabs\<close>

lemma tab_advance_returns:
  "length tabs = cols \<Longrightarrow> col < cols \<Longrightarrow> returns (tab_advance tabs cols col) (\<lambda>c. col \<le> c \<and> c < cols
     \<and> (c = cols - 1 \<or> tabs ! c) \<and> (\<forall>j. col < j \<and> j < c \<longrightarrow> \<not> tabs ! j) \<and> (col + 1 < cols \<longrightarrow> col < c))"
proof (induction tabs cols col rule: tab_advance.induct)
  case (1 tabs cols col)
  show ?case
  proof (cases "col + 1 = cols")
    case True
    then show ?thesis by (auto simp: tab_advance.simps [of tabs cols col])
  next
    case False
    then have lt: "col + 1 < cols" using "1.prems" by simp
    show ?thesis
    proof (cases "tabs ! (col + 1)")
      case True
      then show ?thesis
        using lt "1.prems" False by (auto simp: tab_advance.simps [of tabs cols col] tabs_get_def)
    next
      case noTab: False
      have "returns (tab_advance tabs cols (col + 1)) (\<lambda>c. col + 1 \<le> c \<and> c < cols
         \<and> (c = cols - 1 \<or> tabs ! c) \<and> (\<forall>j. col + 1 < j \<and> j < c \<longrightarrow> \<not> tabs ! j))"
        by (rule returns_mono [OF "1.IH" [OF False, of False]])
          (use lt "1.prems" noTab in \<open>auto simp: tabs_get_def vget_def\<close>)
      then have "returns (tab_advance tabs cols (col + 1)) (\<lambda>c. col \<le> c \<and> c < cols
         \<and> (c = cols - 1 \<or> tabs ! c) \<and> (\<forall>j. col < j \<and> j < c \<longrightarrow> \<not> tabs ! j) \<and> (col + 1 < cols \<longrightarrow> col < c))"
      proof (rule returns_mono)
        fix c
        assume c: "col + 1 \<le> c \<and> c < cols \<and> (c = cols - 1 \<or> tabs ! c) \<and> (\<forall>j. col + 1 < j \<and> j < c \<longrightarrow> \<not> tabs ! j)"
        have "\<not> tabs ! j" if "col < j" "j < c" for j
          using that c noTab by (cases "j = col + 1") auto
        then show "col \<le> c \<and> c < cols \<and> (c = cols - 1 \<or> tabs ! c) \<and> (\<forall>j. col < j \<and> j < c \<longrightarrow> \<not> tabs ! j)
            \<and> (col + 1 < cols \<longrightarrow> col < c)"
          using c by auto
      qed
      then show ?thesis
        using lt "1.prems" False noTab by (simp add: tab_advance.simps [of tabs cols col] tabs_get_def)
    qed
  qed
qed

lemma put_tab_loop_returns: "wf_term t \<Longrightarrow> returns (put_tab_loop x n t) wf_term"
proof (induction n arbitrary: t)
  case 0
  then show ?case by simp
next
  case (Suc n)
  let ?f = "\<lambda>y. if c_char y = 32 then y\<lparr>c_char := x_charset_map x (cu_charsets (t_cursor t) (t_active_charset t)) 9\<rparr> else y"
  have "returns (on_grid (mod_cursor_cell ?f) t) (\<lambda>t1. returns
      (tab_advance (t_tabs t1) (columns (t_dims t1)) (p_column (cu_point (t_cursor t1))))
      (\<lambda>col. returns (put_tab_loop x n (set_cursor_column col t1)) wf_term))"
  proof (rule returns_mono [OF wrap_cell_returns [OF Suc.prems]], elim conjE)
    fix t1 assume t1: "wf_term t1"
    show "returns (tab_advance (t_tabs t1) (columns (t_dims t1)) (p_column (cu_point (t_cursor t1))))
        (\<lambda>col. returns (put_tab_loop x n (set_cursor_column col t1)) wf_term)"
      by (rule returns_mono [OF tab_advance_returns], use wf_tabs [OF t1] wf_cursor_bounds [OF t1] in simp_all,
          rule Suc.IH, rule wf_set_cursor_column [OF t1]) simp
  qed
  then show ?case using Suc.prems by simp
qed

lemma put_tab_returns: "wf_term t \<Longrightarrow> returns (put_tab x n t) wf_term"
  using put_tab_loop_returns returns_mono [OF wrapline_returns] by (simp add: put_tab_def wrapline_post_def)

lemma find_tab_back_returns:
  "(\<And>i. i \<in> set is \<Longrightarrow> i < length tabs) \<Longrightarrow> returns (find_tab_back tabs is col)
     (\<lambda>c. (c \<in> set is \<and> tabs ! c) \<or> (c = col \<and> (\<forall>i \<in> set is. \<not> tabs ! i)))"
proof (induction "is")
  case Nil
  then show ?case by simp
next
  case (Cons i "is")
  then have "returns (find_tab_back tabs is col)
     (\<lambda>c. (c \<in> set is \<and> tabs ! c) \<or> (c = col \<and> (\<forall>i \<in> set is. \<not> tabs ! i)))" by simp
  then show ?case
    using Cons.prems by (auto simp: tabs_get_def elim: returns_mono)
qed

lemma back_tabs_returns:
  "col < length tabs \<Longrightarrow> returns (back_tabs tabs n col) (\<lambda>c. c \<le> col)"
proof (induction n arbitrary: col)
  case 0
  then show ?case by simp
next
  case (Suc n)
  have "returns (find_tab_back tabs (rev [0..<col]) col) (\<lambda>c. c \<le> col)"
    by (rule returns_mono [OF find_tab_back_returns]) (use Suc.prems in auto)
  then have "returns (find_tab_back tabs (rev [0..<col]) col) (\<lambda>c. returns (back_tabs tabs n c) (\<lambda>c. c \<le> col))"
    by (rule returns_mono) (rule returns_mono [OF Suc.IH], use Suc.prems in auto)
  then show ?case by simp
qed

lemma find_tab_forward_returns:
  "(\<And>i. i \<in> set is \<Longrightarrow> i < length tabs) \<Longrightarrow> returns (find_tab_forward tabs is col) (\<lambda>c. c \<in> set is \<or> c = col)"
proof (induction "is" arbitrary: col)
  case Nil
  then show ?case by simp
next
  case (Cons i "is")
  then have "returns (find_tab_forward tabs is i) (\<lambda>c. c \<in> set is \<or> c = i)" by simp
  then show ?case
    using Cons.prems by (auto simp: tabs_get_def elim: returns_mono)
qed

lemma forward_tabs_returns:
  "length tabs = cols \<Longrightarrow> col < cols \<Longrightarrow> returns (forward_tabs tabs cols n col) (\<lambda>c. c < cols)"
proof (induction n arbitrary: col)
  case 0
  then show ?case by simp
next
  case (Suc n)
  have "returns (find_tab_forward tabs [col + 1..<cols] col) (\<lambda>c. c < cols)"
    by (rule returns_mono [OF find_tab_forward_returns]) (use Suc.prems in auto)
  then have "returns (find_tab_forward tabs [col + 1..<cols] col) (\<lambda>c. returns (forward_tabs tabs cols n c) (\<lambda>c. c < cols))"
    by (rule returns_mono) (rule Suc.IH, use Suc.prems in auto)
  then show ?case using Suc.prems by simp
qed

text \<open>Moving the cursor in its line and marking a range of it.\<close>

lemma column_damage_returns:
  assumes t: "wf_term t" and c: "c < g_columns (t_grid t)"
  shows "returns (term_damage_line (p_line (cu_point (t_cursor (set_cursor_column c t)))) a b (set_cursor_column c t)) wf_term"
  using wf_set_cursor_column [OF t c] wf_cursor_bounds [OF wf_set_cursor_column [OF t c]]
  by (intro term_damage_line_wp) auto

lemma move_backward_tabs_returns: "wf_term t \<Longrightarrow> returns (move_backward_tabs n t) wf_term"
  unfolding move_backward_tabs_def Let_def returns_bind
  by (rule returns_mono [OF back_tabs_returns])
    (use wf_tabs [of t] wf_cursor_bounds [of t] in \<open>auto intro!: column_damage_returns\<close>)

lemma move_forward_tabs_returns: "wf_term t \<Longrightarrow> returns (move_forward_tabs n t) wf_term"
  unfolding move_forward_tabs_def Let_def returns_bind
  by (rule returns_mono [OF forward_tabs_returns])
    (use wf_tabs [of t] wf_cursor_bounds [of t] in \<open>auto intro!: column_damage_returns\<close>)

lemma wf_tabs_upd: "wf_term t \<Longrightarrow> length tabs = g_columns (t_grid t) \<Longrightarrow> wf_term (t\<lparr>t_tabs := tabs\<rparr>)"
  by (simp add: wf_term_def)

lemma tabstop_returns:
  "wf_term t \<Longrightarrow> returns (tabs_set (p_column (cu_point (t_cursor t))) b (t_tabs t)) (\<lambda>tabs. wf_term (t\<lparr>t_tabs := tabs\<rparr>))"
  using wf_tabs [of t] wf_cursor_bounds [of t] by (simp add: tabs_set_def wf_tabs_upd)

lemma clear_tabs_returns: "wf_term t \<Longrightarrow> returns (clear_tabs m t) wf_term"
  using tabstop_returns [of t False] wf_tabs [of t] by (cases m) (simp_all add: clear_tabs_def wf_tabs_upd)

subsection \<open>Other operations\<close>

lemma backspace_returns: "wf_term t \<Longrightarrow> returns (backspace t) wf_term"
proof -
  assume t: "wf_term t"
  let ?t = "set_needs_wrap False (set_cursor_column (p_column (cu_point (t_cursor t)) - 1) t)"
  have wf: "wf_term ?t" by (intro wf_set_needs_wrap wf_set_cursor_column t) (use wf_cursor_bounds [OF t] in auto)
  have "returns (term_damage_line (p_line (cu_point (t_cursor t))) a b ?t) wf_term" for a b
    by (rule term_damage_line_wp [OF wf]) (use wf wf_cursor_bounds [OF t] in \<open>auto simp: grid_set_cursor\<close>)
  then show ?thesis using t by (simp add: backspace_def Let_def)
qed

lemma newline_returns: "wf_term t \<Longrightarrow> returns (newline t) wf_term"
  unfolding newline_def returns_bind
proof (rule returns_mono [OF linefeed_returns], assumption, elim conjE)
  fix t' assume t': "wf_term t'"
  have "in_screen (grid_dims (t_grid t')) (Point (p_line (cu_point (t_cursor t'))) 0)"
    using wf_cursor [OF t'] by (auto simp: in_screen_def)
  then show "returns (if has_mode t' LINE_FEED_NEW_LINE then carriage_return t' else Some t') wf_term"
    using t' returns_mono [OF carriage_return_returns [OF t']] moved_wf [OF t'] by simp
qed

lemma reverse_index_returns: "wf_term t \<Longrightarrow> returns (reverse_index t) wf_term"
proof -
  assume t: "wf_term t"
  have "returns (term_scroll_down 1 t) wf_term"
    unfolding term_scroll_down_def
    by (rule returns_mono [OF scroll_down_relative_returns [OF t]]) (use wf_region [OF t] in auto)
  moreover have "returns (damage_cursor t) (\<lambda>t1. returns (damage_cursor
      (set_cursor_line (max (p_line (cu_point (t_cursor t1)) - 1) 0) t1)) wf_term)"
    by (rule returns_mono [OF move_line_returns [OF t, where l = "max (p_line (cu_point (t_cursor t)) - 1) 0"
          and e = "\<lambda>t1. max (p_line (cu_point (t_cursor t1)) - 1) 0"]])
      (use wf_cursor_bounds [OF t] in \<open>auto elim: returns_mono\<close>)
  ultimately show ?thesis by (simp add: reverse_index_def)
qed

lemma restore_cursor_returns: "wf_term t \<Longrightarrow> returns (restore_cursor_position t) wf_term"
  unfolding restore_cursor_position_def Let_def returns_bind
proof (rule returns_mono [OF damage_cursor_returns], assumption, elim conjE)
  fix t' assume t': "wf_term t'"
  have "wf_term (t'\<lparr>t_grid := (t_grid t')\<lparr>g_cursor := g_saved_cursor (t_grid t')\<rparr>\<rparr>)"
    using t' by (simp add: wf_term_def grid_ok_def)
  then show "returns (damage_cursor (t'\<lparr>t_grid := (t_grid t')\<lparr>g_cursor := g_saved_cursor (t_grid t')\<rparr>\<rparr>)) wf_term"
    by (rule returns_mono [OF damage_cursor_returns]) simp
qed

lemma save_cursor_wf: "wf_term t \<Longrightarrow> wf_term (save_cursor_position t)"
  by (simp add: save_cursor_position_def wf_term_def grid_ok_def)

lemma grid_set_region: "t_grid (t\<lparr>t_scroll_region := r\<rparr>) = t_grid t"
  by simp

lemma set_scrolling_region_returns:
  assumes t: "wf_term t" and "1 \<le> first"
  shows "returns (set_scrolling_region first bottom t) wf_term"
proof -
  define b where "b = (case bottom of Some b \<Rightarrow> b | None \<Rightarrow> g_lines (t_grid t))"
  let ?n = "int (g_lines (t_grid t))"
  have "wf_term (t\<lparr>t_scroll_region := (min (int first - 1) ?n, min (int b) ?n)\<rparr>)" if "first < b"
    using t assms(2) that by (auto simp: wf_term_def)
  then show ?thesis
    using t goto_wf unfolding set_scrolling_region_def Let_def t_dims_sel b_def [symmetric] by simp
qed

lemma deccolm_returns:
  assumes t: "wf_term t"
  shows "returns (deccolm t) wf_term"
  unfolding deccolm_def returns_bind returns_Some
proof (rule returns_mono [OF set_scrolling_region_returns [OF t order.refl]])
  fix t1 assume t1: "wf_term t1"
  have "returns (reset_region None None (t_grid t1)) (\<lambda>g. grid_core_ok g \<and> same_frame (t_grid t1) g \<and> True)"
    by (rule returns_mono [OF reset_region_returns [OF wf_core [OF t1]]])
      (use wf_lines [OF t1] in \<open>auto simp: raw_frame_def\<close>)
  from on_grid_wf [where f = "reset_region None None", OF t1 this]
  show "returns (on_grid (reset_region None None) t1) (\<lambda>t2. wf_term (mark_fully_damaged t2))"
    by (rule returns_mono) simp
qed

lemma wf_swap: "wf_term t \<Longrightarrow> wf_term (t\<lparr>t_grid := t_inactive_grid t, t_inactive_grid := t_grid t\<rparr>)"
  by (auto simp: wf_term_def in_screen_def bottommost_line_def)

lemma wf_swap_screens: "wf_term t \<Longrightarrow> wf_term (swap_screens t)"
proof -
  assume "wf_term t"
  let ?t = "apply_keyboard_mode (mode_of_keyboard (last_keyboard_mode (t_inactive_keyboard_mode_stack t))) Replace
     (t\<lparr>t_keyboard_mode_stack := t_inactive_keyboard_mode_stack t,
       t_inactive_keyboard_mode_stack := t_keyboard_mode_stack t\<rparr>)"
  have "wf_term ?t" using \<open>wf_term t\<close> by simp
  from wf_swap [OF this]
  have "wf_term (?t\<lparr>t_grid := t_inactive_grid ?t, t_inactive_grid := t_grid ?t, t_mode := t_mode ?t XOR ALT_SCREEN, t_selection := None\<rparr>)"
    by simp
  then show ?thesis by (simp add: swap_screens_def Let_def)
qed

lemma enter_alt_returns:
  assumes t: "wf_term t"
  shows "returns (reset_region None None ((t_inactive_grid t)\<lparr>g_cursor := t_cursor t\<rparr>))
     (\<lambda>g. wf_term (t\<lparr>t_grid := (t_grid t)\<lparr>g_saved_cursor := t_cursor t\<rparr>, t_inactive_grid := g\<rparr>))"
proof -
  let ?i = "(t_inactive_grid t)\<lparr>g_cursor := t_cursor t\<rparr>"
  have i: "grid_core_ok ?i" "1 \<le> g_lines ?i"
    using wf_inactive_core [OF t] grid_core_ok_dims [OF wf_inactive_core [OF t]] by (auto simp: wf_dims_def)
  have ok: "grid_ok ?i" "g_columns ?i = g_columns (t_grid t)" "g_lines ?i = g_lines (t_grid t)"
    using t by (auto simp: wf_term_def grid_ok_def in_screen_def bottommost_line_def)
  have "wf_term (t\<lparr>t_grid := (t_grid t)\<lparr>g_saved_cursor := t_cursor t\<rparr>, t_inactive_grid := g\<rparr>)"
    if g: "grid_core_ok g" "raw_frame ?i g" for g
  proof -
    have "grid_ok g" using grid_ok_frame [OF ok(1) _ g(1)] g(2) by (simp add: raw_frame_def)
    moreover have "g_columns g = g_columns (t_grid t)" "g_lines g = g_lines (t_grid t)"
      using g(2) ok(2,3) by (auto simp: raw_frame_def same_frame_def)
    ultimately show ?thesis using t by (simp add: wf_term_def grid_ok_def)
  qed
  then show ?thesis
    by (intro returns_mono [OF reset_region_returns [OF i(1)]]) (use i in auto)
qed

lemma swap_alt_returns: "wf_term t \<Longrightarrow> returns (swap_alt t) wf_term"
  using returns_mono [OF enter_alt_returns wf_swap_screens, of t] wf_swap_screens [of t]
  by (simp add: swap_alt_def Let_def)

lemma reset_fields_wf:
  assumes "wf_term t" "grid_ok g" "grid_ok g'" "g_lines g = g_lines (t_grid t)" "g_columns g = g_columns (t_grid t)"
    "g_lines g' = g_lines (t_grid t)" "g_columns g' = g_columns (t_grid t)"
  shows "wf_term (reset_fields g g' t)"
  using assms
  by (simp add: reset_fields_def Let_def) (auto simp: wf_term_def in_screen_def bottommost_line_def)

lemma reset_state_returns: "wf_term t \<Longrightarrow> returns (reset_state t) wf_term"
proof -
  assume t: "wf_term t"
  let ?t = "(if has_mode t ALT_SCREEN then t\<lparr>t_grid := t_inactive_grid t, t_inactive_grid := t_grid t\<rparr> else t)
    \<lparr>t_active_charset := G0, t_cursor_style := None\<rparr>"
  have wf: "wf_term ?t" using t wf_swap [OF t] by simp
  show ?thesis
    unfolding reset_state_def Let_def returns_bind returns_Some
  proof (rule returns_mono [OF grid_reset_returns [OF wf_core [OF wf]]],
      rule returns_mono [OF grid_reset_returns [OF wf_inactive_core [OF wf]]], elim conjE, rule reset_fields_wf [OF wf])
    fix g g' :: grid
    assume "g_lines g' = g_lines (t_inactive_grid ?t)" "g_columns g' = g_columns (t_inactive_grid ?t)"
    then show "g_lines g' = g_lines (t_grid ?t)" "g_columns g' = g_columns (t_grid ?t)"
      using wf by (simp_all only: wf_term_def)
  qed
qed

lemma set_options_returns: "wf_term t \<Longrightarrow> returns (set_options cfg t) wf_term"
proof -
  assume t: "wf_term t"
  let ?e = "case t_title (t\<lparr>t_config := cfg\<rparr>) of Some title \<Rightarrow> Title title | None \<Rightarrow> ResetTitle"
  let ?t = "send_event ?e (t\<lparr>t_config := cfg\<rparr>)"
  have wf: "wf_term ?t" using t by simp
  let ?n = "cfg_scrolling_history (t_config ?t)"
  have "returns (update_history ?n (t_grid ?t)) (\<lambda>g. wf_term (?t\<lparr>t_grid := g\<rparr>))"
    by (rule returns_mono [OF update_history_returns [OF wf_core [OF wf]]])
      (use wf in \<open>auto simp: wf_term_def grid_ok_def in_screen_def bottommost_line_def\<close>)
  moreover have "returns (update_history ?n (t_inactive_grid ?t)) (\<lambda>g. wf_term (?t\<lparr>t_inactive_grid := g\<rparr>))"
    by (rule returns_mono [OF update_history_returns [OF wf_inactive_core [OF wf]]])
      (use wf in \<open>auto simp: wf_term_def grid_ok_def in_screen_def bottommost_line_def\<close>)
  ultimately have "returns (if has_mode ?t ALT_SCREEN then map_option (\<lambda>g. ?t\<lparr>t_inactive_grid := g\<rparr>) (update_history ?n (t_inactive_grid ?t))
      else on_grid (update_history ?n) ?t) wf_term"
    by (simp add: on_grid_returns)
  then show ?thesis
    unfolding set_options_def Let_def returns_bind returns_Some
    by (rule returns_mono) simp
qed

text \<open>A damage report covers what was marked, the previous and the current cursor position; on a display that is not
  scrolled, entries are screen lines.\<close>

definition damage_reported :: "terminal \<Rightarrow> terminal \<times> term_damage \<Rightarrow> (nat \<Rightarrow> nat \<Rightarrow> bool) \<Rightarrow> bool" where
  "damage_reported t r P \<longleftrightarrow> (case snd r of
      Full \<Rightarrow> True
    | Partial it \<Rightarrow> (\<forall>line c. line < g_lines (t_grid t) \<and> g_display_offset (t_grid t) \<le> line
          \<and> P (line - g_display_offset (t_grid t)) c \<longrightarrow>
        (\<exists>x \<in> set (damage_collect it). ld_line x = line \<and> ld_left x \<le> c \<and> c \<le> ld_right x)))"

lemma damage_reported_mono:
  "damage_reported t r P' \<Longrightarrow> t_grid t = t_grid t' \<Longrightarrow> (\<And>l c. P l c \<Longrightarrow> P' l c) \<Longrightarrow> damage_reported t' r P"
  by (cases "snd r") (auto simp: damage_reported_def)

lemma mark_point_returns:
  assumes t: "wf_term t" and p: "in_screen (grid_dims (t_grid t)) p"
  shows "returns (if dm_last_cursor (t_damage t) \<noteq> p
       then do { line \<leftarrow> as_usize (p_line p); on_damage (damage_point (Point line (p_column p))) t } else Some t)
     (\<lambda>t'. \<exists>d. damage_step t d \<and> t' = t\<lparr>t_damage := d\<rparr>
        \<and> (dm_last_cursor (t_damage t) \<noteq> p \<longrightarrow> damaged_cell d (nat (p_line p)) (p_column p)))"
proof (cases "dm_last_cursor (t_damage t) \<noteq> p")
  case True
  have "returns (term_damage_line (p_line p) (p_column p) (p_column p) t) (\<lambda>t'. \<exists>d. damage_step t d \<and> t' = t\<lparr>t_damage := d\<rparr>
        \<and> damaged_cell d (nat (p_line p)) (p_column p))"
    by (rule term_damage_line_wp [OF t]) (use p in \<open>auto simp: in_screen_def bottommost_line_def\<close>)
  then show ?thesis using True by (simp add: term_damage_line_def damage_point_def)
next
  case False
  then show ?thesis using damage_step_refl [OF t] by (auto intro!: exI [of _ "t_damage t"])
qed

lemma collect_damage_returns:
  assumes t: "wf_term t" and p: "in_screen (grid_dims (t_grid t)) p"
    and last: "dm_last_cursor (t_damage t) = cu_point (t_cursor t)"
  shows "returns (collect_damage p t) (\<lambda>r. wf_term (fst r) \<and> (snd r = Full \<longleftrightarrow> dm_full (t_damage t))
     \<and> damage_reported t r (\<lambda>l c. damaged_cell (t_damage t) l c \<or> (l, c) = (nat (p_line p), p_column p)
          \<or> (l, c) = (nat (p_line (cu_point (t_cursor t))), p_column (cu_point (t_cursor t)))))"
proof (cases "dm_full (t_damage t)")
  case True
  then show ?thesis using t by (simp add: collect_damage_def damage_reported_def)
next
  case False
  let ?c = "cu_point (t_cursor t)"
  have post: "returns (damage_cursor (t\<lparr>t_damage := d\<rparr>)) (\<lambda>t2. (\<lambda>r. wf_term (fst r) \<and> (snd r = Full \<longleftrightarrow> dm_full (t_damage t))
     \<and> damage_reported t r (\<lambda>l c. damaged_cell (t_damage t) l c \<or> (l, c) = (nat (p_line p), p_column p)
          \<or> (l, c) = (nat (p_line ?c), p_column ?c)))
       (t2, Partial (damage_iterator_new (dm_lines (t_damage t2)) (g_display_offset (t_grid t2)))))"
    if d: "damage_step t d" "dm_last_cursor (t_damage t) \<noteq> p \<longrightarrow> damaged_cell d (nat (p_line p)) (p_column p)" for d
  proof (rule damage_cursor_wp [OF wf_damage [OF t d(1)]])
    fix e
    assume e: "damage_step (t\<lparr>t_damage := d\<rparr>) e"
      "damaged_cell e (nat (p_line (cu_point (t_cursor (t\<lparr>t_damage := d\<rparr>))))) (p_column (cu_point (t_cursor (t\<lparr>t_damage := d\<rparr>))))"
    have te: "damage_step t e" by (rule damage_step_trans [OF d(1) e(1)]) simp_all
    have ok: "damage_ok (g_lines (t_grid t)) e" "\<not> dm_full e" using te False by (auto simp: damage_step_def)
    have "damaged_cell e l c" if "damaged_cell (t_damage t) l c \<or> (l, c) = (nat (p_line p), p_column p)
          \<or> (l, c) = (nat (p_line ?c), p_column ?c)" for l c
      using that te d e last by (cases "p = ?c") (auto simp: damage_step_def damage_grows_def)
    then show "(\<lambda>r. wf_term (fst r) \<and> (snd r = Full \<longleftrightarrow> dm_full (t_damage t))
     \<and> damage_reported t r (\<lambda>l c. damaged_cell (t_damage t) l c \<or> (l, c) = (nat (p_line p), p_column p)
          \<or> (l, c) = (nat (p_line ?c), p_column ?c)))
       ((t\<lparr>t_damage := d\<rparr>)\<lparr>t_damage := e\<rparr>, Partial (damage_iterator_new (dm_lines (t_damage ((t\<lparr>t_damage := d\<rparr>)\<lparr>t_damage := e\<rparr>)))
          (g_display_offset (t_grid ((t\<lparr>t_damage := d\<rparr>)\<lparr>t_damage := e\<rparr>)))))"
      using wf_damage [OF t te] False damage_iterator_items [OF ok] by (simp add: damage_reported_def)
  qed
  show ?thesis
    unfolding collect_damage_def if_not_P [OF False] returns_bind returns_Some
    by (rule returns_mono [OF mark_point_returns [OF t p]]) (use post in blast)
qed

lemma term_damage_returns:
  assumes t: "wf_term t"
  shows "returns (term_damage t) (\<lambda>r. wf_term (fst r) \<and> (snd r = Full \<longleftrightarrow> dm_full (t_damage t) \<or> has_mode t INSERT)
     \<and> damage_reported t r (\<lambda>l c. damaged_cell (t_damage t) l c
          \<or> (l, c) = (nat (p_line (dm_last_cursor (t_damage t))), p_column (dm_last_cursor (t_damage t)))
          \<or> (l, c) = (nat (p_line (cu_point (t_cursor t))), p_column (cu_point (t_cursor t)))))"
proof -
  let ?t0 = "if has_mode t INSERT then mark_fully_damaged t else t"
  let ?t1 = "?t0\<lparr>t_damage := (t_damage ?t0)\<lparr>dm_last_cursor := cu_point (t_cursor ?t0)\<rparr>\<rparr>"
  have wf0: "wf_term ?t0" using t by simp
  have wf: "wf_term ?t1" using wf0 wf_cursor [OF wf0] by (simp add: wf_term_def)
  have sel: "t_grid ?t1 = t_grid t" "dm_last_cursor (t_damage ?t0) = dm_last_cursor (t_damage t)"
    "dm_full (t_damage ?t1) \<longleftrightarrow> dm_full (t_damage t) \<or> has_mode t INSERT"
    "dm_last_cursor (t_damage ?t1) = cu_point (t_cursor t)"
    "damaged_cell (t_damage t) l c \<Longrightarrow> damaged_cell (t_damage ?t1) l c" for l c
    by (auto simp: mark_fully_damaged_def damaged_cell_def)
  have last: "in_screen (grid_dims (t_grid t)) (dm_last_cursor (t_damage t))" using t by (simp add: wf_term_def)
  have "returns (collect_damage (dm_last_cursor (t_damage ?t0)) ?t1) (\<lambda>r. wf_term (fst r) \<and> (snd r = Full \<longleftrightarrow> dm_full (t_damage ?t1))
     \<and> damage_reported ?t1 r (\<lambda>l c. damaged_cell (t_damage ?t1) l c
          \<or> (l, c) = (nat (p_line (dm_last_cursor (t_damage ?t0))), p_column (dm_last_cursor (t_damage ?t0)))
          \<or> (l, c) = (nat (p_line (cu_point (t_cursor ?t1))), p_column (cu_point (t_cursor ?t1)))))"
    by (rule collect_damage_returns [OF wf]) (simp_all only: sel last)
  then show ?thesis
    unfolding term_damage_def Let_def
    unfolding sel(2,3) sel(1) [THEN arg_cong, of g_cursor]
    by (rule returns_mono, elim conjE) (intro conjI, assumption+, erule damage_reported_mono, rule sel(1), use sel(5) in blast)
qed

lemma set_color_returns: "wf_term t \<Longrightarrow> i < COUNT \<Longrightarrow> returns (set_color i c t) wf_term"
  by (simp add: set_color_def colors_get_def colors_set_def wf_term_def mark_fully_damaged_def)

lemma reset_color_returns: "wf_term t \<Longrightarrow> i < COUNT \<Longrightarrow> returns (reset_color i t) wf_term"
  by (simp add: reset_color_def colors_get_def colors_set_def wf_term_def mark_fully_damaged_def)

lemma push_keyboard_returns:
  assumes "wf_term t" "length (t_keyboard_mode_stack t) < KEYBOARD_MODE_STACK_MAX_DEPTH \<or> t_title_stack t \<noteq> []"
  shows "returns (push_keyboard_mode m t) wf_term"
proof -
  have "wf_term (t\<lparr>t_title_stack := tl (t_title_stack t)\<rparr>)" using assms(1) by (auto simp: wf_term_def)
  then show ?thesis using assms by (auto simp: push_keyboard_mode_def Let_def)
qed

lemma push_title_wf: "wf_term t \<Longrightarrow> wf_term (push_title t)"
  by (auto simp: push_title_def wf_term_def Let_def TITLE_STACK_MAX_DEPTH_def)

lemma pop_title_wf: "wf_term t \<Longrightarrow> wf_term (pop_title t)"
  by (auto simp: pop_title_def set_title_def wf_term_def send_event_def)

lemma set_named_private_mode_returns: "wf_term t \<Longrightarrow> returns (set_named_private_mode m t) wf_term"
  using swap_alt_returns goto_wf deccolm_returns by (cases m) simp_all

lemma unset_named_private_mode_returns: "wf_term t \<Longrightarrow> returns (unset_named_private_mode m t) wf_term"
  using swap_alt_returns deccolm_returns by (cases m) simp_all

lemma set_private_mode_returns: "wf_term t \<Longrightarrow> returns (set_private_mode m t) wf_term"
  by (cases m) (simp_all add: set_named_private_mode_returns)

lemma unset_private_mode_returns: "wf_term t \<Longrightarrow> returns (unset_private_mode m t) wf_term"
  by (cases m) (simp_all add: unset_named_private_mode_returns)

lemma scroll_display_wf: "wf_term t \<Longrightarrow> wf_term (scroll_display sc t)"
proof -
  assume t: "wf_term t"
  have "wf_term (t\<lparr>t_grid := grid_scroll_display sc (t_grid t)\<rparr>)"
    by (rule wf_term_grid [OF t grid_scroll_display_ok [OF wf_core [OF t]]])
      (simp add: grid_scroll_display_def same_frame_def)
  then show ?thesis by (simp add: scroll_display_def vi_mode_recompute_selection_def Let_def)
qed

lemma version_ok: "version_number CARGO_PKG_VERSION = Some 2502"
proof -
  have "split_on 46 (before_last 45 CARGO_PKG_VERSION) = [[48], [50, 53], [50]]"
    by code_simp
  moreover have "parse_usize [48] = Some 0" "parse_usize [50, 53] = Some 25" "parse_usize [50] = Some 2"
    by (simp_all add: parse_usize_def undec_def)
  ultimately show ?thesis
    by (simp add: version_number_def)
qed

subsection \<open>Actions\<close>

text \<open>Moves of the cursor.\<close>

datatype move_action =
    Goto int nat | GotoLine int | GotoCol nat | MoveUp nat | MoveDown nat | MoveForward nat
  | MoveBackward nat | MoveDownAndCr nat | MoveUpAndCr nat | PutTab nat | Backspace | CarriageReturn
  | Linefeed | Newline | ReverseIndex | MoveBackwardTabs nat | MoveForwardTabs nat | SaveCursorPosition
  | RestoreCursorPosition

primrec exec_move :: "externals \<Rightarrow> move_action \<Rightarrow> terminal \<Rightarrow> terminal option" where
  "exec_move x (Goto l c) t = goto l c t"
| "exec_move x (GotoLine l) t = goto_line l t"
| "exec_move x (GotoCol c) t = goto_col c t"
| "exec_move x (MoveUp n) t = move_up n t"
| "exec_move x (MoveDown n) t = move_down n t"
| "exec_move x (MoveForward n) t = move_forward n t"
| "exec_move x (MoveBackward n) t = move_backward n t"
| "exec_move x (MoveDownAndCr n) t = move_down_and_cr n t"
| "exec_move x (MoveUpAndCr n) t = move_up_and_cr n t"
| "exec_move x (PutTab n) t = put_tab x n t"
| "exec_move x Backspace t = backspace t"
| "exec_move x CarriageReturn t = carriage_return t"
| "exec_move x Linefeed t = linefeed t"
| "exec_move x Newline t = newline t"
| "exec_move x ReverseIndex t = reverse_index t"
| "exec_move x (MoveBackwardTabs n) t = move_backward_tabs n t"
| "exec_move x (MoveForwardTabs n) t = move_forward_tabs n t"
| "exec_move x SaveCursorPosition t = Some (save_cursor_position t)"
| "exec_move x RestoreCursorPosition t = restore_cursor_position t"

text \<open>Changes of the contents of the screen.\<close>

datatype edit_action =
    Input uchar | Decaln | InsertBlank nat | ScrollUp nat | ScrollDown nat | InsertBlankLines nat
  | DeleteLines nat | EraseChars nat | DeleteChars nat | ClearLineAction line_clear_mode
  | ClearScreen clear_mode | ClearTabs tab_clear_mode | SetHorizontalTabstop | ResetState

primrec exec_edit :: "externals \<Rightarrow> edit_action \<Rightarrow> terminal \<Rightarrow> terminal option" where
  "exec_edit x (Input ch) t = input x ch t"
| "exec_edit x Decaln t = decaln t"
| "exec_edit x (InsertBlank n) t = insert_blank n t"
| "exec_edit x (ScrollUp n) t = term_scroll_up n t"
| "exec_edit x (ScrollDown n) t = term_scroll_down n t"
| "exec_edit x (InsertBlankLines n) t = insert_blank_lines n t"
| "exec_edit x (DeleteLines n) t = delete_lines n t"
| "exec_edit x (EraseChars n) t = erase_chars n t"
| "exec_edit x (DeleteChars n) t = delete_chars n t"
| "exec_edit x (ClearLineAction m) t = clear_line m t"
| "exec_edit x (ClearScreen m) t = clear_screen m t"
| "exec_edit x (ClearTabs m) t = clear_tabs m t"
| "exec_edit x SetHorizontalTabstop t = set_horizontal_tabstop t"
| "exec_edit x ResetState t = reset_state t"

text \<open>Changes of modes, attributes, colours, titles and keyboard modes.\<close>

datatype state_action =
    PushKeyboardMode keyboard_modes | PopKeyboardModes nat | SetKeyboardMode keyboard_modes apply_behavior
  | SetColor nat rgb | ResetColor nat | SetHyperlink "32 word" "(ustring option \<times> ustring) option"
  | TerminalAttribute attr | SetPrivateMode private_mode | UnsetPrivateMode private_mode | SetMode mode
  | UnsetMode mode | SetScrollingRegion nat "nat option" | SetKeypad | UnsetKeypad
  | ConfigureCharset charset_index standard_charset | SetActiveCharset charset_index
  | SetCursorStyle "cursor_style option" | SetCursorShape cursor_shape | SetTitle "ustring option"
  | PushTitle | PopTitle

primrec exec_state :: "externals \<Rightarrow> state_action \<Rightarrow> terminal \<Rightarrow> terminal option" where
  "exec_state x (PushKeyboardMode m) t = push_keyboard_mode m t"
| "exec_state x (PopKeyboardModes n) t = Some (pop_keyboard_modes n t)"
| "exec_state x (SetKeyboardMode m b) t = Some (set_keyboard_mode m b t)"
| "exec_state x (SetColor i c) t = set_color i c t"
| "exec_state x (ResetColor i) t = reset_color i t"
| "exec_state x (SetHyperlink i h) t = Some (fst (term_set_hyperlink i h t))"
| "exec_state x (TerminalAttribute a) t = Some (terminal_attribute a t)"
| "exec_state x (SetPrivateMode m) t = set_private_mode m t"
| "exec_state x (UnsetPrivateMode m) t = unset_private_mode m t"
| "exec_state x (SetMode m) t = Some (set_mode m t)"
| "exec_state x (UnsetMode m) t = Some (unset_mode m t)"
| "exec_state x (SetScrollingRegion a b) t = set_scrolling_region a b t"
| "exec_state x SetKeypad t = Some (set_keypad_application_mode t)"
| "exec_state x UnsetKeypad t = Some (unset_keypad_application_mode t)"
| "exec_state x (ConfigureCharset i cs) t = Some (configure_charset i cs t)"
| "exec_state x (SetActiveCharset i) t = Some (set_active_charset i t)"
| "exec_state x (SetCursorStyle cs) t = Some (set_cursor_style cs t)"
| "exec_state x (SetCursorShape sh) t = Some (set_cursor_shape sh t)"
| "exec_state x (SetTitle ti) t = Some (set_title ti t)"
| "exec_state x PushTitle t = Some (push_title t)"
| "exec_state x PopTitle t = Some (pop_title t)"

text \<open>Reports and requests to the user interface.\<close>

datatype report_action =
    IdentifyTerminal "uchar option" | ReportKeyboardMode | DeviceStatus nat | BellAction | Substitute
  | DynamicColorSequence ustring nat ustring | ClipboardStoreAction nat "8 word list"
  | ClipboardLoadAction nat ustring | ReportPrivateMode private_mode | ReportMode mode | TextAreaSizePixels
  | TextAreaSizeChars

primrec exec_report :: "externals \<Rightarrow> report_action \<Rightarrow> terminal \<Rightarrow> terminal option" where
  "exec_report x (IdentifyTerminal i) t = identify_terminal i t"
| "exec_report x ReportKeyboardMode t = Some (report_keyboard_mode x t)"
| "exec_report x (DeviceStatus n) t = Some (device_status n t)"
| "exec_report x BellAction t = Some (bell t)"
| "exec_report x Substitute t = Some (substitute t)"
| "exec_report x (DynamicColorSequence p i s) t = Some (dynamic_color_sequence p i s t)"
| "exec_report x (ClipboardStoreAction b d) t = Some (clipboard_store x b d t)"
| "exec_report x (ClipboardLoadAction b s) t = Some (clipboard_load x b s t)"
| "exec_report x (ReportPrivateMode m) t = Some (report_private_mode x m t)"
| "exec_report x (ReportMode m) t = Some (report_mode x m t)"
| "exec_report x TextAreaSizePixels t = Some (text_area_size_pixels t)"
| "exec_report x TextAreaSizeChars t = Some (text_area_size_chars t)"

text \<open>Calls of the user interface.\<close>

datatype ui_action =
    ScrollDisplay scroll | SetOptions config | CollectDamage | ResetDamage | ToggleViMode
  | ViGotoPoint point | SetSelection "selection option" | SetFocus bool | SetAutoScroll bool | ExitAction

primrec exec_ui :: "externals \<Rightarrow> ui_action \<Rightarrow> terminal \<Rightarrow> terminal option" where
  "exec_ui x (ScrollDisplay sc) t = Some (scroll_display sc t)"
| "exec_ui x (SetOptions cfg) t = set_options cfg t"
| "exec_ui x CollectDamage t = map_option fst (term_damage t)"
| "exec_ui x ResetDamage t = Some (term_reset_damage t)"
| "exec_ui x ToggleViMode t = Some (toggle_vi_mode t)"
| "exec_ui x (ViGotoPoint p) t = Some (vi_goto_point p t)"
| "exec_ui x (SetSelection s) t = Some (t\<lparr>t_selection := s\<rparr>)"
| "exec_ui x (SetFocus b) t = Some (t\<lparr>t_is_focused := b\<rparr>)"
| "exec_ui x (SetAutoScroll b) t = Some (t\<lparr>t_grid := set_auto_scroll_enabled b (t_grid t)\<rparr>)"
| "exec_ui x ExitAction t = Some (term_exit t)"

datatype action = Move move_action | Edit edit_action | Change state_action | Report report_action | Ui ui_action

primrec exec :: "externals \<Rightarrow> action \<Rightarrow> terminal \<Rightarrow> terminal option" where
  "exec x (Move a) t = exec_move x a t"
| "exec x (Edit a) t = exec_edit x a t"
| "exec x (Change a) t = exec_state x a t"
| "exec x (Report a) t = exec_report x a t"
| "exec x (Ui a) t = exec_ui x a t"

definition allowed_state :: "state_action \<Rightarrow> terminal \<Rightarrow> bool" where
  "allowed_state a t = (case a of
      SetScrollingRegion first bottom \<Rightarrow> 1 \<le> first
    | SetColor i c \<Rightarrow> i < COUNT
    | ResetColor i \<Rightarrow> i < COUNT
    | PushKeyboardMode m \<Rightarrow>
        length (t_keyboard_mode_stack t) < KEYBOARD_MODE_STACK_MAX_DEPTH \<or> t_title_stack t \<noteq> []
    | _ \<Rightarrow> True)"

definition allowed :: "action \<Rightarrow> terminal \<Rightarrow> bool" where
  "allowed a t = (case a of Change s \<Rightarrow> allowed_state s t | _ \<Rightarrow> True)"

inductive reachable :: "externals \<Rightarrow> terminal \<Rightarrow> bool" for x :: externals where
  start: "2 \<le> cols \<Longrightarrow> 1 \<le> lines \<Longrightarrow> term_new cfg cols lines = Some t \<Longrightarrow> reachable x t"
| step: "reachable x t \<Longrightarrow> allowed a t \<Longrightarrow> exec x a t = Some t' \<Longrightarrow> reachable x t'"

inductive_cases reachableE: "reachable x t"

text \<open>A run of a list of actions.\<close>

fun run :: "externals \<Rightarrow> action list \<Rightarrow> terminal \<Rightarrow> terminal option" where
  "run x [] t = Some t"
| "run x (a # as) t = (if allowed a t then exec x a t \<bind> run x as else None)"

subsection \<open>The invariant is kept\<close>

lemma term_new_returns:
  assumes "2 \<le> cols" "1 \<le> lines"
  shows "returns (term_new cfg cols lines) wf_term"
  unfolding term_new_def returns_bind returns_Some
proof (rule returns_mono [OF grid_new_returns], use assms in simp, use assms in simp,
    rule returns_mono [OF grid_new_returns], use assms in simp, use assms in simp, elim conjE)
  fix g g' :: grid
  assume "grid_ok g" "g_lines g = lines" "g_columns g = cols" "grid_ok g'" "g_lines g' = lines" "g_columns g' = cols"
  then show "wf_term \<lparr>t_is_focused = False, t_vi_cursor = default_point, t_selection = None, t_grid = g,
           t_inactive_grid = g', t_active_charset = G0, t_tabs = tabs_new (g_columns g),
           t_mode = default_mode, t_scroll_region = (0, int (g_lines g)), t_colors = default_colors,
           t_cursor_style = None, t_events = [], t_title = None, t_title_stack = [],
           t_keyboard_mode_stack = [], t_inactive_keyboard_mode_stack = [],
           t_damage = damage_new cols lines, t_config = cfg\<rparr>"
    using assms by (simp add: wf_term_def default_colors_def damage_new_def [THEN arg_cong [of _ _ dm_last_cursor]]
        in_screen_def default_point_def bottommost_line_def)
qed

lemma moved_goto_wf:
  assumes "wf_term t"
  shows "returns (move_forward n t) wf_term" "returns (move_backward n t) wf_term" "returns (carriage_return t) wf_term"
  using wf_cursor [OF assms] wf_cols [OF assms]
  by (auto intro!: returns_mono [OF move_forward_returns [OF assms]] returns_mono [OF move_backward_returns [OF assms]]
      returns_mono [OF carriage_return_returns [OF assms]] elim!: moved_wf [OF assms, rotated] simp: in_screen_def)

lemma cells_wf:
  assumes "wf_term t"
  shows "returns (decaln t) wf_term" "returns (insert_blank n t) wf_term" "returns (erase_chars n t) wf_term"
    "returns (delete_chars n t) wf_term" "returns (clear_line m t) wf_term"
  by (auto intro: returns_mono [OF decaln_returns [OF assms]] returns_mono [OF insert_blank_returns [OF assms]]
      returns_mono [OF erase_chars_returns [OF assms]] returns_mono [OF delete_chars_returns [OF assms]]
      returns_mono [OF clear_line_returns [OF assms]] dest: cells_stepD(1))

lemma clear_screen_wf:
  assumes "wf_term t"
  shows "returns (clear_screen m t) wf_term"
proof (cases m)
  case ClearBelow
  show ?thesis unfolding ClearBelow by (rule returns_mono [OF clear_below_returns [OF assms]]) (auto dest: cells_stepD)
next
  case ClearAbove
  show ?thesis unfolding ClearAbove by (rule returns_mono [OF clear_above_returns [OF assms]]) (auto dest: cells_stepD)
next
  case ClearAll
  show ?thesis unfolding ClearAll
    by (cases "has_mode t ALT_SCREEN")
      (auto intro: returns_mono [OF clear_all_alt_returns [OF assms]] returns_mono [OF clear_all_primary_returns [OF assms]]
        dest: cells_stepD)
next
  case ClearSaved
  show ?thesis unfolding ClearSaved by (rule returns_mono [OF clear_saved_returns [OF assms]]) simp
qed

lemma lines_wf:
  assumes "wf_term t"
  shows "returns (linefeed t) wf_term" "returns (insert_blank_lines n t) wf_term" "returns (delete_lines n t) wf_term"
    "returns (term_scroll_up n t) wf_term" "returns (term_scroll_down n t) wf_term"
  using wf_region [OF assms]
  by (auto intro: returns_mono [OF linefeed_returns [OF assms]] returns_mono [OF insert_blank_lines_returns [OF assms]]
      returns_mono [OF delete_lines_returns [OF assms]] simp: term_scroll_up_def term_scroll_down_def
      intro!: returns_mono [OF scroll_up_relative_returns [OF assms]] returns_mono [OF scroll_down_relative_returns [OF assms]])

lemma pure_wf:
  assumes "wf_term t"
  shows "wf_term (report_keyboard_mode x t)" "wf_term (pop_keyboard_modes n t)" "wf_term (set_keyboard_mode km b t)"
    "wf_term (device_status n t)" "wf_term (clipboard_store x n d t)" "wf_term (clipboard_load x n s t)"
    "wf_term (fst (term_set_hyperlink i h t))" "wf_term (report_private_mode x pm t)" "wf_term (set_mode m t)"
    "wf_term (unset_mode m t)" "wf_term (toggle_vi_mode t)" "wf_term (vi_goto_point p t)" "wf_term (term_reset_damage t)"
    "wf_term (configure_charset ci cs t)" "wf_term (set_title ti t)"
proof -
  show "wf_term (fst (term_set_hyperlink i h t))"
    using assms by (auto simp: term_set_hyperlink_def split: option.split prod.split)
  show "wf_term (set_mode m t)" "wf_term (unset_mode m t)"
    using assms by (cases "(m, t)" rule: set_mode.cases; simp)+
  show "wf_term (vi_goto_point p t)"
    using assms scroll_display_wf by (auto simp: vi_goto_point_def scroll_to_point_def vi_mode_recompute_selection_def Let_def)
  show "wf_term (term_reset_damage t)"
    using assms by (simp add: term_reset_damage_def wf_term_def damage_reset_def [THEN arg_cong [of _ _ dm_last_cursor]])
  show "wf_term (configure_charset ci cs t)"
    unfolding configure_charset_def by (rule wf_upd_cursor [OF assms]) (simp add: wf_cursor [OF assms])
  show "wf_term (report_private_mode x pm t)"
    using assms by (auto simp: report_private_mode_def private_mode_state_def Let_def split: private_mode.split)
qed (use assms in \<open>auto simp: report_keyboard_mode_def pop_keyboard_modes_def set_keyboard_mode_def device_status_def
  clipboard_store_def clipboard_load_def toggle_vi_mode_def set_title_def Let_def split: option.split\<close>)

lemma identify_wf: "wf_term t \<Longrightarrow> returns (identify_terminal i t) wf_term"
  by (auto simp: identify_terminal_def version_ok split: option.split)

lemma exec_move_wf: "wf_term t \<Longrightarrow> returns (exec_move x a t) wf_term"
  using put_tab_returns backspace_returns lines_wf newline_returns reverse_index_returns move_backward_tabs_returns
    move_forward_tabs_returns restore_cursor_returns
  by (cases a) (simp_all add: goto_wf moved_goto_wf goto_line_def goto_col_def move_up_def move_down_def
      move_down_and_cr_def move_up_and_cr_def save_cursor_wf)

lemma exec_edit_wf: "wf_term t \<Longrightarrow> returns (exec_edit x a t) wf_term"
  using input_returns cells_wf lines_wf clear_screen_wf clear_tabs_returns reset_state_returns tabstop_returns [of t True]
  by (cases a) (simp_all add: set_horizontal_tabstop_def)

lemma exec_state_wf: "wf_term t \<Longrightarrow> allowed_state a t \<Longrightarrow> returns (exec_state x a t) wf_term"
  using push_keyboard_returns set_color_returns reset_color_returns set_private_mode_returns
    unset_private_mode_returns set_scrolling_region_returns pure_wf [of t] push_title_wf pop_title_wf
  by (cases a) (auto simp: allowed_state_def terminal_attribute_def set_keypad_application_mode_def
      unset_keypad_application_mode_def set_active_charset_def set_cursor_style_def set_cursor_shape_def)

lemma exec_report_wf: "wf_term t \<Longrightarrow> returns (exec_report x a t) wf_term"
  using identify_wf pure_wf [of t]
  by (cases a) (simp_all add: bell_def substitute_def dynamic_color_sequence_def report_mode_def
      text_area_size_pixels_def text_area_size_chars_def)

lemma auto_scroll_sel [simp]:
  "grid_ok (set_auto_scroll_enabled b g) = grid_ok g" "grid_dims (set_auto_scroll_enabled b g) = grid_dims g"
  "g_columns (set_auto_scroll_enabled b g) = g_columns g" "g_lines (set_auto_scroll_enabled b g) = g_lines g"
  by (simp_all add: grid_ok_def grid_core_ok_def set_auto_scroll_enabled_def grid_dims_def)

lemma auto_scroll_wf: "wf_term t \<Longrightarrow> wf_term (t\<lparr>t_grid := set_auto_scroll_enabled b (t_grid t)\<rparr>)"
  by (simp add: wf_term_def)

lemma exec_ui_wf: "wf_term t \<Longrightarrow> returns (exec_ui x a t) wf_term"
  using set_options_returns returns_mono [OF term_damage_returns] pure_wf [of t] scroll_display_wf
    auto_scroll_wf [of t]
  by (cases a) (auto simp: term_exit_def)

lemma exec_wf: "wf_term t \<Longrightarrow> allowed a t \<Longrightarrow> returns (exec x a t) wf_term"
  using exec_move_wf exec_edit_wf exec_state_wf exec_report_wf exec_ui_wf by (cases a) (simp_all add: allowed_def)

lemma reachable_wf: "reachable x t \<Longrightarrow> wf_term t"
proof (induction rule: reachable.induct)
  case (start cols lines cfg t)
  then show ?case using returnsD [OF term_new_returns] by blast
next
  case (step t a t')
  then show ?case using returnsD [OF exec_wf] by blast
qed

end
