(* ===== verification/Demo.thy ===== *)
theory Demo
  imports Term_Actions
begin

text \<open>
  Small concrete states, on which the properties are applied: a terminal of four columns and three lines with two
  lines of history, an instance of the external functions, and ring buffers and rows.
\<close>

definition demo_style :: cursor_style where
  "demo_style = \<lparr>cs_shape = CBlock, cs_blinking = False\<rparr>"

definition demo_config :: config where
  "demo_config = (default_config demo_style)
     \<lparr>cfg_scrolling_history := 2, cfg_kitty_keyboard := True, cfg_osc52 := CopyPaste\<rparr>"

text \<open>Widths as \<^verbatim>\<open>unicode_width\<close> gives them on a few characters: none for control characters, zero for a combining
  accent, two for a CJK ideograph.\<close>

definition demo_ext :: externals where
  "demo_ext = \<lparr>
     x_width = (\<lambda>c. if c < 32 then None else if c = 0x301 then Some 0 else if c = 0x4E2D then Some 2 else Some 1),
     x_charset_map = (\<lambda>_ c. c),
     x_keyboard_bits = (\<lambda>m. if kb_disambiguate_esc_codes m then 1 else 0),
     x_mode_raw = (\<lambda>_. 4),
     x_private_mode_raw = (\<lambda>_. 7),
     x_base64_decode = Some,
     x_base64_encode = (\<lambda>s. s)\<rparr>"

definition demo_term :: terminal where
  "demo_term = (case term_new demo_config 4 3 of Some t \<Rightarrow> t)"

lemma demo_new: "term_new demo_config 4 3 = Some demo_term"
  using term_new_returns [of 4 3 demo_config] by (auto simp: demo_term_def returns_def)

lemma demo_wf [simp]: "wf_term demo_term"
  using returnsD [OF term_new_returns demo_new] by simp

lemma demo_reachable: "reachable x demo_term"
  by (rule reachable.start [OF _ _ demo_new]) simp_all

lemma demo_eq:
  "\<exists>g g'. grid_new 3 4 2 = Some g \<and> g_columns g = 4 \<and> g_lines g = 3 \<and> demo_term =
     \<lparr>t_is_focused = False, t_vi_cursor = default_point, t_selection = None, t_grid = g, t_inactive_grid = g',
      t_active_charset = G0, t_tabs = tabs_new 4, t_mode = default_mode, t_scroll_region = (0, 3),
      t_colors = default_colors, t_cursor_style = None, t_events = [], t_title = None, t_title_stack = [],
      t_keyboard_mode_stack = [], t_inactive_keyboard_mode_stack = [], t_damage = damage_new 4 3,
      t_config = demo_config\<rparr>"
proof -
  obtain g where g: "grid_new 3 4 2 = Some g" "g_columns g = 4" "g_lines g = 3"
    using grid_new_returns [of 3 4 2] by (auto simp: returns_def)
  obtain g' where g': "grid_new 3 4 0 = Some g'" using grid_new_returns [of 3 4 0] by (auto simp: returns_def)
  have "cfg_scrolling_history demo_config = 2" by (simp add: demo_config_def)
  then show ?thesis using g g' by (simp add: demo_term_def term_new_def)
qed

lemma demo_grid:
  "g_lines (t_grid demo_term) = 3 \<and> g_columns (t_grid demo_term) = 4 \<and> g_cursor (t_grid demo_term) = default_cursor
   \<and> g_max_scroll_limit (t_grid demo_term) = 2 \<and> g_history_size (t_grid demo_term) = 0
   \<and> g_display_offset (t_grid demo_term) = 0 \<and> g_auto_scroll_enabled (t_grid demo_term)
   \<and> (\<forall>l. g_row (t_grid demo_term) l = blank_row 4 (Named Background))"
proof -
  have "returns (grid_new 3 4 2) (\<lambda>g. g_lines g = 3 \<and> g_columns g = 4 \<and> g_cursor g = default_cursor
     \<and> g_max_scroll_limit g = 2 \<and> g_history_size g = 0 \<and> g_display_offset g = 0 \<and> g_auto_scroll_enabled g
     \<and> (\<forall>l. g_row g l = blank_row 4 (Named Background)))"
    by (rule returns_mono [OF grid_new_returns]) auto
  moreover obtain g g' where g: "grid_new 3 4 2 = Some g" and e: "demo_term =
     \<lparr>t_is_focused = False, t_vi_cursor = default_point, t_selection = None, t_grid = g, t_inactive_grid = g',
      t_active_charset = G0, t_tabs = tabs_new 4, t_mode = default_mode, t_scroll_region = (0, 3),
      t_colors = default_colors, t_cursor_style = None, t_events = [], t_title = None, t_title_stack = [],
      t_keyboard_mode_stack = [], t_inactive_keyboard_mode_stack = [], t_damage = damage_new 4 3,
      t_config = demo_config\<rparr>"
    using demo_eq by blast
  have "t_grid demo_term = g" unfolding e by simp
  ultimately show ?thesis using g by (simp add: returns_def)
qed

lemma demo_state:
  "t_mode demo_term = default_mode" "t_scroll_region demo_term = (0, 3)" "t_title_stack demo_term = []"
  "t_keyboard_mode_stack demo_term = []" "t_config demo_term = demo_config" "t_events demo_term = []"
  "t_selection demo_term = None" "t_title demo_term = None" "t_damage demo_term = damage_new 4 3"
  "t_tabs demo_term = tabs_new 4" "t_colors demo_term = default_colors"
proof -
  obtain g g' where e: "demo_term =
     \<lparr>t_is_focused = False, t_vi_cursor = default_point, t_selection = None, t_grid = g, t_inactive_grid = g',
      t_active_charset = G0, t_tabs = tabs_new 4, t_mode = default_mode, t_scroll_region = (0, 3),
      t_colors = default_colors, t_cursor_style = None, t_events = [], t_title = None, t_title_stack = [],
      t_keyboard_mode_stack = [], t_inactive_keyboard_mode_stack = [], t_damage = damage_new 4 3,
      t_config = demo_config\<rparr>"
    using demo_eq by blast
  show "t_mode demo_term = default_mode" "t_scroll_region demo_term = (0, 3)" "t_title_stack demo_term = []"
    "t_keyboard_mode_stack demo_term = []" "t_config demo_term = demo_config" "t_events demo_term = []"
    "t_selection demo_term = None" "t_title demo_term = None" "t_damage demo_term = damage_new 4 3"
    "t_tabs demo_term = tabs_new 4" "t_colors demo_term = default_colors"
    unfolding e by simp_all
qed

lemmas demo_simps = demo_grid [THEN conjunct1] demo_grid [THEN conjunct2, THEN conjunct1]
  demo_grid [THEN conjunct2, THEN conjunct2, THEN conjunct1]
  demo_grid [THEN conjunct2, THEN conjunct2, THEN conjunct2, THEN conjunct1]
  demo_grid [THEN conjunct2, THEN conjunct2, THEN conjunct2, THEN conjunct2, THEN conjunct1]
  demo_grid [THEN conjunct2, THEN conjunct2, THEN conjunct2, THEN conjunct2, THEN conjunct2, THEN conjunct1]
  demo_state

lemma demo_no_modes:
  "\<not> has_mode demo_term ORIGIN" "\<not> has_mode demo_term ALT_SCREEN" "\<not> has_mode demo_term INSERT"
  "has_mode demo_term LINE_WRAP"
  by (simp_all add: has_mode_def demo_state default_mode_def fl_contains_def flag_simps)

lemma demo_cell: "in_grid (grid_dims (t_grid demo_term)) p \<Longrightarrow> g_cell (t_grid demo_term) p = default_cell"
  using demo_grid by (simp add: g_cell_def blank_row_def in_grid_def default_cell_eq)

subsection \<open>Rows and ring buffers\<close>

definition demo_row :: "nat \<Rightarrow> cell row" where
  "demo_row c = \<lparr>row_inner = [default_cell\<lparr>c_char := c\<rparr>, default_cell], row_occ = 1\<rparr>"

definition demo_storage :: "cell storage" where
  "demo_storage = \<lparr>st_inner = [demo_row 65, demo_row 66, demo_row 67], st_zero = 1, st_visible_lines = 2, st_len = 3\<rparr>"

lemma demo_row_ok: "cell_row_ok 2 (demo_row c)"
  by (simp add: row_ok_def demo_row_def cell_reset_def)

lemma demo_storage_ok: "storage_ok (cell_row_ok 2) demo_storage"
  by (simp add: storage_ok_def demo_storage_def demo_row_ok)

subsection \<open>Selections\<close>

definition demo_selection :: selection where
  "demo_selection = \<lparr>sel_ty = Simple, sel_start = \<lparr>an_point = Point 0 3, an_side = DirRight\<rparr>,
     sel_end = \<lparr>an_point = Point 1 1, an_side = DirLeft\<rparr>\<rparr>"

definition demo_block :: selection where
  "demo_block = \<lparr>sel_ty = Block, sel_start = \<lparr>an_point = Point 0 2, an_side = DirRight\<rparr>,
     sel_end = \<lparr>an_point = Point 1 2, an_side = DirLeft\<rparr>\<rparr>"

end
