(* ===== verification/Props_Grid.thy ===== *)
theory Props_Grid
  imports Demo
begin

text \<open>
  The properties of the data layer: grid coordinates, rows, the ring buffer of rows, scrolling, damage, selection
  and tab stops. Every property rests on the lemmas of its component; each one with a premise is applied to a small
  concrete state of \<^verbatim>\<open>Demo\<close>.
\<close>

subsection \<open>Grid coordinates\<close>

text \<open>Adding \<open>n\<close> cells to a point of the grid moves it \<open>n\<close> cells forward in reading order and stops at the last
  cell of the grid; subtracting moves it back and stops at the first cell; both stay inside the grid, and as long as
  the last cell is not hit, subtracting undoes adding.\<close>

theorem point_arithmetic_saturates:
  assumes "wf_dims d" "in_grid d p"
  shows "lin d (point_add d BGrid n p) = min (lin d (Point (bottommost_line d) (last_column d))) (lin d p + int n)
    \<and> lin d (point_sub d BGrid n p) = max (lin d (Point (topmost_line d) 0)) (lin d p - int n)
    \<and> in_grid d (point_add d BGrid n p) \<and> in_grid d (point_sub d BGrid n p)
    \<and> (lin d p + int n \<le> lin d (Point (bottommost_line d) (last_column d)) \<longrightarrow>
       point_sub d BGrid n (point_add d BGrid n p) = p)"
  using assms point_add_lin point_sub_lin point_add_in_grid point_sub_in_grid point_sub_add by blast

theorem point_arithmetic_witness:
  "point_sub \<lparr>total_lines = 5, screen_lines = 3, columns = 4\<rparr> BGrid 6
     (point_add \<lparr>total_lines = 5, screen_lines = 3, columns = 4\<rparr> BGrid 6 (Point (- 1) 3)) = Point (- 1) 3"
  using point_arithmetic_saturates [of "\<lparr>total_lines = 5, screen_lines = 3, columns = 4\<rparr>" "Point (- 1) 3" 6]
  by (simp add: dims_defs in_grid_def lin_def)

text \<open>The coordinates of the display and of the grid are converted into each other without loss: a viewport point
  mapped to the grid maps back to itself, and every grid point that has a place in the viewport is restored from it.\<close>

theorem viewport_roundtrip:
  "point_to_viewport off (viewport_to_point off q) = Some q
   \<and> (point_to_viewport off p = Some r \<longrightarrow> viewport_to_point off r = p)"
  by (simp add: viewport_point_roundtrip point_viewport_roundtrip)

theorem viewport_roundtrip_witness: "viewport_to_point 2 (Point 1 3) = Point (- 1) 3"
  using viewport_roundtrip [of 2 "Point 0 0" "Point (- 1) 3" "Point 1 3"] by (simp add: point_to_viewport_def)

subsection \<open>Rows\<close>

text \<open>C15: Resetting a row resets only the cells up to the occupied bound when the template background is unchanged;
  on every row that satisfies the occupancy invariant the result is the same as writing a blank cell with the
  template's background into every column.\<close>

theorem row_reset_equals_full_reset:
  assumes "cell_row_ok cols r" "1 \<le> cols"
  shows "row_reset c_bg cell_reset t r = Some \<lparr>row_inner = replicate cols (cell_of_color (c_bg t)), row_occ = 0\<rparr>"
  using cell.row_reset_full [OF assms] by (simp add: cell_reset_eq)

theorem row_reset_witness:
  "row_reset c_bg cell_reset default_cell (demo_row 65) = Some \<lparr>row_inner = [default_cell, default_cell], row_occ = 0\<rparr>"
  using row_reset_equals_full_reset [OF demo_row_ok, of default_cell 65] by (simp add: default_cell_eq numeral_2_eq_2)

text \<open>Every write to a row keeps the occupancy invariant, on which the optimised reset relies: writing one cell,
  filling a range, a prefix or a suffix, and changing the cells as a whole.\<close>

theorem row_writes_keep_occupancy:
  assumes "cell_row_ok cols r" "i < cols" "a \<le> b" "b \<le> cols" "returns (f (row_inner r)) (\<lambda>v. length v = cols)"
  shows "returns (row_mod i g r) (cell_row_ok cols) \<and> returns (row_fill a b x r) (cell_row_ok cols)
    \<and> returns (row_fill_to b x r) (cell_row_ok cols) \<and> returns (row_fill_from a x r) (cell_row_ok cols)
    \<and> returns (row_full_mut f r) (cell_row_ok cols)"
  using cell.row_mod_ok cell.row_fill_ok cell.row_fill_to_ok cell.row_fill_from_ok cell.row_full_mut_ok assms
  by (meson le_trans)

theorem row_writes_witness: "returns (row_fill 0 2 (default_cell\<lparr>c_char := 70\<rparr>) (demo_row 65)) (cell_row_ok 2)"
  using row_writes_keep_occupancy [OF demo_row_ok, of 1 0 2 Some 65 id] by (simp add: demo_row_def)

subsection \<open>The ring buffer of rows\<close>

text \<open>C3: The ring buffer refines a plain list of rows, ordered from the bottom of the screen upwards: reading a line
  reads the list, exactly the lines of the screen and the history can be read, and shrinking, truncating and
  re-zeroing the buffer keep the list of the rows that stay.\<close>

theorem storage_refines_row_list:
  assumes "storage_ok R s" "k < st_len s"
  shows "(\<forall>l. st_get s l = (if valid_line s l then Some (st_rows s ! nat (int (st_visible_lines s) - 1 - l)) else None))
    \<and> returns (rezero s) (\<lambda>s'. st_rows s' = st_rows s)
    \<and> returns (st_truncate s) (\<lambda>s'. st_rows s' = st_rows s)
    \<and> returns (st_shrink_lines k s) (\<lambda>s'. st_rows s' = take (st_len s - k) (st_rows s))"
proof (intro conjI allI)
  have ring: "ring_ok R s" using assms(1) by (simp add: storage_ok_ring)
  fix l
  show "st_get s l = (if valid_line s l then Some (st_rows s ! nat (int (st_visible_lines s) - 1 - l)) else None)"
    using st_get_row [OF assms(1), of l] compute_index_None [of s l]
    by (auto simp: st_rows_at [OF ring] st_row_at st_get_def valid_line_def nth_map_upt)
  show "returns (rezero s) (\<lambda>s'. st_rows s' = st_rows s)"
    by (rule returns_mono [OF rezero_returns [OF ring]], elim conjE, rule st_rows_eqI [OF ring, of R])
      (use ring in \<open>auto simp: ring_ok_def\<close>)
  show "returns (st_truncate s) (\<lambda>s'. st_rows s' = st_rows s)"
    by (rule returns_mono [OF truncate_returns [OF ring]], elim conjE, rule st_rows_eqI [OF ring, of R])
      simp_all
  show "returns (st_shrink_lines k s) (\<lambda>s'. st_rows s' = take (st_len s - k) (st_rows s))"
    by (rule returns_mono [OF shrink_lines_returns [OF ring assms(2)]])
      (use ring in \<open>auto simp: st_rows_at take_map\<close>)
qed

theorem storage_refines_witness: "st_get demo_storage (- 1) = Some (st_rows demo_storage ! 2)"
  using storage_refines_row_list [OF demo_storage_ok, of 1]
  by (simp add: demo_storage_def valid_line_def)

subsection \<open>Scrolling\<close>



text \<open>C14: Scrolling a region down by \<open>k\<close> lines succeeds, with or without a scrollback, and gives exactly: rows outside
  the region are kept, the first \<open>k\<close> lines of the region are blank and the rest of the region holds the row \<open>k\<close> lines
  above; the history and the display offset are kept.\<close>

theorem grid_scroll_down_spec:
  assumes "grid_core_ok g" "0 \<le> start" "start \<le> stop" "stop \<le> int (g_lines g)"
  shows "returns (grid_scroll_down (start, stop) k g) (\<lambda>g'. grid_core_ok g' \<and> raw_frame g g'
    \<and> g_history_size g' = g_history_size g
    \<and> (\<forall>l. g_valid g l \<longrightarrow> g_row g' l =
         (if l < start \<or> stop \<le> l then g_row g l
          else if l < start + int k then blank_row (g_columns g) (c_bg (cu_template (g_cursor g)))
          else g_row g (l - int k))))"
  by (rule returns_mono [OF scroll_down_returns [OF assms]])
    (auto simp: scroll_down_post_def scrolled_down_def raw_frame_def same_frame_def history_size_def)

theorem grid_scroll_down_witness:
  "returns (grid_scroll_down (1, 3) 5 (t_grid demo_term)) (\<lambda>g'. g_row g' 1 = blank_row 4 (Named Background))"
proof -
  have g: "grid_core_ok (t_grid demo_term)" by simp
  have "g_valid (t_grid demo_term) 1" by (simp add: g_valid_iff [OF g] demo_simps)
  then show ?thesis
    using returns_mono [OF grid_scroll_down_spec [OF g, of 1 3 5], of "\<lambda>g'. g_row g' 1 = blank_row 4 (Named Background)"]
    by (simp add: demo_simps default_cursor_def)
qed

text \<open>Clearing the viewport scrolls all lines with content into the history and blanks the screen: some number \<open>k\<close>
  of lines moves to the history, every line from \<open>k\<close> on was clear, and the screen is blank afterwards.\<close>

theorem clear_viewport_keeps_content:
  assumes "grid_core_ok g"
  shows "returns (clear_viewport g) (\<lambda>g'. grid_core_ok g' \<and> same_frame g g' \<and> (\<exists>k \<le> g_lines g.
      g_history_size g' = min (g_history_size g + k) (g_max_scroll_limit g)
    \<and> (\<forall>l. int k \<le> l \<and> l < int (g_lines g) \<longrightarrow> row_is_clear cell_is_empty (g_row g l))
    \<and> (\<forall>l. g_valid g' l \<and> l < 0 \<longrightarrow> g_row g' l = g_row g (l + int k))
    \<and> (\<forall>l. 0 \<le> l \<and> l < int (g_lines g) \<longrightarrow> g_row g' l = blank_row (g_columns g) (c_bg (cu_template (g_cursor g))))))"
proof (rule returns_mono [OF clear_viewport_returns [OF assms]], elim exE conjE)
  fix g' k
  assume k: "k \<le> g_lines g" "viewport_cleared k g g'"
    "\<forall>l. int k \<le> l \<and> l < int (g_lines g) \<longrightarrow> row_is_clear cell_is_empty (g_row g l)"
  have "g_valid g' l" if "0 \<le> l" "l < int (g_lines g)" for l
    using k(2) that by (simp add: viewport_cleared_def same_frame_def g_screen_valid)
  then show "grid_core_ok g' \<and> same_frame g g' \<and> (\<exists>k \<le> g_lines g.
      g_history_size g' = min (g_history_size g + k) (g_max_scroll_limit g)
    \<and> (\<forall>l. int k \<le> l \<and> l < int (g_lines g) \<longrightarrow> row_is_clear cell_is_empty (g_row g l))
    \<and> (\<forall>l. g_valid g' l \<and> l < 0 \<longrightarrow> g_row g' l = g_row g (l + int k))
    \<and> (\<forall>l. 0 \<le> l \<and> l < int (g_lines g) \<longrightarrow> g_row g' l = blank_row (g_columns g) (c_bg (cu_template (g_cursor g)))))"
    using k unfolding viewport_cleared_def by (intro conjI exI [of _ k]) auto
qed

theorem clear_viewport_witness:
  "returns (clear_viewport (t_grid demo_term)) (\<lambda>g'. g_row g' 2 = blank_row 4 (Named Background))"
proof -
  have g: "grid_core_ok (t_grid demo_term)" by simp
  show ?thesis
    by (rule returns_mono [OF clear_viewport_keeps_content [OF g]]) (auto simp: demo_simps default_cursor_def)
qed

subsection \<open>Damage, selection and tab stops\<close>

text \<open>The damage iterator reports exactly what was marked: on a record with one entry per line, a cell of the
  viewport lies in a reported entry if and only if the cell of the screen line it shows was marked as damaged.\<close>

theorem damage_iterator_reports_marked:
  assumes "damage_ok n d" "\<not> dm_full d"
  shows "(\<exists>x \<in> set (damage_collect (damage_iterator_new (dm_lines d) off)).
            ld_line x = line \<and> ld_left x \<le> c \<and> c \<le> ld_right x)
    \<longleftrightarrow> off \<le> line \<and> line < n \<and> damaged_cell d (line - off) c"
  by (rule damage_iterator_items [OF assms])

theorem damage_iterator_witness:
  "\<not> (\<exists>x \<in> set (damage_collect (damage_iterator_new (dm_lines (damage_reset 4 (damage_new 4 3))) 0)).
        ld_line x = 1 \<and> ld_left x \<le> 2 \<and> 2 \<le> ld_right x)"
proof -
  have "\<not> dm_full (damage_reset 4 (damage_new 4 3))" by (simp add: damage_reset_def)
  moreover have "\<not> damaged_cell (damage_reset 4 (damage_new 4 3)) 1 2" by (rule damage_reset_clean) simp_all
  ultimately show ?thesis
    using damage_iterator_reports_marked [of 3 "damage_reset 4 (damage_new 4 3)" 0 1 2] by simp
qed

text \<open>A simple selection covers exactly the cells between its two edges: with the edge of an anchor on the side of
  its cell, a cell is selected if and only if it lies between the edges in reading order, across line ends.\<close>

theorem simple_selection_covers_between_edges:
  assumes "0 < columns d" "p_column (an_point start) < columns d" "p_column (an_point stop) < columns d"
    and "an_point start \<le> an_point stop" "anchor_edge d start < anchor_edge d stop"
    and "range_simple s start stop (columns d) = Some r" "p_column p < columns d"
  shows "sr_contains r p \<longleftrightarrow> anchor_edge d start \<le> lin d p \<and> lin d p < anchor_edge d stop"
  by (rule range_simple_cells [OF assms])

theorem simple_selection_witness:
  "\<exists>r. range_simple demo_selection (sel_start demo_selection) (sel_end demo_selection) 4 = Some r
     \<and> sr_contains r (Point 1 0) \<and> \<not> sr_contains r (Point 1 1) \<and> \<not> sr_contains r (Point 0 3)"
proof -
  let ?d = "\<lparr>total_lines = 5, screen_lines = 3, columns = 4\<rparr>"
  obtain r where r: "range_simple demo_selection (sel_start demo_selection) (sel_end demo_selection) (columns ?d) = Some r"
    by (simp add: range_simple_def demo_selection_def selection_is_empty_def Let_def)
  have "sr_contains r p \<longleftrightarrow> 4 \<le> lin ?d p \<and> lin ?d p < 5" if "p_column p < 4" for p
    using simple_selection_covers_between_edges [OF _ _ _ _ _ r, of p] that
    by (simp add: demo_selection_def anchor_edge_def lin_def)
  then show ?thesis using r by (auto simp: lin_def)
qed

text \<open>Rotating a selection that lies inside the scrolled region, and still does after scrolling, moves both anchors
  with the text and changes nothing else.\<close>

theorem selection_follows_text:
  assumes "a \<le> p_line (an_point (sel_start s))" "p_line (an_point (sel_start s)) < b"
    and "a \<le> p_line (an_point (sel_end s))" "p_line (an_point (sel_end s)) < b"
    and "a = 0 \<or> (a \<le> p_line (an_point (sel_start s)) - delta \<and> a \<le> p_line (an_point (sel_end s)) - delta)"
    and "p_line (an_point (sel_start s)) - delta < b" "p_line (an_point (sel_end s)) - delta < b"
    and "b \<le> bottommost_line d + 1"
  shows "selection_rotate d (a, b) delta s = Some (s
    \<lparr>sel_start := (sel_start s)\<lparr>an_point := Point (p_line (an_point (sel_start s)) - delta) (p_column (an_point (sel_start s)))\<rparr>,
     sel_end := (sel_end s)\<lparr>an_point := Point (p_line (an_point (sel_end s)) - delta) (p_column (an_point (sel_end s)))\<rparr>\<rparr>)"
  by (rule rotate_inside [OF assms])

theorem selection_follows_text_witness:
  "selection_rotate \<lparr>total_lines = 5, screen_lines = 3, columns = 4\<rparr> (0, 3) 1 demo_selection =
     Some \<lparr>sel_ty = Simple, sel_start = \<lparr>an_point = Point (- 1) 3, an_side = DirRight\<rparr>,
       sel_end = \<lparr>an_point = Point 0 1, an_side = DirLeft\<rparr>\<rparr>"
  using selection_follows_text [of 0 demo_selection 3 1 "\<lparr>total_lines = 5, screen_lines = 3, columns = 4\<rparr>"]
  by (simp add: demo_selection_def bottommost_line_def)

text \<open>A block selection dragged straight down from the right half of a cell to the left half of the same column
  reports a range although no cell lies between its edges, and that range contains no cell.\<close>

theorem block_selection_same_column:
  assumes "sel_ty s = Block" "p_column (an_point (sel_start s)) = p_column (an_point (sel_end s))"
    and "an_side (sel_start s) = DirRight" "an_side (sel_end s) = DirLeft"
    and "p_line (an_point (sel_start s)) < p_line (an_point (sel_end s))"
  shows "\<exists>r. range_block s (sel_start s) (sel_end s) = Some r \<and> (\<forall>p. \<not> sr_contains r p)"
  by (rule range_block_same_column [OF assms])

theorem block_selection_witness:
  "\<exists>r. range_block demo_block (sel_start demo_block) (sel_end demo_block) = Some r \<and> (\<forall>p. \<not> sr_contains r p)"
  using block_selection_same_column [of demo_block] by (simp add: demo_block_def)

text \<open>Resizing the tab stops keeps the stops of the columns that remain and gives every new column the default
  stop of every eighth column; resizing the defaults gives the defaults of the new width.\<close>

theorem tabs_resize_spec:
  "length (tabs_resize cols tabs) = cols
   \<and> (\<forall>i < cols. tabs_resize cols tabs ! i = (if i < length tabs then tabs ! i else i mod 8 = 0))
   \<and> tabs_resize cols (tabs_new n) = tabs_new cols"
  by (simp add: tabs_resize_nth tabs_resize_new)

theorem tabs_resize_witness: "tabs_resize 10 [True, True] ! 8"
  using tabs_resize_spec [of 10 "[True, True]" 0] by auto

end
