(* ===== verification/Term_Modes.thy ===== *)
theory Term_Modes
  imports Term_Actions
begin

text \<open>
  Facts on the mode bits of the terminal: the bits of the kitty keyboard protocol are disjoint from all others, so
  that applying a keyboard mode, which both screen swaps and the keyboard mode stack do, leaves the rest of the modes
  alone; and the cursor that is restored is the one that was saved.
\<close>

lemma mode_of_keyboard_kitty: "mode_of_keyboard m AND KITTY_KEYBOARD_PROTOCOL = mode_of_keyboard m"
  by (cases "kb_disambiguate_esc_codes m"; cases "kb_report_event_types m"; cases "kb_report_alternate_keys m";
      cases "kb_report_all_keys_as_esc m"; cases "kb_report_associated_text m")
    (simp_all add: mode_of_keyboard_def fl_set_def fl_insert_def fl_remove_def Let_def flag_simps)

text \<open>Three facts on masks.\<close>

lemma mask_other:
  fixes a f k :: "'a::len word"
  assumes "f AND k = 0"
  shows "(a AND k) AND f = 0" "(a AND NOT k) AND f = a AND f" "((a AND k) AND w) AND f = 0"
    "a AND k = a \<Longrightarrow> a AND f = 0"
proof -
  have n: "\<not> (bit f i \<and> bit k i)" for i
    using arg_cong [OF assms, of "\<lambda>v. bit v i"] by (simp add: bit_and_iff)
  show "(a AND k) AND f = 0" "(a AND NOT k) AND f = a AND f" "((a AND k) AND w) AND f = 0"
    by (rule bit_word_eqI; use n in \<open>auto simp: bit_simps\<close>)+
  show "a AND f = 0" if "a AND k = a"
  proof (rule bit_word_eqI)
    fix i show "bit (a AND f) i \<longleftrightarrow> bit 0 i"
      using arg_cong [OF that, of "\<lambda>v. bit v i"] n [of i] by (auto simp: bit_and_iff)
  qed
qed

lemma mask_same:
  fixes a k :: "'a::len word"
  shows "(a AND NOT k) AND k = 0" "((a AND k) AND w) AND k = (a AND k) AND w" "(a AND k) AND k = a AND k"
  by (rule bit_word_eqI; auto simp: bit_simps)+

lemma one_bit_mask:
  fixes v :: "'a::len word"
  assumes "k < LENGTH('a)"
  shows "v AND 2 ^ k = 2 ^ k \<longleftrightarrow> bit v k"
proof
  assume "v AND 2 ^ k = 2 ^ k"
  from arg_cong [OF this, of "\<lambda>w. bit w k"] show "bit v k" using assms by (simp add: bit_simps)
next
  assume "bit v k"
  then show "v AND 2 ^ k = 2 ^ k" by (intro bit_word_eqI) (auto simp: bit_simps)
qed

lemma mode_of_keyboard_other: "f AND KITTY_KEYBOARD_PROTOCOL = 0 \<Longrightarrow> mode_of_keyboard m AND f = 0"
  by (erule mask_other(4)) (rule mode_of_keyboard_kitty)

text \<open>Applying a keyboard mode sets the protocol bits to the result and keeps every other bit.\<close>

lemma apply_keyboard_other:
  assumes "f AND KITTY_KEYBOARD_PROTOCOL = 0"
  shows "t_mode (apply_keyboard_mode (mode_of_keyboard m) b t) AND f = t_mode t AND f"
  using mask_other [OF assms] mode_of_keyboard_other [OF assms, of m]
  by (cases b) (simp_all add: apply_keyboard_mode_def Let_def bit.conj_disj_distrib2)

lemma apply_keyboard_kitty:
  "t_mode (apply_keyboard_mode (mode_of_keyboard m) b t) AND KITTY_KEYBOARD_PROTOCOL =
     (case b of Replace \<Rightarrow> mode_of_keyboard m
      | Union \<Rightarrow> (t_mode t AND KITTY_KEYBOARD_PROTOCOL) OR mode_of_keyboard m
      | Difference \<Rightarrow> (t_mode t AND KITTY_KEYBOARD_PROTOCOL) AND NOT (mode_of_keyboard m))"
  by (cases b) (simp_all add: apply_keyboard_mode_def Let_def bit.conj_disj_distrib2 mask_same mode_of_keyboard_kitty)

lemma has_mode_apply_keyboard:
  "f AND KITTY_KEYBOARD_PROTOCOL = 0 \<Longrightarrow> has_mode (apply_keyboard_mode (mode_of_keyboard m) b t) f = has_mode t f"
  using apply_keyboard_other [of f m b t] by (simp add: has_mode_def fl_contains_def)

lemma swap_screens_alt: "has_mode (swap_screens t) ALT_SCREEN \<longleftrightarrow> \<not> has_mode t ALT_SCREEN"
proof -
  let ?t = "t\<lparr>t_keyboard_mode_stack := t_inactive_keyboard_mode_stack t,
     t_inactive_keyboard_mode_stack := t_keyboard_mode_stack t\<rparr>"
  have disj: "ALT_SCREEN AND KITTY_KEYBOARD_PROTOCOL = 0" by (simp add: flag_simps)
  have pow: "ALT_SCREEN = (2 :: term_mode) ^ 12" by (simp add: ALT_SCREEN_def)
  have alt: "v AND ALT_SCREEN = ALT_SCREEN \<longleftrightarrow> bit v 12" for v :: term_mode
    using one_bit_mask [of 12 v] by (simp add: pow)
  have "bit ALT_SCREEN 12" using alt [of ALT_SCREEN] by simp
  then have flip: "(v XOR ALT_SCREEN) AND ALT_SCREEN = ALT_SCREEN \<longleftrightarrow> v AND ALT_SCREEN \<noteq> ALT_SCREEN" for v :: term_mode
    unfolding alt by (simp add: bit_xor_iff)
  show ?thesis
    using has_mode_apply_keyboard [OF disj, of "last_keyboard_mode (t_keyboard_mode_stack ?t)" Replace ?t]
    by (simp add: swap_screens_def Let_def mark_fully_damaged_def has_mode_def fl_contains_def flip)
qed

lemma restore_cursor_cursor:
  assumes "wf_term t"
  shows "returns (restore_cursor_position t) (\<lambda>t'. wf_term t' \<and> t_cursor t' = g_saved_cursor (t_grid t)
     \<and> g_raw (t_grid t') = g_raw (t_grid t))"
  unfolding restore_cursor_position_def Let_def returns_bind
proof (rule returns_mono [OF damage_cursor_returns [OF assms]], elim conjE)
  fix t' assume t': "wf_term t'" "t_grid t' = t_grid t"
  have "wf_term (t'\<lparr>t_grid := (t_grid t')\<lparr>g_cursor := g_saved_cursor (t_grid t')\<rparr>\<rparr>)"
    using t' by (simp add: wf_term_def grid_ok_def)
  then show "returns (damage_cursor (t'\<lparr>t_grid := (t_grid t')\<lparr>g_cursor := g_saved_cursor (t_grid t')\<rparr>\<rparr>))
      (\<lambda>t'. wf_term t' \<and> t_cursor t' = g_saved_cursor (t_grid t) \<and> g_raw (t_grid t') = g_raw (t_grid t))"
    by (rule returns_mono [OF damage_cursor_returns]) (simp add: t'(2))
qed

text \<open>The two grids of a reset, with what is known of the result of the whole reset.\<close>

lemma reset_grids_returns:
  assumes "wf_term t"
    and "returns (grid_reset (t_grid t)) (\<lambda>g. returns (grid_reset (t_inactive_grid t)) (\<lambda>g'. P (reset_fields g g' t)))"
    and "\<And>g g'. P (reset_fields g g' t) \<Longrightarrow> grid_ok g \<Longrightarrow> g_lines g = g_lines (t_grid t) \<Longrightarrow> g_columns g = g_columns (t_grid t)
      \<Longrightarrow> g_history_size g = 0 \<Longrightarrow> g_display_offset g = 0 \<Longrightarrow> g_cursor g = default_cursor
      \<Longrightarrow> g_saved_cursor g = default_cursor
      \<Longrightarrow> \<forall>l. 0 \<le> l \<and> l < int (g_lines (t_grid t)) \<longrightarrow> g_row g l = blank_row (g_columns (t_grid t)) (Named Background)
      \<Longrightarrow> Q (reset_fields g g' t)"
  shows "returns (grid_reset (t_grid t)) (\<lambda>g. returns (grid_reset (t_inactive_grid t)) (\<lambda>g'. Q (reset_fields g g' t)))"
  by (rule returns_mono [OF returns_conj [OF grid_reset_returns [OF wf_core [OF assms(1)]] assms(2)]], elim conjE,
      erule returns_mono) (rule assms(3); simp)

text \<open>The bytes of an encoded text fit in eight bits.\<close>

lemma utf8_bytes: "b \<in> set (utf8_encode s) \<Longrightarrow> \<forall>c \<in> set s. scalar_value c \<Longrightarrow> b < 256"
  by (auto simp: utf8_encode_def utf8_char_def scalar_value_def split: if_splits)

end
