(* ===== verification/Grid_Iter.thy ===== *)
theory Grid_Iter
  imports Grid_Cells
begin

text \<open>
  Loops over the cells of a grid: \<^verbatim>\<open>GridIterator\<close> of \<^verbatim>\<open>velacritty_terminal/src/grid/mod.rs\<close> as its clients use it.

  \<open>next_loop\<close> is \<^verbatim>\<open>while let Some(cell) = iter.next()\<close> and \<open>prev_loop\<close> is \<^verbatim>\<open>while let Some(cell) = iter.prev()\<close>; the body
  of the loop either goes on with a new loop state (\<open>Inl\<close>) or leaves the loop with a result (\<open>Inr\<close>). On a grid that
  satisfies its invariant both are the same loop over a list: the cells after, or before, a point in reading order.
\<close>

function next_loop :: "grid \<Rightarrow> ('s \<Rightarrow> point \<Rightarrow> cell \<Rightarrow> 's + 'r) \<Rightarrow> 's \<Rightarrow> grid_iter \<Rightarrow> ('s + 'r) option" where
  "next_loop g body s it =
     (if it_point it \<ge> it_end it then Some (Inl s)
      else do {
        let p = next_point g (it_point it);
        x \<leftarrow> grid_get g p;
        case body s p x of
          Inl s' \<Rightarrow> next_loop g body s' (it\<lparr>it_point := p\<rparr>)
        | Inr r \<Rightarrow> Some (Inr r)
      })"
  by pat_completeness auto
termination
  by (relation "measures [\<lambda>(g, body, s, it). nat (p_line (it_end it) + 1 - p_line (it_point it)),
        \<lambda>(g, body, s, it). last_column (grid_dims g) - p_column (it_point it)]")
    (auto simp: next_point_def less_eq_gpoint_def)

function prev_loop :: "grid \<Rightarrow> ('s \<Rightarrow> point \<Rightarrow> cell \<Rightarrow> 's + 'r) \<Rightarrow> 's \<Rightarrow> grid_iter \<Rightarrow> ('s + 'r) option" where
  "prev_loop g body s it =
     (if it_point it \<le> Point (topmost_line (grid_dims g)) 0 then Some (Inl s)
      else do {
        let p = prev_point g (it_point it);
        x \<leftarrow> grid_get g p;
        case body s p x of
          Inl s' \<Rightarrow> prev_loop g body s' (it\<lparr>it_point := p\<rparr>)
        | Inr r \<Rightarrow> Some (Inr r)
      })"
  by pat_completeness auto
termination
  by (relation "measures [\<lambda>(g, body, s, it). nat (p_line (it_point it) - topmost_line (grid_dims g)),
        \<lambda>(g, body, s, it). p_column (it_point it)]")
    (auto simp: prev_point_def less_eq_gpoint_def)

declare next_loop.simps [simp del] prev_loop.simps [simp del]

text \<open>The loops in terms of the iterator's methods.\<close>

lemma next_loop_iter:
  "next_loop g body s it = do {
     (it', r) \<leftarrow> iter_next g it;
     case r of
       None \<Rightarrow> Some (Inl s)
     | Some (p, x) \<Rightarrow> (case body s p x of Inl s' \<Rightarrow> next_loop g body s' it' | Inr r \<Rightarrow> Some (Inr r))
   }"
  by (simp add: next_loop.simps [of g body s it] iter_next_def Let_def)

lemma prev_loop_iter:
  "prev_loop g body s it = do {
     (it', r) \<leftarrow> iter_prev g it;
     case r of
       None \<Rightarrow> Some (Inl s)
     | Some (p, x) \<Rightarrow> (case body s p x of Inl s' \<Rightarrow> prev_loop g body s' it' | Inr r \<Rightarrow> Some (Inr r))
   }"
  by (simp add: prev_loop.simps [of g body s it] iter_prev_def Let_def)

lemma irange_snoc: "a < b \<Longrightarrow> irange a b = irange a (b - 1) @ [b - 1]"
  using upto_rec2 [of a "b - 1"] by (simp add: irange_def)

subsection \<open>Cells in reading order\<close>

definition unlin :: "dims \<Rightarrow> int \<Rightarrow> point" where
  "unlin d i = Point (i div int (columns d)) (nat (i mod int (columns d)))"

definition first_lin :: "dims \<Rightarrow> int" where
  "first_lin d = lin d (Point (topmost_line d) 0)"

definition last_lin :: "dims \<Rightarrow> int" where
  "last_lin d = lin d (Point (bottommost_line d) (last_column d))"

definition cell_at :: "grid \<Rightarrow> int \<Rightarrow> point \<times> cell" where
  "cell_at g i = (unlin (grid_dims g) i, g_cell g (unlin (grid_dims g) i))"

text \<open>A loop with early exit over a list of cells.\<close>

fun cell_loop :: "('s \<Rightarrow> point \<Rightarrow> cell \<Rightarrow> 's + 'r) \<Rightarrow> 's \<Rightarrow> (point \<times> cell) list \<Rightarrow> 's + 'r" where
  "cell_loop body s [] = Inl s"
| "cell_loop body s ((p, x) # xs) = (case body s p x of Inl s' \<Rightarrow> cell_loop body s' xs | Inr r \<Rightarrow> Inr r)"

lemma unlin_lin [simp]: "p_column p < columns d \<Longrightarrow> unlin d (lin d p) = p"
  by (cases p) (simp add: unlin_def lin_def)

lemma lin_unlin [simp]: "0 < columns d \<Longrightarrow> lin d (unlin d i) = i"
  by (simp add: unlin_def lin_def)

lemma unlin_column [simp]: "0 < columns d \<Longrightarrow> p_column (unlin d i) < columns d"
  by (simp add: unlin_def nat_less_iff)

lemma in_grid_lin:
  assumes "wf_dims d"
  shows "in_grid d p \<longleftrightarrow> p_column p < columns d \<and> first_lin d \<le> lin d p \<and> lin d p \<le> last_lin d"
proof -
  have c: "0 < columns d" "last_column d < columns d" using assms by (simp_all add: wf_dims_def last_column_def)
  show ?thesis
  proof (cases "p_column p < columns d")
    case True
    have "p_line p \<le> bottommost_line d \<longleftrightarrow> p \<le> Point (bottommost_line d) (last_column d)"
      using True by (cases p) (auto simp: last_column_def)
    moreover have "topmost_line d \<le> p_line p \<longleftrightarrow> Point (topmost_line d) 0 \<le> p" by (cases p) auto
    ultimately show ?thesis
      using True c lin_mono [of "Point (topmost_line d) 0" d p] lin_mono [of p d "Point (bottommost_line d) (last_column d)"]
      by (auto simp: in_grid_def first_lin_def last_lin_def)
  qed (simp add: in_grid_def)
qed

lemma in_grid_unlin: "wf_dims d \<Longrightarrow> first_lin d \<le> i \<Longrightarrow> i \<le> last_lin d \<Longrightarrow> in_grid d (unlin d i)"
  by (simp add: in_grid_lin wf_dims_def)

lemma next_point_unlin:
  assumes "0 < g_columns g"
  shows "next_point g (unlin (grid_dims g) i) = unlin (grid_dims g) (i + 1)"
proof -
  let ?d = "grid_dims g" and ?p = "unlin (grid_dims g) i"
  have c: "p_column ?p < columns ?d" using unlin_column [of ?d i] assms by simp
  have "lin ?d (next_point g ?p) = lin ?d ?p + 1" "p_column (next_point g ?p) < columns ?d"
    using c assms by (auto simp: next_point_def lin_def last_column_def algebra_simps)
  then show ?thesis using assms by (metis grid_dims_sel(3) lin_unlin unlin_lin)
qed

lemma prev_point_unlin:
  assumes "0 < g_columns g"
  shows "prev_point g (unlin (grid_dims g) i) = unlin (grid_dims g) (i - 1)"
proof -
  let ?d = "grid_dims g" and ?p = "unlin (grid_dims g) i"
  have c: "p_column ?p < columns ?d" using unlin_column [of ?d i] assms by simp
  have "lin ?d (prev_point g ?p) = lin ?d ?p - 1" "p_column (prev_point g ?p) < columns ?d"
    using c assms by (auto simp: prev_point_def lin_def last_column_def of_nat_diff algebra_simps)
  then show ?thesis using assms by (metis grid_dims_sel(3) lin_unlin unlin_lin)
qed

lemma unlin_mono: "0 < columns d \<Longrightarrow> unlin d i \<le> unlin d j \<longleftrightarrow> i \<le> j"
  using lin_mono [of "unlin d i" d "unlin d j"] by simp

lemma next_loop_cells:
  assumes g: "grid_core_ok g" and "first_lin (grid_dims g) \<le> i + 1" "e \<le> last_lin (grid_dims g)"
  shows "next_loop g body s \<lparr>it_point = unlin (grid_dims g) i, it_end = unlin (grid_dims g) e\<rparr> =
    Some (cell_loop body s (map (cell_at g) (irange (i + 1) (e + 1))))"
  using assms(2)
proof (induction "nat (e - i)" arbitrary: i s)
  case 0
  then show ?case using grid_core_ok_dims [OF g] by (simp add: next_loop.simps unlin_mono wf_dims_def)
next
  case (Suc n)
  let ?d = "grid_dims g"
  have c: "0 < columns ?d" using grid_core_ok_dims [OF g] by (simp add: wf_dims_def)
  have lt: "i < e" using Suc.hyps(2) by simp
  have inside: "in_grid ?d (unlin ?d (i + 1))"
    by (rule in_grid_unlin [OF grid_core_ok_dims [OF g]]) (use Suc.prems assms(3) lt in simp_all)
  have get: "grid_get g (unlin ?d (i + 1)) = Some (g_cell g (unlin ?d (i + 1)))"
    by (rule grid_get_cell [OF g inside])
  have IH: "next_loop g body s' \<lparr>it_point = unlin ?d (i + 1), it_end = unlin ?d e\<rparr> =
      Some (cell_loop body s' (map (cell_at g) (irange (i + 1 + 1) (e + 1))))" for s'
    using Suc.hyps(1) [of "i + 1" s'] Suc.hyps(2) Suc.prems by simp
  show ?case
    using c lt next_point_unlin [of g i] IH
    by (simp add: next_loop.simps [of g body s "\<lparr>it_point = unlin ?d i, it_end = unlin ?d e\<rparr>"] unlin_mono get
        irange_step [of "i + 1" "e + 1"] cell_at_def Let_def split: sum.split)
qed

lemma prev_loop_cells:
  assumes g: "grid_core_ok g" and "first_lin (grid_dims g) \<le> i" "i \<le> last_lin (grid_dims g) + 1"
  shows "prev_loop g body s \<lparr>it_point = unlin (grid_dims g) i, it_end = e\<rparr> =
    Some (cell_loop body s (map (cell_at g) (rev (irange (first_lin (grid_dims g)) i))))"
  using assms(2,3)
proof (induction "nat (i - first_lin (grid_dims g))" arbitrary: i s)
  case 0
  let ?d = "grid_dims g"
  have c: "0 < columns ?d" using grid_core_ok_dims [OF g] by (simp add: wf_dims_def)
  have "Point (topmost_line ?d) 0 = unlin ?d (first_lin ?d)" using c by (simp add: first_lin_def)
  then show ?case using 0 c by (simp add: prev_loop.simps unlin_mono)
next
  case (Suc n)
  let ?d = "grid_dims g"
  have c: "0 < columns ?d" using grid_core_ok_dims [OF g] by (simp add: wf_dims_def)
  have top: "Point (topmost_line ?d) 0 = unlin ?d (first_lin ?d)" using c by (simp add: first_lin_def)
  have lt: "first_lin ?d < i" using Suc.hyps(2) by simp
  have get: "grid_get g (unlin ?d (i - 1)) = Some (g_cell g (unlin ?d (i - 1)))"
    by (rule grid_get_cell [OF g in_grid_unlin [OF grid_core_ok_dims [OF g]]]) (use Suc.prems lt in simp_all)
  have IH: "prev_loop g body s' \<lparr>it_point = unlin ?d (i - 1), it_end = e\<rparr> =
      Some (cell_loop body s' (map (cell_at g) (rev (irange (first_lin ?d) (i - 1)))))" for s'
    using Suc.hyps(1) [of "i - 1" s'] Suc.hyps(2) Suc.prems by simp
  have split: "irange (first_lin ?d) i = irange (first_lin ?d) (i - 1) @ [i - 1]"
    by (rule irange_snoc) (rule lt)
  show ?case
    using c lt prev_point_unlin [of g i] IH
    by (simp add: prev_loop.simps [of g body s "\<lparr>it_point = unlin ?d i, it_end = e\<rparr>"] top unlin_mono get
        split cell_at_def Let_def split: sum.split)
qed

text \<open>The loops of a client that starts at a point of the grid.\<close>

definition cells_after :: "grid \<Rightarrow> point \<Rightarrow> (point \<times> cell) list" where
  "cells_after g p = map (cell_at g) (irange (lin (grid_dims g) p + 1) (last_lin (grid_dims g) + 1))"

definition cells_before :: "grid \<Rightarrow> point \<Rightarrow> (point \<times> cell) list" where
  "cells_before g p = map (cell_at g) (rev (irange (first_lin (grid_dims g)) (lin (grid_dims g) p)))"

lemma next_loop_from:
  assumes g: "grid_core_ok g" and p: "in_grid (grid_dims g) p"
  shows "next_loop g body s (iter_from g p) = Some (cell_loop body s (cells_after g p))"
proof -
  let ?d = "grid_dims g"
  have wf: "wf_dims ?d" by (rule grid_core_ok_dims [OF g])
  have u: "p = unlin ?d (lin ?d p)" using p by (simp add: in_grid_def)
  have e: "Point (bottommost_line ?d) (last_column ?d) = unlin ?d (last_lin ?d)"
    using wf by (simp add: last_lin_def wf_dims_def last_column_def)
  have "iter_from g p = \<lparr>it_point = unlin ?d (lin ?d p), it_end = unlin ?d (last_lin ?d)\<rparr>"
    using u e by (simp add: iter_from_def)
  moreover have "first_lin ?d \<le> lin ?d p + 1" using p in_grid_lin [OF wf] by simp
  ultimately show ?thesis using next_loop_cells [OF g, of "lin ?d p" "last_lin ?d" body s] by (simp add: cells_after_def)
qed

lemma prev_loop_from:
  assumes g: "grid_core_ok g" and p: "in_grid (grid_dims g) p"
  shows "prev_loop g body s (iter_from g p) = Some (cell_loop body s (cells_before g p))"
proof -
  let ?d = "grid_dims g"
  have wf: "wf_dims ?d" by (rule grid_core_ok_dims [OF g])
  have u: "unlin ?d (lin ?d p) = p" using p by (simp add: in_grid_def)
  have "first_lin ?d \<le> lin ?d p" "lin ?d p \<le> last_lin ?d + 1" using p in_grid_lin [OF wf] by simp_all
  then show ?thesis using prev_loop_cells [OF g, of "lin ?d p" body s] u by (simp add: cells_before_def iter_from_def)
qed

lemma cells_after_in:
  assumes g: "grid_core_ok g" and p: "in_grid (grid_dims g) p"
  shows "(q, x) \<in> set (cells_after g p) \<longleftrightarrow> in_grid (grid_dims g) q \<and> p < q \<and> x = g_cell g q"
proof -
  let ?d = "grid_dims g"
  have wf: "wf_dims ?d" by (rule grid_core_ok_dims [OF g])
  have c: "0 < columns ?d" "p_column p < columns ?d" using wf p by (simp_all add: wf_dims_def in_grid_def)
  have lo: "first_lin ?d \<le> lin ?d p" using p in_grid_lin [OF wf] by simp
  show ?thesis
    unfolding cells_after_def cell_at_def
    using c lo in_grid_lin [OF wf, of q] lin_less_iff_line [of p ?d q]
    by (auto simp: image_iff in_grid_unlin [OF wf] intro!: bexI [of _ "lin ?d q"])
qed

lemma cells_before_in:
  assumes g: "grid_core_ok g" and p: "in_grid (grid_dims g) p"
  shows "(q, x) \<in> set (cells_before g p) \<longleftrightarrow> in_grid (grid_dims g) q \<and> q < p \<and> x = g_cell g q"
proof -
  let ?d = "grid_dims g"
  have wf: "wf_dims ?d" by (rule grid_core_ok_dims [OF g])
  have c: "0 < columns ?d" "p_column p < columns ?d" using wf p by (simp_all add: wf_dims_def in_grid_def)
  have hi: "lin ?d p \<le> last_lin ?d" using p in_grid_lin [OF wf] by simp
  show ?thesis
    unfolding cells_before_def cell_at_def
    using c hi in_grid_lin [OF wf, of q] lin_less_iff_line [of q ?d p]
    by (auto simp: image_iff in_grid_unlin [OF wf] intro!: bexI [of _ "lin ?d q"])
qed

subsection \<open>Rules for the loops\<close>

lemma cell_loop_rule:
  assumes "I 0 s"
    and "\<And>i s. i < length xs \<Longrightarrow> I i s \<Longrightarrow>
      (case body s (fst (xs ! i)) (snd (xs ! i)) of Inl s' \<Rightarrow> I (Suc i) s' | Inr r \<Rightarrow> Q (Inr r))"
    and "\<And>s. I (length xs) s \<Longrightarrow> Q (Inl s)"
  shows "Q (cell_loop body s xs)"
  using assms
proof (induction xs arbitrary: s I)
  case Nil
  then show ?case by simp
next
  case (Cons a xs)
  obtain p x where a: "a = (p, x)" by (cases a)
  show ?case
  proof (cases "body s p x")
    case (Inl s')
    have "Q (cell_loop body s' xs)"
      by (rule Cons.IH [of "\<lambda>i. I (Suc i)"])
        (use Cons.prems(1,3) Cons.prems(2) [of 0 s] Inl a in simp, use Cons.prems(2) [of "Suc i" for i] in force, use Cons.prems(3) in simp)
    then show ?thesis using Inl a by simp
  next
    case (Inr r)
    then show ?thesis using Cons.prems(1) Cons.prems(2) [of 0 s] a by simp
  qed
qed

text \<open>Searching forwards and backwards from a point, with an invariant on the position reached so far.\<close>

lemma next_loop_rule:
  assumes g: "grid_core_ok g" and p: "in_grid (grid_dims g) p"
    and "I (lin (grid_dims g) p) s"
    and "\<And>i s. lin (grid_dims g) p < i \<Longrightarrow> i \<le> last_lin (grid_dims g) \<Longrightarrow> I (i - 1) s \<Longrightarrow>
      (case body s (unlin (grid_dims g) i) (g_cell g (unlin (grid_dims g) i)) of Inl s' \<Rightarrow> I i s' | Inr r \<Rightarrow> Q (Inr r))"
    and "\<And>s. I (last_lin (grid_dims g)) s \<Longrightarrow> Q (Inl s)"
  shows "returns (next_loop g body s (iter_from g p)) Q"
proof -
  let ?d = "grid_dims g"
  have le: "lin ?d p \<le> last_lin ?d" using p in_grid_lin [OF grid_core_ok_dims [OF g]] by simp
  have "Q (cell_loop body s (cells_after g p))"
  proof (rule cell_loop_rule [where I = "\<lambda>i. I (lin ?d p + int i)"])
    fix i s assume i: "i < length (cells_after g p)" "I (lin ?d p + int i) s"
    define j where "j = lin ?d p + 1 + int i"
    have b: "i < nat (last_lin ?d - lin ?d p)" using i by (simp add: cells_after_def)
    have j: "lin ?d p + int (Suc i) = j" "j - 1 = lin ?d p + int i" "lin ?d p < j" "j \<le> last_lin ?d"
      using b by (auto simp: j_def)
    have "cells_after g p ! i = cell_at g j"
      using b by (simp add: cells_after_def j_def)
    then show "case body s (fst (cells_after g p ! i)) (snd (cells_after g p ! i)) of
        Inl s' \<Rightarrow> I (lin ?d p + int (Suc i)) s' | Inr r \<Rightarrow> Q (Inr r)"
      unfolding j(1) using assms(4) [of j s] i(2) j by (simp add: cell_at_def)
  qed (use assms(3,5) le in \<open>simp_all add: cells_after_def\<close>)
  then show ?thesis by (simp add: next_loop_from [OF g p])
qed

lemma prev_loop_rule:
  assumes g: "grid_core_ok g" and p: "in_grid (grid_dims g) p"
    and "I (lin (grid_dims g) p) s"
    and "\<And>i s. i < lin (grid_dims g) p \<Longrightarrow> first_lin (grid_dims g) \<le> i \<Longrightarrow> I (i + 1) s \<Longrightarrow>
      (case body s (unlin (grid_dims g) i) (g_cell g (unlin (grid_dims g) i)) of Inl s' \<Rightarrow> I i s' | Inr r \<Rightarrow> Q (Inr r))"
    and "\<And>s. I (first_lin (grid_dims g)) s \<Longrightarrow> Q (Inl s)"
  shows "returns (prev_loop g body s (iter_from g p)) Q"
proof -
  let ?d = "grid_dims g"
  have le: "first_lin ?d \<le> lin ?d p" using p in_grid_lin [OF grid_core_ok_dims [OF g]] by simp
  have "Q (cell_loop body s (cells_before g p))"
  proof (rule cell_loop_rule [where I = "\<lambda>i. I (lin ?d p - int i)"])
    fix i s assume i: "i < length (cells_before g p)" "I (lin ?d p - int i) s"
    then have b: "i < nat (lin ?d p - first_lin ?d)" by (simp add: cells_before_def)
    define j where "j = lin ?d p - 1 - int i"
    have j: "lin ?d p - int (Suc i) = j" "j + 1 = lin ?d p - int i" "j < lin ?d p" "first_lin ?d \<le> j"
      using b by (auto simp: j_def)
    have "rev (irange (first_lin ?d) (lin ?d p)) ! i = j"
      using b by (simp add: rev_nth of_nat_diff nat_less_iff j_def)
    then have "cells_before g p ! i = cell_at g j"
      using b by (simp add: cells_before_def)
    then show "case body s (fst (cells_before g p ! i)) (snd (cells_before g p ! i)) of
        Inl s' \<Rightarrow> I (lin ?d p - int (Suc i)) s' | Inr r \<Rightarrow> Q (Inr r)"
      unfolding j(1) using assms(4) [of j s] i(2) j by (simp add: cell_at_def)
  qed (use assms(3,5) le in \<open>simp_all add: cells_before_def\<close>)
  then show ?thesis by (simp add: prev_loop_from [OF g p])
qed

subsection \<open>The display\<close>

text \<open>Reading order is row by row.\<close>

definition row_cells :: "grid \<Rightarrow> int \<Rightarrow> (point \<times> cell) list" where
  "row_cells g l = map (\<lambda>c. (Point l c, g_cell g (Point l c))) [0..<g_columns g]"

lemma cells_of_row:
  assumes "0 < g_columns g"
  shows "map (cell_at g) (irange (lin (grid_dims g) (Point l 0)) (lin (grid_dims g) (Point (l + 1) 0))) = row_cells g l"
proof (rule nth_equalityI)
  let ?n = "int (g_columns g)"
  have len: "nat (lin (grid_dims g) (Point (l + 1) 0) - lin (grid_dims g) (Point l 0)) = g_columns g"
    by (simp add: lin_def algebra_simps)
  then show "length (map (cell_at g) (irange (lin (grid_dims g) (Point l 0)) (lin (grid_dims g) (Point (l + 1) 0))))
      = length (row_cells g l)" by (simp add: row_cells_def)
  fix i assume i: "i < length (map (cell_at g) (irange (lin (grid_dims g) (Point l 0)) (lin (grid_dims g) (Point (l + 1) 0))))"
  have "unlin (grid_dims g) (lin (grid_dims g) (Point l 0) + int i) = Point l i"
    using unlin_lin [of "Point l i" "grid_dims g"] i len by (simp add: lin_def)
  then show "map (cell_at g) (irange (lin (grid_dims g) (Point l 0)) (lin (grid_dims g) (Point (l + 1) 0))) ! i = row_cells g l ! i"
    using i len by (simp add: row_cells_def cell_at_def)
qed

lemma irange_append: "a \<le> b \<Longrightarrow> b \<le> c \<Longrightarrow> irange a c = irange a b @ irange b c"
  using upto_split1 [of a b "c - 1"] by (cases "b = c") (simp_all add: irange_def)

lemma cells_of_rows:
  assumes "0 < g_columns g" "l \<le> m"
  shows "map (cell_at g) (irange (lin (grid_dims g) (Point l 0)) (lin (grid_dims g) (Point m 0))) =
    concat (map (row_cells g) (irange l m))"
  using assms(2)
proof (induction "nat (m - l)" arbitrary: l)
  case 0
  then show ?case by simp
next
  case (Suc n)
  let ?L = "\<lambda>l. lin (grid_dims g) (Point l 0)"
  have lt: "l < m" using Suc by simp
  have "?L l \<le> ?L (l + 1)" "?L (l + 1) \<le> ?L m"
    using lt by (simp_all add: lin_def mult_right_mono)
  then have "map (cell_at g) (irange (?L l) (?L m)) = row_cells g l @ map (cell_at g) (irange (?L (l + 1)) (?L m))"
    using irange_append [of "?L l" "?L (l + 1)" "?L m"] cells_of_row [OF assms(1), of l] by (simp only: map_append)
  moreover have "map (cell_at g) (irange (?L (l + 1)) (?L m)) = concat (map (row_cells g) (irange (l + 1) m))"
    using Suc by simp
  ultimately show ?case by (simp add: irange_step [OF lt])
qed

lemma display_iter_loop:
  assumes g: "grid_core_ok g" and off: "g_display_offset g \<le> g_history_size g"
  shows "next_loop g body s (display_iter g) = Some (cell_loop body s
     (concat (map (row_cells g) (irange (- int (g_display_offset g)) (int (g_lines g) - int (g_display_offset g))))))"
proof -
  let ?d = "grid_dims g" and ?o = "int (g_display_offset g)" and ?n = "int (g_lines g)"
  have wf: "wf_dims ?d" by (rule grid_core_ok_dims [OF g])
  have c: "0 < g_columns g" using wf by (simp add: wf_dims_def)
  let ?i = "lin ?d (Point (- ?o) 0) - 1" and ?e = "lin ?d (Point (?n - ?o) 0) - 1"
  have start: "unlin ?d ?i = Point (- ?o - 1) (last_column ?d)"
  proof -
    have "?i = lin ?d (Point (- ?o - 1) (last_column ?d))"
      using c by (simp add: lin_def last_column_def of_nat_diff algebra_simps)
    then show ?thesis using c by (simp add: last_column_def)
  qed
  have stop: "unlin ?d ?e = Point (?n - ?o - 1) (last_column ?d)"
  proof -
    have "?e = lin ?d (Point (?n - ?o - 1) (last_column ?d))"
      using c by (simp add: lin_def last_column_def of_nat_diff algebra_simps)
    then show ?thesis using c by (simp add: last_column_def)
  qed
  have it: "display_iter g = \<lparr>it_point = unlin ?d ?i, it_end = unlin ?d ?e\<rparr>"
    unfolding start stop display_iter_def Let_def by (simp add: bottommost_line_def)
  have lo: "first_lin ?d \<le> ?i + 1" using off by (simp add: first_lin_def lin_def topmost_line_def mult_right_mono)
  have hi: "?e \<le> last_lin ?d"
  proof -
    have "(?n - ?o) * int (g_columns g) \<le> ?n * int (g_columns g)" by (rule mult_right_mono) simp_all
    then show ?thesis
      using c by (simp add: last_lin_def lin_def bottommost_line_def last_column_def of_nat_diff algebra_simps)
  qed
  have rows: "map (cell_at g) (irange (?i + 1) (?e + 1)) = concat (map (row_cells g) (irange (- ?o) (?n - ?o)))"
    using cells_of_rows [OF c, of "- ?o" "?n - ?o"] by simp
  show ?thesis
    unfolding it next_loop_cells [OF g lo hi] rows ..
qed

end
