(* ===== verification/Search.thy ===== *)
theory Search
  imports Grid_Iter Term_Invariant
begin

text \<open>
  Searching the grid without regular expressions: \<^verbatim>\<open>velacritty_terminal/src/term/search.rs\<close>. Matching brackets, words
  separated by the semantic escape characters, and lines across line wraps. A result \<^verbatim>\<open>Result<Point, Point>\<close> is a sum,
  with the error on the left.
\<close>

definition BRACKET_PAIRS :: "(uchar \<times> uchar) list" where
  "BRACKET_PAIRS = [(40, 41), (91, 93), (123, 125), (60, 62)]"

text \<open>\<^verbatim>\<open>BRACKET_PAIRS.iter().find_map(...)\<close>: the direction and the bracket to look for.\<close>

fun find_bracket :: "uchar \<Rightarrow> (uchar \<times> uchar) list \<Rightarrow> (bool \<times> uchar) option" where
  "find_bracket c [] = None"
| "find_bracket c ((open, close) # ps) =
     (if open = c then Some (True, close) else if close = c then Some (False, open) else find_bracket c ps)"

definition bracket_body :: "uchar \<Rightarrow> uchar \<Rightarrow> int \<Rightarrow> point \<Rightarrow> cell \<Rightarrow> int + point" where
  "bracket_body start_char end_char skip_pairs p x =
     (if c_char x = end_char \<and> skip_pairs = 0 then Inr p
      else if c_char x = start_char then Inl (skip_pairs + 1)
      else if c_char x = end_char then Inl (skip_pairs - 1)
      else Inl skip_pairs)"

definition bracket_search :: "terminal \<Rightarrow> point \<Rightarrow> point option option" where
  "bracket_search t p = do {
     x \<leftarrow> grid_get (t_grid t) p;
     case find_bracket (c_char x) BRACKET_PAIRS of
       None \<Rightarrow> Some None
     | Some (forward, end_char) \<Rightarrow> do {
         r \<leftarrow> (if forward then next_loop else prev_loop) (t_grid t) (bracket_body (c_char x) end_char) 0
                (iter_from (t_grid t) p);
         Some (case r of Inl _ \<Rightarrow> None | Inr q \<Rightarrow> Some q)
       }
   }"

definition wide_spacer :: flags where
  "wide_spacer = WIDE_CHAR_SPACER OR LEADING_WIDE_CHAR_SPACER"

definition is_needle :: "ustring \<Rightarrow> cell \<Rightarrow> bool" where
  "is_needle needles x \<longleftrightarrow> \<not> fl_intersects (c_flags x) wide_spacer \<and> c_char x \<in> set needles"

definition inline_left_body :: "nat \<Rightarrow> ustring \<Rightarrow> point \<Rightarrow> point \<Rightarrow> cell \<Rightarrow> point + (point + point)" where
  "inline_left_body lc needles s p x =
     (if p_column p = lc \<and> \<not> fl_contains (c_flags x) WRAPLINE then Inr (Inl s)
      else if is_needle needles x then Inr (Inr p)
      else Inl p)"

definition inline_search_left :: "terminal \<Rightarrow> point \<Rightarrow> ustring \<Rightarrow> (point + point) option" where
  "inline_search_left t p needles = do {
     let p = Point (max (p_line p) (topmost_line (t_dims t))) (p_column p);
     lc \<leftarrow> usub (columns (t_dims t)) 1;
     r \<leftarrow> prev_loop (t_grid t) (inline_left_body lc needles) p (iter_from (t_grid t) p);
     Some (case r of Inl s \<Rightarrow> Inl s | Inr res \<Rightarrow> res)
   }"

definition inline_right_body :: "nat \<Rightarrow> ustring \<Rightarrow> point \<Rightarrow> point \<Rightarrow> cell \<Rightarrow> point + (point + point)" where
  "inline_right_body lc needles s p x =
     (if is_needle needles x then Inr (Inr p)
      else if p_column p = lc \<and> \<not> fl_contains (c_flags x) WRAPLINE then Inr (Inl p)
      else Inl p)"

definition inline_search_right :: "terminal \<Rightarrow> point \<Rightarrow> ustring \<Rightarrow> (point + point) option" where
  "inline_search_right t p needles = do {
     let p = Point (max (p_line p) (topmost_line (t_dims t))) (p_column p);
     lc \<leftarrow> usub (columns (t_dims t)) 1;
     broken \<leftarrow> (if p_column p = lc
                then map_option (\<lambda>x. \<not> fl_contains (c_flags x) WRAPLINE) (grid_get (t_grid t) p)
                else Some False);
     if broken then Some (Inl p)
     else do {
       r \<leftarrow> next_loop (t_grid t) (inline_right_body lc needles) p (iter_from (t_grid t) p);
       Some (case r of Inl s \<Rightarrow> Inl s | Inr res \<Rightarrow> res)
     }
   }"

text \<open>\<^verbatim>\<open>semantic_escape_chars()\<close> is a field of the configuration.\<close>

definition semantic_search_left :: "terminal \<Rightarrow> point \<Rightarrow> point option" where
  "semantic_search_left t p = do {
     r \<leftarrow> inline_search_left t p (cfg_semantic_escape_chars (t_config t));
     case r of
       Inl q \<Rightarrow> Some q
     | Inr q \<Rightarrow> do {
         f \<leftarrow> next_loop (t_grid t) (\<lambda>s p x. if fl_intersects (c_flags x) wide_spacer then Inl s else Inr p) ()
                (iter_from (t_grid t) q);
         Some (case f of Inl _ \<Rightarrow> q | Inr r \<Rightarrow> r)
       }
   }"

definition semantic_search_right :: "terminal \<Rightarrow> point \<Rightarrow> point option" where
  "semantic_search_right t p = do {
     r \<leftarrow> inline_search_right t p (cfg_semantic_escape_chars (t_config t));
     case r of
       Inl q \<Rightarrow> Some q
     | Inr q \<Rightarrow> do {
         (it, c) \<leftarrow> iter_prev (t_grid t) (iter_from (t_grid t) q);
         Some (case c of None \<Rightarrow> q | Some (r, x) \<Rightarrow> r)
       }
   }"

text \<open>The loops of the two line searches, over the line number.\<close>

function line_search_up :: "terminal \<Rightarrow> int \<Rightarrow> int option" where
  "line_search_up t l =
     (if l > topmost_line (t_dims t)
      then do {
        x \<leftarrow> grid_get (t_grid t) (Point (l - 1) (last_column (t_dims t)));
        if fl_contains (c_flags x) WRAPLINE then line_search_up t (l - 1) else Some l
      }
      else Some l)"
  by pat_completeness auto
termination
  by (relation "measure (\<lambda>(t, l). nat (l - topmost_line (t_dims t)))") auto

definition line_search_left :: "terminal \<Rightarrow> point \<Rightarrow> point option" where
  "line_search_left t p = do { l \<leftarrow> line_search_up t (p_line p); Some (Point l 0) }"

function line_search_down :: "terminal \<Rightarrow> int \<Rightarrow> int option" where
  "line_search_down t l =
     (if l + 1 < int (screen_lines (t_dims t))
      then do {
        x \<leftarrow> grid_get (t_grid t) (Point l (last_column (t_dims t)));
        if fl_contains (c_flags x) WRAPLINE then line_search_down t (l + 1) else Some l
      }
      else Some l)"
  by pat_completeness auto
termination
  by (relation "measure (\<lambda>(t, l). nat (int (screen_lines (t_dims t)) - l))") auto

definition line_search_right :: "terminal \<Rightarrow> point \<Rightarrow> point option" where
  "line_search_right t p = do { l \<leftarrow> line_search_down t (p_line p); Some (Point l (last_column (t_dims t))) }"

declare line_search_up.simps [simp del] line_search_down.simps [simp del]

subsection \<open>Inline search\<close>

text \<open>A line ends at a cell of the last column that is not wrapped.\<close>

definition line_break :: "grid \<Rightarrow> point \<Rightarrow> bool" where
  "line_break g p \<longleftrightarrow> p_column p = last_column (grid_dims g) \<and> \<not> fl_contains (c_flags (g_cell g p)) WRAPLINE"

definition needle_at :: "grid \<Rightarrow> ustring \<Rightarrow> point \<Rightarrow> bool" where
  "needle_at g ns p \<longleftrightarrow> is_needle ns (g_cell g p)"

text \<open>The result of a search to the left from \<open>p\<close>: the nearest needle on the same logical line, or else the start of
  that line; to the right likewise.\<close>

definition found_left :: "grid \<Rightarrow> ustring \<Rightarrow> point \<Rightarrow> point + point \<Rightarrow> bool" where
  "found_left g ns p r \<longleftrightarrow> (case r of
      Inr q \<Rightarrow> in_grid (grid_dims g) q \<and> q < p \<and> needle_at g ns q
        \<and> (\<forall>r. in_grid (grid_dims g) r \<and> q \<le> r \<and> r < p \<longrightarrow> \<not> line_break g r)
        \<and> (\<forall>r. in_grid (grid_dims g) r \<and> q < r \<and> r < p \<longrightarrow> \<not> needle_at g ns r)
    | Inl q \<Rightarrow> in_grid (grid_dims g) q \<and> q \<le> p
        \<and> (\<forall>r. in_grid (grid_dims g) r \<and> q \<le> r \<and> r < p \<longrightarrow> \<not> line_break g r \<and> \<not> needle_at g ns r)
        \<and> (q = Point (topmost_line (grid_dims g)) 0 \<or> line_break g (prev_point g q)))"

definition found_right :: "grid \<Rightarrow> ustring \<Rightarrow> point \<Rightarrow> point + point \<Rightarrow> bool" where
  "found_right g ns p r \<longleftrightarrow> (case r of
      Inr q \<Rightarrow> in_grid (grid_dims g) q \<and> p < q \<and> needle_at g ns q
        \<and> (\<forall>r. in_grid (grid_dims g) r \<and> p \<le> r \<and> r < q \<longrightarrow> \<not> line_break g r)
        \<and> (\<forall>r. in_grid (grid_dims g) r \<and> p < r \<and> r < q \<longrightarrow> \<not> needle_at g ns r)
    | Inl q \<Rightarrow> in_grid (grid_dims g) q \<and> p \<le> q
        \<and> (\<forall>r. in_grid (grid_dims g) r \<and> p \<le> r \<and> r < q \<longrightarrow> \<not> line_break g r)
        \<and> (\<forall>r. in_grid (grid_dims g) r \<and> p < r \<and> r \<le> q \<longrightarrow> \<not> needle_at g ns r)
        \<and> (q = Point (bottommost_line (grid_dims g)) (last_column (grid_dims g)) \<or> line_break g q))"

lemma unlin_less: "0 < columns d \<Longrightarrow> unlin d i < unlin d j \<longleftrightarrow> i < j"
  using unlin_mono [of d j i] by (metis not_le)

lemma in_grid_unlin_iff: "wf_dims d \<Longrightarrow> in_grid d (unlin d i) \<longleftrightarrow> first_lin d \<le> i \<and> i \<le> last_lin d"
  by (simp add: in_grid_lin wf_dims_def)

text \<open>Quantification over the points of the grid is quantification over positions.\<close>

lemma all_in_grid:
  assumes "wf_dims d"
  shows "(\<forall>r. in_grid d r \<and> Q r \<longrightarrow> P r) \<longleftrightarrow>
    (\<forall>k. first_lin d \<le> k \<and> k \<le> last_lin d \<and> Q (unlin d k) \<longrightarrow> P (unlin d k))"
proof
  assume l: "\<forall>r. in_grid d r \<and> Q r \<longrightarrow> P r"
  show "\<forall>k. first_lin d \<le> k \<and> k \<le> last_lin d \<and> Q (unlin d k) \<longrightarrow> P (unlin d k)"
    using l in_grid_unlin_iff [OF assms] by blast
next
  assume r: "\<forall>k. first_lin d \<le> k \<and> k \<le> last_lin d \<and> Q (unlin d k) \<longrightarrow> P (unlin d k)"
  show "\<forall>r. in_grid d r \<and> Q r \<longrightarrow> P r"
  proof (intro allI impI, elim conjE)
    fix q assume q: "in_grid d q" "Q q"
    have b: "p_column q < columns d" "first_lin d \<le> lin d q" "lin d q \<le> last_lin d"
      using q(1) in_grid_lin [OF assms, of q] by blast+
    have u: "unlin d (lin d q) = q" by (rule unlin_lin [OF b(1)])
    show "P q" using r [rule_format, of "lin d q", unfolded u] b q(2) by blast
  qed
qed

lemma first_last_point:
  assumes "wf_dims d"
  shows "unlin d (first_lin d) = Point (topmost_line d) 0"
    "unlin d (last_lin d) = Point (bottommost_line d) (last_column d)"
  using assms by (simp_all add: first_lin_def last_lin_def wf_dims_def last_column_def)

lemma inline_left_loop:
  assumes g: "grid_core_ok g" and p: "in_grid (grid_dims g) p"
  shows "returns (prev_loop g (inline_left_body (last_column (grid_dims g)) ns) p (iter_from g p))
     (\<lambda>r. found_left g ns p (case r of Inl s \<Rightarrow> Inl s | Inr res \<Rightarrow> res))"
proof -
  let ?d = "grid_dims g"
  define U where "U = unlin ?d"
  define n where "n = lin ?d p"
  have wf: "wf_dims ?d" by (rule grid_core_ok_dims [OF g])
  then have c: "0 < columns ?d" by (simp add: wf_dims_def)
  have n: "p = U n" "first_lin ?d \<le> n" "n \<le> last_lin ?d"
    using p in_grid_lin [OF wf] by (auto simp: n_def U_def)
  have pred: "prev_point g (U (i + 1)) = U i" for i
    using prev_point_unlin [of g "i + 1"] c by (simp add: U_def)
  note points = all_in_grid [OF wf, folded U_def] unlin_mono [OF c, folded U_def] unlin_less [OF c, folded U_def]
    in_grid_unlin_iff [OF wf, folded U_def] first_last_point [OF wf, folded U_def, symmetric]
  define clear where "clear i \<longleftrightarrow> (\<forall>k. first_lin ?d \<le> k \<and> k \<le> last_lin ?d \<and> i \<le> k \<and> k < n \<longrightarrow>
    \<not> line_break g (U k) \<and> \<not> needle_at g ns (U k))" for i
  show ?thesis
  proof (rule prev_loop_rule [OF g p, folded U_def n_def,
        where I = "\<lambda>i s. s = U i \<and> first_lin ?d \<le> i \<and> i \<le> n \<and> clear i"])
    show "p = U n \<and> first_lin ?d \<le> n \<and> n \<le> n \<and> clear n" using n by (auto simp: clear_def)
  next
    fix i s
    assume i: "i < n" "first_lin ?d \<le> i" and s: "s = U (i + 1) \<and> first_lin ?d \<le> i + 1 \<and> i + 1 \<le> n \<and> clear (i + 1)"
    have rest: "\<not> line_break g (U k) \<and> \<not> needle_at g ns (U k)"
      if "first_lin ?d \<le> k" "k \<le> last_lin ?d" "i < k" "k < n" for k
      using s that by (simp add: clear_def)
    have step: "clear i" if "\<not> line_break g (U i)" "\<not> needle_at g ns (U i)"
      unfolding clear_def using rest that by (metis le_less)
    have stop: "found_left g ns p (Inl s)" if "line_break g (U i)"
      using s that i n pred [of i] by (simp add: found_left_def points clear_def)
    have hit: "found_left g ns p (Inr (U i))" if "\<not> line_break g (U i)" "needle_at g ns (U i)"
    proof -
      have "\<forall>k. first_lin ?d \<le> k \<and> k \<le> last_lin ?d \<and> i \<le> k \<and> k < n \<longrightarrow> \<not> line_break g (U k)"
        using rest that(1) by (metis le_less)
      then show ?thesis using rest that(2) i n by (simp add: found_left_def points)
    qed
    show "case inline_left_body (last_column ?d) ns s (U i) (g_cell g (U i)) of
        Inl s' \<Rightarrow> s' = U i \<and> first_lin ?d \<le> i \<and> i \<le> n \<and> clear i
      | Inr r \<Rightarrow> found_left g ns p (case Inr r of Inl s \<Rightarrow> Inl s | Inr res \<Rightarrow> res)"
      using step stop hit i by (auto simp: inline_left_body_def line_break_def needle_at_def)
  next
    fix s
    assume "s = U (first_lin ?d) \<and> first_lin ?d \<le> first_lin ?d \<and> first_lin ?d \<le> n \<and> clear (first_lin ?d)"
    then show "found_left g ns p (case Inl s of Inl s \<Rightarrow> Inl s | Inr res \<Rightarrow> res)"
      using n by (simp add: found_left_def points clear_def)
  qed
qed

lemma inline_right_loop:
  assumes g: "grid_core_ok g" and p: "in_grid (grid_dims g) p" and b: "\<not> line_break g p"
  shows "returns (next_loop g (inline_right_body (last_column (grid_dims g)) ns) p (iter_from g p))
     (\<lambda>r. found_right g ns p (case r of Inl s \<Rightarrow> Inl s | Inr res \<Rightarrow> res))"
proof -
  let ?d = "grid_dims g"
  define U where "U = unlin ?d"
  define n where "n = lin ?d p"
  have wf: "wf_dims ?d" by (rule grid_core_ok_dims [OF g])
  then have c: "0 < columns ?d" by (simp add: wf_dims_def)
  have n: "p = U n" "first_lin ?d \<le> n" "n \<le> last_lin ?d"
    using p in_grid_lin [OF wf] by (auto simp: n_def U_def)
  note points = all_in_grid [OF wf, folded U_def] unlin_mono [OF c, folded U_def] unlin_less [OF c, folded U_def]
    in_grid_unlin_iff [OF wf, folded U_def] first_last_point [OF wf, folded U_def, symmetric]
  define clear where "clear i \<longleftrightarrow>
    (\<forall>k. first_lin ?d \<le> k \<and> k \<le> last_lin ?d \<and> n \<le> k \<and> k \<le> i \<longrightarrow> \<not> line_break g (U k))
    \<and> (\<forall>k. first_lin ?d \<le> k \<and> k \<le> last_lin ?d \<and> n < k \<and> k \<le> i \<longrightarrow> \<not> needle_at g ns (U k))" for i
  show ?thesis
  proof (rule next_loop_rule [OF g p, folded U_def n_def,
        where I = "\<lambda>i s. s = U i \<and> n \<le> i \<and> i \<le> last_lin ?d \<and> clear i"])
    have "k = n" if "n \<le> k" "k \<le> n" for k using that by simp
    then show "p = U n \<and> n \<le> n \<and> n \<le> last_lin ?d \<and> clear n" using n b by (auto simp: clear_def)
  next
    fix i s
    assume i: "n < i" "i \<le> last_lin ?d" and s: "s = U (i - 1) \<and> n \<le> i - 1 \<and> i - 1 \<le> last_lin ?d \<and> clear (i - 1)"
    have rest: "first_lin ?d \<le> k \<Longrightarrow> k \<le> last_lin ?d \<Longrightarrow> n \<le> k \<Longrightarrow> k < i \<Longrightarrow> \<not> line_break g (U k)"
      "first_lin ?d \<le> k \<Longrightarrow> k \<le> last_lin ?d \<Longrightarrow> n < k \<Longrightarrow> k < i \<Longrightarrow> \<not> needle_at g ns (U k)" for k
      using s by (simp_all add: clear_def)
    have step: "clear i" if "\<not> line_break g (U i)" "\<not> needle_at g ns (U i)"
      unfolding clear_def using rest that by (metis le_less)
    have stop: "found_right g ns p (Inl (U i))" if "line_break g (U i)" "\<not> needle_at g ns (U i)"
    proof -
      have "\<forall>k. first_lin ?d \<le> k \<and> k \<le> last_lin ?d \<and> n < k \<and> k \<le> i \<longrightarrow> \<not> needle_at g ns (U k)"
        using rest(2) that(2) by (metis le_less)
      then show ?thesis using rest(1) that i n by (simp add: found_right_def points)
    qed
    have hit: "found_right g ns p (Inr (U i))" if "needle_at g ns (U i)"
      using rest that i n by (simp add: found_right_def points)
    show "case inline_right_body (last_column ?d) ns s (U i) (g_cell g (U i)) of
        Inl s' \<Rightarrow> s' = U i \<and> n \<le> i \<and> i \<le> last_lin ?d \<and> clear i
      | Inr r \<Rightarrow> found_right g ns p (case Inr r of Inl s \<Rightarrow> Inl s | Inr res \<Rightarrow> res)"
      using step stop hit i by (auto simp: inline_right_body_def line_break_def needle_at_def)
  next
    fix s
    assume "s = U (last_lin ?d) \<and> n \<le> last_lin ?d \<and> last_lin ?d \<le> last_lin ?d \<and> clear (last_lin ?d)"
    then show "found_right g ns p (case Inl s of Inl s \<Rightarrow> Inl s | Inr res \<Rightarrow> res)"
      using n by (simp add: found_right_def points clear_def)
  qed
qed

lemma grid_of_dims: "grid_dims (t_grid t) = t_dims t"
  by (simp add: t_dims_def)

lemma inline_search_left_returns:
  assumes t: "wf_term t" and p: "in_grid (t_dims t) p"
  shows "returns (inline_search_left t p ns) (found_left (t_grid t) ns p)"
proof -
  have "Point (max (p_line p) (topmost_line (t_dims t))) (p_column p) = p"
    using p by (cases p) (simp add: in_grid_def)
  moreover have "columns (t_dims t) - 1 = last_column (grid_dims (t_grid t))" by (simp add: last_column_def)
  ultimately show ?thesis
    using inline_left_loop [OF wf_core [OF t], of p ns] p wf_cols [OF t]
    by (simp add: inline_search_left_def grid_of_dims)
qed

lemma inline_search_right_returns:
  assumes t: "wf_term t" and p: "in_grid (t_dims t) p"
  shows "returns (inline_search_right t p ns) (found_right (t_grid t) ns p)"
proof -
  have here: "Point (max (p_line p) (topmost_line (t_dims t))) (p_column p) = p"
    using p by (cases p) (simp add: in_grid_def)
  have lc: "columns (t_dims t) - 1 = last_column (grid_dims (t_grid t))" by (simp add: last_column_def)
  have get: "grid_get (t_grid t) p = Some (g_cell (t_grid t) p)"
    by (rule grid_get_cell [OF wf_core [OF t]]) (simp add: grid_of_dims p)
  have eq: "inline_search_right t p ns = (if line_break (t_grid t) p then Some (Inl p)
     else do {
       r \<leftarrow> next_loop (t_grid t) (inline_right_body (last_column (grid_dims (t_grid t))) ns) p (iter_from (t_grid t) p);
       Some (case r of Inl s \<Rightarrow> Inl s | Inr res \<Rightarrow> res)
     })"
    unfolding inline_search_right_def Let_def here lc [symmetric] line_break_def
    using wf_cols [OF t] by (simp add: get)
  have brk: "found_right (t_grid t) ns p (Inl p)" if "line_break (t_grid t) p"
    using that p by (auto simp: found_right_def grid_of_dims)
  show ?thesis
    unfolding eq using brk inline_right_loop [OF wf_core [OF t], of p ns] p by (simp add: grid_of_dims)
qed

subsection \<open>Semantic and line search\<close>

lemma semantic_search_left_returns:
  assumes t: "wf_term t" and p: "in_grid (t_dims t) p"
  shows "returns (semantic_search_left t p) (in_grid (t_dims t))"
proof -
  note g = wf_core [OF t]
  have find: "returns (next_loop (t_grid t) (\<lambda>s p x. if fl_intersects (c_flags x) wide_spacer then Inl s else Inr p) ()
      (iter_from (t_grid t) q)) (\<lambda>f. in_grid (t_dims t) (case f of Inl _ \<Rightarrow> q | Inr r \<Rightarrow> r))"
    if "in_grid (t_dims t) q" for q
    by (rule next_loop_rule [OF g, where I = "\<lambda>_ _. True"])
      (use that in_grid_unlin [OF grid_core_ok_dims [OF g]] in_grid_lin [OF grid_core_ok_dims [OF g], of q] in
        \<open>auto simp: grid_of_dims\<close>)
  show ?thesis
    unfolding semantic_search_left_def returns_bind
    by (rule returns_mono [OF inline_search_left_returns [OF t p]])
      (auto simp: found_left_def grid_of_dims find split: sum.splits intro!: returns_mono [OF find])
qed

lemma semantic_search_right_returns:
  assumes t: "wf_term t" and p: "in_grid (t_dims t) p"
  shows "returns (semantic_search_right t p) (in_grid (t_dims t))"
proof -
  note g = wf_core [OF t]
  have prev: "returns (iter_prev (t_grid t) (iter_from (t_grid t) q))
      (\<lambda>(it, c). in_grid (t_dims t) (case c of None \<Rightarrow> q | Some (r, x) \<Rightarrow> r))" if q: "in_grid (t_dims t) q" for q
  proof (cases "q \<le> Point (topmost_line (t_dims t)) 0")
    case True
    then show ?thesis using q by (simp add: iter_prev_def iter_from_def grid_of_dims)
  next
    case False
    then have "in_grid (t_dims t) (prev_point (t_grid t) q)"
      using prev_point_in_grid(1) [OF g, of q] q by (simp add: in_grid_def grid_of_dims)
    then show ?thesis
      using False grid_get_cell [OF g, of "prev_point (t_grid t) q"]
      by (simp add: iter_prev_def iter_from_def grid_of_dims Let_def)
  qed
  show ?thesis
    unfolding semantic_search_right_def returns_bind
    by (rule returns_mono [OF inline_search_right_returns [OF t p]])
      (auto simp: found_right_def grid_of_dims split: sum.splits intro!: returns_mono [OF prev])
qed

text \<open>The lines between two lines of one logical line are wrapped.\<close>

definition wrapped_line :: "grid \<Rightarrow> int \<Rightarrow> bool" where
  "wrapped_line g l \<longleftrightarrow> fl_contains (c_flags (g_cell g (Point l (last_column (grid_dims g))))) WRAPLINE"

lemma last_column_get:
  assumes t: "wf_term t" and l: "topmost_line (t_dims t) \<le> l" "l \<le> bottommost_line (t_dims t)"
  shows "grid_get (t_grid t) (Point l (last_column (t_dims t))) = Some (g_cell (t_grid t) (Point l (last_column (t_dims t))))"
  by (rule grid_get_cell [OF wf_core [OF t]]) (use l wf_cols [OF t] in \<open>simp add: in_grid_def grid_of_dims last_column_def\<close>)

lemma line_search_up_returns:
  assumes "wf_term t" "topmost_line (t_dims t) \<le> l" "l \<le> bottommost_line (t_dims t)"
  shows "returns (line_search_up t l) (\<lambda>m. topmost_line (t_dims t) \<le> m \<and> m \<le> l
     \<and> (\<forall>k. m \<le> k \<and> k < l \<longrightarrow> wrapped_line (t_grid t) k)
     \<and> (m = topmost_line (t_dims t) \<or> \<not> wrapped_line (t_grid t) (m - 1)))"
  using assms
proof (induction t l rule: line_search_up.induct)
  case (1 t l)
  show ?case
  proof (cases "l > topmost_line (t_dims t)")
    case True
    note get = last_column_get [OF "1.prems"(1), of "l - 1"]
    have IH: "returns (line_search_up t (l - 1)) (\<lambda>m. topmost_line (t_dims t) \<le> m \<and> m \<le> l - 1
       \<and> (\<forall>k. m \<le> k \<and> k < l - 1 \<longrightarrow> wrapped_line (t_grid t) k)
       \<and> (m = topmost_line (t_dims t) \<or> \<not> wrapped_line (t_grid t) (m - 1)))" if "wrapped_line (t_grid t) (l - 1)"
      by (rule "1.IH" [OF True]) (use True "1.prems" get that in \<open>auto simp: wrapped_line_def grid_of_dims\<close>)
    have eq: "line_search_up t l = (if wrapped_line (t_grid t) (l - 1) then line_search_up t (l - 1) else Some l)"
      using True get "1.prems" by (simp add: line_search_up.simps [of t l] wrapped_line_def grid_of_dims)
    show ?thesis
    proof (cases "wrapped_line (t_grid t) (l - 1)")
      case w: True
      have "wrapped_line (t_grid t) k" if "m \<le> k" "k < l" "\<forall>k. m \<le> k \<and> k < l - 1 \<longrightarrow> wrapped_line (t_grid t) k" for m k
        using that w by (cases "k = l - 1") auto
      then show ?thesis unfolding eq if_P [OF w] by (intro returns_mono [OF IH [OF w]]) auto
    next
      case False
      then show ?thesis using True by (auto simp: eq)
    qed
  next
    case False
    then show ?thesis using "1.prems" by (auto simp: line_search_up.simps [of t l])
  qed
qed

lemma line_search_down_returns:
  assumes "wf_term t" "topmost_line (t_dims t) \<le> l" "l \<le> bottommost_line (t_dims t)"
  shows "returns (line_search_down t l) (\<lambda>m. l \<le> m \<and> m \<le> bottommost_line (t_dims t)
     \<and> (\<forall>k. l \<le> k \<and> k < m \<longrightarrow> wrapped_line (t_grid t) k)
     \<and> (m = bottommost_line (t_dims t) \<or> \<not> wrapped_line (t_grid t) m))"
  using assms
proof (induction t l rule: line_search_down.induct)
  case (1 t l)
  show ?case
  proof (cases "l + 1 < int (screen_lines (t_dims t))")
    case True
    then have b: "l + 1 \<le> bottommost_line (t_dims t)" by (simp add: bottommost_line_def)
    note get = last_column_get [OF "1.prems"]
    have IH: "returns (line_search_down t (l + 1)) (\<lambda>m. l + 1 \<le> m \<and> m \<le> bottommost_line (t_dims t)
       \<and> (\<forall>k. l + 1 \<le> k \<and> k < m \<longrightarrow> wrapped_line (t_grid t) k)
       \<and> (m = bottommost_line (t_dims t) \<or> \<not> wrapped_line (t_grid t) m))" if "wrapped_line (t_grid t) l"
      by (rule "1.IH" [OF True]) (use b "1.prems" get that in \<open>auto simp: wrapped_line_def grid_of_dims\<close>)
    have eq: "line_search_down t l = (if wrapped_line (t_grid t) l then line_search_down t (l + 1) else Some l)"
      using True get by (simp add: line_search_down.simps [of t l] wrapped_line_def grid_of_dims)
    show ?thesis
    proof (cases "wrapped_line (t_grid t) l")
      case w: True
      have "wrapped_line (t_grid t) k" if "l \<le> k" "k < m" "\<forall>k. l + 1 \<le> k \<and> k < m \<longrightarrow> wrapped_line (t_grid t) k" for m k
        using that w by (cases "k = l") auto
      then show ?thesis unfolding eq if_P [OF w] by (intro returns_mono [OF IH [OF w]]) auto
    next
      case False
      then show ?thesis using "1.prems" by (auto simp: eq)
    qed
  next
    case False
    have "line_search_down t l = Some l" using False by (simp add: line_search_down.simps [of t l])
    moreover have "l = bottommost_line (t_dims t)" using False "1.prems"(3) by (simp add: bottommost_line_def)
    ultimately show ?thesis by auto
  qed
qed

subsection \<open>Brackets\<close>

text \<open>Opening brackets less closing brackets in a list of cells. The bracket that matches is the first one at which
  this falls below zero, counted from the cell next to the bracket the search starts at.\<close>

definition bracket_depth :: "uchar \<Rightarrow> uchar \<Rightarrow> (point \<times> cell) list \<Rightarrow> int" where
  "bracket_depth s e cs = int (count_list (map (c_char \<circ> snd) cs) s) - int (count_list (map (c_char \<circ> snd) cs) e)"

definition matching_bracket :: "uchar \<Rightarrow> uchar \<Rightarrow> (point \<times> cell) list \<Rightarrow> point option \<Rightarrow> bool" where
  "matching_bracket s e cs r \<longleftrightarrow> (case r of
      None \<Rightarrow> \<forall>j\<le>length cs. 0 \<le> bracket_depth s e (take j cs)
    | Some q \<Rightarrow> \<exists>i<length cs. q = fst (cs ! i) \<and> c_char (snd (cs ! i)) = e
        \<and> bracket_depth s e (take (Suc i) cs) = - 1 \<and> (\<forall>j\<le>i. 0 \<le> bracket_depth s e (take j cs)))"

lemma bracket_depth_Nil [simp]: "bracket_depth s e [] = 0"
  by (simp add: bracket_depth_def)

lemma bracket_depth_Cons:
  "s \<noteq> e \<Longrightarrow> bracket_depth s e (c # cs) =
     bracket_depth s e cs + (if c_char (snd c) = s then 1 else if c_char (snd c) = e then - 1 else 0)"
  by (simp add: bracket_depth_def)

lemma all_prefixes_Cons: "(\<forall>j\<le>Suc n. P (take j (c # cs))) \<longleftrightarrow> P [] \<and> (\<forall>j\<le>n. P (c # take j cs))"
  by (metis Suc_le_mono le0 list.size(3) not0_implies_Suc take_Suc_Cons take_eq_Nil)

lemma bracket_loop:
  assumes "s \<noteq> e" "0 \<le> k"
  shows "case cell_loop (bracket_body s e) k cs of
      Inl _ \<Rightarrow> \<forall>j\<le>length cs. 0 \<le> k + bracket_depth s e (take j cs)
    | Inr q \<Rightarrow> \<exists>i<length cs. q = fst (cs ! i) \<and> c_char (snd (cs ! i)) = e
        \<and> k + bracket_depth s e (take (Suc i) cs) = - 1 \<and> (\<forall>j\<le>i. 0 \<le> k + bracket_depth s e (take j cs))"
  using assms(2)
proof (induction cs arbitrary: k)
  case Nil
  then show ?case by simp
next
  case (Cons c cs)
  obtain p x where c: "c = (p, x)" by fastforce
  let ?d = "if c_char x = s then 1 else if c_char x = e then - 1 else (0 :: int)"
  show ?case
  proof (cases "c_char x = e \<and> k = 0")
    case True
    then show ?thesis
      using assms(1) Cons.prems by (auto simp: c bracket_body_def bracket_depth_Cons intro!: exI [of _ 0])
  next
    case False
    then have k: "0 \<le> k + ?d" using Cons.prems assms(1) by auto
    have step: "cell_loop (bracket_body s e) k (c # cs) = cell_loop (bracket_body s e) (k + ?d) cs"
      using False assms(1) by (auto simp: c bracket_body_def)
    note depth = bracket_depth_Cons [OF assms(1), of c, unfolded c snd_conv]
    have prefixes: "(\<forall>j\<le>Suc n. 0 \<le> k + bracket_depth s e (take j (c # cs))) \<longleftrightarrow>
        0 \<le> k \<and> (\<forall>j\<le>n. 0 \<le> k + ?d + bracket_depth s e (take j cs))" for n
      unfolding all_prefixes_Cons [of n "\<lambda>cs. 0 \<le> k + bracket_depth s e cs"] by (simp add: c depth algebra_simps)
    show ?thesis
    proof (cases "cell_loop (bracket_body s e) (k + ?d) cs")
      case (Inl m)
      then have "\<forall>j\<le>length cs. 0 \<le> k + ?d + bracket_depth s e (take j cs)" using Cons.IH [OF k] by simp
      then have "\<forall>j\<le>Suc (length cs). 0 \<le> k + bracket_depth s e (take j (c # cs))"
        using prefixes [of "length cs"] Cons.prems by blast
      then show ?thesis unfolding step Inl by simp
    next
      case (Inr q)
      then obtain i where i: "i < length cs" "q = fst (cs ! i)" "c_char (snd (cs ! i)) = e"
        "k + ?d + bracket_depth s e (take (Suc i) cs) = - 1" "\<forall>j\<le>i. 0 \<le> k + ?d + bracket_depth s e (take j cs)"
        using Cons.IH [OF k] by auto
      have "\<forall>j\<le>Suc i. 0 \<le> k + bracket_depth s e (take j (c # cs))"
        using prefixes [of i] i(5) Cons.prems by blast
      moreover have "k + bracket_depth s e (take (Suc (Suc i)) (c # cs)) = - 1"
        unfolding take_Suc_Cons using i(4) by (simp add: c depth algebra_simps)
      ultimately show ?thesis unfolding step Inr sum.case using i(1,2,3) by (intro exI [of _ "Suc i"]) simp
    qed
  qed
qed

lemma find_bracket_pair:
  assumes "find_bracket c BRACKET_PAIRS = Some (forward, e)"
  shows "c \<noteq> e" "(if forward then (c, e) else (e, c)) \<in> set BRACKET_PAIRS"
  using assms by (auto simp: BRACKET_PAIRS_def split: if_splits)

theorem bracket_search_returns:
  assumes t: "wf_term t" and p: "in_grid (t_dims t) p"
    and b: "find_bracket (c_char (g_cell (t_grid t) p)) BRACKET_PAIRS = Some (forward, e)"
  shows "returns (bracket_search t p) (matching_bracket (c_char (g_cell (t_grid t) p)) e
    (if forward then cells_after (t_grid t) p else cells_before (t_grid t) p))"
proof -
  let ?g = "t_grid t" and ?s = "c_char (g_cell (t_grid t) p)"
  define cs where "cs = (if forward then cells_after ?g p else cells_before ?g p)"
  have g: "grid_core_ok ?g" by (rule wf_core [OF t])
  have ig: "in_grid (grid_dims ?g) p" using p by (simp add: grid_of_dims)
  have get: "grid_get ?g p = Some (g_cell ?g p)" by (rule grid_get_cell [OF g ig])
  have "bracket_search t p = Some (case cell_loop (bracket_body ?s e) 0 cs of Inl _ \<Rightarrow> None | Inr q \<Rightarrow> Some q)"
    by (simp add: bracket_search_def get b next_loop_from [OF g ig] prev_loop_from [OF g ig] cs_def)
  moreover have "matching_bracket ?s e cs (case cell_loop (bracket_body ?s e) 0 cs of Inl _ \<Rightarrow> None | Inr q \<Rightarrow> Some q)"
    using bracket_loop [OF find_bracket_pair(1) [OF b], of 0 cs]
    by (simp add: matching_bracket_def split: sum.splits)
  ultimately show ?thesis by (simp add: cs_def)
qed

end
