(* ===== verification/Term_Text.thy ===== *)
theory Term_Text
  imports Search
begin

text \<open>
  Text of a selection and the content handed to the renderer: \<^verbatim>\<open>to_range\<close>, \<^verbatim>\<open>range_semantic\<close> and \<^verbatim>\<open>range_lines\<close> of
  \<^verbatim>\<open>velacritty_terminal/src/selection.rs\<close>; \<^verbatim>\<open>selection_to_string\<close>, \<^verbatim>\<open>bounds_to_string\<close>, \<^verbatim>\<open>line_to_string\<close>,
  \<^verbatim>\<open>RenderableCursor\<close> and \<^verbatim>\<open>RenderableContent\<close> of \<^verbatim>\<open>term/mod.rs\<close>. An outer \<open>None\<close> is a panic, as everywhere; the
  inner option is the source's.
\<close>

subsection \<open>Selected range\<close>

definition range_semantic :: "terminal \<Rightarrow> point \<Rightarrow> point \<Rightarrow> selection_range option" where
  "range_semantic t start stop = do {
     m \<leftarrow> (if start = stop then bracket_search t start else Some None);
     case m of
       Some matching \<Rightarrow>
         Some (if (p_line matching = p_line start \<and> p_column matching < p_column start)
                  \<or> p_line matching < p_line start
               then \<lparr>sr_start = matching, sr_end = stop, sr_is_block = False\<rparr>
               else \<lparr>sr_start = start, sr_end = matching, sr_is_block = False\<rparr>)
     | None \<Rightarrow> do {
         start \<leftarrow> semantic_search_left t start;
         stop \<leftarrow> semantic_search_right t stop;
         Some \<lparr>sr_start = start, sr_end = stop, sr_is_block = False\<rparr>
       }
   }"

definition range_lines :: "terminal \<Rightarrow> point \<Rightarrow> point \<Rightarrow> selection_range option" where
  "range_lines t start stop = do {
     start \<leftarrow> line_search_left t start;
     stop \<leftarrow> line_search_right t stop;
     Some \<lparr>sr_start = start, sr_end = stop, sr_is_block = False\<rparr>
   }"

definition to_range :: "terminal \<Rightarrow> selection \<Rightarrow> selection_range option option" where
  "to_range t s = (
     let (start, stop) =
           (if an_point (sel_start s) > an_point (sel_end s) then (sel_end s, sel_start s)
            else (sel_start s, sel_end s))
     in if p_line (an_point stop) < topmost_line (t_dims t) then Some None
        else
          let start = start\<lparr>an_point := point_grid_clamp (t_dims t) BGrid (an_point start)\<rparr>;
              stop = stop\<lparr>an_point := point_grid_clamp (t_dims t) BGrid (an_point stop)\<rparr>
          in (case sel_ty s of
                Simple \<Rightarrow> Some (range_simple s start stop (columns (t_dims t)))
              | Block \<Rightarrow> Some (range_block s start stop)
              | Semantic \<Rightarrow> map_option Some (range_semantic t (an_point start) (an_point stop))
              | Lines \<Rightarrow> map_option Some (range_lines t (an_point start) (an_point stop))))"

subsection \<open>Text\<close>

text \<open>One column of \<^verbatim>\<open>line_to_string\<close>; the state is \<^verbatim>\<open>(tab_mode, text)\<close>.\<close>

definition cell_text :: "cell \<Rightarrow> ustring" where
  "cell_text x = c_char x # (case zerowidth x of None \<Rightarrow> [] | Some zs \<Rightarrow> zs)"

definition line_cell :: "terminal \<Rightarrow> cell row \<Rightarrow> nat \<Rightarrow> bool \<times> ustring \<Rightarrow> (bool \<times> ustring) option" where
  "line_cell t grid_line column s = do {
     let (tab_mode, text) = s;
     x \<leftarrow> row_get grid_line column;
     skip \<leftarrow> (if tab_mode
             then map_option (\<lambda>tab_stop. \<not> (tab_stop \<or> c_char x \<noteq> 32)) (tabs_get (t_tabs t) column)
             else Some False);
     if skip then Some s
     else Some (c_char x = 9, if fl_intersects (c_flags x) wide_spacer then text else text @ cell_text x)
   }"

definition line_to_string :: "terminal \<Rightarrow> int \<Rightarrow> nat \<Rightarrow> nat \<Rightarrow> bool \<Rightarrow> ustring option" where
  "line_to_string t line start stop include_wrapped_wide = do {
     grid_line \<leftarrow> grid_row (t_grid t) line;
     len \<leftarrow> line_length grid_line;
     let len = min len (stop + 1);
     x \<leftarrow> row_get grid_line start;
     start \<leftarrow> (if fl_contains (c_flags x) WIDE_CHAR_SPACER then usub start 1 else Some start);
     (_, text) \<leftarrow> mfold (line_cell t grid_line) [start..<len] (False, []);
     last \<leftarrow> usub (columns (t_dims t)) 1;
     newline \<leftarrow> (if stop \<ge> last
                then if len = 0 then Some True
                     else map_option (\<lambda>x. \<not> fl_contains (c_flags x) WRAPLINE) (row_get grid_line (len - 1))
                else Some False);
     let text = (if newline then text @ [10] else text);
     leading \<leftarrow> (if len = columns (t_dims t) \<and> len \<ge> 2
                then map_option (\<lambda>x. fl_contains (c_flags x) LEADING_WIDE_CHAR_SPACER \<and> include_wrapped_wide)
                       (row_get grid_line (len - 1))
                else Some False);
     if leading
     then map_option (\<lambda>x. text @ [c_char x]) (grid_get (t_grid t) (Point (line - 1) 0))
     else Some text
   }"

definition strip_newline :: "ustring \<Rightarrow> ustring" where
  "strip_newline s = (if s \<noteq> [] \<and> last s = 10 then butlast s else s)"

definition bounds_to_string :: "terminal \<Rightarrow> point \<Rightarrow> point \<Rightarrow> ustring option" where
  "bounds_to_string t start stop = do {
     res \<leftarrow> mfold (\<lambda>line res. do {
              let start_col = (if line = p_line start then p_column start else 0);
              let end_col = (if line = p_line stop then p_column stop else last_column (t_dims t));
              s \<leftarrow> line_to_string t line start_col end_col (line = p_line stop);
              Some (res @ s)
            }) (irange (p_line start) (p_line stop + 1)) [];
     Some (strip_newline res)
   }"

definition selection_to_string :: "terminal \<Rightarrow> ustring option option" where
  "selection_to_string t =
     (case t_selection t of
        None \<Rightarrow> Some None
      | Some s \<Rightarrow> do {
          r \<leftarrow> to_range t s;
          case r of
            None \<Rightarrow> Some None
          | Some r \<Rightarrow>
              let start = sr_start r; stop = sr_end r in
              (case sel_ty s of
                 Block \<Rightarrow> do {
                   res \<leftarrow> mfold (\<lambda>line res. do {
                            s \<leftarrow> line_to_string t line (p_column start) (p_column stop) (p_column start \<noteq> 0);
                            Some (res @ trim_end s @ [10])
                          }) (irange (p_line start) (p_line stop)) [];
                   s \<leftarrow> line_to_string t (p_line stop) (p_column start) (p_column stop) True;
                   Some (Some (res @ trim_end s))
                 }
               | Lines \<Rightarrow> map_option (\<lambda>s. Some (s @ [10])) (bounds_to_string t start stop)
               | _ \<Rightarrow> map_option Some (bounds_to_string t start stop))
        })"

subsection \<open>Rendering\<close>

record renderable_cursor =
  rc_shape :: cursor_shape
  rc_point :: point

definition renderable_cursor_new :: "terminal \<Rightarrow> renderable_cursor option" where
  "renderable_cursor_new t = do {
     let vi_mode = has_mode t VI;
     let p = (if vi_mode then t_vi_cursor t else cu_point (t_cursor t));
     x \<leftarrow> grid_get (t_grid t) p;
     col \<leftarrow> (if fl_contains (c_flags x) WIDE_CHAR_SPACER then usub (p_column p) 1 else Some (p_column p));
     let shape = (if \<not> vi_mode \<and> \<not> has_mode t SHOW_CURSOR then CHidden else cs_shape (term_cursor_style t));
     Some \<lparr>rc_shape = shape, rc_point = Point (p_line p) col\<rparr>
   }"

record renderable_content =
  rn_display_iter :: grid_iter
  rn_selection :: "selection_range option"
  rn_cursor :: renderable_cursor
  rn_display_offset :: nat
  rn_colors :: colors
  rn_mode :: term_mode

definition renderable_content_new :: "terminal \<Rightarrow> renderable_content option" where
  "renderable_content_new t = do {
     cursor \<leftarrow> renderable_cursor_new t;
     selection \<leftarrow> (case t_selection t of None \<Rightarrow> Some None | Some s \<Rightarrow> to_range t s);
     Some \<lparr>rn_display_iter = display_iter (t_grid t), rn_selection = selection, rn_cursor = cursor,
           rn_display_offset = g_display_offset (t_grid t), rn_colors = t_colors t, rn_mode = t_mode t\<rparr>
   }"

subsection \<open>The range lies in the grid\<close>

text \<open>The result of \<^verbatim>\<open>to_range\<close>: every kind but the block starts and ends in the grid; a block has its lines in the
  grid, and its first column may be one past the last.\<close>

definition range_in_grid :: "dims \<Rightarrow> selection_range \<Rightarrow> bool" where
  "range_in_grid d r \<longleftrightarrow>
     (if sr_is_block r
      then topmost_line d \<le> p_line (sr_start r) \<and> p_line (sr_start r) \<le> p_line (sr_end r)
           \<and> p_line (sr_end r) \<le> bottommost_line d \<and> p_column (sr_start r) \<le> columns d \<and> p_column (sr_end r) < columns d
      else in_grid d (sr_start r) \<and> in_grid d (sr_end r))"

lemma prev_cell_in_grid:
  assumes "in_grid d p" "in_grid d q" "p < q"
  shows "in_grid d (prev_cell (columns d) q) \<and> p \<le> prev_cell (columns d) q"
  using assms by (cases p; cases q; auto simp: in_grid_def prev_cell_def less_gpoint_def less_eq_gpoint_def)

lemma next_cell_in_grid:
  assumes "in_grid d p" "in_grid d q" "p < q"
  shows "in_grid d (next_cell (columns d) p) \<and> next_cell (columns d) p \<le> q"
  using assms by (cases p; cases q; auto simp: in_grid_def next_cell_def less_gpoint_def less_eq_gpoint_def)

lemma range_simple_in_grid:
  assumes "in_grid d (an_point start)" "in_grid d (an_point stop)" "an_point start \<le> an_point stop"
    and "range_simple s start stop (columns d) = Some r"
  shows "\<not> sr_is_block r \<and> in_grid d (sr_start r) \<and> in_grid d (sr_end r) \<and> sr_start r \<le> sr_end r"
proof -
  let ?sp = "an_point start" and ?ep = "an_point stop"
  define e where "e = (if an_side stop = DirLeft \<and> ?sp \<noteq> ?ep then prev_cell (columns d) ?ep else ?ep)"
  define b where "b = (if an_side start = DirRight \<and> ?sp \<noteq> e then next_cell (columns d) ?sp else ?sp)"
  have r: "sr_start r = b" "sr_end r = e" "\<not> sr_is_block r"
    using assms(4) unfolding b_def e_def
    by (auto simp: range_simple_def Let_def prev_cell_def next_cell_def split: if_splits)
  have "?sp \<noteq> ?ep \<Longrightarrow> ?sp < ?ep" using assms(3) by (simp add: order_neq_le_trans)
  then have e: "in_grid d e \<and> ?sp \<le> e"
    unfolding e_def using assms(2,3) prev_cell_in_grid [OF assms(1,2)] by (simp split: if_split)
  then have "?sp \<noteq> e \<Longrightarrow> ?sp < e" by (simp add: order_neq_le_trans)
  then have "in_grid d b \<and> b \<le> e"
    unfolding b_def using assms(1) e next_cell_in_grid [OF assms(1), of e] by (simp split: if_split)
  then show ?thesis unfolding r(1,2) using r(3) e by simp
qed

lemma range_block_in_grid:
  assumes "in_grid d (an_point start)" "in_grid d (an_point stop)" "an_point start \<le> an_point stop"
    and "range_block s start stop = Some r"
  shows "sr_is_block r \<and> range_in_grid d r"
  using assms
  by (cases "an_point start"; cases "an_point stop")
    (auto simp: range_block_def range_in_grid_def in_grid_def Let_def less_eq_gpoint_def split: if_splits)

lemma line_search_left_returns:
  assumes "wf_term t" "in_grid (t_dims t) p"
  shows "returns (line_search_left t p) (\<lambda>q. in_grid (t_dims t) q \<and> p_column q = 0 \<and> q \<le> p)"
  unfolding line_search_left_def returns_bind
  by (rule returns_mono [OF line_search_up_returns])
    (use assms wf_cols [OF assms(1)] in \<open>auto simp: in_grid_def less_eq_gpoint_def split: gpoint.splits\<close>)

lemma line_search_right_returns:
  assumes "wf_term t" "in_grid (t_dims t) p"
  shows "returns (line_search_right t p) (\<lambda>q. in_grid (t_dims t) q \<and> p_column q = last_column (t_dims t) \<and> p \<le> q)"
  unfolding line_search_right_def returns_bind
  by (rule returns_mono [OF line_search_down_returns])
    (use assms wf_cols [OF assms(1)] in \<open>auto simp: in_grid_def last_column_def less_eq_gpoint_def split: gpoint.splits\<close>)

lemma matching_in_grid:
  assumes t: "wf_term t" and p: "in_grid (t_dims t) p"
  shows "returns (bracket_search t p) (\<lambda>r. case r of None \<Rightarrow> True | Some q \<Rightarrow> in_grid (t_dims t) q)"
proof (cases "find_bracket (c_char (g_cell (t_grid t) p)) BRACKET_PAIRS")
  case None
  have "grid_get (t_grid t) p = Some (g_cell (t_grid t) p)"
    by (rule grid_get_cell [OF wf_core [OF t]]) (use p in \<open>simp add: grid_of_dims\<close>)
  then show ?thesis using None by (simp add: bracket_search_def)
next
  case (Some fe)
  obtain forward e where fe: "fe = (forward, e)" by fastforce
  let ?g = "t_grid t"
  define cs where "cs = (if forward then cells_after ?g p else cells_before ?g p)"
  have g: "grid_core_ok ?g" and ig: "in_grid (grid_dims ?g) p" using t p by (simp_all add: grid_of_dims)
  have "in_grid (t_dims t) (fst c)" if "c \<in> set cs" for c
    using that cells_after_in [OF g ig, of "fst c" "snd c"] cells_before_in [OF g ig, of "fst c" "snd c"]
    by (cases forward) (simp_all add: cs_def grid_of_dims)
  then have "in_grid (t_dims t) (fst (cs ! i))" if "i < length cs" for i using that nth_mem by blast
  then show ?thesis
    by (intro returns_mono [OF bracket_search_returns [OF t p Some [unfolded fe], folded cs_def]])
      (auto simp: matching_bracket_def split: option.splits)
qed

lemma range_semantic_returns:
  assumes t: "wf_term t" and p: "in_grid (t_dims t) p" "in_grid (t_dims t) q"
  shows "returns (range_semantic t p q) (\<lambda>r. \<not> sr_is_block r \<and> range_in_grid (t_dims t) r)"
proof -
  have words: "returns (do { start \<leftarrow> semantic_search_left t p; stop \<leftarrow> semantic_search_right t q;
      Some \<lparr>sr_start = start, sr_end = stop, sr_is_block = False\<rparr> }) (\<lambda>r. \<not> sr_is_block r \<and> range_in_grid (t_dims t) r)"
    unfolding returns_bind
    by (rule returns_mono [OF semantic_search_left_returns [OF t p(1)]],
        rule returns_mono [OF semantic_search_right_returns [OF t p(2)]]) (simp add: range_in_grid_def)
  have "returns (if p = q then bracket_search t p else Some None)
      (\<lambda>r. case r of None \<Rightarrow> True | Some m \<Rightarrow> in_grid (t_dims t) m)"
    using matching_in_grid [OF t p(1)] by (cases "p = q") simp_all
  then show ?thesis
    unfolding range_semantic_def returns_bind [of "if p = q then _ else _"]
    by (rule returns_mono) (use p words in \<open>auto simp: range_in_grid_def split: option.splits\<close>)
qed

lemma range_lines_returns:
  assumes t: "wf_term t" and p: "in_grid (t_dims t) p" "in_grid (t_dims t) q"
  shows "returns (range_lines t p q) (\<lambda>r. \<not> sr_is_block r \<and> range_in_grid (t_dims t) r)"
  unfolding range_lines_def returns_bind
  by (rule returns_mono [OF line_search_left_returns [OF t p(1)]],
      rule returns_mono [OF line_search_right_returns [OF t p(2)]]) (simp add: range_in_grid_def)

lemma clamp_mono:
  "wf_dims d \<Longrightarrow> p \<le> q \<Longrightarrow> point_grid_clamp d BGrid p \<le> point_grid_clamp d BGrid q"
  by (cases p; cases q) (auto simp: point_grid_clamp_def Let_def less_eq_gpoint_def dims_defs)

lemma to_range_returns:
  assumes t: "wf_term t"
  shows "returns (to_range t s) (\<lambda>r. case r of None \<Rightarrow> True | Some r \<Rightarrow>
     sr_is_block r = (sel_ty s = Block) \<and> range_in_grid (t_dims t) r)"
proof -
  define a where "a = (if an_point (sel_start s) > an_point (sel_end s) then sel_end s else sel_start s)"
  define b where "b = (if an_point (sel_start s) > an_point (sel_end s) then sel_start s else sel_end s)"
  define a' where "a' = a\<lparr>an_point := point_grid_clamp (t_dims t) BGrid (an_point a)\<rparr>"
  define b' where "b' = b\<lparr>an_point := point_grid_clamp (t_dims t) BGrid (an_point b)\<rparr>"
  have wf: "wf_dims (t_dims t)" using grid_core_ok_dims [OF wf_core [OF t]] by (simp add: grid_of_dims)
  have g: "in_grid (t_dims t) (an_point a')" "in_grid (t_dims t) (an_point b')"
    by (simp_all add: a'_def b'_def point_clamp_in_grid [OF wf])
  have le: "an_point a' \<le> an_point b'"
    unfolding a'_def b'_def by (simp add: clamp_mono [OF wf] a_def b_def)
  have ab: "(if an_point (sel_start s) > an_point (sel_end s) then (sel_end s, sel_start s)
            else (sel_start s, sel_end s)) = (a, b)" by (simp add: a_def b_def)
  have eq: "to_range t s = (if p_line (an_point b) < topmost_line (t_dims t) then Some None
     else (case sel_ty s of
                Simple \<Rightarrow> Some (range_simple s a' b' (columns (t_dims t)))
              | Block \<Rightarrow> Some (range_block s a' b')
              | Semantic \<Rightarrow> map_option Some (range_semantic t (an_point a') (an_point b'))
              | Lines \<Rightarrow> map_option Some (range_lines t (an_point a') (an_point b'))))"
    unfolding to_range_def ab a'_def b'_def by (simp only: Let_def prod.case)
  show ?thesis
    using range_simple_in_grid [OF g le, of s] range_block_in_grid [OF g le, of s]
      range_semantic_returns [OF t g] range_lines_returns [OF t g]
    by (cases "sel_ty s") (auto simp: eq range_in_grid_def split: option.splits elim: returns_mono)
qed

text \<open>A block selection from the right half of the last column to the left half of the last column of a line below
  it starts past the grid, and so the conversion to text indexes a row out of bounds.\<close>

lemma block_last_column_range:
  assumes s: "sel_ty s = Block" "an_side (sel_start s) = DirRight" "an_side (sel_end s) = DirLeft"
    and p: "an_point (sel_start s) = Point l (last_column (t_dims t))" "an_point (sel_end s) = Point m (last_column (t_dims t))"
    and l: "topmost_line (t_dims t) \<le> l" "l < m" "m \<le> bottommost_line (t_dims t)" and t: "wf_term t"
  shows "to_range t s = Some (Some \<lparr>sr_start = Point l (columns (t_dims t)),
     sr_end = Point m (last_column (t_dims t) - 1), sr_is_block = True\<rparr>)"
  using assms wf_cols [OF t]
  by (simp add: to_range_def less_gpoint_def point_grid_clamp_def range_block_def selection_is_empty_def last_column_def Let_def)

subsection \<open>The text of a line\<close>

text \<open>What a line without tabs contributes: the characters of its cells, with their combining characters, up to the
  end of the text. A wrapped line has text up to its last column, any other up to the last cell that is not blank.\<close>

definition visible_text :: "cell \<Rightarrow> ustring" where
  "visible_text x = (if fl_intersects (c_flags x) wide_spacer then [] else cell_text x)"

definition line_text :: "grid \<Rightarrow> int \<Rightarrow> nat \<Rightarrow> nat \<Rightarrow> ustring" where
  "line_text g l a b = concat (map (\<lambda>c. visible_text (g_cell g (Point l c))) [a..<b])"

definition text_len :: "grid \<Rightarrow> int \<Rightarrow> nat" where
  "text_len g l =
     (if wrapped_line g l then g_columns g
      else case rposition occupied_cell (row_inner (g_row g l)) of None \<Rightarrow> 0 | Some j \<Rightarrow> j + 1)"

definition ends_line :: "grid \<Rightarrow> int \<Rightarrow> nat \<Rightarrow> bool" where
  "ends_line g l n \<longleftrightarrow> n = 0 \<or> \<not> fl_contains (c_flags (g_cell g (Point l (n - 1)))) WRAPLINE"

lemma line_length_text:
  assumes "grid_core_ok g" "2 \<le> g_columns g"
  shows "line_length (g_row g l) = Some (text_len g l)"
  using assms
  by (simp add: line_length_def row_defs g_row_len text_len_def wrapped_line_def g_cell_def last_column_def Let_def)

lemma text_len_le: "grid_core_ok g \<Longrightarrow> text_len g l \<le> g_columns g"
  using rposition_Some [of occupied_cell "row_inner (g_row g l)"]
  by (auto simp: text_len_def g_row_len split: option.splits)

text \<open>Every cell from the end of the text on is blank, and so the length loses no character but trailing blanks.\<close>

lemma text_len_blank:
  assumes "grid_core_ok g" "text_len g l \<le> c" "c < g_columns g"
  shows "\<not> occupied_cell (g_cell g (Point l c))"
proof (cases "rposition occupied_cell (row_inner (g_row g l))")
  case None
  then show ?thesis using assms by (auto simp: rposition_None g_cell_def g_row_len)
next
  case (Some j)
  then show ?thesis
    using assms rposition_Some [OF Some] by (auto simp: text_len_def g_cell_def g_row_len split: if_splits)
qed

lemma line_cells_text:
  assumes "b \<le> length (row_inner r)" "\<And>c. a \<le> c \<Longrightarrow> c < b \<Longrightarrow> c_char (row_inner r ! c) \<noteq> 9"
  shows "mfold (line_cell t r) [a..<b] (False, text) =
     Some (False, text @ concat (map (\<lambda>c. visible_text (row_inner r ! c)) [a..<b]))"
  using assms
proof (induction b)
  case 0
  then show ?case by simp
next
  case (Suc b)
  show ?case
  proof (cases "a \<le> b")
    case True
    then show ?thesis
      using Suc by (simp add: mfold_append line_cell_def row_defs visible_text_def)
  qed simp
qed

lemma line_to_string_eq:
  assumes t: "wf_term t" and l: "g_valid (t_grid t) l" and c: "start < g_columns (t_grid t)" "stop < g_columns (t_grid t)"
    and n: "n = min (text_len (t_grid t) l) (stop + 1)"
    and tabs: "\<And>c. start \<le> c \<Longrightarrow> c < n \<Longrightarrow> c_char (g_cell (t_grid t) (Point l c)) \<noteq> 9"
    and first: "\<not> fl_contains (c_flags (g_cell (t_grid t) (Point l start))) WIDE_CHAR_SPACER"
    and leading: "inc \<Longrightarrow> n = g_columns (t_grid t) \<Longrightarrow> \<not> fl_contains (c_flags (g_cell (t_grid t) (Point l (last_column (t_dims t))))) LEADING_WIDE_CHAR_SPACER"
  shows "line_to_string t l start stop inc = Some (line_text (t_grid t) l start n
     @ (if stop = last_column (t_dims t) \<and> ends_line (t_grid t) l n then [10] else []))"
proof -
  let ?g = "t_grid t" and ?r = "g_row (t_grid t) l" and ?k = "g_columns (t_grid t)"
  have g: "grid_core_ok ?g" by (rule wf_core [OF t])
  have row: "grid_row ?g l = Some ?r" by (rule grid_row_get [OF g l])
  have len: "length (row_inner ?r) = ?k" by (rule g_row_len [OF g])
  have cell: "row_inner ?r ! c = g_cell ?g (Point l c)" for c by (simp add: g_cell_def)
  have nk: "n \<le> ?k" using c by (simp add: n)
  have loop: "mfold (line_cell t ?r) [start..<n] (False, []) = Some (False, line_text ?g l start n)"
    using line_cells_text [of n ?r start t "[]"] nk len tabs by (simp add: cell line_text_def)
  have get: "row_get ?r c = Some (g_cell ?g (Point l c))" if "c < ?k" for c using that len by (simp add: row_defs cell)
  have one: "1 \<le> ?k" using wf_cols [OF t] by simp
  have n1: "0 < n \<Longrightarrow> n - 1 < ?k" using nk by simp
  have newline: "(if stop \<ge> ?k - 1
      then if n = 0 then Some True
           else map_option (\<lambda>x. \<not> fl_contains (c_flags x) WRAPLINE) (row_get ?r (n - 1))
      else Some False) = Some (stop = ?k - 1 \<and> ends_line ?g l n)"
    using c(2) get [OF n1] by (cases "n = 0") (auto simp: ends_line_def)
  have lead: "(if n = ?k \<and> n \<ge> 2
      then map_option (\<lambda>x. fl_contains (c_flags x) LEADING_WIDE_CHAR_SPACER \<and> inc) (row_get ?r (n - 1))
      else Some False) = Some False"
    using leading get [OF n1] by (cases "n = ?k \<and> n \<ge> 2") (auto simp: last_column_def)
  show ?thesis
    unfolding line_to_string_def row line_length_text [OF g wf_cols [OF t]] Option.bind.simps Let_def n [symmetric]
      get [OF c(1)] if_not_P [OF first] loop t_dims_sel prod.case usub_Some [OF one] newline lead
    by (simp add: last_column_def)
qed

subsection \<open>Copying a block from the right edge\<close>

lemma line_to_string_past_end:
  assumes t: "wf_term t" and l: "g_valid (t_grid t) l" and c: "g_columns (t_grid t) \<le> start"
  shows "line_to_string t l start stop inc = None"
proof -
  have g: "grid_core_ok (t_grid t)" by (rule wf_core [OF t])
  have "row_get (g_row (t_grid t) l) start = None"
    using c g_row_len [OF g] by (simp add: row_get_def vget_def)
  then show ?thesis
    by (simp add: line_to_string_def grid_row_get [OF g l] line_length_text [OF g wf_cols [OF t]] Let_def)
qed

lemma copy_block_last_column:
  assumes s: "t_selection t = Some s" "sel_ty s = Block" "an_side (sel_start s) = DirRight" "an_side (sel_end s) = DirLeft"
    and p: "an_point (sel_start s) = Point l (last_column (t_dims t))" "an_point (sel_end s) = Point m (last_column (t_dims t))"
    and l: "topmost_line (t_dims t) \<le> l" "l < m" "m \<le> bottommost_line (t_dims t)" and t: "wf_term t"
  shows "selection_to_string t = None"
proof -
  have range: "to_range t s = Some (Some \<lparr>sr_start = Point l (columns (t_dims t)),
     sr_end = Point m (last_column (t_dims t) - 1), sr_is_block = True\<rparr>)"
    by (rule block_last_column_range [OF s(2,3,4) p l t])
  have "irange l m = l # irange (l + 1) m" using l(2) by (simp add: irange_def upto_rec1)
  moreover have "g_valid (t_grid t) l" using l by (simp add: g_valid_def grid_of_dims)
  ultimately show ?thesis
    unfolding selection_to_string_def s(1) option.case range
    by (simp add: s(2) line_to_string_past_end [OF t] Let_def)
qed

subsection \<open>Rendering returns\<close>

lemma renderable_cursor_returns:
  assumes t: "wf_term t" and p: "p = (if has_mode t VI then t_vi_cursor t else cu_point (t_cursor t))"
    and g: "in_grid (t_dims t) p"
    and c: "p_column p = 0 \<Longrightarrow> \<not> fl_contains (c_flags (g_cell (t_grid t) p)) WIDE_CHAR_SPACER"
  shows "returns (renderable_cursor_new t) (\<lambda>r. in_grid (t_dims t) (rc_point r)
     \<and> rc_point r = (if fl_contains (c_flags (g_cell (t_grid t) p)) WIDE_CHAR_SPACER then Point (p_line p) (p_column p - 1) else p)
     \<and> (rc_shape r = CHidden \<or> rc_shape r = cs_shape (term_cursor_style t))
     \<and> (\<not> has_mode t VI \<and> \<not> has_mode t SHOW_CURSOR \<longrightarrow> rc_shape r = CHidden))"
proof -
  have get: "grid_get (t_grid t) p = Some (g_cell (t_grid t) p)"
    by (rule grid_get_cell [OF wf_core [OF t]]) (use g in \<open>simp add: grid_of_dims\<close>)
  have "1 \<le> p_column p" if "fl_contains (c_flags (g_cell (t_grid t) p)) WIDE_CHAR_SPACER"
    using c that by (cases "p_column p") auto
  then show ?thesis
    using g unfolding renderable_cursor_new_def p [symmetric] Let_def get
    by (cases p) (auto simp: in_grid_def)
qed

lemma renderable_cursor_orphan:
  assumes t: "wf_term t" and p: "p = (if has_mode t VI then t_vi_cursor t else cu_point (t_cursor t))"
    and g: "in_grid (t_dims t) p" and c: "p_column p = 0" "fl_contains (c_flags (g_cell (t_grid t) p)) WIDE_CHAR_SPACER"
  shows "renderable_cursor_new t = None"
proof -
  have get: "grid_get (t_grid t) p = Some (g_cell (t_grid t) p)"
    by (rule grid_get_cell [OF wf_core [OF t]]) (use g in \<open>simp add: grid_of_dims\<close>)
  show ?thesis unfolding renderable_cursor_new_def p [symmetric] Let_def get using c by (simp add: usub_def)
qed

lemma renderable_content_returns:
  assumes t: "wf_term t" and p: "p = (if has_mode t VI then t_vi_cursor t else cu_point (t_cursor t))"
    and g: "in_grid (t_dims t) p"
    and c: "p_column p = 0 \<Longrightarrow> \<not> fl_contains (c_flags (g_cell (t_grid t) p)) WIDE_CHAR_SPACER"
  shows "returns (renderable_content_new t) (\<lambda>r. in_grid (t_dims t) (rc_point (rn_cursor r))
     \<and> rn_display_iter r = display_iter (t_grid t) \<and> rn_display_offset r = g_display_offset (t_grid t)
     \<and> (case rn_selection r of None \<Rightarrow> True | Some s \<Rightarrow> range_in_grid (t_dims t) s))"
proof -
  have sel: "returns (case t_selection t of None \<Rightarrow> Some None | Some s \<Rightarrow> to_range t s)
      (\<lambda>r. case r of None \<Rightarrow> True | Some s \<Rightarrow> range_in_grid (t_dims t) s)"
    by (cases "t_selection t") (auto intro!: returns_mono [OF to_range_returns [OF t]] split: option.splits)
  show ?thesis
    unfolding renderable_content_new_def returns_bind
    by (rule returns_mono [OF renderable_cursor_returns [OF t p g c]], assumption, elim conjE)
      (rule returns_mono [OF sel], simp only: returns_Some renderable_content.simps simp_thms)
qed

end
