(* ===== verification/Term_Typing.thy ===== *)
theory Term_Typing
  imports Term_Text Term_Edit
begin

text \<open>
  Printing text and reading it back: the handler's \<^verbatim>\<open>input\<close> and the conversion of a range to text, composed. Characters
  of width one printed on a line without wide characters are what \<^verbatim>\<open>bounds_to_string\<close> returns for the cells they
  were printed to.
\<close>

lemma input_narrow_returns:
  assumes t: "wf_term t" and w: "x_width x ch = Some 1" and m: "\<not> has_mode t INSERT" "\<not> cu_input_needs_wrap (t_cursor t)"
  shows "returns (input x ch t) (\<lambda>t'. wf_term t' \<and> t_frame t t' \<and> t_dims t' = t_dims t
    \<and> (\<forall>p. in_grid (grid_dims (t_grid t)) p \<longrightarrow> g_cell (t_grid t') p =
         (if p = cu_point (t_cursor t) then written_cell x ch t
          else unwide_neighbours (t_grid t) (cu_point (t_cursor t)) p))
    \<and> t_cursor t' =
        (if p_column (cu_point (t_cursor t)) + 1 < g_columns (t_grid t)
         then (t_cursor t)\<lparr>cu_point := Point (p_line (cu_point (t_cursor t))) (p_column (cu_point (t_cursor t)) + 1)\<rparr>
         else (t_cursor t)\<lparr>cu_input_needs_wrap := True\<rparr>))"
proof -
  have i: "input x ch t = do { t' \<leftarrow> write_at_cursor x ch t; Some (advance_cursor (columns (t_dims t)) t') }"
    using w m by (simp add: input_def insert_shift_def Let_def)
  show ?thesis
    unfolding i returns_bind returns_Some
  proof (rule returns_mono [OF write_at_cursor_returns [OF t]])
    fix t1
    assume "cells_step ((unwide_neighbours (t_grid t) (cu_point (t_cursor t)))
        (cu_point (t_cursor t) := written_cell x ch t)) t t1"
    note s = cells_stepD [OF this]
    have cell: "g_cell (t_grid t1) p = (if p = cu_point (t_cursor t) then written_cell x ch t
          else unwide_neighbours (t_grid t) (cu_point (t_cursor t)) p)" if "in_grid (grid_dims (t_grid t)) p" for p
      using cells_post_cell [OF s(3) that] by simp
    let ?t2 = "advance_cursor (columns (t_dims t)) t1"
    have adv: "g_cell (t_grid (advance_cursor n t1)) = g_cell (t_grid t1)" "t_dims (advance_cursor n t1) = t_dims t1" for n
      by (simp_all add: advance_cursor_def grid_set_cursor t_dims_def)
    show "wf_term ?t2 \<and> t_frame t ?t2 \<and> t_dims ?t2 = t_dims t
      \<and> (\<forall>p. in_grid (grid_dims (t_grid t)) p \<longrightarrow> g_cell (t_grid ?t2) p =
         (if p = cu_point (t_cursor t) then written_cell x ch t
          else unwide_neighbours (t_grid t) (cu_point (t_cursor t)) p))
      \<and> t_cursor ?t2 =
        (if p_column (cu_point (t_cursor t)) + 1 < g_columns (t_grid t)
         then (t_cursor t)\<lparr>cu_point := Point (p_line (cu_point (t_cursor t))) (p_column (cu_point (t_cursor t)) + 1)\<rparr>
         else (t_cursor t)\<lparr>cu_input_needs_wrap := True\<rparr>)"
      using wf_advance_cursor [OF s(1)] cell s(4,5,6) t_frame_trans [OF s(2) t_frame_advance]
      by (simp add: adv) (simp add: advance_cursor_def grid_set_cursor)
  qed
qed

text \<open>A line none of whose cells belongs to a wide character.\<close>

definition narrow_line :: "grid \<Rightarrow> int \<Rightarrow> bool" where
  "narrow_line g l \<longleftrightarrow>
     (\<forall>c<g_columns g. \<not> fl_intersects (c_flags (g_cell g (Point l c))) (WIDE_CHAR OR WIDE_CHAR_SPACER))"

text \<open>The terminal after \<open>n\<close> characters of \<open>s\<close> were printed from the start of a line.\<close>

definition typed :: "externals \<Rightarrow> ustring \<Rightarrow> terminal \<Rightarrow> nat \<Rightarrow> terminal \<Rightarrow> bool" where
  "typed x s t n t' \<longleftrightarrow> wf_term t' \<and> t_frame t t' \<and> t_dims t' = t_dims t
     \<and> (\<forall>c<g_columns (t_grid t). g_cell (t_grid t') (Point (p_line (cu_point (t_cursor t))) c) =
          (if c < n then written_cell x (s ! c) t else g_cell (t_grid t) (Point (p_line (cu_point (t_cursor t))) c)))
     \<and> t_cursor t' =
         (if n < g_columns (t_grid t) then (t_cursor t)\<lparr>cu_point := Point (p_line (cu_point (t_cursor t))) n\<rparr>
          else (t_cursor t)\<lparr>cu_point := Point (p_line (cu_point (t_cursor t))) (n - 1), cu_input_needs_wrap := True\<rparr>)"

lemma typed_step:
  assumes n: "n < length s" "length s \<le> g_columns (t_grid t)" and t: "wf_term t"
    and w: "x_width x (s ! n) = Some 1" and m: "\<not> has_mode t INSERT" "\<not> cu_input_needs_wrap (t_cursor t)"
    and nl: "narrow_line (t_grid t) (p_line (cu_point (t_cursor t)))"
    and s: "typed x s t n t'"
  shows "returns (input x (s ! n) t') (typed x s t (Suc n))"
proof -
  let ?l = "p_line (cu_point (t_cursor t))" and ?k = "g_columns (t_grid t)"
  have nk: "n < ?k" using n by simp
  have cur: "t_cursor t' = (t_cursor t)\<lparr>cu_point := Point ?l n\<rparr>" using s nk by (simp add: typed_def)
  have d: "wf_term t'" "t_frame t t'" "t_dims t' = t_dims t" using s by (auto simp: typed_def)
  have k: "g_columns (t_grid t') = ?k" using arg_cong [OF d(3), of columns] by simp
  have cells: "g_cell (t_grid t') (Point ?l c) = (if c < n then written_cell x (s ! c) t else g_cell (t_grid t) (Point ?l c))"
    if "c < ?k" for c using s that by (simp add: typed_def)
  have un: "unwide_neighbours (t_grid t') (Point ?l n) = g_cell (t_grid t')"
    using nl nk by (simp add: unwide_neighbours_def cells narrow_line_def)
  have wr: "written_cell x ch t' = written_cell x ch t" for ch
    using cur t_frameD(8) [OF d(2)] by (simp add: written_cell_def)
  have ig: "in_grid (grid_dims (t_grid t')) (Point ?l c)" if "c < ?k" for c
    using wf_cursor_in_grid [OF d(1)] that k by (simp add: in_grid_def cur)
  have m': "\<not> has_mode t' INSERT" "\<not> cu_input_needs_wrap (t_cursor t')"
    using m t_frameD(10) [OF d(2)] by (simp_all add: cur)
  show ?thesis
  proof (rule returns_mono [OF input_narrow_returns [OF d(1) w m']], elim conjE)
    fix t2
    assume t2: "wf_term t2" "t_frame t' t2" "t_dims t2 = t_dims t'"
      "\<forall>p. in_grid (grid_dims (t_grid t')) p \<longrightarrow> g_cell (t_grid t2) p =
         (if p = cu_point (t_cursor t') then written_cell x (s ! n) t'
          else unwide_neighbours (t_grid t') (cu_point (t_cursor t')) p)"
      "t_cursor t2 = (if p_column (cu_point (t_cursor t')) + 1 < g_columns (t_grid t')
         then (t_cursor t')\<lparr>cu_point := Point (p_line (cu_point (t_cursor t'))) (p_column (cu_point (t_cursor t')) + 1)\<rparr>
         else (t_cursor t')\<lparr>cu_input_needs_wrap := True\<rparr>)"
    have "g_cell (t_grid t2) (Point ?l c) =
        (if c < Suc n then written_cell x (s ! c) t else g_cell (t_grid t) (Point ?l c))" if "c < ?k" for c
      using t2(4) ig [OF that] that by (auto simp: cur un wr cells less_Suc_eq)
    moreover have "t_cursor t2 = (if Suc n < ?k then (t_cursor t)\<lparr>cu_point := Point ?l (Suc n)\<rparr>
          else (t_cursor t)\<lparr>cu_point := Point ?l (Suc n - 1), cu_input_needs_wrap := True\<rparr>)"
      using t2(5) by (simp add: cur k)
    ultimately show "typed x s t (Suc n) t2"
      unfolding typed_def using t2(1,3) d(3) t_frame_trans [OF d(2) t2(2)] by simp
  qed
qed

lemma typed_start:
  "wf_term t \<Longrightarrow> p_column (cu_point (t_cursor t)) = 0 \<Longrightarrow> typed x s t 0 t"
  using wf_cols [of t] by (cases "cu_point (t_cursor t)") (simp add: typed_def)

lemma typed_returns:
  assumes s: "length s \<le> g_columns (t_grid t)" "\<And>c. c \<in> set s \<Longrightarrow> x_width x c = Some 1" and t: "wf_term t"
    and m: "\<not> has_mode t INSERT" "\<not> cu_input_needs_wrap (t_cursor t)"
    and nl: "narrow_line (t_grid t) (p_line (cu_point (t_cursor t)))" and c: "p_column (cu_point (t_cursor t)) = 0"
  shows "returns (mfold (input x) s t) (typed x s t (length s))"
  by (rule mfold_rule [where I = "typed x s t"])
    (use typed_start [OF t c] typed_step [OF _ s(1) t _ m nl] s(2) in auto)

subsection \<open>Reading back\<close>

text \<open>A template that prints ordinary cells: no part of a wide character, no wrap mark, no combining characters.\<close>

definition plain_template :: "cell \<Rightarrow> bool" where
  "plain_template y \<longleftrightarrow> \<not> fl_intersects (c_flags y) wide_spacer \<and> \<not> fl_contains (c_flags y) WRAPLINE
     \<and> \<not> fl_contains (c_flags y) WIDE_CHAR_SPACER \<and> \<not> fl_contains (c_flags y) LEADING_WIDE_CHAR_SPACER
     \<and> (zerowidth y = None \<or> zerowidth y = Some [])"

definition printed :: "externals \<Rightarrow> terminal \<Rightarrow> ustring \<Rightarrow> ustring" where
  "printed x t s = map (\<lambda>ch. x_charset_map x (cu_charsets (t_cursor t) (t_active_charset t)) ch) s"

lemma written_plain:
  assumes "plain_template (cu_template (t_cursor t))"
  shows "visible_text (written_cell x ch t) = printed x t [ch]"
    "\<not> fl_contains (c_flags (written_cell x ch t)) WRAPLINE"
    "\<not> fl_contains (c_flags (written_cell x ch t)) WIDE_CHAR_SPACER"
    "\<not> fl_contains (c_flags (written_cell x ch t)) LEADING_WIDE_CHAR_SPACER"
    "c_char (written_cell x ch t) = x_charset_map x (cu_charsets (t_cursor t) (t_active_charset t)) ch"
  using assms by (auto simp: plain_template_def written_cell_def visible_text_def cell_text_def zerowidth_def printed_def
      split: option.splits)

lemma typed_text:
  assumes t: "wf_term t" and s: "typed x s t (length s) t'" "s \<noteq> []" "length s \<le> g_columns (t_grid t)"
    and tmpl: "plain_template (cu_template (t_cursor t))"
    and ch: "9 \<notin> set (printed x t s)" "last (printed x t s) \<notin> {10, 32}"
  shows "bounds_to_string t' (Point (p_line (cu_point (t_cursor t))) 0)
      (Point (p_line (cu_point (t_cursor t))) (length s - 1)) = Some (printed x t s)"
proof -
  let ?l = "p_line (cu_point (t_cursor t))" and ?k = "g_columns (t_grid t)" and ?n = "length s" and ?g = "t_grid t'"
  have d: "wf_term t'" "t_dims t' = t_dims t" using s(1) by (auto simp: typed_def)
  have k: "g_columns ?g = ?k" using arg_cong [OF d(2), of columns] by simp
  have g: "grid_core_ok ?g" by (rule wf_core [OF d(1)])
  have cells: "g_cell ?g (Point ?l c) = written_cell x (s ! c) t" if "c < ?n" for c
    using s(1,3) that by (simp add: typed_def)
  have l: "g_valid ?g ?l"
  proof -
    have "p_line (cu_point (t_cursor t')) = ?l" using s(1) by (simp add: typed_def)
    then show ?thesis using wf_cursor_valid [OF d(1)] by simp
  qed
  have pos: "?n - 1 < ?n" using s(2) by simp
  have "occupied_cell (g_cell ?g (Point ?l (?n - 1)))"
    using ch(2) s(2) by (simp add: cells occupied_cell_def written_plain(5) [OF tmpl] printed_def last_map last_conv_nth)
  then have "?n - 1 < text_len ?g ?l"
    using text_len_blank [OF g, of ?l "?n - 1"] pos s(3) k by (metis not_le order_less_le_trans)
  then have n: "?n = min (text_len ?g ?l) (?n - 1 + 1)" using s(2) by simp
  have whole: "line_text ?g ?l 0 ?n = printed x t s"
  proof -
    have "map (\<lambda>c. visible_text (g_cell ?g (Point ?l c))) [0..<?n] = map (\<lambda>c. printed x t [s ! c]) [0..<?n]"
      by (rule map_cong) (simp_all add: cells written_plain(1) [OF tmpl])
    then show ?thesis
      unfolding line_text_def printed_def list.map concat_map_singleton by (simp only:) (rule nth_equalityI; simp)
  qed
  have "line_to_string t' ?l 0 (?n - 1) True = Some (line_text ?g ?l 0 ?n
     @ (if ?n - 1 = last_column (t_dims t') \<and> ends_line ?g ?l ?n then [10] else []))"
  proof (rule line_to_string_eq [OF d(1) l _ _ n])
    show "0 < g_columns ?g" "?n - 1 < g_columns ?g" using s(3) pos k by linarith+
    show "c_char (g_cell ?g (Point ?l c)) \<noteq> 9" if "c < ?n" for c
      using ch(1) that nth_mem [OF that] by (auto simp: cells written_plain(5) [OF tmpl] printed_def)
    show "\<not> fl_contains (c_flags (g_cell ?g (Point ?l 0))) WIDE_CHAR_SPACER"
      using s(2) by (simp add: cells written_plain [OF tmpl])
    show "\<not> fl_contains (c_flags (g_cell ?g (Point ?l (last_column (t_dims t'))))) LEADING_WIDE_CHAR_SPACER"
      if "?n = g_columns ?g"
      using that cells [OF pos] written_plain(4) [OF tmpl] k by (simp add: last_column_def)
  qed
  moreover have "strip_newline (printed x t s @ (if b then [10] else [])) = printed x t s" for b
    using ch(2) by (simp add: strip_newline_def)
  moreover have "irange ?l (?l + 1) = [?l]" by (simp add: irange_def)
  ultimately show ?thesis by (simp add: bounds_to_string_def whole Let_def)
qed

subsection \<open>Half a wide character\<close>

text \<open>Deleting the first half of a wide character in the first column moves its second half under the cursor, and the
  terminal can then not be rendered: the column of the cursor is decremented below zero.\<close>

lemma delete_half_wide:
  assumes t: "wf_term t" and c: "p_column (cu_point (t_cursor t)) = 0" and k: "3 \<le> g_columns (t_grid t)"
    and w: "fl_contains (c_flags (g_cell (t_grid t) (Point (p_line (cu_point (t_cursor t))) 1))) WIDE_CHAR_SPACER"
    and m: "\<not> has_mode t VI"
  shows "returns (delete_chars 1 t) (\<lambda>t'. wf_term t' \<and> renderable_cursor_new t' = None)"
proof (rule returns_mono [OF delete_chars_returns [OF t]])
  fix t' assume s: "cells_step (deleted_cells t 1) t t'"
  note d = cells_stepD [OF s]
  let ?p = "cu_point (t_cursor t)"
  have "g_cell (t_grid t') ?p = deleted_cells t 1 ?p" by (rule cells_post_cell [OF d(3) wf_cursor_in_grid [OF t]])
  also have "\<dots> = g_cell (t_grid t) (Point (p_line ?p) 1)" using c k by (simp add: deleted_cells_def Let_def)
  finally have cell: "g_cell (t_grid t') ?p = g_cell (t_grid t) (Point (p_line ?p) 1)" .
  have "renderable_cursor_new t' = None"
  proof (rule renderable_cursor_orphan [OF d(1)])
    show "?p = (if has_mode t' VI then t_vi_cursor t' else cu_point (t_cursor t'))"
      using m t_frameD(10) [OF d(2)] d(4) by simp
    show "in_grid (t_dims t') ?p" using wf_cursor_in_grid [OF t] d(5) by (simp add: t_dims_def)
  qed (use c w cell in simp_all)
  then show "wf_term t' \<and> renderable_cursor_new t' = None" using d(1) by blast
qed

end
