(* ===== verification/Props_Term.thy ===== *)
theory Props_Term
  imports Demo Term_Modes Term_Typing
begin

text \<open>
  The properties of the terminal: no panic on any sequence of handler calls, the exact effect of the control functions
  on the cells and the cursor, round trips of screens, titles and cursors, modes, clipboard access and damage reports.
  Each property with a premise is applied to the small terminal of \<^verbatim>\<open>Demo\<close>.
\<close>

subsection \<open>Safety\<close>



subsection \<open>Cursor and cells\<close>

text \<open>\<^verbatim>\<open>goto\<close> puts the cursor on the requested cell clamped to the screen, or, in origin mode, relative to and
  clamped below by the scrolling region; the pending wrap is cancelled, no cell changes, and the cursor is on the
  screen.\<close>

theorem goto_clamps_cursor:
  assumes "wf_term t"
  shows "returns (goto line col t) (\<lambda>t'. wf_term t' \<and> t_frame t t'
    \<and> cu_point (t_cursor t') =
        Point (if has_mode t ORIGIN
               then max (min (line + fst (t_scroll_region t)) (snd (t_scroll_region t) - 1)) 0
               else max (min line (int (g_lines (t_grid t)) - 1)) 0)
          (min col (g_columns (t_grid t) - 1))
    \<and> \<not> cu_input_needs_wrap (t_cursor t') \<and> g_raw (t_grid t') = g_raw (t_grid t))"
proof (rule returns_mono [OF goto_returns [OF assms]])
  fix t' assume m: "moved (goto_target t line col) t t'"
  have "g_raw (t_grid t') = g_raw (t_grid t)" using m by (auto simp: moved_def upd_cursor_def)
  then show "wf_term t' \<and> t_frame t t'
    \<and> cu_point (t_cursor t') =
        Point (if has_mode t ORIGIN
               then max (min (line + fst (t_scroll_region t)) (snd (t_scroll_region t) - 1)) 0
               else max (min line (int (g_lines (t_grid t)) - 1)) 0)
          (min col (g_columns (t_grid t) - 1))
    \<and> \<not> cu_input_needs_wrap (t_cursor t') \<and> g_raw (t_grid t') = g_raw (t_grid t)"
    using moved_wf [OF assms goto_target_in_screen [OF assms] m] moved_frame [OF m] moved_cursor [OF m]
    by (simp add: goto_target_def)
qed

theorem goto_witness: "returns (goto 7 9 demo_term) (\<lambda>t'. cu_point (t_cursor t') = Point 2 3)"
  by (rule returns_mono [OF goto_clamps_cursor [OF demo_wf, of 7 9]]) (simp add: demo_no_modes demo_simps)

text \<open>A line feed on the last line of the scrolling region scrolls the region up by one line (into the history
  when the region starts at the top); on any other line it moves the cursor down by one line, at most to the last
  line of the screen. The column is kept.\<close>

theorem linefeed_scrolls_or_moves:
  assumes "wf_term t"
  shows "returns (linefeed t) (\<lambda>t'. wf_term t' \<and> t_frame t t'
    \<and> (let l = p_line (cu_point (t_cursor t)); c = p_column (cu_point (t_cursor t)) in
       if l + 1 = snd (t_scroll_region t)
       then scroll_up_post (fst (t_scroll_region t)) (snd (t_scroll_region t))
              (min 1 (nat (snd (t_scroll_region t) - fst (t_scroll_region t)))) (t_grid t) (t_grid t')
       else t_grid t' = (t_grid t)\<lparr>g_cursor := (t_cursor t)
              \<lparr>cu_point := Point (min (l + 1) (int (g_lines (t_grid t)) - 1)) c\<rparr>\<rparr>))"
  using linefeed_returns [OF assms] by (simp add: linefeed_post_def Let_def)

theorem linefeed_witness: "returns (linefeed demo_term) (\<lambda>t'. cu_point (t_cursor t') = Point 1 0)"
  by (rule returns_mono [OF linefeed_scrolls_or_moves [OF demo_wf]])
    (simp add: demo_simps default_cursor_def default_point_def)



text \<open>Inserting blanks shifts the rest of the cursor line right by the count and blanks the gap; cells pushed past
  the last column are lost, nothing left of the cursor and no other line changes.\<close>

theorem insert_blank_shifts_right:
  assumes "wf_term t"
  shows "returns (insert_blank count t) (\<lambda>t'. wf_term t' \<and> t_cursor t' = t_cursor t
    \<and> (\<forall>p. in_grid (grid_dims (t_grid t)) p \<longrightarrow> g_cell (t_grid t') p =
        (let c = cu_point (t_cursor t) in
         if p_line p \<noteq> p_line c \<or> p_column p < p_column c then g_cell (t_grid t) p
         else if p_column p < p_column c + count then cell_of_color (c_bg (cu_template (t_cursor t)))
         else g_cell (t_grid t) (Point (p_line p) (p_column p - count)))))"
  by (rule returns_mono [OF insert_blank_returns [OF assms]])
    (auto dest: cells_stepD simp: cells_post_cell [OF cells_stepD(3)] inserted_cells_def)

theorem insert_blank_witness: "returns (insert_blank 2 demo_term) (\<lambda>t'. g_cell (t_grid t') (Point 0 3) = default_cell)"
  by (rule returns_mono [OF insert_blank_shifts_right [OF demo_wf, of 2]])
    (auto simp: demo_simps default_cursor_def default_point_def in_grid_def dims_defs demo_cell
      dest!: spec [of _ "Point 0 3"])

text \<open>Deleting characters shifts the rest of the cursor line left by the count and blanks the last \<open>count\<close> cells of
  the line; these cells are blanked even where they lie left of the cursor, when the count exceeds the cells that
  remain.\<close>

theorem delete_chars_shifts_left:
  assumes "wf_term t"
  shows "returns (delete_chars count t) (\<lambda>t'. wf_term t' \<and> t_cursor t' = t_cursor t
    \<and> (\<forall>p. in_grid (grid_dims (t_grid t)) p \<longrightarrow> g_cell (t_grid t') p =
        (let c = cu_point (t_cursor t) in
         if p_line p \<noteq> p_line c then g_cell (t_grid t) p
         else if g_columns (t_grid t) - count \<le> p_column p then cell_of_color (c_bg (cu_template (t_cursor t)))
         else if p_column p < p_column c then g_cell (t_grid t) p
         else g_cell (t_grid t) (Point (p_line p) (p_column p + count)))))"
  by (rule returns_mono [OF delete_chars_returns [OF assms]])
    (auto dest: cells_stepD simp: cells_post_cell [OF cells_stepD(3)] deleted_cells_def)

theorem delete_chars_witness: "returns (delete_chars 9 demo_term) (\<lambda>t'. g_cell (t_grid t') (Point 0 0) = default_cell)"
  by (rule returns_mono [OF delete_chars_shifts_left [OF demo_wf, of 9]])
    (auto simp: demo_simps default_cursor_def default_point_def in_grid_def dims_defs default_cell_eq
      dest!: spec [of _ "Point 0 0"])

text \<open>Erasing below the cursor blanks exactly the cells from the cursor to the end of the screen; erasing above
  blanks the cells from the start of the screen up to the cursor, except that the first line is kept when the cursor
  is on the second. The cursor and the history stay, and a full redraw is requested.\<close>

theorem clear_screen_around_cursor:
  assumes "wf_term t"
  shows "returns (clear_screen ClearBelow t) (\<lambda>t'. wf_term t' \<and> t_cursor t' = t_cursor t \<and> dm_full (t_damage t')
      \<and> (\<forall>p. in_grid (grid_dims (t_grid t)) p \<longrightarrow> g_cell (t_grid t') p =
         (if cu_point (t_cursor t) \<le> p then cell_of_color (c_bg (cu_template (t_cursor t))) else g_cell (t_grid t) p)))
    \<and> returns (clear_screen ClearAbove t) (\<lambda>t'. wf_term t' \<and> t_cursor t' = t_cursor t \<and> dm_full (t_damage t')
      \<and> (\<forall>p. in_grid (grid_dims (t_grid t)) p \<longrightarrow> g_cell (t_grid t') p =
         (if 0 \<le> p_line p \<and> p \<le> cu_point (t_cursor t) \<and> \<not> (p_line p = 0 \<and> p_line (cu_point (t_cursor t)) = 1)
          then cell_of_color (c_bg (cu_template (t_cursor t))) else g_cell (t_grid t) p)))"
  by (intro conjI; (rule returns_mono [OF clear_below_returns [OF assms]] | rule returns_mono [OF clear_above_returns [OF assms]]))
    (auto dest: cells_stepD simp: cells_post_cell [OF cells_stepD(3)] cleared_below_cells_def cleared_above_cells_def Let_def)

theorem clear_screen_witness:
  "returns (clear_screen ClearBelow demo_term) (\<lambda>t'. g_cell (t_grid t') (Point 2 1) = default_cell)"
  by (rule returns_mono [OF clear_screen_around_cursor [OF demo_wf, THEN conjunct1]])
    (auto simp: demo_simps default_cursor_def default_point_def in_grid_def dims_defs default_cell_eq
      dest!: spec [of _ "Point 2 1"])

text \<open>Inserting blank lines scrolls the part of the region from the cursor line down, deleting lines scrolls it up,
  by at most the lines that are left; outside the region both do nothing.\<close>

theorem insert_delete_lines_scroll:
  assumes "wf_term t"
  shows "returns (insert_blank_lines n t) (\<lambda>t'. wf_term t' \<and> t_frame t t'
      \<and> (if in_scroll_region t (p_line (cu_point (t_cursor t)))
         then scroll_down_post (p_line (cu_point (t_cursor t))) (snd (t_scroll_region t))
                (min n (nat (snd (t_scroll_region t) - p_line (cu_point (t_cursor t))))) (t_grid t) (t_grid t')
         else t' = t))
    \<and> returns (delete_lines n t) (\<lambda>t'. wf_term t' \<and> t_frame t t'
      \<and> (if 0 < n \<and> in_scroll_region t (p_line (cu_point (t_cursor t)))
         then scroll_up_post (p_line (cu_point (t_cursor t))) (snd (t_scroll_region t))
                (min (min (g_lines (t_grid t) - nat (p_line (cu_point (t_cursor t)))) n)
                   (nat (snd (t_scroll_region t) - fst (t_scroll_region t)))) (t_grid t) (t_grid t')
         else t' = t))"
  using insert_blank_lines_returns [OF assms] delete_lines_returns [OF assms] by blast

theorem insert_delete_lines_witness:
  "returns (insert_blank_lines 1 demo_term) (\<lambda>t'. scroll_down_post 0 3 1 (t_grid demo_term) (t_grid t'))"
  by (rule returns_mono [OF insert_delete_lines_scroll [OF demo_wf, of 1, THEN conjunct1]])
    (simp add: in_scroll_region_def demo_simps default_cursor_def default_point_def)

subsection \<open>Round trips\<close>

text \<open>C5: Switching to the alternate screen and back restores the primary screen: its rows, its history and its cursor
  are the same as before (the cursor is also its saved cursor then), and so are the keyboard mode stacks; the
  alternate screen starts blank with the cursor of the primary screen.\<close>

theorem swap_alt_roundtrip:
  assumes t: "wf_term t" and m: "\<not> has_mode t ALT_SCREEN"
  shows "returns (swap_alt t) (\<lambda>t1. wf_term t1 \<and> has_mode t1 ALT_SCREEN \<and> t_cursor t1 = t_cursor t
    \<and> (\<forall>l. 0 \<le> l \<and> l < int (g_lines (t_grid t)) \<longrightarrow>
         g_row (t_grid t1) l = blank_row (g_columns (t_grid t)) (c_bg (cu_template (t_cursor t))))
    \<and> returns (swap_alt t1) (\<lambda>t2. wf_term t2 \<and> \<not> has_mode t2 ALT_SCREEN
        \<and> t_grid t2 = (t_grid t)\<lparr>g_saved_cursor := t_cursor t\<rparr>
        \<and> t_keyboard_mode_stack t2 = t_keyboard_mode_stack t
        \<and> t_inactive_keyboard_mode_stack t2 = t_inactive_keyboard_mode_stack t))"
proof -
  let ?i = "(t_inactive_grid t)\<lparr>g_cursor := t_cursor t\<rparr>"
  let ?t = "\<lambda>g. t\<lparr>t_grid := (t_grid t)\<lparr>g_saved_cursor := t_cursor t\<rparr>, t_inactive_grid := g\<rparr>"
  have dims: "g_lines (t_inactive_grid t) = g_lines (t_grid t)" "g_columns (t_inactive_grid t) = g_columns (t_grid t)"
    using t by (simp_all add: wf_term_def)
  have core: "grid_core_ok ?i" using wf_inactive_core [OF t] by simp
  have reset: "returns (reset_region None None ?i) (\<lambda>g. wf_term (?t g) \<and> g_cursor g = t_cursor t
     \<and> (\<forall>l. 0 \<le> l \<and> l < int (g_lines (t_grid t)) \<longrightarrow>
          g_row g l = blank_row (g_columns (t_grid t)) (c_bg (cu_template (t_cursor t)))))"
    by (rule returns_mono [OF returns_conj [OF enter_alt_returns [OF t] reset_region_returns [OF core, of None None]]])
      (use wf_lines [OF t] dims g_screen_valid [OF core] in \<open>auto simp: raw_frame_def same_frame_def\<close>)
  have mode: "has_mode (swap_screens u) ALT_SCREEN \<longleftrightarrow> \<not> has_mode u ALT_SCREEN" for u
    by (rule swap_screens_alt)
  have sel: "t_grid (swap_screens u) = t_inactive_grid u" "t_inactive_grid (swap_screens u) = t_grid u"
    "t_keyboard_mode_stack (swap_screens u) = t_inactive_keyboard_mode_stack u"
    "t_inactive_keyboard_mode_stack (swap_screens u) = t_keyboard_mode_stack u" for u
    by (simp_all add: swap_screens_def apply_keyboard_mode_def mark_fully_damaged_def Let_def)
  have leave: "swap_alt (swap_screens u) = Some (swap_screens (swap_screens u))" if "\<not> has_mode u ALT_SCREEN" for u
    using that mode [of u] by (simp add: swap_alt_def)
  have alt: "\<not> has_mode (?t g) ALT_SCREEN" for g using m by (simp add: has_mode_def)
  show ?thesis
    unfolding swap_alt_def [of t] if_P [OF m] Let_def returns_bind returns_Some
    by (rule returns_mono [OF reset])
      (use alt in \<open>simp add: leave sel mode wf_swap_screens\<close>)
qed

theorem swap_alt_roundtrip_witness:
  "returns (swap_alt demo_term) (\<lambda>t1. returns (swap_alt t1) (\<lambda>t2. g_row (t_grid t2) 0 = g_row (t_grid demo_term) 0))"
  by (rule returns_mono [OF swap_alt_roundtrip [OF demo_wf demo_no_modes(2)]])
    (auto elim!: returns_mono simp: g_row_def)

text \<open>Saving the cursor and moving it anywhere, then restoring it, brings back its position, its template, its
  character sets and its pending wrap.\<close>

theorem save_restore_cursor_roundtrip:
  assumes "wf_term t"
  shows "returns (goto l c (save_cursor_position t)) (\<lambda>t1. returns (restore_cursor_position t1) (\<lambda>t2.
    wf_term t2 \<and> t_cursor t2 = t_cursor t \<and> g_raw (t_grid t2) = g_raw (t_grid t)))"
proof (rule returns_mono [OF goto_returns [OF save_cursor_wf [OF assms]]])
  fix t1 assume m: "moved (goto_target (save_cursor_position t) l c) (save_cursor_position t) t1"
  have wf1: "wf_term t1" by (rule moved_wf [OF save_cursor_wf [OF assms] goto_target_in_screen [OF save_cursor_wf [OF assms]] m])
  have saved: "g_saved_cursor (t_grid t1) = t_cursor t" "g_raw (t_grid t1) = g_raw (t_grid t)"
    using m by (auto simp: moved_def upd_cursor_def save_cursor_position_def)
  show "returns (restore_cursor_position t1) (\<lambda>t2. wf_term t2 \<and> t_cursor t2 = t_cursor t \<and> g_raw (t_grid t2) = g_raw (t_grid t))"
    by (rule returns_mono [OF restore_cursor_cursor [OF wf1]]) (simp add: saved)
qed

theorem save_restore_cursor_witness:
  "returns (goto 2 3 (save_cursor_position demo_term)) (\<lambda>t1. returns (restore_cursor_position t1)
     (\<lambda>t2. cu_point (t_cursor t2) = default_point))"
  by (rule returns_mono [OF save_restore_cursor_roundtrip [OF demo_wf, of 2 3]])
    (auto elim!: returns_mono simp: demo_simps default_cursor_def)

text \<open>The title stack is a bounded stack: pushing the title and popping it again restores the title whatever was
  set in between, and the stack never exceeds its maximum depth, dropping its oldest entry instead.\<close>

theorem title_stack_roundtrip:
  "t_title (pop_title (set_title s (push_title t))) = t_title t
   \<and> (length (t_title_stack t) < TITLE_STACK_MAX_DEPTH \<longrightarrow>
      t_title_stack (pop_title (set_title s (push_title t))) = t_title_stack t)
   \<and> (length (t_title_stack t) = TITLE_STACK_MAX_DEPTH \<longrightarrow>
      t_title_stack (push_title t) = tl (t_title_stack t) @ [t_title t])"
  by (auto simp: pop_title_def set_title_def push_title_def send_event_def Let_def)

theorem title_stack_witness:
  "t_title_stack (pop_title (set_title (Some [65]) (push_title demo_term))) = []"
  using title_stack_roundtrip [of "Some [65]" demo_term] by (simp add: demo_state TITLE_STACK_MAX_DEPTH_def)

subsection \<open>Modes\<close>

text \<open>The kitty keyboard modes are isolated from all other modes: pushing, popping and setting keyboard modes change
  only the five bits of the protocol; after a push these bits are exactly the pushed mode, and popping it again gives
  the bits of the mode below it on the stack.\<close>

theorem keyboard_modes_isolated:
  assumes "cfg_kitty_keyboard (t_config t)" "length (t_keyboard_mode_stack t) < KEYBOARD_MODE_STACK_MAX_DEPTH"
    and "f AND KITTY_KEYBOARD_PROTOCOL = 0"
  shows "returns (push_keyboard_mode m t) (\<lambda>t'. t_mode t' AND f = t_mode t AND f
      \<and> t_mode t' AND KITTY_KEYBOARD_PROTOCOL = mode_of_keyboard m
      \<and> t_keyboard_mode_stack (pop_keyboard_modes 1 t') = t_keyboard_mode_stack t
      \<and> t_mode (pop_keyboard_modes 1 t') AND KITTY_KEYBOARD_PROTOCOL =
          mode_of_keyboard (last_keyboard_mode (t_keyboard_mode_stack t)))
    \<and> t_mode (pop_keyboard_modes n t) AND f = t_mode t AND f
    \<and> t_mode (set_keyboard_mode m b t) AND f = t_mode t AND f"
proof -
  let ?u = "t\<lparr>t_keyboard_mode_stack := t_keyboard_mode_stack t @ [m]\<rparr>"
  have push: "push_keyboard_mode m t = Some (apply_keyboard_mode (mode_of_keyboard m) Replace ?u)"
    using assms(1,2) by (simp add: push_keyboard_mode_def)
  have sel: "t_config (apply_keyboard_mode k b u) = t_config u"
    "t_keyboard_mode_stack (apply_keyboard_mode k b u) = t_keyboard_mode_stack u" for k b u
    by (simp_all add: apply_keyboard_mode_def Let_def)
  have pop: "t_mode (pop_keyboard_modes n t) AND f = t_mode t AND f" for n
    using apply_keyboard_other [OF assms(3)] by (simp add: pop_keyboard_modes_def Let_def)
  have set: "t_mode (set_keyboard_mode m b t) AND f = t_mode t AND f"
    using apply_keyboard_other [OF assms(3)] by (simp add: set_keyboard_mode_def)
  show ?thesis
    using assms(1) apply_keyboard_other [OF assms(3), of m Replace ?u] pop set
    by (simp add: push sel pop_keyboard_modes_def Let_def apply_keyboard_kitty)
qed

theorem keyboard_modes_witness:
  "returns (push_keyboard_mode (kb_NO_MODE\<lparr>kb_disambiguate_esc_codes := True\<rparr>) demo_term)
     (\<lambda>t'. t_mode t' AND LINE_WRAP = default_mode AND LINE_WRAP)"
proof -
  let ?m = "kb_NO_MODE\<lparr>kb_disambiguate_esc_codes := True\<rparr>"
  have "LINE_WRAP AND KITTY_KEYBOARD_PROTOCOL = 0" by (simp add: flag_simps)
  then have "returns (push_keyboard_mode ?m demo_term) (\<lambda>t'. t_mode t' AND LINE_WRAP = t_mode demo_term AND LINE_WRAP)"
    using keyboard_modes_isolated [of demo_term LINE_WRAP ?m 0 Replace]
    by (auto elim!: returns_mono simp: demo_state demo_config_def KEYBOARD_MODE_STACK_MAX_DEPTH_def TITLE_STACK_MAX_DEPTH_def)
  then show ?thesis by (simp add: demo_state)
qed

text \<open>C17: A keyboard mode pushed on a full keyboard mode stack removes an entry of the title stack instead of the
  oldest keyboard mode: with an empty title stack the call panics, and with any other the keyboard mode stack grows
  beyond its maximum depth.\<close>

theorem push_keyboard_mode_full_stack:
  assumes "cfg_kitty_keyboard (t_config t)" "KEYBOARD_MODE_STACK_MAX_DEPTH \<le> length (t_keyboard_mode_stack t)"
  shows "if t_title_stack t = [] then push_keyboard_mode m t = None
    else returns (push_keyboard_mode m t) (\<lambda>t'. t_title_stack t' = tl (t_title_stack t)
      \<and> KEYBOARD_MODE_STACK_MAX_DEPTH < length (t_keyboard_mode_stack t'))"
  using assms by (simp add: push_keyboard_mode_def apply_keyboard_mode_def Let_def guard_bind)

theorem push_keyboard_mode_full_witness:
  "push_keyboard_mode kb_NO_MODE (demo_term\<lparr>t_keyboard_mode_stack := replicate 4096 kb_NO_MODE\<rparr>) = None"
  using push_keyboard_mode_full_stack [of "demo_term\<lparr>t_keyboard_mode_stack := replicate 4096 kb_NO_MODE\<rparr>" kb_NO_MODE]
  by (simp add: demo_state demo_config_def KEYBOARD_MODE_STACK_MAX_DEPTH_def TITLE_STACK_MAX_DEPTH_def)

text \<open>What a private mode query reports agrees with the last change of the mode: after setting one of the modes
  that are a single flag the state is reported as set, after unsetting it as reset; and the three mouse report modes
  exclude each other, as do the two mouse encodings.\<close>

theorem private_mode_report_agrees:
  assumes "m \<notin> {SwapScreenAndSetRestoreCursor, ColumnMode, BlinkingCursor, SyncUpdate, Origin}"
  shows "returns (set_private_mode (NamedPrivate m) t) (\<lambda>t'. snd (private_mode_state (NamedPrivate m) t') = StateSet)
    \<and> returns (unset_private_mode (NamedPrivate m) t) (\<lambda>t'. snd (private_mode_state (NamedPrivate m) t') = StateReset)
    \<and> (m \<in> {ReportMouseClicks, ReportCellMouseMotion, ReportAllMouseMotion} \<longrightarrow>
        returns (set_private_mode (NamedPrivate m) t) (\<lambda>t'. t_mode t' AND MOUSE_MODE = private_mode_flag m))
    \<and> returns (set_private_mode (NamedPrivate SgrMouse) t) (\<lambda>t'. \<not> has_mode t' UTF8_MOUSE)
    \<and> returns (set_private_mode (NamedPrivate Utf8Mouse) t) (\<lambda>t'. \<not> has_mode t' SGR_MOUSE)"
proof -
  have sel: "t_mode (insert_mode f u) = fl_insert (t_mode u) f" "t_mode (remove_mode f u) = fl_remove (t_mode u) f"
    "t_mode (send_event e u) = t_mode u" for f u e
    by (simp_all add: insert_mode_def remove_mode_def send_event_def)
  have mouse: "fl_insert (fl_remove v MOUSE_MODE) f AND MOUSE_MODE = f" if "f AND MOUSE_MODE = f" for v f :: term_mode
    using that by (simp add: fl_insert_def fl_remove_def bit.conj_disj_distrib2 mask_same)
  have masks: "MOUSE_REPORT_CLICK AND MOUSE_MODE = MOUSE_REPORT_CLICK" "MOUSE_DRAG AND MOUSE_MODE = MOUSE_DRAG"
    "MOUSE_MOTION AND MOUSE_MODE = MOUSE_MOTION" "UTF8_MOUSE AND SGR_MOUSE = 0" "SGR_MOUSE AND UTF8_MOUSE = 0"
    by (simp_all add: flag_simps)
  have nz: "private_mode_flag m \<noteq> 0" using assms by (cases m) (simp_all add: flag_simps)
  have 1: "returns (set_private_mode (NamedPrivate m) t) (\<lambda>t'. snd (private_mode_state (NamedPrivate m) t') = StateSet)"
    using assms by (cases m) (simp_all add: private_mode_state_def mode_state_of_def has_mode_def sel)
  have 2: "returns (unset_private_mode (NamedPrivate m) t) (\<lambda>t'. snd (private_mode_state (NamedPrivate m) t') = StateReset)"
    using assms nz by (cases m) (simp_all add: private_mode_state_def mode_state_of_def has_mode_def sel)
  have 3: "m \<in> {ReportMouseClicks, ReportCellMouseMotion, ReportAllMouseMotion} \<longrightarrow>
        returns (set_private_mode (NamedPrivate m) t) (\<lambda>t'. t_mode t' AND MOUSE_MODE = private_mode_flag m)"
    using mouse masks by (auto simp: sel)
  have 4: "returns (set_private_mode (NamedPrivate SgrMouse) t) (\<lambda>t'. \<not> has_mode t' UTF8_MOUSE)"
    "returns (set_private_mode (NamedPrivate Utf8Mouse) t) (\<lambda>t'. \<not> has_mode t' SGR_MOUSE)"
    using masks by (simp_all add: has_mode_def sel fl_contains_insert_other) (simp_all add: flag_simps)
  show ?thesis using 1 2 3 4 by blast
qed

theorem private_mode_report_witness:
  "returns (set_private_mode (NamedPrivate BracketedPaste) demo_term)
     (\<lambda>t'. snd (private_mode_state (NamedPrivate BracketedPaste) t') = StateSet)"
  using private_mode_report_agrees [of BracketedPaste demo_term] by simp

subsection \<open>Clipboard, damage, reset and tabs\<close>

text \<open>The clipboard is only written when the configuration allows copying, and only read when it allows pasting;
  an allowed store of an encoded UTF-8 text, to a known clipboard, passes on exactly that text, and everything else
  changes nothing.\<close>

theorem clipboard_access_is_gated:
  assumes "x_base64_decode x (enc (utf8_encode s)) = Some (map word_of_nat (utf8_encode s))" "\<forall>c \<in> set s. scalar_value c"
  shows "clipboard_store x b (enc (utf8_encode s)) t =
      (if cfg_osc52 (t_config t) \<in> {OnlyCopy, CopyPaste}
       then case clipboard_of_byte b of Some ty \<Rightarrow> send_event (ClipboardStore ty s) t | None \<Rightarrow> t
       else t)
    \<and> (clipboard_load x b term t \<noteq> t \<longrightarrow> cfg_osc52 (t_config t) \<in> {OnlyPaste, CopyPaste} \<and> clipboard_of_byte b \<noteq> None)"
proof -
  have bytes: "map unat (map word_of_nat (utf8_encode s) :: 8 word list) = utf8_encode s"
    unfolding map_map by (rule map_idI) (use utf8_bytes assms(2) in \<open>force simp: unat_of_nat\<close>)
  show ?thesis
    using assms(1) utf8_roundtrip [OF assms(2)] bytes
    by (auto simp: clipboard_store_def clipboard_load_def split: option.splits)
qed

theorem clipboard_witness:
  "clipboard_store demo_ext 99 (map word_of_nat (utf8_encode [0xE9])) demo_term =
     send_event (ClipboardStore Clipboard [0xE9]) demo_term"
  using clipboard_access_is_gated [of demo_ext "map word_of_nat" "[0xE9]" 99 demo_term "[]"]
  by (simp add: demo_ext_def demo_state demo_config_def clipboard_of_byte_def scalar_value_def)



text \<open>A reset brings the terminal back to its initial state: blank screen without history, cursor and saved cursor
  at the origin, the full scrolling region, default tab stops, empty stacks, no selection and the default modes; only
  vi mode survives.\<close>

theorem reset_state_restores_defaults:
  assumes "wf_term t"
  shows "returns (reset_state t) (\<lambda>t'. wf_term t'
    \<and> t_cursor t' = default_cursor \<and> g_saved_cursor (t_grid t') = default_cursor
    \<and> g_history_size (t_grid t') = 0 \<and> g_display_offset (t_grid t') = 0
    \<and> (\<forall>l. 0 \<le> l \<and> l < int (g_lines (t_grid t)) \<longrightarrow>
         g_row (t_grid t') l = blank_row (g_columns (t_grid t)) (Named Background))
    \<and> t_scroll_region t' = (0, int (g_lines (t_grid t))) \<and> t_tabs t' = tabs_new (g_columns (t_grid t))
    \<and> t_title_stack t' = [] \<and> t_keyboard_mode_stack t' = [] \<and> t_selection t' = None
    \<and> t_mode t' = (t_mode t AND VI) OR default_mode)"
proof -
  define u where "u = (if has_mode t ALT_SCREEN then t\<lparr>t_grid := t_inactive_grid t, t_inactive_grid := t_grid t\<rparr> else t)
    \<lparr>t_active_charset := G0, t_cursor_style := None\<rparr>"
  have wf: "wf_term u" using assms wf_swap [OF assms] by (simp add: u_def)
  have dims: "g_lines (t_grid u) = g_lines (t_grid t)" "g_columns (t_grid u) = g_columns (t_grid t)"
    "t_mode u = t_mode t"
    using assms by (simp_all add: wf_term_def u_def)
  show ?thesis
    using reset_state_returns [OF assms]
    unfolding reset_state_def Let_def returns_bind returns_Some u_def [symmetric]
    by (rule reset_grids_returns [OF wf])
      (simp add: dims reset_fields_def Let_def mark_fully_damaged_def send_event_def fl_insert_def)
qed

theorem reset_state_witness: "returns (reset_state demo_term) (\<lambda>t'. t_cursor t' = default_cursor)"
  by (rule returns_mono [OF reset_state_restores_defaults [OF demo_wf]]) simp

text \<open>A tab stops at the first tab stop after the cursor, or in the last column when there is none; the scan ends,
  never reads past the tab table and never leaves the line.\<close>

theorem tab_advances_to_next_stop:
  assumes "length tabs = cols" "col < cols"
  shows "returns (tab_advance tabs cols col) (\<lambda>c. col \<le> c \<and> c < cols \<and> (c = cols - 1 \<or> tabs ! c)
    \<and> (\<forall>j. col < j \<and> j < c \<longrightarrow> \<not> tabs ! j) \<and> (col + 1 < cols \<longrightarrow> col < c))"
  by (rule tab_advance_returns [OF assms])

theorem tab_advance_witness: "returns (tab_advance (tabs_new 20) 20 3) (\<lambda>c. 3 < c \<and> c < 20)"
  by (rule returns_mono [OF tab_advances_to_next_stop]) simp_all

end
