(* ===== verification/Vi_Mode.thy ===== *)
theory Vi_Mode
  imports Term_Text Term_Actions
begin

text \<open>
  The vi mode cursor: \<^verbatim>\<open>velacritty_terminal/src/vi_mode.rs\<close> and \<^verbatim>\<open>Term::vi_motion\<close>. A loop whose end depends on the
  content of the grid is a \<open>partial_function\<close> in the option monad, so that a loop that never ends and an index out of
  bounds are both \<open>None\<close>; the results show that every motion returns.
\<close>

datatype vi_motion =
    Up | Down | Left | Right | First | Last | FirstOccupied | High | Middle | Low
  | SemanticLeft | SemanticRight | SemanticLeftEnd | SemanticRightEnd
  | WordLeft | WordRight | WordLeftEnd | WordRightEnd | Bracket | ParagraphUp | ParagraphDown

definition is_space :: "terminal \<Rightarrow> point \<Rightarrow> bool option" where
  "is_space t p = do {
     x \<leftarrow> grid_get (t_grid t) p;
     Some (\<not> fl_intersects (c_flags x) wide_spacer \<and> (c_char x = 32 \<or> c_char x = 9))
   }"

definition is_wrap :: "terminal \<Rightarrow> point \<Rightarrow> bool option" where
  "is_wrap t p = do { x \<leftarrow> grid_get (t_grid t) p; Some (fl_contains (c_flags x) WRAPLINE) }"

definition is_boundary :: "terminal \<Rightarrow> point \<Rightarrow> direction \<Rightarrow> bool" where
  "is_boundary t p dir \<longleftrightarrow>
     (p_line p \<le> topmost_line (t_dims t) \<and> p_column p = 0 \<and> dir = DirLeft)
     \<or> (p_line p = bottommost_line (t_dims t) \<and> p_column p + 1 \<ge> columns (t_dims t) \<and> dir = DirRight)"

definition advance :: "terminal \<Rightarrow> point \<Rightarrow> direction \<Rightarrow> point" where
  "advance t p dir =
     (if dir = DirLeft then point_sub (t_dims t) BGrid 1 p else point_add (t_dims t) BGrid 1 p)"

text \<open>\<^verbatim>\<open>Iterator::find\<close> with a predicate that indexes the grid.\<close>

fun mfind :: "('a \<Rightarrow> bool option) \<Rightarrow> 'a list \<Rightarrow> 'a option option" where
  "mfind f [] = Some None"
| "mfind f (x # xs) = do { b \<leftarrow> f x; if b then Some (Some x) else mfind f xs }"

definition not_space :: "terminal \<Rightarrow> point \<Rightarrow> bool option" where
  "not_space t p = map_option Not (is_space t p)"

definition first_occupied_in_line :: "terminal \<Rightarrow> int \<Rightarrow> point option option" where
  "first_occupied_in_line t line = mfind (not_space t) (map (Point line) [0..<columns (t_dims t)])"

definition last_occupied_in_line :: "terminal \<Rightarrow> int \<Rightarrow> point option option" where
  "last_occupied_in_line t line = mfind (not_space t) (rev (map (Point line) [0..<columns (t_dims t)]))"

subsection \<open>Ends of lines\<close>

text \<open>\<^verbatim>\<open>while is_wrap(term, point) { point.line += 1 }\<close>\<close>

partial_function (option) down_wraps :: "terminal \<Rightarrow> point \<Rightarrow> point option" where
  "down_wraps t p = do {
     w \<leftarrow> is_wrap t p;
     if w then down_wraps t (Point (p_line p + 1) (p_column p)) else Some p
   }"

definition vi_last :: "terminal \<Rightarrow> point \<Rightarrow> point option" where
  "vi_last t p = do {
     p \<leftarrow> expand_wide t p DirRight;
     o1 \<leftarrow> last_occupied_in_line t (p_line p);
     let occupied = (case o1 of Some q \<Rightarrow> q | None \<Rightarrow> default_point);
     if p_column p < p_column occupied then Some occupied
     else do {
       w \<leftarrow> is_wrap t p;
       if w
       then do {
         p \<leftarrow> down_wraps t p;
         o2 \<leftarrow> last_occupied_in_line t (p_line p);
         Some (case o2 of Some q \<Rightarrow> q | None \<Rightarrow> p)
       }
       else Some (Point (p_line p) (last_column (t_dims t)))
     }
   }"

text \<open>The loop over the lines above, and the fallback loop downwards.\<close>

fun occupied_above :: "terminal \<Rightarrow> int list \<Rightarrow> point option \<Rightarrow> point option option" where
  "occupied_above t [] occupied = Some occupied"
| "occupied_above t (line # ls) occupied = do {
     w \<leftarrow> is_wrap t (Point line (last_column (t_dims t)));
     if \<not> w then Some occupied
     else do {
       o1 \<leftarrow> first_occupied_in_line t line;
       occupied_above t ls (case o1 of Some q \<Rightarrow> Some q | None \<Rightarrow> occupied)
     }
   }"

partial_function (option) occupied_below :: "terminal \<Rightarrow> int \<Rightarrow> point option" where
  "occupied_below t line = do {
     o1 \<leftarrow> first_occupied_in_line t line;
     case o1 of
       Some q \<Rightarrow> Some q
     | None \<Rightarrow> do {
         w \<leftarrow> is_wrap t (Point line (last_column (t_dims t)));
         if \<not> w then Some (Point line (last_column (t_dims t))) else occupied_below t (line + 1)
       }
   }"

definition first_occupied :: "terminal \<Rightarrow> point \<Rightarrow> point option" where
  "first_occupied t p = do {
     p \<leftarrow> expand_wide t p DirLeft;
     o1 \<leftarrow> first_occupied_in_line t (p_line p);
     let occupied = (case o1 of Some q \<Rightarrow> q | None \<Rightarrow> Point (p_line p) (last_column (t_dims t)));
     if p = occupied
     then do {
       o2 \<leftarrow> occupied_above t (rev (irange (topmost_line (t_dims t)) (p_line p))) None;
       case o2 of Some q \<Rightarrow> Some q | None \<Rightarrow> occupied_below t (p_line p)
     }
     else Some occupied
   }"

subsection \<open>Words\<close>

text \<open>The two shapes of the loops over a word: one looks at the next point before it moves there, the other at the
  current one. \<open>want\<close> says whether the loop skips white space or everything else.\<close>

partial_function (option) skip_next :: "terminal \<Rightarrow> direction \<Rightarrow> bool \<Rightarrow> point \<Rightarrow> point option" where
  "skip_next t dir want p =
     (if is_boundary t p dir then Some p
      else do {
        let next_point = advance t p dir;
        b \<leftarrow> is_space t next_point;
        if b = want then skip_next t dir want next_point else Some p
      })"

partial_function (option) skip_here :: "terminal \<Rightarrow> direction \<Rightarrow> bool \<Rightarrow> point \<Rightarrow> point option" where
  "skip_here t dir want p =
     (if is_boundary t p dir then Some p
      else do {
        b \<leftarrow> is_space t p;
        if b = want then skip_here t dir want (advance t p dir) else Some p
      })"

definition expand_semantic :: "terminal \<Rightarrow> direction \<Rightarrow> point \<Rightarrow> point option" where
  "expand_semantic t dir p = do {
     x \<leftarrow> grid_get (t_grid t) p;
     if c_char x \<in> set (cfg_semantic_escape_chars (t_config t)) \<and> \<not> fl_intersects (c_flags x) wide_spacer then Some p
     else if dir = DirLeft then semantic_search_left t p
     else semantic_search_right t p
   }"

definition vi_semantic :: "terminal \<Rightarrow> point \<Rightarrow> direction \<Rightarrow> side \<Rightarrow> point option" where
  "vi_semantic t p dir side = do {
     p \<leftarrow> (if dir \<noteq> side \<and> \<not> is_boundary t p dir then expand_semantic t dir p else Some p);
     p \<leftarrow> expand_wide t p dir;
     p \<leftarrow> skip_next t dir True p;
     p \<leftarrow> (if \<not> is_boundary t p dir
           then if dir = DirLeft then expand_wide t (advance t p dir) dir else Some (advance t p dir)
           else Some p);
     if dir = side \<and> \<not> is_boundary t p dir then expand_semantic t dir p else Some p
   }"

definition vi_word :: "terminal \<Rightarrow> point \<Rightarrow> direction \<Rightarrow> side \<Rightarrow> point option" where
  "vi_word t p dir side = do {
     p \<leftarrow> expand_wide t p dir;
     if dir = side
     then do { p \<leftarrow> skip_next t dir True p; skip_next t dir False p }
     else do { p \<leftarrow> skip_here t dir False p; skip_here t dir True p }
   }"

subsection \<open>Paragraphs\<close>

text \<open>\<^verbatim>\<open>skip_while(is_clear).find(is_clear)\<close>; the flag says that \<^verbatim>\<open>skip_while\<close> is still skipping.\<close>

fun skip_find_clear :: "terminal \<Rightarrow> bool \<Rightarrow> int list \<Rightarrow> int option option" where
  "skip_find_clear t skipping [] = Some None"
| "skip_find_clear t skipping (l # ls) = do {
     r \<leftarrow> grid_row (t_grid t) l;
     if row_is_clear cell_is_empty r
     then if skipping then skip_find_clear t True ls else Some (Some l)
     else skip_find_clear t False ls
   }"

subsection \<open>Motions\<close>

partial_function (option) first_wraps :: "terminal \<Rightarrow> point \<Rightarrow> point option" where
  "first_wraps t p =
     (if p_column p = 0 \<and> p_line p > topmost_line (t_dims t)
      then do {
        w \<leftarrow> is_wrap t (Point (p_line p - 1) (last_column (t_dims t)));
        if w then first_wraps t (Point (p_line p - 1) (p_column p)) else Some p
      }
      else Some p)"

definition column_in_line :: "terminal \<Rightarrow> int \<Rightarrow> point option" where
  "column_in_line t line = do {
     o1 \<leftarrow> first_occupied_in_line t line;
     Some (Point line (p_column (case o1 of Some q \<Rightarrow> q | None \<Rightarrow> default_point)))
   }"

definition motion_target :: "terminal \<Rightarrow> point \<Rightarrow> vi_motion \<Rightarrow> point option" where
  "motion_target t p m =
     (let off = int (g_display_offset (t_grid t));
          top = topmost_line (t_dims t); bottom = bottommost_line (t_dims t);
          last = last_column (t_dims t); n = int (screen_lines (t_dims t)) in
      case m of
        Up \<Rightarrow> Some (if p_line p > top then Point (p_line p - 1) (p_column p) else p)
      | Down \<Rightarrow> Some (if p_line p + 1 < n then Point (p_line p + 1) (p_column p) else p)
      | Left \<Rightarrow> do {
          p \<leftarrow> expand_wide t p DirLeft;
          w \<leftarrow> (if p_column p = 0 \<and> p_line p > top then is_wrap t (Point (p_line p - 1) last) else Some False);
          Some (if w then Point (p_line p - 1) last else Point (p_line p) (p_column p - 1))
        }
      | Right \<Rightarrow> do {
          p \<leftarrow> expand_wide t p DirRight;
          w \<leftarrow> is_wrap t p;
          Some (if w then Point (p_line p + 1) 0 else Point (p_line p) (min (p_column p + 1) last))
        }
      | First \<Rightarrow> do {
          p \<leftarrow> expand_wide t p DirLeft;
          p \<leftarrow> first_wraps t p;
          Some (Point (p_line p) 0)
        }
      | Last \<Rightarrow> vi_last t p
      | FirstOccupied \<Rightarrow> first_occupied t p
      | High \<Rightarrow> column_in_line t (- off)
      | Middle \<Rightarrow> column_in_line t (- off + n div 2 - 1)
      | Low \<Rightarrow> column_in_line t (- off + n - 1)
      | SemanticLeft \<Rightarrow> vi_semantic t p DirLeft DirLeft
      | SemanticRight \<Rightarrow> vi_semantic t p DirRight DirLeft
      | SemanticLeftEnd \<Rightarrow> vi_semantic t p DirLeft DirRight
      | SemanticRightEnd \<Rightarrow> vi_semantic t p DirRight DirRight
      | WordLeft \<Rightarrow> vi_word t p DirLeft DirLeft
      | WordRight \<Rightarrow> vi_word t p DirRight DirLeft
      | WordLeftEnd \<Rightarrow> vi_word t p DirLeft DirRight
      | WordRightEnd \<Rightarrow> vi_word t p DirRight DirRight
      | Bracket \<Rightarrow> map_option (\<lambda>r. case r of Some q \<Rightarrow> q | None \<Rightarrow> p) (bracket_search t p)
      | ParagraphUp \<Rightarrow>
          map_option (\<lambda>r. Point (case r of Some l \<Rightarrow> l | None \<Rightarrow> top) 0) (skip_find_clear t True (rev (irange top (p_line p))))
      | ParagraphDown \<Rightarrow>
          map_option (\<lambda>r. Point (case r of Some l \<Rightarrow> l | None \<Rightarrow> bottom) 0) (skip_find_clear t True (irange (p_line p) bottom)))"

text \<open>\<^verbatim>\<open>ViModeCursor::motion\<close> returns the new cursor and scrolls the terminal to it.\<close>

definition vi_cursor_motion :: "point \<Rightarrow> vi_motion \<Rightarrow> terminal \<Rightarrow> (point \<times> terminal) option" where
  "vi_cursor_motion p m t = do { q \<leftarrow> motion_target t p m; Some (q, scroll_to_point q t) }"

definition vi_cursor_scroll :: "terminal \<Rightarrow> int \<Rightarrow> point \<Rightarrow> point option" where
  "vi_cursor_scroll t lines p = column_in_line t (line_grid_clamp (t_dims t) BGrid (p_line p - lines))"

definition term_vi_motion :: "vi_motion \<Rightarrow> terminal \<Rightarrow> terminal option" where
  "term_vi_motion m t =
     (if \<not> has_mode t VI then Some t
      else do {
        (q, t) \<leftarrow> vi_cursor_motion (t_vi_cursor t) m t;
        Some (vi_mode_recompute_selection (t\<lparr>t_vi_cursor := q\<rparr>))
      })"

subsection \<open>Motions stay in the grid\<close>

text \<open>What the motions rely on: no line below continues the last line, and the second half of a wide character is
  never in the first column.\<close>

definition wide_ok :: "terminal \<Rightarrow> bool" where
  "wide_ok t \<longleftrightarrow> (\<forall>p. in_grid (t_dims t) p \<longrightarrow>
     (fl_contains (c_flags (g_cell (t_grid t) p)) WRAPLINE
        \<or> fl_contains (c_flags (g_cell (t_grid t) p)) LEADING_WIDE_CHAR_SPACER \<longrightarrow> p_line p < bottommost_line (t_dims t))
     \<and> (fl_contains (c_flags (g_cell (t_grid t) p)) WIDE_CHAR_SPACER \<longrightarrow> 0 < p_column p))"

definition blank_at :: "grid \<Rightarrow> point \<Rightarrow> bool" where
  "blank_at g p \<longleftrightarrow> \<not> fl_intersects (c_flags (g_cell g p)) wide_spacer \<and> (c_char (g_cell g p) = 32 \<or> c_char (g_cell g p) = 9)"

lemma term_wf_dims: "wf_term t \<Longrightarrow> wf_dims (t_dims t)"
  using grid_core_ok_dims [OF wf_core] by (simp add: grid_of_dims)

lemma term_get: "wf_term t \<Longrightarrow> in_grid (t_dims t) p \<Longrightarrow> grid_get (t_grid t) p = Some (g_cell (t_grid t) p)"
  by (simp add: grid_of_dims grid_get_cell)

lemma is_space_eq: "wf_term t \<Longrightarrow> in_grid (t_dims t) p \<Longrightarrow> is_space t p = Some (blank_at (t_grid t) p)"
  by (simp add: is_space_def term_get blank_at_def)

lemma is_wrap_eq:
  "wf_term t \<Longrightarrow> in_grid (t_dims t) p \<Longrightarrow> is_wrap t p = Some (fl_contains (c_flags (g_cell (t_grid t) p)) WRAPLINE)"
  by (simp add: is_wrap_def term_get)

lemma in_grid_line:
  "wf_term t \<Longrightarrow> topmost_line (t_dims t) \<le> l \<Longrightarrow> l \<le> bottommost_line (t_dims t) \<Longrightarrow> c < columns (t_dims t)
     \<Longrightarrow> in_grid (t_dims t) (Point l c)"
  "wf_term t \<Longrightarrow> topmost_line (t_dims t) \<le> l \<Longrightarrow> l \<le> bottommost_line (t_dims t)
     \<Longrightarrow> in_grid (t_dims t) (Point l (last_column (t_dims t)))"
  using wf_cols [of t] by (auto simp: in_grid_def last_column_def)

lemma expand_wide_returns:
  assumes t: "wf_term t" and w: "wide_ok t" and p: "in_grid (t_dims t) p"
  shows "returns (expand_wide t p dir) (in_grid (t_dims t))"
proof -
  note wp = w [unfolded wide_ok_def, rule_format, OF p]
  have prev: "in_grid (t_dims t) (point_sub (t_dims t) BGrid 1 q)" for q
    by (rule point_sub_in_grid [OF term_wf_dims [OF t]])
  have col: "in_grid (t_dims t) (Point (p_line p) (p_column p - 1))"
    "in_grid (t_dims t) (Point (p_line p) (min (p_column p + 1) (last_column (t_dims t))))"
    using p wf_cols [OF t] by (auto simp: in_grid_def last_column_def)
  have below: "in_grid (t_dims t) (Point (p_line p + 1) 1)"
    if "fl_contains (c_flags (g_cell (t_grid t) p)) LEADING_WIDE_CHAR_SPACER"
    using p wp that wf_cols [OF t] by (auto simp: in_grid_def)
  show ?thesis
    using p wp col below prev
    by (cases dir) (auto simp: expand_wide_def term_get [OF t] Let_def)
qed

lemma mfind_returns:
  assumes "\<And>x. x \<in> set xs \<Longrightarrow> returns (f x) (\<lambda>_. True)"
  shows "returns (mfind f xs) (\<lambda>r. case r of None \<Rightarrow> \<forall>x\<in>set xs. f x = Some False | Some y \<Rightarrow> y \<in> set xs \<and> f y = Some True)"
  using assms
proof (induction xs)
  case Nil
  then show ?case by simp
next
  case (Cons x xs)
  have "returns (f x) (\<lambda>_. True)" using Cons.prems by simp
  then obtain b where b: "f x = Some b" by (auto simp: returns_def)
  have IH: "returns (mfind f xs) (\<lambda>r. case r of None \<Rightarrow> \<forall>x\<in>set xs. f x = Some False | Some y \<Rightarrow> y \<in> set xs \<and> f y = Some True)"
    using Cons by simp
  show ?case using b by (cases b) (auto intro!: returns_mono [OF IH] split: option.splits)
qed

lemma occupied_in_line_returns:
  assumes t: "wf_term t" and l: "topmost_line (t_dims t) \<le> l" "l \<le> bottommost_line (t_dims t)"
  shows "returns (first_occupied_in_line t l) (\<lambda>r. case r of None \<Rightarrow> True | Some q \<Rightarrow> in_grid (t_dims t) q \<and> p_line q = l)"
    "returns (last_occupied_in_line t l) (\<lambda>r. case r of None \<Rightarrow> True | Some q \<Rightarrow> in_grid (t_dims t) q \<and> p_line q = l)"
proof -
  have g: "in_grid (t_dims t) q \<and> p_line q = l" if "q \<in> set (map (Point l) [0..<columns (t_dims t)])" for q
    using that in_grid_line(1) [OF t l] by auto
  have find: "returns (mfind (not_space t) qs) (\<lambda>r. case r of None \<Rightarrow> True | Some q \<Rightarrow> in_grid (t_dims t) q \<and> p_line q = l)"
    if qs: "set qs = set (map (Point l) [0..<columns (t_dims t)])" for qs
  proof (rule returns_mono [OF mfind_returns])
    show "returns (not_space t q) (\<lambda>_. True)" if "q \<in> set qs" for q
      using g that [unfolded qs] by (simp add: not_space_def is_space_eq [OF t])
  qed (auto split: option.splits dest!: g [folded qs])
  show "returns (first_occupied_in_line t l) (\<lambda>r. case r of None \<Rightarrow> True | Some q \<Rightarrow> in_grid (t_dims t) q \<and> p_line q = l)"
    "returns (last_occupied_in_line t l) (\<lambda>r. case r of None \<Rightarrow> True | Some q \<Rightarrow> in_grid (t_dims t) q \<and> p_line q = l)"
    unfolding first_occupied_in_line_def last_occupied_in_line_def by (rule find, simp)+
qed

lemma column_in_line_returns:
  assumes t: "wf_term t" and l: "topmost_line (t_dims t) \<le> l" "l \<le> bottommost_line (t_dims t)"
  shows "returns (column_in_line t l) (\<lambda>q. in_grid (t_dims t) q \<and> p_line q = l)"
  unfolding column_in_line_def returns_bind
  by (rule returns_mono [OF occupied_in_line_returns(1) [OF t l]])
    (use in_grid_line(1) [OF t l, of 0] wf_cols [OF t] in \<open>auto simp: in_grid_def default_point_def split: option.splits\<close>)

lemma wrap_below:
  assumes "wide_ok t" "in_grid (t_dims t) p" "fl_contains (c_flags (g_cell (t_grid t) p)) WRAPLINE"
  shows "in_grid (t_dims t) (Point (p_line p + 1) (p_column p))"
  using assms by (auto simp: wide_ok_def in_grid_def)

lemma down_wraps_returns:
  assumes t: "wf_term t" and w: "wide_ok t" and p: "in_grid (t_dims t) p"
  shows "returns (down_wraps t p) (\<lambda>q. in_grid (t_dims t) q \<and> p_column q = p_column p \<and> p_line p \<le> p_line q)"
  using p
proof (induction "nat (bottommost_line (t_dims t) - p_line p)" arbitrary: p rule: less_induct)
  case less
  show ?case
  proof (cases "fl_contains (c_flags (g_cell (t_grid t) p)) WRAPLINE")
    case True
    let ?q = "Point (p_line p + 1) (p_column p)"
    have q: "in_grid (t_dims t) ?q" by (rule wrap_below [OF w less.prems True])
    have "returns (down_wraps t ?q) (\<lambda>r. in_grid (t_dims t) r \<and> p_column r = p_column ?q \<and> p_line ?q \<le> p_line r)"
      by (rule less.hyps) (use q in \<open>auto simp: in_grid_def\<close>)
    then have "returns (down_wraps t ?q) (\<lambda>r. in_grid (t_dims t) r \<and> p_column r = p_column p \<and> p_line p \<le> p_line r)"
      by (rule returns_mono) simp
    then show ?thesis using True by (simp add: down_wraps.simps [of t p] is_wrap_eq [OF t less.prems])
  next
    case False
    then show ?thesis using less.prems by (simp add: down_wraps.simps [of t p] is_wrap_eq [OF t less.prems])
  qed
qed

lemma vi_last_returns:
  assumes t: "wf_term t" and w: "wide_ok t" and p: "in_grid (t_dims t) p"
  shows "returns (vi_last t p) (in_grid (t_dims t))"
  unfolding vi_last_def returns_bind
proof (rule returns_mono [OF expand_wide_returns [OF t w p]])
  fix q assume q: "in_grid (t_dims t) q"
  have line: "topmost_line (t_dims t) \<le> p_line q" "p_line q \<le> bottommost_line (t_dims t)" using q by (auto simp: in_grid_def)
  have wrapped: "returns (down_wraps t q) (\<lambda>r. returns (last_occupied_in_line t (p_line r))
      (\<lambda>o2. in_grid (t_dims t) (case o2 of Some q \<Rightarrow> q | None \<Rightarrow> r)))"
  proof (rule returns_mono [OF down_wraps_returns [OF t w q]], elim conjE)
    fix r assume r: "in_grid (t_dims t) r"
    show "returns (last_occupied_in_line t (p_line r)) (\<lambda>o2. in_grid (t_dims t) (case o2 of Some q \<Rightarrow> q | None \<Rightarrow> r))"
      by (rule returns_mono [OF occupied_in_line_returns(2) [OF t]])
        (use r in \<open>auto simp: in_grid_def split: option.splits\<close>)
  qed
  show "returns (last_occupied_in_line t (p_line q)) (\<lambda>o1. returns
     (let occupied = (case o1 of Some q \<Rightarrow> q | None \<Rightarrow> default_point) in
      if p_column q < p_column occupied then Some occupied
      else do {
        w \<leftarrow> is_wrap t q;
        if w then do {
          p \<leftarrow> down_wraps t q;
          o2 \<leftarrow> last_occupied_in_line t (p_line p);
          Some (case o2 of Some q \<Rightarrow> q | None \<Rightarrow> p)
        }
        else Some (Point (p_line q) (last_column (t_dims t)))
      }) (in_grid (t_dims t)))"
    by (rule returns_mono [OF occupied_in_line_returns(2) [OF t line]])
      (use wrapped in_grid_line(2) [OF t line] in
        \<open>auto simp: is_wrap_eq [OF t q] Let_def default_point_def split: option.splits\<close>)
qed

lemma occupied_above_returns:
  assumes t: "wf_term t" and o1: "\<And>q. occ = Some q \<Longrightarrow> in_grid (t_dims t) q"
    and ls: "\<And>l. l \<in> set ls \<Longrightarrow> topmost_line (t_dims t) \<le> l \<and> l \<le> bottommost_line (t_dims t)"
  shows "returns (occupied_above t ls occ) (\<lambda>r. case r of None \<Rightarrow> True | Some q \<Rightarrow> in_grid (t_dims t) q)"
  using o1 ls
proof (induction ls arbitrary: occ)
  case Nil
  then show ?case by (auto split: option.splits)
next
  case (Cons l ls)
  have l: "topmost_line (t_dims t) \<le> l" "l \<le> bottommost_line (t_dims t)" using Cons.prems(2) by auto
  have "returns (first_occupied_in_line t l) (\<lambda>o1. returns (occupied_above t ls (case o1 of Some q \<Rightarrow> Some q | None \<Rightarrow> occ))
      (\<lambda>r. case r of None \<Rightarrow> True | Some q \<Rightarrow> in_grid (t_dims t) q))"
    by (rule returns_mono [OF occupied_in_line_returns(1) [OF t l]], rule Cons.IH)
      (use Cons.prems in \<open>auto split: option.splits\<close>)
  moreover have "case occ of None \<Rightarrow> True | Some q \<Rightarrow> in_grid (t_dims t) q"
    using Cons.prems(1) by (auto split: option.splits)
  ultimately show ?case by (simp add: is_wrap_eq [OF t in_grid_line(2) [OF t l]])
qed

lemma occupied_below_returns:
  assumes t: "wf_term t" and w: "wide_ok t" and l: "topmost_line (t_dims t) \<le> l" "l \<le> bottommost_line (t_dims t)"
  shows "returns (occupied_below t l) (in_grid (t_dims t))"
  using l
proof (induction "nat (bottommost_line (t_dims t) - l)" arbitrary: l rule: less_induct)
  case less
  let ?c = "Point l (last_column (t_dims t))"
  have c: "in_grid (t_dims t) ?c" by (rule in_grid_line(2) [OF t less.prems])
  have IH: "returns (occupied_below t (l + 1)) (in_grid (t_dims t))" if "fl_contains (c_flags (g_cell (t_grid t) ?c)) WRAPLINE"
  proof -
    have "l + 1 \<le> bottommost_line (t_dims t)" using wrap_below [OF w c that] by (simp add: in_grid_def)
    then show ?thesis using less.hyps [of "l + 1"] less.prems by simp
  qed
  show ?case
    unfolding occupied_below.simps [of t l] returns_bind
    by (rule returns_mono [OF occupied_in_line_returns(1) [OF t less.prems]])
      (use c IH in \<open>auto simp: is_wrap_eq [OF t c] split: option.splits\<close>)
qed

lemma first_occupied_returns:
  assumes t: "wf_term t" and w: "wide_ok t" and p: "in_grid (t_dims t) p"
  shows "returns (first_occupied t p) (in_grid (t_dims t))"
  unfolding first_occupied_def returns_bind
proof (rule returns_mono [OF expand_wide_returns [OF t w p]])
  fix q assume q: "in_grid (t_dims t) q"
  have line: "topmost_line (t_dims t) \<le> p_line q" "p_line q \<le> bottommost_line (t_dims t)" using q by (auto simp: in_grid_def)
  have "returns (occupied_above t (rev (irange (topmost_line (t_dims t)) (p_line q))) None)
      (\<lambda>o2. returns (case o2 of Some q \<Rightarrow> Some q | None \<Rightarrow> occupied_below t (p_line q)) (in_grid (t_dims t)))"
    by (rule returns_mono [OF occupied_above_returns [OF t]])
      (use line occupied_below_returns [OF t w line] in \<open>auto split: option.splits\<close>)
  then show "returns (first_occupied_in_line t (p_line q)) (\<lambda>o1. returns
     (let occupied = (case o1 of Some q \<Rightarrow> q | None \<Rightarrow> Point (p_line q) (last_column (t_dims t))) in
      if q = occupied
      then do {
        o2 \<leftarrow> occupied_above t (rev (irange (topmost_line (t_dims t)) (p_line q))) None;
        case o2 of Some q \<Rightarrow> Some q | None \<Rightarrow> occupied_below t (p_line q)
      }
      else Some occupied) (in_grid (t_dims t)))"
    by (intro returns_mono [OF occupied_in_line_returns(1) [OF t line]])
      (use in_grid_line(2) [OF t line] in \<open>auto simp: Let_def split: option.splits\<close>)
qed

lemma first_wraps_returns:
  assumes t: "wf_term t" and p: "in_grid (t_dims t) p"
  shows "returns (first_wraps t p) (\<lambda>q. in_grid (t_dims t) q \<and> p_line q \<le> p_line p)"
  using p
proof (induction "nat (p_line p - topmost_line (t_dims t))" arbitrary: p rule: less_induct)
  case less
  show ?case
  proof (cases "p_column p = 0 \<and> p_line p > topmost_line (t_dims t)")
    case True
    let ?q = "Point (p_line p - 1) (p_column p)" and ?c = "Point (p_line p - 1) (last_column (t_dims t))"
    have q: "in_grid (t_dims t) ?q" "in_grid (t_dims t) ?c"
      using less.prems True wf_cols [OF t] by (auto simp: in_grid_def last_column_def)
    have "returns (first_wraps t ?q) (\<lambda>r. in_grid (t_dims t) r \<and> p_line r \<le> p_line ?q)"
      by (rule less.hyps) (use q(1) True in auto)
    then have "returns (first_wraps t ?q) (\<lambda>r. in_grid (t_dims t) r \<and> p_line r \<le> p_line p)"
      by (rule returns_mono) simp
    then show ?thesis using True less.prems by (simp add: first_wraps.simps [of t p] is_wrap_eq [OF t q(2)])
  next
    case False
    then show ?thesis unfolding first_wraps.simps [of t p] if_not_P [OF False] using less.prems by simp
  qed
qed

subsection \<open>The loops over a word\<close>

text \<open>The cells left to go in a direction.\<close>

definition to_go :: "dims \<Rightarrow> direction \<Rightarrow> point \<Rightarrow> nat" where
  "to_go d dir p = nat (if dir = DirLeft then lin d p - first_lin d else last_lin d - lin d p)"

lemma is_boundary_lin:
  assumes t: "wf_term t" and p: "in_grid (t_dims t) p"
  shows "is_boundary t p dir \<longleftrightarrow> to_go (t_dims t) dir p = 0"
proof -
  let ?d = "t_dims t"
  have wf: "wf_dims ?d" by (rule term_wf_dims [OF t])
  have b: "p_column p < columns ?d" "first_lin ?d \<le> lin ?d p" "lin ?d p \<le> last_lin ?d" using p in_grid_lin [OF wf] by blast+
  have c: "0 < columns ?d" using wf by (simp add: wf_dims_def)
  have ends: "p = Point (topmost_line ?d) 0 \<longleftrightarrow> lin ?d p = first_lin ?d"
    "p = Point (bottommost_line ?d) (last_column ?d) \<longleftrightarrow> lin ?d p = last_lin ?d"
    using first_last_point [OF wf] unlin_lin [OF b(1)] lin_unlin [OF c] by metis+
  have "is_boundary t p DirLeft \<longleftrightarrow> p = Point (topmost_line ?d) 0"
    "is_boundary t p DirRight \<longleftrightarrow> p = Point (bottommost_line ?d) (last_column ?d)"
    using p c by (cases p, auto simp: is_boundary_def in_grid_def last_column_def)+
  then show ?thesis using b ends by (cases dir) (auto simp: to_go_def)
qed

lemma advance_returns:
  assumes t: "wf_term t" and p: "in_grid (t_dims t) p"
  shows "in_grid (t_dims t) (advance t p dir)"
    "\<not> is_boundary t p dir \<Longrightarrow> to_go (t_dims t) dir (advance t p dir) < to_go (t_dims t) dir p"
proof -
  let ?d = "t_dims t"
  have wf: "wf_dims ?d" by (rule term_wf_dims [OF t])
  have c: "0 < columns ?d" using wf by (simp add: wf_dims_def)
  have ends: "lin ?d (Point (topmost_line ?d) 0) = first_lin ?d" "lin ?d (Point (bottommost_line ?d) (last_column ?d)) = last_lin ?d"
    using first_last_point [OF wf] lin_unlin [OF c] by metis+
  show "in_grid ?d (advance t p dir)" by (simp add: advance_def point_sub_in_grid point_add_in_grid wf)
  show "to_go ?d dir (advance t p dir) < to_go ?d dir p" if "\<not> is_boundary t p dir"
    using that is_boundary_lin [OF t p, of dir] point_add_lin [OF wf p, of 1] point_sub_lin [OF wf p, of 1]
    by (cases dir) (simp_all add: advance_def to_go_def ends)
qed

text \<open>Each loop stops at the boundary or where the cell it looks at is not of the kind it skips, and every cell it moved
  over is.\<close>

definition walk :: "terminal \<Rightarrow> direction \<Rightarrow> nat \<Rightarrow> point \<Rightarrow> point" where
  "walk t dir n p = ((\<lambda>q. advance t q dir) ^^ n) p"

lemma walk_simps [simp]: "walk t dir 0 p = p" "walk t dir n (advance t p dir) = walk t dir (Suc n) p"
  by (simp_all add: walk_def funpow_Suc_right del: funpow.simps(2))

lemma all_less_Suc_walk: "(\<forall>k<Suc n. P (walk t dir k p)) \<longleftrightarrow> P p \<and> (\<forall>k<n. P (walk t dir (Suc k) p))"
  by (auto simp: less_Suc_eq_0_disj)

lemma skip_here_returns:
  assumes t: "wf_term t" and p: "in_grid (t_dims t) p"
  shows "returns (skip_here t dir want p) (\<lambda>q. in_grid (t_dims t) q \<and> (is_boundary t q dir \<or> blank_at (t_grid t) q \<noteq> want)
     \<and> (\<exists>n. q = walk t dir n p \<and> (\<forall>k<n. blank_at (t_grid t) (walk t dir k p) = want)))"
  using p
proof (induction "to_go (t_dims t) dir p" arbitrary: p rule: less_induct)
  case less
  show ?case
  proof (cases "is_boundary t p dir \<or> blank_at (t_grid t) p \<noteq> want")
    case True
    have "skip_here t dir want p = Some p"
      using True by (auto simp: skip_here.simps [of t dir want p] is_space_eq [OF t less.prems])
    then show ?thesis using True less.prems by (auto intro!: exI [of _ 0])
  next
    case False
    let ?q = "advance t p dir"
    have eq: "skip_here t dir want p = skip_here t dir want ?q"
      using False by (simp add: skip_here.simps [of t dir want p] is_space_eq [OF t less.prems])
    have IH: "returns (skip_here t dir want ?q) (\<lambda>q. in_grid (t_dims t) q \<and> (is_boundary t q dir \<or> blank_at (t_grid t) q \<noteq> want)
      \<and> (\<exists>n. q = walk t dir n ?q \<and> (\<forall>k<n. blank_at (t_grid t) (walk t dir k ?q) = want)))"
      by (rule less.hyps) (use advance_returns [OF t less.prems] False in auto)
    have "\<exists>n. q = walk t dir n p \<and> (\<forall>k<n. blank_at (t_grid t) (walk t dir k p) = want)"
      if wq: "\<exists>n. q = walk t dir n ?q \<and> (\<forall>k<n. blank_at (t_grid t) (walk t dir k ?q) = want)" for q
    proof -
      obtain n where "q = walk t dir (Suc n) p" "\<forall>k<n. blank_at (t_grid t) (walk t dir (Suc k) p) = want" 
        using wq unfolding walk_simps(2) by blast
      then show ?thesis
        using False by (intro exI [of _ "Suc n"]) (simp add: all_less_Suc_walk [where P = "\<lambda>r. blank_at (t_grid t) r = want"])
    qed
    then show ?thesis unfolding eq by (intro returns_mono [OF IH]) blast
  qed
qed

lemma skip_next_returns:
  assumes t: "wf_term t" and p: "in_grid (t_dims t) p"
  shows "returns (skip_next t dir want p) (in_grid (t_dims t))"
  using p
proof (induction "to_go (t_dims t) dir p" arbitrary: p rule: less_induct)
  case less
  note adv = advance_returns [OF t less.prems, of dir]
  have "returns (skip_next t dir want (advance t p dir)) (in_grid (t_dims t))" if "\<not> is_boundary t p dir"
    by (rule less.hyps) (use adv that in auto)
  then show ?case
    using less.prems by (simp add: skip_next.simps [of t dir want p] is_space_eq [OF t adv(1)] Let_def)
qed

lemma expand_semantic_returns:
  assumes t: "wf_term t" and p: "in_grid (t_dims t) p"
  shows "returns (expand_semantic t dir p) (in_grid (t_dims t))"
  using p semantic_search_left_returns [OF t p] semantic_search_right_returns [OF t p]
  by (simp add: expand_semantic_def term_get [OF t])

lemma vi_semantic_returns:
  assumes t: "wf_term t" and w: "wide_ok t" and p: "in_grid (t_dims t) p"
  shows "returns (vi_semantic t p dir side) (in_grid (t_dims t))"
proof -
  let ?Q = "in_grid (t_dims t)"
  have 1: "returns (if dir \<noteq> side \<and> \<not> is_boundary t p dir then expand_semantic t dir p else Some p) ?Q"
    using expand_semantic_returns [OF t p] p by simp
  have 2: "returns (if \<not> is_boundary t q dir
           then if dir = DirLeft then expand_wide t (advance t q dir) dir else Some (advance t q dir)
           else Some q) ?Q" if "?Q q" for q
    using that advance_returns(1) [OF t that] expand_wide_returns [OF t w] by simp
  have 3: "returns (if dir = side \<and> \<not> is_boundary t q dir then expand_semantic t dir q else Some q) ?Q" if "?Q q" for q
    using that expand_semantic_returns [OF t that] by simp
  show ?thesis
    unfolding vi_semantic_def returns_bind
    by (rule returns_mono [OF 1], rule returns_mono [OF expand_wide_returns [OF t w]], assumption,
        rule returns_mono [OF skip_next_returns [OF t]], assumption, rule returns_mono [OF 2], assumption, rule 3)
qed

lemma vi_word_returns:
  assumes t: "wf_term t" and w: "wide_ok t" and p: "in_grid (t_dims t) p"
  shows "returns (vi_word t p dir side) (in_grid (t_dims t))"
proof -
  have nexts: "returns (skip_next t dir True q) (\<lambda>r. returns (skip_next t dir False r) (in_grid (t_dims t)))"
    if "in_grid (t_dims t) q" for q
    by (rule returns_mono [OF skip_next_returns [OF t that]], rule skip_next_returns [OF t])
  have here: "returns (skip_here t dir False q) (\<lambda>r. returns (skip_here t dir True r) (in_grid (t_dims t)))"
    if "in_grid (t_dims t) q" for q
    by (rule returns_mono [OF skip_here_returns [OF t that]], rule returns_mono [OF skip_here_returns [OF t]]) auto
  show ?thesis
    unfolding vi_word_def returns_bind returns_if
    by (rule returns_mono [OF expand_wide_returns [OF t w p]]) (simp only: nexts here if_cancel)
qed

subsection \<open>Every motion\<close>

lemma skip_find_clear_returns:
  assumes t: "wf_term t" and ls: "\<And>l. l \<in> set ls \<Longrightarrow> g_valid (t_grid t) l"
  shows "returns (skip_find_clear t b ls) (\<lambda>r. case r of None \<Rightarrow> True | Some l \<Rightarrow> l \<in> set ls)"
  using ls
proof (induction ls arbitrary: b)
  case Nil
  then show ?case by simp
next
  case (Cons l ls)
  have row: "grid_row (t_grid t) l = Some (g_row (t_grid t) l)"
    by (rule grid_row_get [OF wf_core [OF t]]) (use Cons.prems in simp)
  have IH: "returns (skip_find_clear t b' ls) (\<lambda>r. case r of None \<Rightarrow> True | Some m \<Rightarrow> m \<in> set (l # ls))" for b'
    by (rule returns_mono [OF Cons.IH]) (use Cons.prems in \<open>auto split: option.splits\<close>)
  show ?case
    by (cases "row_is_clear cell_is_empty (g_row (t_grid t) l)"; cases b)
      (simp_all only: skip_find_clear.simps row Option.bind.simps if_True if_False IH returns_Some option.case
        list.set_intros simp_thms)
qed

lemma paragraph_returns:
  assumes t: "wf_term t" and d: "topmost_line (t_dims t) \<le> dflt" "dflt \<le> bottommost_line (t_dims t)"
    and ls: "\<And>l. l \<in> set ls \<Longrightarrow> topmost_line (t_dims t) \<le> l \<and> l \<le> bottommost_line (t_dims t)"
  shows "returns (map_option (\<lambda>r. Point (case r of Some l \<Rightarrow> l | None \<Rightarrow> dflt) 0) (skip_find_clear t True ls)) (in_grid (t_dims t))"
  unfolding returns_map_option
  by (rule returns_mono [OF skip_find_clear_returns [OF t]])
    (use d ls wf_cols [OF t] in \<open>auto simp: g_valid_def grid_of_dims in_grid_def split: option.splits\<close>)

theorem motion_target_returns:
  assumes t: "wf_term t" and w: "wide_ok t" and p: "in_grid (t_dims t) p"
    and off: "g_display_offset (t_grid t) \<le> g_history_size (t_grid t)" and n: "2 \<le> g_lines (t_grid t)"
  shows "returns (motion_target t p m) (in_grid (t_dims t))"
proof -
  let ?d = "t_dims t" and ?o = "int (g_display_offset (t_grid t))" and ?n = "int (g_lines (t_grid t))"
  have hist: "topmost_line ?d \<le> - ?o" using off by (simp add: topmost_line_def grid_of_dims)
  have screen: "- ?o + k \<le> bottommost_line ?d" if "k < ?n" for k using that by (simp add: bottommost_line_def)
  have lines: "topmost_line ?d \<le> p_line p" "p_line p \<le> bottommost_line ?d" using p by (auto simp: in_grid_def)
  have view: "returns (column_in_line t (- ?o + k)) (in_grid ?d)" if "0 \<le> k" "k < ?n" for k
    using returns_mono [OF column_in_line_returns [OF t]] hist screen that by simp
  have left: "returns (motion_target t p Left) (in_grid ?d)"
    unfolding motion_target_def Let_def vi_motion.case returns_bind
    by (rule returns_mono [OF expand_wide_returns [OF t w p]])
      (use wf_cols [OF t] in \<open>auto simp: in_grid_def last_column_def is_wrap_eq [OF t]\<close>)
  have right: "returns (motion_target t p Right) (in_grid ?d)"
    unfolding motion_target_def Let_def vi_motion.case returns_bind
    by (rule returns_mono [OF expand_wide_returns [OF t w p]])
      (use wf_cols [OF t] wrap_below [OF w] in \<open>auto simp: in_grid_def last_column_def is_wrap_eq [OF t]\<close>)
  have first: "returns (motion_target t p First) (in_grid ?d)"
    unfolding motion_target_def Let_def vi_motion.case returns_bind
    by (rule returns_mono [OF expand_wide_returns [OF t w p]], rule returns_mono [OF first_wraps_returns [OF t]])
      (use wf_cols [OF t] in \<open>auto simp: in_grid_def\<close>)
  have bracket: "returns (motion_target t p Bracket) (in_grid ?d)"
    unfolding motion_target_def Let_def vi_motion.case returns_map_option
    by (rule returns_mono [OF matching_in_grid [OF t p]]) (use p in \<open>auto split: option.splits\<close>)
  have para: "returns (motion_target t p ParagraphUp) (in_grid ?d)" "returns (motion_target t p ParagraphDown) (in_grid ?d)"
    unfolding motion_target_def Let_def vi_motion.case by (rule paragraph_returns [OF t]; use lines in auto)+
  show ?thesis
  proof (cases m)
    case High then show ?thesis using view [of 0] n by (simp add: motion_target_def)
  next
    case Middle then show ?thesis using view [of "?n div 2 - 1"] n by (simp add: motion_target_def algebra_simps)
  next
    case Low then show ?thesis using view [of "?n - 1"] n by (simp add: motion_target_def algebra_simps)
  qed (use left right first bracket para p lines vi_last_returns [OF t w p] first_occupied_returns [OF t w p]
      vi_semantic_returns [OF t w p] vi_word_returns [OF t w p] in
      \<open>auto simp: motion_target_def Let_def in_grid_def bottommost_line_def\<close>)
qed

subsection \<open>The motion and the viewport\<close>

lemma recompute_sel [simp]:
  "t_grid (vi_mode_recompute_selection t) = t_grid t" "t_mode (vi_mode_recompute_selection t) = t_mode t"
  "t_vi_cursor (vi_mode_recompute_selection t) = t_vi_cursor t" "wf_term (vi_mode_recompute_selection t) = wf_term t"
  by (simp_all add: vi_mode_recompute_selection_def)

lemma event_sel [simp]: "t_grid (send_event e t) = t_grid t" "t_mode (send_event e t) = t_mode t"
  by (simp_all add: send_event_def)

lemma full_damage_sel [simp]: "t_mode (mark_fully_damaged t) = t_mode t"
  by (simp add: mark_fully_damaged_def)

lemma scroll_display_grid:
  "t_grid (scroll_display sc t) = grid_scroll_display sc (t_grid t)" "t_mode (scroll_display sc t) = t_mode t"
  by (simp_all add: scroll_display_def Let_def)

text \<open>Only the display offset of the grid changes, and the line of the point is visible afterwards.\<close>

definition line_visible :: "grid \<Rightarrow> int \<Rightarrow> bool" where
  "line_visible g l \<longleftrightarrow> - int (g_display_offset g) \<le> l \<and> l < int (g_lines g) - int (g_display_offset g)"

lemma scroll_to_point_visible:
  assumes t: "wf_term t" and p: "in_grid (t_dims t) p"
    and off: "g_display_offset (t_grid t) \<le> g_history_size (t_grid t)"
  shows "wf_term (scroll_to_point p t)" "t_mode (scroll_to_point p t) = t_mode t"
    "\<exists>off'. t_grid (scroll_to_point p t) = (t_grid t)\<lparr>g_display_offset := off'\<rparr> \<and> off' \<le> g_history_size (t_grid t)
       \<and> line_visible ((t_grid t)\<lparr>g_display_offset := off'\<rparr>) (p_line p)"
proof -
  show "wf_term (scroll_to_point p t)" "t_mode (scroll_to_point p t) = t_mode t"
    using t by (simp_all add: scroll_to_point_def scroll_display_wf scroll_display_grid Let_def)
  have l: "- int (g_history_size (t_grid t)) \<le> p_line p" "p_line p < int (g_lines (t_grid t))"
    using p by (simp_all add: in_grid_def topmost_line_def bottommost_line_def grid_of_dims)
  have self: "t_grid t = (t_grid t)\<lparr>g_display_offset := g_display_offset (t_grid t)\<rparr>" by simp
  show "\<exists>off'. t_grid (scroll_to_point p t) = (t_grid t)\<lparr>g_display_offset := off'\<rparr> \<and> off' \<le> g_history_size (t_grid t)
       \<and> line_visible ((t_grid t)\<lparr>g_display_offset := off'\<rparr>) (p_line p)"
  proof (cases "line_visible (t_grid t) (p_line p)")
    case True
    then have "scroll_to_point p t = t" by (simp add: scroll_to_point_def line_visible_def)
    then show ?thesis using True off self by metis
  next
    case False
    let ?o = "int (g_display_offset (t_grid t))" and ?n = "int (g_lines (t_grid t))"
    define k where "k = (if p_line p < - ?o then - (p_line p + ?o) else - (p_line p + ?o - ?n + 1))"
    have "scroll_to_point p t = scroll_display (Delta k) t"
      using False by (auto simp: scroll_to_point_def line_visible_def k_def)
    moreover have "line_visible ((t_grid t)\<lparr>g_display_offset := scroll_target (t_grid t) (Delta k)\<rparr>) (p_line p)"
      using l False off wf_lines [OF t] by (auto simp: line_visible_def k_def min_def)
    ultimately show ?thesis by (auto simp: scroll_display_grid grid_scroll_display_def)
  qed
qed

theorem vi_motion_returns:
  assumes t: "wf_term t" and w: "wide_ok t" and p: "in_grid (t_dims t) (t_vi_cursor t)" and vi: "has_mode t VI"
    and off: "g_display_offset (t_grid t) \<le> g_history_size (t_grid t)" and n: "2 \<le> g_lines (t_grid t)"
  shows "returns (term_vi_motion m t) (\<lambda>t'. wf_term t' \<and> in_grid (t_dims t') (t_vi_cursor t')
     \<and> line_visible (t_grid t') (p_line (t_vi_cursor t'))
     \<and> (\<exists>off'. t_grid t' = (t_grid t)\<lparr>g_display_offset := off'\<rparr> \<and> off' \<le> g_history_size (t_grid t)))"
proof -
  have step: "wf_term t' \<and> in_grid (t_dims t') (t_vi_cursor t') \<and> line_visible (t_grid t') (p_line (t_vi_cursor t'))
     \<and> (\<exists>off'. t_grid t' = (t_grid t)\<lparr>g_display_offset := off'\<rparr> \<and> off' \<le> g_history_size (t_grid t))"
    if q: "in_grid (t_dims t) q" and t': "t' = vi_mode_recompute_selection ((scroll_to_point q t)\<lparr>t_vi_cursor := q\<rparr>)" for q t'
  proof -
    note v = scroll_to_point_visible [OF t q off]
    have sel: "t_grid t' = t_grid (scroll_to_point q t)" "t_vi_cursor t' = q" "wf_term t' = wf_term (scroll_to_point q t)"
      by (simp_all add: t')
    have "in_grid (t_dims t') q" using q v(3) by (auto simp: t_dims_def sel(1) grid_dims_def)
    then show ?thesis using v(1,3) unfolding sel by auto
  qed
  show ?thesis
    unfolding term_vi_motion_def vi_cursor_motion_def
    by (simp only: vi simp_thms if_False returns_bind returns_Some prod.case)
      (rule returns_mono [OF motion_target_returns [OF t w p off n] step [OF _ refl]])
qed

text \<open>Where a line below is missing: on a wrapped last line the motion to the right leaves the grid, and the terminal
  can then not be rendered.\<close>

lemma motion_right_leaves_grid:
  assumes t: "wf_term t" and vi: "has_mode t VI" and p: "t_vi_cursor t = Point (bottommost_line (t_dims t)) (last_column (t_dims t))"
    and f: "fl_contains (c_flags (g_cell (t_grid t) (t_vi_cursor t))) WRAPLINE"
      "\<not> fl_contains (c_flags (g_cell (t_grid t) (t_vi_cursor t))) LEADING_WIDE_CHAR_SPACER"
      "\<not> fl_contains (c_flags (g_cell (t_grid t) (t_vi_cursor t))) WIDE_CHAR"
  shows "returns (term_vi_motion Right t) (\<lambda>t'. wf_term t' \<and> renderable_cursor_new t' = None)"
proof -
  let ?q = "Point (bottommost_line (t_dims t) + 1) 0"
  have ig: "in_grid (t_dims t) (t_vi_cursor t)"
    using in_grid_line(2) [OF t, of "bottommost_line (t_dims t)"] term_wf_dims [OF t] by (simp add: p dims_defs)
  have "expand_wide t (t_vi_cursor t) DirRight = Some (t_vi_cursor t)"
    using f by (simp add: expand_wide_def term_get [OF t ig])
  then have target: "motion_target t (t_vi_cursor t) Right = Some ?q"
    using f(1) is_wrap_eq [OF t ig] by (simp add: motion_target_def Let_def p)
  define t' where "t' = vi_mode_recompute_selection ((scroll_to_point ?q t)\<lparr>t_vi_cursor := ?q\<rparr>)"
  have eq: "term_vi_motion Right t = Some t'"
    unfolding term_vi_motion_def vi_cursor_motion_def using vi target by (simp add: t'_def)
  have wf: "wf_term t'" using t
    by (simp add: t'_def scroll_to_point_def scroll_display_wf Let_def)
  have st: "t_vi_cursor t' = ?q" "t_mode t' = t_mode t" "g_lines (t_grid t') = g_lines (t_grid t)"
    by (simp_all add: t'_def scroll_to_point_def scroll_display_grid
        grid_scroll_display_def Let_def)
  have "grid_row (t_grid t') (bottommost_line (t_dims t) + 1) = None"
    by (rule grid_row_None [OF wf_core [OF wf]]) (simp add: g_valid_def bottommost_line_def st(3))
  then have "renderable_cursor_new t' = None"
    using vi st(2) by (simp add: renderable_cursor_new_def has_mode_def st(1) grid_get_def Let_def)
  then show ?thesis using eq wf by simp
qed

end
