(* ===== verification/Props_Text.thy ===== *)
theory Props_Text
  imports Demo Term_Typing Vi_Mode
begin

text \<open>
  The properties of what the user interface reads from the terminal: text, selections, searches, the iterator over the
  viewport, the content handed to the renderer, and the vi mode cursor.
\<close>

subsection \<open>Concrete states\<close>

lemma demo_dims: "t_dims demo_term = \<lparr>total_lines = 3, screen_lines = 3, columns = 4\<rparr>"
proof -
  have "3 \<le> st_len (g_raw (t_grid demo_term))"
    using term_wf_dims [OF demo_wf] by (simp add: wf_dims_def demo_simps)
  moreover have "g_history_size (t_grid demo_term) = 0" using demo_grid by simp
  ultimately show ?thesis by (simp add: t_dims_def grid_dims_def history_size_def demo_simps)
qed

lemma demo_in_grid: "in_grid (t_dims demo_term) (Point l c) \<longleftrightarrow> 0 \<le> l \<and> l \<le> 2 \<and> c < 4"
  by (simp add: demo_dims in_grid_def dims_defs)

lemma demo_narrow: "narrow_line (t_grid demo_term) 0"
proof -
  have "g_cell (t_grid demo_term) (Point 0 c) = default_cell" if "c < 4" for c
    by (rule demo_cell) (use that demo_in_grid [of 0 c] in \<open>simp add: grid_of_dims\<close>)
  then show ?thesis by (simp add: narrow_line_def demo_simps default_cell_def fl_intersects_def)
qed

lemma demo_plain: "plain_template (cu_template (t_cursor demo_term))"
  by (simp add: demo_simps default_cursor_def plain_template_def default_cell_def fl_intersects_def fl_contains_def
      zerowidth_def flag_simps)

text \<open>The terminal with one cell replaced.\<close>

definition demo_put :: "point \<Rightarrow> cell \<Rightarrow> terminal \<Rightarrow> terminal option" where
  "demo_put p x = on_grid (grid_mod p (\<lambda>_. x))"

lemma demo_put_returns:
  assumes t: "wf_term t" and p: "in_grid (t_dims t) p"
  shows "returns (demo_put p x t) (cells_step ((g_cell (t_grid t))(p := x)) t)"
  unfolding demo_put_def using grid_mod_step [OF cells_step_refl [OF t], of p "\<lambda>_. x"] p by (simp add: t_dims_def)

subsection \<open>Text\<close>



text \<open>Copying a block selection that was dragged down the last column, from the right half of a cell to the left half
  of a cell below it, panics: the range starts one column past the grid and the row is indexed out of bounds.\<close>

theorem copy_block_at_edge_panics:
  assumes "wf_term t" "t_selection t = Some s" "sel_ty s = Block" "an_side (sel_start s) = DirRight" "an_side (sel_end s) = DirLeft"
    and "an_point (sel_start s) = Point l (last_column (t_dims t))" "an_point (sel_end s) = Point m (last_column (t_dims t))"
    and "topmost_line (t_dims t) \<le> l" "l < m" "m \<le> bottommost_line (t_dims t)"
  shows "selection_to_string t = None"
  by (rule copy_block_last_column [OF assms(2-10) assms(1)])

theorem copy_block_at_edge_witness:
  "selection_to_string (demo_term\<lparr>t_selection := Some \<lparr>sel_ty = Block, sel_start = \<lparr>an_point = Point 0 3, an_side = DirRight\<rparr>,
     sel_end = \<lparr>an_point = Point 1 3, an_side = DirLeft\<rparr>\<rparr>\<rparr>) = None"
proof -
  let ?s = "\<lparr>sel_ty = Block, sel_start = \<lparr>an_point = Point 0 3, an_side = DirRight\<rparr>,
     sel_end = \<lparr>an_point = Point 1 3, an_side = DirLeft\<rparr>\<rparr>"
  have d: "t_dims (demo_term\<lparr>t_selection := Some ?s\<rparr>) = t_dims demo_term" by (simp add: t_dims_def)
  show ?thesis
    by (rule copy_block_at_edge_panics [where s = ?s and l = 0 and m = 1])
      (unfold d, simp_all add: demo_dims dims_defs)
qed

subsection \<open>Selections and rendering\<close>



text \<open>Deleting a character can leave half of a wide character under the cursor in the first column; the terminal
  can then not be rendered, because the column of the cursor is decremented below zero.\<close>

theorem delete_half_wide_breaks_rendering:
  assumes "wf_term t" "p_column (cu_point (t_cursor t)) = 0" "3 \<le> g_columns (t_grid t)" "\<not> has_mode t VI"
    and "fl_contains (c_flags (g_cell (t_grid t) (Point (p_line (cu_point (t_cursor t))) 1))) WIDE_CHAR_SPACER"
  shows "returns (delete_chars 1 t) (\<lambda>t'. wf_term t' \<and> renderable_cursor_new t' = None)"
  by (rule delete_half_wide [OF assms(1,2,3,5,4)])

theorem delete_half_wide_witness:
  "returns (demo_put (Point 0 1) (default_cell\<lparr>c_flags := WIDE_CHAR_SPACER\<rparr>) demo_term)
     (\<lambda>t. returns (delete_chars 1 t) (\<lambda>t'. renderable_cursor_new t' = None))"
proof (rule returns_mono [OF demo_put_returns [OF demo_wf]])
  fix t assume s: "cells_step ((g_cell (t_grid demo_term))(Point 0 1 := default_cell\<lparr>c_flags := WIDE_CHAR_SPACER\<rparr>)) demo_term t"
  note d = cells_stepD [OF s]
  have "g_cell (t_grid t) (Point 0 1) = default_cell\<lparr>c_flags := WIDE_CHAR_SPACER\<rparr>"
    using cells_post_cell [OF d(3), of "Point 0 1"] demo_in_grid [of 0 1] by (simp add: grid_of_dims)
  moreover have "\<not> has_mode t VI"
    using t_frameD(10) [OF d(2), of VI] by (simp add: has_mode_def demo_simps default_mode_def fl_contains_def flag_simps)
  ultimately show "returns (delete_chars 1 t) (\<lambda>t'. renderable_cursor_new t' = None)"
    by (intro returns_mono [OF delete_half_wide_breaks_rendering [OF d(1)]])
      (simp_all add: d(4,6) demo_simps default_cursor_def default_point_def fl_contains_def)
qed (use demo_in_grid in simp)

subsection \<open>Searches\<close>

text \<open>C20: The bracket search returns the first bracket, in the direction the bracket under the point opens, at which the
  number of closing brackets exceeds the number of opening ones, and nothing if there is none.\<close>

theorem bracket_search_finds_match:
  assumes "wf_term t" "in_grid (t_dims t) p"
    and "find_bracket (c_char (g_cell (t_grid t) p)) BRACKET_PAIRS = Some (forward, e)"
  shows "returns (bracket_search t p) (matching_bracket (c_char (g_cell (t_grid t) p)) e
    (if forward then cells_after (t_grid t) p else cells_before (t_grid t) p))"
  by (rule bracket_search_returns [OF assms])

theorem bracket_search_witness:
  "returns (demo_put (Point 0 1) (default_cell\<lparr>c_char := 40\<rparr>) demo_term)
     (\<lambda>t. returns (bracket_search t (Point 0 1)) (matching_bracket 40 41 (cells_after (t_grid t) (Point 0 1))))"
proof (rule returns_mono [OF demo_put_returns [OF demo_wf]])
  fix t assume s: "cells_step ((g_cell (t_grid demo_term))(Point 0 1 := default_cell\<lparr>c_char := 40\<rparr>)) demo_term t"
  note d = cells_stepD [OF s]
  have c: "c_char (g_cell (t_grid t) (Point 0 1)) = 40"
    using cells_post_cell [OF d(3), of "Point 0 1"] demo_in_grid [of 0 1] by (simp add: grid_of_dims)
  have g: "in_grid (t_dims t) (Point 0 1)" using d(5) demo_in_grid [of 0 1] by simp
  have b: "find_bracket (c_char (g_cell (t_grid t) (Point 0 1))) BRACKET_PAIRS = Some (True, 41)"
    unfolding c by (simp add: BRACKET_PAIRS_def)
  show "returns (bracket_search t (Point 0 1)) (matching_bracket 40 41 (cells_after (t_grid t) (Point 0 1)))"
    using bracket_search_finds_match [OF d(1) g b] unfolding c if_True .
qed (use demo_in_grid in simp)

text \<open>The inline searches stop at the nearest of the given characters on the same logical line, in either direction,
  skipping the spacers of wide characters, and otherwise report the end of that line: the first cell after, or the
  last cell before, a line break, or the end of the grid.\<close>

theorem inline_search_finds_nearest:
  assumes "wf_term t" "in_grid (t_dims t) p"
  shows "returns (inline_search_left t p ns) (found_left (t_grid t) ns p)
    \<and> returns (inline_search_right t p ns) (found_right (t_grid t) ns p)"
  using inline_search_left_returns [OF assms] inline_search_right_returns [OF assms] by blast

theorem inline_search_witness:
  "returns (inline_search_left demo_term (Point 1 2) [65]) (found_left (t_grid demo_term) [65] (Point 1 2))"
  using inline_search_finds_nearest [OF demo_wf, of "Point 1 2" "[65]"] demo_in_grid [of 1 2] by simp

text \<open>The display iterator yields the cells of exactly the lines shown in the viewport, row by row and column by
  column, when the display is scrolled back no further than the history.\<close>

theorem display_iterator_yields_viewport:
  assumes "grid_core_ok g" "g_display_offset g \<le> g_history_size g"
  shows "next_loop g (\<lambda>cs p x. Inl (cs @ [(p, x)])) [] (display_iter g) = Some (Inl
     (concat (map (row_cells g) (irange (- int (g_display_offset g)) (int (g_lines g) - int (g_display_offset g)))))
       :: (point \<times> cell) list + unit)"
proof -
  have loop: "cell_loop (\<lambda>cs p x. Inl (cs @ [(p, x)])) acc cs = (Inl (acc @ cs) :: (point \<times> cell) list + unit)"
    for acc cs :: "(point \<times> cell) list"
    by (induction cs arbitrary: acc) auto
  show ?thesis unfolding display_iter_loop [OF assms] loop by simp
qed

theorem display_iterator_witness:
  "next_loop (t_grid demo_term) (\<lambda>cs p x. Inl (cs @ [(p, x)])) [] (display_iter (t_grid demo_term)) =
     Some (Inl (concat (map (row_cells (t_grid demo_term)) (irange 0 3))) :: (point \<times> cell) list + unit)"
  using display_iterator_yields_viewport [of "t_grid demo_term"] wf_core [OF demo_wf] by (simp add: demo_simps)

subsection \<open>Vi mode\<close>



text \<open>On a wrapped last line, which scrolling regions and line insertion can produce, the motion to the right leaves
  the grid at its bottom, and the terminal can then not be rendered.\<close>

theorem vi_right_leaves_grid:
  assumes "wf_term t" "has_mode t VI" "t_vi_cursor t = Point (bottommost_line (t_dims t)) (last_column (t_dims t))"
    and "fl_contains (c_flags (g_cell (t_grid t) (t_vi_cursor t))) WRAPLINE"
      "\<not> fl_contains (c_flags (g_cell (t_grid t) (t_vi_cursor t))) LEADING_WIDE_CHAR_SPACER"
      "\<not> fl_contains (c_flags (g_cell (t_grid t) (t_vi_cursor t))) WIDE_CHAR"
  shows "returns (term_vi_motion Right t) (\<lambda>t'. wf_term t' \<and> renderable_cursor_new t' = None)"
  by (rule motion_right_leaves_grid [OF assms])

theorem vi_right_witness:
  "returns (demo_put (Point 2 3) (default_cell\<lparr>c_flags := WRAPLINE\<rparr>) (demo_term\<lparr>t_mode := VI, t_vi_cursor := Point 2 3\<rparr>))
     (\<lambda>t. returns (term_vi_motion Right t) (\<lambda>t'. renderable_cursor_new t' = None))"
proof (rule returns_mono_eq [OF demo_put_returns])
  let ?t = "demo_term\<lparr>t_mode := VI, t_vi_cursor := Point 2 3\<rparr>"
  show "wf_term ?t" by simp
  show "in_grid (t_dims ?t) (Point 2 3)" using demo_in_grid [of 2 3] by (simp add: t_dims_def)
  fix t assume t: "demo_put (Point 2 3) (default_cell\<lparr>c_flags := WRAPLINE\<rparr>) ?t = Some t"
    and s: "cells_step ((g_cell (t_grid ?t))(Point 2 3 := default_cell\<lparr>c_flags := WRAPLINE\<rparr>)) ?t t"
  note d = cells_stepD [OF s]
  have dims: "t_dims t = t_dims demo_term" using d(5) by (simp add: t_dims_def)
  have "g_cell (t_grid t) (Point 2 3) = default_cell\<lparr>c_flags := WRAPLINE\<rparr>"
    using cells_post_cell [OF d(3), of "Point 2 3"] demo_in_grid [of 2 3] by (simp add: t_dims_def)
  moreover have "has_mode t VI" using t_frameD(10) [OF d(2), of VI] by (simp add: has_mode_def fl_contains_def)
  moreover have "t_vi_cursor t = Point 2 3" using t by (auto simp: demo_put_def on_grid_def)
  ultimately show "returns (term_vi_motion Right t) (\<lambda>t'. renderable_cursor_new t' = None)"
    by (intro returns_mono [OF vi_right_leaves_grid [OF d(1)]])
      (simp_all add: dims demo_dims dims_defs fl_contains_def flag_simps)
qed

end
