(* ===== verification/Resize.thy ===== *)
theory Resize
  imports Term_Actions
begin

text \<open>
  Resizing with reflow: \<^verbatim>\<open>velacritty_terminal/src/grid/resize.rs\<close> and \<^verbatim>\<open>Term::resize\<close>.

  Rows are handled from the topmost (the last of the raw buffer) to the bottommost, whose buffer line is 0. In
  \<open>grow_columns\<close> the rows seen so far are on a stack whose last element is the most recent row; a row whose wrap mark
  says that it continues takes cells from the front of the next one. In \<open>shrink_columns\<close> the cells beyond the new width
  become a row of their own or are put in front of the next row.
\<close>

subsection \<open>Lines\<close>

definition cursor_line_add :: "int \<Rightarrow> cursor \<Rightarrow> cursor" where
  "cursor_line_add k c = c\<lparr>cu_point := Point (p_line (cu_point c) + k) (p_column (cu_point c))\<rparr>"

definition cursor_set_line :: "int \<Rightarrow> cursor \<Rightarrow> cursor" where
  "cursor_set_line l c = c\<lparr>cu_point := Point l (p_column (cu_point c))\<rparr>"

definition cursor_set_column :: "nat \<Rightarrow> cursor \<Rightarrow> cursor" where
  "cursor_set_column k c = c\<lparr>cu_point := Point (p_line (cu_point c)) k\<rparr>"

definition grow_lines :: "nat \<Rightarrow> grid \<Rightarrow> grid option" where
  "grow_lines target g = do {
     lines_added \<leftarrow> usub target (g_lines g);
     raw \<leftarrow> grow_visible_lines default_cell target (g_raw g);
     let g = g\<lparr>g_raw := raw, g_lines := target\<rparr>;
     let from_history = min (g_history_size g) lines_added;
     g \<leftarrow> (if from_history \<noteq> lines_added
           then grid_scroll_up (0, int target) (lines_added - from_history) g
           else Some g);
     let g = g\<lparr>g_saved_cursor := cursor_line_add (int from_history) (g_saved_cursor g),
               g_cursor := cursor_line_add (int from_history) (g_cursor g),
               g_display_offset := g_display_offset g - lines_added\<rparr>;
     decrease_scroll_limit lines_added g
   }"

definition shrink_lines :: "nat \<Rightarrow> grid \<Rightarrow> grid option" where
  "shrink_lines target g = do {
     line \<leftarrow> as_usize (p_line (cu_point (g_cursor g)));
     let required_scrolling = line + 1 - target;
     g \<leftarrow> (if required_scrolling > 0
           then do {
             g \<leftarrow> grid_scroll_up (0, int (g_lines g)) required_scrolling g;
             Some (g\<lparr>g_cursor := cursor_set_line (min (p_line (cu_point (g_cursor g))) (int target - 1)) (g_cursor g)\<rparr>)
           }
           else Some g);
     let g = g\<lparr>g_saved_cursor := cursor_set_line (min (p_line (cu_point (g_saved_cursor g))) (int target - 1)) (g_saved_cursor g)\<rparr>;
     removed \<leftarrow> usub (g_lines g) target;
     raw \<leftarrow> st_rotate (int removed) (g_raw g);
     raw \<leftarrow> shrink_visible_lines target raw;
     Some (g\<lparr>g_raw := raw, g_lines := target\<rparr>)
   }"

subsection \<open>More columns\<close>

definition wrapped_cell :: "cell \<Rightarrow> bool" where
  "wrapped_cell x \<longleftrightarrow> fl_contains (c_flags x) WRAPLINE"

definition insert_flag :: "flags \<Rightarrow> cell \<Rightarrow> cell" where
  "insert_flag f x = x\<lparr>c_flags := fl_insert (c_flags x) f\<rparr>"

definition remove_flag :: "flags \<Rightarrow> cell \<Rightarrow> cell" where
  "remove_flag f x = x\<lparr>c_flags := fl_remove (c_flags x) f\<rparr>"

definition leading_spacer :: cell where
  "leading_spacer = insert_flag LEADING_WIDE_CHAR_SPACER default_cell"

definition should_reflow :: "bool \<Rightarrow> nat \<Rightarrow> cell row \<Rightarrow> bool" where
  "should_reflow reflow cols r \<longleftrightarrow>
     reflow \<and> row_len r > 0 \<and> row_len r < cols \<and> wrapped_cell (row_inner r ! (row_len r - 1))"

text \<open>The cells the previous row takes from the front of a row: the rest of the row, the cells, and the number of columns
  taken.\<close>

definition take_front :: "nat \<Rightarrow> cell row \<Rightarrow> (cell row \<times> cell list \<times> nat) option" where
  "take_front num_wrapped r = do {
     let len = min (row_len r) num_wrapped;
     k \<leftarrow> usub len 1;
     x \<leftarrow> row_get r k;
     if fl_contains (c_flags x) WIDE_CHAR
     then do {
       n \<leftarrow> usub num_wrapped 1;
       (r, cells) \<leftarrow> row_front_split_off k r;
       Some (r, cells @ [leading_spacer], n)
     }
     else do {
       (r, cells) \<leftarrow> row_front_split_off len r;
       Some (r, cells, num_wrapped)
     }
   }"

text \<open>\<^verbatim>\<open>lines - cursor.point.line.0 as usize - 1\<close>\<close>

definition cursor_buffer_line :: "grid \<Rightarrow> nat option" where
  "cursor_buffer_line g = do {
     line \<leftarrow> as_usize (p_line (cu_point (g_cursor g)));
     n \<leftarrow> usub (g_lines g) line;
     usub n 1
   }"

text \<open>The end of an iteration of the reflow: the cursor, and whether the rest of the row is pushed (with the change of the
  cursor line) or dropped.\<close>

definition reflow_cursor :: "nat \<Rightarrow> nat \<Rightarrow> cell row \<Rightarrow> grid \<Rightarrow> (grid \<times> nat option) option" where
  "reflow_cursor i num_wrapped r g = do {
     cbl \<leftarrow> cursor_buffer_line g;
     let clear = row_is_clear cell_is_empty r;
     let c = g_cursor g;
     if i = cbl
     then do {
       let target = point_sub (grid_dims g) BCursor num_wrapped (cu_point c);
       let wrap = (p_column target = 0 \<and> clear);
       let target = (if wrap then point_sub (grid_dims g) BCursor 1 target else target);
       let g = g\<lparr>g_cursor := (cursor_set_column (p_column target) c)
                   \<lparr>cu_input_needs_wrap := (if wrap then True else cu_input_needs_wrap c)\<rparr>\<rparr>;
       let line_delta = p_line (cu_point c) - p_line target;
       if line_delta \<noteq> 0 \<and> clear then Some (g, None)
       else do { d \<leftarrow> as_usize line_delta; Some (g, Some d) }
     }
     else if clear
     then Some (g\<lparr>g_display_offset := (if i < g_display_offset g then g_display_offset g - 1 else g_display_offset g),
                  g_cursor := (if i < cbl then cursor_line_add 1 c else c)\<rparr>, None)
     else Some (g, Some 0)
   }"

type_synonym grow_state = "grid \<times> cell row list \<times> nat"

definition grow_step :: "bool \<Rightarrow> nat \<Rightarrow> nat \<times> cell row \<Rightarrow> grow_state \<Rightarrow> grow_state option" where
  "grow_step reflow cols ir st = do {
     let (i, r) = ir;
     let (g, reversed, delta) = st;
     if reversed = [] \<or> \<not> should_reflow reflow cols (last reversed) then Some (g, reversed @ [r], delta)
     else do {
       let last_row = row_mod_last (remove_flag WRAPLINE) (last reversed);
       let n = row_len last_row;
       let last_row = (if n \<ge> 1 \<and> fl_contains (c_flags (row_inner last_row ! (n - 1))) LEADING_WIDE_CHAR_SPACER
                       then fst (row_shrink cell_is_empty (n - 1) last_row) else last_row);
       num_wrapped \<leftarrow> usub cols (row_len last_row);
       (r, cells, num_wrapped) \<leftarrow> take_front num_wrapped r;
       let last_row = row_append cells last_row;
       (g, keep) \<leftarrow> reflow_cursor i num_wrapped r g;
       Some (case keep of
               None \<Rightarrow> (g, butlast reversed @ [last_row], delta)
             | Some d \<Rightarrow> (g, butlast reversed @ [row_mod_last (insert_flag WRAPLINE) last_row, r], delta + d))
     }
   }"

text \<open>\<^verbatim>\<open>if self.cursor.input_needs_wrap && reflow\<close>: the pending wrap becomes a cursor past the last column.\<close>

definition unwrap_cursor :: "bool \<Rightarrow> grid \<Rightarrow> grid" where
  "unwrap_cursor reflow g =
     (if cu_input_needs_wrap (g_cursor g) \<and> reflow
      then g\<lparr>g_cursor := (cursor_set_column (p_column (cu_point (g_cursor g)) + 1) (g_cursor g))\<lparr>cu_input_needs_wrap := False\<rparr>\<rparr>
      else g)"

definition enum_rev :: "'a list \<Rightarrow> (nat \<times> 'a) list" where
  "enum_rev xs = rev (zip [0..<length xs] xs)"

text \<open>After the loop: the viewport is filled, and lines are dropped below the cursor for those it moved up.\<close>

definition fill_viewport :: "nat \<Rightarrow> grow_state \<Rightarrow> grow_state option" where
  "fill_viewport cols st = do {
     let (g, reversed, delta) = st;
     if length reversed < g_lines g
     then do {
       let d = int (g_lines g - length reversed);
       let g = g\<lparr>g_cursor := cursor_set_line (max (p_line (cu_point (g_cursor g)) - d) 0) (g_cursor g)\<rparr>;
       reversed \<leftarrow> resize_rows default_cell (g_lines g) cols reversed;
       Some (g, reversed, delta)
     }
     else Some (g, reversed, delta)
   }"

definition drop_below_cursor :: "grow_state \<Rightarrow> (grid \<times> cell row list) option" where
  "drop_below_cursor st = do {
     let (g, reversed, delta) = st;
     if delta \<noteq> 0
     then do {
       cbl \<leftarrow> cursor_buffer_line g;
       extra \<leftarrow> usub (length reversed) (g_lines g);
       let available = min cbl extra;
       let overflow = delta - available;
       n \<leftarrow> usub (length reversed + overflow) delta;
       Some (g\<lparr>g_cursor := cursor_set_line (max (p_line (cu_point (g_cursor g)) - int overflow) 0) (g_cursor g)\<rparr>, take n reversed)
     }
     else Some (g, reversed)
   }"

definition grow_columns :: "bool \<Rightarrow> nat \<Rightarrow> grid \<Rightarrow> grid option" where
  "grow_columns reflow cols g = do {
     let g = unwrap_cursor reflow (g\<lparr>g_columns := cols\<rparr>);
     (rows, raw) \<leftarrow> take_all (g_raw g);
     st \<leftarrow> mfold (grow_step reflow cols) (enum_rev rows) (g\<lparr>g_raw := raw\<rparr>, [], 0);
     st \<leftarrow> fill_viewport cols st;
     (g, reversed) \<leftarrow> drop_below_cursor st;
     let g = g\<lparr>g_raw := replace_inner (map (row_grow default_cell cols) (rev reversed)) (g_raw g)\<rparr>;
     Some (g\<lparr>g_display_offset := min (g_display_offset g) (g_history_size g)\<rparr>)
   }"

subsection \<open>Fewer columns\<close>

text \<open>\<^verbatim>\<open>Insert spacer if a wide char would be wrapped into the last column\<close>\<close>

definition split_wide :: "nat \<Rightarrow> cell row \<Rightarrow> cell list \<Rightarrow> (cell row \<times> cell list) option" where
  "split_wide cols r wrapped =
     (if row_len r \<ge> cols
      then do {
        k \<leftarrow> usub cols 1;
        x \<leftarrow> row_get r k;
        if fl_contains (c_flags x) WIDE_CHAR
        then do { r \<leftarrow> row_mod k (\<lambda>_. leading_spacer) r; Some (r, x # wrapped) }
        else Some (r, wrapped)
      }
      else Some (r, wrapped))"

text \<open>\<^verbatim>\<open>Remove wide char spacer before shrinking\<close>: \<open>Inl\<close> if the spacer was all that was wrapped.\<close>

definition drop_spacer :: "cell list \<Rightarrow> unit + cell list" where
  "drop_spacer wrapped =
     (let len = length wrapped in
      if len > 0 \<and> fl_contains (c_flags (wrapped ! (len - 1))) LEADING_WIDE_CHAR_SPACER
      then if len = 1 then Inl ()
           else Inr (take (len - 1) (wrapped[len - 2 := insert_flag WRAPLINE (wrapped ! (len - 2))]))
      else Inr wrapped)"

definition continues :: "nat \<Rightarrow> nat \<Rightarrow> cell list \<Rightarrow> bool" where
  "continues i cols wrapped \<longleftrightarrow> wrapped \<noteq> [] \<and> wrapped_cell (last wrapped) \<and> i \<ge> 1 \<and> length wrapped < cols"

text \<open>\<^verbatim>\<open>Reflow cursor if a line below it is deleted\<close> and \<^verbatim>\<open>Reflow the cursor if it is on this line beyond the width\<close>\<close>

definition shrink_cursor :: "nat \<Rightarrow> nat \<Rightarrow> grid \<Rightarrow> grid option" where
  "shrink_cursor i cols g = do {
     cbl \<leftarrow> cursor_buffer_line g;
     let c = g_cursor g;
     let c = (if (i = cbl \<and> p_column (cu_point c) < cols) \<or> i < cbl
              then cursor_set_line (max (p_line (cu_point c) - 1) 0) c else c);
     let c = (if i = cbl \<and> p_column (cu_point c) \<ge> cols
              then cursor_set_column (p_column (cu_point c) - cols) c else c);
     Some (g\<lparr>g_cursor := c\<rparr>)
   }"

type_synonym shrink_state = "grid \<times> cell row list \<times> cell list option"

partial_function (option) shrink_row ::
    "bool \<Rightarrow> nat \<Rightarrow> nat \<Rightarrow> cell row \<Rightarrow> grid \<Rightarrow> cell row list \<Rightarrow> shrink_state option" where
  "shrink_row reflow cols i r g new_raw = do {
     let (r, rest) = row_shrink cell_is_empty cols r;
     wrapped \<leftarrow> (if reflow \<and> rest \<noteq> None then Some rest
       else do {
         cbl \<leftarrow> cursor_buffer_line g;
         Some (if reflow \<and> i = cbl \<and> p_column (cu_point (g_cursor g)) > cols then Some [] else None)
       });
     case wrapped of
       None \<Rightarrow> Some (g, new_raw @ [r], None)
     | Some wrapped \<Rightarrow> do {
         (r, wrapped) \<leftarrow> split_wide cols r wrapped;
         case drop_spacer wrapped of
           Inl _ \<Rightarrow> do {
             k \<leftarrow> usub cols 1;
             r \<leftarrow> row_mod k (insert_flag WRAPLINE) r;
             Some (g, new_raw @ [r], None)
           }
         | Inr wrapped \<Rightarrow> do {
             let new_raw = new_raw @ [row_mod_last (insert_flag WRAPLINE) r];
             if continues i cols wrapped
             then Some (g, new_raw, Some (wrapped[length wrapped - 1 := remove_flag WRAPLINE (last wrapped)]))
             else do {
               g \<leftarrow> shrink_cursor i cols g;
               let occ = length wrapped;
               let r = row_from_vec (wrapped @ replicate (cols - occ) default_cell) occ;
               let g = (if i < g_display_offset g then g\<lparr>g_display_offset := g_display_offset g + 1\<rparr> else g);
               shrink_row reflow cols i r g new_raw
             }
           }
       }
   }"

definition shrink_step :: "bool \<Rightarrow> nat \<Rightarrow> nat \<times> cell row \<Rightarrow> shrink_state \<Rightarrow> shrink_state option" where
  "shrink_step reflow cols ir st = do {
     let (i, r) = ir;
     let (g, new_raw, buffered) = st;
     (r, g) \<leftarrow> (case buffered of
         None \<Rightarrow> Some (r, g)
       | Some b \<Rightarrow> do {
           cbl \<leftarrow> cursor_buffer_line g;
           let g = (if i = cbl
                    then g\<lparr>g_cursor := cursor_set_column (p_column (cu_point (g_cursor g)) + length b) (g_cursor g)\<rparr>
                    else g);
           Some (row_append_front b r, g)
         });
     shrink_row reflow cols i r g new_raw
   }"

definition reflow_primary_cursor :: "bool \<Rightarrow> nat \<Rightarrow> grid \<Rightarrow> grid option" where
  "reflow_primary_cursor reflow cols g =
     (let c = g_cursor g in
      if \<not> reflow then do { k \<leftarrow> usub cols 1; Some (g\<lparr>g_cursor := cursor_set_column (min (p_column (cu_point c)) k) c\<rparr>) }
      else do {
        unwrapped \<leftarrow> (if p_column (cu_point c) = cols
                     then do {
                       k \<leftarrow> usub cols 1;
                       x \<leftarrow> grid_get g (Point (p_line (cu_point c)) k);
                       Some (\<not> wrapped_cell x)
                     }
                     else Some False);
        if unwrapped
        then do {
          k \<leftarrow> usub (p_column (cu_point c)) 1;
          Some (g\<lparr>g_cursor := (cursor_set_column k c)\<lparr>cu_input_needs_wrap := True\<rparr>\<rparr>)
        }
        else Some (g\<lparr>g_cursor := c\<lparr>cu_point := point_grid_clamp (grid_dims g) BCursor (cu_point c)\<rparr>\<rparr>)
      })"

definition shrink_columns :: "bool \<Rightarrow> nat \<Rightarrow> grid \<Rightarrow> grid option" where
  "shrink_columns reflow cols g = do {
     let g = unwrap_cursor reflow (g\<lparr>g_columns := cols\<rparr>);
     (rows, raw) \<leftarrow> take_all (g_raw g);
     (g, new_raw, _) \<leftarrow> mfold (shrink_step reflow cols) (enum_rev rows) (g\<lparr>g_raw := raw\<rparr>, [], None);
     let reversed = take (g_max_scroll_limit g + g_lines g) (rev new_raw);
     let g = g\<lparr>g_raw := replace_inner reversed (g_raw g)\<rparr>;
     let g = g\<lparr>g_display_offset := min (g_display_offset g) (g_history_size g)\<rparr>;
     g \<leftarrow> reflow_primary_cursor reflow cols g;
     k \<leftarrow> usub cols 1;
     Some (g\<lparr>g_saved_cursor := cursor_set_column (min (p_column (cu_point (g_saved_cursor g))) k) (g_saved_cursor g)\<rparr>)
   }"

subsection \<open>Grid and terminal\<close>

definition grid_resize :: "bool \<Rightarrow> nat \<Rightarrow> nat \<Rightarrow> grid \<Rightarrow> grid option" where
  "grid_resize reflow lines cols g = do {
     let template = cu_template (g_cursor g);
     let g = g\<lparr>g_cursor := (g_cursor g)\<lparr>cu_template := default_cell\<rparr>\<rparr>;
     g \<leftarrow> (if g_lines g < lines then grow_lines lines g
           else if g_lines g > lines then shrink_lines lines g else Some g);
     g \<leftarrow> (if g_columns g < cols then grow_columns reflow cols g
           else if g_columns g > cols then shrink_columns reflow cols g else Some g);
     Some (g\<lparr>g_cursor := (g_cursor g)\<lparr>cu_template := template\<rparr>\<rparr>)
   }"

text \<open>How far the content moves down: by the lines that are added or, when lines are removed, up only as far as the cursor
  has to.\<close>

definition resize_delta :: "nat \<Rightarrow> terminal \<Rightarrow> int" where
  "resize_delta num_lines t =
     (let delta = int num_lines - int (screen_lines (t_dims t));
          min_delta = min 0 (int num_lines - p_line (cu_point (t_cursor t)) - 1)
      in min (max delta min_delta) (int (history_size (t_dims t))))"

definition resize_grids :: "nat \<Rightarrow> nat \<Rightarrow> terminal \<Rightarrow> terminal option" where
  "resize_grids num_cols num_lines t = do {
     let is_alt = has_mode t ALT_SCREEN;
     active \<leftarrow> grid_resize (\<not> is_alt) num_lines num_cols (t_grid t);
     inactive \<leftarrow> grid_resize is_alt num_lines num_cols (t_inactive_grid t);
     Some (t\<lparr>t_grid := active, t_inactive_grid := inactive\<rparr>)
   }"

definition clamp_vi_to_viewport :: "terminal \<Rightarrow> terminal" where
  "clamp_vi_to_viewport t =
     (let vi = t_vi_cursor t;
          top = - int (g_display_offset (t_grid t));
          bottom = top + bottommost_line (t_dims t)
      in t\<lparr>t_vi_cursor := Point (max (min (p_line vi) bottom) top) (min (p_column vi) (last_column (t_dims t)))\<rparr>)"

definition resize_selection :: "nat \<Rightarrow> nat \<Rightarrow> int \<Rightarrow> terminal \<Rightarrow> terminal" where
  "resize_selection old_cols old_lines delta t =
     (let num_cols = columns (t_dims t); num_lines = screen_lines (t_dims t) in
      t\<lparr>t_selection := (if old_cols \<noteq> num_cols then None
           else t_selection t \<bind> selection_rotate (t_dims t) (0, int (max num_lines old_lines)) (- delta)),
        t_tabs := (if old_cols \<noteq> num_cols then tabs_resize num_cols (t_tabs t) else t_tabs t)\<rparr>)"

definition term_resize :: "nat \<Rightarrow> nat \<Rightarrow> terminal \<Rightarrow> terminal option" where
  "term_resize num_cols num_lines t =
     (let old_cols = columns (t_dims t); old_lines = screen_lines (t_dims t) in
      if old_cols = num_cols \<and> old_lines = num_lines then Some t
      else do {
        let delta = resize_delta num_lines t;
        t \<leftarrow> resize_grids num_cols num_lines (t\<lparr>t_vi_cursor := Point (p_line (t_vi_cursor t) + delta) (p_column (t_vi_cursor t))\<rparr>);
        let t = clamp_vi_to_viewport (resize_selection old_cols old_lines delta t);
        Some (t\<lparr>t_scroll_region := (0, int (screen_lines (t_dims t))), t_damage := damage_resize num_cols num_lines (t_damage t)\<rparr>)
      })"

end
