(* ===== verification/Resize_Safety.thy ===== *)
theory Resize_Safety
  imports Resize
begin

text \<open>
  Resizing returns, and what it keeps. Changing the number of lines keeps the invariant of the grid and moves rows as
  described; changing the number of columns keeps its shape: every row has the new width, the buffer holds at least
  the screen and at most the scrollback limit, the cursors are on the screen. (The occupied bound of a row, on which
  the optimised reset relies, is lost when a row grows.)
\<close>

subsection \<open>Lines\<close>

lemma grow_visible_returns:
  assumes g: "grid_core_ok g" and n: "g_lines g < target"
  shows "returns (grow_visible_lines default_cell target (g_raw g)) (\<lambda>raw. grid_core_ok (g\<lparr>g_raw := raw, g_lines := target\<rparr>)
     \<and> g_history_size (g\<lparr>g_raw := raw, g_lines := target\<rparr>) = g_history_size g
     \<and> (\<forall>l. g_valid g l \<longrightarrow> g_row (g\<lparr>g_raw := raw, g_lines := target\<rparr>) (l + int (target - g_lines g)) = g_row g l))"
proof -
  let ?R = "cell_row_ok (g_columns g)" and ?s = "g_raw g"
  have st: "storage_ok ?R ?s" "st_visible_lines ?s = g_lines g" "1 \<le> g_columns g" using g by (auto simp: grid_core_ok_def)
  have ring: "ring_ok ?R ?s" and len: "g_lines g \<le> st_len ?s" "1 \<le> g_lines g" using st by (auto simp: storage_ok_ring)
  have R: "?R \<lparr>row_inner = replicate (g_columns g) default_cell, row_occ = 0\<rparr>"
    using blank_row_ok [of "g_columns g" "Named Background"] by (simp add: blank_row_def default_cell_eq)
  have row: "st_get ?s 0 = Some (g_row g 0)"
    using grid_row_get [OF g g_screen_valid [OF g, of 0]] len by (simp add: grid_row_def)
  have cols: "row_len (g_row g 0) = g_columns g" by (simp add: row_len_def g_row_len [OF g])
  show ?thesis
    unfolding grow_visible_lines_def returns_bind returns_usub row returns_Some cols
  proof (intro conjI returns_mono [OF initialize_returns [OF ring st(3) R]])
    show "st_visible_lines ?s \<le> target" using n st(2) by simp
    fix raw
    assume a: "ring_ok ?R raw \<and> st_len raw = st_len ?s + (target - st_visible_lines ?s)
     \<and> st_visible_lines raw = st_visible_lines ?s \<and> length (st_inner ?s) \<le> length (st_inner raw)
     \<and> (\<forall>p < length (st_inner ?s). st_at raw p = st_at ?s p)"
    let ?g = "g\<lparr>g_raw := raw\<lparr>st_visible_lines := target\<rparr>, g_lines := target\<rparr>"
    have hist: "g_history_size ?g = g_history_size g" using a st len n by (simp add: history_size_def)
    have ok: "grid_core_ok ?g"
      using a g hist st len n by (auto simp: grid_core_ok_def storage_ok_def ring_ok_def)
    have rows: "g_row ?g (l + int (target - g_lines g)) = g_row g l" if "g_valid g l" for l
    proof -
      have "nat (int (g_lines g) - 1 - l) < length (st_inner ?s)"
        using g_valid_phys [OF g that] st(2) by (auto simp: phys_line_def)
      then have "st_at raw (nat (int (g_lines g) - 1 - l)) = st_at ?s (nat (int (g_lines g) - 1 - l))" using a by blast
      moreover have "int target - 1 - (l + int (target - g_lines g)) = int (g_lines g) - 1 - l" using n by simp
      ultimately have "st_at raw (nat (int target - 1 - (l + int (target - g_lines g)))) = st_at ?s (nat (int (g_lines g) - 1 - l))"
        by (simp only:)
      then show ?thesis by (simp add: g_row_def st_row_at st_at_def st(2))
    qed
    show "grid_core_ok ?g" by (rule ok)
    show "g_history_size ?g = g_history_size g" by (rule hist)
    show "\<forall>l. g_valid g l \<longrightarrow> g_row ?g (l + int (target - g_lines g)) = g_row g l" using rows by blast
  qed
qed

lemma grow_lines_returns:
  assumes g: "grid_core_ok g" and n: "g_lines g < target"
    and a: "a = target - g_lines g" and f: "f = min (g_history_size g) a"
  shows "returns (grow_lines target g) (\<lambda>g'. grid_core_ok g' \<and> g_lines g' = target \<and> g_columns g' = g_columns g
     \<and> g_max_scroll_limit g' = g_max_scroll_limit g \<and> g_history_size g' = g_history_size g - a
     \<and> g_cursor g' = cursor_line_add (int f) (g_cursor g) \<and> g_saved_cursor g' = cursor_line_add (int f) (g_saved_cursor g)
     \<and> (\<forall>l. g_valid g l \<and> g_valid g' (l + int f) \<longrightarrow> g_row g' (l + int f) = g_row g l)
     \<and> (\<forall>l. int (g_lines g) + int f \<le> l \<and> l < int target \<longrightarrow>
          g_row g' l = blank_row (g_columns g) (c_bg (cu_template (g_cursor g)))))"
proof -
  let ?b = "blank_row (g_columns g) (c_bg (cu_template (g_cursor g)))"
  let ?scroll = "\<lambda>g1. if f \<noteq> a then grid_scroll_up (0, int target) (a - f) g1 else Some g1"
  let ?fin = "\<lambda>g2. g2\<lparr>g_saved_cursor := cursor_line_add (int f) (g_saved_cursor g2),
               g_cursor := cursor_line_add (int f) (g_cursor g2), g_display_offset := g_display_offset g2 - a\<rparr>"
  have fa: "f \<le> a" "f \<le> g_history_size g" by (simp_all add: f)
  have scroll: "returns (?scroll g1) (\<lambda>g2. grid_core_ok g2 \<and> same_frame g1 g2
      \<and> g_history_size g2 - a = g_history_size g - a
      \<and> (\<forall>l. g_valid g2 l \<longrightarrow> g_row g2 l = (if l < int target - int (a - f) then g_row g1 (l + int (a - f)) else ?b)))"
    if g1: "grid_core_ok g1" "g_lines g1 = target" "g_columns g1 = g_columns g" "g_cursor g1 = g_cursor g"
      "g_history_size g1 = g_history_size g" for g1
  proof (cases "f = a")
    case True
    then show ?thesis using g1 by (auto simp: g_valid_iff)
  next
    case False
    have h: "g_history_size g < a" using False by (simp add: f min_def split: if_splits)
    have "returns (grid_scroll_up (0, int target) (a - f) g1) (\<lambda>g2. grid_core_ok g2 \<and> same_frame g1 g2
      \<and> g_history_size g2 - a = g_history_size g - a
      \<and> (\<forall>l. g_valid g2 l \<longrightarrow> g_row g2 l = (if l < int target - int (a - f) then g_row g1 (l + int (a - f)) else ?b)))"
    proof (rule returns_mono [OF scroll_up_top [OF g1(1)]])
      show "int (a - f) \<le> int target" "int target \<le> int (g_lines g1)" using a g1(2) by simp_all
      fix g2 assume p: "scroll_up_post 0 (int target) (a - f) g1 g2"
      have ok: "grid_core_ok g2" "same_frame g1 g2" using p by (auto simp: scroll_up_post_def)
      have hist: "g_history_size g2 = min (g_history_size g + (a - f)) (g_max_scroll_limit g1)"
        using p g1(5) by (simp add: scroll_up_post_def)
      have rows: "g_row g2 l = (if l < int target - int (a - f) then g_row g1 (l + int (a - f)) else ?b)" if "g_valid g2 l" for l
      proof -
        have "l < int target" using that g1(2) ok(2) by (simp add: g_valid_iff [OF ok(1)] same_frame_def)
        then show ?thesis using p that g1(3,4) by (simp add: scroll_up_post_def scrolled_up_def)
      qed
      show "grid_core_ok g2 \<and> same_frame g1 g2 \<and> g_history_size g2 - a = g_history_size g - a
        \<and> (\<forall>l. g_valid g2 l \<longrightarrow> g_row g2 l = (if l < int target - int (a - f) then g_row g1 (l + int (a - f)) else ?b))"
        using ok rows hist h f by (simp add: min_def)
    qed
    then show ?thesis using False by simp
  qed
  define D where "D g' \<longleftrightarrow> grid_core_ok g' \<and> g_lines g' = target \<and> g_columns g' = g_columns g
     \<and> g_max_scroll_limit g' = g_max_scroll_limit g \<and> g_history_size g' = g_history_size g - a
     \<and> g_cursor g' = cursor_line_add (int f) (g_cursor g) \<and> g_saved_cursor g' = cursor_line_add (int f) (g_saved_cursor g)" for g'
  have decr: "returns (decrease_scroll_limit a (?fin g2)) (\<lambda>g'. D g'
     \<and> (\<forall>l. g_valid g' l \<longrightarrow> g_row g' l = g_row g2 l))"
    if g2: "grid_core_ok g2" "same_frame (g\<lparr>g_raw := raw, g_lines := target\<rparr>) g2" "g_history_size g2 - a = g_history_size g - a" for g2 raw
  proof (rule returns_mono [OF decrease_scroll_limit_returns])
    have fin: "g_history_size (?fin g2) = g_history_size g2" "g_row (?fin g2) l = g_row g2 l" for l
      by (simp_all add: history_size_def g_row_def)
    show "grid_core_ok (?fin g2)" using g2(1) by (auto simp: grid_core_ok_def history_size_def)
    fix g' assume p: "grid_core_ok g' \<and> same_frame (?fin g2) g' \<and> g_history_size g' = g_history_size (?fin g2) - a
      \<and> (\<forall>l. g_valid g' l \<longrightarrow> g_row g' l = g_row (?fin g2) l)"
    show "D g'
     \<and> (\<forall>l. g_valid g' l \<longrightarrow> g_row g' l = g_row g2 l)"
      using p g2(2,3) unfolding fin D_def by (simp add: same_frame_def)
  qed
  have rows: "(\<forall>l. g_valid g l \<and> g_valid g' (l + int f) \<longrightarrow> g_row g' (l + int f) = g_row g l)
     \<and> (\<forall>l. int (g_lines g) + int f \<le> l \<and> l < int target \<longrightarrow> g_row g' l = ?b)"
    if 1: "\<And>l. g_valid g l \<Longrightarrow> g_row g1 (l + int a) = g_row g l"
      and 2: "\<And>l. g_valid g2 l \<Longrightarrow> g_row g2 l = (if l < int target - int (a - f) then g_row g1 (l + int (a - f)) else ?b)"
      and 3: "\<And>l. g_valid g' l \<Longrightarrow> g_row g' l = g_row g2 l"
      and ok: "grid_core_ok g2" "grid_core_ok g'" "g_lines g2 = target" "g_lines g' = target" "g_history_size g' = g_history_size g2 - a"
    for g1 g2 g'
  proof -
    have v: "g_valid g2 l" if "g_valid g' l" for l using that ok by (auto simp: g_valid_iff)
    have tgt: "int target - int (a - f) = int (g_lines g) + int f" using a n fa by simp
    have "g_row g' (l + int f) = g_row g l" if l: "g_valid g l" "g_valid g' (l + int f)" for l
    proof -
      have "l + int f < int target - int (a - f)" using l(1) tgt by (simp add: g_valid_iff [OF g])
      moreover have "l + int f + int (a - f) = l + int a" using fa by simp
      ultimately show ?thesis using 1 [OF l(1)] 2 [OF v [OF l(2)]] 3 [OF l(2)] by simp
    qed
    moreover have "g_row g' l = ?b" if l: "int (g_lines g) + int f \<le> l" "l < int target" for l
    proof -
      have "g_valid g' l" using l ok(2,4) by (simp add: g_valid_iff)
      then show ?thesis using 2 [OF v] 3 tgt l by simp
    qed
    ultimately show ?thesis by blast
  qed
  have body: "returns (?scroll g1) (\<lambda>g2. returns (decrease_scroll_limit a (?fin g2)) (\<lambda>g'. D g'
     \<and> (\<forall>l. g_valid g l \<and> g_valid g' (l + int f) \<longrightarrow> g_row g' (l + int f) = g_row g l)
     \<and> (\<forall>l. int (g_lines g) + int f \<le> l \<and> l < int target \<longrightarrow> g_row g' l = ?b)))"
    if g1: "g1 = g\<lparr>g_raw := raw, g_lines := target\<rparr>" "grid_core_ok g1" "g_history_size g1 = g_history_size g"
      "\<And>l. g_valid g l \<Longrightarrow> g_row g1 (l + int a) = g_row g l" for g1 raw
  proof (rule returns_mono [OF scroll], goal_cases)
    case (6 g2)
    then have g2: "grid_core_ok g2" "same_frame g1 g2" "g_history_size g2 - a = g_history_size g - a"
      "\<And>l. g_valid g2 l \<Longrightarrow> g_row g2 l = (if l < int target - int (a - f) then g_row g1 (l + int (a - f)) else ?b)" by blast+
    have lines: "g_lines g2 = target" using g2(2) g1(1) by (simp add: same_frame_def)
    show ?case
    proof (rule returns_mono [OF decr [OF g2(1) g2(2) [unfolded g1(1)] g2(3)]])
      fix g' assume p: "D g' \<and> (\<forall>l. g_valid g' l \<longrightarrow> g_row g' l = g_row g2 l)"
      then have d: "grid_core_ok g'" "g_lines g' = target" "g_history_size g' = g_history_size g2 - a"
        using g2(3) by (simp_all add: D_def)
      have eq: "\<And>l. g_valid g' l \<Longrightarrow> g_row g' l = g_row g2 l" using p by blast
      show "D g' \<and> (\<forall>l. g_valid g l \<and> g_valid g' (l + int f) \<longrightarrow> g_row g' (l + int f) = g_row g l)
         \<and> (\<forall>l. int (g_lines g) + int f \<le> l \<and> l < int target \<longrightarrow> g_row g' l = ?b)"
        using p rows [OF g1(4) g2(4) eq g2(1) d(1) lines d(2,3)] by blast
    qed
  qed (use g1 in simp_all)
  show ?thesis
    unfolding grow_lines_def returns_bind returns_usub a [symmetric]
  proof (intro conjI returns_mono [OF grow_visible_returns [OF g n]], goal_cases)
    case (2 raw)
    let ?g1 = "g\<lparr>g_raw := raw, g_lines := target\<rparr>"
    from 2 have g1: "grid_core_ok ?g1" "g_history_size ?g1 = g_history_size g"
      "\<And>l. g_valid g l \<Longrightarrow> g_row ?g1 (l + int a) = g_row g l" unfolding a by blast+
    have e: "min (g_history_size ?g1) a = f" using g1(2) by (simp add: f)
    show ?case
      using body [OF refl g1] unfolding Let_def e D_def conj_assoc returns_bind .
  qed (use n in simp)
qed

lemma shrink_view_returns:
  assumes g: "grid_core_ok g" and n: "1 \<le> target" "target \<le> g_lines g"
  shows "returns (st_rotate (int (g_lines g - target)) (g_raw g)) (\<lambda>raw. returns (shrink_visible_lines target raw) (\<lambda>raw.
     grid_core_ok (g\<lparr>g_raw := raw, g_lines := target\<rparr>)
     \<and> g_history_size (g\<lparr>g_raw := raw, g_lines := target\<rparr>) = g_history_size g
     \<and> (\<forall>l. g_valid (g\<lparr>g_raw := raw, g_lines := target\<rparr>) l \<longrightarrow> g_row (g\<lparr>g_raw := raw, g_lines := target\<rparr>) l = g_row g l)))"
proof -
  let ?R = "cell_row_ok (g_columns g)" and ?s = "g_raw g" and ?c = "g_lines g - target"
  have st: "storage_ok ?R ?s" "st_visible_lines ?s = g_lines g" using g by (auto simp: grid_core_ok_def)
  then have len: "g_lines g \<le> st_len ?s" "st_len ?s \<le> length (st_inner ?s)" by (auto simp: storage_ok_def)
  show ?thesis
  proof (rule returns_mono [OF rotate_returns [OF st(1)]])
    show "\<bar>int ?c\<bar> \<le> int (length (st_inner ?s))" using len by simp
    fix s1
    assume s1: "storage_ok ?R s1 \<and> st_len s1 = st_len ?s \<and> st_visible_lines s1 = st_visible_lines ?s
      \<and> st_inner s1 = st_inner ?s \<and> (\<forall>l. phys_line ?s l \<longrightarrow> st_row s1 l = st_row ?s (wrap_line ?s (l - int ?c)))"
    then have ring: "ring_ok ?R s1" and k: "?c < st_len s1" using len n by (auto simp: storage_ok_ring)
    have c: "?c = st_visible_lines s1 - target" and le: "target \<le> st_visible_lines s1" using s1 st(2) n by auto
    show "returns (shrink_visible_lines target s1) (\<lambda>raw.
       grid_core_ok (g\<lparr>g_raw := raw, g_lines := target\<rparr>)
       \<and> g_history_size (g\<lparr>g_raw := raw, g_lines := target\<rparr>) = g_history_size g
       \<and> (\<forall>l. g_valid (g\<lparr>g_raw := raw, g_lines := target\<rparr>) l \<longrightarrow> g_row (g\<lparr>g_raw := raw, g_lines := target\<rparr>) l = g_row g l))"
      unfolding shrink_visible_lines_def returns_bind returns_usub returns_Some
    proof (intro conjI le returns_mono [OF shrink_lines_returns [OF ring k, unfolded c]])
      fix s2
      assume s2: "ring_ok ?R s2 \<and> st_len s2 = st_len s1 - (st_visible_lines s1 - target) \<and> st_visible_lines s2 = st_visible_lines s1
         \<and> (\<forall>p < st_len s1 - (st_visible_lines s1 - target). st_at s2 p = st_at s1 p)"
      let ?g = "g\<lparr>g_raw := s2\<lparr>st_visible_lines := target\<rparr>, g_lines := target\<rparr>"
      have len2: "st_len s2 = st_len ?s - ?c" using s2 s1 st(2) by simp
      have hist: "g_history_size ?g = g_history_size g" using len2 len n by (simp add: history_size_def)
      have enough: "target \<le> st_len s2" using len2 len n by simp
      have ok: "grid_core_ok ?g"
        using s2 g hist enough n by (auto simp: grid_core_ok_def storage_ok_ring ring_ok_def)
      have "g_row ?g l = g_row g l" if l: "g_valid ?g l" for l
      proof -
        have b: "- int (g_history_size g) \<le> l" "l < int target" using l hist by (simp_all add: g_valid_iff [OF ok])
        let ?p = "nat (int target - 1 - l)"
        have p: "?p < st_len s1 - (st_visible_lines s1 - target)"
          using b n len s1 st(2) by (simp add: history_size_def)
        have ph: "phys_line ?s (l + int ?c)" "wrap_line ?s l = l"
          using b n len st(2) by (auto simp: phys_line_def wrap_line_def history_size_def)
        have "int (st_visible_lines s1) - 1 - (l + int ?c) = int target - 1 - l" using n s1 st(2) by simp
        then have "st_at s1 ?p = st_row s1 (l + int ?c)" unfolding st_row_at by (simp only:)
        also have "\<dots> = st_row ?s (wrap_line ?s (l + int ?c - int ?c))" using s1 ph(1) by blast
        also have "\<dots> = st_row ?s l" using ph(2) by simp
        finally have "st_at s1 ?p = st_row ?s l" .
        moreover have "st_at s2 ?p = st_at s1 ?p" using s2 p by blast
        ultimately show ?thesis by (simp add: g_row_def st_row_at [of "s2\<lparr>st_visible_lines := target\<rparr>"] st_at_def)
      qed
      then show "grid_core_ok ?g" "g_history_size ?g = g_history_size g" "\<forall>l. g_valid ?g l \<longrightarrow> g_row ?g l = g_row g l"
        using ok hist by blast+
    qed
  qed
qed

text \<open>Lines are scrolled out only as far as the cursor would otherwise fall off the bottom.\<close>

lemma shrink_grid_lines_returns:
  assumes g: "grid_ok g" and n: "1 \<le> target" "target < g_lines g"
    and r: "r = nat (p_line (cu_point (g_cursor g))) + 1 - target"
  shows "returns (shrink_lines target g) (\<lambda>g'. grid_core_ok g' \<and> g_lines g' = target \<and> g_columns g' = g_columns g
     \<and> g_max_scroll_limit g' = g_max_scroll_limit g
     \<and> g_cursor g' = cursor_set_line (min (p_line (cu_point (g_cursor g))) (int target - 1)) (g_cursor g)
     \<and> g_saved_cursor g' = cursor_set_line (min (p_line (cu_point (g_saved_cursor g))) (int target - 1)) (g_saved_cursor g)
     \<and> g_history_size g' = min (g_history_size g + r) (g_max_scroll_limit g)
     \<and> (\<forall>l. g_valid g' l \<longrightarrow> g_row g' l =
          (if l < int (g_lines g) - int r then g_row g (l + int r)
           else blank_row (g_columns g) (c_bg (cu_template (g_cursor g))))))"
proof -
  let ?l = "p_line (cu_point (g_cursor g))" and ?b = "blank_row (g_columns g) (c_bg (cu_template (g_cursor g)))"
  have core: "grid_core_ok g" by (rule grid_ok_core [OF g])
  have l: "0 \<le> ?l" "?l < int (g_lines g)" using g by (auto simp: grid_ok_def in_screen_def bottommost_line_def)
  let ?first = "if r > 0 then do {
       g \<leftarrow> grid_scroll_up (0, int (g_lines g)) r g;
       Some (g\<lparr>g_cursor := cursor_set_line (min (p_line (cu_point (g_cursor g))) (int target - 1)) (g_cursor g)\<rparr>)
     } else Some g"
  define post where "post g1 \<longleftrightarrow> grid_core_ok g1 \<and> g_lines g1 = g_lines g \<and> g_columns g1 = g_columns g
     \<and> g_max_scroll_limit g1 = g_max_scroll_limit g \<and> g_saved_cursor g1 = g_saved_cursor g
     \<and> g_cursor g1 = cursor_set_line (min ?l (int target - 1)) (g_cursor g)
     \<and> g_history_size g1 = min (g_history_size g + r) (g_max_scroll_limit g)
     \<and> (\<forall>l. g_valid g1 l \<longrightarrow> g_row g1 l = (if l < int (g_lines g) - int r then g_row g (l + int r) else ?b))" for g1
  have "returns ?first post"
  proof (cases "r > 0")
    case True
    have "returns (grid_scroll_up (0, int (g_lines g)) r g) (\<lambda>g1.
        post (g1\<lparr>g_cursor := cursor_set_line (min (p_line (cu_point (g_cursor g1))) (int target - 1)) (g_cursor g1)\<rparr>))"
    proof (rule returns_mono [OF scroll_up_top [OF core]])
      show "int r \<le> int (g_lines g)" "int (g_lines g) \<le> int (g_lines g)" using l by (simp_all add: r)
      fix g1 assume p: "scroll_up_post 0 (int (g_lines g)) r g g1"
      let ?g = "g1\<lparr>g_cursor := cursor_set_line (min (p_line (cu_point (g_cursor g1))) (int target - 1)) (g_cursor g1)\<rparr>"
      have d: "grid_core_ok g1" "same_frame g g1" "g_history_size g1 = min (g_history_size g + r) (g_max_scroll_limit g)"
        using p by (auto simp: scroll_up_post_def)
      have v: "g_valid ?g l = g_valid g1 l" "g_row ?g l = g_row g1 l" for l by (simp_all add: g_valid_def g_row_def)
      have "g_row g1 l = (if l < int (g_lines g) - int r then g_row g (l + int r) else ?b)" if "g_valid g1 l" for l
        using p that d(2) by (simp add: scroll_up_post_def scrolled_up_def g_valid_iff [OF d(1)] same_frame_def)
      then show "post ?g" using d unfolding post_def v by (simp add: same_frame_def)
    qed
    then show ?thesis using True by simp
  next
    case False
    then have "min ?l (int target - 1) = ?l" "r = 0" using l r by auto
    then have "post g" using core by (auto simp: post_def cursor_set_line_def g_valid_iff grid_core_ok_def)
    then show ?thesis using False by simp
  qed
  note first = this
  have rest: "returns (st_rotate (int (g_lines g - target)) (g_raw g1)) (\<lambda>raw. returns (shrink_visible_lines target raw) (\<lambda>raw.
     let g' = g1\<lparr>g_saved_cursor := c, g_raw := raw, g_lines := target\<rparr> in
     grid_core_ok g' \<and> g_history_size g' = g_history_size g1 \<and> (\<forall>l. g_valid g' l \<longrightarrow> g_valid g1 l \<and> g_row g' l = g_row g1 l)))"
    if g1: "post g1" for g1 c
  proof -
    have d: "grid_core_ok g1" "g_lines g1 = g_lines g" using g1 by (auto simp: post_def)
    have "target \<le> g_lines g1" using n d by simp
    note v = shrink_view_returns [OF d(1) n(1) this, unfolded d(2)]
    show ?thesis
    proof (rule returns_mono [OF v], rule returns_mono, assumption, elim conjE)
      fix raw let ?g = "g1\<lparr>g_raw := raw, g_lines := target\<rparr>" and ?g' = "g1\<lparr>g_saved_cursor := c, g_raw := raw, g_lines := target\<rparr>"
      assume a: "grid_core_ok ?g" "g_history_size ?g = g_history_size g1" "\<forall>l. g_valid ?g l \<longrightarrow> g_row ?g l = g_row g1 l"
      have s: "grid_core_ok ?g' = grid_core_ok ?g" "g_history_size ?g' = g_history_size ?g" "g_valid ?g' l = g_valid ?g l"
        "g_row ?g' l = g_row ?g l" for l
        by (simp_all add: grid_core_ok_def history_size_def g_valid_def g_row_def grid_dims_def)
      have "g_valid g1 l" if "g_valid ?g l" for l
        using that a(1,2) n d by (simp add: g_valid_iff)
      then show "let g' = ?g' in grid_core_ok g' \<and> g_history_size g' = g_history_size g1
          \<and> (\<forall>l. g_valid g' l \<longrightarrow> g_valid g1 l \<and> g_row g' l = g_row g1 l)"
        using a unfolding Let_def s by blast
    qed
  qed
  have fin: "grid_core_ok g' \<and> g_lines g' = target \<and> g_columns g' = g_columns g
     \<and> g_max_scroll_limit g' = g_max_scroll_limit g
     \<and> g_cursor g' = cursor_set_line (min ?l (int target - 1)) (g_cursor g)
     \<and> g_saved_cursor g' = cursor_set_line (min (p_line (cu_point (g_saved_cursor g))) (int target - 1)) (g_saved_cursor g)
     \<and> g_history_size g' = min (g_history_size g + r) (g_max_scroll_limit g)
     \<and> (\<forall>l. g_valid g' l \<longrightarrow> g_row g' l = (if l < int (g_lines g) - int r then g_row g (l + int r) else ?b))"
    if "post g1" "g' = g1\<lparr>g_saved_cursor := cursor_set_line (min (p_line (cu_point (g_saved_cursor g1))) (int target - 1)) (g_saved_cursor g1),
          g_raw := raw, g_lines := target\<rparr>"
      "grid_core_ok g'" "g_history_size g' = g_history_size g1" "\<forall>l. g_valid g' l \<longrightarrow> g_valid g1 l \<and> g_row g' l = g_row g1 l" for g1 g' raw
    using that(1,3,4,5) unfolding post_def by (simp add: that(2))
  have lu: "as_usize ?l = Some (nat ?l)" using l by simp
  show ?thesis
    unfolding shrink_lines_def lu Option.bind.simps Let_def r [symmetric] returns_bind [of ?first]
  proof (rule returns_mono [OF first])
    fix g1 assume p: "post g1"
    let ?c = "cursor_set_line (min (p_line (cu_point (g_saved_cursor g1))) (int target - 1)) (g_saved_cursor g1)"
    have s: "g_lines (g1\<lparr>g_saved_cursor := ?c\<rparr>) = g_lines g" "g_raw (g1\<lparr>g_saved_cursor := ?c\<rparr>) = g_raw g1"
      using p by (simp_all add: post_def)
    show "returns (do {
        removed \<leftarrow> usub (g_lines (g1\<lparr>g_saved_cursor := ?c\<rparr>)) target;
        raw \<leftarrow> st_rotate (int removed) (g_raw (g1\<lparr>g_saved_cursor := ?c\<rparr>));
        raw \<leftarrow> shrink_visible_lines target raw;
        Some (g1\<lparr>g_saved_cursor := ?c, g_raw := raw, g_lines := target\<rparr>)
      }) (\<lambda>g'. grid_core_ok g' \<and> g_lines g' = target \<and> g_columns g' = g_columns g
     \<and> g_max_scroll_limit g' = g_max_scroll_limit g
     \<and> g_cursor g' = cursor_set_line (min ?l (int target - 1)) (g_cursor g)
     \<and> g_saved_cursor g' = cursor_set_line (min (p_line (cu_point (g_saved_cursor g))) (int target - 1)) (g_saved_cursor g)
     \<and> g_history_size g' = min (g_history_size g + r) (g_max_scroll_limit g)
     \<and> (\<forall>l. g_valid g' l \<longrightarrow> g_row g' l = (if l < int (g_lines g) - int r then g_row g (l + int r) else ?b)))"
      unfolding s returns_bind returns_usub returns_Some
      by (intro conjI returns_mono [OF rest [OF p, of ?c]] less_imp_le [OF n(2)], rule returns_mono, assumption,
          unfold Let_def, elim conjE, rule fin [OF p refl]) assumption+
  qed
qed

subsection \<open>More columns\<close>

text \<open>The shape of rows and grids: what is left of the invariants when occupied bounds are no longer meaningful.\<close>

definition row_fits :: "nat \<Rightarrow> cell row \<Rightarrow> bool" where
  "row_fits cols r \<longleftrightarrow> length (row_inner r) \<le> cols \<and> row_occ r \<le> length (row_inner r)"

definition row_shape :: "nat \<Rightarrow> cell row \<Rightarrow> bool" where
  "row_shape cols r \<longleftrightarrow> length (row_inner r) = cols \<and> row_occ r \<le> cols"

definition grid_shape :: "grid \<Rightarrow> bool" where
  "grid_shape g \<longleftrightarrow>
     storage_ok (row_shape (g_columns g)) (g_raw g) \<and> st_visible_lines (g_raw g) = g_lines g \<and> 1 \<le> g_columns g
     \<and> g_history_size g \<le> g_max_scroll_limit g \<and> g_display_offset g \<le> g_max_scroll_limit g
     \<and> in_screen (grid_dims g) (cu_point (g_cursor g)) \<and> in_screen (grid_dims g) (cu_point (g_saved_cursor g))"

lemma row_ok_shape: "cell_row_ok cols r \<Longrightarrow> row_shape cols r"
  by (simp add: row_ok_def row_shape_def)

lemma grid_ok_shape: "grid_ok g \<Longrightarrow> grid_shape g"
  using list.pred_mono_strong [of "cell_row_ok (g_columns g)" "st_inner (g_raw g)" "row_shape (g_columns g)"]
  by (auto simp: grid_ok_def grid_core_ok_def grid_shape_def storage_ok_def row_ok_shape)

text \<open>Everything but the cursor and the display offset is the same.\<close>

definition same_size :: "grid \<Rightarrow> grid \<Rightarrow> bool" where
  "same_size g g' \<longleftrightarrow> g_lines g' = g_lines g \<and> g_columns g' = g_columns g \<and> g_raw g' = g_raw g
     \<and> g_max_scroll_limit g' = g_max_scroll_limit g \<and> g_saved_cursor g' = g_saved_cursor g"

lemma same_size_refl [simp]: "same_size g g"
  by (simp add: same_size_def)

lemma same_size_upd [simp]: "same_size g (g\<lparr>g_cursor := c\<rparr>)" "same_size g (g\<lparr>g_display_offset := n\<rparr>)"
  "same_size g (g\<lparr>g_cursor := c, g_display_offset := n\<rparr>)" "same_size g (g\<lparr>g_display_offset := n, g_cursor := c\<rparr>)"
  by (simp_all add: same_size_def)

lemma same_size_trans: "same_size g g' \<Longrightarrow> same_size g' g'' \<Longrightarrow> same_size g g''"
  by (simp add: same_size_def)

lemma same_size_dims: "same_size g g' \<Longrightarrow> grid_dims g' = grid_dims g"
  by (simp add: same_size_def grid_dims_def)

lemma in_screen_iff: "in_screen (grid_dims g) p \<longleftrightarrow> 0 \<le> p_line p \<and> p_line p < int (g_lines g) \<and> p_column p < g_columns g"
  by (auto simp: in_screen_def bottommost_line_def)

lemma cursor_buffer_line_returns:
  assumes "0 \<le> p_line (cu_point (g_cursor g))" "p_line (cu_point (g_cursor g)) < int (g_lines g)"
  shows "cursor_buffer_line g = Some (g_lines g - nat (p_line (cu_point (g_cursor g))) - 1)"
proof -
  have "nat (p_line (cu_point (g_cursor g))) < g_lines g" using assms by linarith
  then show ?thesis using assms by (simp add: cursor_buffer_line_def)
qed

lemma take_front_returns:
  assumes r: "1 \<le> length (row_inner r)" "row_occ r \<le> length (row_inner r)" and n: "1 \<le> n"
  shows "returns (take_front n r) (\<lambda>(r', cells, k). length cells \<le> n \<and> row_occ r' \<le> length (row_inner r')
     \<and> length (row_inner r') \<le> length (row_inner r))"
proof -
  let ?len = "min (length (row_inner r)) n"
  have len: "?len - 1 < length (row_inner r)" "1 \<le> ?len" using r n by linarith+
  have "row_get r (?len - 1) = Some (row_inner r ! (?len - 1))" using len by (simp add: row_get_def)
  then show ?thesis
    using len r n by (auto simp: take_front_def row_len_def row_front_split_off_def Let_def)
qed

lemma point_sub_screen:
  assumes "0 < columns d" "0 < screen_lines d" "p_line p \<le> bottommost_line d" "0 \<le> p_line p"
  shows "in_screen d (point_sub d BCursor n p) \<and> p_line (point_sub d BCursor n p) \<le> p_line p"
proof -
  have "p_line p - int ((n + columns d - 1 - p_column p) div columns d) \<le> p_line p" by simp
  then show ?thesis
    using assms by (auto simp: point_sub_def point_grid_clamp_def in_screen_def bottommost_line_def last_column_def Let_def)
qed

lemma reflow_cursor_returns:
  assumes c: "in_screen (grid_dims g) (cu_point (g_cursor g))"
  shows "returns (reflow_cursor i n r g) (\<lambda>(g', keep). same_size g g' \<and> in_screen (grid_dims g') (cu_point (g_cursor g')))"
proof -
  let ?p = "cu_point (g_cursor g)" and ?d = "grid_dims g"
  have b: "0 \<le> p_line ?p" "p_line ?p < int (g_lines g)" "p_column ?p < g_columns g" using c by (auto simp: in_screen_iff)
  note cbl = cursor_buffer_line_returns [OF b(1,2)]
  have d: "0 < columns ?d" "0 < screen_lines ?d" "p_line ?p \<le> bottommost_line ?d" using b by (auto simp: bottommost_line_def)
  define q where "q = point_sub ?d BCursor n ?p"
  define wrap where "wrap \<longleftrightarrow> p_column q = 0 \<and> row_is_clear cell_is_empty r"
  define q' where "q' = (if wrap then point_sub ?d BCursor 1 q else q)"
  have q: "in_screen ?d q" "p_line q \<le> p_line ?p" using point_sub_screen [OF d b(1), of n] by (simp_all add: q_def)
  then have "p_line q \<le> bottommost_line ?d" "0 \<le> p_line q" by (simp_all add: in_screen_def)
  from point_sub_screen [OF d(1,2) this, of 1] q
  have q': "in_screen ?d q'" "p_line q' \<le> p_line ?p" by (auto simp: q'_def)
  have moved: "in_screen (grid_dims (g\<lparr>g_cursor := (cursor_set_column (p_column q') (g_cursor g))\<lparr>cu_input_needs_wrap := w\<rparr>\<rparr>))
      (Point (p_line ?p) (p_column q'))" for w
    using q'(1) b by (simp add: in_screen_iff)
  have down: "in_screen (grid_dims (g\<lparr>g_display_offset := o', g_cursor := if i < g_lines g - nat (p_line ?p) - 1 then cursor_line_add 1 (g_cursor g) else g_cursor g\<rparr>))
      (cu_point (if i < g_lines g - nat (p_line ?p) - 1 then cursor_line_add 1 (g_cursor g) else g_cursor g))" for o'
    using b by (auto simp: in_screen_iff cursor_line_add_def)
  show ?thesis
    unfolding reflow_cursor_def cbl Option.bind.simps Let_def q_def [symmetric] wrap_def [symmetric] q'_def [symmetric]
    using q' moved down c by (simp add: cursor_set_column_def)
qed

definition grow_inv :: "grid \<Rightarrow> nat \<Rightarrow> grow_state \<Rightarrow> bool" where
  "grow_inv g0 k st \<longleftrightarrow> (case st of (g, reversed, delta) \<Rightarrow>
     same_size g0 g \<and> in_screen (grid_dims g) (cu_point (g_cursor g))
     \<and> length reversed \<le> k \<and> list_all (row_fits (g_columns g0)) reversed)"

lemma last_row_fits:
  assumes r: "row_fits cols r" and n: "0 < length (row_inner r)" "length (row_inner r) < cols"
    and l: "l = (let x = row_mod_last (remove_flag WRAPLINE) r; n = row_len x in
       if n \<ge> 1 \<and> fl_contains (c_flags (row_inner x ! (n - 1))) LEADING_WIDE_CHAR_SPACER
       then fst (row_shrink cell_is_empty (n - 1) x) else x)"
  shows "length (row_inner l) < cols \<and> row_occ l \<le> length (row_inner l)"
  using assms by (auto simp: row_mod_last_def row_shrink_def row_len_def Let_def split: if_splits)

lemma grow_step_returns:
  assumes inv: "grow_inv g0 k st" and r: "1 \<le> length (row_inner r)" "row_fits (g_columns g0) r"
  shows "returns (grow_step reflow (g_columns g0) (i, r) st) (grow_inv g0 (Suc k))"
proof -
  obtain g reversed delta where st: "st = (g, reversed, delta)" by (cases st)
  let ?cols = "g_columns g0"
  have d: "same_size g0 g" "in_screen (grid_dims g) (cu_point (g_cursor g))" "length reversed \<le> k" "list_all (row_fits ?cols) reversed"
    using inv by (simp_all add: grow_inv_def st)
  show ?thesis
  proof (cases "reversed = [] \<or> \<not> should_reflow reflow ?cols (last reversed)")
    case True
    then show ?thesis using d r(2) by (auto simp: grow_step_def st grow_inv_def)
  next
    case False
    define l where "l = (let x = row_mod_last (remove_flag WRAPLINE) (last reversed); n = row_len x in
       if n \<ge> 1 \<and> fl_contains (c_flags (row_inner x ! (n - 1))) LEADING_WIDE_CHAR_SPACER
       then fst (row_shrink cell_is_empty (n - 1) x) else x)"
    have fits: "row_fits ?cols (last reversed)" using False d(4) by (simp add: list_all_iff)
    have l: "length (row_inner l) < ?cols" "row_occ l \<le> length (row_inner l)"
      using last_row_fits [OF fits _ _ l_def] False by (auto simp: should_reflow_def row_len_def)
    have butl: "list_all (row_fits ?cols) (butlast reversed)" "Suc (length (butlast reversed)) \<le> k"
      using False d(3,4) by (auto simp: list_all_iff dest: in_set_butlastD)
    have n: "1 \<le> ?cols - row_len l" "row_len l \<le> ?cols" using l(1) by (simp_all add: row_len_def)
    have fin: "grow_inv g0 (Suc k) (case keep of
               None \<Rightarrow> (g', butlast reversed @ [row_append cells l], delta)
             | Some e \<Rightarrow> (g', butlast reversed @ [row_mod_last (insert_flag WRAPLINE) (row_append cells l), r'], delta + e))"
      if "length cells \<le> ?cols - row_len l" "row_occ r' \<le> length (row_inner r')" "length (row_inner r') \<le> length (row_inner r)"
        "same_size g g'" "in_screen (grid_dims g') (cu_point (g_cursor g'))" for r' cells g' keep
      using that l butl r(2) same_size_trans [OF d(1) that(4)]
      by (auto simp: grow_inv_def row_fits_def row_append_def row_mod_last_def row_len_def Let_def split: option.splits)
    show ?thesis
      unfolding grow_step_def st Let_def prod.case if_not_P [OF False] l_def [unfolded Let_def, symmetric]
        usub_Some [OF n(2)] Option.bind.simps returns_bind
    proof (rule returns_mono [OF take_front_returns [OF r(1) _ n(1)]])
      show "row_occ r \<le> length (row_inner r)" using r(2) by (simp add: row_fits_def)
      fix x :: "cell row \<times> cell list \<times> nat"
      assume x: "case x of (r', cells, m) \<Rightarrow> length cells \<le> ?cols - row_len l \<and> row_occ r' \<le> length (row_inner r')
         \<and> length (row_inner r') \<le> length (row_inner r)"
      obtain r' cells m where xx: "x = (r', cells, m)" by (cases x)
      show "returns (case x of (r, cells, num_wrapped) \<Rightarrow> reflow_cursor i num_wrapped r g \<bind> (\<lambda>(g, keep).
          Some (case keep of
               None \<Rightarrow> (g, butlast reversed @ [row_append cells l], delta)
             | Some d \<Rightarrow> (g, butlast reversed @ [row_mod_last (insert_flag WRAPLINE) (row_append cells l), r], delta + d))))
          (grow_inv g0 (Suc k))"
        unfolding xx prod.case returns_bind
        by (rule returns_mono [OF reflow_cursor_returns [OF d(2)]]) (use fin x xx in auto)
    qed
  qed
qed

lemma take_all_returns:
  assumes "storage_ok R s"
  shows "returns (take_all s) (\<lambda>(rows, s'). list_all R rows \<and> length rows = st_len s
     \<and> st_inner s' = [] \<and> st_len s' = 0 \<and> st_visible_lines s' = st_visible_lines s \<and> st_zero s' = 0)"
proof -
  have "ring_ok R s" using assms by (simp add: storage_ok_ring)
  then show ?thesis
    unfolding take_all_def returns_bind returns_Some
    by (rule returns_mono [OF truncate_returns]) (auto simp: ring_ok_def)
qed

lemma enum_rev_nth:
  assumes "i < length (enum_rev xs)"
  shows "\<exists>j r. enum_rev xs ! i = (j, r) \<and> r \<in> set xs"
proof -
  obtain j r where e: "enum_rev xs ! i = (j, r)" by fastforce
  then have "(j, r) \<in> set (zip [0..<length xs] xs)" using nth_mem [OF assms] by (simp add: enum_rev_def)
  then show ?thesis using e by (auto dest: set_zip_rightD)
qed

lemma length_enum_rev [simp]: "length (enum_rev xs) = length xs"
  by (simp add: enum_rev_def)

lemma grow_loop_returns:
  assumes inv: "grow_inv g0 0 st" and rows: "list_all (\<lambda>r. 1 \<le> length (row_inner r) \<and> row_fits (g_columns g0) r) rows"
  shows "returns (mfold (grow_step reflow (g_columns g0)) (enum_rev rows) st) (grow_inv g0 (length rows))"
proof (rule mfold_rule [where I = "grow_inv g0"])
  show "grow_inv g0 0 st" by (rule inv)
  fix i s assume i: "i < length (enum_rev rows)" "grow_inv g0 i s"
  obtain j r where e: "enum_rev rows ! i = (j, r)" "r \<in> set rows" using enum_rev_nth [OF i(1)] by blast
  show "returns (grow_step reflow (g_columns g0) (enum_rev rows ! i) s) (grow_inv g0 (Suc i))"
    unfolding e(1) by (rule grow_step_returns [OF i(2)]) (use rows e(2) in \<open>auto simp: list_all_iff\<close>)
qed simp

lemma fill_viewport_returns:
  assumes inv: "grow_inv g0 k (g, reversed, delta)"
  shows "returns (fill_viewport (g_columns g0) (g, reversed, delta))
     (\<lambda>(g', reversed', delta'). grow_inv g0 (max k (g_lines g0)) (g', reversed', delta') \<and> g_lines g0 \<le> length reversed')"
proof (cases "length reversed < g_lines g")
  case True
  have d: "same_size g0 g" "in_screen (grid_dims g) (cu_point (g_cursor g))" "length reversed \<le> k" "list_all (row_fits (g_columns g0)) reversed"
    using inv by (simp_all add: grow_inv_def)
  have c: "1 \<le> g_columns g0" "g_lines g = g_lines g0" using d(1,2) by (auto simp: in_screen_iff same_size_def)
  let ?c = "cursor_set_line (max (p_line (cu_point (g_cursor g)) - int (g_lines g - length reversed)) 0) (g_cursor g)"
  have "in_screen (grid_dims (g\<lparr>g_cursor := ?c\<rparr>)) (cu_point ?c)"
    using d(2) by (auto simp: in_screen_iff cursor_set_line_def)
  moreover have "list_all (row_fits (g_columns g0))
      (reversed @ replicate (g_lines g - length reversed) \<lparr>row_inner = replicate (g_columns g0) default_cell, row_occ = 0\<rparr>)"
    using d(4) by (auto simp: list_all_iff row_fits_def)
  ultimately show ?thesis
    using True c same_size_trans [OF d(1) same_size_upd(1)]
    by (simp add: fill_viewport_def resize_rows_def row_new_def grow_inv_def Let_def)
next
  case False
  then show ?thesis using inv by (auto simp: fill_viewport_def grow_inv_def same_size_def)
qed

lemma drop_below_cursor_returns:
  assumes inv: "grow_inv g0 k (g, reversed, delta)" and n: "g_lines g0 \<le> length reversed"
  shows "returns (drop_below_cursor (g, reversed, delta)) (\<lambda>(g', reversed'). same_size g0 g'
     \<and> in_screen (grid_dims g') (cu_point (g_cursor g')) \<and> list_all (row_fits (g_columns g0)) reversed'
     \<and> g_lines g0 \<le> length reversed' \<and> length reversed' \<le> k)"
proof (cases "delta = 0")
  case True
  then show ?thesis using inv n by (simp add: drop_below_cursor_def grow_inv_def)
next
  case False
  have d: "same_size g0 g" "in_screen (grid_dims g) (cu_point (g_cursor g))" "length reversed \<le> k" "list_all (row_fits (g_columns g0)) reversed"
    using inv by (simp_all add: grow_inv_def)
  have b: "0 \<le> p_line (cu_point (g_cursor g))" "p_line (cu_point (g_cursor g)) < int (g_lines g)" using d(2) by (auto simp: in_screen_iff)
  have lines: "g_lines g = g_lines g0" using d(1) by (simp add: same_size_def)
  obtain cbl where cbl: "cursor_buffer_line g = Some cbl" using cursor_buffer_line_returns [OF b] by blast
  define av where "av = min cbl (length reversed - g_lines g0)"
  let ?c = "cursor_set_line (max (p_line (cu_point (g_cursor g)) - int (delta - av)) 0) (g_cursor g)"
  have av: "av \<le> length reversed - g_lines g0" by (simp add: av_def)
  have len: "delta \<le> length reversed + (delta - av)" "g_lines g0 \<le> length reversed + (delta - av) - delta" using av n by auto
  have "in_screen (grid_dims (g\<lparr>g_cursor := ?c\<rparr>)) (cu_point ?c)" using d(2) by (auto simp: in_screen_iff cursor_set_line_def)
  moreover have "list_all (row_fits (g_columns g0)) (take m reversed)" for m using d(4) by (auto simp: list_all_iff dest: in_set_takeD)
  moreover have "drop_below_cursor (g, reversed, delta) = Some (g\<lparr>g_cursor := ?c\<rparr>, take (length reversed + (delta - av) - delta) reversed)"
    using False n len(1) by (simp add: drop_below_cursor_def cbl lines av_def [symmetric] Let_def)
  ultimately show ?thesis
    using d(3) len(2) n same_size_trans [OF d(1) same_size_upd(1)] by (simp add: min_def)
qed

text \<open>A grid built from a list of rows that all have the new width.\<close>

lemma replaced_shape:
  assumes "same_size g0 g" "in_screen (grid_dims g0) (cu_point (g_cursor g))" "in_screen (grid_dims g0) (cu_point (g_saved_cursor g0))"
    and "list_all (row_shape (g_columns g0)) rows" "1 \<le> g_lines g0" "g_lines g0 \<le> length rows"
    and "length rows \<le> g_max_scroll_limit g0 + g_lines g0" "st_visible_lines (g_raw g0) = g_lines g0"
    and "g' = g\<lparr>g_raw := replace_inner rows (g_raw g)\<rparr>"
  shows "grid_shape (g'\<lparr>g_display_offset := min (g_display_offset g') (g_history_size g')\<rparr>)"
    "g_lines g' = g_lines g0" "g_columns g' = g_columns g0"
proof -
  show d: "g_lines g' = g_lines g0" "g_columns g' = g_columns g0" using assms(1,9) by (simp_all add: same_size_def)
  have h: "g_history_size g' \<le> g_max_scroll_limit g'" using assms(1,7,9) by (auto simp: same_size_def replace_inner_def history_size_def)
  have s: "g_history_size (g'\<lparr>g_display_offset := n\<rparr>) = g_history_size g'" for n by (simp add: history_size_def)
  have "g_raw g' = replace_inner rows (g_raw g0)" "g_cursor g' = g_cursor g" "g_saved_cursor g' = g_saved_cursor g0"
    using assms(1,9) by (simp_all add: same_size_def)
  then show "grid_shape (g'\<lparr>g_display_offset := min (g_display_offset g') (g_history_size g')\<rparr>)"
    using assms(2-6,8) h d unfolding grid_shape_def s
    by (auto simp: replace_inner_def storage_ok_def in_screen_iff)
qed

lemma row_grow_shape: "row_fits cols r \<Longrightarrow> row_shape cols (row_grow default_cell cols r)"
  by (auto simp: row_fits_def row_shape_def row_grow_def)

theorem grow_columns_returns:
  assumes g: "grid_shape g" and cols: "g_columns g < cols"
  shows "returns (grow_columns reflow cols g) (\<lambda>g'. grid_shape g' \<and> g_lines g' = g_lines g \<and> g_columns g' = cols)"
proof -
  define g1 where "g1 = unwrap_cursor reflow (g\<lparr>g_columns := cols\<rparr>)"
  have st: "storage_ok (row_shape (g_columns g)) (g_raw g)" "st_visible_lines (g_raw g) = g_lines g" "1 \<le> g_columns g"
    "g_history_size g \<le> g_max_scroll_limit g" using g by (auto simp: grid_shape_def)
  have lines: "1 \<le> g_lines g" "g_lines g \<le> st_len (g_raw g)" using st by (auto simp: storage_ok_def)
  have s1: "g_lines g1 = g_lines g" "g_columns g1 = cols" "g_raw g1 = g_raw g" "g_max_scroll_limit g1 = g_max_scroll_limit g"
    "g_saved_cursor g1 = g_saved_cursor g" by (simp_all add: g1_def unwrap_cursor_def)
  have cur: "in_screen (grid_dims g1) (cu_point (g_cursor g1))" "in_screen (grid_dims g1) (cu_point (g_saved_cursor g1))"
    using g cols by (auto simp: grid_shape_def in_screen_iff g1_def unwrap_cursor_def cursor_set_column_def)
  show ?thesis
    unfolding grow_columns_def g1_def [symmetric] Let_def returns_bind s1(3)
  proof (rule returns_mono [OF take_all_returns [OF st(1)]])
    fix x :: "cell row list \<times> cell storage"
    assume x: "case x of (rows, s') \<Rightarrow> list_all (row_shape (g_columns g)) rows \<and> length rows = st_len (g_raw g)
       \<and> st_inner s' = [] \<and> st_len s' = 0 \<and> st_visible_lines s' = st_visible_lines (g_raw g) \<and> st_zero s' = 0"
    obtain rows raw where xx: "x = (rows, raw)" by (cases x)
    let ?g = "g1\<lparr>g_raw := raw\<rparr>"
    have rows: "list_all (\<lambda>r. 1 \<le> length (row_inner r) \<and> row_fits (g_columns ?g) r) rows" "length rows = st_len (g_raw g)"
      "st_visible_lines (g_raw ?g) = g_lines ?g"
      using x xx st(2,3) cols s1 by (auto simp: list_all_iff row_shape_def row_fits_def)
    have inv: "grow_inv ?g 0 (?g, [], 0)" using cur(1) by (simp add: grow_inv_def in_screen_iff)
    have fin: "grid_shape (let g = g2\<lparr>g_raw := replace_inner (map (row_grow default_cell cols) (rev reversed)) (g_raw g2)\<rparr>
          in g\<lparr>g_display_offset := min (g_display_offset g) (g_history_size g)\<rparr>) \<and> g_lines g2 = g_lines g \<and> g_columns g2 = cols"
      if a: "same_size ?g g2" "in_screen (grid_dims g2) (cu_point (g_cursor g2))" "list_all (row_fits (g_columns ?g)) reversed"
        "g_lines ?g \<le> length reversed" "length reversed \<le> max (length rows) (g_lines ?g)" for g2 reversed
    proof -
      let ?rows = "map (row_grow default_cell cols) (rev reversed)"
      have "list_all (row_shape (g_columns ?g)) ?rows" using a(3) row_grow_shape s1(2) by (auto simp: list_all_iff)
      moreover have "length ?rows \<le> g_max_scroll_limit ?g + g_lines ?g"
        using a(5) rows(2) st(4) lines s1 by (simp add: history_size_def)
      ultimately show ?thesis
        using replaced_shape [OF a(1) _ _ _ _ _ _ rows(3) refl, of ?rows] a(2,4) cur(2) lines s1 same_size_dims [OF a(1)]
        by (simp add: Let_def in_screen_iff)
    qed
    have tail: "returns (fill_viewport cols st2) (\<lambda>st3. returns (drop_below_cursor st3) (\<lambda>y. returns (case y of (g, reversed) \<Rightarrow>
         Some (let g = g\<lparr>g_raw := replace_inner (map (row_grow default_cell cols) (rev reversed)) (g_raw g)\<rparr>
           in g\<lparr>g_display_offset := min (g_display_offset g) (g_history_size g)\<rparr>))
       (\<lambda>g'. grid_shape g' \<and> g_lines g' = g_lines g \<and> g_columns g' = cols)))"
      if inv2: "grow_inv ?g (length rows) st2" for st2
    proof -
      obtain g2 reversed2 delta2 where st2: "st2 = (g2, reversed2, delta2)" by (cases st2)
      have fill: "returns (fill_viewport cols st2) (\<lambda>st3. \<exists>g3 r3 d3. st3 = (g3, r3, d3)
          \<and> grow_inv ?g (max (length rows) (g_lines ?g)) (g3, r3, d3) \<and> g_lines ?g \<le> length r3)"
        unfolding st2 using fill_viewport_returns [OF inv2 [unfolded st2]] s1(2) by (auto elim!: returns_mono)
      show ?thesis
      proof (rule returns_mono [OF fill], elim exE conjE)
        fix st3 g3 r3 d3
        assume st3: "st3 = (g3, r3, d3)" and inv3: "grow_inv ?g (max (length rows) (g_lines ?g)) (g3, r3, d3)" "g_lines ?g \<le> length r3"
        show "returns (drop_below_cursor st3) (\<lambda>y. returns (case y of (g, reversed) \<Rightarrow>
           Some (let g = g\<lparr>g_raw := replace_inner (map (row_grow default_cell cols) (rev reversed)) (g_raw g)\<rparr>
             in g\<lparr>g_display_offset := min (g_display_offset g) (g_history_size g)\<rparr>))
           (\<lambda>g'. grid_shape g' \<and> g_lines g' = g_lines g \<and> g_columns g' = cols))"
          unfolding st3
        proof (rule returns_mono [OF drop_below_cursor_returns [OF inv3]])
          fix y assume y: "case y of (g', reversed') \<Rightarrow> same_size ?g g' \<and> in_screen (grid_dims g') (cu_point (g_cursor g'))
            \<and> list_all (row_fits (g_columns ?g)) reversed' \<and> g_lines ?g \<le> length reversed'
            \<and> length reversed' \<le> max (length rows) (g_lines ?g)"
          obtain g4 r4 where yy: "y = (g4, r4)" by (cases y)
          show "returns (case y of (g, reversed) \<Rightarrow>
             Some (let g = g\<lparr>g_raw := replace_inner (map (row_grow default_cell cols) (rev reversed)) (g_raw g)\<rparr>
               in g\<lparr>g_display_offset := min (g_display_offset g) (g_history_size g)\<rparr>))
             (\<lambda>g'. grid_shape g' \<and> g_lines g' = g_lines g \<and> g_columns g' = cols)"
            using y fin [of g4 r4] unfolding yy prod.case returns_Some Let_def by simp
        qed
      qed
    qed
    have loop: "returns (mfold (grow_step reflow cols) (enum_rev rows) (?g, [], 0)) (grow_inv ?g (length rows))"
      using grow_loop_returns [OF inv rows(1), of reflow] s1(2) by simp
    show "returns (case x of (rows, raw) \<Rightarrow> do {
         st \<leftarrow> mfold (grow_step reflow cols) (enum_rev rows) (g1\<lparr>g_raw := raw\<rparr>, [], 0);
         st \<leftarrow> fill_viewport cols st;
         (g, reversed) \<leftarrow> drop_below_cursor st;
         Some (g\<lparr>g_raw := replace_inner (map (row_grow default_cell cols) (rev reversed)) (g_raw g),
            g_display_offset := min (g_display_offset (g\<lparr>g_raw := replace_inner (map (row_grow default_cell cols) (rev reversed)) (g_raw g)\<rparr>))
              (g_history_size (g\<lparr>g_raw := replace_inner (map (row_grow default_cell cols) (rev reversed)) (g_raw g)\<rparr>))\<rparr>)
       }) (\<lambda>g'. grid_shape g' \<and> g_lines g' = g_lines g \<and> g_columns g' = cols)"
      unfolding xx prod.case returns_bind
      by (rule returns_mono [OF loop], rule tail [unfolded Let_def])
  qed
qed

subsection \<open>Fewer columns\<close>

lemma row_shrink_shape:
  assumes "row_shrink cell_is_empty cols r = (r', rest)" "cols \<le> length (row_inner r)" "row_occ r \<le> length (row_inner r)"
  shows "row_shape cols r'" "\<And>w. rest = Some w \<Longrightarrow> cols < length (row_inner r) \<and> length w + cols \<le> length (row_inner r)"
  using assms by (auto simp: row_shrink_def row_shape_def Let_def split: if_splits option.splits)

lemma split_wide_returns:
  assumes "row_shape cols r" "1 \<le> cols"
  shows "returns (split_wide cols r w) (\<lambda>(r', w'). row_shape cols r' \<and> length w' \<le> Suc (length w))"
  using assms by (auto simp: split_wide_def row_shape_def row_len_def row_get_def row_mod_def)

lemma drop_spacer_length: "drop_spacer w = Inr w' \<Longrightarrow> length w' \<le> length w"
  by (auto simp: drop_spacer_def Let_def split: if_splits)

definition cursor_line_ok :: "grid \<Rightarrow> bool" where
  "cursor_line_ok g \<longleftrightarrow> 0 \<le> p_line (cu_point (g_cursor g)) \<and> p_line (cu_point (g_cursor g)) < int (g_lines g)"

abbreviation cursor_col :: "grid \<Rightarrow> nat" where
  "cursor_col g \<equiv> p_column (cu_point (g_cursor g))"

lemma shrink_cursor_returns:
  assumes "cursor_line_ok g"
  shows "returns (shrink_cursor i cols g) (\<lambda>g'. same_size g g' \<and> cursor_line_ok g' \<and> cursor_col g' \<le> cursor_col g
     \<and> (cursor_buffer_line g = Some i \<and> cols \<le> cursor_col g \<longrightarrow> cursor_col g' = cursor_col g - cols))"
proof -
  obtain cbl where cbl: "cursor_buffer_line g = Some cbl"
    using assms cursor_buffer_line_returns unfolding cursor_line_ok_def by blast
  show ?thesis
    using assms by (auto simp: shrink_cursor_def cbl cursor_line_ok_def cursor_set_line_def cursor_set_column_def Let_def)
qed

definition shrink_post :: "grid \<Rightarrow> nat \<Rightarrow> cell row list \<Rightarrow> shrink_state \<Rightarrow> bool" where
  "shrink_post g0 cols new_raw st \<longleftrightarrow> (case st of (g, rows, buffered) \<Rightarrow> same_size g0 g \<and> cursor_line_ok g
     \<and> (\<exists>ys. rows = new_raw @ ys \<and> ys \<noteq> [] \<and> list_all (row_shape cols) ys))"

lemma shrink_post_push: "same_size g0 g \<Longrightarrow> cursor_line_ok g \<Longrightarrow> row_shape cols r \<Longrightarrow> shrink_post g0 cols new_raw (g, new_raw @ [r], b)"
  by (auto simp: shrink_post_def)

lemma shrink_post_more: "shrink_post g0 cols (new_raw @ [r]) st \<Longrightarrow> row_shape cols r \<Longrightarrow> shrink_post g0 cols new_raw st"
  by (fastforce simp: shrink_post_def)

lemma row_mod_last_shape: "row_shape cols r \<Longrightarrow> row_shape cols (row_mod_last f r)"
  by (auto simp: row_shape_def row_mod_last_def Let_def)

lemma row_mod_shape: "row_shape cols r \<Longrightarrow> k < cols \<Longrightarrow> returns (row_mod k f r) (row_shape cols)"
  by (auto simp: row_mod_def row_shape_def)

lemma shrink_row_returns:
  assumes "2 \<le> cols" "cols \<le> length (row_inner r)" "row_occ r \<le> length (row_inner r)" "same_size g0 g" "cursor_line_ok g"
  shows "returns (shrink_row reflow cols i r g new_raw) (shrink_post g0 cols new_raw)"
  using assms
proof (induction "length (row_inner r) + cursor_col g" arbitrary: r g new_raw rule: less_induct)
  case less
  obtain r1 rest where sh: "row_shrink cell_is_empty cols r = (r1, rest)" by (cases "row_shrink cell_is_empty cols r")
  note s1 = row_shrink_shape [OF sh less.prems(2,3)]
  obtain cbl where cbl: "cursor_buffer_line g = Some cbl"
    using less.prems(5) cursor_buffer_line_returns unfolding cursor_line_ok_def by blast
  define w where "w = (if reflow \<and> rest \<noteq> None then rest
     else if reflow \<and> i = cbl \<and> cursor_col g > cols then Some [] else None)"
  define rest_of where "rest_of w1 = do {
         (r, wrapped) \<leftarrow> split_wide cols r1 w1;
         case drop_spacer wrapped of
           Inl _ \<Rightarrow> do {
             k \<leftarrow> usub cols 1;
             r \<leftarrow> row_mod k (insert_flag WRAPLINE) r;
             Some (g, new_raw @ [r], None)
           }
         | Inr wrapped \<Rightarrow> do {
             let new_raw = new_raw @ [row_mod_last (insert_flag WRAPLINE) r];
             if continues i cols wrapped
             then Some (g, new_raw, Some (wrapped[length wrapped - 1 := remove_flag WRAPLINE (last wrapped)]))
             else do {
               g \<leftarrow> shrink_cursor i cols g;
               let occ = length wrapped;
               let r = row_from_vec (wrapped @ replicate (cols - occ) default_cell) occ;
               let g = (if i < g_display_offset g then g\<lparr>g_display_offset := g_display_offset g + 1\<rparr> else g);
               shrink_row reflow cols i r g new_raw
             }
           }
       }" for w1
  have eq: "shrink_row reflow cols i r g new_raw =
      (case w of None \<Rightarrow> Some (g, new_raw @ [r1], None) | Some w1 \<Rightarrow> rest_of w1)"
    unfolding shrink_row.simps [of reflow cols i r g new_raw] sh cbl w_def rest_of_def Let_def prod.case Option.bind.simps
    by (cases "reflow \<and> rest \<noteq> None") auto
  show ?case
  proof (cases w)
    case None
    then show ?thesis using eq shrink_post_push [OF less.prems(4,5) s1(1)] by simp
  next
    case (Some w1)
    have small: "(length w1 + cols \<le> length (row_inner r) \<and> cols < length (row_inner r))
        \<or> (w1 = [] \<and> cursor_buffer_line g = Some i \<and> cols < cursor_col g)"
      using Some s1(2) cbl by (auto simp: w_def split: if_splits)
    have loop: "returns (shrink_cursor i cols g) (\<lambda>g2. returns (shrink_row reflow cols i
          (row_from_vec (w3 @ replicate (cols - length w3) default_cell) (length w3))
          (if i < g_display_offset g2 then g2\<lparr>g_display_offset := g_display_offset g2 + 1\<rparr> else g2)
          (new_raw @ [row_mod_last (insert_flag WRAPLINE) r2])) (shrink_post g0 cols new_raw))"
      if r2: "row_shape cols r2" and w3: "length w3 \<le> Suc (length w1)" for r2 w3
    proof (rule returns_mono [OF shrink_cursor_returns [OF less.prems(5)]], elim conjE)
      fix g2 assume g2: "same_size g g2" "cursor_line_ok g2" "cursor_col g2 \<le> cursor_col g"
        "cursor_buffer_line g = Some i \<and> cols \<le> cursor_col g \<longrightarrow> cursor_col g2 = cursor_col g - cols"
      let ?g = "if i < g_display_offset g2 then g2\<lparr>g_display_offset := g_display_offset g2 + 1\<rparr> else g2"
      let ?r = "row_from_vec (w3 @ replicate (cols - length w3) default_cell) (length w3)"
      have size: "same_size g0 ?g" "cursor_line_ok ?g" "cursor_col ?g = cursor_col g2"
        using same_size_trans [OF less.prems(4) g2(1)] g2(2) by (auto simp: same_size_def cursor_line_ok_def)
      have len: "length (row_inner ?r) = max cols (length w3)" "row_occ ?r = length w3" by (auto simp: row_from_vec_def)
      have "length (row_inner ?r) + cursor_col ?g < length (row_inner r) + cursor_col g"
        using small w3 g2(3,4) less.prems(1,2) unfolding len(1) size(3) by auto
      from less.hyps [OF this less.prems(1) _ _ size(1,2)]
      have "returns (shrink_row reflow cols i ?r ?g (new_raw @ [row_mod_last (insert_flag WRAPLINE) r2]))
          (shrink_post g0 cols (new_raw @ [row_mod_last (insert_flag WRAPLINE) r2]))" unfolding len by simp
      then show "returns (shrink_row reflow cols i ?r ?g (new_raw @ [row_mod_last (insert_flag WRAPLINE) r2])) (shrink_post g0 cols new_raw)"
        by (rule returns_mono) (rule shrink_post_more [OF _ row_mod_last_shape [OF r2]])
    qed
    have cols1: "1 \<le> cols" using less.prems(1) by simp
    have "returns (rest_of w1) (shrink_post g0 cols new_raw)"
      unfolding rest_of_def returns_bind [of "split_wide cols r1 w1"]
    proof (rule returns_mono [OF split_wide_returns [OF s1(1) cols1]], clarify)
      fix r2 :: "cell row" and w2 :: "cell list" assume r2: "row_shape cols r2" and w2: "length w2 \<le> Suc (length w1)"
      show "returns (case drop_spacer w2 of
           Inl _ \<Rightarrow> do {
             k \<leftarrow> usub cols 1;
             r \<leftarrow> row_mod k (insert_flag WRAPLINE) r2;
             Some (g, new_raw @ [r], None)
           }
         | Inr wrapped \<Rightarrow> do {
             let new_raw = new_raw @ [row_mod_last (insert_flag WRAPLINE) r2];
             if continues i cols wrapped
             then Some (g, new_raw, Some (wrapped[length wrapped - 1 := remove_flag WRAPLINE (last wrapped)]))
             else do {
               g \<leftarrow> shrink_cursor i cols g;
               let occ = length wrapped;
               let r = row_from_vec (wrapped @ replicate (cols - occ) default_cell) occ;
               let g = (if i < g_display_offset g then g\<lparr>g_display_offset := g_display_offset g + 1\<rparr> else g);
               shrink_row reflow cols i r g new_raw
             }
           }) (shrink_post g0 cols new_raw)"
      proof (cases "drop_spacer w2")
        case (Inl u)
        have "cols - 1 < cols" using cols1 by simp
        from row_mod_shape [OF r2 this, of "insert_flag WRAPLINE"]
        have "returns (row_mod (cols - 1) (insert_flag WRAPLINE) r2) (\<lambda>r. shrink_post g0 cols new_raw (g, new_raw @ [r], None))"
          by (rule returns_mono) (rule shrink_post_push [OF less.prems(4,5)])
        then show ?thesis using Inl cols1 by (simp add: returns_bind)
      next
        case (Inr w3)
        have w3: "length w3 \<le> Suc (length w1)" using drop_spacer_length [OF Inr] w2 by simp
        show ?thesis
          using loop [OF r2 w3] shrink_post_push [OF less.prems(4,5) row_mod_last_shape [OF r2]] by (simp add: Inr Let_def)
      qed
    qed
    then show ?thesis using eq Some by simp
  qed
qed

definition shrink_inv :: "grid \<Rightarrow> nat \<Rightarrow> nat \<Rightarrow> shrink_state \<Rightarrow> bool" where
  "shrink_inv g0 cols k st \<longleftrightarrow> (case st of (g, rows, buffered) \<Rightarrow> same_size g0 g \<and> cursor_line_ok g
     \<and> k \<le> length rows \<and> list_all (row_shape cols) rows)"

lemma shrink_step_returns:
  assumes inv: "shrink_inv g0 cols k st" and cols: "2 \<le> cols"
    and r: "cols \<le> length (row_inner r)" "row_occ r \<le> length (row_inner r)"
  shows "returns (shrink_step reflow cols (i, r) st) (shrink_inv g0 cols (Suc k))"
proof -
  obtain g rows b where st: "st = (g, rows, b)" by (cases st)
  have d: "same_size g0 g" "cursor_line_ok g" "k \<le> length rows" "list_all (row_shape cols) rows"
    using inv by (simp_all add: shrink_inv_def st)
  obtain cbl where cbl: "cursor_buffer_line g = Some cbl"
    using d(2) cursor_buffer_line_returns unfolding cursor_line_ok_def by blast
  have post: "shrink_inv g0 cols (Suc k) st'" if p: "shrink_post g0 cols rows st'" for st'
  proof -
    obtain g' rows' b' where st': "st' = (g', rows', b')" by (cases st')
    obtain ys where ys: "rows' = rows @ ys" "ys \<noteq> []" "list_all (row_shape cols) ys"
      and g': "same_size g0 g'" "cursor_line_ok g'"
      using p unfolding shrink_post_def st' prod.case by blast
    have "1 \<le> length ys" using ys(2) by (cases ys) auto
    then show ?thesis using ys d(3,4) g' by (simp add: shrink_inv_def st')
  qed
  have run: "returns (shrink_row reflow cols i r' g' rows) (shrink_inv g0 cols (Suc k))"
    if "cols \<le> length (row_inner r')" "row_occ r' \<le> length (row_inner r')" "same_size g0 g'" "cursor_line_ok g'" for r' g'
    by (rule returns_mono [OF shrink_row_returns [OF cols that]]) (rule post)
  show ?thesis
  proof (cases b)
    case None
    then show ?thesis using run [OF r d(1,2)] by (simp add: shrink_step_def st)
  next
    case (Some cells)
    let ?g = "if i = cbl then g\<lparr>g_cursor := cursor_set_column (cursor_col g + length cells) (g_cursor g)\<rparr> else g"
    have g: "same_size g0 ?g" "cursor_line_ok ?g"
      using d(1,2) same_size_trans [OF d(1) same_size_upd(1)] by (auto simp: cursor_line_ok_def cursor_set_column_def)
    have r': "cols \<le> length (row_inner (row_append_front cells r))"
      "row_occ (row_append_front cells r) \<le> length (row_inner (row_append_front cells r))"
      using r by (auto simp: row_append_front_def)
    show ?thesis using run [OF r' g] by (simp add: shrink_step_def st Some cbl Let_def)
  qed
qed

lemma shrink_loop_returns:
  assumes inv: "shrink_inv g0 cols 0 st" and cols: "2 \<le> cols"
    and rows: "list_all (\<lambda>r. cols \<le> length (row_inner r) \<and> row_occ r \<le> length (row_inner r)) rows"
  shows "returns (mfold (shrink_step reflow cols) (enum_rev rows) st) (shrink_inv g0 cols (length rows))"
proof (rule mfold_rule [where I = "shrink_inv g0 cols"])
  show "shrink_inv g0 cols 0 st" by (rule inv)
  fix i s assume i: "i < length (enum_rev rows)" "shrink_inv g0 cols i s"
  obtain j r where e: "enum_rev rows ! i = (j, r)" "r \<in> set rows" using enum_rev_nth [OF i(1)] by blast
  show "returns (shrink_step reflow cols (enum_rev rows ! i) s) (shrink_inv g0 cols (Suc i))"
    unfolding e(1) by (rule shrink_step_returns [OF i(2) cols]) (use rows e(2) in \<open>auto simp: list_all_iff\<close>)
qed simp

lemma replaced_storage:
  assumes "list_all (row_shape cols) rows" "1 \<le> st_visible_lines s" "st_visible_lines s \<le> length rows"
  shows "storage_ok (row_shape cols) (replace_inner rows s)"
  using assms by (auto simp: replace_inner_def storage_ok_def)

lemma reflow_primary_cursor_returns:
  assumes st: "storage_ok (row_shape cols) (g_raw g)" "st_visible_lines (g_raw g) = g_lines g" and cols: "1 \<le> cols" "g_columns g = cols"
    and line: "cursor_line_ok g"
  shows "returns (reflow_primary_cursor reflow cols g) (\<lambda>g'. \<exists>c. g' = g\<lparr>g_cursor := c\<rparr> \<and> in_screen (grid_dims g) (cu_point c))"
proof -
  let ?c = "g_cursor g"
  let ?l = "p_line (cu_point ?c)"
  have l: "0 \<le> ?l" "?l < int (g_lines g)" using line by (simp_all add: cursor_line_ok_def)
  have valid: "valid_line (g_raw g) ?l" using st l by (auto simp: valid_line_def storage_ok_def)
  have "row_shape cols (st_row (g_raw g) ?l)" by (rule st_row_R [OF st(1)])
  then obtain x where x: "grid_get g (Point ?l (cols - 1)) = Some x"
    using cols(1) by (auto simp: grid_get_def grid_row_def st_get_row [OF st(1) valid] row_get_def row_shape_def)
  have clamp: "in_screen (grid_dims g) (point_grid_clamp (grid_dims g) BCursor (cu_point ?c))"
    using l cols by (auto simp: point_grid_clamp_def in_screen_def bottommost_line_def last_column_def)
  have set: "in_screen (grid_dims g) (Point ?l k)" if "k < cols" for k using l cols that by (simp add: in_screen_iff)
  have up: "\<exists>c'. g\<lparr>g_cursor := c\<rparr> = g\<lparr>g_cursor := c'\<rparr> \<and> in_screen (grid_dims g) (cu_point c')"
    if "in_screen (grid_dims g) (cu_point c)" for c using that by blast
  show ?thesis
  proof (cases reflow)
    case False
    have "min (cursor_col g) (cols - 1) < cols" using cols(1) by simp
    from up [of "cursor_set_column (min (cursor_col g) (cols - 1)) ?c"] set [OF this] show ?thesis
      using False cols(1) by (simp add: reflow_primary_cursor_def cursor_set_column_def Let_def)
  next
    case True
    have last: "in_screen (grid_dims g) (Point ?l (cols - 1))" using set cols(1) by simp
    show ?thesis
      using True cols(1) up [of "(cursor_set_column (cols - 1) ?c)\<lparr>cu_input_needs_wrap := True\<rparr>"] last
        up [of "?c\<lparr>cu_point := point_grid_clamp (grid_dims g) BCursor (cu_point ?c)\<rparr>"] clamp x
      by (simp add: reflow_primary_cursor_def cursor_set_column_def Let_def)
  qed
qed

lemma shrink_end_returns:
  assumes inv: "shrink_inv g0 cols n (g, rows, b)" and n: "g_lines g0 \<le> n" "1 \<le> g_lines g0"
    and cols: "1 \<le> cols" "g_columns g0 = cols" and vis: "st_visible_lines (g_raw g0) = g_lines g0"
    and saved: "0 \<le> p_line (cu_point (g_saved_cursor g0))" "p_line (cu_point (g_saved_cursor g0)) < int (g_lines g0)"
    and g1: "g1 = g\<lparr>g_raw := replace_inner (take (g_max_scroll_limit g + g_lines g) (rev rows)) (g_raw g)\<rparr>"
    and g2: "g2 = g1\<lparr>g_display_offset := min (g_display_offset g1) (g_history_size g1)\<rparr>"
  shows "returns (reflow_primary_cursor reflow cols g2) (\<lambda>g3.
     let g4 = g3\<lparr>g_saved_cursor := cursor_set_column (min (p_column (cu_point (g_saved_cursor g3))) (cols - 1)) (g_saved_cursor g3)\<rparr>
     in grid_shape g4 \<and> g_lines g4 = g_lines g0 \<and> g_columns g4 = cols)"
proof -
  have d: "same_size g0 g" "cursor_line_ok g" "n \<le> length rows" "list_all (row_shape cols) rows"
    using inv by (simp_all add: shrink_inv_def)
  note s = d(1) [unfolded same_size_def]
  let ?rows = "take (g_max_scroll_limit g + g_lines g) (rev rows)"
  have rows: "list_all (row_shape cols) ?rows" "g_lines g0 \<le> length ?rows" "length ?rows \<le> g_max_scroll_limit g0 + g_lines g0"
    using d(3,4) s n by (auto simp: list_all_iff dest: in_set_takeD)
  have r2: "g_raw g2 = replace_inner ?rows (g_raw g0)" "g_lines g2 = g_lines g0" "g_columns g2 = cols" "g_cursor g2 = g_cursor g"
    "g_saved_cursor g2 = g_saved_cursor g0" "g_max_scroll_limit g2 = g_max_scroll_limit g0"
    using s cols(2) by (simp_all add: g2 g1)
  have st: "storage_ok (row_shape cols) (g_raw g2)" "st_visible_lines (g_raw g2) = g_lines g2"
    unfolding r2 using replaced_storage [OF rows(1)] rows(2) n(2) vis by (simp_all add: replace_inner_def)
  have hist: "g_history_size g2 \<le> g_max_scroll_limit g2" "g_display_offset g2 \<le> g_history_size g2"
    using rows(3) r2(1,2,6) by (simp_all add: replace_inner_def history_size_def g2 g1)
  have line: "cursor_line_ok g2" using d(2) r2(2,4) s by (simp add: cursor_line_ok_def)
  show ?thesis
  proof (rule returns_mono [OF reflow_primary_cursor_returns [OF st cols(1) r2(3) line]], elim exE conjE)
    fix g3 c assume g3: "g3 = g2\<lparr>g_cursor := c\<rparr>" "in_screen (grid_dims g2) (cu_point c)"
    let ?g4 = "g3\<lparr>g_saved_cursor := cursor_set_column (min (p_column (cu_point (g_saved_cursor g3))) (cols - 1)) (g_saved_cursor g3)\<rparr>"
    have h: "g_history_size ?g4 = g_history_size g2" by (simp add: g3 history_size_def)
    have "in_screen (grid_dims ?g4) (cu_point (g_saved_cursor ?g4))"
      using saved cols r2 by (auto simp: in_screen_iff g3 cursor_set_column_def)
    then have "grid_shape ?g4"
      unfolding grid_shape_def h using st hist g3(2) r2(3) cols(1) by (simp add: g3(1) in_screen_iff)
    then show "let g4 = ?g4 in grid_shape g4 \<and> g_lines g4 = g_lines g0 \<and> g_columns g4 = cols"
      using r2 by (simp add: Let_def g3(1))
  qed
qed

lemma shrink_columns_returns:
  assumes g: "grid_shape g" and cols: "2 \<le> cols" "cols < g_columns g"
  shows "returns (shrink_columns reflow cols g) (\<lambda>g'. grid_shape g' \<and> g_lines g' = g_lines g \<and> g_columns g' = cols)"
proof -
  define g1 where "g1 = unwrap_cursor reflow (g\<lparr>g_columns := cols\<rparr>)"
  have st: "storage_ok (row_shape (g_columns g)) (g_raw g)" "st_visible_lines (g_raw g) = g_lines g" using g by (auto simp: grid_shape_def)
  have lines: "1 \<le> g_lines g" "g_lines g \<le> st_len (g_raw g)" using st by (auto simp: storage_ok_def)
  have s1: "g_lines g1 = g_lines g" "g_columns g1 = cols" "g_raw g1 = g_raw g" "g_saved_cursor g1 = g_saved_cursor g"
    by (simp_all add: g1_def unwrap_cursor_def)
  have cur: "cursor_line_ok g1" "0 \<le> p_line (cu_point (g_saved_cursor g1))" "p_line (cu_point (g_saved_cursor g1)) < int (g_lines g1)"
    using g by (auto simp: grid_shape_def in_screen_iff cursor_line_ok_def g1_def unwrap_cursor_def cursor_set_column_def)
  have c1: "1 \<le> cols" using cols by simp
  show ?thesis
    unfolding shrink_columns_def g1_def [symmetric] Let_def returns_bind [of "take_all _"] s1(3)
  proof (rule returns_mono [OF take_all_returns [OF st(1)]], clarify)
    fix rows and raw :: "cell storage"
    assume a: "list_all (row_shape (g_columns g)) rows" "length rows = st_len (g_raw g)"
      "st_visible_lines raw = st_visible_lines (g_raw g)"
    let ?g = "g1\<lparr>g_raw := raw\<rparr>"
    have inv: "shrink_inv ?g cols 0 (?g, [], None)" using cur(1) by (simp add: shrink_inv_def cursor_line_ok_def)
    have rows: "list_all (\<lambda>r. cols \<le> length (row_inner r) \<and> row_occ r \<le> length (row_inner r)) rows"
      using a(1) cols(2) by (auto simp: list_all_iff row_shape_def)
    have n: "g_lines ?g \<le> length rows" "1 \<le> g_lines ?g" "g_columns ?g = cols" "st_visible_lines (g_raw ?g) = g_lines ?g"
      "0 \<le> p_line (cu_point (g_saved_cursor ?g))" "p_line (cu_point (g_saved_cursor ?g)) < int (g_lines ?g)"
      using lines s1 a st(2) cur(2,3) by simp_all
    show "returns (mfold (shrink_step reflow cols) (enum_rev rows) (?g, [], None) \<bind> (\<lambda>(g, new_raw, _).
        reflow_primary_cursor reflow cols
          (g\<lparr>g_raw := replace_inner (take (g_max_scroll_limit g + g_lines g) (rev new_raw)) (g_raw g),
             g_display_offset := min (g_display_offset (g\<lparr>g_raw := replace_inner (take (g_max_scroll_limit g + g_lines g) (rev new_raw)) (g_raw g)\<rparr>))
               (g_history_size (g\<lparr>g_raw := replace_inner (take (g_max_scroll_limit g + g_lines g) (rev new_raw)) (g_raw g)\<rparr>))\<rparr>) \<bind> (\<lambda>g.
          usub cols 1 \<bind> (\<lambda>k. Some (g\<lparr>g_saved_cursor := cursor_set_column (min (p_column (cu_point (g_saved_cursor g))) k) (g_saved_cursor g)\<rparr>)))))
      (\<lambda>g'. grid_shape g' \<and> g_lines g' = g_lines g \<and> g_columns g' = cols)"
      unfolding returns_bind [of "mfold _ _ _"]
    proof (rule returns_mono [OF shrink_loop_returns [OF inv cols(1) rows]], clarify)
      fix g2 rows2 b
      assume "shrink_inv ?g cols (length rows) (g2, rows2, b)"
      from shrink_end_returns [OF this n(1,2) c1 n(3-6) refl refl, of reflow]
      show "returns (reflow_primary_cursor reflow cols
          (g2\<lparr>g_raw := replace_inner (take (g_max_scroll_limit g2 + g_lines g2) (rev rows2)) (g_raw g2),
             g_display_offset := min (g_display_offset (g2\<lparr>g_raw := replace_inner (take (g_max_scroll_limit g2 + g_lines g2) (rev rows2)) (g_raw g2)\<rparr>))
               (g_history_size (g2\<lparr>g_raw := replace_inner (take (g_max_scroll_limit g2 + g_lines g2) (rev rows2)) (g_raw g2)\<rparr>))\<rparr>) \<bind> (\<lambda>g.
          usub cols 1 \<bind> (\<lambda>k. Some (g\<lparr>g_saved_cursor := cursor_set_column (min (p_column (cu_point (g_saved_cursor g))) k) (g_saved_cursor g)\<rparr>))))
        (\<lambda>g'. grid_shape g' \<and> g_lines g' = g_lines g \<and> g_columns g' = cols)"
        unfolding returns_bind usub_Some [OF c1] returns_Some Let_def by (rule returns_mono) (use s1(1) in simp)
    qed
  qed
qed

subsection \<open>Grids and terminals\<close>

lemma grid_ok_template [simp]: "grid_ok (g\<lparr>g_cursor := (g_cursor g)\<lparr>cu_template := x\<rparr>\<rparr>) = grid_ok g"
  by (simp add: grid_ok_def grid_core_ok_def history_size_def in_screen_iff)

lemma grid_shape_template [simp]: "grid_shape (g\<lparr>g_cursor := (g_cursor g)\<lparr>cu_template := x\<rparr>\<rparr>) = grid_shape g"
  by (simp add: grid_shape_def history_size_def in_screen_iff)

abbreviation resize_lines :: "nat \<Rightarrow> grid \<Rightarrow> grid option" where
  "resize_lines lines g \<equiv> (if g_lines g < lines then grow_lines lines g
     else if g_lines g > lines then shrink_lines lines g else Some g)"

abbreviation resize_columns :: "bool \<Rightarrow> nat \<Rightarrow> grid \<Rightarrow> grid option" where
  "resize_columns reflow cols g \<equiv> (if g_columns g < cols then grow_columns reflow cols g
     else if g_columns g > cols then shrink_columns reflow cols g else Some g)"

lemma resize_lines_returns:
  assumes g: "grid_ok g" and n: "1 \<le> lines"
  shows "returns (resize_lines lines g) (\<lambda>g'. grid_ok g' \<and> g_lines g' = lines \<and> g_columns g' = g_columns g)"
proof -
  have b: "p_line (cu_point (g_cursor g)) < int (g_lines g)" "0 \<le> p_line (cu_point (g_cursor g))" "p_column (cu_point (g_cursor g)) < g_columns g"
    "p_line (cu_point (g_saved_cursor g)) < int (g_lines g)" "0 \<le> p_line (cu_point (g_saved_cursor g))"
    "p_column (cu_point (g_saved_cursor g)) < g_columns g"
    using g by (simp_all add: grid_ok_def in_screen_iff)
  consider "g_lines g < lines" | "lines < g_lines g" | "g_lines g = lines" by linarith
  then show ?thesis
  proof cases
    case 1
    let ?f = "min (g_history_size g) (lines - g_lines g)"
    have "int ?f \<le> int lines - int (g_lines g)" using 1 by linarith
    then have "grid_ok g'" if "grid_core_ok g'" "g_lines g' = lines" "g_columns g' = g_columns g"
      "g_cursor g' = cursor_line_add (int ?f) (g_cursor g)" "g_saved_cursor g' = cursor_line_add (int ?f) (g_saved_cursor g)" for g'
      using that b by (simp add: grid_ok_def in_screen_iff cursor_line_add_def)
    then have "returns (grow_lines lines g) (\<lambda>g'. grid_ok g' \<and> g_lines g' = lines \<and> g_columns g' = g_columns g)"
      by (intro returns_mono [OF grow_lines_returns [OF grid_ok_core [OF g] 1 refl refl]]) blast
    then show ?thesis using 1 by simp
  next
    case 2
    have "grid_ok g'" if "grid_core_ok g'" "g_lines g' = lines" "g_columns g' = g_columns g"
      "g_cursor g' = cursor_set_line (min (p_line (cu_point (g_cursor g))) (int lines - 1)) (g_cursor g)"
      "g_saved_cursor g' = cursor_set_line (min (p_line (cu_point (g_saved_cursor g))) (int lines - 1)) (g_saved_cursor g)" for g'
      using that b n by (auto simp: grid_ok_def in_screen_iff cursor_set_line_def min_def)
    then have "returns (shrink_lines lines g) (\<lambda>g'. grid_ok g' \<and> g_lines g' = lines \<and> g_columns g' = g_columns g)"
      by (intro returns_mono [OF shrink_grid_lines_returns [OF g n 2 refl]]) blast
    then show ?thesis using 2 by simp
  next
    case 3
    then show ?thesis using g by simp
  qed
qed

lemma resize_columns_returns:
  assumes "grid_shape g" "2 \<le> cols"
  shows "returns (resize_columns reflow cols g) (\<lambda>g'. grid_shape g' \<and> g_lines g' = g_lines g \<and> g_columns g' = cols)"
  using grow_columns_returns [OF assms(1), of cols reflow] shrink_columns_returns [OF assms, of reflow] assms(1)
  by simp

lemma grid_resize_returns:
  assumes g: "grid_ok g" and n: "1 \<le> lines" "2 \<le> cols"
  shows "returns (grid_resize reflow lines cols g) (\<lambda>g'. grid_shape g' \<and> g_lines g' = lines \<and> g_columns g' = cols
     \<and> cu_template (g_cursor g') = cu_template (g_cursor g) \<and> (cols = g_columns g \<longrightarrow> grid_ok g'))"
proof -
  let ?g = "g\<lparr>g_cursor := (g_cursor g)\<lparr>cu_template := default_cell\<rparr>\<rparr>"
  have g0: "grid_ok ?g" using g by simp
  have cols: "returns (resize_columns reflow cols g1) (\<lambda>g2. grid_shape g2 \<and> g_lines g2 = lines \<and> g_columns g2 = cols
      \<and> (cols = g_columns g \<longrightarrow> grid_ok g2))" if g1: "grid_ok g1" "g_lines g1 = lines" "g_columns g1 = g_columns ?g" for g1
  proof (cases "cols = g_columns g")
    case True
    then show ?thesis using g1 grid_ok_shape [OF g1(1)] by simp
  next
    case False
    then show ?thesis using resize_columns_returns [OF grid_ok_shape [OF g1(1)] n(2), of reflow] g1(2) by (auto elim!: returns_mono)
  qed
  show ?thesis
    unfolding grid_resize_def Let_def returns_bind [of "resize_lines _ _"]
  proof (rule returns_mono [OF resize_lines_returns [OF g0 n(1)]], elim conjE)
    fix g1 assume g1: "grid_ok g1" "g_lines g1 = lines" "g_columns g1 = g_columns ?g"
    show "returns (do {
        g2 \<leftarrow> resize_columns reflow cols g1;
        Some (g2\<lparr>g_cursor := (g_cursor g2)\<lparr>cu_template := cu_template (g_cursor g)\<rparr>\<rparr>)
      }) (\<lambda>g'. grid_shape g' \<and> g_lines g' = lines \<and> g_columns g' = cols
       \<and> cu_template (g_cursor g') = cu_template (g_cursor g) \<and> (cols = g_columns g \<longrightarrow> grid_ok g'))"
      unfolding returns_bind returns_Some by (rule returns_mono [OF cols [OF g1]]) simp
  qed
qed

text \<open>What a resized terminal satisfies: the invariant with the shape of the grids in the place of their occupancy.\<close>

definition term_shape :: "nat \<Rightarrow> nat \<Rightarrow> terminal \<Rightarrow> bool" where
  "term_shape cols lines t \<longleftrightarrow>
     grid_shape (t_grid t) \<and> grid_shape (t_inactive_grid t)
     \<and> g_columns (t_grid t) = cols \<and> g_lines (t_grid t) = lines
     \<and> g_columns (t_inactive_grid t) = cols \<and> g_lines (t_inactive_grid t) = lines
     \<and> length (t_tabs t) = cols \<and> damage_ok lines (t_damage t)
     \<and> in_screen (grid_dims (t_grid t)) (dm_last_cursor (t_damage t))
     \<and> length (t_colors t) = COUNT \<and> length (t_title_stack t) \<le> TITLE_STACK_MAX_DEPTH"

lemma term_resize_returns:
  assumes t: "wf_term t" and n: "1 \<le> lines" "2 \<le> cols"
    and size: "\<not> (g_columns (t_grid t) = cols \<and> g_lines (t_grid t) = lines)"
  shows "returns (term_resize cols lines t) (\<lambda>t'. term_shape cols lines t' \<and> t_scroll_region t' = (0, int lines) \<and> dm_full (t_damage t')
     \<and> - int (g_display_offset (t_grid t')) \<le> p_line (t_vi_cursor t')
     \<and> p_line (t_vi_cursor t') < int lines - int (g_display_offset (t_grid t'))
     \<and> p_column (t_vi_cursor t') < cols \<and> (cols = g_columns (t_grid t) \<longrightarrow> wf_term t'))"
proof -
  let ?alt = "has_mode t ALT_SCREEN"
  have ok: "grid_ok (t_grid t)" "grid_ok (t_inactive_grid t)" "g_columns (t_inactive_grid t) = g_columns (t_grid t)"
    using t by (simp_all add: wf_term_def)
  obtain ga where ga: "grid_resize (\<not> ?alt) lines cols (t_grid t) = Some ga" "grid_shape ga" "g_lines ga = lines" "g_columns ga = cols"
    "cols = g_columns (t_grid t) \<longrightarrow> grid_ok ga"
    using grid_resize_returns [OF ok(1) n, of "\<not> ?alt"] unfolding returns_def by blast
  obtain gi where gi: "grid_resize ?alt lines cols (t_inactive_grid t) = Some gi" "grid_shape gi" "g_lines gi = lines" "g_columns gi = cols"
    "cols = g_columns (t_grid t) \<longrightarrow> grid_ok gi"
    using grid_resize_returns [OF ok(2) n, of ?alt] unfolding returns_def ok(3) by blast
  define d where "d = resize_delta lines t"
  let ?t1 = "t\<lparr>t_vi_cursor := Point (p_line (t_vi_cursor t) + d) (p_column (t_vi_cursor t)), t_grid := ga, t_inactive_grid := gi\<rparr>"
  define t2 where "t2 = resize_selection (g_columns (t_grid t)) (g_lines (t_grid t)) d ?t1"
  define t' where "t' = (clamp_vi_to_viewport t2)\<lparr>t_scroll_region := (0, int lines), t_damage := damage_resize cols lines (t_damage t)\<rparr>"
  have s2: "t_grid t2 = ga" "t_inactive_grid t2 = gi" "length (t_tabs t2) = cols" "t_colors t2 = t_colors t" "t_title_stack t2 = t_title_stack t"
    "t_damage t2 = t_damage t"
    using ga(4) wf_tabs [OF t] by (simp_all add: t2_def resize_selection_def Let_def)
  have run: "term_resize cols lines t = Some t'"
  proof -
    have "resize_grids cols lines (t\<lparr>t_vi_cursor := Point (p_line (t_vi_cursor t) + d) (p_column (t_vi_cursor t))\<rparr>) = Some ?t1"
      using ga(1) gi(1) by (simp add: resize_grids_def has_mode_def)
    moreover have "t_damage (clamp_vi_to_viewport t2) = t_damage t" "screen_lines (t_dims (clamp_vi_to_viewport t2)) = lines"
      using s2 ga(3) by (simp_all add: clamp_vi_to_viewport_def Let_def)
    ultimately show ?thesis
      using size by (auto simp: term_resize_def Let_def d_def [symmetric] t2_def [symmetric] t'_def)
  qed
  have eqs: "t_grid t' = ga" "t_inactive_grid t' = gi" "length (t_tabs t') = cols" "t_colors t' = t_colors t" "t_title_stack t' = t_title_stack t"
    "t_scroll_region t' = (0, int lines)" "t_damage t' = damage_resize cols lines (t_damage t)"
    using s2 by (simp_all add: t'_def clamp_vi_to_viewport_def Let_def)
  have v: "\<exists>l c. t_vi_cursor t' = Point (max (min l (- int (g_display_offset ga) + (int lines - 1))) (- int (g_display_offset ga))) (min c (cols - 1))"
    using s2(1) ga(3,4) by (auto simp: t'_def clamp_vi_to_viewport_def Let_def last_column_def bottommost_line_def)
  obtain l c where vi: "t_vi_cursor t' = Point (max (min l (- int (g_display_offset ga) + (int lines - 1))) (- int (g_display_offset ga))) (min c (cols - 1))"
    using v by blast
  have dmg: "in_screen (grid_dims ga) (dm_last_cursor (t_damage t'))" "damage_ok lines (t_damage t')" "dm_full (t_damage t')"
    using n ga by (simp_all add: eqs in_screen_iff damage_resize_def default_point_def damage_ok_def undamaged_ok)
  have lens: "length (t_colors t') = COUNT" "length (t_title_stack t') \<le> TITLE_STACK_MAX_DEPTH"
    using t eqs by (simp_all add: wf_term_def)
  have "term_shape cols lines t'" using eqs ga gi dmg lens by (simp add: term_shape_def)
  moreover have "wf_term t'" if "cols = g_columns (t_grid t)"
    using that eqs ga gi dmg lens n unfolding wf_term_def by simp
  moreover have "- int (g_display_offset ga) \<le> p_line (t_vi_cursor t')" "p_line (t_vi_cursor t') < int lines - int (g_display_offset ga)"
    "p_column (t_vi_cursor t') < cols"
    using n unfolding vi by (auto simp: min_def max_def)
  ultimately show ?thesis using eqs dmg by (simp add: run)
qed

end
