(* ===== verification/Resize_Content.thy ===== *)
theory Resize_Content
  imports Resize_Safety
begin

text \<open>
  What a resize does to the rows. Without reflow (the alternate screen) every row is padded or cut on its own; a change of
  the number of lines only moves rows.
\<close>

lemma take_all_rows:
  assumes "storage_ok R s"
  shows "returns (take_all s) (\<lambda>(rows, s'). rows = st_rows s \<and> st_visible_lines s' = st_visible_lines s)"
proof -
  have ring: "ring_ok R s" using assms by (simp add: storage_ok_ring)
  show ?thesis
    unfolding take_all_def returns_bind returns_Some
  proof (rule returns_mono [OF truncate_returns [OF ring]])
    fix s'
    assume s': "ring_ok R s' \<and> st_zero s' = 0 \<and> st_len s' = st_len s \<and> st_visible_lines s' = st_visible_lines s
      \<and> length (st_inner s') = st_len s \<and> (\<forall>p < st_len s. st_at s' p = st_at s p)"
    have "st_inner s' = st_rows s"
    proof (rule nth_equalityI)
      show "length (st_inner s') = length (st_rows s)" using s' st_rows_at [OF ring] by simp
      fix i assume "i < length (st_inner s')"
      then have i: "i < st_len s" "i mod length (st_inner s') = i" using s' by auto
      then have "st_inner s' ! i = st_at s' i" using s' by (simp add: st_at_def)
      also have "\<dots> = st_rows s ! i" using s' i(1) by (simp add: st_rows_at [OF ring])
      finally show "st_inner s' ! i = st_rows s ! i" .
    qed
    then show "case (st_inner s', s'\<lparr>st_inner := [], st_len := 0\<rparr>) of (rows, s') \<Rightarrow>
        rows = st_rows s \<and> st_visible_lines s' = st_visible_lines s" using s' by simp
  qed
qed

text \<open>The rows of a grid whose storage was rebuilt by mapping a function over the old rows.\<close>

lemma replace_inner_row:
  assumes st: "storage_ok R s" "st_visible_lines s' = st_visible_lines s" and l: "valid_line s l"
  shows "st_row (replace_inner (map f (st_rows s)) s') l = f (st_row s l)"
proof -
  have ring: "ring_ok R s" using st by (simp add: storage_ok_ring)
  have rows: "st_rows s = map (st_at s) [0..<st_len s]" by (rule st_rows_at [OF ring])
  let ?p = "nat (int (st_visible_lines s) - 1 - l)"
  have "?p < st_len s" using l by (auto simp: valid_line_def)
  then show ?thesis
    unfolding st_row_at rows by (simp add: replace_inner_def st_at_def st(2))
qed

lemma length_st_rows: "storage_ok R s \<Longrightarrow> length (st_rows s) = st_len s"
  by (simp add: st_rows_def storage_ok_def)

lemma map_snd_enum_rev: "map snd (enum_rev xs) = rev xs"
  by (simp add: enum_rev_def rev_map [symmetric])

lemma grow_loop_no_reflow:
  "mfold (grow_step False cols) xs (g, acc, 0) = Some (g, acc @ map snd xs, 0)"
  by (induction xs arbitrary: acc) (auto simp: grow_step_def should_reflow_def)

lemma shrink_row_no_reflow:
  assumes "cursor_line_ok g"
  shows "shrink_row False cols i r g rows = Some (g, rows @ [fst (row_shrink cell_is_empty cols r)], None)"
proof -
  obtain cbl where "cursor_buffer_line g = Some cbl"
    using assms cursor_buffer_line_returns unfolding cursor_line_ok_def by blast
  then show ?thesis by (simp add: shrink_row.simps [of False] case_prod_beta)
qed

lemma shrink_loop_no_reflow:
  assumes "cursor_line_ok g"
  shows "mfold (shrink_step False cols) xs (g, acc, None)
     = Some (g, acc @ map (\<lambda>x. fst (row_shrink cell_is_empty cols (snd x))) xs, None)"
  by (induction xs arbitrary: acc) (auto simp: shrink_step_def shrink_row_no_reflow [OF assms])

lemma grow_columns_no_reflow:
  assumes g: "grid_ok g" and cols: "g_columns g < cols"
  shows "returns (grow_columns False cols g) (\<lambda>g'. g_lines g' = g_lines g \<and> g_history_size g' = g_history_size g
     \<and> g_cursor g' = g_cursor g \<and> (\<forall>l. g_valid g l \<longrightarrow> g_row g' l = row_grow default_cell cols (g_row g l)))"
proof -
  have st: "storage_ok (cell_row_ok (g_columns g)) (g_raw g)" "st_visible_lines (g_raw g) = g_lines g" "1 \<le> g_columns g"
    using g by (auto simp: grid_ok_def grid_core_ok_def)
  have len: "length (st_rows (g_raw g)) = st_len (g_raw g)" "g_lines g \<le> st_len (g_raw g)"
    using st length_st_rows [OF st(1)] by (auto simp: storage_ok_def)
  obtain raw where raw: "take_all (g_raw g) = Some (st_rows (g_raw g), raw)" "st_visible_lines raw = g_lines g"
    using take_all_rows [OF st(1)] st(2) by (auto simp: returns_def)
  let ?raw = "replace_inner (map (row_grow default_cell cols) (st_rows (g_raw g))) raw"
  let ?g = "g\<lparr>g_columns := cols, g_raw := ?raw\<rparr>"
  have run: "grow_columns False cols g = Some (?g\<lparr>g_display_offset := min (g_display_offset g) (g_history_size ?g)\<rparr>)"
    using len by (simp add: grow_columns_def unwrap_cursor_def raw(1) grow_loop_no_reflow map_snd_enum_rev fill_viewport_def
        drop_below_cursor_def rev_map Let_def)
  have hist: "g_history_size ?g = g_history_size g"
    using len by (simp add: history_size_def replace_inner_def)
  have "g_row ?g l = row_grow default_cell cols (g_row g l)" if "g_valid g l" for l
    using replace_inner_row [OF st(1), of raw l] raw(2) st(2) that
      g_valid_line [OF grid_ok_core [OF g]] by (simp add: g_row_def)
  then show ?thesis using hist by (simp add: run g_row_def history_size_def)
qed

lemma shrink_columns_no_reflow:
  assumes g: "grid_ok g" and cols: "2 \<le> cols" "cols < g_columns g"
  shows "returns (shrink_columns False cols g) (\<lambda>g'. g_lines g' = g_lines g \<and> g_history_size g' = g_history_size g
     \<and> g_cursor g' = cursor_set_column (min (p_column (cu_point (g_cursor g))) (cols - 1)) (g_cursor g)
     \<and> (\<forall>l. g_valid g l \<longrightarrow> g_row g' l = fst (row_shrink cell_is_empty cols (g_row g l))))"
proof -
  have st: "storage_ok (cell_row_ok (g_columns g)) (g_raw g)" "st_visible_lines (g_raw g) = g_lines g"
    "g_history_size g \<le> g_max_scroll_limit g"
    using g by (auto simp: grid_ok_def grid_core_ok_def)
  have len: "length (st_rows (g_raw g)) = st_len (g_raw g)" "g_lines g \<le> st_len (g_raw g)"
    using st length_st_rows [OF st(1)] by (auto simp: storage_ok_def)
  obtain raw where raw: "take_all (g_raw g) = Some (st_rows (g_raw g), raw)" "st_visible_lines raw = g_lines g"
    using take_all_rows [OF st(1)] st(2) by (auto simp: returns_def)
  let ?f = "\<lambda>r. fst (row_shrink cell_is_empty cols r)"
  let ?raw = "replace_inner (map ?f (st_rows (g_raw g))) raw"
  let ?g = "g\<lparr>g_columns := cols, g_raw := ?raw\<rparr>"
  have line: "cursor_line_ok (g\<lparr>g_columns := cols, g_raw := raw\<rparr>)"
    using g by (simp add: grid_ok_def in_screen_iff cursor_line_ok_def)
  have all: "st_len (g_raw g) \<le> g_max_scroll_limit g + g_lines g" using st(3) len by (simp add: history_size_def)
  have rows: "rev (map (\<lambda>x. ?f (snd x)) (enum_rev (st_rows (g_raw g)))) = map ?f (st_rows (g_raw g))"
    using map_snd_enum_rev [of "st_rows (g_raw g)"] by (metis (no_types, lifting) list.map_comp comp_def map_eq_conv rev_map rev_rev_ident)
  have run: "shrink_columns False cols g = Some (?g\<lparr>g_display_offset := min (g_display_offset g) (g_history_size ?g),
      g_cursor := cursor_set_column (min (p_column (cu_point (g_cursor g))) (cols - 1)) (g_cursor g),
      g_saved_cursor := cursor_set_column (min (p_column (cu_point (g_saved_cursor g))) (cols - 1)) (g_saved_cursor g)\<rparr>)"
    using len all cols by (simp add: shrink_columns_def unwrap_cursor_def raw(1) shrink_loop_no_reflow [OF line] rows
        reflow_primary_cursor_def Let_def)
  have hist: "g_history_size ?g = g_history_size g"
    using len by (simp add: history_size_def replace_inner_def)
  have "g_row ?g l = ?f (g_row g l)" if "g_valid g l" for l
    using replace_inner_row [OF st(1), of raw l] raw(2) st(2) that
      g_valid_line [OF grid_ok_core [OF g]] by (simp add: g_row_def)
  then show ?thesis using hist by (simp add: run g_row_def history_size_def)
qed

end
