(* ===== verification/Props_Resize.thy ===== *)
theory Props_Resize
  imports Resize_Content Demo
begin

text \<open>The properties of resizing.\<close>

text \<open>C26: Resizing a terminal to at least one line and two columns ends and does not panic. Both grids get the new size with
  rows of exactly that width, their cursors are on the screen, the history stays within its limit, tab stops and damage
  fit the new size, the scrolling region is the whole screen, the vi cursor is in the viewport and everything is
  damaged. A resize to the present size does nothing, and one that keeps the columns keeps the full invariant.\<close>

theorem resize_keeps_shape:
  assumes "wf_term t" "1 \<le> lines" "2 \<le> cols"
  shows "returns (term_resize cols lines t) (\<lambda>t'.
     if g_columns (t_grid t) = cols \<and> g_lines (t_grid t) = lines then t' = t
     else term_shape cols lines t' \<and> t_scroll_region t' = (0, int lines) \<and> dm_full (t_damage t')
       \<and> - int (g_display_offset (t_grid t')) \<le> p_line (t_vi_cursor t')
       \<and> p_line (t_vi_cursor t') < int lines - int (g_display_offset (t_grid t'))
       \<and> p_column (t_vi_cursor t') < cols \<and> (cols = g_columns (t_grid t) \<longrightarrow> wf_term t'))"
proof (cases "g_columns (t_grid t) = cols \<and> g_lines (t_grid t) = lines")
  case True
  then show ?thesis by (simp add: term_resize_def)
next
  case False
  show ?thesis unfolding if_not_P [OF False] by (rule term_resize_returns [OF assms False])
qed

theorem resize_witness: "returns (term_resize 7 2 demo_term) (\<lambda>t'. term_shape 7 2 t' \<and> t_scroll_region t' = (0, 2))"
  by (rule returns_mono [OF resize_keeps_shape [OF demo_wf, of 2 7]]) (simp_all add: demo_simps)

text \<open>A change of the number of lines only moves rows. New lines are taken from the history first and are blank beyond
  it; the cursor moves with the text. Lines that go away are taken from below the cursor first, and only as many lines
  as the cursor would fall off the screen are scrolled into the history.\<close>

theorem resize_lines_moves_rows:
  assumes g: "grid_ok g" and n: "1 \<le> n"
    and f: "f = min (g_history_size g) (n - g_lines g)" and r: "r = nat (p_line (cu_point (g_cursor g))) + 1 - n"
    and b: "b = blank_row (g_columns g) (c_bg (cu_template (g_cursor g)))"
  shows "(g_lines g < n \<longrightarrow> returns (grow_lines n g) (\<lambda>g'. grid_core_ok g' \<and> g_lines g' = n
       \<and> g_cursor g' = cursor_line_add (int f) (g_cursor g)
       \<and> g_history_size g' = g_history_size g - (n - g_lines g)
       \<and> (\<forall>l. g_valid g l \<and> g_valid g' (l + int f) \<longrightarrow> g_row g' (l + int f) = g_row g l)
       \<and> (\<forall>l. int (g_lines g) + int f \<le> l \<and> l < int n \<longrightarrow> g_row g' l = b)))
   \<and> (n < g_lines g \<longrightarrow> returns (shrink_lines n g) (\<lambda>g'. grid_core_ok g' \<and> g_lines g' = n
       \<and> g_cursor g' = cursor_set_line (min (p_line (cu_point (g_cursor g))) (int n - 1)) (g_cursor g)
       \<and> g_history_size g' = min (g_history_size g + r) (g_max_scroll_limit g)
       \<and> (\<forall>l. g_valid g' l \<longrightarrow> g_row g' l = (if l < int (g_lines g) - int r then g_row g (l + int r) else b))))"
  unfolding b
proof (intro conjI impI)
  assume "g_lines g < n"
  from grow_lines_returns [OF grid_ok_core [OF g] this refl f]
  show "returns (grow_lines n g) (\<lambda>g'. grid_core_ok g' \<and> g_lines g' = n
       \<and> g_cursor g' = cursor_line_add (int f) (g_cursor g)
       \<and> g_history_size g' = g_history_size g - (n - g_lines g)
       \<and> (\<forall>l. g_valid g l \<and> g_valid g' (l + int f) \<longrightarrow> g_row g' (l + int f) = g_row g l)
       \<and> (\<forall>l. int (g_lines g) + int f \<le> l \<and> l < int n \<longrightarrow>
            g_row g' l = blank_row (g_columns g) (c_bg (cu_template (g_cursor g)))))"
    by (rule returns_mono) blast
next
  assume "n < g_lines g"
  from shrink_grid_lines_returns [OF g n this r]
  show "returns (shrink_lines n g) (\<lambda>g'. grid_core_ok g' \<and> g_lines g' = n
       \<and> g_cursor g' = cursor_set_line (min (p_line (cu_point (g_cursor g))) (int n - 1)) (g_cursor g)
       \<and> g_history_size g' = min (g_history_size g + r) (g_max_scroll_limit g)
       \<and> (\<forall>l. g_valid g' l \<longrightarrow> g_row g' l =
            (if l < int (g_lines g) - int r then g_row g (l + int r)
             else blank_row (g_columns g) (c_bg (cu_template (g_cursor g))))))"
    by (rule returns_mono) blast
qed

theorem resize_lines_witness: "returns (grow_lines 5 (t_grid demo_term)) (\<lambda>g'. g_lines g' = 5
   \<and> g_row g' 4 = blank_row 4 (Named Background))"
proof -
  note p = resize_lines_moves_rows [OF wf_grid [OF demo_wf], of 5 0 0 "blank_row 4 (Named Background)"]
  have "returns (grow_lines 5 (t_grid demo_term)) (\<lambda>g'. g_lines g' = 5
     \<and> (\<forall>l. 3 \<le> l \<and> l < 5 \<longrightarrow> g_row g' l = blank_row 4 (Named Background)))"
    using p by (simp add: demo_simps default_cursor_def default_point_def) (erule returns_mono, blast)
  then show ?thesis by (rule returns_mono) simp
qed

text \<open>Without reflow, as on the alternate screen, a change of the number of columns treats every row of the screen and of
  the history on its own: it is padded with default cells or cut at the new width, no line moves, and the cursor keeps
  its line.\<close>

theorem resize_without_reflow:
  assumes "grid_ok g" "2 \<le> cols"
  shows "(g_columns g < cols \<longrightarrow> returns (grow_columns False cols g) (\<lambda>g'. g_history_size g' = g_history_size g
       \<and> g_cursor g' = g_cursor g
       \<and> (\<forall>l. g_valid g l \<longrightarrow> row_inner (g_row g' l) = row_inner (g_row g l) @ replicate (cols - g_columns g) default_cell)))
   \<and> (cols < g_columns g \<longrightarrow> returns (shrink_columns False cols g) (\<lambda>g'. g_history_size g' = g_history_size g
       \<and> p_line (cu_point (g_cursor g')) = p_line (cu_point (g_cursor g))
       \<and> p_column (cu_point (g_cursor g')) = min (p_column (cu_point (g_cursor g))) (cols - 1)
       \<and> (\<forall>l. g_valid g l \<longrightarrow> row_inner (g_row g' l) = take cols (row_inner (g_row g l)))))"
proof (intro conjI impI)
  have len: "length (row_inner (g_row g l)) = g_columns g" for l by (rule g_row_len [OF grid_ok_core [OF assms(1)]])
  assume c: "g_columns g < cols"
  have "row_inner (row_grow default_cell cols (g_row g l)) = row_inner (g_row g l) @ replicate (cols - g_columns g) default_cell" for l
    using c len [of l] by (simp add: row_grow_def)
  then show "returns (grow_columns False cols g) (\<lambda>g'. g_history_size g' = g_history_size g \<and> g_cursor g' = g_cursor g
     \<and> (\<forall>l. g_valid g l \<longrightarrow> row_inner (g_row g' l) = row_inner (g_row g l) @ replicate (cols - g_columns g) default_cell))"
    by (intro returns_mono [OF grow_columns_no_reflow [OF assms(1) c]]) auto
next
  have len: "length (row_inner (g_row g l)) = g_columns g" for l by (rule g_row_len [OF grid_ok_core [OF assms(1)]])
  assume c: "cols < g_columns g"
  have "row_inner (fst (row_shrink cell_is_empty cols (g_row g l))) = take cols (row_inner (g_row g l))" for l
    using c len [of l] by (simp add: row_shrink_def Let_def)
  then show "returns (shrink_columns False cols g) (\<lambda>g'. g_history_size g' = g_history_size g
     \<and> p_line (cu_point (g_cursor g')) = p_line (cu_point (g_cursor g))
     \<and> p_column (cu_point (g_cursor g')) = min (p_column (cu_point (g_cursor g))) (cols - 1)
     \<and> (\<forall>l. g_valid g l \<longrightarrow> row_inner (g_row g' l) = take cols (row_inner (g_row g l))))"
    by (intro returns_mono [OF shrink_columns_no_reflow [OF assms(1,2) c]]) (auto simp: cursor_set_column_def)
qed

theorem resize_without_reflow_witness: "returns (shrink_columns False 2 (t_grid demo_term)) (\<lambda>g'.
   row_inner (g_row g' 0) = [default_cell, default_cell])"
proof -
  have v: "g_valid (t_grid demo_term) 0" using g_valid_iff [OF wf_core [OF demo_wf]] by (simp add: demo_simps)
  have "row_inner (g_row (t_grid demo_term) 0) = replicate 4 default_cell"
    by (simp add: demo_grid blank_row_def default_cell_eq)
  then have two: "take 2 (row_inner (g_row (t_grid demo_term) 0)) = [default_cell, default_cell]" by (simp add: numeral_eq_Suc)
  have "returns (shrink_columns False 2 (t_grid demo_term)) (\<lambda>g'. \<forall>l. g_valid (t_grid demo_term) l \<longrightarrow>
      row_inner (g_row g' l) = take 2 (row_inner (g_row (t_grid demo_term) l)))"
    using resize_without_reflow [OF wf_grid [OF demo_wf], of 2] by (simp add: demo_simps) (erule returns_mono, blast)
  then show ?thesis using v two by (auto elim!: returns_mono)
qed

text \<open>Growing a row does not raise its occupied bound. A row whose blank part has a coloured background and that is
  widened keeps that colour when it is next cleared with the default background: the clear takes the last cell, which the
  widening has added, for a sign that nothing beyond the occupied bound has to be reset.\<close>

theorem row_grow_leaves_stale_cells:
  "\<exists>r r'. cell_row_ok 2 r
     \<and> row_reset c_bg cell_reset default_cell (row_grow default_cell 3 r) = Some r'
     \<and> c_bg (row_inner r' ! 0) = Indexed 1"
proof -
  let ?r = "blank_row 2 (Indexed 1)"
  have ok: "cell_row_ok 2 ?r" by simp
  have run: "row_reset c_bg cell_reset default_cell (row_grow default_cell 3 ?r)
      = Some \<lparr>row_inner = [cell_of_color (Indexed 1), cell_of_color (Indexed 1), default_cell], row_occ = 0\<rparr>"
    by (simp add: row_reset_def row_grow_def blank_row_def cell_reset_eq numeral_eq_Suc)
  show ?thesis
    by (intro exI conjI) (rule ok, rule run, simp add: cell_of_color_def)
qed

end
