(* ===== verification/Event_Loop.thy ===== *)
theory Event_Loop
  imports Term_State
begin

text \<open>
  The thread that owns the pseudo terminal: \<^verbatim>\<open>velacritty_terminal/src/event_loop.rs\<close>.

  The operating system is part of the state: \<open>pty\<close> holds what the next calls of \<^verbatim>\<open>read\<close>, \<^verbatim>\<open>write\<close> and
  \<^verbatim>\<open>next_child_event\<close> will give (every \<^verbatim>\<open>read\<close> together with the answer of \<^verbatim>\<open>try_lock_unfair\<close> if the terminal is not
  locked yet), and logs of the bytes that went in and out. When a list is used up, reads and writes would block and the lock
  is free. The model follows the Linux build, where a read that fails with \<open>Eio\<close> is ignored. A call that may panic returns an option. The escape sequence parser is the third-party crate \<^verbatim>\<open>vte\<close>, a record of
  functions over an abstract parser state.
\<close>

type_synonym byte = "8 word"

definition READ_BUFFER_SIZE :: nat where "READ_BUFFER_SIZE = 0x100000"

definition MAX_LOCKED_READ :: nat where "MAX_LOCKED_READ = 65535"

datatype io_error = Interrupted | WouldBlock | Eio | OtherError

datatype msg = MsgInput "byte list" | MsgShutdown | MsgResize window_size

subsection \<open>Writing\<close>

record writing =
  wr_source :: "byte list"
  wr_written :: nat

definition writing_new :: "byte list \<Rightarrow> writing" where
  "writing_new c = \<lparr>wr_source = c, wr_written = 0\<rparr>"

definition writing_advance :: "nat \<Rightarrow> writing \<Rightarrow> writing" where
  "writing_advance n w = w\<lparr>wr_written := wr_written w + n\<rparr>"

definition remaining_bytes :: "writing \<Rightarrow> byte list option" where
  "remaining_bytes w = do { guard (wr_written w \<le> length (wr_source w)); Some (drop (wr_written w) (wr_source w)) }"

definition finished :: "writing \<Rightarrow> bool" where
  "finished w \<longleftrightarrow> wr_written w \<ge> length (wr_source w)"

record 'p loop_state =
  ls_write_list :: "byte list list"
  ls_writing :: "writing option"
  ls_parser :: 'p

definition goto_next :: "'p loop_state \<Rightarrow> 'p loop_state" where
  "goto_next s = (case ls_write_list s of
       [] \<Rightarrow> s\<lparr>ls_writing := None\<rparr>
     | c # cs \<Rightarrow> s\<lparr>ls_write_list := cs, ls_writing := Some (writing_new c)\<rparr>)"

definition ensure_next :: "'p loop_state \<Rightarrow> 'p loop_state" where
  "ensure_next s = (if ls_writing s = None then goto_next s else s)"

definition take_current :: "'p loop_state \<Rightarrow> writing option \<times> 'p loop_state" where
  "take_current s = (ls_writing s, s\<lparr>ls_writing := None\<rparr>)"

definition set_current :: "writing option \<Rightarrow> 'p loop_state \<Rightarrow> 'p loop_state" where
  "set_current w s = s\<lparr>ls_writing := w\<rparr>"

definition needs_write :: "'p loop_state \<Rightarrow> bool" where
  "needs_write s \<longleftrightarrow> ls_writing s \<noteq> None \<or> ls_write_list s \<noteq> []"

subsection \<open>The channel\<close>

record receiver =
  rx_queue :: "msg list"
  rx_peeked :: "msg option"
  rx_closed :: bool

definition rx_peek :: "receiver \<Rightarrow> msg option \<times> receiver" where
  "rx_peek rx =
     (let rx = (if rx_peeked rx = None
                then case rx_queue rx of [] \<Rightarrow> rx | m # ms \<Rightarrow> rx\<lparr>rx_queue := ms, rx_peeked := Some m\<rparr>
                else rx)
      in (rx_peeked rx, rx))"

definition rx_recv :: "receiver \<Rightarrow> (msg option \<times> receiver) option" where
  "rx_recv rx =
     (if rx_peeked rx \<noteq> None then Some (rx_peeked rx, rx\<lparr>rx_peeked := None\<rparr>)
      else case rx_queue rx of
             m # ms \<Rightarrow> Some (Some m, rx\<lparr>rx_queue := ms\<rparr>)
           | [] \<Rightarrow> if rx_closed rx then None else Some (None, rx))"

text \<open>The sender's side: \<^verbatim>\<open>Notifier::notify\<close> and \<^verbatim>\<open>Notifier::on_resize\<close>.\<close>

definition send :: "msg \<Rightarrow> receiver \<Rightarrow> receiver" where
  "send m rx = rx\<lparr>rx_queue := rx_queue rx @ [m]\<rparr>"

definition notify :: "byte list \<Rightarrow> receiver \<Rightarrow> receiver" where
  "notify bytes rx = (if bytes = [] then rx else send (MsgInput bytes) rx)"

definition notify_resize :: "window_size \<Rightarrow> receiver \<Rightarrow> receiver" where
  "notify_resize ws rx = send (MsgResize ws) rx"

subsection \<open>The event loop\<close>

record pty =
  pty_reads :: "((io_error + byte list) \<times> bool) list"
  pty_writes :: "(io_error + nat) list"
  pty_children :: "int option option list"
  pty_delivered :: "byte list"
  pty_written :: "byte list"
  pty_sizes :: "window_size list"

record 'p vte =
  v_advance :: "'p \<Rightarrow> terminal \<Rightarrow> byte list \<Rightarrow> 'p \<times> terminal"
  v_sync_bytes_count :: "'p \<Rightarrow> nat"
  v_stop_sync :: "'p \<Rightarrow> terminal \<Rightarrow> 'p \<times> terminal"

record 'p event_loop =
  el_state :: "'p loop_state"
  el_pty :: pty
  el_rx :: receiver
  el_terminal :: terminal
  el_proxy :: "event list"
  el_drain_on_exit :: bool
  el_recording :: "byte list option"
  el_writable :: bool

definition proxy_send :: "event \<Rightarrow> 'p event_loop \<Rightarrow> 'p event_loop" where
  "proxy_send e el = el\<lparr>el_proxy := el_proxy el @ [e]\<rparr>"

definition rx_size :: "receiver \<Rightarrow> nat" where
  "rx_size rx = length (rx_queue rx) + (if rx_peeked rx = None then 0 else 1)"

lemma rx_recv_size: "rx_recv rx = Some (Some m, rx') \<Longrightarrow> rx_size rx' < rx_size rx"
  by (auto simp: rx_recv_def rx_size_def split: if_splits list.splits)

function drain_recv_channel :: "'p event_loop \<Rightarrow> (bool \<times> 'p event_loop) option" where
  "drain_recv_channel el =
     (case rx_recv (el_rx el) of
        None \<Rightarrow> None
      | Some (None, rx) \<Rightarrow> Some (True, el\<lparr>el_rx := rx\<rparr>)
      | Some (Some m, rx) \<Rightarrow>
          (case m of
             MsgInput input \<Rightarrow> drain_recv_channel (el\<lparr>el_rx := rx,
                 el_state := (el_state el)\<lparr>ls_write_list := ls_write_list (el_state el) @ [input]\<rparr>\<rparr>)
           | MsgResize ws \<Rightarrow> drain_recv_channel (el\<lparr>el_rx := rx,
                 el_pty := (el_pty el)\<lparr>pty_sizes := pty_sizes (el_pty el) @ [ws]\<rparr>\<rparr>)
           | MsgShutdown \<Rightarrow> Some (False, el\<lparr>el_rx := rx\<rparr>)))"
  by pat_completeness auto
termination
  by (relation "measure (\<lambda>el. rx_size (el_rx el))") (auto dest: rx_recv_size)

declare drain_recv_channel.simps [simp del]

text \<open>Feeding the bytes read so far to the parser.\<close>

definition process_bytes :: "'p vte \<Rightarrow> byte list \<Rightarrow> 'p event_loop \<Rightarrow> 'p event_loop" where
  "process_bytes v buf el =
     (let (p, t) = v_advance v (ls_parser (el_state el)) (el_terminal el) buf
      in el\<lparr>el_recording := map_option (\<lambda>r. r @ buf) (el_recording el),
            el_state := (el_state el)\<lparr>ls_parser := p\<rparr>, el_terminal := t\<rparr>)"

text \<open>The loop of \<^verbatim>\<open>pty_read\<close>: the unprocessed bytes of the buffer, the number of processed bytes, and whether the
  terminal is locked. The result is a fatal error, if any, and the number of processed bytes.\<close>

fun read_loop :: "'p vte \<Rightarrow> ((io_error + byte list) \<times> bool) list \<Rightarrow> byte list \<Rightarrow> nat \<Rightarrow> bool \<Rightarrow> 'p event_loop
    \<Rightarrow> io_error option \<times> nat \<times> 'p event_loop" where
  "read_loop v [] buf processed locked el =
     (let el = el\<lparr>el_pty := (el_pty el)\<lparr>pty_reads := []\<rparr>\<rparr> in
      if buf = [] then (None, processed, el) else (None, processed + length buf, process_bytes v buf el))"
| "read_loop v ((res, try_lock) # rest) buf processed locked el =
     (let go = (\<lambda>buf el.
           if \<not> locked \<and> \<not> try_lock \<and> length buf < READ_BUFFER_SIZE then read_loop v rest buf processed False el
           else
             let el = process_bytes v buf el; processed = processed + length buf in
             if processed \<ge> MAX_LOCKED_READ then (None, processed, el) else read_loop v rest [] processed True el);
          el = el\<lparr>el_pty := (el_pty el)\<lparr>pty_reads := rest\<rparr>\<rparr>
      in case res of
           Inr bytes \<Rightarrow>
             let got = take (READ_BUFFER_SIZE - length buf) bytes;
                 el = el\<lparr>el_pty := (el_pty el)\<lparr>pty_delivered := pty_delivered (el_pty el) @ got\<rparr>\<rparr>
             in if got = [] \<and> buf = [] then (None, processed, el) else go (buf @ got) el
         | Inl err \<Rightarrow>
             if err = Interrupted \<or> err = WouldBlock
             then if buf = [] then (None, processed, el) else go buf el
             else (Some err, processed, el))"

definition pty_read :: "'p vte \<Rightarrow> 'p event_loop \<Rightarrow> io_error option \<times> 'p event_loop" where
  "pty_read v el =
     (case read_loop v (pty_reads (el_pty el)) [] 0 False el of
        (Some err, _, el) \<Rightarrow> (Some err, el)
      | (None, processed, el) \<Rightarrow>
          (None, if v_sync_bytes_count v (ls_parser (el_state el)) < processed \<and> processed > 0
                 then proxy_send Wakeup el else el))"

text \<open>The loops of \<^verbatim>\<open>pty_write\<close>, with the chunk that is being written.\<close>

fun write_one :: "(io_error + nat) list \<Rightarrow> writing \<Rightarrow> 'p event_loop \<Rightarrow> (io_error option \<times> 'p event_loop) option" where
  "write_one [] cur el =
     Some (None, el\<lparr>el_state := set_current (Some cur) (el_state el), el_pty := (el_pty el)\<lparr>pty_writes := []\<rparr>\<rparr>)"
| "write_one (res # rest) cur el = do {
     bytes \<leftarrow> remaining_bytes cur;
     let el = el\<lparr>el_pty := (el_pty el)\<lparr>pty_writes := rest\<rparr>\<rparr>;
     case res of
       Inr k \<Rightarrow>
         let n = min k (length bytes) in
         if n = 0 then Some (None, el\<lparr>el_state := set_current (Some cur) (el_state el)\<rparr>)
         else
           let cur = writing_advance n cur;
               el = el\<lparr>el_pty := (el_pty el)\<lparr>pty_written := pty_written (el_pty el) @ take n bytes\<rparr>\<rparr>
           in if finished cur
              then (case take_current (goto_next (el_state el)) of
                      (None, s) \<Rightarrow> Some (None, el\<lparr>el_state := s\<rparr>)
                    | (Some cur, s) \<Rightarrow> write_one rest cur (el\<lparr>el_state := s\<rparr>))
              else write_one rest cur el
     | Inl err \<Rightarrow>
         let el = el\<lparr>el_state := set_current (Some cur) (el_state el)\<rparr> in
         Some (if err = Interrupted \<or> err = WouldBlock then None else Some err, el)
   }"

definition pty_write :: "'p event_loop \<Rightarrow> (io_error option \<times> 'p event_loop) option" where
  "pty_write el =
     (case take_current (ensure_next (el_state el)) of
        (None, s) \<Rightarrow> Some (None, el\<lparr>el_state := s\<rparr>)
      | (Some cur, s) \<Rightarrow> write_one (pty_writes (el_pty el)) cur (el\<lparr>el_state := s\<rparr>))"

datatype event_key = PtyChildEventToken | PtyReadWriteToken | OtherToken

record polling_event =
  pe_key :: event_key
  pe_readable :: bool
  pe_writable :: bool
  pe_interrupt :: bool

datatype 'p flow = Next "'p event_loop" | Stop "'p event_loop"

definition child_exited :: "'p vte \<Rightarrow> int option \<Rightarrow> 'p event_loop \<Rightarrow> 'p event_loop" where
  "child_exited v code el =
     (let el = (case code of None \<Rightarrow> el | Some code \<Rightarrow> proxy_send (ChildExit code) el);
          el = (if el_drain_on_exit el then snd (pty_read v el) else el);
          el = el\<lparr>el_terminal := term_exit (el_terminal el)\<rparr>
      in proxy_send Wakeup el)"

definition handle_event :: "'p vte \<Rightarrow> polling_event \<Rightarrow> 'p event_loop \<Rightarrow> 'p flow option" where
  "handle_event v ev el =
     (case pe_key ev of
        PtyChildEventToken \<Rightarrow>
          (case pty_children (el_pty el) of
             Some code # rest \<Rightarrow> Some (Stop (child_exited v code (el\<lparr>el_pty := (el_pty el)\<lparr>pty_children := rest\<rparr>\<rparr>)))
           | None # rest \<Rightarrow> Some (Next (el\<lparr>el_pty := (el_pty el)\<lparr>pty_children := rest\<rparr>\<rparr>))
           | [] \<Rightarrow> Some (Next el))
      | PtyReadWriteToken \<Rightarrow>
          if pe_interrupt ev then Some (Next el)
          else
            (case (if pe_readable ev then pty_read v el else (None, el)) of
               (Some err, el) \<Rightarrow> Some (if err = Eio then Next el else Stop el)
             | (None, el) \<Rightarrow>
                 if pe_writable ev
                 then map_option (\<lambda>(err, el). if err = None then Next el else Stop el) (pty_write el)
                 else Some (Next el))
      | OtherToken \<Rightarrow> Some (Next el))"

fun handle_events :: "'p vte \<Rightarrow> polling_event list \<Rightarrow> 'p event_loop \<Rightarrow> 'p flow option" where
  "handle_events v [] el = Some (Next el)"
| "handle_events v (ev # evs) el = do {
     f \<leftarrow> handle_event v ev el;
     case f of Next el \<Rightarrow> handle_events v evs el | Stop el \<Rightarrow> Some (Stop el)
   }"

text \<open>One iteration of the loop of \<^verbatim>\<open>spawn\<close>, given what the poller reports.\<close>

definition loop_iteration :: "'p vte \<Rightarrow> io_error + polling_event list \<Rightarrow> 'p event_loop \<Rightarrow> 'p flow option" where
  "loop_iteration v poll el =
     (case poll of
        Inl err \<Rightarrow> Some (if err = Interrupted then Next el else Stop el)
      | Inr events \<Rightarrow> do {
          let (peeked, rx) = (if events = [] then rx_peek (el_rx el) else (None, el_rx el));
          let el = el\<lparr>el_rx := rx\<rparr>;
          if events = [] \<and> peeked = None
          then do {
            let (p, t) = v_stop_sync v (ls_parser (el_state el)) (el_terminal el);
            Some (Next (proxy_send Wakeup (el\<lparr>el_state := (el_state el)\<lparr>ls_parser := p\<rparr>, el_terminal := t\<rparr>)))
          }
          else do {
            (go, el) \<leftarrow> drain_recv_channel el;
            if \<not> go then Some (Stop el)
            else do {
              f \<leftarrow> handle_events v events el;
              Some (case f of Next el \<Rightarrow> Next (el\<lparr>el_writable := needs_write (el_state el)\<rparr>) | Stop el \<Rightarrow> Stop el)
            }
          }
        })"

text \<open>The states the thread goes through: between the iterations, other threads send messages, and the operating system
  makes new results of its calls available.\<close>

definition loop_start :: "'p \<Rightarrow> terminal \<Rightarrow> bool \<Rightarrow> bool \<Rightarrow> 'p event_loop" where
  "loop_start p t drain recording = \<lparr>el_state = \<lparr>ls_write_list = [], ls_writing = None, ls_parser = p\<rparr>,
     el_pty = \<lparr>pty_reads = [], pty_writes = [], pty_children = [], pty_delivered = [], pty_written = [], pty_sizes = []\<rparr>,
     el_rx = \<lparr>rx_queue = [], rx_peeked = None, rx_closed = False\<rparr>, el_terminal = t, el_proxy = [],
     el_drain_on_exit = drain, el_recording = (if recording then Some [] else None), el_writable = False\<rparr>"

inductive loop_reachable :: "'p vte \<Rightarrow> 'p event_loop \<Rightarrow> bool" for v where
  start: "loop_reachable v (loop_start p t drain recording)"
| sent: "loop_reachable v el \<Longrightarrow> loop_reachable v (el\<lparr>el_rx := send m (el_rx el)\<rparr>)"
| environment: "loop_reachable v el \<Longrightarrow>
     loop_reachable v (el\<lparr>el_pty := (el_pty el)\<lparr>pty_reads := reads, pty_writes := writes, pty_children := children\<rparr>,
       el_terminal := t\<rparr>)"
| iteration: "loop_reachable v el \<Longrightarrow> loop_iteration v poll el = Some (Next el') \<Longrightarrow> loop_reachable v el'"

subsection \<open>The bytes on their way to the child process\<close>

definition cur_bytes :: "writing option \<Rightarrow> byte list" where
  "cur_bytes w = (case w of None \<Rightarrow> [] | Some w \<Rightarrow> drop (wr_written w) (wr_source w))"

definition pending :: "'p loop_state \<Rightarrow> byte list" where
  "pending s = cur_bytes (ls_writing s) @ concat (ls_write_list s)"

definition msg_bytes :: "msg \<Rightarrow> byte list" where
  "msg_bytes m = (case m of MsgInput b \<Rightarrow> b | _ \<Rightarrow> [])"

definition queued :: "receiver \<Rightarrow> byte list" where
  "queued rx = (case rx_peeked rx of None \<Rightarrow> [] | Some m \<Rightarrow> msg_bytes m) @ concat (map msg_bytes (rx_queue rx))"

text \<open>All bytes ever sent: written, being written, and still in the channel.\<close>

definition sent_bytes :: "'p event_loop \<Rightarrow> byte list" where
  "sent_bytes el = pty_written (el_pty el) @ pending (el_state el) @ queued (el_rx el)"

definition writing_ok :: "'p loop_state \<Rightarrow> bool" where
  "writing_ok s \<longleftrightarrow> (\<forall>w. ls_writing s = Some w \<longrightarrow> wr_written w \<le> length (wr_source w))"

definition loop_ok :: "'p event_loop \<Rightarrow> bool" where
  "loop_ok el \<longleftrightarrow> writing_ok (el_state el) \<and> \<not> rx_closed (el_rx el)"

lemma goto_next_pending [simp]: "pending (goto_next s) = concat (ls_write_list s)" "writing_ok (goto_next s)"
  by (auto simp: pending_def goto_next_def writing_ok_def cur_bytes_def writing_new_def split: list.splits)

lemma ensure_next_pending [simp]: "pending (ensure_next s) = pending s" "writing_ok s \<Longrightarrow> writing_ok (ensure_next s)"
  by (simp_all add: ensure_next_def) (simp add: pending_def cur_bytes_def)

lemma writing_ok_set [simp]: "wr_written w \<le> length (wr_source w) \<Longrightarrow> writing_ok (set_current (Some w) s)" "writing_ok (s\<lparr>ls_writing := None\<rparr>)"
  by (simp_all add: set_current_def writing_ok_def)

text \<open>The part of the state a write does not touch.\<close>

definition write_frame :: "'p event_loop \<Rightarrow> 'p event_loop \<Rightarrow> bool" where
  "write_frame el el' \<longleftrightarrow> el_rx el' = el_rx el \<and> el_terminal el' = el_terminal el \<and> el_writable el' = el_writable el
     \<and> pty_delivered (el_pty el') = pty_delivered (el_pty el) \<and> ls_parser (el_state el') = ls_parser (el_state el)"

lemma write_frame_trans: "write_frame a b \<Longrightarrow> write_frame b c \<Longrightarrow> write_frame a c"
  by (simp add: write_frame_def)

lemma goto_next_parser [simp]: "ls_parser (goto_next s) = ls_parser s"
  by (simp add: goto_next_def split: list.splits)

lemma write_one_step:
  fixes el :: "'p event_loop"
  assumes "remaining_bytes cur = Some bytes" "n = min k (length bytes)" "n \<noteq> 0" "cur' = writing_advance n cur"
    and "el' = el\<lparr>el_pty := (el_pty el)\<lparr>pty_writes := rest, pty_written := pty_written (el_pty el) @ take n bytes\<rparr>\<rparr>"
  shows "write_one (Inr k # rest) cur el =
     (if finished cur'
      then (case take_current (goto_next (el_state el')) of
              (None, s) \<Rightarrow> Some (None, el'\<lparr>el_state := s\<rparr>)
            | (Some cur, s) \<Rightarrow> write_one rest cur (el'\<lparr>el_state := s\<rparr>))
      else write_one rest cur' el')"
  using assms(3) unfolding write_one.simps assms(1) Option.bind.simps Let_def sum.case assms(2) [symmetric] assms(4) [symmetric]
  by (auto simp: assms(5) split: option.split prod.split)

text \<open>A write moves bytes from the front of the queue to the pseudo terminal.\<close>

definition write_post :: "byte list \<Rightarrow> 'p event_loop \<Rightarrow> io_error option \<times> 'p event_loop \<Rightarrow> bool" where
  "write_post bytes el r \<longleftrightarrow> (case r of (err, el') \<Rightarrow> write_frame el el' \<and> writing_ok (el_state el')
     \<and> pty_written (el_pty el') @ pending (el_state el') = pty_written (el_pty el) @ bytes)"

lemma write_one_returns:
  "wr_written cur \<le> length (wr_source cur) \<Longrightarrow>
   returns (write_one outs cur el)
     (write_post (drop (wr_written cur) (wr_source cur) @ concat (ls_write_list (el_state el))) el)"
proof (induction outs arbitrary: cur el)
  case Nil
  then show ?case by (simp add: write_post_def write_frame_def set_current_def pending_def cur_bytes_def writing_ok_def)
next
  case (Cons res rest)
  let ?b = "drop (wr_written cur) (wr_source cur)"
  have rem: "remaining_bytes cur = Some ?b" using Cons.prems by (simp add: remaining_bytes_def)
  consider (err) err where "res = Inl err" | (zero) k where "res = Inr k" "min k (length ?b) = 0"
    | (some) k where "res = Inr k" "min k (length ?b) \<noteq> 0"
    by (metis sum.exhaust)
  then show ?case
  proof cases
    case err
    then show ?thesis using Cons.prems
      by (simp add: rem Let_def write_post_def write_frame_def set_current_def pending_def cur_bytes_def writing_ok_def)
  next
    case zero
    then show ?thesis using Cons.prems
      by (simp add: rem Let_def write_post_def write_frame_def set_current_def pending_def cur_bytes_def writing_ok_def)
  next
    case some
    define n where "n = min k (length ?b)"
    define cur' where "cur' = writing_advance n cur"
    define el' where "el' = el\<lparr>el_pty := (el_pty el)\<lparr>pty_writes := rest, pty_written := pty_written (el_pty el) @ take n ?b\<rparr>\<rparr>"
    have cur': "wr_source cur' = wr_source cur" "wr_written cur' = wr_written cur + n" "wr_written cur' \<le> length (wr_source cur')"
      using Cons.prems by (simp_all add: cur'_def writing_advance_def n_def)
    have split: "take n ?b @ drop (wr_written cur') (wr_source cur') = ?b"
      unfolding cur'(1,2) by (metis append_take_drop_id drop_drop add.commute)
    have el': "write_frame el el'" "el_state el' = el_state el" "pty_written (el_pty el') = pty_written (el_pty el) @ take n ?b"
      by (simp_all add: el'_def write_frame_def)
    have mono: "write_post (?b @ concat (ls_write_list (el_state el))) el r"
      if "write_frame el' el''" "write_post (drop (wr_written cur') (wr_source cur') @ concat (ls_write_list (el_state el))) el'' r"
        "pty_written (el_pty el'') = pty_written (el_pty el')" for r el''
      using that el'(3) split write_frame_trans [OF write_frame_trans [OF el'(1) that(1)]]
      by (auto simp: write_post_def)
    note step = write_one_step [OF rem n_def _ cur'_def el'_def]
    have "n \<noteq> 0" using some(2) by (simp add: n_def)
    note step = step [OF this]
    show ?thesis
    proof (cases "finished cur'")
      case False
      have "write_frame el' el'" by (simp add: write_frame_def)
      from returns_mono [OF Cons.IH [OF cur'(3), of el'], unfolded el'(2)] mono [OF this] False
      show ?thesis unfolding some(1) step by (simp add: el'(2))
    next
      case True
      have empty: "drop (wr_written cur') (wr_source cur') = []" using True by (simp add: finished_def)
      show ?thesis
      proof (cases "ls_write_list (el_state el)")
        case Nil
        have "write_post [] (el'\<lparr>el_state := (el_state el)\<lparr>ls_writing := None\<rparr>\<rparr>)
            (None, el'\<lparr>el_state := (el_state el)\<lparr>ls_writing := None\<rparr>\<rparr>)"
          using Nil by (simp add: write_post_def write_frame_def pending_def cur_bytes_def)
        then show ?thesis
          using True Nil mono [of "el'\<lparr>el_state := (el_state el)\<lparr>ls_writing := None\<rparr>\<rparr>"]
          unfolding some(1) step by (simp add: el'(2) empty goto_next_def take_current_def write_frame_def)
      next
        case (Cons c cs)
        let ?el = "el'\<lparr>el_state := (el_state el)\<lparr>ls_write_list := cs, ls_writing := None\<rparr>\<rparr>"
        have fr: "write_frame el' ?el" using el'(2) by (simp add: write_frame_def)
        have "returns (write_one rest (writing_new c) ?el) (write_post (c @ concat cs) ?el)"
          using Cons.IH [of "writing_new c" ?el] by (simp add: writing_new_def)
        then have "returns (write_one rest (writing_new c) ?el) (write_post (?b @ concat (ls_write_list (el_state el))) el)"
          by (rule returns_mono) (rule mono [OF fr], use Cons empty in simp_all)
        then show ?thesis
          using True Cons unfolding some(1) step by (simp add: el'(2) goto_next_def take_current_def)
      qed
    qed
  qed
qed

lemma pty_write_returns:
  assumes "writing_ok (el_state el)"
  shows "returns (pty_write el) (write_post (pending (el_state el)) el)"
proof -
  define s where "s = ensure_next (el_state el)"
  have s: "pending s = pending (el_state el)" "writing_ok s" "ls_parser s = ls_parser (el_state el)"
    using assms by (simp_all add: s_def) (simp add: ensure_next_def)
  show ?thesis
  proof (cases "ls_writing s")
    case None
    then show ?thesis
      using s by (simp add: pty_write_def s_def [symmetric] take_current_def write_post_def write_frame_def pending_def cur_bytes_def)
  next
    case (Some cur)
    let ?el = "el\<lparr>el_state := s\<lparr>ls_writing := None\<rparr>\<rparr>"
    have ok: "wr_written cur \<le> length (wr_source cur)" using s(2) Some by (simp add: writing_ok_def)
    have bytes: "drop (wr_written cur) (wr_source cur) @ concat (ls_write_list (el_state ?el)) = pending (el_state el)"
      using s(1) Some by (simp add: pending_def cur_bytes_def)
    have fr: "write_post (pending (el_state el)) el r" if "write_post (pending (el_state el)) ?el r" for r
      using that s(3) by (auto simp: write_post_def write_frame_def)
    show ?thesis
      using returns_mono [OF write_one_returns [OF ok, of "pty_writes (el_pty el)" ?el, unfolded bytes] fr] Some
      by (simp add: pty_write_def s_def [symmetric] take_current_def)
  qed
qed

text \<open>Draining the channel moves its messages to the queue, up to a request to shut down.\<close>

lemma recv_queued:
  assumes "rx_recv rx = Some (m, rx')"
  shows "queued rx = (case m of None \<Rightarrow> [] | Some m \<Rightarrow> msg_bytes m) @ queued rx' \<and> rx_closed rx' = rx_closed rx"
  using assms by (auto simp: rx_recv_def queued_def split: if_splits list.splits)

lemma rx_recv_total: "\<not> rx_closed rx \<Longrightarrow> \<exists>m rx'. rx_recv rx = Some (m, rx')"
  by (cases "rx_peeked rx"; cases "rx_queue rx") (auto simp: rx_recv_def)

lemma pending_push: "pending (s\<lparr>ls_write_list := ls_write_list s @ [b]\<rparr>) = pending s @ b"
  by (simp add: pending_def)

lemma drain_returns:
  "\<not> rx_closed (el_rx el) \<Longrightarrow> returns (drain_recv_channel el) (\<lambda>(go, el'). sent_bytes el' = sent_bytes el \<and> el_pty el' = (el_pty el)\<lparr>pty_sizes := pty_sizes (el_pty el')\<rparr>
     \<and> ls_writing (el_state el') = ls_writing (el_state el) \<and> ls_parser (el_state el') = ls_parser (el_state el)
     \<and> el_terminal el' = el_terminal el \<and> \<not> rx_closed (el_rx el'))"
proof (induction el rule: drain_recv_channel.induct)
  case (1 el)
  obtain m rx where r: "rx_recv (el_rx el) = Some (m, rx)"
    using rx_recv_total [OF "1.prems"] by blast
  note q = recv_queued [OF r]
  show ?case
  proof (cases m)
    case None
    then show ?thesis using q "1.prems" by (simp add: drain_recv_channel.simps [of el] r sent_bytes_def)
  next
    case (Some x)
    show ?thesis
    proof (cases x)
      case (MsgInput b)
      let ?el = "el\<lparr>el_rx := rx, el_state := (el_state el)\<lparr>ls_write_list := ls_write_list (el_state el) @ [b]\<rparr>\<rparr>"
      have "sent_bytes ?el = sent_bytes el" using q Some MsgInput by (simp add: sent_bytes_def pending_push msg_bytes_def)
      then show ?thesis
        using "1.IH"(1) [OF r refl Some MsgInput] q "1.prems" Some MsgInput
        by (simp add: drain_recv_channel.simps [of el] r)
    next
      case MsgShutdown
      then show ?thesis using q "1.prems" Some by (simp add: drain_recv_channel.simps [of el] r sent_bytes_def msg_bytes_def)
    next
      case (MsgResize ws)
      let ?el = "el\<lparr>el_rx := rx, el_pty := (el_pty el)\<lparr>pty_sizes := pty_sizes (el_pty el) @ [ws]\<rparr>\<rparr>"
      have "sent_bytes ?el = sent_bytes el" using q Some MsgResize by (simp add: sent_bytes_def msg_bytes_def)
      then show ?thesis
        using "1.IH"(2) [OF r refl Some MsgResize] q "1.prems" Some MsgResize
        by (simp add: drain_recv_channel.simps [of el] r)
    qed
  qed
qed

text \<open>Reading touches neither the queue nor the channel.\<close>

definition read_frame :: "'p event_loop \<Rightarrow> 'p event_loop \<Rightarrow> bool" where
  "read_frame el el' \<longleftrightarrow> ls_write_list (el_state el') = ls_write_list (el_state el) \<and> ls_writing (el_state el') = ls_writing (el_state el)
     \<and> el_rx el' = el_rx el \<and> pty_written (el_pty el') = pty_written (el_pty el) \<and> el_writable el' = el_writable el"

lemma read_frame_simps [simp]:
  "read_frame el el" "read_frame el (el\<lparr>el_proxy := es\<rparr>)" "read_frame el (el\<lparr>el_terminal := t\<rparr>)"
  "read_frame el (process_bytes v buf el)"
  by (simp_all add: read_frame_def process_bytes_def case_prod_beta)

lemma read_frame_trans: "read_frame a b \<Longrightarrow> read_frame b c \<Longrightarrow> read_frame a c"
  by (simp add: read_frame_def)

lemma read_frame_pty: "read_frame (el\<lparr>el_pty := p\<rparr>) el' \<Longrightarrow> pty_written p = pty_written (el_pty el) \<Longrightarrow> read_frame el el'"
  by (simp add: read_frame_def)

lemma read_frame_sent: "read_frame el el' \<Longrightarrow> sent_bytes el' = sent_bytes el \<and> (loop_ok el' \<longleftrightarrow> loop_ok el)"
  by (simp add: read_frame_def sent_bytes_def pending_def loop_ok_def writing_ok_def)

text \<open>What the read loop does: the bytes that arrive go to the parser in order; only a fatal error leaves some behind.\<close>

definition feed :: "'p vte \<Rightarrow> byte list list \<Rightarrow> 'p \<times> terminal \<Rightarrow> 'p \<times> terminal" where
  "feed v chunks = fold (\<lambda>c (p, t). v_advance v p t c) chunks"

abbreviation parser_term :: "'p event_loop \<Rightarrow> 'p \<times> terminal" where
  "parser_term el \<equiv> (ls_parser (el_state el), el_terminal el)"

definition read_post :: "'p vte \<Rightarrow> byte list \<Rightarrow> nat \<Rightarrow> 'p event_loop \<Rightarrow> io_error option \<times> nat \<times> 'p event_loop \<Rightarrow> bool" where
  "read_post v buf processed el r \<longleftrightarrow> (case r of (err, processed', el') \<Rightarrow> read_frame el el' \<and> el_proxy el' = el_proxy el \<and>
     (\<exists>new chunks lost. pty_delivered (el_pty el') = pty_delivered (el_pty el) @ new
        \<and> buf @ new = concat chunks @ lost \<and> parser_term el' = feed v chunks (parser_term el)
        \<and> processed' = processed + length (concat chunks)
        \<and> (err = None \<longrightarrow> lost = []) \<and> processed' \<le> MAX_LOCKED_READ + READ_BUFFER_SIZE))"

lemma read_postI:
  assumes "read_frame el el'" "el_proxy el' = el_proxy el" "pty_delivered (el_pty el') = pty_delivered (el_pty el) @ new"
    "buf @ new = concat chunks @ lost" "parser_term el' = feed v chunks (parser_term el)"
    "processed' = processed + length (concat chunks)" "err = None \<longrightarrow> lost = []" "processed' \<le> MAX_LOCKED_READ + READ_BUFFER_SIZE"
  shows "read_post v buf processed el (err, processed', el')"
  using assms unfolding read_post_def prod.case by blast

lemma feed_simps [simp]: "feed v [] pt = pt" "feed v (c # cs) pt = feed v cs (v_advance v (fst pt) (snd pt) c)"
  by (simp_all add: feed_def case_prod_beta)

lemma process_bytes_simps [simp]:
  "parser_term (process_bytes v buf el) = v_advance v (ls_parser (el_state el)) (el_terminal el) buf"
  "el_pty (process_bytes v buf el) = el_pty el" "el_proxy (process_bytes v buf el) = el_proxy el"
  by (simp_all add: process_bytes_def case_prod_beta)

lemma read_post_processed:
  assumes "read_post v [] (processed + length buf) (process_bytes v buf el) r"
  shows "read_post v buf processed el r"
proof -
  obtain err processed' el' where r: "r = (err, processed', el')" by (cases r)
  obtain new chunks lost where p: "read_frame (process_bytes v buf el) el'" "el_proxy el' = el_proxy (process_bytes v buf el)"
    "pty_delivered (el_pty el') = pty_delivered (el_pty (process_bytes v buf el)) @ new" "[] @ new = concat chunks @ lost"
    "parser_term el' = feed v chunks (parser_term (process_bytes v buf el))"
    "processed' = processed + length buf + length (concat chunks)" "err = None \<longrightarrow> lost = []" "processed' \<le> MAX_LOCKED_READ + READ_BUFFER_SIZE"
    using assms unfolding r read_post_def prod.case by blast
  show ?thesis
    unfolding r
    by (rule read_postI [of _ _ new _ "buf # chunks" lost])
      (use p read_frame_trans [OF read_frame_simps(4) p(1)] in \<open>simp_all del: process_bytes_simps(1) add: process_bytes_simps(1) [symmetric]\<close>)
qed

lemma read_post_delivered:
  assumes "read_post v (buf @ got) processed (el\<lparr>el_pty := (el_pty el)\<lparr>pty_reads := rs, pty_delivered := pty_delivered (el_pty el) @ got\<rparr>\<rparr>) r"
  shows "read_post v buf processed el r"
  using assms by (fastforce simp: read_post_def read_frame_def)

lemma read_loop_post:
  assumes "length buf \<le> READ_BUFFER_SIZE" "processed < MAX_LOCKED_READ"
  shows "read_post v buf processed el (read_loop v outs buf processed locked el)"
  using assms
proof (induction outs arbitrary: buf processed locked el)
  case Nil
  have "read_post v buf processed el (None, processed + length buf, process_bytes v buf (el\<lparr>el_pty := (el_pty el)\<lparr>pty_reads := []\<rparr>\<rparr>))"
    by (rule read_postI [of _ _ "[]" _ "[buf]" "[]"]) (use Nil in \<open>auto simp: read_frame_def process_bytes_def case_prod_beta\<close>)
  moreover have "read_post v [] processed el (None, processed, el\<lparr>el_pty := (el_pty el)\<lparr>pty_reads := []\<rparr>\<rparr>)"
    by (rule read_postI [of _ _ "[]" _ "[]" "[]"]) (use Nil in \<open>auto simp: read_frame_def\<close>)
  ultimately show ?case by (simp add: Let_def)
next
  case (Cons o1 rest)
  obtain res tl where o1: "o1 = (res, tl)" by (cases o1)
  define go where "go buf el =
      (if \<not> locked \<and> \<not> tl \<and> length buf < READ_BUFFER_SIZE then read_loop v rest buf processed False el
       else let el = process_bytes v buf el; processed = processed + length buf in
         if processed \<ge> MAX_LOCKED_READ then (None, processed, el) else read_loop v rest [] processed True el)" for buf el
  have go: "read_post v buf processed el (go buf el)" if b: "length buf \<le> READ_BUFFER_SIZE" for buf el
  proof (cases "\<not> locked \<and> \<not> tl \<and> length buf < READ_BUFFER_SIZE")
    case True
    then show ?thesis using Cons.IH [OF b Cons.prems(2)] by (simp add: go_def)
  next
    case False
    let ?el = "process_bytes v buf el" and ?n = "processed + length buf"
    have "read_post v [] ?n ?el (if ?n \<ge> MAX_LOCKED_READ then (None, ?n, ?el) else read_loop v rest [] ?n True ?el)"
    proof (cases "?n \<ge> MAX_LOCKED_READ")
      case True
      have "read_post v [] ?n ?el (None, ?n, ?el)"
        by (rule read_postI [of _ _ "[]" _ "[]" "[]"]) (use b Cons.prems(2) in auto)
      then show ?thesis using True by simp
    next
      case False
      then show ?thesis using Cons.IH [of "[]" ?n ?el True] by simp
    qed
    then have "read_post v buf processed el (if ?n \<ge> MAX_LOCKED_READ then (None, ?n, ?el) else read_loop v rest [] ?n True ?el)"
      by (rule read_post_processed)
    then show ?thesis unfolding go_def if_not_P [OF False] Let_def .
  qed
  let ?el = "el\<lparr>el_pty := (el_pty el)\<lparr>pty_reads := rest\<rparr>\<rparr>"
  have quit: "read_post v buf processed el (err, processed, ?el)" if "err = None \<longrightarrow> buf = []" for err
    by (rule read_postI [of _ _ "[]" _ "[]" buf]) (use that Cons.prems(2) in \<open>auto simp: read_frame_def\<close>)
  show ?case
  proof (cases res)
    case (Inl err)
    have "read_post v buf processed el (go buf ?el)"
      using read_post_delivered [of v buf "[]" processed el rest] go [OF Cons.prems(1), of ?el] by simp
    then show ?thesis
      using quit [of None] quit [of "Some err"] by (auto simp: o1 Inl go_def [symmetric] Let_def)
  next
    case (Inr bytes)
    define got where "got = take (READ_BUFFER_SIZE - length buf) bytes"
    let ?el' = "el\<lparr>el_pty := (el_pty el)\<lparr>pty_reads := rest, pty_delivered := pty_delivered (el_pty el) @ got\<rparr>\<rparr>"
    have "length (buf @ got) \<le> READ_BUFFER_SIZE" using Cons.prems(1) by (simp add: got_def)
    then have "read_post v buf processed el (go (buf @ got) ?el')" by (intro read_post_delivered [OF go])
    moreover have "read_post v buf processed el (None, processed, ?el')" if "got = [] \<and> buf = []"
      using quit [of None] that by (simp add: read_post_def read_frame_def)
    ultimately show ?thesis
      by (auto simp: o1 Inr go_def [symmetric] got_def [symmetric] Let_def)
  qed
qed

text \<open>One iteration keeps the stream of sent bytes.\<close>

abbreviation flow_loop :: "'p flow \<Rightarrow> 'p event_loop" where
  "flow_loop f \<equiv> (case f of Next el \<Rightarrow> el | Stop el \<Rightarrow> el)"

lemma pty_read_frame: "read_frame el (snd (pty_read v el))"
proof -
  obtain err n el' where r: "read_loop v (pty_reads (el_pty el)) [] 0 False el = (err, n, el')" by (metis prod_cases3)
  have "read_frame el el'"
    using read_loop_post [of "[]" 0 v el "pty_reads (el_pty el)" False] r by (simp add: read_post_def MAX_LOCKED_READ_def)
  then show ?thesis
    by (auto simp: pty_read_def r proxy_send_def read_frame_def split: option.splits)
qed

lemma child_exited_frame: "read_frame el (child_exited v code el)"
proof -
  let ?el = "case code of None \<Rightarrow> el | Some code \<Rightarrow> proxy_send (ChildExit code) el"
  have "read_frame el ?el" by (simp add: proxy_send_def split: option.splits)
  moreover have "read_frame ?el (if el_drain_on_exit ?el then snd (pty_read v ?el) else ?el)" by (simp add: pty_read_frame)
  ultimately have "read_frame el (if el_drain_on_exit ?el then snd (pty_read v ?el) else ?el)" by (rule read_frame_trans)
  then show ?thesis by (auto simp: child_exited_def Let_def proxy_send_def read_frame_def)
qed

definition stream_kept :: "'p event_loop \<Rightarrow> 'p event_loop \<Rightarrow> bool" where
  "stream_kept el el' \<longleftrightarrow> sent_bytes el' = sent_bytes el \<and> loop_ok el' \<and> el_writable el' = el_writable el"

lemma stream_kept_trans: "stream_kept a b \<Longrightarrow> stream_kept b c \<Longrightarrow> stream_kept a c"
  by (simp add: stream_kept_def)

lemma stream_kept_read: "read_frame el el' \<Longrightarrow> loop_ok el \<Longrightarrow> stream_kept el el'"
  using read_frame_sent [of el el'] by (simp add: stream_kept_def read_frame_def)

lemma stream_kept_write:
  assumes "write_post (pending (el_state el)) el (err, el')" "loop_ok el"
  shows "stream_kept el el'"
proof -
  have "pty_written (el_pty el') @ pending (el_state el') = pty_written (el_pty el) @ pending (el_state el)" "el_rx el' = el_rx el"
    "writing_ok (el_state el')" "el_writable el' = el_writable el"
    using assms(1) by (simp_all add: write_post_def write_frame_def)
  then show ?thesis using assms(2) by (simp add: stream_kept_def sent_bytes_def loop_ok_def flip: append_assoc)
qed

lemma pty_write_kept:
  assumes "loop_ok el"
  shows "returns (pty_write el) (\<lambda>r. stream_kept el (snd r))"
proof (rule returns_mono [OF pty_write_returns])
  show "writing_ok (el_state el)" using assms by (simp add: loop_ok_def)
  show "stream_kept el (snd r)" if "write_post (pending (el_state el)) el r" for r
    using stream_kept_write [of el "fst r" "snd r"] that assms by simp
qed

lemma handle_event_returns:
  fixes el :: "'p event_loop"
  assumes "loop_ok el"
  shows "returns (handle_event v ev el) (\<lambda>f. stream_kept el (flow_loop f))"
proof (cases "pe_key ev")
  case PtyChildEventToken
  have p: "read_frame el (el\<lparr>el_pty := (el_pty el)\<lparr>pty_children := rest\<rparr>\<rparr>)" for rest by (simp add: read_frame_def)
  have "read_frame el (child_exited v code (el\<lparr>el_pty := (el_pty el)\<lparr>pty_children := rest\<rparr>\<rparr>))" for code rest
    by (rule read_frame_trans [OF p child_exited_frame])
  then show ?thesis
    using PtyChildEventToken stream_kept_read [OF _ assms] p
    by (auto simp: handle_event_def split: list.split option.split)
next
  case PtyReadWriteToken
  define r where "r = (if pe_readable ev then pty_read v el else (None, el))"
  obtain err el1 where r1: "r = (err, el1)" by (cases r)
  have "read_frame el el1" using pty_read_frame [of el v] r1 by (auto simp: r_def split: if_splits)
  then have ok: "stream_kept el el1" by (rule stream_kept_read [OF _ assms])
  then have "loop_ok el1" by (simp add: stream_kept_def)
  note w = returns_mono [OF pty_write_kept [OF this] stream_kept_trans [OF ok]]
  have "returns (map_option (\<lambda>(err, el). if err = None then Next el else Stop el) (pty_write el1)) (\<lambda>f. stream_kept el (flow_loop f))"
    unfolding returns_map_option by (rule returns_mono [OF w]) (auto split: if_split)
  then show ?thesis
    using PtyReadWriteToken ok stream_kept_read [OF _ assms, of el] r1 unfolding r_def
    by (simp add: handle_event_def split: option.split)
next
  case OtherToken
  then show ?thesis using stream_kept_read [OF _ assms, of el] by (simp add: handle_event_def)
qed

lemma handle_events_returns:
  fixes el :: "'p event_loop"
  shows "loop_ok el \<Longrightarrow> returns (handle_events v evs el) (\<lambda>f. stream_kept el (flow_loop f))"
proof (induction evs arbitrary: el)
  case Nil
  then show ?case using stream_kept_read [of el el] by simp
next
  case (Cons ev evs)
  show ?case
    unfolding handle_events.simps returns_bind
  proof (rule returns_mono [OF handle_event_returns [OF Cons.prems]])
    fix f :: "'p flow" assume f: "stream_kept el (flow_loop f)"
    show "returns (case f of Next el \<Rightarrow> handle_events v evs el | Stop el \<Rightarrow> Some (Stop el)) (\<lambda>f. stream_kept el (flow_loop f))"
    proof (cases f)
      case (Next el1)
      then have "stream_kept el el1" "loop_ok el1" using f by (simp_all add: stream_kept_def)
      then show ?thesis using returns_mono [OF Cons.IH stream_kept_trans] Next by simp
    next
      case (Stop el1)
      then show ?thesis using f by simp
    qed
  qed
qed

lemma loop_iteration_returns:
  fixes el :: "'p event_loop"
  assumes ok: "loop_ok el"
  shows "returns (loop_iteration v poll el) (\<lambda>f. sent_bytes (flow_loop f) = sent_bytes el \<and> loop_ok (flow_loop f)
     \<and> (\<forall>el'. f = Next el' \<longrightarrow> el_writable el = needs_write (el_state el) \<longrightarrow> el_writable el' = needs_write (el_state el')))"
proof (cases poll)
  case (Inl err)
  then show ?thesis using ok by (simp add: loop_iteration_def)
next
  case (Inr events)
  define x where "x = (if events = [] then rx_peek (el_rx el) else (None, el_rx el))"
  obtain peeked rx where x: "x = (peeked, rx)" by (cases x)
  let ?el = "el\<lparr>el_rx := rx\<rparr>"
  have rx: "queued rx = queued (el_rx el)" "rx_closed rx = rx_closed (el_rx el)"
    using x by (auto simp: x_def rx_peek_def queued_def Let_def split: if_splits list.splits option.splits)
  have el: "sent_bytes ?el = sent_bytes el" "loop_ok ?el" using rx ok by (simp_all add: sent_bytes_def loop_ok_def)
  show ?thesis
  proof (cases "events = [] \<and> peeked = None")
    case True
    obtain p t where pt: "v_stop_sync v (ls_parser (el_state el)) (el_terminal el) = (p, t)" by fastforce
    let ?el' = "proxy_send Wakeup (?el\<lparr>el_state := (el_state el)\<lparr>ls_parser := p\<rparr>, el_terminal := t\<rparr>)"
    have run: "loop_iteration v poll el = Some (Next ?el')"
      using Inr True x by (simp add: loop_iteration_def x_def pt)
    have fr: "read_frame ?el ?el'" "needs_write (el_state ?el') = needs_write (el_state el)" "el_writable ?el' = el_writable el"
      by (simp_all add: read_frame_def proxy_send_def needs_write_def)
    show ?thesis using read_frame_sent [OF fr(1)] el fr(2,3) by (simp add: run)
  next
    case False
    have drain: "returns (drain_recv_channel ?el) (\<lambda>(go, el'). sent_bytes el' = sent_bytes el \<and> loop_ok el')"
    proof (rule returns_mono [OF drain_returns])
      show "\<not> rx_closed (el_rx ?el)" using el(2) by (simp add: loop_ok_def)
      fix r assume "case r of (go, el') \<Rightarrow> sent_bytes el' = sent_bytes ?el \<and> el_pty el' = (el_pty ?el)\<lparr>pty_sizes := pty_sizes (el_pty el')\<rparr>
        \<and> ls_writing (el_state el') = ls_writing (el_state ?el) \<and> ls_parser (el_state el') = ls_parser (el_state ?el)
        \<and> el_terminal el' = el_terminal ?el \<and> \<not> rx_closed (el_rx el')"
      then show "case r of (go, el') \<Rightarrow> sent_bytes el' = sent_bytes el \<and> loop_ok el'"
        using el by (auto simp: loop_ok_def writing_ok_def)
    qed
    have "returns (do {
            (go, el) \<leftarrow> drain_recv_channel ?el;
            if \<not> go then Some (Stop el)
            else do {
              f \<leftarrow> handle_events v events el;
              Some (case f of Next el \<Rightarrow> Next (el\<lparr>el_writable := needs_write (el_state el)\<rparr>) | Stop el \<Rightarrow> Stop el)
            }
          }) (\<lambda>f. sent_bytes (flow_loop f) = sent_bytes el \<and> loop_ok (flow_loop f)
         \<and> (\<forall>el'. f = Next el' \<longrightarrow> el_writable el' = needs_write (el_state el')))"
      unfolding returns_bind
    proof (rule returns_mono [OF drain], clarify)
      fix go and el1 :: "'p event_loop" assume el1: "sent_bytes el1 = sent_bytes el" "loop_ok el1"
      have fin: "sent_bytes (el2\<lparr>el_writable := b\<rparr>) = sent_bytes el2" "loop_ok (el2\<lparr>el_writable := b\<rparr>) = loop_ok el2" for el2 :: "'p event_loop" and b
        by (simp_all add: sent_bytes_def loop_ok_def)
      have "returns (handle_events v events el1) (\<lambda>f. returns (Some (case f of Next el \<Rightarrow> Next (el\<lparr>el_writable := needs_write (el_state el)\<rparr>) | Stop el \<Rightarrow> Stop el))
         (\<lambda>f. sent_bytes (flow_loop f) = sent_bytes el \<and> loop_ok (flow_loop f)
         \<and> (\<forall>el'. f = Next el' \<longrightarrow> el_writable el' = needs_write (el_state el'))))"
        by (rule returns_mono [OF handle_events_returns [OF el1(2)]]) (auto simp: stream_kept_def fin el1(1) split: flow.splits)
      then show "returns (if \<not> go then Some (Stop el1)
            else do {
              f \<leftarrow> handle_events v events el1;
              Some (case f of Next el \<Rightarrow> Next (el\<lparr>el_writable := needs_write (el_state el)\<rparr>) | Stop el \<Rightarrow> Stop el)
            }) (\<lambda>f. sent_bytes (flow_loop f) = sent_bytes el \<and> loop_ok (flow_loop f)
         \<and> (\<forall>el'. f = Next el' \<longrightarrow> el_writable el' = needs_write (el_state el')))"
        using el1 by (cases go) simp_all
    qed
    then have "returns (loop_iteration v poll el) (\<lambda>f. sent_bytes (flow_loop f) = sent_bytes el \<and> loop_ok (flow_loop f)
         \<and> (\<forall>el'. f = Next el' \<longrightarrow> el_writable el' = needs_write (el_state el')))"
      using Inr x False by (auto simp: loop_iteration_def x_def [symmetric] Let_def)
    then show ?thesis by (rule returns_mono) blast
  qed
qed

end
