(* ===== verification/Event_Loop_Live.thy ===== *)
theory Event_Loop_Live
  imports Event_Loop
begin

text \<open>
  Progress of the event loop: whenever the pseudo terminal takes at least one byte of every write it was ready for, all
  bytes that were sent get written.
\<close>

definition nonfatal :: "(io_error + nat) list \<Rightarrow> bool" where
  "nonfatal outs \<longleftrightarrow> Inl Eio \<notin> set outs \<and> Inl OtherError \<notin> set outs"

definition chunks_ok :: "'p loop_state \<Rightarrow> bool" where
  "chunks_ok s \<longleftrightarrow> (\<forall>w. ls_writing s = Some w \<longrightarrow> wr_written w < length (wr_source w)) \<and> [] \<notin> set (ls_write_list s)"

definition accepts :: "(io_error + nat) list \<Rightarrow> bool" where
  "accepts outs \<longleftrightarrow> (\<exists>k rest. outs = Inr k # rest \<and> 1 \<le> k) \<and> nonfatal outs"

lemma nonfatal_Cons: "nonfatal (res # rest) \<longleftrightarrow> nonfatal rest \<and> (\<forall>e. res = Inl e \<longrightarrow> e = Interrupted \<or> e = WouldBlock)"
proof -
  have "e = Interrupted \<or> e = WouldBlock \<or> e = Eio \<or> e = OtherError" for e by (cases e) auto
  then show ?thesis by (auto simp: nonfatal_def)
qed

text \<open>What a write leaves is again a queue of chunks with bytes left, and the written bytes only grow.\<close>

definition write_live :: "nat \<Rightarrow> io_error option \<times> 'p event_loop \<Rightarrow> bool" where
  "write_live n r \<longleftrightarrow> fst r = None \<and> chunks_ok (el_state (snd r)) \<and> n \<le> length (pty_written (el_pty (snd r)))"

lemma write_live_mono: "write_live n r \<Longrightarrow> m \<le> n \<Longrightarrow> write_live m r"
  by (simp add: write_live_def)

lemma write_one_live:
  "wr_written cur < length (wr_source cur) \<Longrightarrow> [] \<notin> set (ls_write_list (el_state el)) \<Longrightarrow> nonfatal outs \<Longrightarrow>
   returns (write_one outs cur el)
     (write_live (length (pty_written (el_pty el)) + (if \<exists>k rest. outs = Inr k # rest \<and> 1 \<le> k then 1 else 0)))"
proof (induction outs arbitrary: cur el)
  case Nil
  then show ?case by (simp add: write_live_def chunks_ok_def set_current_def)
next
  case (Cons res rest)
  let ?b = "drop (wr_written cur) (wr_source cur)"
  have rem: "remaining_bytes cur = Some ?b" using Cons.prems by (simp add: remaining_bytes_def)
  have nf: "nonfatal rest" "\<And>e. res = Inl e \<Longrightarrow> e = Interrupted \<or> e = WouldBlock" using Cons.prems(3) by (auto simp: nonfatal_Cons)
  consider (err) e where "res = Inl e" | (zero) "res = Inr 0" | (some) k where "res = Inr k" "1 \<le> k"
    by (cases res) (auto simp: Suc_le_eq)
  then show ?case
  proof cases
    case err
    then show ?thesis using Cons.prems nf(2) [OF err] by (auto simp: rem Let_def write_live_def chunks_ok_def set_current_def)
  next
    case zero
    then show ?thesis using Cons.prems by (simp add: rem Let_def write_live_def chunks_ok_def set_current_def)
  next
    case some
    define n where "n = min k (length ?b)"
    define cur' where "cur' = writing_advance n cur"
    define el' where "el' = el\<lparr>el_pty := (el_pty el)\<lparr>pty_writes := rest, pty_written := pty_written (el_pty el) @ take n ?b\<rparr>\<rparr>"
    have n: "1 \<le> n" "n \<noteq> 0" using some(2) Cons.prems(1) by (simp_all add: n_def)
    have el': "el_state el' = el_state el" "length (pty_written (el_pty el')) = length (pty_written (el_pty el)) + n"
      by (simp_all add: el'_def n_def)
    note step = write_one_step [OF rem n_def n(2) cur'_def el'_def]
    have mono: "returns m (write_live (length (pty_written (el_pty el)) + 1))"
      if "returns m (write_live (length (pty_written (el_pty el')) + x))" for m and x :: nat
      by (rule returns_mono [OF that], rule write_live_mono, assumption) (use el'(2) n(1) in linarith)
    have "returns (write_one (Inr k # rest) cur el) (write_live (length (pty_written (el_pty el)) + 1))"
    proof (cases "finished cur'")
      case False
      have "wr_written cur' < length (wr_source cur')" using False by (simp add: finished_def)
      from Cons.IH [OF this _ nf(1), of el'] mono Cons.prems(2)
      show ?thesis unfolding step by (simp add: el'(1) False)
    next
      case True
      show ?thesis
      proof (cases "ls_write_list (el_state el)")
        case Nil
        then show ?thesis unfolding step using True n(1)
          by (simp add: el' goto_next_def take_current_def write_live_def chunks_ok_def)
      next
        case (Cons c cs)
        let ?el = "el'\<lparr>el_state := (el_state el)\<lparr>ls_write_list := cs, ls_writing := None\<rparr>\<rparr>"
        have c: "c \<noteq> []" "[] \<notin> set cs" using Cons.prems(2) Cons by auto
        have "wr_written (writing_new c) < length (wr_source (writing_new c))" using c by (simp add: writing_new_def)
        from Cons.IH [OF this _ nf(1), of ?el] mono c(2)
        have "returns (write_one rest (writing_new c) ?el) (write_live (length (pty_written (el_pty el)) + 1))" by simp
        then show ?thesis unfolding step using True Cons by (simp add: el'(1) goto_next_def take_current_def)
      qed
    qed
    then show ?thesis using some by simp
  qed
qed

lemma pending_nonempty: "chunks_ok s \<Longrightarrow> pending s = [] \<longleftrightarrow> \<not> needs_write s"
  by (auto simp: chunks_ok_def pending_def needs_write_def cur_bytes_def split: option.splits) (metis list.set_intros(1) neq_Nil_conv)+

lemma pty_write_live:
  assumes ok: "chunks_ok (el_state el)" and acc: "accepts (pty_writes (el_pty el))"
  shows "returns (pty_write el) (\<lambda>r. fst r = None \<and> chunks_ok (el_state (snd r))
     \<and> length (pending (el_state (snd r))) \<le> length (pending (el_state el)) - 1)"
proof -
  define s where "s = ensure_next (el_state el)"
  have wok: "writing_ok (el_state el)" using ok by (auto simp: chunks_ok_def writing_ok_def intro: less_imp_le)
  have s: "chunks_ok s" using ok by (auto simp: s_def ensure_next_def goto_next_def chunks_ok_def writing_new_def split: list.splits)
  have wl: "set (ls_write_list s) \<subseteq> set (ls_write_list (el_state el))"
    by (auto simp: s_def ensure_next_def goto_next_def split: list.splits)
  show ?thesis
  proof (cases "ls_writing s")
    case None
    then have "ls_write_list s = [] \<and> ls_writing (el_state el) = None \<and> ls_write_list (el_state el) = []"
      by (auto simp: s_def ensure_next_def goto_next_def split: if_splits list.splits)
    then show ?thesis using None s by (simp add: pty_write_def s_def [symmetric] take_current_def pending_def cur_bytes_def chunks_ok_def)
  next
    case (Some cur)
    let ?el = "el\<lparr>el_state := s\<lparr>ls_writing := None\<rparr>\<rparr>"
    have run: "pty_write el = write_one (pty_writes (el_pty el)) cur ?el"
      using Some by (simp add: pty_write_def s_def [symmetric] take_current_def)
    have "\<exists>k rest. pty_writes (el_pty el) = Inr k # rest \<and> 1 \<le> k" "nonfatal (pty_writes (el_pty el))"
      using acc by (auto simp: accepts_def)
    then have "returns (pty_write el) (write_live (length (pty_written (el_pty el)) + 1))"
      unfolding run using write_one_live [of cur ?el "pty_writes (el_pty el)"] s Some by (simp add: chunks_ok_def)
    from returns_conj [OF this pty_write_returns [OF wok]]
    show ?thesis
    proof (rule returns_mono)
      fix r assume r: "write_live (length (pty_written (el_pty el)) + 1) r \<and> write_post (pending (el_state el)) el r"
      have "pty_written (el_pty (snd r)) @ pending (el_state (snd r)) = pty_written (el_pty el) @ pending (el_state el)"
        using r by (auto simp: write_post_def)
      then have "length (pty_written (el_pty (snd r))) + length (pending (el_state (snd r)))
          = length (pty_written (el_pty el)) + length (pending (el_state el))" by (metis length_append)
      then show "fst r = None \<and> chunks_ok (el_state (snd r)) \<and> length (pending (el_state (snd r))) \<le> length (pending (el_state el)) - 1"
        using r by (auto simp: write_live_def)
    qed
  qed
qed

text \<open>The channel holds no empty chunk and no request to shut down.\<close>

definition msg_ok :: "msg \<Rightarrow> bool" where
  "msg_ok m \<longleftrightarrow> m \<noteq> MsgShutdown \<and> m \<noteq> MsgInput []"

definition rx_ok :: "receiver \<Rightarrow> bool" where
  "rx_ok rx \<longleftrightarrow> \<not> rx_closed rx \<and> (\<forall>m. rx_peeked rx = Some m \<longrightarrow> msg_ok m) \<and> (\<forall>m \<in> set (rx_queue rx). msg_ok m)"

lemma rx_recv_ok:
  assumes "rx_ok rx"
  obtains m rx' where "rx_recv rx = Some (Some m, rx')" "msg_ok m" "rx_ok rx'"
  | "rx_recv rx = Some (None, rx)" "queued rx = []"
proof (cases "rx_peeked rx")
  case None
  then show ?thesis
    using assms that by (cases "rx_queue rx") (auto simp: rx_recv_def rx_ok_def queued_def)
next
  case (Some m)
  then show ?thesis using assms that(1) [of m "rx\<lparr>rx_peeked := None\<rparr>"] by (simp add: rx_recv_def rx_ok_def)
qed

lemma drain_live:
  "rx_ok (el_rx el) \<Longrightarrow> chunks_ok (el_state el) \<Longrightarrow>
   returns (drain_recv_channel el) (\<lambda>(go, el'). go \<and> chunks_ok (el_state el') \<and> rx_ok (el_rx el') \<and> queued (el_rx el') = [])"
proof (induction el rule: drain_recv_channel.induct)
  case (1 el)
  from "1.prems"(1) show ?case
  proof (cases rule: rx_recv_ok)
    case (1 m rx)
    note r = this
    show ?thesis
    proof (cases m)
      case (MsgInput b)
      have "b \<noteq> []" using r(2) MsgInput by (simp add: msg_ok_def)
      then show ?thesis
        using "1.IH"(1) [OF r(1) refl refl MsgInput] r(3) "1.prems"(2) MsgInput
        by (simp add: drain_recv_channel.simps [of el] r(1) chunks_ok_def)
    next
      case MsgShutdown
      then show ?thesis using r(2) by (simp add: msg_ok_def)
    next
      case (MsgResize ws)
      then show ?thesis
        using "1.IH"(2) [OF r(1) refl refl MsgResize] r(3) "1.prems"(2) by (simp add: drain_recv_channel.simps [of el] r(1))
    qed
  next
    case 2
    then show ?thesis using "1.prems" by (simp add: drain_recv_channel.simps [of el])
  qed
qed

definition writable_event :: polling_event where
  "writable_event = \<lparr>pe_key = PtyReadWriteToken, pe_readable = False, pe_writable = True, pe_interrupt = False\<rparr>"

definition unwritten :: "'p event_loop \<Rightarrow> byte list" where
  "unwritten el = pending (el_state el) @ queued (el_rx el)"

lemma sent_unwritten: "sent_bytes el = pty_written (el_pty el) @ unwritten el"
  by (simp add: sent_bytes_def unwritten_def)

definition live :: "'p event_loop \<Rightarrow> bool" where
  "live el \<longleftrightarrow> chunks_ok (el_state el) \<and> rx_ok (el_rx el)"

lemma live_ok: "live el \<Longrightarrow> loop_ok el"
  by (auto simp: live_def loop_ok_def chunks_ok_def writing_ok_def rx_ok_def intro: less_imp_le)

lemma iteration_live:
  fixes el :: "'p event_loop"
  assumes el: "live el" and acc: "accepts (pty_writes (el_pty el))"
  shows "returns (loop_iteration v (Inr [writable_event]) el) (\<lambda>f. \<exists>el'. f = Next el' \<and> live el' \<and> sent_bytes el' = sent_bytes el
     \<and> queued (el_rx el') = [] \<and> length (unwritten el') \<le> length (unwritten el) - 1)"
proof -
  have ok: "loop_ok el" by (rule live_ok [OF el])
  then have open_rx: "\<not> rx_closed (el_rx el)" by (simp add: loop_ok_def)
  have l: "rx_ok (el_rx el)" "chunks_ok (el_state el)" using el by (simp_all add: live_def)
  have "returns (loop_iteration v (Inr [writable_event]) el) (\<lambda>f. \<exists>el'. f = Next el' \<and> live el' \<and> queued (el_rx el') = []
     \<and> length (pending (el_state el')) \<le> length (unwritten el) - 1)"
  proof -
    have d: "returns (drain_recv_channel el) (\<lambda>(go, el'). go \<and> chunks_ok (el_state el') \<and> rx_ok (el_rx el') \<and> queued (el_rx el') = []
        \<and> pending (el_state el') = unwritten el \<and> pty_writes (el_pty el') = pty_writes (el_pty el))"
    proof (rule returns_mono [OF returns_conj [OF drain_live [OF l] drain_returns [OF open_rx]]])
      fix r :: "bool \<times> 'p event_loop"
      obtain go el' where r: "r = (go, el')" by (cases r)
      assume "(case r of (go, el') \<Rightarrow> go \<and> chunks_ok (el_state el') \<and> rx_ok (el_rx el') \<and> queued (el_rx el') = [])
        \<and> (case r of (go, el') \<Rightarrow> sent_bytes el' = sent_bytes el \<and> el_pty el' = (el_pty el)\<lparr>pty_sizes := pty_sizes (el_pty el')\<rparr>
          \<and> ls_writing (el_state el') = ls_writing (el_state el) \<and> ls_parser (el_state el') = ls_parser (el_state el)
          \<and> el_terminal el' = el_terminal el \<and> \<not> rx_closed (el_rx el'))"
      then have a: go "chunks_ok (el_state el')" "rx_ok (el_rx el')" "queued (el_rx el') = []" "sent_bytes el' = sent_bytes el"
        "el_pty el' = (el_pty el)\<lparr>pty_sizes := pty_sizes (el_pty el')\<rparr>" unfolding r by simp_all
      have "pty_written (el_pty el') = pty_written (el_pty el) \<and> pty_writes (el_pty el') = pty_writes (el_pty el)"
        by (subst (1 2) a(6)) simp
      then show "case r of (go, el') \<Rightarrow> go \<and> chunks_ok (el_state el') \<and> rx_ok (el_rx el') \<and> queued (el_rx el') = []
          \<and> pending (el_state el') = unwritten el \<and> pty_writes (el_pty el') = pty_writes (el_pty el)"
        using a(1-5) by (simp add: r sent_bytes_def unwritten_def)
    qed
    have h: "returns (handle_events v [writable_event] el1) (\<lambda>f. \<exists>el'. f = Next el' \<and> live el' \<and> queued (el_rx el') = []
        \<and> length (pending (el_state el')) \<le> length (unwritten el) - 1)"
      if el1: "chunks_ok (el_state el1)" "rx_ok (el_rx el1)" "queued (el_rx el1) = []" "pending (el_state el1) = unwritten el"
        "pty_writes (el_pty el1) = pty_writes (el_pty el)" for el1 :: "'p event_loop"
    proof -
      have acc1: "accepts (pty_writes (el_pty el1))" using acc el1(5) by simp
      have "writing_ok (el_state el1)" using el1(1) by (auto simp: chunks_ok_def writing_ok_def intro: less_imp_le)
      note w = returns_conj [OF pty_write_live [OF el1(1) acc1] pty_write_returns [OF this]]
      have "returns (pty_write el1) (\<lambda>r. fst r = None \<and> live (snd r) \<and> queued (el_rx (snd r)) = []
          \<and> length (pending (el_state (snd r))) \<le> length (unwritten el) - 1)"
        by (rule returns_mono [OF w]) (use el1 in \<open>auto simp: live_def write_post_def write_frame_def\<close>)
      then obtain el2 where "pty_write el1 = Some (None, el2)" "live el2" "queued (el_rx el2) = []"
        "length (pending (el_state el2)) \<le> length (unwritten el) - 1" unfolding returns_def by auto
      then show ?thesis by (simp add: handle_event_def writable_event_def)
    qed
    have "returns (do {
            (go, el) \<leftarrow> drain_recv_channel el;
            if \<not> go then Some (Stop el)
            else do {
              f \<leftarrow> handle_events v [writable_event] el;
              Some (case f of Next el \<Rightarrow> Next (el\<lparr>el_writable := needs_write (el_state el)\<rparr>) | Stop el \<Rightarrow> Stop el)
            }
          }) (\<lambda>f. \<exists>el'. f = Next el' \<and> live el' \<and> queued (el_rx el') = [] \<and> length (pending (el_state el')) \<le> length (unwritten el) - 1)"
      unfolding returns_bind
    proof (rule returns_mono [OF d], clarify)
      fix go and el1 :: "'p event_loop"
      assume a: "chunks_ok (el_state el1)" "rx_ok (el_rx el1)" "queued (el_rx el1) = []" "pending (el_state el1) = unwritten el"
        "pty_writes (el_pty el1) = pty_writes (el_pty el)" and go
      obtain el2 where "handle_events v [writable_event] el1 = Some (Next el2)" "live el2" "queued (el_rx el2) = []"
        "length (pending (el_state el2)) \<le> length (unwritten el) - 1" using h [OF a] unfolding returns_def by blast
      then show "returns (if \<not> go then Some (Stop el1)
            else do {
              f \<leftarrow> handle_events v [writable_event] el1;
              Some (case f of Next el \<Rightarrow> Next (el\<lparr>el_writable := needs_write (el_state el)\<rparr>) | Stop el \<Rightarrow> Stop el)
            }) (\<lambda>f. \<exists>el'. f = Next el' \<and> live el' \<and> queued (el_rx el') = [] \<and> length (pending (el_state el')) \<le> length (unwritten el) - 1)"
        using \<open>go\<close> by (simp add: live_def)
    qed
    then show ?thesis by (simp add: loop_iteration_def)
  qed
  from returns_conj [OF this loop_iteration_returns [OF ok]]
  show ?thesis by (rule returns_mono) (auto simp: unwritten_def)
qed

text \<open>Writable events, each with what the writes during that event will give.\<close>

fun write_rounds :: "'p vte \<Rightarrow> (io_error + nat) list list \<Rightarrow> 'p event_loop \<Rightarrow> 'p flow option" where
  "write_rounds v [] el = Some (Next el)"
| "write_rounds v (outs # rounds) el = do {
     f \<leftarrow> loop_iteration v (Inr [writable_event]) (el\<lparr>el_pty := (el_pty el)\<lparr>pty_writes := outs\<rparr>\<rparr>);
     case f of Next el \<Rightarrow> write_rounds v rounds el | Stop el \<Rightarrow> Some (Stop el)
   }"

lemma write_rounds_live:
  fixes el :: "'p event_loop"
  assumes "live el" "list_all accepts rounds" "length (unwritten el) \<le> length rounds"
  shows "returns (write_rounds v rounds el) (\<lambda>f. \<exists>el'. f = Next el' \<and> live el' \<and> unwritten el' = [] \<and> pty_written (el_pty el') = sent_bytes el)"
  using assms
proof (induction rounds arbitrary: el)
  case Nil
  then show ?case by (simp add: sent_unwritten)
next
  case (Cons outs rounds)
  let ?el = "el\<lparr>el_pty := (el_pty el)\<lparr>pty_writes := outs\<rparr>\<rparr>"
  have s: "live ?el" "sent_bytes ?el = sent_bytes el" "unwritten ?el = unwritten el" "accepts (pty_writes (el_pty ?el))"
    using Cons.prems by (simp_all add: live_def sent_bytes_def unwritten_def)
  obtain el1 where el1: "loop_iteration v (Inr [writable_event]) ?el = Some (Next el1)" "live el1" "sent_bytes el1 = sent_bytes el"
    "length (unwritten el1) \<le> length (unwritten el) - 1"
    using iteration_live [OF s(1,4), of v] s(2,3) unfolding returns_def by auto
  have "length (unwritten el1) \<le> length rounds" using el1(4) Cons.prems(3) by simp
  from Cons.IH [OF el1(2) _ this] Cons.prems(2) el1(3) show ?case by (simp add: el1(1))
qed

end
