(* ===== verification/Props_Loop.thy ===== *)
theory Props_Loop
  imports Event_Loop_Live Demo
begin

text \<open>The properties of the event loop, and a small loop on which they are applied.\<close>

definition demo_vte :: "nat vte" where
  "demo_vte = \<lparr>v_advance = (\<lambda>p t b. (p + length b, t)), v_sync_bytes_count = (\<lambda>p. 0), v_stop_sync = (\<lambda>p t. (p, t))\<rparr>"

definition demo_loop_start :: "nat event_loop" where
  "demo_loop_start = loop_start 0 demo_term False False"

definition demo_loop :: "nat event_loop" where
  "demo_loop = demo_loop_start\<lparr>el_rx := notify [1, 2] (notify [3] (el_rx demo_loop_start))\<rparr>"

lemma reachable_ok: "loop_reachable v el \<Longrightarrow> loop_ok el \<and> el_writable el = needs_write (el_state el)"
proof (induction rule: loop_reachable.induct)
  case (start p t drain recording)
  then show ?case by (simp add: loop_start_def loop_ok_def writing_ok_def needs_write_def)
next
  case (sent el m)
  then show ?case by (simp add: loop_ok_def send_def)
next
  case (environment el reads writes children t)
  then show ?case by (simp add: loop_ok_def)
next
  case (iteration el poll el')
  then show ?case using returnsD [OF loop_iteration_returns, of el v poll "Next el'"] by simp
qed

text \<open>C27: The event loop is a lossless first-in first-out channel to the child process: the bytes already written to the pseudo
  terminal, followed by those of the chunk being written, the queued chunks and the messages in the channel, are the
  bytes sent so far. Sending appends to this stream, and no iteration, whatever the poller and the operating system
  answer, changes it or panics.\<close>

theorem event_loop_is_fifo:
  assumes "loop_reachable v el"
  shows "returns (loop_iteration v poll el) (\<lambda>f. sent_bytes (flow_loop f) = sent_bytes el)
     \<and> sent_bytes (el\<lparr>el_rx := notify bytes (el_rx el)\<rparr>) = sent_bytes el @ bytes
     \<and> sent_bytes el = pty_written (el_pty el) @ pending (el_state el) @ queued (el_rx el)"
proof -
  have "loop_ok el" using reachable_ok [OF assms] by simp
  then have "returns (loop_iteration v poll el) (\<lambda>f. sent_bytes (flow_loop f) = sent_bytes el)"
    by (rule returns_mono [OF loop_iteration_returns]) blast
  then show ?thesis by (simp add: sent_bytes_def notify_def send_def queued_def msg_bytes_def)
qed

lemma demo_loop_reachable: "loop_reachable v demo_loop"
proof -
  have "loop_reachable v demo_loop_start" unfolding demo_loop_start_def by (rule loop_reachable.start)
  then have "loop_reachable v (demo_loop_start\<lparr>el_rx := send (MsgInput [3]) (el_rx demo_loop_start)\<rparr>)"
    by (rule loop_reachable.sent)
  from loop_reachable.sent [OF this, of "MsgInput [1, 2]"] show ?thesis by (simp add: demo_loop_def notify_def)
qed

theorem event_loop_witness: "returns (loop_iteration demo_vte (Inr []) demo_loop) (\<lambda>f. sent_bytes (flow_loop f) = [3, 1, 2])"
proof -
  have "sent_bytes demo_loop = [3, 1, 2]"
    by (simp add: demo_loop_def demo_loop_start_def loop_start_def sent_bytes_def pending_def cur_bytes_def queued_def notify_def send_def msg_bytes_def)
  moreover have "returns (loop_iteration demo_vte (Inr []) demo_loop) (\<lambda>f. sent_bytes (flow_loop f) = sent_bytes demo_loop)"
    using event_loop_is_fifo [OF demo_loop_reachable, of demo_vte "Inr []" "[]"] by blast
  ultimately show ?thesis by simp
qed

text \<open>At the start of every iteration the loop is registered for writability exactly when it has something to write.\<close>

theorem write_interest_tracks_queue:
  "loop_reachable v el \<Longrightarrow> el_writable el \<longleftrightarrow> ls_writing (el_state el) \<noteq> None \<or> ls_write_list (el_state el) \<noteq> []"
  using reachable_ok [of v el] by (auto simp: needs_write_def)

theorem write_interest_witness: "\<not> el_writable demo_loop"
  using write_interest_tracks_queue [OF demo_loop_reachable] by (simp add: demo_loop_def demo_loop_start_def loop_start_def)

text \<open>C28: Everything that was sent gets written: if every time the pseudo terminal is reported writable it takes at least one
  byte of the first write, and no write fails for good, then after at most as many such events as there are unwritten
  bytes, all of them have been written in order and the loop has nothing left to write.\<close>

theorem queued_bytes_get_written:
  assumes "chunks_ok (el_state el)" "rx_ok (el_rx el)" "list_all accepts rounds" "length (unwritten el) \<le> length rounds"
  shows "returns (write_rounds v rounds el) (\<lambda>f. \<exists>el'. f = Next el' \<and> \<not> needs_write (el_state el')
     \<and> pty_written (el_pty el') = sent_bytes el)"
proof -
  have "live el" using assms by (simp add: live_def)
  from write_rounds_live [OF this assms(3,4), of v] show ?thesis
    by (rule returns_mono) (auto simp: unwritten_def live_def pending_nonempty)
qed

theorem queued_bytes_witness:
  "returns (write_rounds demo_vte [[Inr 1], [Inr 5, Inl WouldBlock], [Inr 1]] demo_loop) (\<lambda>f. \<exists>el'. f = Next el' \<and> pty_written (el_pty el') = [3, 1, 2])"
proof -
  have s: "sent_bytes demo_loop = [3, 1, 2]" "unwritten demo_loop = [3, 1, 2]"
    by (simp_all add: demo_loop_def demo_loop_start_def loop_start_def sent_bytes_def unwritten_def pending_def cur_bytes_def queued_def notify_def send_def msg_bytes_def)
  have "chunks_ok (el_state demo_loop)" "rx_ok (el_rx demo_loop)"
    by (simp_all add: demo_loop_def demo_loop_start_def loop_start_def chunks_ok_def rx_ok_def msg_ok_def notify_def send_def)
  from queued_bytes_get_written [OF this, of "[[Inr 1], [Inr 5, Inl WouldBlock], [Inr 1]]" demo_vte]
  have "returns (write_rounds demo_vte [[Inr 1], [Inr 5, Inl WouldBlock], [Inr 1]] demo_loop) (\<lambda>f. \<exists>el'. f = Next el' \<and> \<not> needs_write (el_state el')
     \<and> pty_written (el_pty el') = [3, 1, 2])" by (simp add: s accepts_def nonfatal_def)
  then show ?thesis by (rule returns_mono) blast
qed

text \<open>Reading from the pseudo terminal gives the bytes that arrive to the parser in order and each of them once, in
  chunks, and at most a buffer more than the bound on bytes processed under one lock. Only a read that fails for good
  leaves bytes unprocessed. The interface is told to redraw iff the parser has not buffered all of the bytes.\<close>

theorem pty_read_feeds_parser:
  assumes "pty_read v el = (err, el')"
  shows "\<exists>new chunks lost. pty_delivered (el_pty el') = pty_delivered (el_pty el) @ new \<and> new = concat chunks @ lost
     \<and> (ls_parser (el_state el'), el_terminal el') = feed v chunks (ls_parser (el_state el), el_terminal el)
     \<and> length (concat chunks) \<le> MAX_LOCKED_READ + READ_BUFFER_SIZE
     \<and> (err = None \<longrightarrow> lost = [] \<and> el_proxy el' = el_proxy el
          @ (if v_sync_bytes_count v (ls_parser (el_state el')) < length new \<and> new \<noteq> [] then [Wakeup] else []))"
proof -
  obtain err' n el1 where r: "read_loop v (pty_reads (el_pty el)) [] 0 False el = (err', n, el1)" by (metis prod_cases3)
  obtain new chunks lost where p: "pty_delivered (el_pty el1) = pty_delivered (el_pty el) @ new" "new = concat chunks @ lost"
    "parser_term el1 = feed v chunks (parser_term el)" "n = length (concat chunks)" "err' = None \<longrightarrow> lost = []"
    "n \<le> MAX_LOCKED_READ + READ_BUFFER_SIZE" "el_proxy el1 = el_proxy el"
    using read_loop_post [of "[]" 0 v el "pty_reads (el_pty el)" False] r by (auto simp: read_post_def MAX_LOCKED_READ_def)
  have e: "err = err'" "ls_parser (el_state el') = ls_parser (el_state el1)" "el_terminal el' = el_terminal el1" "el_pty el' = el_pty el1"
    "err = None \<longrightarrow> el_proxy el' = el_proxy el1 @ (if v_sync_bytes_count v (ls_parser (el_state el1)) < n \<and> n > 0 then [Wakeup] else [])"
    using assms by (auto simp: pty_read_def r proxy_send_def split: option.splits if_splits)
  have none: "lost = [] \<and> el_proxy el' = el_proxy el
      @ (if v_sync_bytes_count v (ls_parser (el_state el')) < length new \<and> new \<noteq> [] then [Wakeup] else [])" if "err = None"
  proof -
    have lost: "lost = []" using that e(1) p(5) by simp
    then have "n = length new" using p(2,4) by simp
    then show ?thesis using lost e(2,5) p(7) that by simp
  qed
  show ?thesis
    by (rule exI [of _ new], rule exI [of _ chunks], rule exI [of _ lost], intro conjI impI)
      (use p(1-4,6) e(2-4) none in \<open>simp_all only:\<close>)
qed

theorem pty_read_witness:
  "\<exists>chunks. pty_delivered (el_pty (snd (pty_read demo_vte (demo_loop\<lparr>el_pty := (el_pty demo_loop)\<lparr>pty_reads := [(Inr [7, 8], True)]\<rparr>\<rparr>)))) = concat chunks
     \<and> concat chunks = [7, 8]"
proof -
  let ?el = "demo_loop\<lparr>el_pty := (el_pty demo_loop)\<lparr>pty_reads := [(Inr [7, 8], True)]\<rparr>\<rparr>"
  have run: "fst (pty_read demo_vte ?el) = None" "pty_delivered (el_pty (snd (pty_read demo_vte ?el))) = [7, 8]"
    by (simp_all add: pty_read_def demo_loop_def demo_loop_start_def loop_start_def demo_vte_def process_bytes_def proxy_send_def
        READ_BUFFER_SIZE_def MAX_LOCKED_READ_def)
  have start: "pty_delivered (el_pty ?el) = []" by (simp add: demo_loop_def demo_loop_start_def loop_start_def)
  obtain new chunks lost where "pty_delivered (el_pty (snd (pty_read demo_vte ?el))) = pty_delivered (el_pty ?el) @ new"
    "new = concat chunks @ lost" "fst (pty_read demo_vte ?el) = None \<longrightarrow> lost = []"
    using pty_read_feeds_parser [of demo_vte ?el "fst (pty_read demo_vte ?el)" "snd (pty_read demo_vte ?el)"] by auto
  then have "pty_delivered (el_pty (snd (pty_read demo_vte ?el))) = concat chunks" using run(1) start by simp
  then show ?thesis using run(2) by (intro exI [of _ chunks]) simp
qed

text \<open>C29: When a read fails for good, as on Linux after the child has hung up, bytes that were read before but could not be
  parsed because another thread held the terminal are lost: the child's last output never reaches the screen.\<close>

theorem read_error_loses_output:
  assumes "pty_reads (el_pty el) = [(Inr bytes, False), (Inl Eio, False)]" "bytes \<noteq> []" "length bytes < READ_BUFFER_SIZE"
  shows "\<exists>el'. pty_read v el = (Some Eio, el') \<and> pty_delivered (el_pty el') = pty_delivered (el_pty el) @ bytes
     \<and> el_terminal el' = el_terminal el \<and> ls_parser (el_state el') = ls_parser (el_state el) \<and> pty_reads (el_pty el') = []"
  using assms by (simp add: pty_read_def)

theorem read_error_witness:
  "\<exists>el'. pty_read demo_vte (demo_loop\<lparr>el_pty := (el_pty demo_loop)\<lparr>pty_reads := [(Inr [7], False), (Inl Eio, False)]\<rparr>\<rparr>) = (Some Eio, el')
     \<and> el_terminal el' = el_terminal demo_loop"
  using read_error_loses_output [of "demo_loop\<lparr>el_pty := (el_pty demo_loop)\<lparr>pty_reads := [(Inr [7], False), (Inl Eio, False)]\<rparr>\<rparr>" "[7]" demo_vte]
  by (auto simp: READ_BUFFER_SIZE_def)

text \<open>An empty chunk at the head of the queue is never finished, since no write of it makes progress: whatever the
  writes would give, nothing behind it is ever written. \<^verbatim>\<open>Notifier::notify\<close> keeps empty chunks out of the channel.\<close>

theorem empty_chunk_blocks_queue:
  assumes "ls_writing (el_state el) = None" "ls_write_list (el_state el) = [] # chunks" "nonfatal (pty_writes (el_pty el))"
  shows "returns (pty_write el) (\<lambda>(err, el'). err = None \<and> pty_written (el_pty el') = pty_written (el_pty el)
     \<and> ls_writing (el_state el') = Some (writing_new []) \<and> ls_write_list (el_state el') = chunks) \<and> notify [] rx = rx"
proof -
  have "returns (write_one outs (writing_new []) el1) (\<lambda>(err, el'). err = None \<and> pty_written (el_pty el') = pty_written (el_pty el1)
     \<and> ls_writing (el_state el') = Some (writing_new []) \<and> ls_write_list (el_state el') = ls_write_list (el_state el1))"
    if "nonfatal outs" for outs and el1 :: "'a event_loop"
    using that by (cases outs) (auto simp: nonfatal_Cons remaining_bytes_def writing_new_def set_current_def Let_def split: sum.splits)
  from this [OF assms(3), of "el\<lparr>el_state := (el_state el)\<lparr>ls_write_list := chunks, ls_writing := None\<rparr>\<rparr>"] assms(1,2)
  show ?thesis by (simp add: pty_write_def ensure_next_def goto_next_def take_current_def notify_def)
qed

theorem empty_chunk_witness:
  "returns (pty_write (demo_loop\<lparr>el_state := (el_state demo_loop)\<lparr>ls_write_list := [[], [1]]\<rparr>, el_pty := (el_pty demo_loop)\<lparr>pty_writes := [Inr 9, Inr 9]\<rparr>\<rparr>))
     (\<lambda>(err, el'). ls_write_list (el_state el') = [[1]] \<and> pty_written (el_pty el') = [])"
  by (rule returns_mono [OF conjunct1 [OF empty_chunk_blocks_queue [where chunks = "[[1]]"]]])
    (auto simp: demo_loop_def demo_loop_start_def loop_start_def nonfatal_def)

end
