(* ===== verification/Scheduler.thy ===== *)
theory Scheduler
  imports Prelude "HOL-Library.Multiset"
begin

text \<open>
  The timers of the user interface: \<^verbatim>\<open>velacritty/src/scheduler.rs\<close>.

  Instants and durations are numbers of ticks of one clock. \<^verbatim>\<open>Instant::now()\<close> is read once by \<open>update\<close> and once for every
  repeating timer it schedules again; \<open>clock i\<close> is the i-th of these later readings. Events sent through the proxy are
  appended to \<open>sc_sent\<close>. The identifier of a window comes from the window library and is any number.
\<close>

datatype topic = SelectionScrolling | DelayedSearch | BlinkCursor | BlinkTimeout | Frame | ResizeDebounce

record timer_id =
  ti_topic :: topic
  ti_window :: nat

record 'e timer =
  tm_deadline :: nat
  tm_event :: 'e
  tm_id :: timer_id
  tm_interval :: "nat option"

record 'e scheduler =
  sc_timers :: "'e timer list"
  sc_sent :: "'e list"

definition scheduler_new :: "'e scheduler" where
  "scheduler_new = \<lparr>sc_timers = [], sc_sent = []\<rparr>"

text \<open>\<^verbatim>\<open>iter().position(p)\<close>\<close>

fun position :: "('a \<Rightarrow> bool) \<Rightarrow> 'a list \<Rightarrow> nat option" where
  "position p [] = None"
| "position p (x # xs) = (if p x then Some 0 else map_option Suc (position p xs))"

definition schedule :: "nat \<Rightarrow> 'e \<Rightarrow> nat \<Rightarrow> bool \<Rightarrow> timer_id \<Rightarrow> 'e scheduler \<Rightarrow> 'e scheduler" where
  "schedule now event interval repeat tid s =
     (let deadline = now + interval;
          index = (case position (\<lambda>t. tm_deadline t > deadline) (sc_timers s) of
                     None \<Rightarrow> length (sc_timers s) | Some i \<Rightarrow> i);
          t = \<lparr>tm_deadline = deadline, tm_event = event, tm_id = tid, tm_interval = (if repeat then Some interval else None)\<rparr>
      in s\<lparr>sc_timers := take index (sc_timers s) @ t # drop index (sc_timers s)\<rparr>)"

partial_function (option) update_loop :: "nat \<Rightarrow> (nat \<Rightarrow> nat) \<Rightarrow> nat \<Rightarrow> 'e scheduler \<Rightarrow> 'e scheduler option" where
  "update_loop now clock i s =
     (case sc_timers s of
        [] \<Rightarrow> Some s
      | t # ts \<Rightarrow>
          if tm_deadline t \<le> now
          then let s = s\<lparr>sc_timers := ts\<rparr>;
                   s = (case tm_interval t of
                          Some interval \<Rightarrow> schedule (clock i) (tm_event t) interval True (tm_id t) s
                        | None \<Rightarrow> s)
               in update_loop now clock (if tm_interval t = None then i else Suc i) (s\<lparr>sc_sent := sc_sent s @ [tm_event t]\<rparr>)
          else Some s)"

definition sched_update :: "nat \<Rightarrow> (nat \<Rightarrow> nat) \<Rightarrow> 'e scheduler \<Rightarrow> (nat option \<times> 'e scheduler) option" where
  "sched_update now clock s = do {
     s \<leftarrow> update_loop now clock 0 s;
     Some (case sc_timers s of [] \<Rightarrow> None | t # _ \<Rightarrow> Some (tm_deadline t), s)
   }"

definition unschedule :: "timer_id \<Rightarrow> 'e scheduler \<Rightarrow> 'e timer option \<times> 'e scheduler" where
  "unschedule tid s =
     (case position (\<lambda>t. tm_id t = tid) (sc_timers s) of
        None \<Rightarrow> (None, s)
      | Some i \<Rightarrow> (Some (sc_timers s ! i), s\<lparr>sc_timers := take i (sc_timers s) @ drop (Suc i) (sc_timers s)\<rparr>))"

definition scheduled :: "timer_id \<Rightarrow> 'e scheduler \<Rightarrow> bool" where
  "scheduled tid s \<longleftrightarrow> list_ex (\<lambda>t. tm_id t = tid) (sc_timers s)"

definition unschedule_window :: "nat \<Rightarrow> 'e scheduler \<Rightarrow> 'e scheduler" where
  "unschedule_window window s = s\<lparr>sc_timers := filter (\<lambda>t. ti_window (tm_id t) \<noteq> window) (sc_timers s)\<rparr>"

subsection \<open>The timers stay sorted\<close>

definition sched_sorted :: "'e scheduler \<Rightarrow> bool" where
  "sched_sorted s \<longleftrightarrow> sorted (map tm_deadline (sc_timers s))"

lemma position_split:
  "take (case position p xs of None \<Rightarrow> length xs | Some i \<Rightarrow> i) xs = takeWhile (\<lambda>x. \<not> p x) xs
   \<and> drop (case position p xs of None \<Rightarrow> length xs | Some i \<Rightarrow> i) xs = dropWhile (\<lambda>x. \<not> p x) xs"
  by (induction xs) (auto split: option.splits)

lemma position_Some: "position p xs = Some i \<Longrightarrow> i < length xs \<and> p (xs ! i)"
  by (induction xs arbitrary: i) (auto split: if_splits)

lemma position_None: "position p xs = None \<longleftrightarrow> (\<forall>x \<in> set xs. \<not> p x)"
  by (induction xs) auto

lemma schedule_timers:
  "sc_timers (schedule now ev interval repeat tid s) =
     takeWhile (\<lambda>t. tm_deadline t \<le> now + interval) (sc_timers s)
     @ \<lparr>tm_deadline = now + interval, tm_event = ev, tm_id = tid, tm_interval = (if repeat then Some interval else None)\<rparr>
     # dropWhile (\<lambda>t. tm_deadline t \<le> now + interval) (sc_timers s)"
  "sc_sent (schedule now ev interval repeat tid s) = sc_sent s"
  using position_split [where p = "\<lambda>t. tm_deadline t > now + interval" and xs = "sc_timers s"]
  by (simp_all add: schedule_def Let_def not_less)

lemma sorted_insert_split:
  "sorted (map f xs) \<Longrightarrow> f t = d \<Longrightarrow> sorted (map f (takeWhile (\<lambda>x. f x \<le> d) xs @ t # dropWhile (\<lambda>x. f x \<le> d) xs))"
proof (induction xs)
  case (Cons x xs)
  then show ?case
    by (cases "f x \<le> d") (auto dest: set_takeWhileD set_dropWhileD)
qed simp

lemma schedule_sorted: "sched_sorted s \<Longrightarrow> sched_sorted (schedule now ev interval repeat tid s)"
  unfolding sched_sorted_def schedule_timers(1) by (rule sorted_insert_split) simp_all

lemma sorted_remove:
  assumes "sorted (map f xs)" "i < length xs"
  shows "sorted (map f (take i xs @ drop (Suc i) xs))"
proof -
  have "sorted (map f (take i xs @ xs ! i # drop (Suc i) xs))" using assms id_take_nth_drop [OF assms(2)] by simp
  then show ?thesis by (auto simp: sorted_append)
qed

lemma unschedule_sorted: "sched_sorted s \<Longrightarrow> sched_sorted (snd (unschedule tid s))"
  unfolding sched_sorted_def unschedule_def
  by (auto split: option.split dest!: position_Some intro: sorted_remove simp del: map_append)

lemma unschedule_window_sorted: "sched_sorted s \<Longrightarrow> sched_sorted (unschedule_window w s)"
  by (simp add: sched_sorted_def unschedule_window_def sorted_filter)

subsection \<open>Update\<close>

text \<open>The timer that takes the place of a repeating one.\<close>

definition repeats_ok :: "'e scheduler \<Rightarrow> bool" where
  "repeats_ok s \<longleftrightarrow> (\<forall>t \<in> set (sc_timers s). tm_interval t \<noteq> Some 0)"

abbreviation due :: "nat \<Rightarrow> 'e scheduler \<Rightarrow> 'e timer list" where
  "due now s \<equiv> filter (\<lambda>t. tm_deadline t \<le> now) (sc_timers s)"

abbreviation later :: "nat \<Rightarrow> 'e scheduler \<Rightarrow> 'e timer list" where
  "later now s \<equiv> filter (\<lambda>t. \<not> tm_deadline t \<le> now) (sc_timers s)"

definition update_post :: "nat \<Rightarrow> 'e scheduler \<Rightarrow> 'e scheduler \<Rightarrow> bool" where
  "update_post now s s' \<longleftrightarrow> sched_sorted s' \<and> repeats_ok s' \<and> due now s' = [] \<and> sc_sent s' = sc_sent s @ map tm_event (due now s)
     \<and> image_mset tm_id (mset (sc_timers s')) = image_mset tm_id (mset (later now s) + mset (filter (\<lambda>t. tm_interval t \<noteq> None) (due now s)))
     \<and> set (later now s) \<subseteq> set (sc_timers s')"

lemma due_insert:
  assumes "now < d" "tm_deadline t = d"
  shows "filter (\<lambda>t. tm_deadline t \<le> now) (takeWhile (\<lambda>t. tm_deadline t \<le> d) ts @ t # dropWhile (\<lambda>t. tm_deadline t \<le> d) ts)
     = filter (\<lambda>t. tm_deadline t \<le> now) ts"
proof -
  have "filter (\<lambda>t. tm_deadline t \<le> now) (takeWhile (\<lambda>t. tm_deadline t \<le> d) ts) @ filter (\<lambda>t. tm_deadline t \<le> now) (dropWhile (\<lambda>t. tm_deadline t \<le> d) ts)
      = filter (\<lambda>t. tm_deadline t \<le> now) ts"
    by (simp flip: filter_append)
  then show ?thesis using assms by simp
qed

lemma later_insert:
  assumes "now < d" "tm_deadline t = d"
  shows "mset (filter (\<lambda>t. \<not> tm_deadline t \<le> now) (takeWhile (\<lambda>t. tm_deadline t \<le> d) ts @ t # dropWhile (\<lambda>t. tm_deadline t \<le> d) ts))
     = add_mset t (mset (filter (\<lambda>t. \<not> tm_deadline t \<le> now) ts))"
proof -
  have "mset (filter (\<lambda>t. \<not> tm_deadline t \<le> now) (takeWhile (\<lambda>t. tm_deadline t \<le> d) ts))
      + mset (filter (\<lambda>t. \<not> tm_deadline t \<le> now) (dropWhile (\<lambda>t. tm_deadline t \<le> d) ts))
      = mset (filter (\<lambda>t. \<not> tm_deadline t \<le> now) ts)"
    by (simp only: mset_append [symmetric] filter_append [symmetric] takeWhile_dropWhile_id)
  then show ?thesis using assms by simp
qed

lemma update_loop_returns:
  assumes "sched_sorted s" "repeats_ok s" "\<And>i. now \<le> clock i"
  shows "returns (update_loop now clock i s) (update_post now s)"
  using assms(1,2)
proof (induction "length (due now s)" arbitrary: s i)
  case 0
  then have none: "due now s = []" by simp
  have "update_loop now clock i s = Some s"
  proof (cases "sc_timers s")
    case (Cons t ts)
    then show ?thesis using none by (subst update_loop.simps) (simp split: if_splits)
  qed (subst update_loop.simps, simp)
  moreover have "later now s = sc_timers s" using none by (auto simp: filter_empty_conv filter_id_conv)
  ultimately show ?case using 0 none by (simp add: update_post_def)
next
  case (Suc n)
  obtain t ts where ts: "sc_timers s = t # ts" using Suc.hyps(2) by (cases "sc_timers s") auto
  have le: "tm_deadline t \<le> now"
  proof (rule ccontr)
    assume "\<not> ?thesis"
    then have "due now s = []" using Suc.prems(1) ts by (auto simp: sched_sorted_def filter_empty_conv)
    then show False using Suc.hyps(2) by simp
  qed
  define s1 where "s1 = s\<lparr>sc_timers := ts\<rparr>"
  define s2 where "s2 = (case tm_interval t of Some interval \<Rightarrow> schedule (clock i) (tm_event t) interval True (tm_id t) s1 | None \<Rightarrow> s1)"
  define s3 where "s3 = s2\<lparr>sc_sent := sc_sent s2 @ [tm_event t]\<rparr>"
  have run: "update_loop now clock i s = update_loop now clock (if tm_interval t = None then i else Suc i) s3"
    using ts le by (cases "tm_interval t"; subst update_loop.simps) (simp_all add: s1_def s2_def s3_def Let_def)
  have s1: "sched_sorted s1" "repeats_ok s1" "due now s = t # due now s1" "later now s = later now s1" "sc_sent s1 = sc_sent s"
    using Suc.prems ts le by (simp_all add: s1_def sched_sorted_def repeats_ok_def)
  have s2: "sched_sorted s2 \<and> repeats_ok s2 \<and> due now s2 = due now s1 \<and> sc_sent s2 = sc_sent s
     \<and> image_mset tm_id (mset (later now s2)) = image_mset tm_id (mset (later now s1) + (if tm_interval t = None then {#} else {#t#}))
     \<and> set (later now s1) \<subseteq> set (later now s2)"
  proof (cases "tm_interval t")
    case None
    then show ?thesis using s1 by (simp add: s2_def)
  next
    case (Some k)
    have k: "now < clock i + k" using assms(3) [of i] Suc.prems(2) ts Some by (auto simp: repeats_ok_def)
    let ?t = "\<lparr>tm_deadline = clock i + k, tm_event = tm_event t, tm_id = tm_id t, tm_interval = Some k\<rparr>"
    have e: "s2 = schedule (clock i) (tm_event t) k True (tm_id t) s1" using Some by (simp add: s2_def)
    have ts2: "sc_timers s2 = takeWhile (\<lambda>t. tm_deadline t \<le> clock i + k) (sc_timers s1) @ ?t # dropWhile (\<lambda>t. tm_deadline t \<le> clock i + k) (sc_timers s1)"
      by (simp add: e schedule_timers)
    have d: "due now s2 = due now s1" unfolding ts2 by (rule due_insert [OF k]) simp
    have l: "mset (later now s2) = add_mset ?t (mset (later now s1))" unfolding ts2 by (rule later_insert [OF k]) simp
    have "set_mset (mset (later now s1)) \<subseteq> set_mset (mset (later now s2))" unfolding l by auto
    moreover have "k \<noteq> 0" using Suc.prems(2) ts Some by (auto simp: repeats_ok_def)
    then have "repeats_ok s2" using s1(2) unfolding repeats_ok_def ts2 by (auto dest: set_takeWhileD set_dropWhileD)
    ultimately show ?thesis
      using schedule_sorted [OF s1(1)] s1(5) d l Some by (simp add: e schedule_timers)
  qed
  have s3: "sched_sorted s3" "repeats_ok s3" "due now s3 = due now s2" "later now s3 = later now s2" "sc_sent s3 = sc_sent s @ [tm_event t]"
    using s2 by (simp_all add: s3_def sched_sorted_def repeats_ok_def)
  have len: "n = length (due now s3)" using Suc.hyps(2) s1(3) s2 s3(3) by simp
  show ?case
    unfolding run
  proof (rule returns_mono [OF Suc.hyps(1) [OF len s3(1,2)]])
    fix s' assume p: "update_post now s3 s'"
    have "set (later now s) \<subseteq> set (sc_timers s')" using p s2 s3(4) s1(4) by (auto simp: update_post_def)
    then show "update_post now s s'"
      using p s2 s3(3-5) s1(3,4) by (auto simp: update_post_def)
  qed
qed

end
