(* ===== verification/Str_Shortener.thy ===== *)
theory Str_Shortener
  imports Prelude
begin

text \<open>
  Shortening of one-line texts: \<^verbatim>\<open>velacritty/src/string.rs\<close>. The width of a character comes from \<^verbatim>\<open>unicode-width\<close>; the
  sources use \<^verbatim>\<open>ch.width().unwrap_or(1)\<close>, the parameter \<open>width\<close>. The iterator over the characters of the text is the list of
  the characters that are left.
\<close>

datatype text_action = Spacer | Terminate | Shortener | Char

datatype shorten_direction = ShortenLeft | ShortenRight

record str_shortener =
  ss_chars :: ustring
  ss_accumulated_len :: nat
  ss_max_width :: nat
  ss_direction :: shorten_direction
  ss_shortener :: "uchar option"
  ss_text_action :: text_action

text \<open>The loop over the reversed text: the characters that are left, the index of the next one, the number of characters
  and the width taken so far, and the shortener. The result is the last two numbers, the shortener, and the number of
  characters of the text.\<close>

fun left_scan :: "(uchar \<Rightarrow> nat) \<Rightarrow> nat \<Rightarrow> ustring \<Rightarrow> nat \<Rightarrow> nat \<Rightarrow> nat \<Rightarrow> uchar option \<Rightarrow> nat \<times> nat \<times> uchar option \<times> nat" where
  "left_scan width max_width [] idx offset current_len shortener = (offset, current_len, shortener, offset)"
| "left_scan width max_width (ch # rest) idx offset current_len shortener =
     (let current_len = current_len + width ch;
          num_chars = (\<lambda>offset. if rest = [] then offset else idx + 1 + length rest)
      in if current_len > max_width then (offset, current_len, shortener, num_chars offset)
         else if current_len = max_width
         then if shortener \<noteq> None \<and> rest \<noteq> [] then (offset, current_len, shortener, num_chars offset)
              else left_scan width max_width rest (idx + 1) (idx + 1) current_len None
         else left_scan width max_width rest (idx + 1) (idx + 1) current_len shortener)"

definition str_shortener_new :: "(uchar \<Rightarrow> nat) \<Rightarrow> ustring \<Rightarrow> nat \<Rightarrow> shorten_direction \<Rightarrow> uchar option \<Rightarrow> str_shortener option" where
  "str_shortener_new width txt max_width direction shortener =
     (let shortener = (if txt = [] then None else shortener) in
      if direction = ShortenRight
      then Some \<lparr>ss_chars = txt, ss_accumulated_len = 0, ss_max_width = max_width, ss_direction = direction,
                 ss_shortener = shortener, ss_text_action = Char\<rparr>
      else do {
        let (offset, current_len, shortener, num_chars) = left_scan width max_width (rev txt) 0 0 0 shortener;
        skip_chars \<leftarrow> usub num_chars offset;
        let text_action = (if current_len < max_width \<or> shortener = None then Char else Shortener);
        Some \<lparr>ss_chars = drop skip_chars txt, ss_accumulated_len = 0, ss_max_width = max_width, ss_direction = direction,
              ss_shortener = shortener, ss_text_action = text_action\<rparr>
      })"

definition shortener_next :: "(uchar \<Rightarrow> nat) \<Rightarrow> str_shortener \<Rightarrow> uchar option \<times> str_shortener" where
  "shortener_next width s =
     (case ss_text_action s of
        Spacer \<Rightarrow> (Some 32, s\<lparr>ss_text_action := Char\<rparr>)
      | Terminate \<Rightarrow> (None, s)
      | Shortener \<Rightarrow>
          (ss_shortener s, s\<lparr>ss_text_action := (if ss_direction s = ShortenLeft then Char else Terminate), ss_shortener := None\<rparr>)
      | Char \<Rightarrow>
          (case ss_chars s of
             [] \<Rightarrow> (None, s)
           | ch # rest \<Rightarrow>
               let s = s\<lparr>ss_chars := rest, ss_accumulated_len := ss_accumulated_len s + width ch\<rparr> in
               if ss_accumulated_len s > ss_max_width s
               then (ss_shortener s, s\<lparr>ss_text_action := Terminate\<rparr>)
               else if ss_accumulated_len s = ss_max_width s \<and> ss_shortener s \<noteq> None
               then (if rest \<noteq> [] then ss_shortener s else Some ch, s\<lparr>ss_text_action := Terminate\<rparr>)
               else (Some ch, if width ch = 2 then s\<lparr>ss_text_action := Spacer\<rparr> else s)))"

text \<open>All items: \<^verbatim>\<open>next\<close> until it returns \<^verbatim>\<open>None\<close>.\<close>

definition ss_size :: "str_shortener \<Rightarrow> nat" where
  "ss_size s = 3 * length (ss_chars s) + (case ss_text_action s of Spacer \<Rightarrow> 2 | Shortener \<Rightarrow> 2 | Char \<Rightarrow> 1 | Terminate \<Rightarrow> 0)"

lemma shortener_next_size: "shortener_next width s = (Some c, s') \<Longrightarrow> ss_size s' < ss_size s"
  by (auto simp: shortener_next_def ss_size_def Let_def split: text_action.splits list.splits if_splits)

function shortener_collect :: "(uchar \<Rightarrow> nat) \<Rightarrow> str_shortener \<Rightarrow> ustring" where
  "shortener_collect width s =
     (case shortener_next width s of (None, _) \<Rightarrow> [] | (Some c, s') \<Rightarrow> c # shortener_collect width s')"
  by pat_completeness auto
termination
  by (relation "measure (\<lambda>(width, s). ss_size s)") (auto dest: shortener_next_size [OF sym])

declare shortener_collect.simps [simp del]

text \<open>The shortened text.\<close>

definition shorten :: "(uchar \<Rightarrow> nat) \<Rightarrow> ustring \<Rightarrow> nat \<Rightarrow> shorten_direction \<Rightarrow> uchar option \<Rightarrow> ustring option" where
  "shorten width txt max_width direction shortener =
     map_option (shortener_collect width) (str_shortener_new width txt max_width direction shortener)"

subsection \<open>The shortened text fits\<close>

abbreviation twidth :: "(uchar \<Rightarrow> nat) \<Rightarrow> ustring \<Rightarrow> nat" where
  "twidth width cs \<equiv> sum_list (map width cs)"

text \<open>The cells of a text that is shown in full: a wide character is followed by a spacer.\<close>

definition spaced :: "(uchar \<Rightarrow> nat) \<Rightarrow> ustring \<Rightarrow> ustring" where
  "spaced width cs = concat (map (\<lambda>c. if width c = 2 then [c, 32] else [c]) cs)"

lemma collect_simps:
  "ss_text_action s = Spacer \<Longrightarrow> shortener_collect width s = 32 # shortener_collect width (s\<lparr>ss_text_action := Char\<rparr>)"
  "ss_text_action s = Terminate \<Longrightarrow> shortener_collect width s = []"
  by (subst shortener_collect.simps; simp add: shortener_next_def)+

lemma collect_Char:
  assumes "ss_text_action s = Char"
  shows "shortener_collect width s = (case ss_chars s of
      [] \<Rightarrow> []
    | ch # rest \<Rightarrow>
        let acc = ss_accumulated_len s + width ch; s' = s\<lparr>ss_chars := rest, ss_accumulated_len := acc\<rparr> in
        if acc > ss_max_width s then (case ss_shortener s of None \<Rightarrow> [] | Some c \<Rightarrow> [c])
        else if acc = ss_max_width s \<and> ss_shortener s \<noteq> None then [if rest \<noteq> [] then the (ss_shortener s) else ch]
        else ch # (if width ch = 2 then 32 # shortener_collect width s' else shortener_collect width s'))"
proof (cases "ss_chars s")
  case Nil
  then show ?thesis using assms by (subst shortener_collect.simps) (simp add: shortener_next_def)
next
  case (Cons ch rest)
  have ended: "shortener_collect width (s'\<lparr>ss_text_action := Terminate\<rparr>) = []" for s' by (rule collect_simps(2)) simp
  define acc where "acc = ss_accumulated_len s + width ch"
  define s' where "s' = s\<lparr>ss_chars := rest, ss_accumulated_len := acc\<rparr>"
  have same: "s'\<lparr>ss_text_action := Char\<rparr> = s'" using assms by (simp add: s'_def)
  have space: "shortener_collect width (s'\<lparr>ss_text_action := Spacer\<rparr>) = 32 # shortener_collect width s'"
    using collect_simps(1) [of "s'\<lparr>ss_text_action := Spacer\<rparr>" width] same by simp
  have "shortener_next width s =
      (if acc > ss_max_width s then (ss_shortener s, s'\<lparr>ss_text_action := Terminate\<rparr>)
       else if acc = ss_max_width s \<and> ss_shortener s \<noteq> None
       then (if rest \<noteq> [] then ss_shortener s else Some ch, s'\<lparr>ss_text_action := Terminate\<rparr>)
       else (Some ch, if width ch = 2 then s'\<lparr>ss_text_action := Spacer\<rparr> else s'))"
    using assms Cons by (auto simp: shortener_next_def Let_def acc_def s'_def)
  then show ?thesis
    unfolding shortener_collect.simps [of width s] Let_def Cons list.case acc_def [symmetric] s'_def [symmetric]
    using ended space by (auto split: option.splits)
qed

lemma collect_bound:
  assumes w: "\<And>c. 1 \<le> width c \<and> width c \<le> 2"
  shows "ss_text_action s = Char \<Longrightarrow> ss_accumulated_len s \<le> ss_max_width s \<Longrightarrow>
    (ss_shortener s \<noteq> None \<longrightarrow> ss_accumulated_len s < ss_max_width s) \<Longrightarrow>
    length (shortener_collect width s) \<le> ss_max_width s - ss_accumulated_len s"
proof (induction "length (ss_chars s)" arbitrary: s)
  case 0
  then show ?case by (simp add: collect_Char)
next
  case (Suc n)
  obtain ch rest where ch: "ss_chars s = ch # rest" using Suc.hyps(2) by (cases "ss_chars s") auto
  note eq1 = collect_Char [OF Suc.prems(1), of width]
  let ?s = "s\<lparr>ss_chars := rest, ss_accumulated_len := ss_accumulated_len s + width ch\<rparr>"
  have w1: "width ch = 1 \<or> width ch = 2" using w [of ch] by linarith
  consider (over) "ss_accumulated_len s + width ch > ss_max_width s"
    | (eq) "ss_accumulated_len s + width ch = ss_max_width s" "ss_shortener s \<noteq> None"
    | (fits) "ss_accumulated_len s + width ch \<le> ss_max_width s"
        "ss_shortener s \<noteq> None \<longrightarrow> ss_accumulated_len s + width ch < ss_max_width s" by linarith
  then show ?case
  proof cases
    case over
    then show ?thesis using Suc.prems ch by (auto simp: eq1 Let_def split: option.splits)
  next
    case eq
    then show ?thesis using Suc.prems ch w1 by (auto simp: eq1 Let_def)
  next
    case fits
    have "length (shortener_collect width ?s) \<le> ss_max_width s - (ss_accumulated_len s + width ch)"
      using Suc.hyps(1) [of ?s] Suc.hyps(2) Suc.prems(1) ch fits by simp
    then show ?thesis using ch fits w1 by (auto simp: eq1 Let_def)
  qed
qed

lemma collect_fits:
  assumes "ss_text_action s = Char" "ss_accumulated_len s + twidth width (ss_chars s) < ss_max_width s \<or>
      (ss_shortener s = None \<and> ss_accumulated_len s + twidth width (ss_chars s) \<le> ss_max_width s)"
  shows "shortener_collect width s = spaced width (ss_chars s)"
  using assms
proof (induction "ss_chars s" arbitrary: s)
  case Nil
  then show ?case by (simp add: collect_Char spaced_def flip: Nil.hyps)
next
  case (Cons ch rest)
  note ch = Cons.hyps(2) [symmetric]
  let ?s = "s\<lparr>ss_chars := rest, ss_accumulated_len := ss_accumulated_len s + width ch\<rparr>"
  have "shortener_collect width ?s = spaced width rest"
    using Cons.hyps(1) [of ?s] Cons.prems ch by (simp add: add.assoc)
  then show ?case
    using Cons.prems ch by (auto simp: collect_Char [OF Cons.prems(1), of width] Let_def spaced_def)
qed

text \<open>The scan from the end stops before the width is reached, unless the shortener is not needed.\<close>

lemma left_scan_spec:
  assumes "left_scan width max_width rs idx idx len sh = (offset, len', sh', n)" "sh \<noteq> None \<longrightarrow> len < max_width"
  shows "idx \<le> offset \<and> offset \<le> idx + length rs \<and> offset \<le> n \<and> (sh' \<noteq> None \<longrightarrow> sh' = sh \<and> len + twidth width (take (offset - idx) rs) < max_width)
     \<and> (n = idx + length rs \<or> (n = offset \<and> offset + 1 = idx + length rs \<and> len + twidth width rs > max_width))
     \<and> (len + twidth width rs < max_width \<longrightarrow> offset = idx + length rs \<and> len' = len + twidth width rs \<and> sh' = sh)"
  using assms
proof (induction rs arbitrary: idx len sh)
  case Nil
  then show ?case by auto
next
  case (Cons ch rest)
  let ?len = "len + width ch"
  consider (gt) "?len > max_width" | (stop) "?len = max_width" "sh \<noteq> None" "rest \<noteq> []" | (eq) "?len = max_width" "sh = None \<or> rest = []"
    | (lt) "?len < max_width" by linarith
  then show ?case
  proof cases
    case gt
    then show ?thesis using Cons.prems by (auto simp: Let_def split: if_splits)
  next
    case stop
    then show ?thesis using Cons.prems by (auto simp: Let_def split: if_splits)
  next
    case eq
    have "left_scan width max_width rest (Suc idx) (Suc idx) ?len None = (offset, len', sh', n)"
      using Cons.prems(1) eq by (auto simp: Let_def split: if_splits)
    from Cons.IH [OF this] eq show ?thesis by (auto simp: add.assoc)
  next
    case lt
    have "left_scan width max_width rest (Suc idx) (Suc idx) ?len sh = (offset, len', sh', n)"
      using Cons.prems(1) lt by (auto simp: Let_def split: if_splits)
    note ih = Cons.IH [OF this] 
    have "take (offset - idx) (ch # rest) = ch # take (offset - Suc idx) rest" if "Suc idx \<le> offset" 
      using that by (simp add: Suc_le_eq take_Cons' Suc_diff_Suc [symmetric])
    then show ?thesis using ih lt by (auto simp: add.assoc)
  qed
qed

lemma shorten_right:
  assumes "\<And>c. 1 \<le> width c \<and> width c \<le> 2" "1 \<le> max_width"
  shows "returns (shorten width txt max_width ShortenRight sh) (\<lambda>out. length out \<le> max_width
     \<and> (twidth width txt < max_width \<longrightarrow> out = spaced width txt))"
proof -
  let ?s = "\<lparr>ss_chars = txt, ss_accumulated_len = 0, ss_max_width = max_width, ss_direction = ShortenRight,
      ss_shortener = (if txt = [] then None else sh), ss_text_action = Char\<rparr>"
  have "length (shortener_collect width ?s) \<le> max_width" using collect_bound [OF assms(1), of ?s] assms(2) by simp
  moreover have "shortener_collect width ?s = spaced width txt" if "twidth width txt < max_width"
    using collect_fits [of ?s width] that by simp
  ultimately show ?thesis by (simp add: shorten_def str_shortener_new_def)
qed

lemma shorten_left:
  assumes w: "\<And>c. 1 \<le> width c \<and> width c \<le> 2" and max: "1 \<le> max_width"
    and narrow: "sh = None \<or> txt = [] \<or> width (hd txt) = 1"
  shows "returns (shorten width txt max_width ShortenLeft sh) (\<lambda>out. length out \<le> max_width
     \<and> (twidth width txt < max_width \<longrightarrow> out = spaced width txt))"
proof -
  define sh0 where "sh0 = (if txt = [] then None else sh)"
  obtain offset len sh1 n where scan: "left_scan width max_width (rev txt) 0 0 0 sh0 = (offset, len, sh1, n)" by (metis prod_cases4)
  have rev: "twidth width (rev txt) = twidth width txt" by (simp add: rev_map [symmetric])
  have "sh0 \<noteq> None \<longrightarrow> 0 < max_width" using max by simp
  note sp = left_scan_spec [OF scan this, simplified, unfolded rev]
  define s where "s = \<lparr>ss_chars = drop (n - offset) txt, ss_accumulated_len = 0, ss_max_width = max_width, ss_direction = ShortenLeft,
      ss_shortener = sh1, ss_text_action = (if len < max_width \<or> sh1 = None then Char else Shortener)\<rparr>"
  have run: "shorten width txt max_width ShortenLeft sh = Some (shortener_collect width s)"
    using sp scan by (simp add: shorten_def str_shortener_new_def sh0_def [symmetric] s_def)
  have full: "shortener_collect width s = spaced width txt" if t: "twidth width txt < max_width"
  proof -
    have "n - offset = 0" "len < max_width" using sp t by auto
    then show ?thesis using collect_fits [of s width] t by (simp add: s_def)
  qed
  have "length (shortener_collect width s) \<le> max_width"
  proof (cases "len < max_width \<or> sh1 = None")
    case True
    then show ?thesis using collect_bound [OF w, of s] max by (simp add: s_def)
  next
    case False
    have lt: "twidth width (take offset (rev txt)) < max_width" and sh: "sh0 \<noteq> None" using sp False by auto
    have n: "n = length txt"
    proof (rule ccontr)
      assume "n \<noteq> length txt"
      then have off: "offset + 1 = length txt" "max_width < twidth width txt" using sp by auto
      then have split: "rev txt = take offset (rev txt) @ [hd txt]"
        using take_Suc_conv_app_nth [of offset "rev txt"] by (cases "txt") (auto simp: nth_append)
      have "twidth width (rev txt) = twidth width (take offset (rev txt)) + width (hd txt)"
        by (subst split) simp
      moreover have "width (hd txt) = 1" using narrow sh by (auto simp: sh0_def split: if_splits)
      ultimately show False using lt off rev by simp
    qed
    have cs: "twidth width (drop (n - offset) txt) < max_width"
      using lt n sp take_rev [of offset "txt"] by (simp add: rev_map [symmetric])
    let ?s = "s\<lparr>ss_text_action := Char, ss_shortener := None\<rparr>"
    have "shortener_collect width ?s = spaced width (drop (n - offset) txt)"
      using collect_fits [of ?s width] cs by (simp add: s_def)
    moreover have "length (spaced width cs) \<le> twidth width cs" for cs
    proof (induction cs)
      case (Cons c cs)
      have "width c = 1 \<or> width c = 2" using w [of c] by linarith
      then show ?case using Cons by (auto simp: spaced_def)
    qed (simp add: spaced_def)
    ultimately have "length (shortener_collect width ?s) < max_width" using cs by (metis le_less_trans)
    moreover obtain c where "sh1 = Some c" using False by auto
    then have "shortener_collect width s = c # shortener_collect width ?s"
      using False by (subst shortener_collect.simps) (simp add: shortener_next_def s_def)
    ultimately show ?thesis by simp
  qed
  then show ?thesis using full by (simp add: run)
qed

end
