(* ===== verification/Message_Bar.thy ===== *)
theory Message_Bar
  imports Utf8
begin

text \<open>
  The message bar: \<^verbatim>\<open>velacritty/src/message_bar.rs\<close>. A message is broken into lines that are padded to the width of the
  window; the first line ends with a close button. The number of columns and the number of whole lines of the window come
  from the size of the window; \<open>width\<close> is \<^verbatim>\<open>UnicodeWidthChar::width\<close>. Strings are indexed by bytes, so that cutting one inside
  a character is a panic.
\<close>

definition CLOSE_BUTTON_TEXT :: ustring where "CLOSE_BUTTON_TEXT = lit ''[X]''"
definition CLOSE_BUTTON_PADDING :: nat where "CLOSE_BUTTON_PADDING = 1"
definition MIN_FREE_LINES :: nat where "MIN_FREE_LINES = 3"
definition TRUNCATED_MESSAGE :: ustring where "TRUNCATED_MESSAGE = lit ''[MESSAGE TRUNCATED]''"

datatype message_type = MsgError | MsgWarning

record message =
  ms_text :: ustring
  ms_ty :: message_type
  ms_target :: "ustring option"

definition message_new :: "ustring \<Rightarrow> message_type \<Rightarrow> message" where
  "message_new s ty = \<lparr>ms_text = s, ms_ty = ty, ms_target = None\<rparr>"

definition set_target :: "ustring \<Rightarrow> message \<Rightarrow> message" where
  "set_target target m = m\<lparr>ms_target := Some target\<rparr>"

definition pad_text :: "nat \<Rightarrow> ustring \<Rightarrow> ustring" where
  "pad_text num_cols s = s @ replicate (num_cols - length s) 32"

type_synonym wrap_state = "ustring list \<times> ustring \<times> nat"

text \<open>The end of a line is reached before the character.\<close>

definition wraps_before :: "nat \<Rightarrow> uchar \<Rightarrow> wrap_state \<Rightarrow> bool" where
  "wraps_before num_cols c st = (case st of (lines, line, line_len) \<Rightarrow>
     c = 10 \<or> line_len = num_cols
     \<or> (lines = [] \<and> num_cols \<ge> length CLOSE_BUTTON_TEXT \<and> line_len = num_cols - (length CLOSE_BUTTON_TEXT + CLOSE_BUTTON_PADDING)))"

text \<open>Breaking the line at its last white space, if the character does not end a word: the line and what moves to the next.\<close>

definition break_line :: "uchar \<Rightarrow> ustring \<Rightarrow> (ustring \<times> ustring) option" where
  "break_line c line =
     (case str_rfind is_whitespace line of
        Some index \<Rightarrow>
          if \<not> is_whitespace c
          then do { (line, split) \<leftarrow> byte_split (index + 1) line; Some (butlast line, split) }
          else Some (line, [])
      | None \<Rightarrow> Some (line, []))"

definition push_char :: "(uchar \<Rightarrow> nat option) \<Rightarrow> uchar \<Rightarrow> wrap_state \<Rightarrow> wrap_state" where
  "push_char width c st = (case st of (lines, line, line_len) \<Rightarrow>
     let w = (case width c of None \<Rightarrow> 0 | Some w \<Rightarrow> w)
     in (lines, line @ [c] @ (if w = 2 then [32] else []), line_len + w))"

definition wrap_char :: "(uchar \<Rightarrow> nat option) \<Rightarrow> nat \<Rightarrow> uchar \<Rightarrow> wrap_state \<Rightarrow> wrap_state option" where
  "wrap_char width num_cols c st =
     (if wraps_before num_cols c st
      then do {
        let (lines, line, line_len) = st;
        (line, new_line) \<leftarrow> break_line c line;
        let st = (lines @ [pad_text num_cols line], new_line, length new_line);
        Some (if is_whitespace c then st else push_char width c st)
      }
      else Some (push_char width c st))"

definition truncate_lines :: "nat \<Rightarrow> nat \<Rightarrow> ustring list \<Rightarrow> ustring list" where
  "truncate_lines num_cols max_lines lines =
     (if length lines > max_lines
      then let lines = take max_lines lines in
           if length TRUNCATED_MESSAGE \<le> num_cols \<and> lines \<noteq> []
           then lines[length lines - 1 := pad_text num_cols TRUNCATED_MESSAGE] else lines
      else lines)"

definition add_button :: "nat \<Rightarrow> ustring list \<Rightarrow> ustring list option" where
  "add_button num_cols lines =
     (if length CLOSE_BUTTON_TEXT \<le> num_cols
      then case lines of
             [] \<Rightarrow> Some []
           | line # rest \<Rightarrow> do { line \<leftarrow> str_truncate (num_cols - length CLOSE_BUTTON_TEXT) line; Some ((line @ CLOSE_BUTTON_TEXT) # rest) }
      else Some lines)"

definition message_text :: "(uchar \<Rightarrow> nat option) \<Rightarrow> nat \<Rightarrow> nat \<Rightarrow> message \<Rightarrow> ustring list option" where
  "message_text width num_cols total_lines m = do {
     let max_lines = total_lines - MIN_FREE_LINES;
     (lines, line, _) \<leftarrow> mfold (wrap_char width num_cols) (trim_end (trim_start (ms_text m))) ([], [], 0);
     let lines = lines @ [pad_text num_cols line];
     add_button num_cols (truncate_lines num_cols max_lines lines)
   }"

subsection \<open>The queue of messages\<close>

type_synonym message_buffer = "message list"

definition current_message :: "message_buffer \<Rightarrow> message option" where
  "current_message b = (case b of [] \<Rightarrow> None | m # _ \<Rightarrow> Some m)"

definition message_pop :: "message_buffer \<Rightarrow> message_buffer" where
  "message_pop b = (case b of [] \<Rightarrow> [] | m # ms \<Rightarrow> filter (\<lambda>x. x \<noteq> m) ms)"

definition remove_target :: "ustring \<Rightarrow> message_buffer \<Rightarrow> message_buffer" where
  "remove_target target b = filter (\<lambda>m. ms_target m \<noteq> Some target) b"

definition message_push :: "message \<Rightarrow> message_buffer \<Rightarrow> message_buffer" where
  "message_push m b = b @ [m]"

definition is_queued :: "message \<Rightarrow> message_buffer \<Rightarrow> bool" where
  "is_queued m b \<longleftrightarrow> m \<in> set b"

subsection \<open>Plain text fits\<close>

definition plain :: "(uchar \<Rightarrow> nat option) \<Rightarrow> uchar \<Rightarrow> bool" where
  "plain width c \<longleftrightarrow> c < 128 \<and> (width c = Some 1 \<or> c = 10)"

definition wrap_ok :: "nat \<Rightarrow> wrap_state \<Rightarrow> bool" where
  "wrap_ok num_cols st = (case st of (lines, line, line_len) \<Rightarrow>
     line_len = length line \<and> length line \<le> num_cols \<and> (\<forall>c \<in> set line. c < 128)
     \<and> (lines = [] \<and> 3 \<le> num_cols \<longrightarrow> length line \<le> num_cols - 4)
     \<and> (\<forall>l \<in> set lines. length l = num_cols \<and> (\<forall>c \<in> set l. c < 128)))"

lemma button_length [simp]: "length CLOSE_BUTTON_TEXT = 3"
  by (simp add: CLOSE_BUTTON_TEXT_def lit_def)

lemma pad_text_length: "length s \<le> num_cols \<Longrightarrow> length (pad_text num_cols s) = num_cols"
  by (simp add: pad_text_def)

lemma break_line_returns:
  assumes "\<forall>c \<in> set line. c < 128"
  shows "returns (break_line c line) (\<lambda>(a, b). length a \<le> length line \<and> set a \<union> set b \<subseteq> set line
     \<and> (b \<noteq> [] \<longrightarrow> length b < length line))"
proof (cases "str_rfind is_whitespace line")
  case None
  then show ?thesis by (simp add: break_line_def)
next
  case (Some i)
  have "Suc i \<le> length line" using str_rfind_ascii [OF assms Some] by simp
  from byte_split_ascii [OF assms this] this Some show ?thesis
    by (auto simp: break_line_def dest: in_set_takeD in_set_dropD in_set_butlastD)
qed

lemma wrap_char_returns:
  assumes st: "wrap_ok num_cols st" and c: "plain width c" and n: "1 \<le> num_cols"
  shows "returns (wrap_char width num_cols c st) (wrap_ok num_cols)"
proof -
  obtain lines line len where s: "st = (lines, line, len)" by (cases st)
  have d: "len = length line" "length line \<le> num_cols" "\<forall>c \<in> set line. c < 128" "lines = [] \<and> 3 \<le> num_cols \<Longrightarrow> length line \<le> num_cols - 4"
    "\<And>l. l \<in> set lines \<Longrightarrow> length l = num_cols \<and> (\<forall>c \<in> set l. c < 128)"
    using st by (auto simp: wrap_ok_def s)
  have push: "wrap_ok num_cols (push_char width c (ls, l, length l))"
    if "width c = Some 1" "length l < num_cols" "\<forall>c \<in> set l. c < 128" "ls = [] \<and> 3 \<le> num_cols \<longrightarrow> length l < num_cols - 4"
      "\<forall>l \<in> set ls. length l = num_cols \<and> (\<forall>c \<in> set l. c < 128)" for l ls
    using that c by (auto simp: push_char_def wrap_ok_def plain_def)
  show ?thesis
  proof (cases "wraps_before num_cols c st")
    case False
    then have "width c = Some 1" "length line < num_cols" "lines = [] \<and> 3 \<le> num_cols \<longrightarrow> length line < num_cols - 4"
      using c d(1,2,4) by (auto simp: wraps_before_def plain_def s CLOSE_BUTTON_PADDING_def)
    then show ?thesis using False push [of line lines] d by (simp add: wrap_char_def s)
  next
    case True
    have "returns (break_line c line) (\<lambda>(l, new). wrap_ok num_cols
        (if is_whitespace c then (lines @ [pad_text num_cols l], new, length new)
         else push_char width c (lines @ [pad_text num_cols l], new, length new)))"
    proof (rule returns_mono [OF break_line_returns [OF d(3)]], clarify)
      fix l new assume b: "length l \<le> length line" "set l \<union> set new \<subseteq> set line" "new \<noteq> [] \<longrightarrow> length new < length line"
      have new: "length new < num_cols" "\<forall>c \<in> set new. c < 128" using b n d(2,3) by (cases "new = []", auto)
      have l: "length (pad_text num_cols l) = num_cols" "\<forall>c \<in> set (pad_text num_cols l). c < 128"
        using b d(2,3) by (auto simp: pad_text_def)
      then have ls: "\<forall>l \<in> set (lines @ [pad_text num_cols l]). length l = num_cols \<and> (\<forall>c \<in> set l. c < 128)" using d(5) by auto
      have "width c = Some 1" if "\<not> is_whitespace c" using c that by (auto simp: plain_def is_whitespace_def)
      then show "wrap_ok num_cols (if is_whitespace c then (lines @ [pad_text num_cols l], new, length new)
         else push_char width c (lines @ [pad_text num_cols l], new, length new))"
        using push [of new "lines @ [pad_text num_cols l]"] new ls by (auto simp: wrap_ok_def)
    qed
    then show ?thesis using True by (auto simp: wrap_char_def s Let_def elim!: returns_mono)
  qed
qed

lemma message_text_returns:
  assumes "\<forall>c \<in> set (ms_text m). plain width c" "1 \<le> num_cols"
  shows "returns (message_text width num_cols total_lines m) (\<lambda>lines. (\<forall>l \<in> set lines. length l = num_cols)
     \<and> length lines \<le> total_lines - MIN_FREE_LINES)"
proof -
  have sub: "set (trim_end (trim_start (ms_text m))) \<subseteq> set (ms_text m)"
    by (auto simp: trim_end_def trim_start_def dest!: set_dropWhileD)
  have loop: "returns (mfold (wrap_char width num_cols) (trim_end (trim_start (ms_text m))) ([], [], 0)) (wrap_ok num_cols)"
  proof (rule mfold_inv)
    show "wrap_ok num_cols ([], [], 0)" by (simp add: wrap_ok_def)
    fix c st assume "c \<in> set (trim_end (trim_start (ms_text m)))" "wrap_ok num_cols st"
    then show "returns (wrap_char width num_cols c st) (wrap_ok num_cols)"
      using wrap_char_returns [of num_cols st width c] assms sub by blast
  qed
  have fits: "length l = num_cols \<and> (\<forall>c \<in> set l. c < 128)" if "wrap_ok num_cols (lines, line, len)"
      "l \<in> set (truncate_lines num_cols k (lines @ [pad_text num_cols line]))" for lines line len l k
  proof -
    have t: "length TRUNCATED_MESSAGE = 19" "\<forall>c \<in> set TRUNCATED_MESSAGE. c < 128"
      by (simp_all add: TRUNCATED_MESSAGE_def lit_def)
    have pad: "length (pad_text num_cols line) = num_cols" "\<forall>c \<in> set (pad_text num_cols line). c < 128"
      using that(1) by (auto simp: wrap_ok_def pad_text_def)
    have all: "length x = num_cols \<and> (\<forall>c \<in> set x. c < 128)" if "x \<in> set (lines @ [pad_text num_cols line])" for x
      using that \<open>wrap_ok num_cols (lines, line, len)\<close> pad by (auto simp: wrap_ok_def)
    show ?thesis
    proof (cases "l = pad_text num_cols TRUNCATED_MESSAGE \<and> 19 \<le> num_cols")
      case True
      then show ?thesis using t by (auto simp: pad_text_def)
    next
      case False
      then have "l \<in> set (lines @ [pad_text num_cols line])"
        using that(2) t(1) by (auto simp: truncate_lines_def Let_def split: if_splits dest!: set_update_subset_insert [THEN subsetD] dest: in_set_takeD)
      then show ?thesis by (rule all)
    qed
  qed
  have len: "length (truncate_lines num_cols k ls) \<le> k" for k ls
    by (simp add: truncate_lines_def Let_def)
  have button: "returns (add_button num_cols ls) (\<lambda>ls'. (\<forall>l \<in> set ls'. length l = num_cols) \<and> length ls' = length ls)"
    if ls: "\<And>l. l \<in> set ls \<Longrightarrow> length l = num_cols \<and> (\<forall>c \<in> set l. c < 128)" for ls
  proof (cases ls)
    case Nil
    then show ?thesis by (simp add: add_button_def)
  next
    case (Cons l rest)
    then have "length l = num_cols" "\<forall>c \<in> set l. c < 128" using ls [of l] by auto
    then show ?thesis using Cons ls by (auto simp: add_button_def str_truncate_ascii)
  qed
  show ?thesis
    unfolding message_text_def Let_def returns_bind
  proof (rule returns_mono [OF loop], clarify)
    fix lines line len assume "wrap_ok num_cols (lines, line, len)"
    from fits [OF this] have "returns (add_button num_cols (truncate_lines num_cols (total_lines - MIN_FREE_LINES) (lines @ [pad_text num_cols line])))
        (\<lambda>ls'. (\<forall>l \<in> set ls'. length l = num_cols)
          \<and> length ls' = length (truncate_lines num_cols (total_lines - MIN_FREE_LINES) (lines @ [pad_text num_cols line])))"
      by (intro button) blast
    then show "returns (add_button num_cols (truncate_lines num_cols (total_lines - MIN_FREE_LINES) (lines @ [pad_text num_cols line])))
        (\<lambda>ls'. (\<forall>l \<in> set ls'. length l = num_cols) \<and> length ls' \<le> total_lines - MIN_FREE_LINES)"
      by (rule returns_mono) (use len in \<open>simp add: le_trans\<close>)
  qed
qed

lemmas message_defs = message_text_def message_new_def trim_end_def trim_start_def is_whitespace_def wrap_char_def wraps_before_def
  break_line_def push_char_def truncate_lines_def add_button_def pad_text_def CLOSE_BUTTON_PADDING_def MIN_FREE_LINES_def

lemma byte_split_pos:
  "0 < n \<Longrightarrow> byte_split n (c # cs) =
     (let k = length (utf8_char c) in
      if k \<le> n then map_option (\<lambda>(a, b). (c # a, b)) (byte_split (n - k) cs) else None)"
  by (cases n) (simp_all add: Let_def)

lemma demo_multibyte: "message_text (\<lambda>c. Some 1) 8 10 (message_new [0xE9, 0xE9, 0xE9, 0xE9] MsgError) = None"
  by (simp add: message_defs str_truncate_def byte_len_def utf8_encode_def utf8_char_def byte_split_pos)

lemma demo_wide: "message_text (\<lambda>c. if c = 0x4E2D then Some 2 else Some 1) 2 10 (message_new [97, 0x4E2D, 98, 99] MsgError) = Some [[97, 0x4E2D, 32, 98, 99]]"
  by (simp add: message_defs)

end
