(* ===== verification/Frame_Damage.thy ===== *)
theory Frame_Damage
  imports Damage Selection
begin

text \<open>
  The damage of a frame on its way to the compositor: \<^verbatim>\<open>velacritty/src/display/damage.rs\<close>. Rectangles (\<^verbatim>\<open>glutin::surface::Rect\<close>)
  have their origin in the lower left corner of the window. Pixel counts are \<^verbatim>\<open>u32\<close> or \<^verbatim>\<open>i32\<close> in the code and natural numbers or
  integers here; they stay far below the limits for any window.
\<close>

record size_info =
  si_width :: nat
  si_height :: nat
  si_cell_width :: nat
  si_cell_height :: nat
  si_padding_x :: nat
  si_padding_y :: nat
  si_screen_lines :: nat
  si_columns :: nat

record rect =
  rc_x :: int
  rc_y :: int
  rc_width :: int
  rc_height :: int

definition rect_new :: "int \<Rightarrow> int \<Rightarrow> int \<Rightarrow> int \<Rightarrow> rect" where
  "rect_new x y w h = \<lparr>rc_x = x, rc_y = y, rc_width = w, rc_height = h\<rparr>"

subsection \<open>Frames\<close>

record frame_damage =
  fd_full :: bool
  fd_lines :: "line_damage list"
  fd_rects :: "rect list"

definition frame_default :: frame_damage where
  "frame_default = \<lparr>fd_full = False, fd_lines = [], fd_rects = []\<rparr>"

definition frame_damage_line :: "line_damage \<Rightarrow> frame_damage \<Rightarrow> frame_damage option" where
  "frame_damage_line d f = do { lines \<leftarrow> vmod (fd_lines f) (ld_line d) (ld_expand (ld_left d) (ld_right d)); Some (f\<lparr>fd_lines := lines\<rparr>) }"

definition frame_damage_point :: "nat gpoint \<Rightarrow> frame_damage \<Rightarrow> frame_damage option" where
  "frame_damage_point p f = do { lines \<leftarrow> vmod (fd_lines f) (p_line p) (ld_expand (p_column p) (p_column p)); Some (f\<lparr>fd_lines := lines\<rparr>) }"

definition frame_mark_fully_damaged :: "frame_damage \<Rightarrow> frame_damage" where
  "frame_mark_fully_damaged f = f\<lparr>fd_full := True\<rparr>"

definition viewport_y_to_damage_y :: "size_info \<Rightarrow> int \<Rightarrow> int \<Rightarrow> int" where
  "viewport_y_to_damage_y si y height = int (si_height si) - y - height"

definition damage_y_to_viewport_y :: "size_info \<Rightarrow> rect \<Rightarrow> int" where
  "damage_y_to_viewport_y si r = int (si_height si) - rc_y r - rc_height r"

definition add_viewport_rect :: "size_info \<Rightarrow> int \<Rightarrow> int \<Rightarrow> int \<Rightarrow> int \<Rightarrow> frame_damage \<Rightarrow> frame_damage" where
  "add_viewport_rect si x y width height f =
     f\<lparr>fd_rects := fd_rects f @ [\<lparr>rc_x = x, rc_y = viewport_y_to_damage_y si y height, rc_width = width, rc_height = height\<rparr>]\<rparr>"

definition frame_reset :: "nat \<Rightarrow> nat \<Rightarrow> frame_damage \<Rightarrow> frame_damage" where
  "frame_reset num_lines num_cols f = \<lparr>fd_full = False, fd_lines = undamaged_lines num_cols num_lines, fd_rects = []\<rparr>"

definition in_bounds :: "line_damage \<Rightarrow> nat \<Rightarrow> bool" where
  "in_bounds d col \<longleftrightarrow> ld_left d \<le> col \<and> col \<le> ld_right d"

definition frame_intersects :: "nat gpoint \<Rightarrow> nat gpoint \<Rightarrow> frame_damage \<Rightarrow> bool option" where
  "frame_intersects s e f = do {
     start_line \<leftarrow> vget (fd_lines f) (p_line s);
     end_line \<leftarrow> vget (fd_lines f) (p_line e);
     if fd_full f \<or> in_bounds start_line (p_column s) \<or> in_bounds end_line (p_column e) then Some True
     else mfold (\<lambda>l found. if found then Some True else map_option is_damaged (vget (fd_lines f) l)) [p_line s + 1..<p_line e] False
   }"

subsection \<open>The tracker\<close>

record damage_tracker =
  dt_old_vi_cursor :: "nat gpoint option"
  dt_old_selection :: "selection_range option"
  dt_debug :: bool
  dt_frame :: frame_damage
  dt_next_frame :: frame_damage
  dt_screen_lines :: nat
  dt_columns :: nat

definition tracker_resize :: "nat \<Rightarrow> nat \<Rightarrow> damage_tracker \<Rightarrow> damage_tracker" where
  "tracker_resize num_lines num_cols t =
     t\<lparr>dt_screen_lines := num_lines, dt_columns := num_cols,
       dt_frame := (frame_reset num_lines num_cols (dt_frame t))\<lparr>fd_full := True\<rparr>,
       dt_next_frame := frame_reset num_lines num_cols (dt_next_frame t)\<rparr>"

definition tracker_new :: "nat \<Rightarrow> nat \<Rightarrow> damage_tracker" where
  "tracker_new num_lines num_cols =
     tracker_resize num_lines num_cols
       \<lparr>dt_old_vi_cursor = None, dt_old_selection = None, dt_debug = False, dt_frame = frame_default,
        dt_next_frame = frame_default, dt_screen_lines = num_lines, dt_columns = num_cols\<rparr>"

definition swap_damage :: "damage_tracker \<Rightarrow> damage_tracker" where
  "swap_damage t = t\<lparr>dt_frame := dt_next_frame t, dt_next_frame := frame_reset (dt_screen_lines t) (dt_columns t) (dt_frame t)\<rparr>"

definition damage_opt_point :: "nat gpoint option \<Rightarrow> frame_damage \<Rightarrow> frame_damage option" where
  "damage_opt_point p f = (case p of None \<Rightarrow> Some f | Some p \<Rightarrow> frame_damage_point p f)"

definition tracker_damage_vi_cursor :: "nat gpoint option \<Rightarrow> damage_tracker \<Rightarrow> damage_tracker option" where
  "tracker_damage_vi_cursor vi_cursor t = do {
     let old = dt_old_vi_cursor t;
     let t = t\<lparr>dt_old_vi_cursor := vi_cursor\<rparr>;
     if fd_full (dt_frame t) then Some t
     else do {
       f \<leftarrow> damage_opt_point (dt_old_vi_cursor t) (dt_frame t);
       f \<leftarrow> damage_opt_point old f;
       Some (t\<lparr>dt_frame := f\<rparr>)
     }
   }"

text \<open>The lines of a selection that are visible.\<close>

definition damage_selected_lines :: "nat \<Rightarrow> nat \<Rightarrow> int \<Rightarrow> selection_range \<Rightarrow> frame_damage \<Rightarrow> frame_damage option" where
  "damage_selected_lines num_lines num_cols display_offset sel f =
     (let last_visible_line = int num_lines - 1 in
      if p_line (sr_end sel) + display_offset < 0 \<or> \<bar>p_line (sr_start sel)\<bar> < display_offset - last_visible_line then Some f
      else do {
        s \<leftarrow> as_usize (max (p_line (sr_start sel) + display_offset) 0);
        e \<leftarrow> as_usize (max 0 (min last_visible_line (p_line (sr_end sel) + display_offset)));
        right \<leftarrow> usub num_cols 1;
        lines \<leftarrow> mfold (\<lambda>line lines. vmod lines line (ld_expand 0 right)) [s..<e + 1] (fd_lines f);
        Some (f\<lparr>fd_lines := lines\<rparr>)
      })"

definition option_list :: "'a option \<Rightarrow> 'a list" where
  "option_list x = (case x of None \<Rightarrow> [] | Some y \<Rightarrow> [y])"

definition tracker_damage_selection :: "selection_range option \<Rightarrow> nat \<Rightarrow> damage_tracker \<Rightarrow> damage_tracker option" where
  "tracker_damage_selection selection display_offset t = do {
     let old = dt_old_selection t;
     let t = t\<lparr>dt_old_selection := selection\<rparr>;
     if fd_full (dt_frame t) \<or> old = dt_old_selection t then Some t
     else do {
       f \<leftarrow> mfold (damage_selected_lines (dt_screen_lines t) (dt_columns t) (int display_offset))
             (option_list selection @ option_list old) (dt_frame t);
       Some (t\<lparr>dt_frame := f\<rparr>)
     }
   }"

subsection \<open>Rectangles\<close>

definition rect_for_line :: "size_info \<Rightarrow> line_damage \<Rightarrow> rect option" where
  "rect_for_line si d = do {
     let y_top = si_height si - si_padding_y si;
     let x = si_padding_x si + ld_left d * si_cell_width si;
     let line_offset = (ld_line d + 1) * si_cell_height si;
     let y = y_top - line_offset;
     n \<leftarrow> usub (ld_right d) (ld_left d);
     Some (rect_new (int x) (int y) (int ((n + 1) * si_cell_width si)) (int (si_cell_height si)))
   }"

definition overdamage :: "size_info \<Rightarrow> rect \<Rightarrow> rect" where
  "overdamage si r =
     (let r = r\<lparr>rc_x := max (rc_x r - int (si_cell_width si)) 0\<rparr>;
          r = r\<lparr>rc_width := min (max (int (si_width si) - rc_x r) 0) (rc_width r + 2 * int (si_cell_width si))\<rparr>;
          r = r\<lparr>rc_y := max (rc_y r - int (si_cell_height si) div 2) 0\<rparr>
      in r\<lparr>rc_height := min (max (int (si_height si) - rc_y r) 0) (rc_height r + int (si_cell_height si))\<rparr>)"

definition rects_overlap :: "rect \<Rightarrow> rect \<Rightarrow> bool" where
  "rects_overlap lhs rhs \<longleftrightarrow>
     \<not> (rc_x lhs + rc_width lhs < rc_x rhs \<or> rc_x rhs + rc_width rhs < rc_x lhs
        \<or> rc_y lhs + rc_height lhs < rc_y rhs \<or> rc_y rhs + rc_height rhs < rc_y lhs)"

definition merge_rects :: "rect \<Rightarrow> rect \<Rightarrow> rect" where
  "merge_rects lhs rhs =
     (let left_x = min (rc_x lhs) (rc_x rhs);
          right_x = max (rc_x lhs + rc_width lhs) (rc_x rhs + rc_width rhs);
          y_top = max (rc_y lhs + rc_height lhs) (rc_y rhs + rc_height rhs);
          y_bottom = min (rc_y lhs) (rc_y rhs)
      in rect_new left_x y_bottom (right_x - left_x) (y_top - y_bottom))"

text \<open>The inner loop of \<^verbatim>\<open>next\<close>: the rectangle so far and the lines that are left.\<close>

fun merge_lines :: "size_info \<Rightarrow> rect \<Rightarrow> line_damage list \<Rightarrow> (rect \<times> line_damage list) option" where
  "merge_lines si acc [] = Some (acc, [])"
| "merge_lines si acc (d # ds) = do {
     r \<leftarrow> rect_for_line si d;
     let next_rect = overdamage si r;
     if \<not> rects_overlap acc next_rect then Some (acc, d # ds)
     else merge_lines si (merge_rects acc next_rect) ds
   }"

definition render_damage_next :: "size_info \<Rightarrow> line_damage list \<Rightarrow> (rect \<times> line_damage list) option option" where
  "render_damage_next si ds =
     (case ds of
        [] \<Rightarrow> Some None
      | d # ds \<Rightarrow> do { r \<leftarrow> rect_for_line si d; x \<leftarrow> merge_lines si (overdamage si r) ds; Some (Some x) })"

lemma merge_lines_length: "merge_lines si r ds = Some (r', ds') \<Longrightarrow> length ds' \<le> length ds"
  by (induction ds arbitrary: r) (auto simp: Let_def le_SucI split: bind_splits if_splits)

function render_damage :: "size_info \<Rightarrow> line_damage list \<Rightarrow> rect list option" where
  "render_damage si ds =
     (case render_damage_next si ds of
        None \<Rightarrow> None
      | Some None \<Rightarrow> Some []
      | Some (Some (r, ds')) \<Rightarrow> map_option ((#) r) (render_damage si ds'))"
  by pat_completeness auto
termination
  by (relation "measure (\<lambda>(si, ds). length ds)")
    (auto simp: render_damage_next_def less_Suc_eq_le split: list.splits bind_splits dest!: merge_lines_length)

declare render_damage.simps [simp del]

definition shape_frame_damage :: "size_info \<Rightarrow> damage_tracker \<Rightarrow> rect list option" where
  "shape_frame_damage si t =
     (if fd_full (dt_frame t) then Some [rect_new 0 0 (int (si_width si)) (int (si_height si))]
      else map_option (\<lambda>rs. rs @ fd_rects (dt_frame t))
             (render_damage si (damage_collect (damage_iterator_new (fd_lines (dt_frame t)) 0))))"

subsection \<open>The rectangles cover the damage\<close>

definition covers :: "rect \<Rightarrow> rect \<Rightarrow> bool" where
  "covers a b \<longleftrightarrow> rc_x a \<le> rc_x b \<and> rc_x b + rc_width b \<le> rc_x a + rc_width a
     \<and> rc_y a \<le> rc_y b \<and> rc_y b + rc_height b \<le> rc_y a + rc_height a"

lemma covers_refl [simp]: "covers r r"
  by (simp add: covers_def)

lemma covers_trans: "covers a b \<Longrightarrow> covers b c \<Longrightarrow> covers a c"
  unfolding covers_def by linarith

lemma merge_covers: "covers (merge_rects a b) a" "covers (merge_rects a b) b"
  by (auto simp: covers_def merge_rects_def rect_new_def Let_def)

definition in_window :: "size_info \<Rightarrow> rect \<Rightarrow> bool" where
  "in_window si r \<longleftrightarrow> 0 \<le> rc_x r \<and> rc_x r + rc_width r \<le> int (si_width si) \<and> 0 \<le> rc_y r \<and> rc_y r + rc_height r \<le> int (si_height si)"

lemma overdamage_covers: "in_window si r \<Longrightarrow> covers (overdamage si r) r"
  by (auto simp: covers_def in_window_def overdamage_def Let_def min_def max_def)

text \<open>The pixels of a cell, and the lines and columns that fit into the window.\<close>

definition cell_rect :: "size_info \<Rightarrow> nat \<Rightarrow> nat \<Rightarrow> rect" where
  "cell_rect si line col =
     rect_new (int (si_padding_x si + col * si_cell_width si)) (int (si_height si) - int (si_padding_y si) - int ((line + 1) * si_cell_height si))
       (int (si_cell_width si)) (int (si_cell_height si))"

definition fits_window :: "size_info \<Rightarrow> nat \<Rightarrow> nat \<Rightarrow> bool" where
  "fits_window si num_lines num_cols \<longleftrightarrow>
     si_padding_y si + num_lines * si_cell_height si \<le> si_height si \<and> si_padding_x si + num_cols * si_cell_width si \<le> si_width si"

lemma rect_for_line_covers:
  assumes d: "ld_left d \<le> c" "c \<le> ld_right d" "ld_right d < num_cols" "ld_line d < num_lines" and w: "fits_window si num_lines num_cols"
  shows "returns (rect_for_line si d) (\<lambda>r. in_window si r \<and> covers r (cell_rect si (ld_line d) c))"
proof -
  define cw ch where "cw = si_cell_width si" and "ch = si_cell_height si"
  define Y X L W C where "Y = (ld_line d + 1) * ch" and "X = (ld_right d + 1) * cw" and "L = ld_left d * cw"
    and "W = (ld_right d - ld_left d + 1) * cw" and "C = c * cw"
  have "(ld_line d + 1) * ch \<le> num_lines * ch" "(ld_right d + 1) * cw \<le> num_cols * cw"
    using d(3,4) by (simp_all only: mult_le_mono1 Suc_eq_plus1 [symmetric] Suc_le_eq)
  then have y: "si_padding_y si + Y \<le> si_height si" and x: "si_padding_x si + X \<le> si_width si"
    using w by (simp_all add: fits_window_def Y_def X_def cw_def ch_def)
  have lr: "L + W = X" using d(1,2) by (simp add: L_def W_def X_def flip: distrib_right)
  have lc: "L \<le> C" using d(1) by (simp add: L_def C_def)
  have cr: "C + cw \<le> X" using mult_le_mono1 [of "c + 1" "ld_right d + 1" cw] d(2) by (simp add: C_def X_def)
  have run: "rect_for_line si d = Some (rect_new (int (si_padding_x si + L)) (int (si_height si - si_padding_y si - Y)) (int W) (int ch))"
    using d(1,2) by (simp add: rect_for_line_def cw_def ch_def L_def W_def Y_def Let_def)
  have cell: "cell_rect si (ld_line d) c = rect_new (int (si_padding_x si + C)) (int (si_height si) - int (si_padding_y si) - int Y) (int cw) (int ch)"
    by (simp only: cell_rect_def cw_def ch_def C_def Y_def)
  have ch: "ch \<le> Y" by (simp add: Y_def)
  show ?thesis
    unfolding run cell returns_Some in_window_def covers_def rect_new_def rect.simps using x y lr lc cr ch by linarith
qed

definition line_ok :: "nat \<Rightarrow> nat \<Rightarrow> line_damage \<Rightarrow> bool" where
  "line_ok num_lines num_cols d \<longleftrightarrow> ld_left d \<le> ld_right d \<and> ld_right d < num_cols \<and> ld_line d < num_lines"

abbreviation marks :: "line_damage \<Rightarrow> nat \<Rightarrow> nat \<Rightarrow> bool" where
  "marks d line col \<equiv> ld_line d = line \<and> ld_left d \<le> col \<and> col \<le> ld_right d"

lemma line_rect_covers:
  assumes "line_ok num_lines num_cols d" "fits_window si num_lines num_cols"
  shows "returns (rect_for_line si d) (\<lambda>r. \<forall>line c. marks d line c \<longrightarrow> covers (overdamage si r) (cell_rect si line c))"
proof -
  have l: "ld_left d \<le> ld_left d" "ld_left d \<le> ld_right d" "ld_right d < num_cols" "ld_line d < num_lines"
    using assms(1) by (simp_all add: line_ok_def)
  obtain r where r: "rect_for_line si d = Some r" "in_window si r"
    using rect_for_line_covers [OF l assms(2)] by (auto simp: returns_def)
  have "covers (overdamage si r) (cell_rect si line c)" if "marks d line c" for line c
    using rect_for_line_covers [of d c num_cols num_lines si] that l(3,4) assms(2) r covers_trans [OF overdamage_covers] by auto
  then show ?thesis using r by simp
qed

lemma merge_lines_covers:
  assumes "\<forall>d \<in> set ds. line_ok num_lines num_cols d" "fits_window si num_lines num_cols"
  shows "returns (merge_lines si acc ds) (\<lambda>(r, ds'). covers r acc \<and> set ds' \<subseteq> set ds \<and> length ds' \<le> length ds
     \<and> (\<forall>d \<in> set ds - set ds'. \<forall>line c. marks d line c \<longrightarrow> covers r (cell_rect si line c)))"
  using assms(1)
proof (induction ds arbitrary: acc)
  case Nil
  then show ?case by simp
next
  case (Cons d ds)
  obtain r where r: "rect_for_line si d = Some r" "\<forall>line c. marks d line c \<longrightarrow> covers (overdamage si r) (cell_rect si line c)"
    using line_rect_covers [of num_lines num_cols d si] Cons.prems assms(2) by (auto simp: returns_def)
  show ?case
  proof (cases "rects_overlap acc (overdamage si r)")
    case False
    then show ?thesis by (auto simp: r(1) Let_def)
  next
    case True
    let ?m = "merge_rects acc (overdamage si r)"
    have ih: "returns (merge_lines si ?m ds) (\<lambda>(r, ds'). covers r ?m \<and> set ds' \<subseteq> set ds \<and> length ds' \<le> length ds
        \<and> (\<forall>d \<in> set ds - set ds'. \<forall>line c. marks d line c \<longrightarrow> covers r (cell_rect si line c)))"
      using Cons.IH Cons.prems by simp
    have "returns (merge_lines si ?m ds) (\<lambda>(r, ds'). covers r acc \<and> set ds' \<subseteq> set (d # ds) \<and> length ds' \<le> length (d # ds)
        \<and> (\<forall>x \<in> set (d # ds) - set ds'. \<forall>line c. marks x line c \<longrightarrow> covers r (cell_rect si line c)))"
    proof (rule returns_mono [OF ih], clarify)
      fix q ds' assume q: "covers q ?m" "set ds' \<subseteq> set ds" "length ds' \<le> length ds"
        "\<forall>d \<in> set ds - set ds'. \<forall>line c. marks d line c \<longrightarrow> covers q (cell_rect si line c)"
      have "covers q acc" by (rule covers_trans [OF q(1) merge_covers(1)])
      moreover have "covers q (overdamage si r)" by (rule covers_trans [OF q(1) merge_covers(2)])
      then have "covers q (cell_rect si line c)" if "marks d line c" for line c using r(2) that covers_trans by blast
      ultimately show "covers q acc \<and> set ds' \<subseteq> set (d # ds) \<and> length ds' \<le> length (d # ds)
          \<and> (\<forall>x \<in> set (d # ds) - set ds'. \<forall>line c. marks x line c \<longrightarrow> covers q (cell_rect si line c))"
        using q(2-4) by auto
    qed
    then show ?thesis using True by (simp add: r(1) Let_def)
  qed
qed

lemma render_damage_covers:
  assumes "\<forall>d \<in> set ds. line_ok num_lines num_cols d" "fits_window si num_lines num_cols"
  shows "returns (render_damage si ds) (\<lambda>rs. \<forall>d \<in> set ds. \<forall>line c. marks d line c \<longrightarrow> (\<exists>r \<in> set rs. covers r (cell_rect si line c)))"
  using assms(1)
proof (induction "length ds" arbitrary: ds rule: less_induct)
  case less
  show ?case
  proof (cases ds)
    case Nil
    then show ?thesis by (subst render_damage.simps) (simp add: render_damage_next_def)
  next
    case (Cons d ds1)
    obtain r where r: "rect_for_line si d = Some r" "\<forall>line c. marks d line c \<longrightarrow> covers (overdamage si r) (cell_rect si line c)"
      using line_rect_covers [of num_lines num_cols d si] less.prems Cons assms(2) by (auto simp: returns_def)
    have ds1: "\<forall>d \<in> set ds1. line_ok num_lines num_cols d" using less.prems Cons by simp
    obtain q ds2 where q: "merge_lines si (overdamage si r) ds1 = Some (q, ds2)" "covers q (overdamage si r)" "set ds2 \<subseteq> set ds1"
      "length ds2 \<le> length ds1" "\<forall>d \<in> set ds1 - set ds2. \<forall>line c. marks d line c \<longrightarrow> covers q (cell_rect si line c)"
      using merge_lines_covers [OF ds1 assms(2), of "overdamage si r"] by (auto simp: returns_def)
    have "returns (render_damage si ds2) (\<lambda>rs. \<forall>d \<in> set ds2. \<forall>line c. marks d line c \<longrightarrow> (\<exists>r \<in> set rs. covers r (cell_rect si line c)))"
      using less.hyps [of ds2] q(3,4) ds1 Cons by auto
    then obtain rs where rs: "render_damage si ds2 = Some rs"
      "\<forall>d \<in> set ds2. \<forall>line c. marks d line c \<longrightarrow> (\<exists>r \<in> set rs. covers r (cell_rect si line c))" by (auto simp: returns_def)
    have "render_damage si ds = Some (q # rs)"
      using Cons r(1) q(1) rs(1) by (subst render_damage.simps) (simp add: render_damage_next_def)
    moreover have "\<exists>r \<in> set (q # rs). covers r (cell_rect si line c)" if x: "x \<in> set ds" and m: "marks x line c" for x line c
    proof -
      consider "x = d" | "x \<in> set ds2" | "x \<in> set ds1 - set ds2" using x Cons by (metis DiffI set_ConsD)
      then show ?thesis
      proof cases
        case 1
        then have "covers (overdamage si r) (cell_rect si line c)" using r(2) m by blast
        then show ?thesis using covers_trans [OF q(2)] by auto
      next
        case 2
        then show ?thesis using rs(2) m by auto
      next
        case 3
        then show ?thesis using q(5) m by auto
      qed
    qed
    ultimately show ?thesis by simp
  qed
qed

subsection \<open>Frames keep their shape\<close>

definition frame_ok :: "nat \<Rightarrow> nat \<Rightarrow> frame_damage \<Rightarrow> bool" where
  "frame_ok num_lines num_cols f \<longleftrightarrow>
     map ld_line (fd_lines f) = [0..<num_lines] \<and> (\<forall>d \<in> set (fd_lines f). ld_right d < num_cols)"

definition tracker_ok :: "damage_tracker \<Rightarrow> bool" where
  "tracker_ok t \<longleftrightarrow> frame_ok (dt_screen_lines t) (dt_columns t) (dt_frame t) \<and> frame_ok (dt_screen_lines t) (dt_columns t) (dt_next_frame t)
     \<and> 1 \<le> dt_screen_lines t \<and> 1 \<le> dt_columns t"

definition frame_marks :: "frame_damage \<Rightarrow> nat \<Rightarrow> nat \<Rightarrow> bool" where
  "frame_marks f line col \<longleftrightarrow> fd_full f \<or> (line < length (fd_lines f) \<and> ld_left (fd_lines f ! line) \<le> col \<and> col \<le> ld_right (fd_lines f ! line))"

lemma frame_reset_ok: "1 \<le> num_cols \<Longrightarrow> frame_ok num_lines num_cols (frame_reset num_lines num_cols f)"
  unfolding frame_ok_def frame_reset_def frame_damage.simps undamaged_ok
  by (auto simp: undamaged_lines_def undamaged_def)

lemma frame_ok_length: "frame_ok num_lines num_cols f \<Longrightarrow> length (fd_lines f) = num_lines"
  unfolding frame_ok_def by (metis diff_zero length_map length_upt)

lemma frame_ok_line: "frame_ok num_lines num_cols f \<Longrightarrow> i < num_lines \<Longrightarrow> ld_line (fd_lines f ! i) = i"
  unfolding frame_ok_def by (metis add_0 diff_zero length_map length_upt nth_map nth_upt)

lemma frame_expand_ok:
  assumes f: "frame_ok num_lines num_cols f" and r: "right < num_cols" "i < num_lines"
  shows "frame_ok num_lines num_cols (f\<lparr>fd_lines := (fd_lines f)[i := ld_expand left right (fd_lines f ! i)]\<rparr>)"
proof -
  have i: "i < length (fd_lines f)" using f r(2) by (simp add: frame_ok_length)
  have "ld_right (fd_lines f ! i) < num_cols" using f i by (auto simp: frame_ok_def)
  then show ?thesis
    using f r i frame_ok_line [OF f r(2)]
    by (auto simp: frame_ok_def map_update ld_expand_def list_update_same_conv dest!: set_update_subset_insert [THEN subsetD])
qed

lemma shape_frame_damage_covers:
  assumes t: "tracker_ok t" and si: "fits_window si (dt_screen_lines t) (dt_columns t)" "dt_screen_lines t = n" "dt_columns t = m"
  shows "returns (shape_frame_damage si t) (\<lambda>rs. \<forall>line col. frame_marks (dt_frame t) line col \<and> line < n \<and> col < m \<longrightarrow>
     (\<exists>r \<in> set rs. covers r (cell_rect si line col)))"
proof (cases "fd_full (dt_frame t)")
  case True
  have "covers (rect_new 0 0 (int (si_width si)) (int (si_height si))) (cell_rect si line col)" if l: "line < n" "col < m" for line col
  proof -
    let ?d = "\<lparr>ld_line = line, ld_left = col, ld_right = col\<rparr>"
    obtain r where "in_window si r" "covers r (cell_rect si line col)"
      using rect_for_line_covers [of ?d col m n si] l si by (auto simp: returns_def)
    moreover have "covers (rect_new 0 0 (int (si_width si)) (int (si_height si))) r"
      using \<open>in_window si r\<close> by (simp add: covers_def in_window_def rect_new_def)
    ultimately show ?thesis using covers_trans by blast
  qed
  then show ?thesis using True by (auto simp: shape_frame_damage_def)
next
  case False
  let ?f = "dt_frame t"
  have f: "frame_ok n m ?f" using t si by (simp add: tracker_ok_def)
  define ds where "ds = damage_collect (damage_iterator_new (fd_lines ?f) 0)"
  have ds: "ds = map (\<lambda>d. ld_new (ld_line d) (ld_left d) (ld_right d)) (filter is_damaged (fd_lines ?f))"
    by (simp add: ds_def damage_iterator_new_def damage_collect_find)
  have lines: "ld_line d < n" if "d \<in> set (fd_lines ?f)" for d
  proof -
    have "ld_line d \<in> set (map ld_line (fd_lines ?f))" using that by simp
    then show ?thesis using f unfolding frame_ok_def by simp
  qed
  have ok: "\<forall>d \<in> set ds. line_ok n m d"
    using f lines by (auto simp: ds line_ok_def ld_new_def is_damaged_def frame_ok_def)
  have marked: "\<exists>d \<in> set ds. marks d line col" if "frame_marks ?f line col" for line col
  proof -
    have i: "line < n" "ld_left (fd_lines ?f ! line) \<le> col" "col \<le> ld_right (fd_lines ?f ! line)" "fd_lines ?f ! line \<in> set (fd_lines ?f)"
      using that False frame_ok_length [OF f] by (auto simp: frame_marks_def)
    then show ?thesis
      using frame_ok_line [OF f i(1)] by (auto simp: ds ld_new_def is_damaged_def intro!: bexI [of _ "fd_lines ?f ! line"])
  qed
  have "returns (render_damage si ds) (\<lambda>rs. \<forall>d \<in> set ds. \<forall>line c. marks d line c \<longrightarrow> (\<exists>r \<in> set rs. covers r (cell_rect si line c)))"
    by (rule render_damage_covers [OF ok]) (use si in simp)
  then have "returns (render_damage si ds) (\<lambda>rs. \<forall>line col. frame_marks ?f line col \<longrightarrow> (\<exists>r \<in> set rs. covers r (cell_rect si line col)))"
    by (rule returns_mono) (use marked in blast)
  then show ?thesis
    using False by (auto simp: shape_frame_damage_def ds_def [symmetric] elim!: returns_mono)
qed

subsection \<open>Damage of selections\<close>

lemma damage_selected_lines_returns:
  assumes f: "frame_ok n m f" and nm: "1 \<le> n" "1 \<le> m"
  shows "returns (damage_selected_lines n m off sel f) (\<lambda>f'. frame_ok n m f' \<and> fd_full f' = fd_full f \<and> fd_rects f' = fd_rects f
     \<and> (\<forall>line col. frame_marks f line col \<longrightarrow> frame_marks f' line col)
     \<and> (\<forall>line col. line < n \<and> col < m \<and> p_line (sr_start sel) + off \<le> int line \<and> int line \<le> p_line (sr_end sel) + off \<longrightarrow> frame_marks f' line col))"
proof (cases "p_line (sr_end sel) + off < 0 \<or> \<bar>p_line (sr_start sel)\<bar> < off - (int n - 1)")
  case True
  then show ?thesis using f by (auto simp: damage_selected_lines_def)
next
  case False
  define s e where "s = nat (max (p_line (sr_start sel) + off) 0)" and "e = nat (max 0 (min (int n - 1) (p_line (sr_end sel) + off)))"
  have e: "e < n" using nm by (simp add: e_def)
  let ?g = "\<lambda>line lines. vmod lines line (ld_expand 0 (m - 1))"
  have loop: "returns (mfold ?g ls lines) (\<lambda>lines'. frame_ok n m (f\<lparr>fd_lines := lines'\<rparr>) \<and> length lines' = length lines
      \<and> (\<forall>l < length lines. ld_left (lines' ! l) \<le> ld_left (lines ! l) \<and> ld_right (lines ! l) \<le> ld_right (lines' ! l))
      \<and> (\<forall>l \<in> set ls. ld_left (lines' ! l) = 0 \<and> m - 1 \<le> ld_right (lines' ! l)))"
    if "frame_ok n m (f\<lparr>fd_lines := lines\<rparr>)" "\<forall>l \<in> set ls. l < n" for ls lines
    using that
  proof (induction ls arbitrary: lines)
    case Nil
    then show ?case by simp
  next
    case (Cons l ls)
    let ?lines = "lines[l := ld_expand 0 (m - 1) (lines ! l)]"
    have l: "l < length lines" using Cons.prems frame_ok_length [OF Cons.prems(1)] by simp
    have ok: "frame_ok n m (f\<lparr>fd_lines := ?lines\<rparr>)"
      using frame_expand_ok [OF Cons.prems(1), of "m - 1" l 0] Cons.prems(2) nm by simp
    have run: "mfold ?g (l # ls) lines = mfold ?g ls ?lines" using l by (simp add: vmod_def)
    show ?case
      unfolding run
    proof (rule returns_mono [OF Cons.IH [OF ok]])
      show "\<forall>l \<in> set ls. l < n" using Cons.prems(2) by simp
      fix lines'
      assume p: "frame_ok n m (f\<lparr>fd_lines := lines'\<rparr>) \<and> length lines' = length ?lines
        \<and> (\<forall>x < length ?lines. ld_left (lines' ! x) \<le> ld_left (?lines ! x) \<and> ld_right (?lines ! x) \<le> ld_right (lines' ! x))
        \<and> (\<forall>l \<in> set ls. ld_left (lines' ! l) = 0 \<and> m - 1 \<le> ld_right (lines' ! l))"
      have "ld_left (lines' ! x) \<le> ld_left (lines ! x) \<and> ld_right (lines ! x) \<le> ld_right (lines' ! x)" if "x < length lines" for x
        using p that l by (cases "x = l") (force simp: ld_expand_def)+
      moreover have "ld_left (lines' ! l) = 0 \<and> m - 1 \<le> ld_right (lines' ! l)"
        using p l by (force simp: ld_expand_def)
      ultimately show "frame_ok n m (f\<lparr>fd_lines := lines'\<rparr>) \<and> length lines' = length lines
        \<and> (\<forall>l < length lines. ld_left (lines' ! l) \<le> ld_left (lines ! l) \<and> ld_right (lines ! l) \<le> ld_right (lines' ! l))
        \<and> (\<forall>l \<in> set (l # ls). ld_left (lines' ! l) = 0 \<and> m - 1 \<le> ld_right (lines' ! l))"
        using p by auto
    qed
  qed
  have len: "length (fd_lines f) = n" by (rule frame_ok_length [OF f])
  have sel: "line \<in> set [s..<e + 1]" if "line < n" "p_line (sr_start sel) + off \<le> int line" "int line \<le> p_line (sr_end sel) + off" for line
    using that by (auto simp: s_def e_def)
  have "returns (mfold ?g [s..<e + 1] (fd_lines f)) (\<lambda>lines. frame_ok n m (f\<lparr>fd_lines := lines\<rparr>)
     \<and> (\<forall>line col. frame_marks f line col \<longrightarrow> frame_marks (f\<lparr>fd_lines := lines\<rparr>) line col)
     \<and> (\<forall>line col. line < n \<and> col < m \<and> p_line (sr_start sel) + off \<le> int line \<and> int line \<le> p_line (sr_end sel) + off
          \<longrightarrow> frame_marks (f\<lparr>fd_lines := lines\<rparr>) line col))"
  proof (rule returns_mono [OF loop])
    show "frame_ok n m (f\<lparr>fd_lines := fd_lines f\<rparr>)" using f by simp
    show "\<forall>l \<in> set [s..<e + 1]. l < n" using e by auto
  next
    fix lines' assume p: "frame_ok n m (f\<lparr>fd_lines := lines'\<rparr>) \<and> length lines' = length (fd_lines f)
        \<and> (\<forall>x < length (fd_lines f). ld_left (lines' ! x) \<le> ld_left (fd_lines f ! x) \<and> ld_right (fd_lines f ! x) \<le> ld_right (lines' ! x))
        \<and> (\<forall>l \<in> set [s..<e + 1]. ld_left (lines' ! l) = 0 \<and> m - 1 \<le> ld_right (lines' ! l))"
    have "frame_marks (f\<lparr>fd_lines := lines'\<rparr>) line col" if "frame_marks f line col" for line col
      using that p by (fastforce simp: frame_marks_def)
    moreover have "frame_marks (f\<lparr>fd_lines := lines'\<rparr>) line col"
      if "line < n" "col < m" "p_line (sr_start sel) + off \<le> int line" "int line \<le> p_line (sr_end sel) + off" for line col
    proof -
      have "ld_left (lines' ! line) = 0" "m - 1 \<le> ld_right (lines' ! line)" using p sel [OF that(1,3,4)] by blast+
      then show ?thesis using that(1,2) p len by (auto simp: frame_marks_def)
    qed
    ultimately show "frame_ok n m (f\<lparr>fd_lines := lines'\<rparr>)
     \<and> (\<forall>line col. frame_marks f line col \<longrightarrow> frame_marks (f\<lparr>fd_lines := lines'\<rparr>) line col)
     \<and> (\<forall>line col. line < n \<and> col < m \<and> p_line (sr_start sel) + off \<le> int line \<and> int line \<le> p_line (sr_end sel) + off
          \<longrightarrow> frame_marks (f\<lparr>fd_lines := lines'\<rparr>) line col)" using p by blast
  qed
  then show ?thesis
    unfolding damage_selected_lines_def Let_def if_not_P [OF False] returns_bind returns_as_usize s_def [symmetric] e_def [symmetric]
    using nm by (simp add: s_def e_def)
qed

end
