(* ===== verification/Props_Ui.thy ===== *)
theory Props_Ui
  imports Scheduler Str_Shortener Message_Bar Frame_Damage
begin

text \<open>The properties of the timers, the message bar, the shortening of texts and the damage of a frame.\<close>

subsection \<open>Timers\<close>

inductive sched_reachable :: "'e scheduler \<Rightarrow> bool" where
  new: "sched_reachable scheduler_new"
| schedule: "sched_reachable s \<Longrightarrow> repeat \<longrightarrow> interval \<noteq> 0 \<Longrightarrow> sched_reachable (schedule now ev interval repeat tid s)"
| unschedule: "sched_reachable s \<Longrightarrow> sched_reachable (snd (unschedule tid s))"
| unschedule_window: "sched_reachable s \<Longrightarrow> sched_reachable (unschedule_window w s)"
| update: "sched_reachable s \<Longrightarrow> \<forall>i. now \<le> clock i \<Longrightarrow> sched_update now clock s = Some (d, s') \<Longrightarrow> sched_reachable s'"

lemma sched_update_returns:
  assumes "sched_sorted s" "repeats_ok s" "\<forall>i. now \<le> clock i"
  shows "returns (sched_update now clock s) (\<lambda>(d, s'). update_post now s s'
     \<and> d = (if sc_timers s' = [] then None else Some (Min (tm_deadline ` set (sc_timers s')))))"
  unfolding sched_update_def returns_bind
proof (rule returns_mono [OF update_loop_returns [OF assms(1,2)]])
  show "now \<le> clock i" for i using assms(3) by simp
  fix s' assume p: "update_post now s s'"
  have "Min (tm_deadline ` set (t # ts)) = tm_deadline t" if "sc_timers s' = t # ts" for t ts
    using p that by (intro Min_eqI) (auto simp: update_post_def sched_sorted_def)
  then show "returns (Some (case sc_timers s' of [] \<Rightarrow> None | t # _ \<Rightarrow> Some (tm_deadline t), s')) (\<lambda>(d, s'). update_post now s s'
     \<and> d = (if sc_timers s' = [] then None else Some (Min (tm_deadline ` set (sc_timers s')))))"
    using p by (cases "sc_timers s'") auto
qed

lemma repeats_ok_timers:
  "repeats_ok s \<Longrightarrow> repeat \<longrightarrow> interval \<noteq> 0 \<Longrightarrow> repeats_ok (schedule now ev interval repeat tid s)"
  "repeats_ok s \<Longrightarrow> repeats_ok (snd (unschedule tid s))"
  "repeats_ok s \<Longrightarrow> repeats_ok (unschedule_window w s)"
  by (auto simp: repeats_ok_def schedule_timers unschedule_def unschedule_window_def split: option.splits
      dest: set_takeWhileD set_dropWhileD in_set_takeD in_set_dropD)

lemma sched_reachable_ok: "sched_reachable s \<Longrightarrow> sched_sorted s \<and> repeats_ok s"
proof (induction rule: sched_reachable.induct)
  case new
  then show ?case by (simp add: scheduler_new_def sched_sorted_def repeats_ok_def)
next
  case (schedule s repeat interval now ev tid)
  then show ?case by (simp add: schedule_sorted repeats_ok_timers)
next
  case (unschedule s tid)
  then show ?case by (simp add: unschedule_sorted repeats_ok_timers)
next
  case (unschedule_window s w)
  then show ?case by (simp add: unschedule_window_sorted repeats_ok_timers)
next
  case (update s now clock d s')
  then have "update_post now s s'" using returnsD [OF sched_update_returns, of s now clock "(d, s')"] by simp
  then show ?case by (simp add: update_post_def)
qed

text \<open>C30: Processing the timers of a scheduler that is built by its operations, with repeating timers of a positive interval,
  ends. It sends exactly the events of the timers that are due, in the order of their deadlines; afterwards no timer is
  due, the timers that were not due are still there, of the others exactly the repeating ones are scheduled again, and
  the result is the earliest deadline that is left.\<close>

theorem scheduler_fires_due_timers:
  assumes "sched_reachable s" "\<forall>i. now \<le> clock i"
  shows "returns (sched_update now clock s) (\<lambda>(deadline, s'). sched_reachable s'
     \<and> sc_sent s' = sc_sent s @ map tm_event (filter (\<lambda>t. tm_deadline t \<le> now) (sc_timers s))
     \<and> sorted (map tm_deadline (filter (\<lambda>t. tm_deadline t \<le> now) (sc_timers s)))
     \<and> (\<forall>t \<in> set (sc_timers s'). now < tm_deadline t)
     \<and> (\<forall>t \<in> set (sc_timers s). now < tm_deadline t \<longrightarrow> t \<in> set (sc_timers s'))
     \<and> image_mset tm_id (mset (sc_timers s'))
       = image_mset tm_id (mset (filter (\<lambda>t. now < tm_deadline t \<or> tm_interval t \<noteq> None) (sc_timers s)))
     \<and> deadline = (if sc_timers s' = [] then None else Some (Min (tm_deadline ` set (sc_timers s')))))"
proof -
  have s: "sched_sorted s" "repeats_ok s" using sched_reachable_ok [OF assms(1)] by simp_all
  have split: "mset (filter (\<lambda>t. \<not> tm_deadline t \<le> now) ts) + mset (filter (\<lambda>t. tm_interval t \<noteq> None) (filter (\<lambda>t. tm_deadline t \<le> now) ts))
      = mset (filter (\<lambda>t. now < tm_deadline t \<or> tm_interval t \<noteq> None) ts)" for ts :: "'a timer list"
    by (induction ts) (auto simp del: mset_filter)
  show ?thesis
  proof (rule returns_mono_eq [OF sched_update_returns [OF s assms(2)]], clarify)
    fix d s' assume run: "sched_update now clock s = Some (d, s')" and p: "update_post now s s'"
    have "sched_reachable s'" by (rule sched_reachable.update [OF assms run])
    moreover have "sorted (map tm_deadline (due now s))" using s(1) by (simp add: sched_sorted_def sorted_filter)
    moreover have "\<forall>t \<in> set (sc_timers s'). now < tm_deadline t" "\<forall>t \<in> set (sc_timers s). now < tm_deadline t \<longrightarrow> t \<in> set (sc_timers s')"
      using p by (auto simp: update_post_def filter_empty_conv not_le)
    moreover have "sc_sent s' = sc_sent s @ map tm_event (due now s)" using p by (simp add: update_post_def)
    moreover have "image_mset tm_id (mset (sc_timers s')) = image_mset tm_id (mset (filter (\<lambda>t. now < tm_deadline t \<or> tm_interval t \<noteq> None) (sc_timers s)))"
      using p by (simp only: update_post_def split)
    ultimately show "sched_reachable s' \<and> sc_sent s' = sc_sent s @ map tm_event (due now s)
     \<and> sorted (map tm_deadline (due now s))
     \<and> (\<forall>t \<in> set (sc_timers s'). now < tm_deadline t)
     \<and> (\<forall>t \<in> set (sc_timers s). now < tm_deadline t \<longrightarrow> t \<in> set (sc_timers s'))
     \<and> image_mset tm_id (mset (sc_timers s'))
       = image_mset tm_id (mset (filter (\<lambda>t. now < tm_deadline t \<or> tm_interval t \<noteq> None) (sc_timers s)))
     \<and> (if sc_timers s' = [] then None else Some (Min (tm_deadline ` set (sc_timers s'))))
       = (if sc_timers s' = [] then None else Some (Min (tm_deadline ` set (sc_timers s'))))" by blast
  qed
qed

definition demo_timers :: "nat scheduler" where
  "demo_timers = schedule 0 7 5 True \<lparr>ti_topic = BlinkCursor, ti_window = 1\<rparr> (schedule 0 8 3 False \<lparr>ti_topic = Frame, ti_window = 1\<rparr> scheduler_new)"

lemma demo_timers_events: "map tm_event (filter (\<lambda>t. tm_deadline t \<le> 6) (sc_timers demo_timers)) = [8, 7]" "sc_sent demo_timers = []"
  by (simp_all add: demo_timers_def schedule_timers) (simp_all add: scheduler_new_def)

theorem scheduler_witness: "returns (sched_update 6 (\<lambda>i. 6 + i) demo_timers) (\<lambda>(deadline, s). sc_sent s = [8, 7])"
proof -
  have r: "sched_reachable demo_timers" unfolding demo_timers_def by (intro sched_reachable.intros) simp_all
  show ?thesis
    by (rule returns_mono [OF scheduler_fires_due_timers [OF r, of 6 "\<lambda>i. 6 + i"]]) (use demo_timers_events in auto)
qed

subsection \<open>Texts\<close>

text \<open>A shortened text never takes more cells than it may, whatever side it is shortened on, and a text that is narrower
  than the limit is shown unchanged, wide characters followed by a spacer. When a text is shortened on the left and a
  shortener is shown, its first character has to be narrow.\<close>

theorem shortened_text_fits:
  assumes "\<And>c. 1 \<le> width c \<and> width c \<le> 2" "1 \<le> max_width"
    and "direction = ShortenRight \<or> shortener = None \<or> txt = [] \<or> width (hd txt) = 1"
  shows "returns (shorten width txt max_width direction shortener) (\<lambda>out. length out \<le> max_width
     \<and> (sum_list (map width txt) < max_width \<longrightarrow> out = concat (map (\<lambda>c. if width c = 2 then [c, 32] else [c]) txt)))"
  using shorten_right [of width max_width "txt" shortener] shorten_left [of width max_width shortener "txt"] assms
  unfolding spaced_def by (cases direction) blast+

theorem shortened_text_witness:
  "returns (shorten (\<lambda>c. if c < 0x1100 then 1 else 2) [97, 98, 99, 100] 3 ShortenLeft (Some 46)) (\<lambda>out. length out \<le> 3)"
  by (rule returns_mono [OF shortened_text_fits]) auto

text \<open>On a text without wide, combining or non-ASCII characters the message bar never panics, all its lines have exactly
  the width of the window, and at least three lines of the window stay free.\<close>

theorem message_fits_window:
  assumes "\<forall>c \<in> set (ms_text m). c < 128 \<and> (width c = Some 1 \<or> c = 10)" "1 \<le> num_cols"
  shows "returns (message_text width num_cols num_lines m) (\<lambda>lines. (\<forall>l \<in> set lines. length l = num_cols)
     \<and> length lines \<le> num_lines - MIN_FREE_LINES)"
  using message_text_returns [of m width num_cols num_lines] assms by (simp add: plain_def)

theorem message_witness:
  "returns (message_text (\<lambda>c. Some 1) 10 5 (message_new [97, 98, 10, 99] MsgError)) (\<lambda>lines. \<forall>l \<in> set lines. length l = 10)"
  by (rule returns_mono [OF message_fits_window]) (auto simp: message_new_def)

subsection \<open>Damage of a frame\<close>

lemma tracker_damage_selection_returns:
  assumes t: "tracker_ok t" and sel: "selection = Some a \<or> dt_old_selection t = Some a" "dt_old_selection t \<noteq> selection"
  shows "returns (tracker_damage_selection selection off t) (\<lambda>t'. tracker_ok t' \<and> dt_screen_lines t' = dt_screen_lines t \<and> dt_columns t' = dt_columns t
     \<and> (\<forall>line col. frame_marks (dt_frame t) line col \<longrightarrow> frame_marks (dt_frame t') line col)
     \<and> (\<forall>line col. line < dt_screen_lines t \<and> col < dt_columns t \<and> p_line (sr_start a) + int off \<le> int line \<and> int line \<le> p_line (sr_end a) + int off
          \<longrightarrow> frame_marks (dt_frame t') line col))"
proof (cases "fd_full (dt_frame t)")
  case True
  then show ?thesis using t by (simp add: tracker_damage_selection_def Let_def tracker_ok_def frame_marks_def)
next
  case False
  define n m where "n = dt_screen_lines t" and "m = dt_columns t"
  have ok: "frame_ok n m (dt_frame t)" "frame_ok n m (dt_next_frame t)" and nm: "1 \<le> n" "1 \<le> m"
    using t by (simp_all add: tracker_ok_def n_def m_def)
  let ?g = "damage_selected_lines n m (int off)"
  let ?P = "\<lambda>f sels f'. frame_ok n m f' \<and> (\<forall>line col. frame_marks f line col \<longrightarrow> frame_marks f' line col)
      \<and> (\<forall>s \<in> set sels. \<forall>line col. line < n \<and> col < m \<and> p_line (sr_start s) + int off \<le> int line \<and> int line \<le> p_line (sr_end s) + int off
          \<longrightarrow> frame_marks f' line col)"
  have loop: "returns (mfold ?g sels f) (?P f sels)" if "frame_ok n m f" for sels f
    using that
  proof (induction sels arbitrary: f)
    case (Cons s sels)
    have "returns (?g s f) (\<lambda>f1. returns (mfold ?g sels f1) (?P f (s # sels)))"
    proof (rule returns_mono [OF damage_selected_lines_returns [OF Cons.prems nm, of "int off" s]])
      fix f1 assume p: "frame_ok n m f1 \<and> fd_full f1 = fd_full f \<and> fd_rects f1 = fd_rects f
         \<and> (\<forall>line col. frame_marks f line col \<longrightarrow> frame_marks f1 line col)
         \<and> (\<forall>line col. line < n \<and> col < m \<and> p_line (sr_start s) + int off \<le> int line \<and> int line \<le> p_line (sr_end s) + int off \<longrightarrow> frame_marks f1 line col)"
      show "returns (mfold ?g sels f1) (?P f (s # sels))"
        by (rule returns_mono [OF Cons.IH]) (use p in auto)
    qed
    then show ?case by simp
  qed simp
  have "returns (mfold ?g (option_list selection @ option_list (dt_old_selection t)) (dt_frame t))
      (\<lambda>f'. frame_ok n m f' \<and> (\<forall>line col. frame_marks (dt_frame t) line col \<longrightarrow> frame_marks f' line col)
      \<and> (\<forall>line col. line < n \<and> col < m \<and> p_line (sr_start a) + int off \<le> int line \<and> int line \<le> p_line (sr_end a) + int off \<longrightarrow> frame_marks f' line col))"
  proof (rule returns_mono [OF loop [OF ok(1)]])
    have "a \<in> set (option_list selection @ option_list (dt_old_selection t))" using sel(1) by (auto simp: option_list_def)
    then show "frame_ok n m f' \<and> (\<forall>line col. frame_marks (dt_frame t) line col \<longrightarrow> frame_marks f' line col)
      \<and> (\<forall>line col. line < n \<and> col < m \<and> p_line (sr_start a) + int off \<le> int line \<and> int line \<le> p_line (sr_end a) + int off \<longrightarrow> frame_marks f' line col)"
      if "?P (dt_frame t) (option_list selection @ option_list (dt_old_selection t)) f'" for f' using that by blast
  qed
  then show ?thesis
    using False sel(2) ok nm
    by (auto simp: tracker_damage_selection_def Let_def tracker_ok_def n_def [symmetric] m_def [symmetric] elim!: returns_mono)
qed

text \<open>C31: When the selection changes, the rectangles handed to the compositor cover every visible cell on a line of the old and
  of the new selection, and every cell that was damaged before: merging the damaged lines of a frame into few rectangles
  and extending them by a margin loses no cell.\<close>

theorem frame_damage_covers_selection:
  assumes "tracker_ok t" "fits_window si (dt_screen_lines t) (dt_columns t)"
    and "selection = Some a \<or> dt_old_selection t = Some a" "dt_old_selection t \<noteq> selection"
  shows "returns (tracker_damage_selection selection off t \<bind> shape_frame_damage si) (\<lambda>rs.
     \<forall>line col. line < dt_screen_lines t \<and> col < dt_columns t
       \<and> (frame_marks (dt_frame t) line col \<or> (p_line (sr_start a) + int off \<le> int line \<and> int line \<le> p_line (sr_end a) + int off))
       \<longrightarrow> (\<exists>r \<in> set rs. covers r (cell_rect si line col)))"
  unfolding returns_bind
proof (rule returns_mono [OF tracker_damage_selection_returns [OF assms(1,3,4), of off]], elim conjE)
  fix t' assume t': "tracker_ok t'" "dt_screen_lines t' = dt_screen_lines t" "dt_columns t' = dt_columns t"
    and marks: "\<forall>line col. frame_marks (dt_frame t) line col \<longrightarrow> frame_marks (dt_frame t') line col"
      "\<forall>line col. line < dt_screen_lines t \<and> col < dt_columns t \<and> p_line (sr_start a) + int off \<le> int line \<and> int line \<le> p_line (sr_end a) + int off
          \<longrightarrow> frame_marks (dt_frame t') line col"
  have w: "fits_window si (dt_screen_lines t') (dt_columns t')" using assms(2) t' by simp
  show "returns (shape_frame_damage si t') (\<lambda>rs. \<forall>line col. line < dt_screen_lines t \<and> col < dt_columns t
       \<and> (frame_marks (dt_frame t) line col \<or> (p_line (sr_start a) + int off \<le> int line \<and> int line \<le> p_line (sr_end a) + int off))
       \<longrightarrow> (\<exists>r \<in> set rs. covers r (cell_rect si line col)))"
    by (rule returns_mono [OF shape_frame_damage_covers [OF t'(1) w t'(2,3)]]) (use marks in blast)
qed

definition demo_size :: size_info where
  "demo_size = \<lparr>si_width = 90, si_height = 50, si_cell_width = 10, si_cell_height = 20, si_padding_x = 5, si_padding_y = 5,
     si_screen_lines = 2, si_columns = 8\<rparr>"

definition demo_tracker :: damage_tracker where
  "demo_tracker = swap_damage (tracker_new 2 8)"

definition demo_range :: selection_range where
  "demo_range = \<lparr>sr_start = Point 1 2, sr_end = Point 1 4, sr_is_block = False\<rparr>"

lemma swap_damage_ok: "tracker_ok t \<Longrightarrow> tracker_ok (swap_damage t)"
  by (simp add: tracker_ok_def swap_damage_def frame_reset_ok)

lemma tracker_new_ok: "1 \<le> n \<Longrightarrow> 1 \<le> m \<Longrightarrow> tracker_ok (tracker_new n m)"
  using frame_reset_ok [of m n] by (simp add: tracker_ok_def tracker_new_def tracker_resize_def frame_ok_def)

theorem frame_damage_witness:
  "returns (tracker_damage_selection (Some demo_range) 0 demo_tracker \<bind> shape_frame_damage demo_size)
     (\<lambda>rs. \<exists>r \<in> set rs. covers r (cell_rect demo_size 1 3))"
proof -
  have "tracker_ok demo_tracker" unfolding demo_tracker_def by (intro swap_damage_ok tracker_new_ok) simp_all
  moreover have t: "dt_screen_lines demo_tracker = 2" "dt_columns demo_tracker = 8" "dt_old_selection demo_tracker = None"
    by (simp_all add: demo_tracker_def swap_damage_def tracker_new_def tracker_resize_def)
  moreover have "fits_window demo_size 2 8" by (simp add: fits_window_def demo_size_def)
  ultimately show ?thesis
    by (intro returns_mono [OF frame_damage_covers_selection [of demo_tracker demo_size "Some demo_range" demo_range 0]])
      (auto simp: demo_range_def)
qed

end
