(* ===== verification/Keys.thy ===== *)
theory Keys
  imports Term_State Utf8
begin

text \<open>
  The keyboard events of the window library \<^verbatim>\<open>winit\<close>, as far as \<^verbatim>\<open>velacritty/src/input/keyboard.rs\<close> and
  \<^verbatim>\<open>velacritty/src/config/bindings.rs\<close> use them. \<open>KF n\<close> is the function key \<^verbatim>\<open>Fn\<close>; a named key
  that neither of them mentions is a \<open>KOther\<close>. The platform is one
  without the special cases for macOS and Windows. What an event carries besides its fields, \<^verbatim>\<open>text_with_all_modifiers\<close> and
  \<^verbatim>\<open>key_without_modifiers\<close>, is part of the record.
\<close>

datatype named_key =
    KAlt | KControl | KShift | KSuper | KHyper | KMeta | KCapsLock | KNumLock | KScrollLock
  | KEnter | KTab | KSpace | KBackspace | KEscape | KDelete | KInsert | KCopy | KPaste
  | KArrowDown | KArrowLeft | KArrowRight | KArrowUp | KEnd | KHome | KPageDown | KPageUp
  | KContextMenu | KPause | KPrintScreen
  | KMediaPlay | KMediaPause | KMediaPlayPause | KMediaStop | KMediaFastForward | KMediaRewind
  | KMediaTrackNext | KMediaTrackPrevious | KMediaRecord | KAudioVolumeDown | KAudioVolumeUp | KAudioVolumeMute
  | KF nat
  | KOther nat

datatype winit_key = Character ustring | Named named_key | Unidentified nat | Dead "uchar option"

datatype winit_location = LocStandard | LocLeft | LocRight | LocNumpad

record modifiers =
  m_shift :: bool
  m_control :: bool
  m_alt :: bool
  m_super :: bool

definition no_mods :: modifiers where
  "no_mods = \<lparr>m_shift = False, m_control = False, m_alt = False, m_super = False\<rparr>"

definition mods_shift :: modifiers where "mods_shift = no_mods\<lparr>m_shift := True\<rparr>"
definition mods_ctrl :: modifiers where "mods_ctrl = no_mods\<lparr>m_control := True\<rparr>"
definition mods_alt :: modifiers where "mods_alt = no_mods\<lparr>m_alt := True\<rparr>"
definition mods_shift_alt :: modifiers where "mods_shift_alt = no_mods\<lparr>m_shift := True, m_alt := True\<rparr>"
definition mods_ctrl_shift :: modifiers where "mods_ctrl_shift = no_mods\<lparr>m_shift := True, m_control := True\<rparr>"

lemmas mods_defs = no_mods_def mods_shift_def mods_ctrl_def mods_alt_def mods_shift_alt_def mods_ctrl_shift_def

record key_event =
  ke_logical_key :: winit_key
  ke_location :: winit_location
  ke_physical_key :: nat
  ke_pressed :: bool
  ke_repeat :: bool
  ke_text_with_all_modifiers :: "ustring option"
  ke_key_without_modifiers :: winit_key

end
