(* ===== verification/Bindings.thy ===== *)
theory Bindings
  imports Keys Vi_Mode
begin

text \<open>
  Key and mouse bindings: \<^verbatim>\<open>velacritty/src/config/bindings.rs\<close> and \<^verbatim>\<open>deserialize_bindings\<close> of \<^verbatim>\<open>config/ui_config.rs\<close>. A hint (\<^verbatim>\<open>Rc<Hint>\<close>)
  is named by its position in the configuration.
\<close>

subsection \<open>Actions\<close>

datatype program = Just ustring | WithArgs ustring "ustring list"

datatype vi_action =
    ToggleNormalSelection | ToggleLineSelection | ToggleBlockSelection | ToggleSemanticSelection | SearchNext
  | SearchPrevious | SearchStart | SearchEnd | Open | CenterAroundViCursor | InlineSearchForward | InlineSearchBackward
  | InlineSearchForwardShort | InlineSearchBackwardShort | InlineSearchNext | InlineSearchPrevious
  | SemanticSearchForward | SemanticSearchBackward

datatype search_action =
    SearchFocusNext | SearchFocusPrevious | SearchConfirm | SearchCancel | SearchClear | SearchDeleteWord
  | SearchHistoryPrevious | SearchHistoryNext

datatype mouse_action = ExpandSelection

datatype action =
    Esc ustring | Command program | ActHint nat | ActViMotion vi_motion | ActVi vi_action | ActSearch search_action
  | ActMouse mouse_action | ActPaste | ActCopy | ActCopySelection | ActPasteSelection | ActIncreaseFontSize
  | ActDecreaseFontSize | ActResetFontSize | ActScrollPageUp | ActScrollPageDown | ActScrollHalfPageUp
  | ActScrollHalfPageDown | ActScrollLineUp | ActScrollLineDown | ActScrollToTop | ActScrollToBottom | ActClearHistory
  | ActHide | ActHideOtherApplications | ActMinimize | ActQuit | ActClearLogNotice | ActSpawnNewInstance
  | ActSelectNextTab | ActSelectPreviousTab | ActSelectTab1 | ActSelectTab2 | ActSelectTab3 | ActSelectTab4
  | ActSelectTab5 | ActSelectTab6 | ActSelectTab7 | ActSelectTab8 | ActSelectTab9 | ActSelectLastTab
  | ActCreateNewWindow | ActCreateNewTab | ActToggleFullscreen | ActToggleMaximized | ActToggleSimpleFullscreen
  | ActClearSelection | ActToggleViMode | ActToggleAutoScroll | ActReceiveChar | ActSearchForward | ActSearchBackward
  | ActNone

subsection \<open>Binding modes\<close>

type_synonym binding_mode = "8 word"

definition BM_APP_CURSOR :: binding_mode where "BM_APP_CURSOR = 0x1"
definition BM_APP_KEYPAD :: binding_mode where "BM_APP_KEYPAD = 0x2"
definition BM_ALT_SCREEN :: binding_mode where "BM_ALT_SCREEN = 0x4"
definition BM_VI :: binding_mode where "BM_VI = 0x8"
definition BM_SEARCH :: binding_mode where "BM_SEARCH = 0x10"
definition BM_DISAMBIGUATE_ESC_CODES :: binding_mode where "BM_DISAMBIGUATE_ESC_CODES = 0x20"
definition BM_REPORT_ALL_KEYS_AS_ESC :: binding_mode where "BM_REPORT_ALL_KEYS_AS_ESC = 0x40"

definition BM_all :: binding_mode where
  "BM_all = BM_APP_CURSOR OR BM_APP_KEYPAD OR BM_ALT_SCREEN OR BM_VI OR BM_SEARCH OR BM_DISAMBIGUATE_ESC_CODES OR BM_REPORT_ALL_KEYS_AS_ESC"

lemmas binding_mode_defs = BM_APP_CURSOR_def BM_APP_KEYPAD_def BM_ALT_SCREEN_def BM_VI_def BM_SEARCH_def
  BM_DISAMBIGUATE_ESC_CODES_def BM_REPORT_ALL_KEYS_AS_ESC_def BM_all_def

definition binding_mode_new :: "term_mode \<Rightarrow> bool \<Rightarrow> binding_mode" where
  "binding_mode_new mode search =
     (let m = 0;
          m = fl_set m BM_APP_CURSOR (fl_contains mode APP_CURSOR);
          m = fl_set m BM_APP_KEYPAD (fl_contains mode APP_KEYPAD);
          m = fl_set m BM_ALT_SCREEN (fl_contains mode ALT_SCREEN);
          m = fl_set m BM_VI (fl_contains mode VI);
          m = fl_set m BM_SEARCH search;
          m = fl_set m BM_DISAMBIGUATE_ESC_CODES (fl_contains mode DISAMBIGUATE_ESC_CODES)
      in fl_set m BM_REPORT_ALL_KEYS_AS_ESC (fl_contains mode REPORT_ALL_KEYS_AS_ESC))"

subsection \<open>Bindings\<close>

record 't binding =
  bd_mods :: modifiers
  bd_action :: "action"
  bd_mode :: binding_mode
  bd_notmode :: binding_mode
  bd_trigger :: 't

text \<open>The comparison of the trigger with the input, \<^verbatim>\<open>T: Eq\<close>, is the first argument.\<close>

definition is_triggered_by :: "('t \<Rightarrow> 't \<Rightarrow> bool) \<Rightarrow> 't binding \<Rightarrow> binding_mode \<Rightarrow> modifiers \<Rightarrow> 't \<Rightarrow> bool" where
  "is_triggered_by eq b mode mods inp \<longleftrightarrow>
     eq (bd_trigger b) inp \<and> bd_mods b = mods \<and> fl_contains mode (bd_mode b) \<and> \<not> fl_intersects mode (bd_notmode b)"

definition triggers_match :: "('t \<Rightarrow> 't \<Rightarrow> bool) \<Rightarrow> 't binding \<Rightarrow> 't binding \<Rightarrow> bool" where
  "triggers_match eq b b' =
     (if \<not> eq (bd_trigger b) (bd_trigger b') \<or> bd_mods b \<noteq> bd_mods b' then False
      else let selfmode = (if bd_mode b = 0 then BM_all else bd_mode b);
               bindingmode = (if bd_mode b' = 0 then BM_all else bd_mode b')
           in if \<not> fl_intersects selfmode bindingmode then False
              else if fl_intersects (bd_mode b) (bd_notmode b') \<or> fl_intersects (bd_mode b') (bd_notmode b) then False
              else True)"

datatype binding_location = Standard | Numpad | Any

definition location_of_winit :: "winit_location \<Rightarrow> binding_location" where
  "location_of_winit l = (case l of LocStandard \<Rightarrow> Standard | LocLeft \<Rightarrow> Any | LocRight \<Rightarrow> Any | LocNumpad \<Rightarrow> Numpad)"

fun location_eq :: "binding_location \<Rightarrow> binding_location \<Rightarrow> bool" where
  "location_eq _ Any = True"
| "location_eq Any _ = True"
| "location_eq Standard Standard = True"
| "location_eq Numpad Numpad = True"
| "location_eq _ _ = False"

datatype binding_key = Scancode nat | Keycode winit_key binding_location

fun binding_key_eq :: "binding_key \<Rightarrow> binding_key \<Rightarrow> bool" where
  "binding_key_eq (Scancode a) (Scancode b) \<longleftrightarrow> a = b"
| "binding_key_eq (Keycode k l) (Keycode k' l') \<longleftrightarrow> k = k' \<and> location_eq l l'"
| "binding_key_eq _ _ \<longleftrightarrow> False"

type_synonym key_binding = "binding_key binding"

text \<open>The bindings of the user, where those that cannot be read are skipped, before the default ones that do not match any
  of them.\<close>

definition deserialize_bindings ::
  "('t \<Rightarrow> 't \<Rightarrow> bool) \<Rightarrow> ('v \<Rightarrow> 't binding option) \<Rightarrow> 'v list \<Rightarrow> 't binding list \<Rightarrow> 't binding list" where
  "deserialize_bindings eq parse values defaults =
     (let bindings = List.map_filter parse values;
          defaults = fold (\<lambda>binding. filter (\<lambda>b. \<not> triggers_match eq b binding)) bindings defaults
      in bindings @ defaults)"

subsection \<open>The default bindings\<close>

definition binding_new :: "'t \<Rightarrow> modifiers \<Rightarrow> binding_mode \<Rightarrow> binding_mode \<Rightarrow> action \<Rightarrow> 't binding" where
  "binding_new trigger mods mode notmode action =
     \<lparr>bd_mods = mods, bd_action = action, bd_mode = mode, bd_notmode = notmode, bd_trigger = trigger\<rparr>"

datatype mouse_button = MouseLeft | MouseRight | MouseMiddle | MouseBack | MouseForward | MouseOther nat

definition default_mouse_bindings :: "mouse_button binding list" where
  "default_mouse_bindings =
    [binding_new MouseRight no_mods 0 0 (ActMouse ExpandSelection),
     binding_new MouseRight mods_ctrl 0 0 (ActMouse ExpandSelection),
     binding_new MouseMiddle no_mods 0 BM_VI ActPasteSelection]"

definition common_keybindings :: "key_binding list" where
  "common_keybindings =
    [binding_new (Keycode (Character (lit ''v'')) Any) mods_ctrl_shift 0 BM_VI ActPaste,
     binding_new (Keycode (Character (lit ''v'')) Any) mods_ctrl_shift (BM_VI OR BM_SEARCH) 0 ActPaste,
     binding_new (Keycode (Character (lit ''f'')) Any) mods_ctrl_shift 0 BM_SEARCH ActSearchForward,
     binding_new (Keycode (Character (lit ''b'')) Any) mods_ctrl_shift 0 BM_SEARCH ActSearchBackward,
     binding_new (Keycode (Named KInsert) Any) mods_shift 0 BM_VI ActPasteSelection,
     binding_new (Keycode (Character (lit ''c'')) Any) mods_ctrl_shift 0 0 ActCopy,
     binding_new (Keycode (Character (lit ''c'')) Any) mods_ctrl_shift BM_VI BM_SEARCH ActClearSelection,
     binding_new (Keycode (Character (lit ''0'')) Any) mods_ctrl 0 0 ActResetFontSize,
     binding_new (Keycode (Character (lit ''='')) Any) mods_ctrl 0 0 ActIncreaseFontSize,
     binding_new (Keycode (Character (lit ''+'')) Any) mods_ctrl 0 0 ActIncreaseFontSize,
     binding_new (Keycode (Character (lit ''-'')) Any) mods_ctrl 0 0 ActDecreaseFontSize,
     binding_new (Keycode (Character (lit ''+'')) Numpad) mods_ctrl 0 0 ActIncreaseFontSize,
     binding_new (Keycode (Character (lit ''-'')) Numpad) mods_ctrl 0 0 ActDecreaseFontSize]"

definition platform_key_bindings :: "key_binding list" where
  "platform_key_bindings = common_keybindings"

definition default_key_bindings :: "key_binding list" where
  "default_key_bindings =
    [binding_new (Keycode (Named KCopy) Any) no_mods 0 0 ActCopy,
     binding_new (Keycode (Named KCopy) Any) no_mods BM_VI 0 ActClearSelection,
     binding_new (Keycode (Named KPaste) Any) no_mods 0 BM_VI ActPaste,
     binding_new (Keycode (Named KPaste) Any) no_mods (BM_VI OR BM_SEARCH) 0 ActPaste,
     binding_new (Keycode (Character (lit ''l'')) Any) mods_ctrl 0 0 ActClearLogNotice,
     binding_new (Keycode (Character (lit ''l'')) Any) mods_ctrl 0 0 ActReceiveChar,
     binding_new (Keycode (Named KHome) Any) mods_shift 0 BM_ALT_SCREEN ActScrollToTop,
     binding_new (Keycode (Named KEnd) Any) mods_shift 0 BM_ALT_SCREEN ActScrollToBottom,
     binding_new (Keycode (Named KPageUp) Any) mods_shift 0 BM_ALT_SCREEN ActScrollPageUp,
     binding_new (Keycode (Named KPageDown) Any) mods_shift 0 BM_ALT_SCREEN ActScrollPageDown,
     binding_new (Keycode (Named KHome) Any) no_mods BM_APP_CURSOR (BM_VI OR BM_SEARCH) (Esc [27, 79, 72]),
     binding_new (Keycode (Named KEnd) Any) no_mods BM_APP_CURSOR (BM_VI OR BM_SEARCH) (Esc [27, 79, 70]),
     binding_new (Keycode (Named KArrowUp) Any) no_mods BM_APP_CURSOR (BM_VI OR BM_SEARCH) (Esc [27, 79, 65]),
     binding_new (Keycode (Named KArrowDown) Any) no_mods BM_APP_CURSOR (BM_VI OR BM_SEARCH) (Esc [27, 79, 66]),
     binding_new (Keycode (Named KArrowRight) Any) no_mods BM_APP_CURSOR (BM_VI OR BM_SEARCH) (Esc [27, 79, 67]),
     binding_new (Keycode (Named KArrowLeft) Any) no_mods BM_APP_CURSOR (BM_VI OR BM_SEARCH) (Esc [27, 79, 68]),
     binding_new (Keycode (Named (KF 1)) Any) no_mods 0 (BM_VI OR BM_SEARCH OR BM_REPORT_ALL_KEYS_AS_ESC OR BM_DISAMBIGUATE_ESC_CODES) (Esc [27, 79, 80]),
     binding_new (Keycode (Named (KF 2)) Any) no_mods 0 (BM_VI OR BM_SEARCH OR BM_REPORT_ALL_KEYS_AS_ESC OR BM_DISAMBIGUATE_ESC_CODES) (Esc [27, 79, 81]),
     binding_new (Keycode (Named (KF 3)) Any) no_mods 0 (BM_VI OR BM_SEARCH OR BM_REPORT_ALL_KEYS_AS_ESC OR BM_DISAMBIGUATE_ESC_CODES) (Esc [27, 79, 82]),
     binding_new (Keycode (Named (KF 4)) Any) no_mods 0 (BM_VI OR BM_SEARCH OR BM_REPORT_ALL_KEYS_AS_ESC OR BM_DISAMBIGUATE_ESC_CODES) (Esc [27, 79, 83]),
     binding_new (Keycode (Named KTab) Any) mods_shift 0 (BM_VI OR BM_SEARCH OR BM_REPORT_ALL_KEYS_AS_ESC OR BM_DISAMBIGUATE_ESC_CODES) (Esc [27, 91, 90]),
     binding_new (Keycode (Named KTab) Any) mods_shift_alt 0 (BM_VI OR BM_SEARCH OR BM_REPORT_ALL_KEYS_AS_ESC OR BM_DISAMBIGUATE_ESC_CODES) (Esc [27, 27, 91, 90]),
     binding_new (Keycode (Named KBackspace) Any) no_mods 0 (BM_VI OR BM_SEARCH OR BM_REPORT_ALL_KEYS_AS_ESC) (Esc [127]),
     binding_new (Keycode (Named KBackspace) Any) mods_alt 0 (BM_VI OR BM_SEARCH OR BM_REPORT_ALL_KEYS_AS_ESC OR BM_DISAMBIGUATE_ESC_CODES) (Esc [27, 127]),
     binding_new (Keycode (Named KBackspace) Any) mods_shift 0 (BM_VI OR BM_SEARCH OR BM_REPORT_ALL_KEYS_AS_ESC OR BM_DISAMBIGUATE_ESC_CODES) (Esc [127]),
     binding_new (Keycode (Named KEnter) Numpad) no_mods 0 (BM_VI OR BM_SEARCH OR BM_REPORT_ALL_KEYS_AS_ESC OR BM_DISAMBIGUATE_ESC_CODES) (Esc [10]),
     binding_new (Keycode (Named KSpace) Any) mods_ctrl_shift 0 BM_SEARCH ActToggleViMode,
     binding_new (Keycode (Named KSpace) Any) mods_ctrl_shift BM_VI BM_SEARCH ActScrollToBottom,
     binding_new (Keycode (Character (lit ''a'')) Any) mods_ctrl_shift 0 0 ActToggleAutoScroll,
     binding_new (Keycode (Named KEscape) Any) no_mods BM_VI BM_SEARCH ActClearSelection,
     binding_new (Keycode (Character (lit ''i'')) Any) no_mods BM_VI BM_SEARCH ActToggleViMode,
     binding_new (Keycode (Character (lit ''i'')) Any) no_mods BM_VI BM_SEARCH ActScrollToBottom,
     binding_new (Keycode (Character (lit ''c'')) Any) mods_ctrl BM_VI BM_SEARCH ActToggleViMode,
     binding_new (Keycode (Character (lit ''y'')) Any) mods_ctrl BM_VI BM_SEARCH ActScrollLineUp,
     binding_new (Keycode (Character (lit ''e'')) Any) mods_ctrl BM_VI BM_SEARCH ActScrollLineDown,
     binding_new (Keycode (Character (lit ''g'')) Any) no_mods BM_VI BM_SEARCH ActScrollToTop,
     binding_new (Keycode (Character (lit ''g'')) Any) mods_shift BM_VI BM_SEARCH ActScrollToBottom,
     binding_new (Keycode (Character (lit ''b'')) Any) mods_ctrl BM_VI BM_SEARCH ActScrollPageUp,
     binding_new (Keycode (Character (lit ''f'')) Any) mods_ctrl BM_VI BM_SEARCH ActScrollPageDown,
     binding_new (Keycode (Character (lit ''u'')) Any) mods_ctrl BM_VI BM_SEARCH ActScrollHalfPageUp,
     binding_new (Keycode (Character (lit ''d'')) Any) mods_ctrl BM_VI BM_SEARCH ActScrollHalfPageDown,
     binding_new (Keycode (Character (lit ''y'')) Any) no_mods BM_VI BM_SEARCH ActCopy,
     binding_new (Keycode (Character (lit ''y'')) Any) no_mods BM_VI BM_SEARCH ActClearSelection,
     binding_new (Keycode (Character (lit ''/'')) Any) no_mods BM_VI BM_SEARCH ActSearchForward,
     binding_new (Keycode (Character (lit ''?'')) Any) mods_shift BM_VI BM_SEARCH ActSearchBackward,
     binding_new (Keycode (Character (lit ''y'')) Any) mods_shift BM_VI BM_SEARCH (ActVi ToggleNormalSelection),
     binding_new (Keycode (Character (lit ''y'')) Any) mods_shift BM_VI BM_SEARCH (ActViMotion Last),
     binding_new (Keycode (Character (lit ''y'')) Any) mods_shift BM_VI BM_SEARCH ActCopy,
     binding_new (Keycode (Character (lit ''y'')) Any) mods_shift BM_VI BM_SEARCH ActClearSelection,
     binding_new (Keycode (Character (lit ''v'')) Any) no_mods BM_VI BM_SEARCH (ActVi ToggleNormalSelection),
     binding_new (Keycode (Character (lit ''v'')) Any) mods_shift BM_VI BM_SEARCH (ActVi ToggleLineSelection),
     binding_new (Keycode (Character (lit ''v'')) Any) mods_ctrl BM_VI BM_SEARCH (ActVi ToggleBlockSelection),
     binding_new (Keycode (Character (lit ''v'')) Any) mods_alt BM_VI BM_SEARCH (ActVi ToggleSemanticSelection),
     binding_new (Keycode (Character (lit ''n'')) Any) no_mods BM_VI BM_SEARCH (ActVi SearchNext),
     binding_new (Keycode (Character (lit ''n'')) Any) mods_shift BM_VI BM_SEARCH (ActVi SearchPrevious),
     binding_new (Keycode (Named KEnter) Any) no_mods BM_VI BM_SEARCH (ActVi Open),
     binding_new (Keycode (Character (lit ''z'')) Any) no_mods BM_VI BM_SEARCH (ActVi CenterAroundViCursor),
     binding_new (Keycode (Character (lit ''f'')) Any) no_mods BM_VI BM_SEARCH (ActVi InlineSearchForward),
     binding_new (Keycode (Character (lit ''f'')) Any) mods_shift BM_VI BM_SEARCH (ActVi InlineSearchBackward),
     binding_new (Keycode (Character (lit ''t'')) Any) no_mods BM_VI BM_SEARCH (ActVi InlineSearchForwardShort),
     binding_new (Keycode (Character (lit ''t'')) Any) mods_shift BM_VI BM_SEARCH (ActVi InlineSearchBackwardShort),
     binding_new (Keycode (Character (lit '';'')) Any) no_mods BM_VI BM_SEARCH (ActVi InlineSearchNext),
     binding_new (Keycode (Character (lit '','')) Any) no_mods BM_VI BM_SEARCH (ActVi InlineSearchPrevious),
     binding_new (Keycode (Character (lit ''*'')) Any) mods_shift BM_VI BM_SEARCH (ActVi SemanticSearchForward),
     binding_new (Keycode (Character (lit ''#'')) Any) mods_shift BM_VI BM_SEARCH (ActVi SemanticSearchBackward),
     binding_new (Keycode (Character (lit ''k'')) Any) no_mods BM_VI BM_SEARCH (ActViMotion Up),
     binding_new (Keycode (Character (lit ''j'')) Any) no_mods BM_VI BM_SEARCH (ActViMotion Down),
     binding_new (Keycode (Character (lit ''h'')) Any) no_mods BM_VI BM_SEARCH (ActViMotion vi_motion.Left),
     binding_new (Keycode (Character (lit ''l'')) Any) no_mods BM_VI BM_SEARCH (ActViMotion vi_motion.Right),
     binding_new (Keycode (Named KArrowUp) Any) no_mods BM_VI BM_SEARCH (ActViMotion Up),
     binding_new (Keycode (Named KArrowDown) Any) no_mods BM_VI BM_SEARCH (ActViMotion Down),
     binding_new (Keycode (Named KArrowLeft) Any) no_mods BM_VI BM_SEARCH (ActViMotion vi_motion.Left),
     binding_new (Keycode (Named KArrowRight) Any) no_mods BM_VI BM_SEARCH (ActViMotion vi_motion.Right),
     binding_new (Keycode (Character (lit ''0'')) Any) no_mods BM_VI BM_SEARCH (ActViMotion First),
     binding_new (Keycode (Character (lit ''$'')) Any) mods_shift BM_VI BM_SEARCH (ActViMotion Last),
     binding_new (Keycode (Named KHome) Any) no_mods BM_VI BM_SEARCH (ActViMotion First),
     binding_new (Keycode (Named KEnd) Any) no_mods BM_VI BM_SEARCH (ActViMotion Last),
     binding_new (Keycode (Character (lit ''^'')) Any) mods_shift BM_VI BM_SEARCH (ActViMotion FirstOccupied),
     binding_new (Keycode (Character (lit ''h'')) Any) mods_shift BM_VI BM_SEARCH (ActViMotion High),
     binding_new (Keycode (Character (lit ''m'')) Any) mods_shift BM_VI BM_SEARCH (ActViMotion Middle),
     binding_new (Keycode (Character (lit ''l'')) Any) mods_shift BM_VI BM_SEARCH (ActViMotion Low),
     binding_new (Keycode (Character (lit ''b'')) Any) no_mods BM_VI BM_SEARCH (ActViMotion SemanticLeft),
     binding_new (Keycode (Character (lit ''w'')) Any) no_mods BM_VI BM_SEARCH (ActViMotion SemanticRight),
     binding_new (Keycode (Character (lit ''e'')) Any) no_mods BM_VI BM_SEARCH (ActViMotion SemanticRightEnd),
     binding_new (Keycode (Character (lit ''b'')) Any) mods_shift BM_VI BM_SEARCH (ActViMotion WordLeft),
     binding_new (Keycode (Character (lit ''w'')) Any) mods_shift BM_VI BM_SEARCH (ActViMotion WordRight),
     binding_new (Keycode (Character (lit ''e'')) Any) mods_shift BM_VI BM_SEARCH (ActViMotion WordRightEnd),
     binding_new (Keycode (Character (lit ''%'')) Any) mods_shift BM_VI BM_SEARCH (ActViMotion Bracket),
     binding_new (Keycode (Character (lit ''{'')) Any) mods_shift BM_VI BM_SEARCH (ActViMotion ParagraphUp),
     binding_new (Keycode (Character (lit ''}'')) Any) mods_shift BM_VI BM_SEARCH (ActViMotion ParagraphDown),
     binding_new (Keycode (Named KEnter) Any) no_mods (BM_VI OR BM_SEARCH) 0 (ActSearch SearchConfirm),
     binding_new (Keycode (Named KEscape) Any) no_mods BM_SEARCH 0 (ActSearch SearchCancel),
     binding_new (Keycode (Character (lit ''c'')) Any) mods_ctrl BM_SEARCH 0 (ActSearch SearchCancel),
     binding_new (Keycode (Character (lit ''u'')) Any) mods_ctrl BM_SEARCH 0 (ActSearch SearchClear),
     binding_new (Keycode (Character (lit ''w'')) Any) mods_ctrl BM_SEARCH 0 (ActSearch SearchDeleteWord),
     binding_new (Keycode (Character (lit ''p'')) Any) mods_ctrl BM_SEARCH 0 (ActSearch SearchHistoryPrevious),
     binding_new (Keycode (Character (lit ''n'')) Any) mods_ctrl BM_SEARCH 0 (ActSearch SearchHistoryNext),
     binding_new (Keycode (Named KArrowUp) Any) no_mods BM_SEARCH 0 (ActSearch SearchHistoryPrevious),
     binding_new (Keycode (Named KArrowDown) Any) no_mods BM_SEARCH 0 (ActSearch SearchHistoryNext),
     binding_new (Keycode (Named KEnter) Any) no_mods BM_SEARCH BM_VI (ActSearch SearchFocusNext),
     binding_new (Keycode (Named KEnter) Any) mods_shift BM_SEARCH BM_VI (ActSearch SearchFocusPrevious)]
    @ platform_key_bindings"

end
