(* ===== verification/Keyboard.thy ===== *)
theory Keyboard
  imports Bindings Scheduler
begin

text \<open>
  Keyboard input: \<^verbatim>\<open>velacritty/src/input/keyboard.rs\<close>, on a platform without the special cases for macOS and Windows.

  \<open>to_text\<close> is \<^verbatim>\<open>NamedKey::to_text\<close> of the window library and \<open>lower\<close> is \<^verbatim>\<open>to_lowercase\<close>, whose tables are those of Unicode; for one
  character, \<open>lower_char\<close> is the first character of the result, which always exists. The \<^verbatim>\<open>ActionContext\<close> through which the
  processor reads and changes the rest of the program is a record of operations on an arbitrary state \<open>'c\<close>; \<open>now\<close> is
  \<^verbatim>\<open>Instant::now()\<close> in milliseconds.
\<close>

subsection \<open>Escape sequences\<close>

type_synonym sequence_modifiers = "8 word"

definition SEQ_SHIFT :: sequence_modifiers where "SEQ_SHIFT = 0x1"
definition SEQ_ALT :: sequence_modifiers where "SEQ_ALT = 0x2"
definition SEQ_CONTROL :: sequence_modifiers where "SEQ_CONTROL = 0x4"
definition SEQ_SUPER :: sequence_modifiers where "SEQ_SUPER = 0x8"

lemmas seq_defs = SEQ_SHIFT_def SEQ_ALT_def SEQ_CONTROL_def SEQ_SUPER_def

definition encode_modifiers :: "sequence_modifiers \<Rightarrow> 8 word" where
  "encode_modifiers m = m + 1"

definition sequence_modifiers_of :: "modifiers \<Rightarrow> sequence_modifiers" where
  "sequence_modifiers_of mods =
     (let m = 0;
          m = fl_set m SEQ_SHIFT (m_shift mods);
          m = fl_set m SEQ_ALT (m_alt mods);
          m = fl_set m SEQ_CONTROL (m_control mods)
      in fl_set m SEQ_SUPER (m_super mods))"

datatype sequence_terminator = NormalTerminator uchar | KittyTerminator

definition encode_terminator :: "sequence_terminator \<Rightarrow> uchar" where
  "encode_terminator t = (case t of NormalTerminator c \<Rightarrow> c | KittyTerminator \<Rightarrow> 117)"

record sequence_base =
  sq_payload :: ustring
  sq_terminator :: sequence_terminator

definition sequence_base_new :: "ustring \<Rightarrow> sequence_terminator \<Rightarrow> sequence_base" where
  "sequence_base_new payload terminator = \<lparr>sq_payload = payload, sq_terminator = terminator\<rparr>"

record sequence_builder =
  sb_mode :: term_mode
  sb_kitty_seq :: bool
  sb_kitty_encode_all :: bool
  sb_kitty_event_type :: bool
  sb_modifiers :: sequence_modifiers

text \<open>\<^verbatim>\<open>chars().next()\<close> of the key without modifiers.\<close>

definition unmodded_code :: "key_event \<Rightarrow> uchar \<Rightarrow> uchar" where
  "unmodded_code key code =
     (case ke_key_without_modifiers key of Character (c # _) \<Rightarrow> c | _ \<Rightarrow> code)"

definition try_build_textual :: "(uchar \<Rightarrow> uchar) \<Rightarrow> sequence_builder \<Rightarrow> key_event \<Rightarrow> ustring option \<Rightarrow> sequence_base option" where
  "try_build_textual lower_char sb key associated_text =
     (case ke_logical_key key of
        Character character \<Rightarrow>
          if \<not> sb_kitty_seq sb then None
          else (case character of
             [ch] \<Rightarrow>
               let shift = fl_contains (sb_modifiers sb) SEQ_SHIFT;
                   unshifted_ch = (if shift then lower_char ch else ch);
                   alternate_key_code = ch;
                   unicode_key_code =
                     (if shift \<and> alternate_key_code = unshifted_ch then unmodded_code key unshifted_ch else unshifted_ch);
                   payload =
                     (if fl_contains (sb_mode sb) REPORT_ALTERNATE_KEYS \<and> alternate_key_code \<noteq> unicode_key_code
                      then dec unicode_key_code @ [58] @ dec alternate_key_code
                      else dec unicode_key_code)
               in Some (sequence_base_new payload KittyTerminator)
           | _ \<Rightarrow>
               if sb_kitty_encode_all sb \<and> associated_text \<noteq> None then Some (sequence_base_new (lit ''0'') KittyTerminator)
               else None)
      | _ \<Rightarrow> None)"

definition numpad_characters :: "(ustring \<times> string) list" where
  "numpad_characters =
     [(lit ''0'', ''57399''), (lit ''1'', ''57400''), (lit ''2'', ''57401''), (lit ''3'', ''57402''), (lit ''4'', ''57403''),
      (lit ''5'', ''57404''), (lit ''6'', ''57405''), (lit ''7'', ''57406''), (lit ''8'', ''57407''), (lit ''9'', ''57408''),
      (lit ''.'', ''57409''), (lit ''/'', ''57410''), (lit ''*'', ''57411''), (lit ''-'', ''57412''), (lit ''+'', ''57413''),
      (lit ''='', ''57415'')]"

definition numpad_keys :: "(named_key \<times> string) list" where
  "numpad_keys =
     [(KEnter, ''57414''), (KArrowLeft, ''57417''), (KArrowRight, ''57418''), (KArrowUp, ''57419''), (KArrowDown, ''57420''),
      (KPageUp, ''57421''), (KPageDown, ''57422''), (KHome, ''57423''), (KEnd, ''57424''), (KInsert, ''57425''), (KDelete, ''57426'')]"

definition try_build_numpad :: "sequence_builder \<Rightarrow> key_event \<Rightarrow> sequence_base option" where
  "try_build_numpad sb key =
     (if \<not> sb_kitty_seq sb \<or> ke_location key \<noteq> LocNumpad then None
      else do {
        base \<leftarrow> (case ke_logical_key key of
                   Character s \<Rightarrow> map_of numpad_characters s
                 | Named named \<Rightarrow> map_of numpad_keys named
                 | _ \<Rightarrow> None);
        Some (sequence_base_new (lit base) KittyTerminator)
      })"

definition kitty_keys :: "(named_key \<times> string \<times> sequence_terminator) list" where
  "kitty_keys =
     [(KF 3, ''13'', NormalTerminator 126),
      (KF 13, ''57376'', KittyTerminator), (KF 14, ''57377'', KittyTerminator), (KF 15, ''57378'', KittyTerminator),
      (KF 16, ''57379'', KittyTerminator), (KF 17, ''57380'', KittyTerminator), (KF 18, ''57381'', KittyTerminator),
      (KF 19, ''57382'', KittyTerminator), (KF 20, ''57383'', KittyTerminator), (KF 21, ''57384'', KittyTerminator),
      (KF 22, ''57385'', KittyTerminator), (KF 23, ''57386'', KittyTerminator), (KF 24, ''57387'', KittyTerminator),
      (KF 25, ''57388'', KittyTerminator), (KF 26, ''57389'', KittyTerminator), (KF 27, ''57390'', KittyTerminator),
      (KF 28, ''57391'', KittyTerminator), (KF 29, ''57392'', KittyTerminator), (KF 30, ''57393'', KittyTerminator),
      (KF 31, ''57394'', KittyTerminator), (KF 32, ''57395'', KittyTerminator), (KF 33, ''57396'', KittyTerminator),
      (KF 34, ''57397'', KittyTerminator), (KF 35, ''57398'', KittyTerminator),
      (KScrollLock, ''57359'', KittyTerminator), (KPrintScreen, ''57361'', KittyTerminator), (KPause, ''57362'', KittyTerminator),
      (KContextMenu, ''57363'', KittyTerminator), (KMediaPlay, ''57428'', KittyTerminator), (KMediaPause, ''57429'', KittyTerminator),
      (KMediaPlayPause, ''57430'', KittyTerminator), (KMediaStop, ''57432'', KittyTerminator),
      (KMediaFastForward, ''57433'', KittyTerminator), (KMediaRewind, ''57434'', KittyTerminator),
      (KMediaTrackNext, ''57435'', KittyTerminator), (KMediaTrackPrevious, ''57436'', KittyTerminator),
      (KMediaRecord, ''57437'', KittyTerminator), (KAudioVolumeDown, ''57438'', KittyTerminator),
      (KAudioVolumeUp, ''57439'', KittyTerminator), (KAudioVolumeMute, ''57440'', KittyTerminator)]"

definition try_build_named_kitty :: "sequence_builder \<Rightarrow> key_event \<Rightarrow> sequence_base option" where
  "try_build_named_kitty sb key =
     (case ke_logical_key key of
        Named named \<Rightarrow>
          if sb_kitty_seq sb
          then do { (base, terminator) \<leftarrow> map_of kitty_keys named; Some (sequence_base_new (lit base) terminator) }
          else None
      | _ \<Rightarrow> None)"

definition normal_keys :: "string \<Rightarrow> (named_key \<times> string \<times> uchar) list" where
  "normal_keys one_based =
     [(KPageUp, ''5'', 126), (KPageDown, ''6'', 126), (KInsert, ''2'', 126), (KDelete, ''3'', 126),
      (KHome, one_based, 72), (KEnd, one_based, 70), (KArrowLeft, one_based, 68), (KArrowRight, one_based, 67),
      (KArrowUp, one_based, 65), (KArrowDown, one_based, 66),
      (KF 1, one_based, 80), (KF 2, one_based, 81), (KF 3, one_based, 82), (KF 4, one_based, 83),
      (KF 5, ''15'', 126), (KF 6, ''17'', 126), (KF 7, ''18'', 126), (KF 8, ''19'', 126), (KF 9, ''20'', 126), (KF 10, ''21'', 126),
      (KF 11, ''23'', 126), (KF 12, ''24'', 126), (KF 13, ''25'', 126), (KF 14, ''26'', 126), (KF 15, ''28'', 126), (KF 16, ''29'', 126),
      (KF 17, ''31'', 126), (KF 18, ''32'', 126), (KF 19, ''33'', 126), (KF 20, ''34'', 126)]"

definition try_build_named_normal :: "sequence_builder \<Rightarrow> key_event \<Rightarrow> bool \<Rightarrow> sequence_base option" where
  "try_build_named_normal sb key has_associated_text =
     (case ke_logical_key key of
        Named named \<Rightarrow>
          let one_based = (if sb_modifiers sb = 0 \<and> \<not> sb_kitty_event_type sb \<and> \<not> has_associated_text then '''' else ''1'')
          in do { (base, terminator) \<leftarrow> map_of (normal_keys one_based) named;
                  Some (sequence_base_new (lit base) (NormalTerminator terminator)) }
      | _ \<Rightarrow> None)"

definition control_base :: "named_key \<Rightarrow> string" where
  "control_base named =
     (case named of KTab \<Rightarrow> ''9'' | KEnter \<Rightarrow> ''13'' | KEscape \<Rightarrow> ''27'' | KSpace \<Rightarrow> ''32'' | KBackspace \<Rightarrow> ''127'' | _ \<Rightarrow> '''')"

definition modifier_base :: "named_key \<Rightarrow> winit_location \<Rightarrow> string \<Rightarrow> string" where
  "modifier_base named location base =
     (let side = (\<lambda>left other. if location = LocLeft then left else other) in
      case named of
        KShift \<Rightarrow> side ''57441'' ''57447'' | KControl \<Rightarrow> side ''57442'' ''57448'' | KAlt \<Rightarrow> side ''57443'' ''57449''
      | KSuper \<Rightarrow> side ''57444'' ''57450'' | KHyper \<Rightarrow> side ''57445'' ''57451'' | KMeta \<Rightarrow> side ''57446'' ''57452''
      | KCapsLock \<Rightarrow> ''57358'' | KNumLock \<Rightarrow> ''57360'' | _ \<Rightarrow> base)"

definition set_own_modifier :: "named_key \<Rightarrow> bool \<Rightarrow> sequence_modifiers \<Rightarrow> sequence_modifiers" where
  "set_own_modifier named press mods =
     (case named of
        KShift \<Rightarrow> fl_set mods SEQ_SHIFT press | KControl \<Rightarrow> fl_set mods SEQ_CONTROL press
      | KAlt \<Rightarrow> fl_set mods SEQ_ALT press | KSuper \<Rightarrow> fl_set mods SEQ_SUPER press | _ \<Rightarrow> mods)"

definition try_build_control_char_or_mod ::
  "sequence_builder \<Rightarrow> key_event \<Rightarrow> sequence_modifiers \<Rightarrow> sequence_base option \<times> sequence_modifiers" where
  "try_build_control_char_or_mod sb key mods =
     (if \<not> sb_kitty_encode_all sb \<and> \<not> sb_kitty_seq sb then (None, mods)
      else case ke_logical_key key of
        Named named \<Rightarrow>
          let base = control_base named in
          if \<not> sb_kitty_encode_all sb \<and> base = '''' then (None, mods)
          else let base = modifier_base named (ke_location key) base;
                   mods = set_own_modifier named (ke_pressed key) mods
               in (if base = '''' then None else Some (sequence_base_new (lit base) KittyTerminator), mods)
      | _ \<Rightarrow> (None, mods))"

text \<open>\<^verbatim>\<open>text.len()\<close> and \<^verbatim>\<open>text.bytes()\<close> count bytes. The text is not empty.\<close>

definition is_control_character :: "ustring \<Rightarrow> bool" where
  "is_control_character s =
     (let bytes = utf8_encode s; codepoint = hd bytes
      in length bytes = 1 \<and> (codepoint < 0x20 \<or> (0x7f \<le> codepoint \<and> codepoint \<le> 0x9f)))"

definition associated_text_of :: "term_mode \<Rightarrow> key_event \<Rightarrow> ustring option" where
  "associated_text_of mode key =
     (case ke_text_with_all_modifiers key of
        None \<Rightarrow> None
      | Some s \<Rightarrow>
          if fl_contains mode REPORT_ASSOCIATED_TEXT \<and> ke_pressed key \<and> s \<noteq> [] \<and> \<not> is_control_character s then Some s else None)"

definition sequence_builder_for :: "key_event \<Rightarrow> modifiers \<Rightarrow> term_mode \<Rightarrow> sequence_builder" where
  "sequence_builder_for key mods mode =
     \<lparr>sb_mode = mode,
      sb_kitty_seq = fl_intersects mode (REPORT_ALL_KEYS_AS_ESC OR DISAMBIGUATE_ESC_CODES OR REPORT_EVENT_TYPES),
      sb_kitty_encode_all = fl_contains mode REPORT_ALL_KEYS_AS_ESC,
      sb_kitty_event_type = (fl_contains mode REPORT_EVENT_TYPES \<and> (ke_repeat key \<or> \<not> ke_pressed key)),
      sb_modifiers = sequence_modifiers_of mods\<rparr>"

text \<open>The chain of attempts: the base and the modifiers afterwards.\<close>

definition try_build :: "(uchar \<Rightarrow> uchar) \<Rightarrow> sequence_builder \<Rightarrow> key_event \<Rightarrow> ustring option \<Rightarrow> sequence_base option \<times> sequence_modifiers" where
  "try_build lower_char sb key associated_text =
     (let modifiers = sb_modifiers sb in
      case try_build_numpad sb key of
        Some base \<Rightarrow> (Some base, modifiers)
      | None \<Rightarrow> (case try_build_named_kitty sb key of
          Some base \<Rightarrow> (Some base, modifiers)
        | None \<Rightarrow> (case try_build_named_normal sb key (associated_text \<noteq> None) of
            Some base \<Rightarrow> (Some base, modifiers)
          | None \<Rightarrow> (case try_build_control_char_or_mod sb key modifiers of
              (Some base, modifiers) \<Rightarrow> (Some base, modifiers)
            | (None, modifiers) \<Rightarrow> (try_build_textual lower_char sb key associated_text, modifiers)))))"

definition event_type_char :: "key_event \<Rightarrow> uchar" where
  "event_type_char key = (if ke_repeat key then 50 else if ke_pressed key then 49 else 51)"

fun text_codepoints :: "ustring \<Rightarrow> ustring" where
  "text_codepoints [] = []"
| "text_codepoints (c # cs) = [59] @ dec c @ concat (map (\<lambda>c. [58] @ dec c) cs)"

definition build_sequence :: "(uchar \<Rightarrow> uchar) \<Rightarrow> key_event \<Rightarrow> modifiers \<Rightarrow> term_mode \<Rightarrow> nat list" where
  "build_sequence lower_char key mods mode =
     (let context = sequence_builder_for key mods mode;
          associated_text = associated_text_of mode key
      in case try_build lower_char context key associated_text of
           (None, _) \<Rightarrow> []
         | (Some base, modifiers) \<Rightarrow>
             let payload = [27, 91] @ sq_payload base;
                 payload =
                   (if sb_kitty_event_type context \<or> modifiers \<noteq> 0 \<or> associated_text \<noteq> None
                    then payload @ [59] @ dec (unat (encode_modifiers modifiers)) else payload);
                 payload = (if sb_kitty_event_type context then payload @ [58, event_type_char key] else payload);
                 payload = (case associated_text of Some s \<Rightarrow> payload @ text_codepoints s | None \<Rightarrow> payload);
                 payload = payload @ [encode_terminator (sq_terminator base)]
             in utf8_encode payload)"

subsection \<open>Key presses\<close>

record ('c, 'e) action_context =
  ac_preedit :: "'c \<Rightarrow> bool"
  ac_mode :: "'c \<Rightarrow> term_mode"
  ac_modifiers :: "'c \<Rightarrow> modifiers"
  ac_hint_active :: "'c \<Rightarrow> bool"
  ac_char_pending :: "'c \<Rightarrow> bool"
  ac_search_active :: "'c \<Rightarrow> bool"
  ac_key_bindings :: "'c \<Rightarrow> key_binding list"
  ac_hint_bindings :: "'c \<Rightarrow> key_binding option list"
  ac_set_ime_allowed :: "bool \<Rightarrow> 'c \<Rightarrow> 'c"
  ac_hint_input :: "uchar \<Rightarrow> 'c \<Rightarrow> 'c"
  ac_inline_search_input :: "ustring \<Rightarrow> 'c \<Rightarrow> 'c"
  ac_search_input :: "uchar \<Rightarrow> 'c \<Rightarrow> 'c"
  ac_window :: "'c \<Rightarrow> nat"
  ac_scheduler_mut :: "('e scheduler \<Rightarrow> 'e scheduler) \<Rightarrow> 'c \<Rightarrow> 'c"
  ac_execute :: "action \<Rightarrow> 'c \<Rightarrow> 'c"
  ac_on_terminal_input_start :: "'c \<Rightarrow> 'c"
  ac_write_to_pty :: "nat list \<Rightarrow> 'c \<Rightarrow> 'c"

definition alt_send_esc :: "(named_key \<Rightarrow> ustring option) \<Rightarrow> modifiers \<Rightarrow> key_event \<Rightarrow> ustring \<Rightarrow> bool" where
  "alt_send_esc to_text mods key s =
     (let alt_send_esc = m_alt mods in
      case ke_logical_key key of
        Named named \<Rightarrow> if to_text named \<noteq> None then alt_send_esc else m_alt mods
      | _ \<Rightarrow> alt_send_esc \<and> length s = 1)"

definition is_modifier_key :: "key_event \<Rightarrow> bool" where
  "is_modifier_key key \<longleftrightarrow> ke_logical_key key \<in> {Named KShift, Named KControl, Named KAlt, Named KSuper}"

definition should_build_sequence :: "(named_key \<Rightarrow> ustring option) \<Rightarrow> key_event \<Rightarrow> ustring \<Rightarrow> term_mode \<Rightarrow> modifiers \<Rightarrow> bool" where
  "should_build_sequence to_text key s mode mods =
     (if fl_contains mode REPORT_ALL_KEYS_AS_ESC then True
      else let disambiguate =
             (fl_contains mode DISAMBIGUATE_ESC_CODES
              \<and> (ke_logical_key key = Named KEscape \<or> ke_location key = LocNumpad
                 \<or> (mods \<noteq> no_mods \<and> (mods \<noteq> mods_shift \<or> ke_logical_key key \<in> {Named KTab, Named KEnter, Named KBackspace}))))
           in if disambiguate then True
              else case ke_logical_key key of Named named \<Rightarrow> to_text named = None | _ \<Rightarrow> s = [])"

text \<open>The trigger a binding is compared with, and one step over the bindings: the flag that suppresses the characters, and
  the state.\<close>

definition binding_input :: "winit_key \<Rightarrow> key_event \<Rightarrow> key_binding \<Rightarrow> binding_key" where
  "binding_input logical_key key b =
     (case bd_trigger b of
        Scancode _ \<Rightarrow> Scancode (ke_physical_key key)
      | Keycode _ _ \<Rightarrow> Keycode logical_key (location_of_winit (ke_location key)))"

definition binding_action ::
  "('c, 'e) action_context \<Rightarrow> binding_mode \<Rightarrow> modifiers \<Rightarrow> winit_key \<Rightarrow> key_event \<Rightarrow> key_binding \<Rightarrow> bool option \<times> 'c \<Rightarrow> bool option \<times> 'c" where
  "binding_action ac mode mods logical_key key b st = (case st of (suppress_chars, c) \<Rightarrow>
     if is_triggered_by binding_key_eq b mode mods (binding_input logical_key key b)
     then (Some ((case suppress_chars of None \<Rightarrow> True | Some s \<Rightarrow> s) \<and> bd_action b \<noteq> ActReceiveChar), ac_execute ac (bd_action b) c)
     else (suppress_chars, c))"

definition binding_logical_key :: "(ustring \<Rightarrow> ustring) \<Rightarrow> key_event \<Rightarrow> winit_key" where
  "binding_logical_key lower key = (case ke_logical_key key of Character ch \<Rightarrow> Character (lower ch) | k \<Rightarrow> k)"

definition process_key_bindings :: "('c, 'e) action_context \<Rightarrow> (ustring \<Rightarrow> ustring) \<Rightarrow> key_event \<Rightarrow> 'c \<Rightarrow> bool \<times> 'c" where
  "process_key_bindings ac lower key c =
     (let mode = binding_mode_new (ac_mode ac c) (ac_search_active ac c);
          mods = ac_modifiers ac c;
          logical_key = binding_logical_key lower key;
          st = fold (binding_action ac mode mods logical_key key) (ac_key_bindings ac c) (None, c);
          (suppress_chars, c) =
            fold (\<lambda>hb st. case hb of Some b \<Rightarrow> binding_action ac mode mods logical_key key b st | None \<Rightarrow> st)
              (ac_hint_bindings ac (snd st)) st
      in (case suppress_chars of None \<Rightarrow> False | Some s \<Rightarrow> s, c))"

definition mask_alt :: "(named_key \<Rightarrow> ustring option) \<Rightarrow> modifiers \<Rightarrow> modifiers \<Rightarrow> key_event \<Rightarrow> ustring \<Rightarrow> modifiers" where
  "mask_alt to_text current mods key s = (if alt_send_esc to_text current key s then mods else mods\<lparr>m_alt := False\<rparr>)"

definition key_release :: "('c, 'e) action_context \<Rightarrow> (named_key \<Rightarrow> ustring option) \<Rightarrow> (uchar \<Rightarrow> uchar) \<Rightarrow> key_event \<Rightarrow> term_mode \<Rightarrow> modifiers \<Rightarrow> 'c \<Rightarrow> 'c" where
  "key_release ac to_text lower_char key mode mods c =
     (if \<not> fl_contains mode REPORT_EVENT_TYPES \<or> fl_contains mode VI \<or> ac_search_active ac c \<or> ac_hint_active ac c then c
      else let s = (case ke_text_with_all_modifiers key of None \<Rightarrow> [] | Some s \<Rightarrow> s);
               mods = mask_alt to_text (ac_modifiers ac c) mods key s
           in if ke_logical_key key \<in> {Named KEnter, Named KTab, Named KBackspace} \<and> \<not> fl_contains mode REPORT_ALL_KEYS_AS_ESC then c
              else ac_write_to_pty ac (build_sequence lower_char key mods mode) c)"

text \<open>In milliseconds.\<close>

definition TYPING_SEARCH_DELAY :: nat where "TYPING_SEARCH_DELAY = 500"

definition reset_search_delay :: "('c, 'e) action_context \<Rightarrow> nat \<Rightarrow> 'c \<Rightarrow> 'c" where
  "reset_search_delay ac now c =
     (if ac_search_active ac c
      then let timer_id = \<lparr>ti_topic = DelayedSearch, ti_window = ac_window ac c\<rparr>
           in ac_scheduler_mut ac
                (\<lambda>s. case unschedule timer_id s of
                       (Some t, s) \<Rightarrow> schedule now (tm_event t) TYPING_SEARCH_DELAY False (tm_id t) s
                     | (None, s) \<Rightarrow> s) c
      else c)"

text \<open>The bytes of a key press.\<close>

definition key_bytes :: "(named_key \<Rightarrow> ustring option) \<Rightarrow> (uchar \<Rightarrow> uchar) \<Rightarrow> key_event \<Rightarrow> ustring \<Rightarrow> term_mode \<Rightarrow> modifiers \<Rightarrow> nat list" where
  "key_bytes to_text lower_char key s mode mods =
     (if should_build_sequence to_text key s mode mods then build_sequence lower_char key mods mode
      else (if m_alt mods then [27] else []) @ utf8_encode s)"

definition key_input ::
  "('c, 'e) action_context \<Rightarrow> (named_key \<Rightarrow> ustring option) \<Rightarrow> (ustring \<Rightarrow> ustring) \<Rightarrow> (uchar \<Rightarrow> uchar) \<Rightarrow> nat \<Rightarrow> key_event \<Rightarrow> 'c \<Rightarrow> 'c" where
  "key_input ac to_text lower lower_char now key c =
     (if ac_preedit ac c then c
      else let mode = ac_mode ac c; mods = ac_modifiers ac c in
      if \<not> ke_pressed key
      then let c = (if ac_char_pending ac c then ac_set_ime_allowed ac True c else c)
           in key_release ac to_text lower_char key mode mods c
      else let s = (case ke_text_with_all_modifiers key of None \<Rightarrow> [] | Some s \<Rightarrow> s) in
      if ac_hint_active ac c then fold (ac_hint_input ac) s c
      else if ac_char_pending ac c then ac_inline_search_input ac s c
      else let c = reset_search_delay ac now c; (suppressed, c) = process_key_bindings ac lower key c in
      if suppressed then c
      else if ac_search_active ac c then fold (ac_search_input ac) s c
      else if fl_contains mode VI then c
      else let mods = mask_alt to_text (ac_modifiers ac c) mods key s;
               bytes = key_bytes to_text lower_char key s mode mods
           in if bytes = [] then c
              else let c = (if is_modifier_key key then c else ac_on_terminal_input_start ac c)
                   in ac_write_to_pty ac bytes c)"

end
