(* ===== verification/Key_Sequences.thy ===== *)
theory Key_Sequences
  imports Keyboard
begin

text \<open>
  What the escape sequences of keys mean: a reference reader of control sequences with numeric parameters, and the proof that
  it gets back from a built sequence the key code, the modifiers, the kind of event and the text.
\<close>

subsection \<open>Control sequences\<close>

fun split_on :: "'a \<Rightarrow> 'a list \<Rightarrow> 'a list list" where
  "split_on c [] = [[]]"
| "split_on c (x # xs) = (if x = c then [] # split_on c xs else (case split_on c xs of [] \<Rightarrow> [[x]] | y # ys \<Rightarrow> (x # y) # ys))"

text \<open>\<^verbatim>\<open>ESC [\<close>, parameters separated by semicolons, their parts separated by colons, and a final byte. A missing number is 0.\<close>

definition parse_csi :: "nat list \<Rightarrow> (nat \<times> nat list list) option" where
  "parse_csi bytes =
     (case bytes of
        a # b # rest \<Rightarrow>
          if a = 27 \<and> b = 91 \<and> rest \<noteq> [] \<and> list_all (\<lambda>c. 48 \<le> c \<and> c \<le> 59) (butlast rest) \<and> 64 \<le> last rest
          then Some (last rest, map (map undec \<circ> split_on 58) (split_on 59 (butlast rest))) else None
      | _ \<Rightarrow> None)"

lemma split_on_none: "c \<notin> set xs \<Longrightarrow> split_on c xs = [xs]"
  by (induction xs) auto

lemma split_on_append: "c \<notin> set xs \<Longrightarrow> split_on c (xs @ c # ys) = xs # split_on c ys"
  by (induction xs) auto

lemma dec_plain: "58 \<notin> set (dec n)" "59 \<notin> set (dec n)"
  using dec_digits [of 58 n] dec_digits [of 59 n] by auto

lemma undec_digit [simp]: "undec [c] = c - 48" "undec [] = 0"
  by (simp_all add: undec_def)

lemma split_codepoints: "map undec (split_on 58 (dec c @ concat (map (\<lambda>c. 58 # dec c) cs))) = c # cs"
proof (induction cs arbitrary: c)
  case Nil
  then show ?case by (simp add: split_on_none dec_plain)
next
  case (Cons d cs)
  then show ?case using split_on_append [OF dec_plain(1) [of c], of "dec d @ concat (map (\<lambda>c. 58 # dec c) cs)"] by simp
qed

lemma codepoints_chars: "c \<in> set (dec a @ concat (map (\<lambda>c. 58 # dec c) cs)) \<Longrightarrow> 48 \<le> c \<and> c \<le> 58"
  by (auto dest: dec_digits less_imp_le split: if_splits)

subsection \<open>The bases\<close>

definition base_ok :: "sequence_base \<Rightarrow> bool" where
  "base_ok b \<longleftrightarrow> list_all (\<lambda>c. 48 \<le> c \<and> c \<le> 58) (sq_payload b) \<and> 64 \<le> encode_terminator (sq_terminator b) \<and> encode_terminator (sq_terminator b) < 128"

lemma map_of_list_all: "map_of xs k = Some v \<Longrightarrow> list_all (\<lambda>(k, v). P k v) xs \<Longrightarrow> P k v"
  using map_of_SomeD [of xs k v] by (auto simp: list_all_iff)

lemma numpad_characters_ok: "list_all (\<lambda>(k, s). base_ok (sequence_base_new (lit s) KittyTerminator)) numpad_characters"
  by (simp add: numpad_characters_def base_ok_def sequence_base_new_def encode_terminator_def lit_def)

lemma numpad_keys_ok: "list_all (\<lambda>(k, s). base_ok (sequence_base_new (lit s) KittyTerminator)) numpad_keys"
  by (simp add: numpad_keys_def base_ok_def sequence_base_new_def encode_terminator_def lit_def)

lemma kitty_keys_ok: "list_all (\<lambda>(k, s, t). base_ok (sequence_base_new (lit s) t)) kitty_keys"
  by (simp add: kitty_keys_def base_ok_def sequence_base_new_def encode_terminator_def lit_def)

lemma normal_keys_ok: "list_all (\<lambda>(k, s, t). base_ok (sequence_base_new (lit s) (NormalTerminator t))) (normal_keys one)" if "one = '''' \<or> one = ''1''"
  using that by (auto simp: normal_keys_def base_ok_def sequence_base_new_def encode_terminator_def lit_def)

lemma control_ok: "base_ok (sequence_base_new (lit (modifier_base named loc (control_base named))) KittyTerminator)"
  by (cases named) (auto simp: modifier_base_def control_base_def base_ok_def sequence_base_new_def encode_terminator_def lit_def)

lemma textual_ok: "try_build_textual lower_char sb key s = Some b \<Longrightarrow> base_ok b"
  using dec_digits
  by (fastforce simp: try_build_textual_def base_ok_def sequence_base_new_def encode_terminator_def lit_def Let_def list_all_iff
      split: winit_key.splits list.splits if_splits)

lemma numpad_ok: "try_build_numpad sb key = Some b \<Longrightarrow> base_ok b"
  using map_of_list_all [OF _ numpad_characters_ok] map_of_list_all [OF _ numpad_keys_ok]
  by (auto simp: try_build_numpad_def split: if_splits winit_key.splits bind_splits)

lemma named_kitty_ok: "try_build_named_kitty sb key = Some b \<Longrightarrow> base_ok b"
  using map_of_list_all [OF _ kitty_keys_ok]
  by (auto simp: try_build_named_kitty_def split: if_splits winit_key.splits bind_splits)

lemma named_normal_ok: "try_build_named_normal sb key has = Some b \<Longrightarrow> base_ok b"
  using map_of_list_all [OF _ normal_keys_ok]
  by (auto simp: try_build_named_normal_def Let_def split: if_splits winit_key.splits bind_splits)

lemma control_char_ok: "try_build_control_char_or_mod sb key m = (Some b, m') \<Longrightarrow> base_ok b"
  using control_ok by (auto simp: try_build_control_char_or_mod_def Let_def split: if_splits winit_key.splits)

lemma try_build_ok: "try_build lower_char sb key s = (Some b, m) \<Longrightarrow> base_ok b"
  using numpad_ok named_kitty_ok named_normal_ok control_char_ok textual_ok
  by (auto simp: try_build_def Let_def split: option.splits prod.splits)

subsection \<open>Reading a sequence back\<close>

definition mods_param :: "bool \<Rightarrow> sequence_modifiers \<Rightarrow> key_event \<Rightarrow> ustring" where
  "mods_param ev m key = dec (unat (encode_modifiers m)) @ (if ev then [58, event_type_char key] else [])"

definition text_param :: "ustring \<Rightarrow> ustring" where
  "text_param s = dec (hd s) @ concat (map (\<lambda>c. 58 # dec c) (tl s))"

text \<open>What is between the introducer and the final byte.\<close>

definition seq_body :: "bool \<Rightarrow> sequence_base \<Rightarrow> sequence_modifiers \<Rightarrow> key_event \<Rightarrow> ustring option \<Rightarrow> ustring" where
  "seq_body ev base m key s = sq_payload base
     @ (if ev \<or> m \<noteq> 0 \<or> s \<noteq> None then 59 # mods_param ev m key else [])
     @ (case s of None \<Rightarrow> [] | Some s \<Rightarrow> 59 # text_param s)"

lemma associated_text_nonempty: "associated_text_of mode key = Some s \<Longrightarrow> s \<noteq> []"
  by (auto simp: associated_text_of_def split: option.splits if_splits)

lemma build_sequence_body:
  assumes "try_build lower_char (sequence_builder_for key mods mode) key (associated_text_of mode key) = (Some base, m)"
  shows "build_sequence lower_char key mods mode =
    utf8_encode ([27, 91] @ seq_body (sb_kitty_event_type (sequence_builder_for key mods mode)) base m key (associated_text_of mode key)
      @ [encode_terminator (sq_terminator base)])"
proof -
  have "text_codepoints s = 59 # text_param s" if "associated_text_of mode key = Some s" for s
    using associated_text_nonempty [OF that] by (cases s) (simp_all add: text_param_def)
  then show ?thesis
    using assms by (auto simp: build_sequence_def Let_def seq_body_def mods_param_def split: option.splits)
qed

lemma param_chars: "c \<in> set (mods_param ev m key) \<Longrightarrow> 48 \<le> c \<and> c \<le> 58" "c \<in> set (text_param s) \<Longrightarrow> 48 \<le> c \<and> c \<le> 58"
  using codepoints_chars [of c "hd s" "tl s"]
  by (auto simp: mods_param_def text_param_def event_type_char_def dest: dec_digits less_imp_le split: if_splits)

lemma param_plain: "59 \<notin> set (mods_param ev m key)" "59 \<notin> set (text_param s)" "base_ok b \<Longrightarrow> 59 \<notin> set (sq_payload b)"
  using param_chars(1) [of 59 ev m key] param_chars(2) [of 59 s] by (auto simp: base_ok_def list_all_iff)

lemma seq_body_chars: "base_ok base \<Longrightarrow> c \<in> set (seq_body ev base m key s) \<Longrightarrow> 48 \<le> c \<and> c \<le> 59"
  using param_chars(1) [of c ev m key] param_chars(2) [of c]
  by (fastforce simp: seq_body_def base_ok_def list_all_iff split: if_splits option.splits)

lemma mods_param_read:
  "map undec (split_on 58 (mods_param ev m key)) = unat (encode_modifiers m) # (if ev then [event_type_char key - 48] else [])"
  using split_on_append [OF dec_plain(1) [of "unat (encode_modifiers m)"], of "[event_type_char key]"]
  by (auto simp: mods_param_def split_on_none dec_plain event_type_char_def)

lemma text_param_read: "s \<noteq> [] \<Longrightarrow> map undec (split_on 58 (text_param s)) = s"
  using split_codepoints [of "hd s" "tl s"] by (simp add: text_param_def)

lemma seq_body_read:
  assumes b: "base_ok base" and s: "\<And>x. s = Some x \<Longrightarrow> x \<noteq> []"
  shows "map (map undec \<circ> split_on 58) (split_on 59 (seq_body ev base m key s)) =
    map undec (split_on 58 (sq_payload base))
    # (if ev \<or> m \<noteq> 0 \<or> s \<noteq> None then [unat (encode_modifiers m) # (if ev then [event_type_char key - 48] else [])] else [])
    @ (case s of None \<Rightarrow> [] | Some x \<Rightarrow> [x])"
proof -
  note ap = split_on_append [OF param_plain(3) [OF b]] split_on_append [OF param_plain(1)]
  note np = split_on_none [OF param_plain(1)] split_on_none [OF param_plain(2)] split_on_none [OF param_plain(3) [OF b]]
  show ?thesis
    using s by (cases s) (auto simp: seq_body_def ap np mods_param_read text_param_read)
qed

lemma utf8_encode_ascii: "\<forall>c \<in> set s. c < 128 \<Longrightarrow> utf8_encode s = s"
  by (induction s) (simp_all add: utf8_encode_def)

lemma parse_built_sequence:
  assumes t: "try_build lower_char (sequence_builder_for key mods mode) key (associated_text_of mode key) = (Some base, m)"
  defines "ev \<equiv> sb_kitty_event_type (sequence_builder_for key mods mode)" and "s \<equiv> associated_text_of mode key"
  shows "parse_csi (build_sequence lower_char key mods mode) = Some (encode_terminator (sq_terminator base),
    map undec (split_on 58 (sq_payload base))
    # (if ev \<or> m \<noteq> 0 \<or> s \<noteq> None then [unat (encode_modifiers m) # (if ev then [event_type_char key - 48] else [])] else [])
    @ (case s of None \<Rightarrow> [] | Some x \<Rightarrow> [x]))"
proof -
  have b: "base_ok base" by (rule try_build_ok [OF t])
  have s: "x \<noteq> []" if "s = Some x" for x using that associated_text_nonempty by (simp add: s_def)
  let ?t = "encode_terminator (sq_terminator base)" and ?b = "seq_body ev base m key s"
  have chars: "\<forall>c \<in> set ?b. 48 \<le> c \<and> c \<le> 59" using seq_body_chars [OF b] by blast
  have "\<forall>c \<in> set ([27, 91] @ ?b @ [?t]). c < 128" using chars b by (auto simp: base_ok_def)
  from utf8_encode_ascii [OF this] have "build_sequence lower_char key mods mode = [27, 91] @ ?b @ [?t]"
    using build_sequence_body [OF t] by (simp add: ev_def s_def)
  moreover have "64 \<le> ?t" using b by (simp add: base_ok_def)
  ultimately show ?thesis
    using chars seq_body_read [OF b s, where ev = ev and m = m and key = key] by (simp add: parse_csi_def list_all_iff butlast_append)
qed

subsection \<open>The modifiers\<close>

text \<open>The modifiers a sequence reports: a modifier key counts as held while it is pressed and not any more when it is released.\<close>

definition reported_mods :: "key_event \<Rightarrow> modifiers \<Rightarrow> modifiers" where
  "reported_mods key mods =
     (case ke_logical_key key of
        Named KShift \<Rightarrow> mods\<lparr>m_shift := ke_pressed key\<rparr> | Named KControl \<Rightarrow> mods\<lparr>m_control := ke_pressed key\<rparr>
      | Named KAlt \<Rightarrow> mods\<lparr>m_alt := ke_pressed key\<rparr> | Named KSuper \<Rightarrow> mods\<lparr>m_super := ke_pressed key\<rparr> | _ \<Rightarrow> mods)"

definition mods_value :: "modifiers \<Rightarrow> nat" where
  "mods_value m = of_bool (m_shift m) + 2 * of_bool (m_alt m) + 4 * of_bool (m_control m) + 8 * of_bool (m_super m)"

lemma set_own_modifier_value:
  assumes "ke_logical_key key = Named named"
  shows "set_own_modifier named (ke_pressed key) (sequence_modifiers_of mods) = sequence_modifiers_of (reported_mods key mods)"
  using assms
  by (cases named; cases mods)
    (auto simp: set_own_modifier_def reported_mods_def sequence_modifiers_of_def fl_set_def fl_insert_def fl_remove_def seq_defs Let_def)

lemma mods_value_encode: "unat (encode_modifiers (sequence_modifiers_of mods)) = 1 + mods_value mods"
  by (cases mods) (simp add: encode_modifiers_def sequence_modifiers_of_def fl_set_def fl_insert_def fl_remove_def seq_defs mods_value_def Let_def)

lemma mods_zero: "sequence_modifiers_of mods = 0 \<longleftrightarrow> mods = no_mods"
  by (cases mods) (simp add: sequence_modifiers_of_def fl_set_def fl_insert_def fl_remove_def seq_defs no_mods_def Let_def)

lemma modifier_lookups:
  assumes "named \<in> {KShift, KControl, KAlt, KSuper}"
  shows "map_of numpad_keys named = None" "map_of kitty_keys named = None" "map_of (normal_keys one) named = None"
  using assms by (auto simp: numpad_keys_def kitty_keys_def normal_keys_def)

lemma reported_mods_other: "ke_logical_key key \<notin> {Named KShift, Named KControl, Named KAlt, Named KSuper} \<Longrightarrow> reported_mods key mods = mods"
  by (auto simp: reported_mods_def split: winit_key.splits named_key.splits)

lemma try_build_mods:
  assumes "try_build lower_char sb key s = (Some base, m)" "sb_modifiers sb = sequence_modifiers_of mods"
  shows "m = sequence_modifiers_of (reported_mods key mods)"
proof (cases "ke_logical_key key \<in> {Named KShift, Named KControl, Named KAlt, Named KSuper}")
  case True
  then obtain named where n: "ke_logical_key key = Named named" "named \<in> {KShift, KControl, KAlt, KSuper}" by auto
  have none: "try_build_numpad sb key = None" "try_build_named_kitty sb key = None" "try_build_named_normal sb key b = None" for b
    using modifier_lookups [OF n(2)] n(1)
    by (simp_all add: try_build_numpad_def try_build_named_kitty_def try_build_named_normal_def Let_def)
  show ?thesis
    using assms n(1) set_own_modifier_value [OF n(1), of mods]
    by (auto simp: try_build_def none Let_def try_build_control_char_or_mod_def try_build_textual_def split: if_splits)
next
  case False
  have same: "set_own_modifier named b x = x" if "ke_logical_key key = Named named" for named b x
    using False that by (auto simp: set_own_modifier_def split: named_key.splits)
  have "m = sb_modifiers sb"
    using assms(1)
    by (auto simp: try_build_def Let_def try_build_control_char_or_mod_def same split: option.splits if_splits winit_key.splits)
  then show ?thesis using assms(2) reported_mods_other [OF False, of mods] by simp
qed

subsection \<open>Which key it was\<close>

text \<open>The payload and the final byte of every named key.\<close>

definition control_keys :: "(named_key \<times> string) list" where
  "control_keys = [(KTab, ''9''), (KEnter, ''13''), (KEscape, ''27''), (KSpace, ''32''), (KBackspace, ''127''),
     (KShift, ''57441''), (KControl, ''57442''), (KAlt, ''57443''), (KSuper, ''57444''), (KHyper, ''57445''), (KMeta, ''57446''),
     (KShift, ''57447''), (KControl, ''57448''), (KAlt, ''57449''), (KSuper, ''57450''), (KHyper, ''57451''), (KMeta, ''57452''),
     (KCapsLock, ''57358''), (KNumLock, ''57360'')]"

definition one_keys :: "(named_key \<times> string \<times> uchar) list" where
  "one_keys = filter (\<lambda>(k, s, t). s = ''1'') (normal_keys ''1'')"

definition named_table :: "(named_key \<times> string \<times> uchar) list" where
  "named_table = map (\<lambda>(k, s). (k, s, 117)) (numpad_keys @ control_keys)
     @ map (\<lambda>(k, s, t). (k, s, encode_terminator t)) kitty_keys @ normal_keys '''' @ one_keys"

lemma named_table_distinct: "distinct (map snd named_table)"
  by (simp add: named_table_def numpad_keys_def control_keys_def kitty_keys_def normal_keys_def one_keys_def encode_terminator_def)

lemma normal_in_table: "one = '''' \<or> one = ''1'' \<Longrightarrow> x \<in> set (normal_keys one) \<Longrightarrow> x \<in> set named_table"
proof -
  assume "one = '''' \<or> one = ''1''" "x \<in> set (normal_keys one)"
  moreover have "set (normal_keys ''1'') \<subseteq> set (normal_keys '''') \<union> set one_keys"
    by (simp add: normal_keys_def one_keys_def)
  ultimately show ?thesis by (auto simp: named_table_def)
qed

lemma control_in_table:
  "modifier_base named loc (control_base named) \<noteq> '''' \<Longrightarrow> (named, modifier_base named loc (control_base named)) \<in> set control_keys"
  by (cases named) (auto simp: modifier_base_def control_base_def control_keys_def)

lemma named_base_in_table:
  assumes n: "ke_logical_key key = Named named" and t: "try_build lower_char sb key txt = (Some base, m)"
  shows "\<exists>s. (named, s, encode_terminator (sq_terminator base)) \<in> set named_table \<and> sq_payload base = lit s"
proof -
  have numpad: ?thesis if "try_build_numpad sb key = Some base"
    using that n by (force simp: try_build_numpad_def named_table_def sequence_base_new_def encode_terminator_def
        split: if_splits bind_splits dest: map_of_SomeD)
  have kitty: ?thesis if "try_build_named_kitty sb key = Some base"
    using that n by (force simp: try_build_named_kitty_def named_table_def sequence_base_new_def
        split: if_splits bind_splits dest: map_of_SomeD)
  have normal: ?thesis if r: "try_build_named_normal sb key b = Some base" for b
  proof -
    obtain one s t where "one = '''' \<or> one = ''1''" "map_of (normal_keys one) named = Some (s, t)" "base = sequence_base_new (lit s) (NormalTerminator t)"
      using r n by (auto simp: try_build_named_normal_def Let_def split: if_splits bind_splits)
    then show ?thesis
      using normal_in_table [of one "(named, s, t)"] by (auto simp: sequence_base_new_def encode_terminator_def dest: map_of_SomeD)
  qed
  have control: ?thesis if "try_build_control_char_or_mod sb key x = (Some base, m)" for x
  proof -
    have b: "modifier_base named (ke_location key) (control_base named) \<noteq> ''''"
      "base = sequence_base_new (lit (modifier_base named (ke_location key) (control_base named))) KittyTerminator"
      using that n by (auto simp: try_build_control_char_or_mod_def Let_def split: if_splits)
    have "(named, modifier_base named (ke_location key) (control_base named), 117) \<in> set named_table"
      using control_in_table [OF b(1)] by (force simp: named_table_def)
    then show ?thesis using b(2) by (auto simp: sequence_base_new_def encode_terminator_def)
  qed
  have "try_build_textual lower_char sb key txt = None" using n by (simp add: try_build_textual_def)
  then show ?thesis
    using t numpad kitty normal control by (auto simp: try_build_def Let_def split: option.splits prod.splits)
qed

lemma mods_value_inj: "mods_value a = mods_value b \<Longrightarrow> a = b"
  by (cases a; cases b) (auto simp: mods_value_def of_bool_def split: if_splits)

lemma lit_inject: "lit a = lit b \<longleftrightarrow> a = b"
  by (simp add: lit_def inj_map_eq_map inj_def)

text \<open>The payload is what comes before the first semicolon.\<close>

lemma built_payload:
  assumes t: "try_build lower_char (sequence_builder_for key mods mode) key (associated_text_of mode key) = (Some base, m)"
  shows "sq_payload base = hd (split_on 59 (butlast (drop 2 (build_sequence lower_char key mods mode))))"
proof -
  have b: "base_ok base" by (rule try_build_ok [OF t])
  let ?ev = "sb_kitty_event_type (sequence_builder_for key mods mode)" and ?t = "encode_terminator (sq_terminator base)"
  let ?b = "seq_body ?ev base m key (associated_text_of mode key)"
  have "\<forall>c \<in> set ([27, 91] @ ?b @ [?t]). c < 128"
    using b seq_body_chars [OF b] by (fastforce simp: base_ok_def)
  from utf8_encode_ascii [OF this] have "butlast (drop 2 (build_sequence lower_char key mods mode)) = ?b"
    using build_sequence_body [OF t] by (simp add: butlast_append)
  moreover have "hd (split_on 59 ?b) = sq_payload base"
    using split_on_append [OF param_plain(3) [OF b]] split_on_none [OF param_plain(3) [OF b]]
    by (auto simp: seq_body_def split: option.split)
  ultimately show ?thesis by simp
qed

end
