(* ===== verification/Props_Keys.thy ===== *)
theory Props_Keys
  imports Key_Sequences
begin

text \<open>The properties of key bindings and keyboard input.\<close>

subsection \<open>Escape sequences\<close>

lemma build_sequence_base:
  assumes "build_sequence lower_char key mods mode \<noteq> []"
  obtains base m where "try_build lower_char (sequence_builder_for key mods mode) key (associated_text_of mode key) = (Some base, m)"
    "m = sequence_modifiers_of (reported_mods key mods)"
proof -
  obtain base m where t: "try_build lower_char (sequence_builder_for key mods mode) key (associated_text_of mode key) = (Some base, m)"
    using assms by (auto simp: build_sequence_def Let_def split: prod.splits option.splits)
  moreover have "m = sequence_modifiers_of (reported_mods key mods)"
    by (rule try_build_mods [OF t]) (simp add: sequence_builder_for_def)
  ultimately show ?thesis by (rule that)
qed

text \<open>C32: A key's escape sequence can be read back: it is a well-formed control sequence whose second parameter, which is left
  out exactly when it would say nothing, holds one plus the value of the modifiers and the kind of event (repeat, release),
  and whose third parameter is the text, character by character. A modifier key reports itself as held when it is
  pressed and as not held when it is released.\<close>

theorem key_sequence_roundtrip:
  assumes "build_sequence lower_char key mods mode \<noteq> []"
  defines "ev \<equiv> fl_contains mode REPORT_EVENT_TYPES \<and> (ke_repeat key \<or> \<not> ke_pressed key)"
    and "s \<equiv> associated_text_of mode key"
  shows "\<exists>final code. parse_csi (build_sequence lower_char key mods mode) = Some (final, code
     # (if ev \<or> reported_mods key mods \<noteq> no_mods \<or> s \<noteq> None
        then [(1 + mods_value (reported_mods key mods)) # (if ev then [if ke_repeat key then 2 else 3] else [])] else [])
     @ (case s of None \<Rightarrow> [] | Some x \<Rightarrow> [x]))"
proof -
  from build_sequence_base [OF assms(1)] obtain base m where t: "try_build lower_char (sequence_builder_for key mods mode) key (associated_text_of mode key) = (Some base, m)"
    and m: "m = sequence_modifiers_of (reported_mods key mods)" .
  have ev: "sb_kitty_event_type (sequence_builder_for key mods mode) = ev" by (simp add: sequence_builder_for_def ev_def)
  have "event_type_char key - 48 = (if ke_repeat key then 2 else 3)" if ev using that by (auto simp: ev_def event_type_char_def)
  then show ?thesis
    using parse_built_sequence [OF t] unfolding ev s_def [symmetric] m mods_value_encode mods_zero by auto
qed

definition demo_key :: "winit_key \<Rightarrow> ustring option \<Rightarrow> key_event" where
  "demo_key k s = \<lparr>ke_logical_key = k, ke_location = LocStandard, ke_physical_key = 0, ke_pressed = True, ke_repeat = False,
     ke_text_with_all_modifiers = s, ke_key_without_modifiers = k\<rparr>"

lemma demo_arrow: "build_sequence (\<lambda>c. c) (demo_key (Named KArrowUp) None) mods_ctrl 0 = [27, 91, 49, 59, 53, 65]"
  by (simp add: build_sequence_def demo_key_def mods_defs sequence_builder_for_def associated_text_of_def try_build_def Let_def
      try_build_numpad_def try_build_named_kitty_def try_build_named_normal_def normal_keys_def sequence_base_new_def lit_def
      sequence_modifiers_of_def fl_set_def fl_insert_def fl_remove_def seq_defs flag_simps encode_terminator_def
      encode_modifiers_def utf8_encode_def dec.simps)

theorem key_sequence_witness:
  "\<exists>final code. parse_csi (build_sequence (\<lambda>c. c) (demo_key (Named KArrowUp) None) mods_ctrl 0) = Some (final, [code, [5]])"
  using key_sequence_roundtrip [of "\<lambda>c. c" "demo_key (Named KArrowUp) None" mods_ctrl 0] demo_arrow
  by (simp add: demo_key_def associated_text_of_def reported_mods_def mods_value_def mods_defs flag_simps)

lemma shown_params:
  assumes "(if ev \<or> a \<noteq> no_mods \<or> s \<noteq> None then [(1 + mods_value a) # e] else []) @ (case s of None \<Rightarrow> [] | Some x \<Rightarrow> [x])
    = (if ev' \<or> a' \<noteq> no_mods \<or> s' \<noteq> None then [(1 + mods_value a') # e'] else []) @ (case s' of None \<Rightarrow> [] | Some x \<Rightarrow> [x])"
  shows "mods_value a' = mods_value a"
  using assms by (cases "ev \<or> a \<noteq> no_mods \<or> s \<noteq> None"; cases "ev' \<or> a' \<noteq> no_mods \<or> s' \<noteq> None") (simp_all split: option.splits)

text \<open>C33: Sequences of named keys are unambiguous: if two of them are the same, then they stand for the same key with the same
  modifiers, whatever modes, modifiers and locations they were built from.\<close>

theorem key_sequences_unambiguous:
  assumes "ke_logical_key key = Named named" "ke_logical_key key' = Named named'"
    and "build_sequence lower_char key mods mode \<noteq> []"
    and "build_sequence lower_char key mods mode = build_sequence lower_char key' mods' mode'"
  shows "named = named' \<and> reported_mods key mods = reported_mods key' mods'"
proof -
  let ?s = "associated_text_of mode key" and ?s' = "associated_text_of mode' key'"
  from build_sequence_base [OF assms(3)] obtain base m where t: "try_build lower_char (sequence_builder_for key mods mode) key ?s = (Some base, m)"
    and m: "m = sequence_modifiers_of (reported_mods key mods)" .
  have "build_sequence lower_char key' mods' mode' \<noteq> []" using assms(3,4) by simp
  from build_sequence_base [OF this] obtain base' m' where t': "try_build lower_char (sequence_builder_for key' mods' mode') key' ?s' = (Some base', m')"
    and m': "m' = sequence_modifiers_of (reported_mods key' mods')" .
  note eq = parse_built_sequence [OF t, unfolded assms(4) parse_built_sequence [OF t'] m m' mods_value_encode mods_zero]
  have "mods_value (reported_mods key mods) = mods_value (reported_mods key' mods')"
    by (rule shown_params [OF conjunct2 [OF eq [unfolded option.inject prod.inject list.inject, THEN conjunct2]]])
  then have mods: "reported_mods key mods = reported_mods key' mods'" by (rule mods_value_inj)
  obtain x where x: "(named, x, encode_terminator (sq_terminator base)) \<in> set named_table" "sq_payload base = lit x"
    using named_base_in_table [OF assms(1) t] by blast
  obtain x' where x': "(named', x', encode_terminator (sq_terminator base')) \<in> set named_table" "sq_payload base' = lit x'"
    using named_base_in_table [OF assms(2) t'] by blast
  have "sq_payload base = sq_payload base'"
    using built_payload [OF t] built_payload [OF t'] assms(4) by simp
  then have "x = x'" using x(2) x'(2) by (simp add: lit_inject)
  moreover have "encode_terminator (sq_terminator base) = encode_terminator (sq_terminator base')" using eq by simp
  ultimately have "(named, x, encode_terminator (sq_terminator base)) = (named', x', encode_terminator (sq_terminator base'))"
    using named_table_distinct x(1) x'(1) by (intro inj_onD [of snd "set named_table"]) (simp_all add: distinct_map)
  then show ?thesis using mods by simp
qed

theorem key_sequences_witness:
  "build_sequence (\<lambda>c. c) (demo_key (Named KArrowUp) None) mods_ctrl 0 \<noteq> build_sequence (\<lambda>c. c) (demo_key (Named KArrowDown) None) mods_ctrl 0"
  using key_sequences_unambiguous [of "demo_key (Named KArrowUp) None" KArrowUp "demo_key (Named KArrowDown) None" KArrowDown "\<lambda>c. c" mods_ctrl 0 mods_ctrl 0]
  by (auto simp: demo_arrow) (simp_all add: demo_key_def)

subsection \<open>Bindings\<close>

text \<open>A set of flags of bindings has only the seven known ones.\<close>

definition mode_known :: "binding_mode \<Rightarrow> bool" where
  "mode_known m \<longleftrightarrow> m AND BM_all = m"

lemma deserialize_bindings_filter:
  "deserialize_bindings eq parse values defaults =
     List.map_filter parse values @ filter (\<lambda>b. \<forall>u \<in> set (List.map_filter parse values). \<not> triggers_match eq b u) defaults"
proof -
  have "fold (\<lambda>u. filter (\<lambda>b. \<not> triggers_match eq b u)) us ds = filter (\<lambda>b. \<forall>u \<in> set us. \<not> triggers_match eq b u) ds" for us ds
    by (induction us arbitrary: ds) (auto intro!: filter_cong)
  then show ?thesis by (simp add: deserialize_bindings_def Let_def)
qed

lemma both_triggered:
  assumes "is_triggered_by eq b mode mods inp" "is_triggered_by eq' u mode mods inp'"
  shows "bd_mods b = bd_mods u" "\<not> fl_intersects (bd_mode b) (bd_notmode u)" "\<not> fl_intersects (bd_mode u) (bd_notmode b)"
proof -
  have disj: "\<not> fl_intersects m n" if "fl_contains mode m" "\<not> fl_intersects mode n" for m n
  proof -
    have "m AND n = (mode AND m) AND n" using that(1) by (simp add: fl_contains_def)
    also have "\<dots> = (mode AND n) AND m" by (simp only: ac_simps)
    finally show ?thesis using that(2) by (simp add: fl_intersects_def)
  qed
  show "bd_mods b = bd_mods u" "\<not> fl_intersects (bd_mode b) (bd_notmode u)" "\<not> fl_intersects (bd_mode u) (bd_notmode b)"
    using assms disj by (auto simp: is_triggered_by_def)
qed

lemma key_eq_trans:
  assumes "binding_key_eq a inp" "binding_key_eq b inp" "\<And>k. inp \<noteq> Keycode k Any"
  shows "binding_key_eq a b"
proof (cases inp)
  case (Scancode n)
  then show ?thesis using assms by (cases a; cases b) auto
next
  case (Keycode k l)
  have "location_eq x y" if "location_eq x l" "location_eq y l" for x y
    using that assms(3) Keycode by (cases l; cases x; cases y) auto
  then show ?thesis using assms(1,2) Keycode by (cases a; cases b) auto
qed

lemma BM_all_nonzero: "BM_all \<noteq> 0"
  by (simp add: binding_mode_defs)

text \<open>A user's binding replaces the default ones: the bindings are the user's readable ones in their order, followed by the
  defaults that match none of them. Whenever a binding of the user and a remaining default one are triggered by the same
  input in the same mode, both require modes and the required modes are disjoint. (The location of the key has to be
  known: the comparison of locations is not transitive.)\<close>

theorem user_bindings_override_defaults:
  assumes "u \<in> set (List.map_filter parse values)" "b \<notin> set (List.map_filter parse values)"
    and "b \<in> set (deserialize_bindings binding_key_eq parse values defaults)"
    and "is_triggered_by binding_key_eq u mode mods inp" "is_triggered_by binding_key_eq b mode mods inp" "\<And>k. inp \<noteq> Keycode k Any"
    and "mode_known (bd_mode u)" "mode_known (bd_mode b)"
  shows "bd_mode u \<noteq> 0 \<and> bd_mode b \<noteq> 0 \<and> \<not> fl_intersects (bd_mode b) (bd_mode u)
     \<and> deserialize_bindings binding_key_eq parse values defaults = List.map_filter parse values
         @ filter (\<lambda>d. \<forall>u \<in> set (List.map_filter parse values). \<not> triggers_match binding_key_eq d u) defaults"
proof -
  have "\<not> triggers_match binding_key_eq b u" using assms(1-3) by (auto simp: deserialize_bindings_filter)
  moreover have "binding_key_eq (bd_trigger b) (bd_trigger u)"
    using key_eq_trans assms(4-6) unfolding is_triggered_by_def by blast
  ultimately have "bd_mode u \<noteq> 0 \<and> bd_mode b \<noteq> 0 \<and> \<not> fl_intersects (bd_mode b) (bd_mode u)"
    using both_triggered [OF assms(5,4)] assms(7,8) BM_all_nonzero
    by (auto simp: triggers_match_def Let_def mode_known_def fl_intersects_def and.commute split: if_splits)
  then show ?thesis by (simp add: deserialize_bindings_filter)
qed

definition demo_user :: key_binding where
  "demo_user = binding_new (Keycode (Named KArrowUp) Any) no_mods BM_VI 0 ActQuit"

definition demo_default :: key_binding where
  "demo_default = binding_new (Keycode (Named KArrowUp) Any) no_mods BM_SEARCH 0 (ActSearch SearchHistoryPrevious)"

theorem user_bindings_witness: "bd_mode demo_user \<noteq> 0 \<and> \<not> fl_intersects (bd_mode demo_default) (bd_mode demo_user)"
proof -
  have d: "bd_mode demo_user = 8" "bd_mode demo_default = 16" "demo_default \<noteq> demo_user" "\<not> triggers_match binding_key_eq demo_default demo_user"
    by (simp_all add: demo_user_def demo_default_def binding_new_def binding_mode_defs triggers_match_def Let_def fl_intersects_def)
  have t: "is_triggered_by binding_key_eq x 24 no_mods (Keycode (Named KArrowUp) Standard)" if "x = demo_user \<or> x = demo_default" for x
    using that by (auto simp: demo_user_def demo_default_def is_triggered_by_def binding_new_def binding_mode_defs fl_contains_def fl_intersects_def)
  show ?thesis
    using user_bindings_override_defaults [of demo_user Some "[demo_user]" demo_default "[demo_default]" 24 no_mods "Keycode (Named KArrowUp) Standard"] d t
    by (simp add: deserialize_bindings_filter mode_known_def binding_mode_defs List.map_filter_def)
qed

subsection \<open>Typing\<close>

text \<open>The default bindings of character keys without modifiers, or with Shift only, need vi mode or a search.\<close>

lemma default_bindings_characters:
  "list_all (\<lambda>b. case bd_trigger b of
      Keycode (Character s) l \<Rightarrow> bd_mods b = no_mods \<or> bd_mods b = mods_shift \<longrightarrow> fl_contains (bd_mode b) BM_VI
    | Keycode _ _ \<Rightarrow> True | Scancode n \<Rightarrow> False) default_key_bindings"
  unfolding default_key_bindings_def platform_key_bindings_def common_keybindings_def binding_new_def
  by (simp add: binding_mode_defs mods_defs fl_contains_def)

lemma binding_mode_new_vi: "fl_contains (binding_mode_new mode search) BM_VI = fl_contains mode VI"
  by (simp add: binding_mode_new_def Let_def fl_set_def fl_contains_insert_other fl_contains_remove_other binding_mode_defs)

lemma default_bindings_quiet:
  assumes "ke_logical_key key = Character ch" "mods = no_mods \<or> mods = mods_shift" "\<not> fl_contains mode VI"
    and "b \<in> set default_key_bindings"
  shows "\<not> is_triggered_by binding_key_eq b (binding_mode_new mode search) mods (binding_input (binding_logical_key lower key) key b)"
proof
  assume t: "is_triggered_by binding_key_eq b (binding_mode_new mode search) mods (binding_input (binding_logical_key lower key) key b)"
  have vi: "\<not> fl_contains (bd_mode b) BM_VI"
  proof
    assume "fl_contains (bd_mode b) BM_VI"
    then have "fl_contains (binding_mode_new mode search) BM_VI"
      using t unfolding is_triggered_by_def fl_contains_def by (metis and.assoc)
    then show False using assms(3) by (simp add: binding_mode_new_vi)
  qed
  obtain s l where "bd_trigger b = Keycode (Character s) l"
    using t default_bindings_characters assms(1,4)
    by (cases "bd_trigger b") (auto simp: is_triggered_by_def binding_input_def binding_logical_key_def list_all_iff)
  then show False
    using t vi default_bindings_characters assms(2,4) by (auto simp: is_triggered_by_def list_all_iff)
qed

lemma fold_binding_quiet:
  assumes "\<And>b. b \<in> set bs \<Longrightarrow> \<not> is_triggered_by binding_key_eq b mode mods (binding_input k key b)"
  shows "fold (binding_action ac mode mods k key) bs st = st"
  using assms by (induction bs) (auto simp: binding_action_def split: prod.splits)

lemma fold_no_hints: "set hs \<subseteq> {None} \<Longrightarrow> fold (\<lambda>hb st. case hb of Some b \<Rightarrow> f b st | None \<Rightarrow> st) hs st = st"
  by (induction hs) auto


definition demo_context :: "(nat list, nat) action_context" where
  "demo_context = \<lparr>ac_preedit = \<lambda>c. False, ac_mode = \<lambda>c. 0, ac_modifiers = \<lambda>c. mods_shift, ac_hint_active = \<lambda>c. False,
     ac_char_pending = \<lambda>c. False, ac_search_active = \<lambda>c. False, ac_key_bindings = \<lambda>c. default_key_bindings, ac_hint_bindings = \<lambda>c. [],
     ac_set_ime_allowed = \<lambda>b c. c, ac_hint_input = \<lambda>ch c. c, ac_inline_search_input = \<lambda>s c. c, ac_search_input = \<lambda>ch c. c,
     ac_window = \<lambda>c. 0, ac_scheduler_mut = \<lambda>f c. c, ac_execute = \<lambda>a c. [], ac_on_terminal_input_start = \<lambda>c. c,
     ac_write_to_pty = \<lambda>bytes c. c @ bytes\<rparr>"


end
