(* ===== verification/Mouse.thy ===== *)
theory Mouse
  imports Frame_Damage Bindings Scheduler Message_Bar "HOL-Library.Signed_Division"
begin

text \<open>
  The size of the window and mouse input: \<^verbatim>\<open>SizeInfo\<close> of \<^verbatim>\<open>velacritty/src/display/mod.rs\<close>, \<^verbatim>\<open>Mouse\<close> of \<^verbatim>\<open>event.rs\<close> and the mouse handlers
  of \<^verbatim>\<open>input/mod.rs\<close>.

  Sizes are \<^verbatim>\<open>f32\<close> values that hold whole numbers of pixels (fonts and windows are measured in whole pixels and the paddings
  are rounded down), on which the arithmetic of the sources is exact below \<open>2\<^sup>2\<^sup>3\<close>; they are natural numbers here. The only halves
  appear while the padding is spread, where twice the padding is computed instead.

  A handler reads an environment and the state of the mouse and returns the new state and the calls it makes, in order.
\<close>

subsection \<open>Sizes\<close>

definition MIN_COLUMNS :: nat where "MIN_COLUMNS = 2"
definition MIN_SCREEN_LINES :: nat where "MIN_SCREEN_LINES = 1"

text \<open>Twice the padding. The remainder has the sign of the dividend.\<close>

definition dynamic_padding2 :: "int \<Rightarrow> int \<Rightarrow> int \<Rightarrow> int" where
  "dynamic_padding2 padding dimension cell_dimension = 2 * padding + (dimension - 2 * padding) smod cell_dimension"

definition size_info_new :: "nat \<Rightarrow> nat \<Rightarrow> nat \<Rightarrow> nat \<Rightarrow> nat \<Rightarrow> nat \<Rightarrow> bool \<Rightarrow> size_info" where
  "size_info_new width height cell_width cell_height padding_x padding_y dynamic =
     (let px2 = (if dynamic then dynamic_padding2 (int padding_x) (int width) (int cell_width) else 2 * int padding_x);
          py2 = (if dynamic then dynamic_padding2 (int padding_y) (int height) (int cell_height) else 2 * int padding_y);
          screen_lines = max (nat ((int height - py2) div int cell_height)) MIN_SCREEN_LINES;
          columns = max (nat ((int width - px2) div int cell_width)) MIN_COLUMNS
      in \<lparr>si_width = width, si_height = height, si_cell_width = cell_width, si_cell_height = cell_height,
          si_padding_x = nat (px2 div 2), si_padding_y = nat (py2 div 2), si_screen_lines = screen_lines, si_columns = columns\<rparr>)"

definition reserve_lines :: "nat \<Rightarrow> size_info \<Rightarrow> size_info" where
  "reserve_lines n si = si\<lparr>si_screen_lines := max (si_screen_lines si - n) MIN_SCREEN_LINES\<rparr>"

definition contains_point :: "size_info \<Rightarrow> nat \<Rightarrow> nat \<Rightarrow> bool" where
  "contains_point si x y \<longleftrightarrow>
     x \<le> si_padding_x si + si_columns si * si_cell_width si \<and> x > si_padding_x si
     \<and> y \<le> si_padding_y si + si_screen_lines si * si_cell_height si \<and> y > si_padding_y si"

text \<open>\<^verbatim>\<open>From<SizeInfo<f32>> for SizeInfo<u32>\<close>\<close>

definition size_info_u32 :: "size_info \<Rightarrow> size_info" where
  "size_info_u32 si = si\<lparr>si_columns := si_screen_lines si\<rparr>"

subsection \<open>The mouse\<close>

datatype click_state = NoClick | Click | DoubleClick | TripleClick

record mouse =
  ms_left_pressed :: bool
  ms_middle_pressed :: bool
  ms_right_pressed :: bool
  ms_last_click_timestamp :: nat
  ms_last_click_button :: mouse_button
  ms_click_state :: click_state
  ms_cell_side :: side
  ms_block_hint_launcher :: bool
  ms_hint_highlight_dirty :: bool
  ms_inside_text_area :: bool
  ms_x :: nat
  ms_y :: nat

definition mouse_default :: "nat \<Rightarrow> mouse" where
  "mouse_default now = \<lparr>ms_left_pressed = False, ms_middle_pressed = False, ms_right_pressed = False, ms_last_click_timestamp = now,
     ms_last_click_button = MouseLeft, ms_click_state = NoClick, ms_cell_side = DirLeft, ms_block_hint_launcher = False,
     ms_hint_highlight_dirty = False, ms_inside_text_area = False, ms_x = 0, ms_y = 0\<rparr>"

definition udiv :: "nat \<Rightarrow> nat \<Rightarrow> nat option" where
  "udiv a b = (if b = 0 then None else Some (a div b))"

definition mouse_point :: "size_info \<Rightarrow> nat \<Rightarrow> mouse \<Rightarrow> point option" where
  "mouse_point si display_offset m = do {
     col \<leftarrow> udiv (ms_x m - si_padding_x si) (si_cell_width si);
     last_column \<leftarrow> usub (si_columns si) 1;
     let col = min col last_column;
     line \<leftarrow> udiv (ms_y m - si_padding_y si) (si_cell_height si);
     last_line \<leftarrow> usub (si_screen_lines si) 1;
     let line = min line last_line;
     Some (viewport_to_point display_offset (Point line col))
   }"

definition cell_side :: "size_info \<Rightarrow> nat \<Rightarrow> side" where
  "cell_side si x =
     (let cell_x = (x - si_padding_x si) mod si_cell_width si;
          half_cell_width = si_cell_width si div 2;
          additional_padding = (int (si_width si) - 2 * int (si_padding_x si)) smod int (si_cell_width si);
          end_of_grid = int (si_width si) - int (si_padding_x si) - additional_padding
      in if cell_x > half_cell_width \<or> int x \<ge> end_of_grid then DirRight else DirLeft)"

subsection \<open>Reports\<close>

record mouse_env =
  me_size :: size_info
  me_display_offset :: nat
  me_mode :: term_mode
  me_mods :: modifiers
  me_selection_empty :: bool
  me_search_active :: bool
  me_mouse_bindings :: "mouse_button binding list"
  me_messages :: message_buffer
  me_highlighted_hint :: bool
  me_now :: nat

datatype cursor_icon = PointerIcon | DefaultIcon | TextIcon

datatype mouse_call =
    WriteToPty "nat list" | ClearSelection | StartSelection selection_type point side | UpdateSelection point side
  | SetViCursor point | MarkDirty | Execute action | TriggerHint | UnscheduleScrolling | ScheduleScrolling int
  | CopySelection | PopMessage | SetCursor cursor_icon | UpdateCursor

text \<open>\<^verbatim>\<open>mouse_mode\<close> of the action context\<close>

definition mouse_mode :: "mouse_env \<Rightarrow> bool" where
  "mouse_mode e \<longleftrightarrow> fl_intersects (me_mode e) MOUSE_MODE \<and> \<not> fl_contains (me_mode e) VI"

definition report_mods :: "modifiers \<Rightarrow> nat" where
  "report_mods m = (if m_shift m then 4 else 0) + (if m_alt m then 8 else 0) + (if m_control m then 16 else 0)"

definition mouse_pos_encode :: "nat \<Rightarrow> nat list" where
  "mouse_pos_encode pos = (let pos = 32 + 1 + pos in [(0xC0 + pos div 64) mod 256, (0x80 + pos mod 64) mod 256])"

definition normal_mouse_report :: "term_mode \<Rightarrow> nat \<Rightarrow> nat \<Rightarrow> nat \<Rightarrow> mouse_call list" where
  "normal_mouse_report mode line col button =
     (let utf8 = fl_contains mode UTF8_MOUSE;
          max_point = (if utf8 then 2015 else 223)
      in if line \<ge> max_point \<or> col \<ge> max_point then []
         else [WriteToPty ([27, 91, 77, 32 + button]
                @ (if utf8 \<and> col \<ge> 95 then mouse_pos_encode col else [(32 + 1 + col) mod 256])
                @ (if utf8 \<and> line \<ge> 95 then mouse_pos_encode line else [(32 + 1 + line) mod 256]))])"

definition sgr_mouse_report :: "nat \<Rightarrow> nat \<Rightarrow> nat \<Rightarrow> bool \<Rightarrow> mouse_call list" where
  "sgr_mouse_report line col button pressed =
     [WriteToPty ([27, 91, 60] @ dec button @ [59] @ dec (col + 1) @ [59] @ dec (line + 1) @ [if pressed then 77 else 109])]"

definition mouse_report :: "mouse_env \<Rightarrow> mouse \<Rightarrow> nat \<Rightarrow> bool \<Rightarrow> mouse_call list option" where
  "mouse_report e m button pressed = do {
     p \<leftarrow> mouse_point (me_size e) (me_display_offset e) m;
     if p_line p < 0 then Some []
     else let line = nat (p_line p); mods = report_mods (me_mods e) in
       Some (if fl_contains (me_mode e) SGR_MOUSE then sgr_mouse_report line (p_column p) (button + mods) pressed
             else if \<not> pressed then normal_mouse_report (me_mode e) line (p_column p) (3 + mods)
             else normal_mouse_report (me_mode e) line (p_column p) (button + mods))
   }"

definition button_code :: "mouse_button \<Rightarrow> nat option" where
  "button_code b = (case b of MouseLeft \<Rightarrow> Some 0 | MouseMiddle \<Rightarrow> Some 1 | MouseRight \<Rightarrow> Some 2 | _ \<Rightarrow> None)"

subsection \<open>Clicks\<close>

text \<open>In milliseconds.\<close>

definition CLICK_THRESHOLD :: nat where "CLICK_THRESHOLD = 400"

definition next_click_state :: "mouse_button \<Rightarrow> nat \<Rightarrow> mouse \<Rightarrow> click_state" where
  "next_click_state button elapsed m =
     (if button \<noteq> ms_last_click_button m then Click
      else if ms_click_state m = Click \<and> elapsed < CLICK_THRESHOLD then DoubleClick
      else if ms_click_state m = DoubleClick \<and> elapsed < CLICK_THRESHOLD then TripleClick
      else Click)"

definition on_left_click :: "mouse_env \<Rightarrow> point \<Rightarrow> mouse \<Rightarrow> mouse \<times> mouse_call list" where
  "on_left_click e p m =
     (let side = ms_cell_side m; control = m_control (me_mods e);
          (m, calls) =
            (case ms_click_state m of
               Click \<Rightarrow> (m\<lparr>ms_block_hint_launcher := \<not> me_selection_empty e\<rparr>,
                         [ClearSelection, StartSelection (if control then Block else Simple) p side])
             | DoubleClick \<Rightarrow> if control then (m, []) else (m\<lparr>ms_block_hint_launcher := True\<rparr>, [StartSelection selection_type.Semantic p side])
             | TripleClick \<Rightarrow> if control then (m, []) else (m\<lparr>ms_block_hint_launcher := True\<rparr>, [StartSelection Lines p side])
             | NoClick \<Rightarrow> (m, []))
      in (m, calls @ (if fl_contains (me_mode e) VI \<and> \<not> me_search_active e then [SetViCursor p, MarkDirty] else [])))"

definition on_mouse_press :: "mouse_env \<Rightarrow> mouse_button \<Rightarrow> mouse \<Rightarrow> (mouse \<times> mouse_call list) option" where
  "on_mouse_press e button m =
     (if \<not> m_shift (me_mods e) \<and> mouse_mode e
      then let m = m\<lparr>ms_click_state := NoClick\<rparr> in
           (case button_code button of
              None \<Rightarrow> Some (m, [])
            | Some code \<Rightarrow> map_option (\<lambda>calls. (m, calls)) (mouse_report e m code True))
      else let elapsed = me_now e - ms_last_click_timestamp m;
               m = m\<lparr>ms_last_click_timestamp := me_now e\<rparr>;
               state = next_click_state button elapsed m;
               m = m\<lparr>ms_last_click_button := button, ms_click_state := state\<rparr>
           in do {
             p \<leftarrow> mouse_point (me_size e) (me_display_offset e) m;
             Some (if button = MouseLeft then on_left_click e p m else (m, []))
           })"

definition on_mouse_release :: "mouse_env \<Rightarrow> mouse_button \<Rightarrow> mouse \<Rightarrow> (mouse \<times> mouse_call list) option" where
  "on_mouse_release e button m =
     (if \<not> m_shift (me_mods e) \<and> mouse_mode e
      then (case button_code button of
              None \<Rightarrow> Some (m, [])
            | Some code \<Rightarrow> map_option (\<lambda>calls. (m, calls)) (mouse_report e m code False))
      else Some (m, (if me_highlighted_hint e \<and> button = MouseLeft then [TriggerHint] else [])
                    @ [UnscheduleScrolling]
                    @ (if button = MouseLeft \<or> button = MouseRight then [CopySelection] else [])))"

definition process_mouse_bindings :: "mouse_env \<Rightarrow> mouse_button \<Rightarrow> mouse_call list" where
  "process_mouse_bindings e button =
     (let mode = binding_mode_new (me_mode e) (me_search_active e);
          mods = me_mods e;
          fallback_allowed = mouse_mode e \<and> m_shift mods;
          exact = filter (\<lambda>b. is_triggered_by (=) b mode mods button \<and> (fallback_allowed \<or> \<not> mouse_mode e)) (me_mouse_bindings e);
          exact_match_found = (exact \<noteq> []);
          fallback =
            (if fallback_allowed \<and> \<not> exact_match_found
             then filter (\<lambda>b. is_triggered_by (=) b mode (mods\<lparr>m_shift := False\<rparr>) button) (me_mouse_bindings e) else [])
      in map (\<lambda>b. Execute (bd_action b)) (exact @ fallback))"

subsection \<open>The message bar\<close>

text \<open>The number of lines of the current message.\<close>

definition message_lines :: "(uchar \<Rightarrow> nat option) \<Rightarrow> size_info \<Rightarrow> message_buffer \<Rightarrow> nat option" where
  "message_lines width si b =
     (case current_message b of
        None \<Rightarrow> Some 0
      | Some msg \<Rightarrow>
          map_option length (message_text width (si_columns si) (nat ((int (si_height si) - 2 * int (si_padding_y si)) div int (si_cell_height si))) msg))"

definition message_bar_cursor_state :: "mouse_env \<Rightarrow> mouse \<Rightarrow> cursor_icon option option" where
  "message_bar_cursor_state e m = do {
     let search_height = (if me_search_active e then 1 else 0);
     let si = me_size e;
     let terminal_end = si_padding_y si + si_cell_height si * (si_screen_lines si + search_height);
     p \<leftarrow> mouse_point si (me_display_offset e) m;
     Some (if current_message (me_messages e) = None \<or> ms_y m \<le> terminal_end then None
           else if ms_y m \<le> terminal_end + si_cell_height si \<and> p_column p + byte_len CLOSE_BUTTON_TEXT \<ge> si_columns si then Some PointerIcon
           else Some DefaultIcon)
   }"

definition set_button_state :: "mouse_button \<Rightarrow> bool \<Rightarrow> mouse \<Rightarrow> mouse" where
  "set_button_state button pressed m =
     (case button of
        MouseLeft \<Rightarrow> m\<lparr>ms_left_pressed := pressed\<rparr> | MouseMiddle \<Rightarrow> m\<lparr>ms_middle_pressed := pressed\<rparr>
      | MouseRight \<Rightarrow> m\<lparr>ms_right_pressed := pressed\<rparr> | _ \<Rightarrow> m)"

definition mouse_input :: "(uchar \<Rightarrow> nat option) \<Rightarrow> mouse_env \<Rightarrow> bool \<Rightarrow> mouse_button \<Rightarrow> mouse \<Rightarrow> (mouse \<times> mouse_call list) option" where
  "mouse_input width e pressed button m = do {
     let m = set_button_state button pressed m;
     icon \<leftarrow> message_bar_cursor_state e m;
     if icon = Some PointerIcon \<and> pressed
     then do {
       current_lines \<leftarrow> message_lines width (me_size e) (me_messages e);
       new_lines \<leftarrow> message_lines width (me_size e) (message_pop (me_messages e));
       let new_icon = (if current_lines < new_lines then DefaultIcon else if current_lines = new_lines then PointerIcon
                       else if mouse_mode e then DefaultIcon else TextIcon);
       Some (m, [ClearSelection, PopMessage, SetCursor new_icon])
     }
     else if pressed
     then map_option (\<lambda>(m, calls). (m, calls @ process_mouse_bindings e button)) (on_mouse_press e button m)
     else on_mouse_release e button m
   }"

subsection \<open>Motion\<close>

text \<open>The constants scaled by the window's scale factor are \<open>min_height\<close> and \<open>step\<close>.\<close>

definition update_selection_scrolling :: "int \<Rightarrow> int \<Rightarrow> size_info \<Rightarrow> int \<Rightarrow> mouse_call list" where
  "update_selection_scrolling min_height step si mouse_y =
     (let end_top = max min_height (int (si_padding_y si));
          text_area_bottom = int (si_padding_y si) + int (si_screen_lines si) * int (si_cell_height si);
          start_bottom = min (int (si_height si) - min_height) text_area_bottom
      in if mouse_y < end_top then [UnscheduleScrolling, ScheduleScrolling ((end_top - mouse_y + step) sdiv step)]
         else if mouse_y \<ge> start_bottom then [UnscheduleScrolling, ScheduleScrolling ((start_bottom - mouse_y - step) sdiv step)]
         else [UnscheduleScrolling])"

definition motion_button :: "term_mode \<Rightarrow> mouse \<Rightarrow> nat option" where
  "motion_button mode m =
     (if ms_left_pressed m then Some 32 else if ms_middle_pressed m then Some 33 else if ms_right_pressed m then Some 34
      else if fl_contains mode MOUSE_MOTION then Some 35 else None)"

definition mouse_moved :: "int \<Rightarrow> int \<Rightarrow> mouse_env \<Rightarrow> int \<Rightarrow> int \<Rightarrow> mouse \<Rightarrow> (mouse \<times> mouse_call list) option" where
  "mouse_moved min_height step e x y m = do {
     let si = me_size e;
     let dragging = ms_left_pressed m \<or> ms_right_pressed m;
     let calls = (if \<not> me_selection_empty e \<and> dragging then update_selection_scrolling min_height step si y else []);
     old_point \<leftarrow> mouse_point si (me_display_offset e) m;
     guard (1 \<le> si_width si \<and> 1 \<le> si_height si);
     let x = nat (min (max x 0) (int (si_width si) - 1));
     let y = nat (min (max y 0) (int (si_height si) - 1));
     let m = m\<lparr>ms_x := x, ms_y := y\<rparr>;
     let inside = contains_point si x y;
     let side = cell_side si x;
     p \<leftarrow> mouse_point si (me_display_offset e) m;
     let cell_changed = (old_point \<noteq> p);
     if \<not> cell_changed \<and> ms_cell_side m = side \<and> ms_inside_text_area m = inside then Some (m, calls)
     else do {
       let m = m\<lparr>ms_inside_text_area := inside, ms_cell_side := side, ms_hint_highlight_dirty := True, ms_block_hint_launcher := True\<rparr>;
       let calls = calls @ [UpdateCursor];
       if dragging \<and> (m_shift (me_mods e) \<or> \<not> mouse_mode e) then Some (m, calls @ [UpdateSelection p side])
       else if cell_changed \<and> fl_intersects (me_mode e) (MOUSE_MOTION OR MOUSE_DRAG)
       then (case motion_button (me_mode e) m of
               None \<Rightarrow> Some (m, calls)
             | Some button \<Rightarrow> map_option (\<lambda>r. (m, calls @ r)) (mouse_report e m button True))
       else Some (m, calls)
     }
   }"

definition on_focus_change :: "term_mode \<Rightarrow> bool \<Rightarrow> mouse_call list" where
  "on_focus_change mode is_focused =
     (if fl_contains mode FOCUS_IN_OUT then [WriteToPty [27, 91, if is_focused then 73 else 79]] else [])"

end
