(* ===== verification/Props_Mouse.thy ===== *)
theory Props_Mouse
  imports Mouse Key_Sequences
begin

text \<open>The properties of the window's size and of mouse input.\<close>

subsection \<open>Sizes and points\<close>

lemma smod_int_nat: "int a smod int c = int (a mod c)"
  by (simp add: signed_modulo_int_def signed_divide_int_def sgn_if zdiv_int [symmetric] of_nat_mod minus_div_mult_eq_mod [symmetric])

lemma axis:
  fixes p d c :: nat and dynamic :: bool
  assumes "1 \<le> c" "2 * p + k * c \<le> d" "1 \<le> k"
  defines "pad2 \<equiv> (if dynamic then dynamic_padding2 (int p) (int d) (int c) else 2 * int p)"
  defines "n \<equiv> max (nat ((int d - pad2) div int c)) k"
  shows "nat (pad2 div 2) + n * c \<le> d \<and> d < 2 * p + (n + 1) * c \<and> p \<le> nat (pad2 div 2)"
proof -
  define r q where "r = (d - 2 * p) mod c" and "q = (d - 2 * p) div c"
  have "q * c + r = d - 2 * p" by (simp add: r_def q_def)
  moreover have "2 * p \<le> d" using assms(2) by linarith
  ultimately have d: "d = 2 * p + q * c + r" by linarith
  have r: "r < c" using assms(1) by (simp add: r_def)
  have eq: "int d - 2 * int p = int (d - 2 * p)" using d by simp
  have "(int d - 2 * int p) smod int c = int r" unfolding eq r_def by (rule smod_int_nat)
  then have pad2: "pad2 = 2 * int p + (if dynamic then int r else 0)" by (simp add: pad2_def dynamic_padding2_def)
  have "(int d - pad2) div int c = int q"
    by (rule int_div_pos_eq [where r = "if dynamic then 0 else int r"]) (use r in \<open>auto simp: pad2 d\<close>)
  moreover have "k \<le> q" 
  proof (rule ccontr)
    assume "\<not> k \<le> q"
    then have "q * c + c \<le> k * c" by (metis add.commute mult_Suc mult_le_mono1 not_less_eq_eq)
    then show False using d r assms(2) by simp
  qed
  ultimately have n: "n = q" by (simp add: n_def)
  have half: "nat (pad2 div 2) = p + (if dynamic then r div 2 else 0)" by (simp add: pad2 nat_add_distrib nat_div_distrib)
  show ?thesis unfolding half n using d r by auto
qed

text \<open>The grid of a window that is large enough for the smallest grid lies inside the window, with and without spread
  padding, and one more column or line would not fit beside the padding.\<close>

theorem size_info_fits_window:
  assumes "1 \<le> cell_width" "1 \<le> cell_height"
    and "2 * padding_x + MIN_COLUMNS * cell_width \<le> width" "2 * padding_y + MIN_SCREEN_LINES * cell_height \<le> height"
  shows "let si = size_info_new width height cell_width cell_height padding_x padding_y dynamic in
     fits_window si (si_screen_lines si) (si_columns si)
     \<and> width < 2 * padding_x + (si_columns si + 1) * cell_width \<and> height < 2 * padding_y + (si_screen_lines si + 1) * cell_height
     \<and> padding_x \<le> si_padding_x si \<and> padding_y \<le> si_padding_y si"
  using axis [OF assms(1,3), of dynamic] axis [OF assms(2,4), of dynamic]
  by (simp add: size_info_new_def Let_def fits_window_def MIN_COLUMNS_def MIN_SCREEN_LINES_def)

theorem size_info_witness: "fits_window (size_info_new 103 50 10 20 5 5 True) 2 9"
  using size_info_fits_window [of 10 20 5 103 5 50 True]
  by (simp add: MIN_COLUMNS_def MIN_SCREEN_LINES_def size_info_new_def dynamic_padding2_def signed_modulo_int_def signed_divide_int_def Let_def numeral_2_eq_2)

definition demo_size :: size_info where
  "demo_size = \<lparr>si_width = 90, si_height = 50, si_cell_width = 10, si_cell_height = 20, si_padding_x = 5, si_padding_y = 5,
     si_screen_lines = 2, si_columns = 8\<rparr>"

text \<open>C36: The mouse points at the cell that is drawn under it: on every pixel of a cell the result is that cell, in the
  coordinates of the grid when the display is scrolled back; everywhere else it is a cell of the viewport too.\<close>

theorem mouse_points_at_cell:
  assumes "1 \<le> si_cell_width si" "1 \<le> si_cell_height si" "1 \<le> si_columns si" "1 \<le> si_screen_lines si"
  shows "returns (mouse_point si off m) (\<lambda>p. - int off \<le> p_line p \<and> p_line p < int (si_screen_lines si) - int off \<and> p_column p < si_columns si
     \<and> (\<forall>line < si_screen_lines si. \<forall>col < si_columns si.
          si_padding_x si + col * si_cell_width si \<le> ms_x m \<and> ms_x m < si_padding_x si + (col + 1) * si_cell_width si
          \<and> si_padding_y si + line * si_cell_height si \<le> ms_y m \<and> ms_y m < si_padding_y si + (line + 1) * si_cell_height si
          \<longrightarrow> p = Point (int line - int off) col))"
proof -
  have hit: "(x - pad) div c = k" if "pad + k * c \<le> x" "x < pad + (k + 1) * c" for x pad c k :: nat
    using that by (intro div_nat_eqI) (simp_all add: algebra_simps)
  show ?thesis
    using assms hit [of "si_padding_x si" _ "si_cell_width si" "ms_x m"] hit [of "si_padding_y si" _ "si_cell_height si" "ms_y m"]
    by (auto simp: mouse_point_def udiv_def Let_def viewport_to_point_def)
qed

theorem mouse_point_witness:
  "returns (mouse_point demo_size 7 ((mouse_default 0)\<lparr>ms_x := 17, ms_y := 30\<rparr>)) (\<lambda>p. p = Point (- 6) 1)"
proof (rule returns_mono [OF mouse_points_at_cell [of demo_size 7 "(mouse_default 0)\<lparr>ms_x := 17, ms_y := 30\<rparr>"]])
  fix p
  assume h: "- int 7 \<le> p_line p \<and> p_line p < int (si_screen_lines demo_size) - int 7 \<and> p_column p < si_columns demo_size
     \<and> (\<forall>line < si_screen_lines demo_size. \<forall>col < si_columns demo_size.
          si_padding_x demo_size + col * si_cell_width demo_size \<le> ms_x ((mouse_default 0)\<lparr>ms_x := 17, ms_y := 30\<rparr>)
          \<and> ms_x ((mouse_default 0)\<lparr>ms_x := 17, ms_y := 30\<rparr>) < si_padding_x demo_size + (col + 1) * si_cell_width demo_size
          \<and> si_padding_y demo_size + line * si_cell_height demo_size \<le> ms_y ((mouse_default 0)\<lparr>ms_x := 17, ms_y := 30\<rparr>)
          \<and> ms_y ((mouse_default 0)\<lparr>ms_x := 17, ms_y := 30\<rparr>) < si_padding_y demo_size + (line + 1) * si_cell_height demo_size
          \<longrightarrow> p = Point (int line - int 7) col)"
  have "p = Point (int 1 - int 7) 1"
    by (rule h [THEN conjunct2, THEN conjunct2, THEN conjunct2, rule_format]) (simp_all add: demo_size_def)
  then show "p = Point (- 6) 1" by simp
qed (simp_all add: demo_size_def)

subsection \<open>Reports\<close>

text \<open>How a program reads a report: the code of the button, the column, the line, and whether it was pressed, which the older
  encodings do not say.\<close>

definition decode_report :: "term_mode \<Rightarrow> nat list \<Rightarrow> (nat \<times> nat \<times> nat \<times> bool) option" where
  "decode_report mode bytes =
     (if fl_contains mode SGR_MOUSE
      then (case split_on 59 (butlast (drop 3 bytes)) of
              [b, c, l] \<Rightarrow> if take 3 bytes = [27, 91, 60] then Some (undec b, undec c - 1, undec l - 1, last bytes = 77) else None
            | _ \<Rightarrow> None)
      else (case if fl_contains mode UTF8_MOUSE then utf8_decode bytes else Some bytes of
              Some [e, f, g, b, c, l] \<Rightarrow> if [e, f, g] = [27, 91, 77] then Some (b - 32, c - 33, l - 33, True) else None
            | _ \<Rightarrow> None))"

lemma mouse_pos_encode_utf8: "95 \<le> pos \<Longrightarrow> pos < 2015 \<Longrightarrow> mouse_pos_encode pos = utf8_char (33 + pos)"
  by (simp add: mouse_pos_encode_def utf8_char_def Let_def)

lemma normal_report_decodes:
  assumes "\<not> fl_contains mode SGR_MOUSE" "button < 96" "line < (if fl_contains mode UTF8_MOUSE then 2015 else 223)" "col < (if fl_contains mode UTF8_MOUSE then 2015 else 223)"
  shows "\<exists>bytes. normal_mouse_report mode line col button = [WriteToPty bytes] \<and> decode_report mode bytes = Some (button, col, line, True)"
proof (cases "fl_contains mode UTF8_MOUSE")
  case True
  have pos: "(if 95 \<le> p then mouse_pos_encode p else [33 + p]) = utf8_char (33 + p)" if "p < 2015" for p
    using that by (simp add: mouse_pos_encode_utf8)
  have "normal_mouse_report mode line col button = [WriteToPty (utf8_encode [27, 91, 77, 32 + button, 33 + col, 33 + line])]"
    using assms True pos [of col] pos [of line] by (simp add: normal_mouse_report_def utf8_encode_def split: if_splits)
  moreover have "utf8_decode (utf8_encode [27, 91, 77, 32 + button, 33 + col, 33 + line]) = Some [27, 91, 77, 32 + button, 33 + col, 33 + line]"
    by (rule utf8_roundtrip) (use assms True in \<open>auto simp: scalar_value_def\<close>)
  ultimately show ?thesis using assms(1) True by (simp add: decode_report_def)
next
  case False
  then show ?thesis using assms by (simp add: normal_mouse_report_def decode_report_def)
qed

lemma sgr_report_decodes:
  assumes "fl_contains mode SGR_MOUSE"
  shows "\<exists>bytes. sgr_mouse_report line col button pressed = [WriteToPty bytes] \<and> decode_report mode bytes = Some (button, col, line, pressed)"
  using assms split_on_append [OF dec_plain(2)] split_on_none [OF dec_plain(2)]
  by (simp add: sgr_mouse_report_def decode_report_def butlast_append)

text \<open>C35: Mouse reports can be read back: what is written for a button (a click, a motion or a wheel step) on a line of the
  screen gives the program the button with the modifiers, the cell, and in the SGR encoding whether it was a press. The
  older encodings replace the button of a release, and write nothing for a cell they cannot express.\<close>

theorem mouse_report_roundtrip:
  assumes "mouse_point (me_size e) (me_display_offset e) m = Some (Point (int line) col)" "button \<le> 67"
  shows "(\<exists>bytes. mouse_report e m button pressed = Some [WriteToPty bytes]
       \<and> decode_report (me_mode e) bytes = Some ((if pressed \<or> fl_contains (me_mode e) SGR_MOUSE then button else 3) + report_mods (me_mods e), col, line,
           pressed \<or> \<not> fl_contains (me_mode e) SGR_MOUSE))
     \<or> mouse_report e m button pressed = Some [] \<and> \<not> fl_contains (me_mode e) SGR_MOUSE
       \<and> \<not> (line < (if fl_contains (me_mode e) UTF8_MOUSE then 2015 else 223) \<and> col < (if fl_contains (me_mode e) UTF8_MOUSE then 2015 else 223))"
proof (cases "fl_contains (me_mode e) SGR_MOUSE")
  case True
  then show ?thesis
    using sgr_report_decodes [OF True, of line col "button + report_mods (me_mods e)" pressed] assms(1)
    by (auto simp: mouse_report_def Let_def)
next
  case False
  define b where "b = (if pressed then button else 3) + report_mods (me_mods e)"
  have "b < 96" using assms(2) by (auto simp: b_def report_mods_def)
  have run: "mouse_report e m button pressed = Some (normal_mouse_report (me_mode e) line col b)"
    using False assms(1) by (simp add: mouse_report_def Let_def b_def)
  show ?thesis
  proof (cases "line < (if fl_contains (me_mode e) UTF8_MOUSE then 2015 else 223) \<and> col < (if fl_contains (me_mode e) UTF8_MOUSE then 2015 else 223)")
    case True
    then show ?thesis using normal_report_decodes [OF False \<open>b < 96\<close>, of line col] False by (auto simp: run b_def)
  next
    case False': False
    then have "normal_mouse_report (me_mode e) line col b = []" by (auto simp: normal_mouse_report_def Let_def split: if_splits)
    then show ?thesis using False False' run by simp
  qed
qed

definition demo_env :: mouse_env where
  "demo_env = \<lparr>me_size = size_info_new 1200 50 10 20 5 5 False, me_display_offset = 0, me_mode = MOUSE_REPORT_CLICK OR UTF8_MOUSE,
     me_mods = mods_ctrl, me_selection_empty = True, me_search_active = False, me_mouse_bindings = default_mouse_bindings,
     me_messages = [], me_highlighted_hint = False, me_now = 0\<rparr>"

lemma demo_point: "mouse_point (me_size demo_env) (me_display_offset demo_env) ((mouse_default 0)\<lparr>ms_x := 1010\<rparr>) = Some (Point (int 0) 100)"
  by (simp add: demo_env_def mouse_point_def udiv_def size_info_new_def Let_def MIN_COLUMNS_def MIN_SCREEN_LINES_def mouse_default_def viewport_to_point_def usub_def)

theorem mouse_report_witness:
  "\<exists>bytes. mouse_report demo_env ((mouse_default 0)\<lparr>ms_x := 1010\<rparr>) 2 True = Some [WriteToPty bytes] \<and> decode_report (me_mode demo_env) bytes = Some (18, 100, 0, True)"
  using mouse_report_roundtrip [OF demo_point, of 2 True]
  by (simp add: demo_env_def flag_simps fl_contains_def report_mods_def mods_defs)

definition reports :: "mouse_call list \<Rightarrow> bool" where
  "reports calls \<longleftrightarrow> calls = [] \<or> (\<exists>bytes. calls = [WriteToPty bytes])"

lemma mouse_report_reports: "mouse_report e m button pressed = Some calls \<Longrightarrow> reports calls"
  by (auto simp: mouse_report_def Let_def reports_def sgr_mouse_report_def normal_mouse_report_def split: bind_splits if_splits)

lemma on_left_click_silent: "on_left_click e p m = (m', calls) \<Longrightarrow> WriteToPty bytes \<notin> set calls"
  by (auto simp: on_left_click_def Let_def split: click_state.splits if_splits)

lemma process_mouse_bindings_silent: "WriteToPty bytes \<notin> set (process_mouse_bindings e button)"
  by (auto simp: process_mouse_bindings_def Let_def)

lemma process_mouse_bindings_reported: "mouse_mode e \<Longrightarrow> \<not> m_shift (me_mods e) \<Longrightarrow> process_mouse_bindings e button = []"
  by (simp add: process_mouse_bindings_def Let_def)

text \<open>A click is either reported to the program or handled by the terminal, never both: when the program has asked for
  clicks and Shift is not held, pressing and releasing a button outside of the message bar neither touches the selection
  nor triggers a binding and makes at most one report; otherwise nothing is reported.\<close>

theorem clicks_reported_or_handled:
  assumes "mouse_input width e pressed button m = Some (m', calls)" "message_bar_cursor_state e (set_button_state button pressed m) \<noteq> Some (Some PointerIcon)"
  shows "if mouse_mode e \<and> \<not> m_shift (me_mods e) then reports calls else \<forall>bytes. WriteToPty bytes \<notin> set calls"
proof (cases "mouse_mode e \<and> \<not> m_shift (me_mods e)")
  case True
  then show ?thesis
    using assms mouse_report_reports process_mouse_bindings_reported [of e button]
    by (fastforce simp: mouse_input_def on_mouse_press_def on_mouse_release_def Let_def reports_def [of "[]"] split: bind_splits if_splits option.splits)
next
  case False
  show ?thesis
  proof (cases pressed)
    case True
    then obtain m'' c where "on_mouse_press e button (set_button_state button pressed m) = Some (m'', c)" "calls = c @ process_mouse_bindings e button"
      using assms by (auto simp: mouse_input_def Let_def split: bind_splits if_splits)
    moreover from this False have "WriteToPty bytes \<notin> set c" for bytes
      using on_left_click_silent by (fastforce simp: on_mouse_press_def Let_def split: bind_splits if_splits)
    ultimately show ?thesis using False process_mouse_bindings_silent by auto
  next
    case released: False
    then show ?thesis
      using assms False by (auto simp: mouse_input_def on_mouse_release_def Let_def split: bind_splits if_splits)
  qed
qed

lemma mouse_point_same:
  "mouse_point si off (set_button_state button pressed m) = mouse_point si off m"
  "mouse_point si off (m\<lparr>ms_click_state := state\<rparr>) = mouse_point si off m"
  by (cases button) (simp_all add: set_button_state_def mouse_point_def)

theorem clicks_witness:
  "\<exists>m calls. mouse_input (\<lambda>c. Some 1) demo_env True MouseRight ((mouse_default 0)\<lparr>ms_x := 1010\<rparr>) = Some (m, calls) \<and> reports calls"
proof -
  let ?m = "(mouse_default 0)\<lparr>ms_x := 1010\<rparr>"
  have mode: "mouse_mode demo_env \<and> \<not> m_shift (me_mods demo_env)"
    by (simp add: demo_env_def mouse_mode_def flag_simps mods_defs fl_intersects_def fl_contains_def)
  have messages: "me_messages demo_env = []" by (simp add: demo_env_def)
  have icon: "message_bar_cursor_state demo_env (set_button_state MouseRight True ?m) = Some None"
    using demo_point messages by (simp add: message_bar_cursor_state_def mouse_point_same current_message_def)
  have "mouse_report demo_env ((set_button_state MouseRight True ?m)\<lparr>ms_click_state := NoClick\<rparr>) 2 True \<noteq> None"
    using demo_point by (simp add: mouse_report_def mouse_point_same Let_def)
  then have "mouse_input (\<lambda>c. Some 1) demo_env True MouseRight ?m \<noteq> None"
    using mode icon by (simp add: mouse_input_def on_mouse_press_def button_code_def Let_def)
  then obtain m calls where run: "mouse_input (\<lambda>c. Some 1) demo_env True MouseRight ?m = Some (m, calls)" by auto
  have "reports calls" using clicks_reported_or_handled [OF run] mode icon by simp
  then show ?thesis using run by blast
qed

end
