(* ===== verification/Regex_Search.thy ===== *)
theory Regex_Search
  imports Search Vi_Mode
begin

text \<open>
  Regular expression search: \<^verbatim>\<open>velacritty_terminal/src/term/search.rs\<close>. The automata of \<^verbatim>\<open>regex_automata\<close> are a parameter: a record of
  the functions the search calls, on an arbitrary type of states. \<open>None\<close> is the error of an automaton that exceeds its
  complexity limit; the contents of its cache are not part of the model. A loop that does not end, an index out of bounds and
  the \<^verbatim>\<open>unwrap\<close> of a missing start state are \<open>None\<close>; the error of an automaton is \<open>Inl ()\<close>.
\<close>

record 'q dfa =
  d_start :: "bool \<Rightarrow> 'q option"
  d_next :: "'q \<Rightarrow> nat \<Rightarrow> 'q option"
  d_eoi :: "'q \<Rightarrow> 'q option"
  d_match :: "'q \<Rightarrow> bool"
  d_dead :: "'q \<Rightarrow> bool"

record 'q lazy_dfa =
  lz_dfa :: "'q dfa"
  lz_direction :: direction
  lz_match_all :: bool

definition lazy_dfa_new :: "(direction \<Rightarrow> bool \<Rightarrow> 'q dfa option) \<Rightarrow> direction \<Rightarrow> bool \<Rightarrow> 'q lazy_dfa option" where
  "lazy_dfa_new build direction match_all = do {
     dfa \<leftarrow> build direction match_all;
     Some \<lparr>lz_dfa = dfa, lz_direction = direction, lz_match_all = match_all\<rparr>
   }"

record 'q regex_search =
  rx_left_fdfa :: "'q lazy_dfa"
  rx_left_rdfa :: "'q lazy_dfa"
  rx_right_rdfa :: "'q lazy_dfa"
  rx_right_fdfa :: "'q lazy_dfa"

text \<open>\<open>build\<close> compiles the expression for a direction, with all matches or only the leftmost-first one; \<open>has_empty\<close> says whether
  an automaton matches the empty string. \<open>None\<close> is an error of the builder.\<close>

definition regex_search_new :: "(direction \<Rightarrow> bool \<Rightarrow> 'q dfa option) \<Rightarrow> ('q dfa \<Rightarrow> bool) \<Rightarrow> 'q regex_search option" where
  "regex_search_new build has_empty = do {
     left_rdfa \<leftarrow> lazy_dfa_new build DirRight True;
     let has_empty = has_empty (lz_dfa left_rdfa);
     left_fdfa \<leftarrow> lazy_dfa_new build DirLeft has_empty;
     right_fdfa \<leftarrow> lazy_dfa_new build DirRight has_empty;
     right_rdfa \<leftarrow> lazy_dfa_new build DirLeft True;
     Some \<lparr>rx_left_fdfa = left_fdfa, rx_left_rdfa = left_rdfa, rx_right_rdfa = right_rdfa, rx_right_fdfa = right_fdfa\<rparr>
   }"

subsection \<open>The iterator\<close>

definition iter_move :: "direction \<Rightarrow> grid \<Rightarrow> grid_iter \<Rightarrow> (grid_iter \<times> (point \<times> cell) option) option" where
  "iter_move dir = (case dir of DirRight \<Rightarrow> iter_next | DirLeft \<Rightarrow> iter_prev)"

definition iter_cell :: "grid \<Rightarrow> grid_iter \<Rightarrow> cell option" where
  "iter_cell g it = grid_get g (it_point it)"

definition skip_fullwidth :: "terminal \<Rightarrow> grid_iter \<Rightarrow> cell \<Rightarrow> direction \<Rightarrow> (grid_iter \<times> cell) option" where
  "skip_fullwidth t it cell dir =
     (let g = t_grid t in
      case dir of
        DirRight \<Rightarrow>
          if fl_contains (c_flags cell) WIDE_CHAR \<and> p_column (it_point it) < last_column (t_dims t)
          then do { (it, _) \<leftarrow> iter_next g it; Some (it, cell) }
          else if fl_contains (c_flags cell) LEADING_WIDE_CHAR_SPACER
          then do {
            (it, r) \<leftarrow> iter_next g it;
            let cell = (case r of Some (_, new_cell) \<Rightarrow> new_cell | None \<Rightarrow> cell);
            (it, _) \<leftarrow> iter_next g it;
            Some (it, cell)
          }
          else Some (it, cell)
      | DirLeft \<Rightarrow>
          if fl_contains (c_flags cell) WIDE_CHAR_SPACER
          then do {
            (it, r) \<leftarrow> iter_prev g it;
            let cell = (case r of Some (_, new_cell) \<Rightarrow> new_cell | None \<Rightarrow> cell);
            y \<leftarrow> grid_get g (point_sub (t_dims t) BGrid 1 (it_point it));
            if fl_contains (c_flags y) LEADING_WIDE_CHAR_SPACER
            then do { (it, _) \<leftarrow> iter_prev g it; Some (it, cell) }
            else Some (it, cell)
          }
          else Some (it, cell))"

subsection \<open>The search loop\<close>

text \<open>The state of the automaton, the number of bytes consumed since the last reset, and the match.\<close>

type_synonym 'q scan = "'q \<times> nat \<times> point option"

datatype 'q fed = Fed "'q scan" | Retry "'q scan" | Abort "point option" | Failed

text \<open>Passing the bytes of a character to the automaton, from the i-th on.\<close>

fun feed_bytes :: "'q lazy_dfa \<Rightarrow> point \<Rightarrow> nat \<Rightarrow> nat list \<Rightarrow> 'q scan \<Rightarrow> 'q fed" where
  "feed_bytes re last_point i [] sc = Fed sc"
| "feed_bytes re last_point i (b # bs) (state, consumed, m) =
     (case d_next (lz_dfa re) state b of
        None \<Rightarrow> Failed
      | Some state \<Rightarrow>
          let consumed = consumed + 1 in
          if i = 0 \<and> d_match (lz_dfa re) state then feed_bytes re last_point (i + 1) bs (state, consumed, Some last_point)
          else if d_dead (lz_dfa re) state
          then if consumed = 2
               then (case d_start (lz_dfa re) (lz_match_all re) of
                       None \<Rightarrow> Failed
                     | Some state \<Rightarrow> if i = 0 then Retry (state, 0, None) else feed_bytes re last_point (i + 1) bs (state, 0, None))
               else Abort m
          else feed_bytes re last_point (i + 1) bs (state, consumed, m))"

record 'q search_state =
  ss_iter :: grid_iter
  ss_scan :: "'q scan"
  ss_done :: bool
  ss_char :: uchar
  ss_last_wrapped :: bool
  ss_point :: point
  ss_last_point :: point

text \<open>The next cell, around the ends of the scrollback.\<close>

definition advance_wrapping :: "terminal \<Rightarrow> direction \<Rightarrow> point \<Rightarrow> grid_iter \<Rightarrow> (grid_iter \<times> cell) option" where
  "advance_wrapping t dir p it = do {
     (it, r) \<leftarrow> iter_move dir (t_grid t) it;
     case r of
       Some (_, cell) \<Rightarrow> Some (it, cell)
     | None \<Rightarrow> do {
         let line = topmost_line (t_dims t) - p_line p + int (screen_lines (t_dims t)) - 1;
         col \<leftarrow> usub (last_column (t_dims t)) (p_column p);
         let it = iter_from (t_grid t) (Point line col);
         cell \<leftarrow> iter_cell (t_grid t) it;
         Some (it, cell)
       }
   }"

text \<open>A line break between two cells: the automaton sees the end of its input. The result is the match to stop with, or the
  state to go on with; \<open>None\<close> is an error of the automaton.\<close>

definition at_linebreak :: "'q lazy_dfa \<Rightarrow> point \<Rightarrow> 'q scan \<Rightarrow> ('q scan + point) option" where
  "at_linebreak re last_point sc = (case sc of (state, consumed, m) \<Rightarrow> do {
     state \<leftarrow> d_eoi (lz_dfa re) state;
     let m = (if d_match (lz_dfa re) state then Some last_point else m);
     case m of
       Some p \<Rightarrow>
         if (\<not> d_dead (lz_dfa re) state \<or> consumed > 1) \<and> consumed \<noteq> 0 then Some (Inr p)
         else do { state \<leftarrow> d_start (lz_dfa re) (lz_match_all re); Some (Inl (state, 0, None)) }
     | None \<Rightarrow> do { state \<leftarrow> d_start (lz_dfa re) (lz_match_all re); Some (Inl (state, 0, None)) }
   })"

definition at_end :: "'q lazy_dfa \<Rightarrow> point \<Rightarrow> 'q scan \<Rightarrow> unit + point option" where
  "at_end re p sc = (case sc of (state, consumed, m) \<Rightarrow>
     (case d_eoi (lz_dfa re) state of
        None \<Rightarrow> Inl ()
      | Some state \<Rightarrow>
          Inr (if d_match (lz_dfa re) state then Some p
               else if d_dead (lz_dfa re) state \<and> consumed = 1 then None else m)))"

definition char_bytes :: "direction \<Rightarrow> uchar \<Rightarrow> nat list" where
  "char_bytes dir c = (case dir of DirRight \<Rightarrow> utf8_char c | DirLeft \<Rightarrow> rev (utf8_char c))"

definition is_linebreak :: "nat \<Rightarrow> point \<Rightarrow> point \<Rightarrow> bool \<Rightarrow> bool \<Rightarrow> bool" where
  "is_linebreak last_col last_point p last_wrapped wrapped \<longleftrightarrow>
     (p_column last_point = last_col \<and> p_column p = 0 \<and> \<not> last_wrapped)
     \<or> (p_column last_point = 0 \<and> p_column p = last_col \<and> \<not> wrapped)"

text \<open>Moving to the next character: the new state without the new scan, and whether there is a line break.\<close>

definition search_advance :: "terminal \<Rightarrow> 'q lazy_dfa \<Rightarrow> point \<Rightarrow> 'q search_state \<Rightarrow> ('q search_state \<times> bool) option" where
  "search_advance t re e s = do {
     (it, cell) \<leftarrow> advance_wrapping t (lz_direction re) (ss_point s) (ss_iter s);
     let done = (it_point it = e);
     (it, cell) \<leftarrow> skip_fullwidth t it cell (lz_direction re);
     here \<leftarrow> iter_cell (t_grid t) it;
     let wrapped = fl_contains (c_flags here) WRAPLINE;
     let last_point = ss_point s;
     let p = it_point it;
     Some (s\<lparr>ss_iter := it, ss_done := done, ss_char := c_char cell, ss_last_wrapped := wrapped, ss_point := p, ss_last_point := last_point\<rparr>,
           is_linebreak (last_column (t_dims t)) last_point p (ss_last_wrapped s) wrapped)
   }"

text \<open>One round of the loop: the next state, or the result to leave the loop with.\<close>

definition search_step :: "terminal \<Rightarrow> 'q lazy_dfa \<Rightarrow> point \<Rightarrow> 'q search_state \<Rightarrow> ('q search_state + (unit + point option)) option" where
  "search_step t re e s =
     (case feed_bytes re (ss_last_point s) 0 (char_bytes (lz_direction re) (ss_char s)) (ss_scan s) of
        Failed \<Rightarrow> Some (Inr (Inl ()))
      | Abort m \<Rightarrow> Some (Inr (Inr m))
      | Retry sc \<Rightarrow> Some (Inl (s\<lparr>ss_scan := sc\<rparr>))
      | Fed sc \<Rightarrow>
          if ss_point s = e \<or> ss_done s then Some (Inr (at_end re (ss_point s) sc))
          else do {
            (s', linebreak) \<leftarrow> search_advance t re e s;
            Some (if linebreak
                  then (case at_linebreak re (ss_last_point s') sc of
                          None \<Rightarrow> Inr (Inl ())
                        | Some (Inr m) \<Rightarrow> Inr (Inr (Some m))
                        | Some (Inl sc) \<Rightarrow> Inl (s'\<lparr>ss_scan := sc\<rparr>))
                  else Inl (s'\<lparr>ss_scan := sc\<rparr>))
          })"

partial_function (option) search_loop :: "terminal \<Rightarrow> 'q lazy_dfa \<Rightarrow> point \<Rightarrow> 'q search_state \<Rightarrow> (unit + point option) option" where
  "search_loop t re e s =
     (case search_step t re e s of
        None \<Rightarrow> None
      | Some (Inl s') \<Rightarrow> search_loop t re e s'
      | Some (Inr r) \<Rightarrow> Some r)"

definition regex_search_internal :: "terminal \<Rightarrow> point \<Rightarrow> point \<Rightarrow> 'q lazy_dfa \<Rightarrow> (unit + point option) option" where
  "regex_search_internal t s e re = do {
     state \<leftarrow> d_start (lz_dfa re) (lz_match_all re);
     let it = iter_from (t_grid t) s;
     cell \<leftarrow> iter_cell (t_grid t) it;
     (it, cell) \<leftarrow> skip_fullwidth t it cell (lz_direction re);
     here \<leftarrow> iter_cell (t_grid t) it;
     let p = it_point it;
     search_loop t re e
       \<lparr>ss_iter = it, ss_scan = (state, 0, None), ss_done = False, ss_char = c_char cell,
        ss_last_wrapped = fl_contains (c_flags here) WRAPLINE, ss_point = p, ss_last_point = p\<rparr>
   }"

definition search_point :: "terminal \<Rightarrow> point \<Rightarrow> point \<Rightarrow> 'q lazy_dfa \<Rightarrow> point option option" where
  "search_point t s e re = do {
     r \<leftarrow> regex_search_internal t s e re;
     Some (case r of Inl _ \<Rightarrow> None | Inr m \<Rightarrow> m)
   }"

subsection \<open>Matches\<close>

type_synonym regex_match = "point \<times> point"

definition regex_search_left :: "terminal \<Rightarrow> 'q regex_search \<Rightarrow> point \<Rightarrow> point \<Rightarrow> regex_match option option" where
  "regex_search_left t rx s e = do {
     match_start \<leftarrow> search_point t s e (rx_left_fdfa rx);
     case match_start of
       None \<Rightarrow> Some None
     | Some match_start \<Rightarrow> do {
         match_end \<leftarrow> search_point t match_start s (rx_left_rdfa rx);
         Some (map_option (\<lambda>match_end. (match_start, match_end)) match_end)
       }
   }"

definition regex_search_right :: "terminal \<Rightarrow> 'q regex_search \<Rightarrow> point \<Rightarrow> point \<Rightarrow> regex_match option option" where
  "regex_search_right t rx s e = do {
     match_end \<leftarrow> search_point t s e (rx_right_fdfa rx);
     case match_end of
       None \<Rightarrow> Some None
     | Some match_end \<Rightarrow> do {
         match_start \<leftarrow> search_point t match_end s (rx_right_rdfa rx);
         Some (map_option (\<lambda>match_start. (match_start, match_end)) match_start)
       }
   }"

record regex_iter =
  ri_point :: point
  ri_end :: point
  ri_direction :: direction
  ri_done :: bool

definition regex_iter_new :: "point \<Rightarrow> point \<Rightarrow> direction \<Rightarrow> regex_iter" where
  "regex_iter_new s e dir = \<lparr>ri_point = s, ri_end = e, ri_direction = dir, ri_done = False\<rparr>"

definition regex_iter_skip :: "terminal \<Rightarrow> regex_iter \<Rightarrow> regex_iter option" where
  "regex_iter_skip t ri = do {
     p \<leftarrow> expand_wide t (ri_point ri) (ri_direction ri);
     Some (ri\<lparr>ri_point := (case ri_direction ri of DirRight \<Rightarrow> point_add (t_dims t) BNone 1 p | DirLeft \<Rightarrow> point_sub (t_dims t) BNone 1 p)\<rparr>)
   }"

definition regex_next_match :: "terminal \<Rightarrow> 'q regex_search \<Rightarrow> regex_iter \<Rightarrow> regex_match option option" where
  "regex_next_match t rx ri =
     (case ri_direction ri of
        DirRight \<Rightarrow> regex_search_right t rx (ri_point ri) (ri_end ri)
      | DirLeft \<Rightarrow> regex_search_left t rx (ri_point ri) (ri_end ri))"

definition regex_iter_next :: "terminal \<Rightarrow> 'q regex_search \<Rightarrow> regex_iter \<Rightarrow> (regex_iter \<times> regex_match option) option" where
  "regex_iter_next t rx ri =
     (if ri_done ri then Some (ri, None)
      else do {
        let ri = (if ri_point ri = ri_end ri then ri\<lparr>ri_done := True\<rparr> else ri);
        r \<leftarrow> regex_next_match t rx ri;
        case r of
          None \<Rightarrow> Some (ri, None)
        | Some m \<Rightarrow> do {
            let ri = ri\<lparr>ri_point := snd m\<rparr>;
            ri \<leftarrow> (if ri_point ri = ri_end ri then Some (ri\<lparr>ri_done := True\<rparr>) else regex_iter_skip t ri);
            Some (ri, Some m)
          }
      })"

text \<open>All matches, and the first match of the iterator that satisfies a predicate.\<close>

partial_function (option) regex_iter_collect :: "terminal \<Rightarrow> 'q regex_search \<Rightarrow> regex_iter \<Rightarrow> regex_match list option" where
  "regex_iter_collect t rx ri = do {
     (ri, r) \<leftarrow> regex_iter_next t rx ri;
     case r of None \<Rightarrow> Some [] | Some m \<Rightarrow> do { ms \<leftarrow> regex_iter_collect t rx ri; Some (m # ms) }
   }"

partial_function (option) regex_iter_find :: "(regex_match \<Rightarrow> bool) \<Rightarrow> terminal \<Rightarrow> 'q regex_search \<Rightarrow> regex_iter \<Rightarrow> regex_match option option" where
  "regex_iter_find P t rx ri = do {
     (ri, r) \<leftarrow> regex_iter_next t rx ri;
     case r of None \<Rightarrow> Some None | Some m \<Rightarrow> if P m then Some (Some m) else regex_iter_find P t rx ri
   }"

declare search_loop.simps [code] regex_iter_collect.simps [code] regex_iter_find.simps [code]

definition match_side :: "regex_match \<Rightarrow> side \<Rightarrow> point" where
  "match_side m side = (case side of DirRight \<Rightarrow> snd m | DirLeft \<Rightarrow> fst m)"

text \<open>The first match, and from it on the first one that satisfies the predicate.\<close>

definition find_or_first :: "(regex_match \<Rightarrow> bool) \<Rightarrow> terminal \<Rightarrow> 'q regex_search \<Rightarrow> regex_iter \<Rightarrow> regex_match option option" where
  "find_or_first P t rx ri = do {
     (ri, r) \<leftarrow> regex_iter_next t rx ri;
     case r of
       None \<Rightarrow> Some None
     | Some first_match \<Rightarrow>
         if P first_match then Some (Some first_match)
         else do {
           found \<leftarrow> regex_iter_find P t rx ri;
           Some (Some (case found of Some m \<Rightarrow> m | None \<Rightarrow> first_match))
         }
   }"

definition next_match_right :: "terminal \<Rightarrow> 'q regex_search \<Rightarrow> point \<Rightarrow> side \<Rightarrow> nat option \<Rightarrow> regex_match option option" where
  "next_match_right t rx origin side max_lines = do {
     start \<leftarrow> line_search_left t origin;
     let e = (case max_lines of
                Some n \<Rightarrow> Point (line_grid_clamp (t_dims t) BNone (p_line start + int n)) (last_column (t_dims t))
              | None \<Rightarrow> point_sub (t_dims t) BNone 1 start);
     find_or_first
       (\<lambda>m. let p = match_side m side in
            p_line p < p_line start \<or> p_line p > p_line origin \<or> (p_line p = p_line origin \<and> p_column p \<ge> p_column origin))
       t rx (regex_iter_new start e DirRight)
   }"

definition next_match_left :: "terminal \<Rightarrow> 'q regex_search \<Rightarrow> point \<Rightarrow> side \<Rightarrow> nat option \<Rightarrow> regex_match option option" where
  "next_match_left t rx origin side max_lines = do {
     start \<leftarrow> line_search_right t origin;
     let e = (case max_lines of
                Some n \<Rightarrow> Point (line_grid_clamp (t_dims t) BNone (p_line start - int n)) 0
              | None \<Rightarrow> point_add (t_dims t) BNone 1 start);
     find_or_first
       (\<lambda>m. let p = match_side m side in
            p_line p > p_line start \<or> p_line p < p_line origin \<or> (p_line p = p_line origin \<and> p_column p \<le> p_column origin))
       t rx (regex_iter_new start e DirLeft)
   }"

definition search_next :: "terminal \<Rightarrow> 'q regex_search \<Rightarrow> point \<Rightarrow> direction \<Rightarrow> side \<Rightarrow> nat option \<Rightarrow> regex_match option option" where
  "search_next t rx origin dir side max_lines = do {
     origin \<leftarrow> expand_wide t origin dir;
     let max_lines = (case max_lines of Some n \<Rightarrow> if n + 1 < total_lines (t_dims t) then Some n else None | None \<Rightarrow> None);
     case dir of
       DirRight \<Rightarrow> next_match_right t rx origin side max_lines
     | DirLeft \<Rightarrow> next_match_left t rx origin side max_lines
   }"

end
