(* ===== verification/Props_Search.thy ===== *)
theory Props_Search
  imports Regex_Search Demo
begin

text \<open>
  Properties of the regular expression search. The cells of the grid are numbered in reading order, from \<open>first_lin\<close> to
  \<open>last_lin\<close>; a search walks around this cycle. \<open>path_dist\<close> is the number of steps left to its end, and every round of the loop
  that is not the last one comes closer.
\<close>

subsection \<open>Positions\<close>

definition iter_at :: "grid \<Rightarrow> int \<Rightarrow> grid_iter" where
  "iter_at g i = \<lparr>it_point = unlin (grid_dims g) i, it_end = unlin (grid_dims g) (last_lin (grid_dims g))\<rparr>"

definition pos_in :: "dims \<Rightarrow> int \<Rightarrow> bool" where
  "pos_in d i \<longleftrightarrow> first_lin d \<le> i \<and> i \<le> last_lin d"

definition flag_at :: "grid \<Rightarrow> flags \<Rightarrow> int \<Rightarrow> bool" where
  "flag_at g f i \<longleftrightarrow> fl_contains (c_flags (g_cell g (unlin (grid_dims g) i))) f"

definition step_pos :: "dims \<Rightarrow> direction \<Rightarrow> int \<Rightarrow> int" where
  "step_pos d dir i =
     (case dir of DirRight \<Rightarrow> if i < last_lin d then i + 1 else first_lin d
                | DirLeft \<Rightarrow> if first_lin d < i then i - 1 else last_lin d)"

definition path_dist :: "dims \<Rightarrow> direction \<Rightarrow> int \<Rightarrow> int \<Rightarrow> int" where
  "path_dist d dir e i =
     (let n = last_lin d - first_lin d + 1 in
      case dir of DirRight \<Rightarrow> if i \<le> e then e - i else e - i + n
                | DirLeft \<Rightarrow> if e \<le> i then i - e else i - e + n)"

lemma it_point_iter_at [simp]: "it_point (iter_at g i) = unlin (grid_dims g) i"
  by (simp add: iter_at_def)

lemma path_dist_bounds:
  "pos_in d e \<Longrightarrow> pos_in d i \<Longrightarrow> 0 \<le> path_dist d dir e i \<and> (path_dist d dir e i = 0 \<longleftrightarrow> i = e)"
  by (cases dir) (auto simp: path_dist_def pos_in_def Let_def)

lemma path_dist_step:
  assumes "pos_in d e" "pos_in d i" "i \<noteq> e"
  shows "pos_in d (step_pos d dir i)" "path_dist d dir e (step_pos d dir i) = path_dist d dir e i - 1"
  using assms by (cases dir, auto simp: path_dist_def pos_in_def Let_def step_pos_def)+

lemma iter_from_at:
  assumes "grid_core_ok g" "in_grid (grid_dims g) p"
  shows "iter_from g p = iter_at g (lin (grid_dims g) p)" "pos_in (grid_dims g) (lin (grid_dims g) p)"
    "unlin (grid_dims g) (lin (grid_dims g) p) = p"
proof -
  have wf: "wf_dims (grid_dims g)" by (rule grid_core_ok_dims [OF assms(1)])
  show u: "unlin (grid_dims g) (lin (grid_dims g) p) = p" using assms(2) by (simp add: in_grid_def)
  have "Point (bottommost_line (grid_dims g)) (last_column (grid_dims g)) = unlin (grid_dims g) (last_lin (grid_dims g))"
    using wf by (simp add: last_lin_def wf_dims_def last_column_def)
  then show "iter_from g p = iter_at g (lin (grid_dims g) p)" using u by (simp add: iter_from_def iter_at_def)
  show "pos_in (grid_dims g) (lin (grid_dims g) p)" using assms(2) in_grid_lin [OF wf] by (simp add: pos_in_def)
qed

lemma cell_get_at:
  assumes "grid_core_ok g" "pos_in (grid_dims g) i"
  shows "grid_get g (unlin (grid_dims g) i) = Some (g_cell g (unlin (grid_dims g) i))"
  by (rule grid_get_cell [OF assms(1) in_grid_unlin [OF grid_core_ok_dims [OF assms(1)]]])
    (use assms(2) in \<open>simp_all add: pos_in_def\<close>)

lemma iter_next_at:
  assumes g: "grid_core_ok g" and i: "pos_in (grid_dims g) i"
  shows "iter_next g (iter_at g i) =
    (if i < last_lin (grid_dims g)
     then Some (iter_at g (i + 1), Some (unlin (grid_dims g) (i + 1), g_cell g (unlin (grid_dims g) (i + 1))))
     else Some (iter_at g i, None))"
proof -
  have c: "0 < columns (grid_dims g)" "0 < g_columns g"
    using grid_core_ok_dims [OF g] by (simp_all add: wf_dims_def)
  show ?thesis
  proof (cases "i < last_lin (grid_dims g)")
    case True
    then have "pos_in (grid_dims g) (i + 1)" using i by (simp add: pos_in_def)
    from cell_get_at [OF g this] True show ?thesis
      by (simp add: iter_next_def iter_at_def unlin_mono [OF c(1)] next_point_unlin [OF c(2)] Let_def)
  qed (use c in \<open>simp add: iter_next_def iter_at_def unlin_mono\<close>)
qed

lemma iter_prev_at:
  assumes g: "grid_core_ok g" and i: "pos_in (grid_dims g) i"
  shows "iter_prev g (iter_at g i) =
    (if first_lin (grid_dims g) < i
     then Some (iter_at g (i - 1), Some (unlin (grid_dims g) (i - 1), g_cell g (unlin (grid_dims g) (i - 1))))
     else Some (iter_at g i, None))"
proof -
  have c: "0 < columns (grid_dims g)" "0 < g_columns g"
    using grid_core_ok_dims [OF g] by (simp_all add: wf_dims_def)
  have t: "Point (topmost_line (grid_dims g)) 0 = unlin (grid_dims g) (first_lin (grid_dims g))"
    using c by (simp add: first_lin_def)
  show ?thesis
  proof (cases "first_lin (grid_dims g) < i")
    case True
    then have "pos_in (grid_dims g) (i - 1)" using i by (simp add: pos_in_def)
    from cell_get_at [OF g this] True show ?thesis
      by (simp add: iter_prev_def iter_at_def t unlin_mono [OF c(1)] prev_point_unlin [OF c(2)] Let_def)
  qed (use c in \<open>simp add: iter_prev_def iter_at_def t unlin_mono\<close>)
qed

lemma advance_at:
  assumes g: "grid_core_ok (t_grid t)" and i: "pos_in (t_dims t) i"
  shows "advance_wrapping t dir (unlin (t_dims t) i) (iter_at (t_grid t) i) =
    Some (iter_at (t_grid t) (step_pos (t_dims t) dir i), g_cell (t_grid t) (unlin (t_dims t) (step_pos (t_dims t) dir i)))"
proof -
  let ?d = "t_dims t" and ?g = "t_grid t"
  have wf: "wf_dims ?d" using grid_core_ok_dims [OF g] by (simp add: t_dims_def)
  have c: "0 < columns ?d" using wf by (simp add: wf_dims_def)
  have ends: "unlin ?d (first_lin ?d) = Point (topmost_line ?d) 0"
    "unlin ?d (last_lin ?d) = Point (bottommost_line ?d) (last_column ?d)"
    using c by (simp_all add: first_lin_def last_lin_def last_column_def)
  have first: "pos_in ?d (first_lin ?d)" and last: "pos_in ?d (last_lin ?d)" using i by (auto simp: pos_in_def)
  have from_first: "iter_from ?g (Point (topmost_line ?d) 0) = iter_at ?g (first_lin ?d)"
    and from_last: "iter_from ?g (Point (bottommost_line ?d) (last_column ?d)) = iter_at ?g (last_lin ?d)"
    using iter_from_at(1) [OF g, of "Point (topmost_line ?d) 0"] iter_from_at(1) [OF g, of "Point (bottommost_line ?d) (last_column ?d)"]
      in_grid_unlin [OF wf, of "first_lin ?d"] in_grid_unlin [OF wf, of "last_lin ?d"] first last ends
    by (simp_all add: pos_in_def t_dims_def first_lin_def last_lin_def)
  show ?thesis
  proof (cases dir)
    case DirRight
    show ?thesis
    proof (cases "i < last_lin ?d")
      case False
      then have "i = last_lin ?d" using i by (simp add: pos_in_def)
      moreover have "int (g_lines ?g) = bottommost_line ?d + 1"
        by (simp add: bottommost_line_def t_dims_def)
      ultimately show ?thesis
        using iter_next_at [OF g, of i] i first cell_get_at [OF g, of "first_lin ?d"] from_first
        by (simp add: DirRight advance_wrapping_def iter_move_def step_pos_def ends usub_def iter_cell_def Let_def flip: t_dims_def)
    qed (use iter_next_at [OF g, of i] i in \<open>simp add: DirRight advance_wrapping_def iter_move_def step_pos_def t_dims_def\<close>)
  next
    case DirLeft
    show ?thesis
    proof (cases "first_lin ?d < i")
      case False
      then have "i = first_lin ?d" using i by (simp add: pos_in_def)
      moreover have "int (g_lines ?g) = bottommost_line ?d + 1"
        by (simp add: bottommost_line_def t_dims_def)
      ultimately show ?thesis
        using iter_prev_at [OF g, of i] i last cell_get_at [OF g, of "last_lin ?d"] from_last
        by (simp add: DirLeft advance_wrapping_def iter_move_def step_pos_def ends usub_def iter_cell_def Let_def flip: t_dims_def)
    qed (use iter_prev_at [OF g, of i] i in \<open>simp add: DirLeft advance_wrapping_def iter_move_def step_pos_def t_dims_def\<close>)
  qed
qed

text \<open>Skipping a wide character moves at most two cells, and two only over a spacer at the end of the line before it.\<close>

definition skip_range :: "grid \<Rightarrow> cell \<Rightarrow> direction \<Rightarrow> int \<Rightarrow> int \<Rightarrow> bool" where
  "skip_range g cell dir i j \<longleftrightarrow> pos_in (grid_dims g) j \<and>
     (case dir of
        DirRight \<Rightarrow> i \<le> j \<and> j \<le> i + 2 \<and> (j = i + 2 \<longrightarrow> fl_contains (c_flags cell) LEADING_WIDE_CHAR_SPACER)
          \<and> (\<not> fl_contains (c_flags cell) WIDE_CHAR \<and> \<not> fl_contains (c_flags cell) LEADING_WIDE_CHAR_SPACER \<longrightarrow> j = i)
      | DirLeft \<Rightarrow> i - 2 \<le> j \<and> j \<le> i \<and> (j = i - 2 \<longrightarrow> flag_at g LEADING_WIDE_CHAR_SPACER (i - 2))
          \<and> (\<not> fl_contains (c_flags cell) WIDE_CHAR_SPACER \<longrightarrow> j = i))"

lemma point_sub_at:
  assumes wf: "wf_dims d" and i: "pos_in d i"
  shows "point_sub d BGrid 1 (unlin d i) = unlin d (max (first_lin d) (i - 1))"
proof -
  have c: "0 < columns d" using wf by (simp add: wf_dims_def)
  have "lin d (point_sub d BGrid 1 (unlin d i)) = max (first_lin d) (i - 1)"
    using point_sub_lin [OF wf, of "unlin d i" 1] in_grid_unlin [OF wf, of i] i c by (simp add: pos_in_def first_lin_def)
  moreover have "p_column (point_sub d BGrid 1 (unlin d i)) < columns d"
    using point_sub_in_grid [OF wf, of BGrid 1 "unlin d i"] by (simp add: in_grid_def)
  ultimately show ?thesis using unlin_lin by metis
qed

lemma skip_right_at:
  assumes g: "grid_core_ok (t_grid t)" and i: "pos_in (t_dims t) i"
  shows "\<exists>j cell'. skip_fullwidth t (iter_at (t_grid t) i) cell DirRight = Some (iter_at (t_grid t) j, cell')
    \<and> skip_range (t_grid t) cell DirRight i j"
proof -
  let ?d = "t_dims t" and ?g = "t_grid t"
  have d: "grid_dims ?g = ?d" by (simp add: t_dims_def)
  note nx = iter_next_at [OF g, unfolded d]
  have j: "pos_in ?d (i + 1)" if "i < last_lin ?d" using that i by (simp add: pos_in_def)
  have jj: "pos_in ?d (i + 1 + 1)" if "i + 1 < last_lin ?d" using that i by (simp add: pos_in_def)
  consider (wide) "fl_contains (c_flags cell) WIDE_CHAR \<and> p_column (unlin ?d i) < last_column ?d"
    | (leading) "\<not> (fl_contains (c_flags cell) WIDE_CHAR \<and> p_column (unlin ?d i) < last_column ?d)"
        "fl_contains (c_flags cell) LEADING_WIDE_CHAR_SPACER"
    | (plain) "\<not> (fl_contains (c_flags cell) WIDE_CHAR \<and> p_column (unlin ?d i) < last_column ?d)"
        "\<not> fl_contains (c_flags cell) LEADING_WIDE_CHAR_SPACER"
    by blast
  then show ?thesis
  proof cases
    case wide
    then show ?thesis using nx [OF i] i j by (auto simp: skip_fullwidth_def skip_range_def d Let_def)
  next
    case leading
    then show ?thesis using nx [OF i] nx [OF j] i j jj
      by (cases "i < last_lin ?d"; cases "i + 1 < last_lin ?d") (auto simp: skip_fullwidth_def skip_range_def d Let_def)
  next
    case plain
    then show ?thesis using i by (auto simp: skip_fullwidth_def skip_range_def d Let_def)
  qed
qed

lemma skip_left_eq:
  assumes g: "grid_core_ok (t_grid t)" and i: "pos_in (t_dims t) i"
  shows "\<exists>cell'. skip_fullwidth t (iter_at (t_grid t) i) cell DirLeft =
    Some (iter_at (t_grid t)
      (if \<not> fl_contains (c_flags cell) WIDE_CHAR_SPACER then i
       else let j = max (first_lin (t_dims t)) (i - 1); k = max (first_lin (t_dims t)) (j - 1)
            in if flag_at (t_grid t) LEADING_WIDE_CHAR_SPACER k then k else j), cell')"
proof (cases "fl_contains (c_flags cell) WIDE_CHAR_SPACER")
  case True
  let ?d = "t_dims t" and ?g = "t_grid t"
  define j where "j = max (first_lin ?d) (i - 1)"
  define k where "k = max (first_lin ?d) (j - 1)"
  have d: "grid_dims ?g = ?d" by (simp add: t_dims_def)
  have wf: "wf_dims ?d" using grid_core_ok_dims [OF g] by (simp add: d)
  have jk: "pos_in ?d j" "pos_in ?d k" using i by (auto simp: pos_in_def j_def k_def)
  have pr: "\<exists>r. iter_prev ?g (iter_at ?g m) = Some (iter_at ?g (max (first_lin ?d) (m - 1)), r)" if "pos_in ?d m" for m
    using iter_prev_at [OF g, unfolded d, OF that] that by (cases "first_lin ?d < m") (auto simp: pos_in_def max_def)
  obtain r where r: "iter_prev ?g (iter_at ?g i) = Some (iter_at ?g j, r)" using pr [OF i] by (auto simp: j_def)
  obtain r' where r': "iter_prev ?g (iter_at ?g j) = Some (iter_at ?g k, r')" using pr [OF jk(1)] by (auto simp: k_def)
  have sub: "point_sub ?d BGrid 1 (unlin ?d j) = unlin ?d k" using point_sub_at [OF wf jk(1)] by (simp add: k_def)
  show ?thesis
    unfolding j_def [symmetric] k_def [symmetric] Let_def
    using True r r' sub cell_get_at [OF g, unfolded d, OF jk(2)]
    by (simp add: skip_fullwidth_def d Let_def flag_at_def)
qed (simp add: skip_fullwidth_def)

lemma skip_left_at:
  assumes g: "grid_core_ok (t_grid t)" and i: "pos_in (t_dims t) i"
  shows "\<exists>j cell'. skip_fullwidth t (iter_at (t_grid t) i) cell DirLeft = Some (iter_at (t_grid t) j, cell')
    \<and> skip_range (t_grid t) cell DirLeft i j"
proof -
  let ?F = "first_lin (t_dims t)"
  have d: "grid_dims (t_grid t) = t_dims t" by (simp add: t_dims_def)
  obtain cell' where s: "skip_fullwidth t (iter_at (t_grid t) i) cell DirLeft =
    Some (iter_at (t_grid t)
      (if \<not> fl_contains (c_flags cell) WIDE_CHAR_SPACER then i
       else let j = max ?F (i - 1); k = max ?F (j - 1)
            in if flag_at (t_grid t) LEADING_WIDE_CHAR_SPACER k then k else j), cell')"
    using skip_left_eq [OF g i] by blast
  consider "i = ?F" | "i = ?F + 1" | "?F + 2 \<le> i" using i by (force simp: pos_in_def)
  then show ?thesis
    unfolding s using i by cases (auto simp: skip_range_def d pos_in_def Let_def max_def)
qed

lemma skip_at:
  assumes "grid_core_ok (t_grid t)" "pos_in (t_dims t) i"
  shows "\<exists>j cell'. skip_fullwidth t (iter_at (t_grid t) i) cell dir = Some (iter_at (t_grid t) j, cell')
    \<and> skip_range (t_grid t) cell dir i j"
  using skip_right_at [OF assms] skip_left_at [OF assms] by (cases dir) simp_all

subsection \<open>A round of the loop\<close>

text \<open>A search can jump over its end only when the cell before the end is a leading spacer: then the end is the wide character
  that was wrapped.\<close>

definition end_skipped :: "terminal \<Rightarrow> point \<Rightarrow> bool" where
  "end_skipped t e \<longleftrightarrow> first_lin (t_dims t) < lin (t_dims t) e
     \<and> flag_at (t_grid t) LEADING_WIDE_CHAR_SPACER (lin (t_dims t) e - 1)"

definition scan_match :: "'q scan \<Rightarrow> point option" where
  "scan_match sc = snd (snd sc)"

definition scan_bytes :: "'q scan \<Rightarrow> nat" where
  "scan_bytes sc = fst (snd sc)"

definition search_inv :: "terminal \<Rightarrow> (point \<Rightarrow> bool) \<Rightarrow> 'q search_state \<Rightarrow> bool" where
  "search_inv t Q s \<longleftrightarrow>
     (\<exists>i. pos_in (t_dims t) i \<and> ss_iter s = iter_at (t_grid t) i \<and> ss_point s = unlin (t_dims t) i)
     \<and> Q (ss_point s) \<and> Q (ss_last_point s) \<and> pred_option Q (scan_match (ss_scan s))"

definition search_measure :: "terminal \<Rightarrow> direction \<Rightarrow> point \<Rightarrow> 'q search_state \<Rightarrow> nat" where
  "search_measure t dir e s =
     2 * (if ss_done s then 0 else nat (path_dist (t_dims t) dir (lin (t_dims t) e) (lin (t_dims t) (ss_point s))))
     + (if scan_bytes (ss_scan s) = 1 then 1 else 0)"

text \<open>The predicate holds at every cell a search moves to.\<close>

definition search_closed :: "terminal \<Rightarrow> direction \<Rightarrow> point \<Rightarrow> (point \<Rightarrow> bool) \<Rightarrow> bool" where
  "search_closed t dir e Q \<longleftrightarrow>
     (\<forall>i j. pos_in (t_dims t) i \<longrightarrow> i \<noteq> lin (t_dims t) e \<longrightarrow> Q (unlin (t_dims t) i)
        \<longrightarrow> skip_range (t_grid t) (g_cell (t_grid t) (unlin (t_dims t) (step_pos (t_dims t) dir i))) dir (step_pos (t_dims t) dir i) j
        \<longrightarrow> Q (unlin (t_dims t) j))"

lemma search_closer:
  assumes e: "pos_in (t_dims t) (lin (t_dims t) e)" and i: "pos_in (t_dims t) i" "i \<noteq> lin (t_dims t) e"
    and no: "\<not> end_skipped t e"
    and j: "skip_range (t_grid t) (g_cell (t_grid t) (unlin (t_dims t) (step_pos (t_dims t) dir i))) dir (step_pos (t_dims t) dir i) j"
  shows "step_pos (t_dims t) dir i = lin (t_dims t) e
    \<or> path_dist (t_dims t) dir (lin (t_dims t) e) j < path_dist (t_dims t) dir (lin (t_dims t) e) i"
proof -
  let ?d = "t_dims t" and ?e = "lin (t_dims t) e"
  define a where "a = step_pos ?d dir i"
  have d: "grid_dims (t_grid t) = ?d" by (simp add: t_dims_def)
  have a: "pos_in ?d a" "path_dist ?d dir ?e a = path_dist ?d dir ?e i - 1"
    using path_dist_step [OF e i] by (simp_all add: a_def)
  have "a = ?e \<or> path_dist ?d dir ?e j \<le> path_dist ?d dir ?e a"
  proof (cases dir)
    case DirRight
    have j': "pos_in ?d j" "a \<le> j" "j \<le> a + 2" "j = a + 2 \<longrightarrow> flag_at (t_grid t) LEADING_WIDE_CHAR_SPACER a"
      using j by (simp_all add: DirRight skip_range_def a_def flag_at_def d)
    have "\<not> (?e = a + 1 \<and> j = a + 2)" using j' a(1) no by (auto simp: end_skipped_def pos_in_def)
    then show ?thesis using j' a(1) e by (auto simp: DirRight path_dist_def pos_in_def Let_def)
  next
    case DirLeft
    have j': "pos_in ?d j" "a - 2 \<le> j" "j \<le> a" "j = a - 2 \<longrightarrow> flag_at (t_grid t) LEADING_WIDE_CHAR_SPACER (a - 2)"
      using j by (simp_all add: DirLeft skip_range_def a_def d)
    have "\<not> (?e = a - 1 \<and> j = a - 2)" using j' no by (auto simp: end_skipped_def pos_in_def)
    then show ?thesis using j' a(1) e by (auto simp: DirLeft path_dist_def pos_in_def Let_def)
  qed
  then show ?thesis using a(2) by (auto simp: a_def)
qed

lemma feed_bytes_no_retry: "0 < i \<Longrightarrow> feed_bytes re p i bs sc \<noteq> Retry sc'"
  by (induction re p i bs sc rule: feed_bytes.induct) (auto simp: Let_def split: option.splits)

lemma feed_bytes_retry:
  "feed_bytes re p i bs sc = Retry sc' \<Longrightarrow> scan_bytes sc = 1 \<and> scan_bytes sc' = 0 \<and> scan_match sc' = None"
  using feed_bytes_no_retry [of "i + 1" re p]
  by (induction re p i bs sc rule: feed_bytes.induct)
    (auto simp: Let_def scan_bytes_def scan_match_def split: option.splits if_splits)

lemma feed_bytes_match:
  assumes "pred_option Q (scan_match sc)" "Q p"
  shows "feed_bytes re p i bs sc = Fed sc' \<Longrightarrow> pred_option Q (scan_match sc')"
    "feed_bytes re p i bs sc = Abort m \<Longrightarrow> pred_option Q m"
  using assms
  by (induction re p i bs sc rule: feed_bytes.induct)
    (auto simp: Let_def scan_match_def split: option.splits if_splits)

lemma at_linebreak_match:
  assumes "pred_option Q (scan_match sc)" "Q p"
  shows "at_linebreak re p sc = Some (Inr m) \<Longrightarrow> Q m"
    "at_linebreak re p sc = Some (Inl sc') \<Longrightarrow> scan_bytes sc' = 0 \<and> scan_match sc' = None"
  using assms by (cases sc; auto simp: at_linebreak_def scan_match_def scan_bytes_def Let_def bind_eq_Some_conv split: option.splits if_splits)+

lemma at_end_match:
  assumes "pred_option Q (scan_match sc)" "Q p" "at_end re p sc = Inr m"
  shows "pred_option Q m"
  using assms by (cases sc) (auto simp: at_end_def scan_match_def split: option.splits if_splits)

lemma search_advance_at:
  assumes g: "grid_core_ok (t_grid t)" and s: "search_inv t Q s"
    and c: "search_closed t (lz_direction re) e Q"
    and e: "in_grid (t_dims t) e" and ne: "ss_point s \<noteq> e" "\<not> ss_done s" and no: "\<not> end_skipped t e"
  shows "\<exists>s' linebreak. search_advance t re e s = Some (s', linebreak) \<and> ss_last_point s' = ss_point s
    \<and> (\<forall>sc. pred_option Q (scan_match sc) \<longrightarrow> search_inv t Q (s'\<lparr>ss_scan := sc\<rparr>)
        \<and> search_measure t (lz_direction re) e (s'\<lparr>ss_scan := sc\<rparr>) < search_measure t (lz_direction re) e s)"
proof -
  let ?d = "t_dims t" and ?g = "t_grid t" and ?dir = "lz_direction re" and ?e = "lin (t_dims t) e"
  have d: "grid_dims ?g = ?d" by (simp add: t_dims_def)
  obtain i where i: "pos_in ?d i" "ss_iter s = iter_at ?g i" "ss_point s = unlin ?d i"
    and q: "Q (unlin ?d i)" "Q (ss_last_point s)"
    using s by (auto simp: search_inv_def)
  have wf: "wf_dims ?d" using grid_core_ok_dims [OF g] by (simp add: d)
  have col: "0 < columns ?d" using wf by (simp add: wf_dims_def)
  have ie: "i \<noteq> ?e" "pos_in ?d ?e" using ne(1) i(3) e iter_from_at(2,3) [OF g, of e] by (auto simp: d)
  define a where "a = step_pos ?d ?dir i"
  have a: "pos_in ?d a" "path_dist ?d ?dir ?e a = path_dist ?d ?dir ?e i - 1"
    using path_dist_step [OF ie(2) i(1) ie(1)] by (simp_all add: a_def)
  have adv: "advance_wrapping t ?dir (ss_point s) (ss_iter s) = Some (iter_at ?g a, g_cell ?g (unlin ?d a))"
    using advance_at [OF g i(1)] i by (simp add: a_def)
  obtain j cell' where sk: "skip_fullwidth t (iter_at ?g a) (g_cell ?g (unlin ?d a)) ?dir = Some (iter_at ?g j, cell')"
    and j: "skip_range ?g (g_cell ?g (unlin ?d a)) ?dir a j"
    using skip_at [OF g a(1)] by blast
  have jg: "pos_in ?d j" using j by (simp add: skip_range_def d)
  have qj: "Q (unlin ?d j)" using c i(1) ie(1) q(1) j by (auto simp: search_closed_def a_def)
  have stop: "unlin ?d a = e \<longleftrightarrow> a = ?e"
    using iter_from_at(3) [OF g, of e] e lin_unlin [OF col, of a] by (auto simp: d)
  have near: "a = ?e \<or> path_dist ?d ?dir ?e j < path_dist ?d ?dir ?e i"
    using search_closer [OF ie(2) i(1) ie(1) no] j by (simp add: a_def)
  have pos: "0 < path_dist ?d ?dir ?e i" "0 \<le> path_dist ?d ?dir ?e j"
    using path_dist_bounds [OF ie(2) i(1), of ?dir] path_dist_bounds [OF ie(2) jg, of ?dir] ie(1) by auto
  obtain s' lb where s': "search_advance t re e s = Some (s', lb)"
      "ss_iter s' = iter_at ?g j" "ss_done s' = (a = ?e)" "ss_point s' = unlin ?d j" "ss_last_point s' = ss_point s"
    using adv sk cell_get_at [OF g, unfolded d, OF jg] stop by (simp add: search_advance_def iter_cell_def Let_def d)
  have "search_measure t ?dir e (s'\<lparr>ss_scan := sc\<rparr>) < search_measure t ?dir e s" for sc
    using near pos ne(2) i(3) s'(3,4) lin_unlin [OF col] by (auto simp: search_measure_def)
  moreover have "search_inv t Q (s'\<lparr>ss_scan := sc\<rparr>)" if "pred_option Q (scan_match sc)" for sc
    using that jg qj s' i(3) q by (auto simp: search_inv_def)
  ultimately show ?thesis using s' by blast
qed

lemma search_step_returns:
  assumes g: "grid_core_ok (t_grid t)" and s: "search_inv t Q s"
    and c: "search_closed t (lz_direction re) e Q"
    and e: "in_grid (t_dims t) e" and no: "\<not> end_skipped t e"
  shows "returns (search_step t re e s) (\<lambda>r. case r of
      Inl s' \<Rightarrow> search_inv t Q s' \<and> search_measure t (lz_direction re) e s' < search_measure t (lz_direction re) e s
    | Inr (Inl _) \<Rightarrow> True
    | Inr (Inr m) \<Rightarrow> pred_option Q m)"
proof -
  have q: "Q (ss_point s)" "Q (ss_last_point s)" "pred_option Q (scan_match (ss_scan s))"
    using s by (simp_all add: search_inv_def)
  let ?f = "feed_bytes re (ss_last_point s) 0 (char_bytes (lz_direction re) (ss_char s)) (ss_scan s)"
  show ?thesis
  proof (cases ?f)
    case (Fed sc)
    have m: "pred_option Q (scan_match sc)" by (rule feed_bytes_match(1) [OF q(3,2) Fed])
    show ?thesis
    proof (cases "ss_point s = e \<or> ss_done s")
      case True
      then show ?thesis using Fed at_end_match [OF m q(1)] by (auto simp: search_step_def split: sum.splits)
    next
      case False
      then obtain s' lb where s': "search_advance t re e s = Some (s', lb)" "ss_last_point s' = ss_point s"
        and fin: "\<And>sc. pred_option Q (scan_match sc) \<Longrightarrow> search_inv t Q (s'\<lparr>ss_scan := sc\<rparr>)
          \<and> search_measure t (lz_direction re) e (s'\<lparr>ss_scan := sc\<rparr>) < search_measure t (lz_direction re) e s"
        using search_advance_at [OF g s c e _ _ no] by blast
      show ?thesis
        using False s' Fed fin [OF m] at_linebreak_match [OF m q(1), of re] fin
        by (auto simp: search_step_def split: sum.splits option.splits)
    qed
  next
    case (Retry sc)
    note r = feed_bytes_retry [OF Retry]
    have "search_inv t Q (s\<lparr>ss_scan := sc\<rparr>)" using s r by (auto simp: search_inv_def)
    moreover have "search_measure t (lz_direction re) e (s\<lparr>ss_scan := sc\<rparr>) < search_measure t (lz_direction re) e s"
      using r by (simp add: search_measure_def)
    ultimately show ?thesis using Retry by (simp add: search_step_def)
  next
    case (Abort m)
    then show ?thesis using feed_bytes_match(2) [OF q(3,2) Abort] by (simp add: search_step_def)
  next
    case Failed
    then show ?thesis by (simp add: search_step_def)
  qed
qed

lemma search_loop_returns:
  assumes g: "grid_core_ok (t_grid t)" and s: "search_inv t Q s"
    and c: "search_closed t (lz_direction re) e Q"
    and e: "in_grid (t_dims t) e" and no: "\<not> end_skipped t e"
  shows "returns (search_loop t re e s) (\<lambda>r. case r of Inl _ \<Rightarrow> True | Inr m \<Rightarrow> pred_option Q m)"
  using s
proof (induction "search_measure t (lz_direction re) e s" arbitrary: s rule: less_induct)
  case less
  obtain r where r: "search_step t re e s = Some r" "case r of
      Inl s' \<Rightarrow> search_inv t Q s' \<and> search_measure t (lz_direction re) e s' < search_measure t (lz_direction re) e s
    | Inr (Inl _) \<Rightarrow> True
    | Inr (Inr m) \<Rightarrow> pred_option Q m"
    using search_step_returns [OF g less.prems c e no] by (auto simp: returns_def)
  show ?case
  proof (cases r)
    case (Inl s')
    then show ?thesis using r less.hyps [of s'] by (subst search_loop.simps) simp
  next
    case (Inr res)
    then show ?thesis using r by (subst search_loop.simps) (auto split: sum.splits)
  qed
qed

subsection \<open>A search\<close>

lemma search_internal_returns:
  assumes g: "grid_core_ok (t_grid t)" and s: "in_grid (t_dims t) s" and e: "in_grid (t_dims t) e"
    and no: "\<not> end_skipped t e" and st: "d_start (lz_dfa re) (lz_match_all re) \<noteq> None"
    and c: "search_closed t (lz_direction re) e Q"
    and q: "\<And>j. skip_range (t_grid t) (g_cell (t_grid t) s) (lz_direction re) (lin (t_dims t) s) j \<Longrightarrow> Q (unlin (t_dims t) j)"
  shows "returns (regex_search_internal t s e re) (\<lambda>r. case r of Inl _ \<Rightarrow> True | Inr m \<Rightarrow> pred_option Q m)"
proof -
  let ?d = "t_dims t" and ?g = "t_grid t" and ?i = "lin (t_dims t) s"
  have d: "grid_dims ?g = ?d" by (simp add: t_dims_def)
  have i: "iter_from ?g s = iter_at ?g ?i" "pos_in ?d ?i" "unlin ?d ?i = s"
    using iter_from_at [OF g, of s] s by (simp_all add: d)
  obtain state where state: "d_start (lz_dfa re) (lz_match_all re) = Some state" using st by blast
  obtain j cell' where sk: "skip_fullwidth t (iter_at ?g ?i) (g_cell ?g s) (lz_direction re) = Some (iter_at ?g j, cell')"
    and j: "skip_range ?g (g_cell ?g s) (lz_direction re) ?i j"
    using skip_at [OF g i(2)] by blast
  have jg: "pos_in ?d j" using j by (simp add: skip_range_def d)
  define s0 where "s0 = \<lparr>ss_iter = iter_at ?g j, ss_scan = (state, 0, None), ss_done = False, ss_char = c_char cell',
      ss_last_wrapped = fl_contains (c_flags (g_cell ?g (unlin ?d j))) WRAPLINE, ss_point = unlin ?d j,
      ss_last_point = unlin ?d j\<rparr>"
  have "search_inv t Q s0" using jg q [OF j] by (auto simp: search_inv_def s0_def scan_match_def)
  moreover have "regex_search_internal t s e re = search_loop t re e s0"
    using state i cell_get_at [OF g, unfolded d, OF i(2)] cell_get_at [OF g, unfolded d, OF jg] sk
    by (simp add: regex_search_internal_def iter_cell_def Let_def d s0_def)
  ultimately show ?thesis using search_loop_returns [OF g _ c e no] by simp
qed

lemma pos_in_unlin: "wf_dims d \<Longrightarrow> pos_in d i \<Longrightarrow> in_grid d (unlin d i)"
  by (simp add: pos_in_def in_grid_unlin)


subsection \<open>A search that does not return\<close>

text \<open>An automaton that is never in a state of a match, never dead and never in error: no text matches.\<close>

definition silent :: "'q lazy_dfa \<Rightarrow> bool" where
  "silent re \<longleftrightarrow> (\<forall>q. \<not> d_match (lz_dfa re) q \<and> \<not> d_dead (lz_dfa re) q \<and> d_eoi (lz_dfa re) q \<noteq> None
      \<and> (\<forall>b. d_next (lz_dfa re) q b \<noteq> None)) \<and> d_start (lz_dfa re) (lz_match_all re) \<noteq> None"

lemma silent_feed: "silent re \<Longrightarrow> scan_match sc = None \<Longrightarrow> \<exists>sc'. feed_bytes re p i bs sc = Fed sc' \<and> scan_match sc' = None"
proof (induction re p i bs sc rule: feed_bytes.induct)
  case (2 re p i b bs state consumed m)
  obtain st where st: "d_next (lz_dfa re) state b = Some st" using 2(4) by (auto simp: silent_def)
  have q: "\<not> d_match (lz_dfa re) st" "\<not> d_dead (lz_dfa re) st" using 2(4) by (auto simp: silent_def)
  show ?case using 2(3) [OF st _ _ q(2), of "consumed + 1"] 2(4,5) st q by (auto simp: scan_match_def)
qed simp

lemma silent_linebreak:
  assumes "silent re" "scan_match sc = None"
  shows "\<exists>sc'. at_linebreak re p sc = Some (Inl sc') \<and> scan_match sc' = None"
proof -
  obtain state consumed where sc: "sc = (state, consumed, None)" using assms(2) by (cases sc) (auto simp: scan_match_def)
  obtain st where st: "d_eoi (lz_dfa re) state = Some st" using assms(1) by (auto simp: silent_def)
  obtain q where q: "d_start (lz_dfa re) (lz_match_all re) = Some q" using assms(1) by (auto simp: silent_def)
  have "\<not> d_match (lz_dfa re) st" using assms(1) by (simp add: silent_def)
  then show ?thesis using st q by (simp add: at_linebreak_def sc scan_match_def)
qed

lemma search_loop_never:
  assumes step: "\<And>s. I s \<Longrightarrow> \<exists>s'. search_step t re e s = Some (Inl s') \<and> I s'"
    and s: "I s"
  shows "search_loop t re e s = None"
proof -
  let ?P = "\<lambda>t' re' e' s r. t' = t \<and> re' = re \<and> e' = e \<longrightarrow> \<not> I s"
  have "?P t re e s r" if "search_loop t re e s = Some r" for s r
  proof (rule search_loop.raw_induct [where P = ?P, OF _ that])
    fix f t1 re1 e1 s1 r1
    assume IH: "\<And>t2 re2 e2 s2 y. f t2 re2 e2 s2 = Some y \<Longrightarrow> ?P t2 re2 e2 s2 y"
      and eq: "(case search_step t1 re1 e1 s1 of None \<Rightarrow> None | Some (Inl s') \<Rightarrow> f t1 re1 e1 s' | Some (Inr r) \<Rightarrow> Some r) = Some r1"
    show "?P t1 re1 e1 s1 r1"
    proof (intro impI notI, elim conjE)
      assume p: "t1 = t" "re1 = re" "e1 = e" "I s1"
      obtain s' where "search_step t re e s1 = Some (Inl s')" "I s'" using step [OF p(4)] by blast
      then show False using eq IH [of t re e s' r1] p(1-3) by simp
    qed
  qed
  then show ?thesis using s by (cases "search_loop t re e s") auto
qed

text \<open>A wide character that did not fit at the end of a line: the spacer left there, and its two cells on the next line.\<close>

definition wrapped_wide :: "terminal \<Rightarrow> point \<Rightarrow> bool" where
  "wrapped_wide t e \<longleftrightarrow>
     (let d = t_dims t; g = t_grid t; i = lin d e in
      first_lin d < i \<and> i < last_lin d
      \<and> flag_at g LEADING_WIDE_CHAR_SPACER (i - 1) \<and> flag_at g WIDE_CHAR i \<and> flag_at g WIDE_CHAR_SPACER (i + 1)
      \<and> \<not> flag_at g LEADING_WIDE_CHAR_SPACER (i + 1) \<and> (i + 1 < last_lin d \<longrightarrow> \<not> flag_at g WIDE_CHAR_SPACER (i + 2)))"

definition beside :: "terminal \<Rightarrow> point \<Rightarrow> 'q search_state \<Rightarrow> bool" where
  "beside t e s \<longleftrightarrow>
     (\<exists>i. pos_in (t_dims t) i \<and> i \<noteq> lin (t_dims t) e \<and> i \<noteq> lin (t_dims t) e + 1
        \<and> ss_iter s = iter_at (t_grid t) i \<and> ss_point s = unlin (t_dims t) i)
     \<and> \<not> ss_done s \<and> scan_match (ss_scan s) = None"

lemma skip_left_beside:
  assumes g: "grid_core_ok (t_grid t)" and a: "pos_in (t_dims t) a" and w: "wrapped_wide t e" and ne: "a \<noteq> lin (t_dims t) e"
  shows "\<exists>j cell'. skip_fullwidth t (iter_at (t_grid t) a) (g_cell (t_grid t) (unlin (t_dims t) a)) DirLeft = Some (iter_at (t_grid t) j, cell')
    \<and> pos_in (t_dims t) j \<and> j \<noteq> lin (t_dims t) e \<and> j \<noteq> lin (t_dims t) e + 1"
proof -
  let ?d = "t_dims t" and ?g = "t_grid t" and ?E = "lin (t_dims t) e" and ?F = "first_lin (t_dims t)"
  define j where "j = (if \<not> flag_at ?g WIDE_CHAR_SPACER a then a
       else let j = max ?F (a - 1); k = max ?F (j - 1) in if flag_at ?g LEADING_WIDE_CHAR_SPACER k then k else j)"
  have d: "grid_dims ?g = ?d" by (simp add: t_dims_def)
  obtain cell' where "skip_fullwidth t (iter_at ?g a) (g_cell ?g (unlin ?d a)) DirLeft = Some (iter_at ?g j, cell')"
    using skip_left_eq [OF g a, of "g_cell ?g (unlin ?d a)"] by (auto simp: flag_at_def d j_def)
  moreover have "pos_in ?d j" using a by (auto simp: j_def Let_def pos_in_def)
  moreover have "j \<noteq> ?E \<and> j \<noteq> ?E + 1"
  proof -
    have w': "?F < ?E" "?E < last_lin ?d" "flag_at ?g LEADING_WIDE_CHAR_SPACER (?E - 1)" "flag_at ?g WIDE_CHAR_SPACER (?E + 1)"
      "\<not> flag_at ?g LEADING_WIDE_CHAR_SPACER (?E + 1)" "?E + 1 < last_lin ?d \<Longrightarrow> \<not> flag_at ?g WIDE_CHAR_SPACER (?E + 2)"
      using w by (simp_all add: wrapped_wide_def Let_def)
    have "\<not> flag_at ?g LEADING_WIDE_CHAR_SPACER (1 + ?E)" using w'(5) by (simp add: add.commute)
    note lead = this
    consider "a \<le> ?E - 1" | "a = ?E + 1" | "a = ?E + 2" | "a = ?E + 3" | "?E + 4 \<le> a" using ne by linarith
    then show ?thesis
      using w' lead a by cases (auto simp: j_def Let_def pos_in_def max_def)
  qed
  ultimately show ?thesis by blast
qed

lemma beside_step:
  assumes g: "grid_core_ok (t_grid t)" and w: "wrapped_wide t e" and re: "silent re" "lz_direction re = DirLeft"
    and e: "in_grid (t_dims t) e" and s: "beside t e s"
  shows "\<exists>s'. search_step t re e s = Some (Inl s') \<and> beside t e s'"
proof -
  let ?d = "t_dims t" and ?g = "t_grid t" and ?E = "lin (t_dims t) e"
  have d: "grid_dims ?g = ?d" by (simp add: t_dims_def)
  have col: "0 < columns ?d" using grid_core_ok_dims [OF g] by (simp add: d wf_dims_def)
  obtain i where i: "pos_in ?d i" "i \<noteq> ?E" "i \<noteq> ?E + 1" "ss_iter s = iter_at ?g i" "ss_point s = unlin ?d i"
    using s by (auto simp: beside_def)
  have eu: "unlin ?d ?E = e" using iter_from_at(3) [OF g, of e] e by (simp add: d)
  have ne: "unlin ?d k \<noteq> e" if "k \<noteq> ?E" for k using that lin_unlin [OF col, of k] by auto
  define a where "a = step_pos ?d DirLeft i"
  have a: "pos_in ?d a" "a \<noteq> ?E"
    using i(1-3) w by (auto simp: a_def step_pos_def pos_in_def wrapped_wide_def Let_def)
  obtain j cell' where sk: "skip_fullwidth t (iter_at ?g a) (g_cell ?g (unlin ?d a)) DirLeft = Some (iter_at ?g j, cell')"
    and j: "pos_in ?d j" "j \<noteq> ?E" "j \<noteq> ?E + 1"
    using skip_left_beside [OF g a(1) w a(2)] by blast
  have adv: "advance_wrapping t DirLeft (ss_point s) (ss_iter s) = Some (iter_at ?g a, g_cell ?g (unlin ?d a))"
    using advance_at [OF g i(1)] i by (simp add: a_def)
  obtain s' lb where s': "search_advance t re e s = Some (s', lb)"
      "ss_iter s' = iter_at ?g j" "\<not> ss_done s'" "ss_point s' = unlin ?d j"
    using adv sk cell_get_at [OF g, unfolded d, OF j(1)] ne [OF a(2)] by (simp add: search_advance_def iter_cell_def Let_def d re(2))
  have b: "beside t e (s'\<lparr>ss_scan := sc\<rparr>)" if "scan_match sc = None" for sc
    using that j s' by (auto simp: beside_def)
  obtain sc where sc: "feed_bytes re (ss_last_point s) 0 (char_bytes (lz_direction re) (ss_char s)) (ss_scan s) = Fed sc" "scan_match sc = None"
    using silent_feed [OF re(1)] s unfolding beside_def by blast
  obtain sc' where sc': "at_linebreak re (ss_last_point s') sc = Some (Inl sc')" "scan_match sc' = None"
    using silent_linebreak [OF re(1) sc(2)] by blast
  have go: "\<not> (ss_point s = e \<or> ss_done s)" using s ne [OF i(2)] i(5) by (simp add: beside_def)
  show ?thesis using sc sc' go s'(1) b by (cases lb) (simp_all add: search_step_def)
qed

text \<open>C23: A search to the left whose end is a wrapped wide character jumps over its end: if no text matches, it never returns.\<close>

theorem left_search_runs_forever:
  assumes "grid_core_ok (t_grid t)" "in_grid (t_dims t) s" "in_grid (t_dims t) e" "wrapped_wide t e" "s \<noteq> e"
    and "silent (rx_left_fdfa rx)" "lz_direction (rx_left_fdfa rx) = DirLeft"
  shows "regex_search_left t rx s e = None"
proof -
  let ?d = "t_dims t" and ?g = "t_grid t" and ?re = "rx_left_fdfa rx"
  have d: "grid_dims ?g = ?d" by (simp add: t_dims_def)
  have i: "iter_from ?g s = iter_at ?g (lin ?d s)" "pos_in ?d (lin ?d s)" "unlin ?d (lin ?d s) = s"
    using iter_from_at [OF assms(1), of s] assms(2) by (simp_all add: d)
  have "lin ?d s \<noteq> lin ?d e"
    using i(3) iter_from_at(3) [OF assms(1), of e] assms(3,5) by (metis d)
  from skip_left_beside [OF assms(1) i(2) assms(4) this] obtain j cell' where
    sk: "skip_fullwidth t (iter_at ?g (lin ?d s)) (g_cell ?g s) DirLeft = Some (iter_at ?g j, cell')"
    and j: "pos_in ?d j" "j \<noteq> lin ?d e" "j \<noteq> lin ?d e + 1"
    by (auto simp: i(3))
  obtain state where state: "d_start (lz_dfa ?re) (lz_match_all ?re) = Some state" using assms(6) by (auto simp: silent_def)
  have "search_loop t ?re e \<lparr>ss_iter = iter_at ?g j, ss_scan = (state, 0, None), ss_done = False, ss_char = c_char cell',
      ss_last_wrapped = fl_contains (c_flags (g_cell ?g (unlin ?d j))) WRAPLINE, ss_point = unlin ?d j,
      ss_last_point = unlin ?d j\<rparr> = None"
    by (rule search_loop_never [where I = "beside t e"])
      (use beside_step [OF assms(1,4,6,7,3)] j in \<open>auto simp: beside_def scan_match_def\<close>)
  then have "regex_search_internal t s e ?re = None"
    using state i cell_get_at [OF assms(1), unfolded d, OF i(2)] cell_get_at [OF assms(1), unfolded d, OF j(1)] sk
    by (simp add: regex_search_internal_def iter_cell_def Let_def d assms(7))
  then show ?thesis by (simp add: regex_search_left_def search_point_def)
qed

subsection \<open>Matches on a grid without wide characters\<close>

definition narrow :: "terminal \<Rightarrow> bool" where
  "narrow t \<longleftrightarrow> (\<forall>p. in_grid (t_dims t) p \<longrightarrow>
     \<not> fl_intersects (c_flags (g_cell (t_grid t) p)) (WIDE_CHAR OR WIDE_CHAR_SPACER OR LEADING_WIDE_CHAR_SPACER))"

lemma or_is_zero: "x OR y = (0 :: 'a::len word) \<longleftrightarrow> x = 0 \<and> y = 0"
  by (auto simp: bit_eq_iff bit_simps)

lemma narrow_flags:
  assumes "narrow t" "in_grid (t_dims t) p"
  shows "\<not> fl_contains (c_flags (g_cell (t_grid t) p)) WIDE_CHAR" "\<not> fl_contains (c_flags (g_cell (t_grid t) p)) WIDE_CHAR_SPACER"
    "\<not> fl_contains (c_flags (g_cell (t_grid t) p)) LEADING_WIDE_CHAR_SPACER"
    "\<not> fl_intersects (c_flags (g_cell (t_grid t) p)) (WIDE_CHAR OR WIDE_CHAR_SPACER)"
proof -
  let ?f = "c_flags (g_cell (t_grid t) p)"
  have n: "?f AND (WIDE_CHAR OR WIDE_CHAR_SPACER OR LEADING_WIDE_CHAR_SPACER) = 0"
    using assms by (simp add: narrow_def fl_intersects_def)
  then have z: "?f AND WIDE_CHAR = 0" "?f AND WIDE_CHAR_SPACER = 0" "?f AND LEADING_WIDE_CHAR_SPACER = 0"
    by (simp_all add: bit.conj_disj_distrib or_is_zero)
  show "\<not> fl_contains ?f WIDE_CHAR" "\<not> fl_contains ?f WIDE_CHAR_SPACER" "\<not> fl_contains ?f LEADING_WIDE_CHAR_SPACER"
    unfolding fl_contains_def z by (simp_all add: flag_simps)
  show "\<not> fl_intersects ?f (WIDE_CHAR OR WIDE_CHAR_SPACER)" by (simp add: fl_intersects_def bit.conj_disj_distrib z)
qed

text \<open>The search stays on the path from its start to its end.\<close>

definition to_go :: "terminal \<Rightarrow> direction \<Rightarrow> point \<Rightarrow> point \<Rightarrow> int" where
  "to_go t dir e p = path_dist (t_dims t) dir (lin (t_dims t) e) (lin (t_dims t) p)"

lemma narrow_search:
  assumes g: "grid_core_ok (t_grid t)" and n: "narrow t" and s: "in_grid (t_dims t) s" and e: "in_grid (t_dims t) e"
    and st: "d_start (lz_dfa re) (lz_match_all re) \<noteq> None"
  shows "returns (search_point t s e re)
    (pred_option (\<lambda>p. in_grid (t_dims t) p \<and> to_go t (lz_direction re) e p \<le> to_go t (lz_direction re) e s))"
proof -
  let ?d = "t_dims t" and ?dir = "lz_direction re"
  let ?Q = "\<lambda>p. in_grid ?d p \<and> to_go t ?dir e p \<le> to_go t ?dir e s"
  have d: "grid_dims (t_grid t) = ?d" by (simp add: t_dims_def)
  have wf: "wf_dims ?d" using grid_core_ok_dims [OF g] by (simp add: d)
  have col: "0 < columns ?d" using wf by (simp add: wf_dims_def)
  have eg: "pos_in ?d (lin ?d e)" using iter_from_at(2) [OF g, of e] e by (simp add: d)
  have stay: "j = i" if "skip_range (t_grid t) (g_cell (t_grid t) p) ?dir i j" "in_grid ?d p" for i j p
    using that(1) narrow_flags [OF n that(2)] by (cases ?dir) (simp_all add: skip_range_def)
  have no: "\<not> end_skipped t e"
  proof
    assume h: "end_skipped t e"
    then have "pos_in ?d (lin ?d e - 1)" using eg by (auto simp: end_skipped_def pos_in_def)
    then show False using h narrow_flags(3) [OF n pos_in_unlin [OF wf]] by (simp add: end_skipped_def flag_at_def d)
  qed
  have closed: "search_closed t ?dir e ?Q"
    unfolding search_closed_def
  proof (intro allI impI)
    fix i j
    let ?a = "step_pos ?d ?dir i"
    assume h: "pos_in ?d i" "i \<noteq> lin ?d e" "?Q (unlin ?d i)" "skip_range (t_grid t) (g_cell (t_grid t) (unlin ?d ?a)) ?dir ?a j"
    note a = path_dist_step [OF eg h(1,2), of ?dir]
    have j: "j = ?a" by (rule stay [OF h(4) pos_in_unlin [OF wf a(1)]])
    show "?Q (unlin ?d j)"
      using h(3) a pos_in_unlin [OF wf a(1)] by (simp add: j to_go_def lin_unlin [OF col])
  qed
  have "returns (regex_search_internal t s e re) (\<lambda>r. case r of Inl _ \<Rightarrow> True | Inr m \<Rightarrow> pred_option ?Q m)"
  proof (rule search_internal_returns [OF g s e no st closed])
    fix j assume "skip_range (t_grid t) (g_cell (t_grid t) s) ?dir (lin ?d s) j"
    then have "j = lin ?d s" using stay s by blast
    then show "?Q (unlin ?d j)" using s iter_from_at(3) [OF g, of s] by (simp add: d)
  qed
  then show ?thesis
    unfolding search_point_def returns_bind by (rule returns_mono) (auto split: sum.splits)
qed

definition regex_ok :: "'q regex_search \<Rightarrow> bool" where
  "regex_ok rx \<longleftrightarrow>
     lz_direction (rx_left_fdfa rx) = DirLeft \<and> lz_direction (rx_left_rdfa rx) = DirRight
     \<and> lz_direction (rx_right_rdfa rx) = DirLeft \<and> lz_direction (rx_right_fdfa rx) = DirRight
     \<and> (\<forall>re \<in> {rx_left_fdfa rx, rx_left_rdfa rx, rx_right_rdfa rx, rx_right_fdfa rx}.
          d_start (lz_dfa re) (lz_match_all re) \<noteq> None)"

text \<open>The automata of a new search have their directions, when every automaton has its start states.\<close>

lemma regex_search_new_ok:
  assumes "regex_search_new build has_empty = Some rx" "\<And>dir all dfa anchored. build dir all = Some dfa \<Longrightarrow> d_start dfa anchored \<noteq> None"
  shows "regex_ok rx"
  using assms(1) assms(2) by (auto simp: regex_search_new_def lazy_dfa_new_def regex_ok_def Let_def bind_eq_Some_conv)

lemma path_between:
  assumes "pos_in d e" "pos_in d s" "pos_in d m" "pos_in d b"
    and "path_dist d dir e m \<le> path_dist d dir e s"
    and "path_dist d dir' s b \<le> path_dist d dir' s m" and "dir' \<noteq> dir"
  shows "path_dist d dir e m \<le> path_dist d dir e b \<and> path_dist d dir e b \<le> path_dist d dir e s"
  using assms by (cases dir; cases dir') (auto simp: path_dist_def pos_in_def Let_def split: if_splits)

definition on_path :: "terminal \<Rightarrow> direction \<Rightarrow> point \<Rightarrow> point \<Rightarrow> regex_match \<Rightarrow> bool" where
  "on_path t dir e s m \<longleftrightarrow> in_grid (t_dims t) (fst m) \<and> in_grid (t_dims t) (snd m)
     \<and> to_go t dir e (match_side m dir) \<le> to_go t dir e (match_side m (opposite dir))
     \<and> to_go t dir e (match_side m (opposite dir)) \<le> to_go t dir e s"

lemma next_match_narrow:
  assumes g: "grid_core_ok (t_grid t)" and n: "narrow t" and rx: "regex_ok rx"
    and s: "in_grid (t_dims t) (ri_point ri)" and e: "in_grid (t_dims t) (ri_end ri)"
  shows "returns (regex_next_match t rx ri) (pred_option (on_path t (ri_direction ri) (ri_end ri) (ri_point ri)))"
proof -
  have d: "grid_dims (t_grid t) = t_dims t" by (simp add: t_dims_def)
  have lin: "pos_in (t_dims t) (lin (t_dims t) p)" if "in_grid (t_dims t) p" for p
    using iter_from_at(2) [OF g, of p] that by (simp add: d)
  note search = narrow_search [OF g n]
  note between = path_between [OF lin lin lin lin, of e s]
  have st: "d_start (lz_dfa re) (lz_match_all re) \<noteq> None"
    if "re \<in> {rx_left_fdfa rx, rx_left_rdfa rx, rx_right_rdfa rx, rx_right_fdfa rx}" for re
    using that rx unfolding regex_ok_def by blast
  have dirs: "lz_direction (rx_left_fdfa rx) = DirLeft" "lz_direction (rx_left_rdfa rx) = DirRight"
    "lz_direction (rx_right_rdfa rx) = DirLeft" "lz_direction (rx_right_fdfa rx) = DirRight"
    using rx by (simp_all add: regex_ok_def)
  show ?thesis
  proof (cases "ri_direction ri")
    case DirRight
    obtain r where r: "search_point t (ri_point ri) (ri_end ri) (rx_right_fdfa rx) = Some r"
      "pred_option (\<lambda>p. in_grid (t_dims t) p \<and> to_go t DirRight (ri_end ri) p \<le> to_go t DirRight (ri_end ri) (ri_point ri)) r"
      using search [OF s e st, of "rx_right_fdfa rx"] by (auto simp: returns_def dirs)
    show ?thesis
    proof (cases r)
      case None
      then show ?thesis using r by (simp add: DirRight regex_next_match_def regex_search_right_def)
    next
      case (Some b)
      then have b: "in_grid (t_dims t) b" "to_go t DirRight (ri_end ri) b \<le> to_go t DirRight (ri_end ri) (ri_point ri)" using r by auto
      obtain q where q: "search_point t b (ri_point ri) (rx_right_rdfa rx) = Some q"
        "pred_option (\<lambda>p. in_grid (t_dims t) p \<and> to_go t DirLeft (ri_point ri) p \<le> to_go t DirLeft (ri_point ri) b) q"
        using search [OF b(1) s st, of "rx_right_rdfa rx"] by (auto simp: returns_def dirs)
      have "on_path t DirRight (ri_end ri) (ri_point ri) (a, b)" if "q = Some a" for a
        using that q(2) b path_between [OF lin [OF e] lin [OF s] lin [OF b(1)] lin, of a DirRight DirLeft]
        by (auto simp: on_path_def match_side_def to_go_def)
      then show ?thesis using r(1) q(1) Some by (cases q) (auto simp: DirRight regex_next_match_def regex_search_right_def)
    qed
  next
    case DirLeft
    obtain r where r: "search_point t (ri_point ri) (ri_end ri) (rx_left_fdfa rx) = Some r"
      "pred_option (\<lambda>p. in_grid (t_dims t) p \<and> to_go t DirLeft (ri_end ri) p \<le> to_go t DirLeft (ri_end ri) (ri_point ri)) r"
      using search [OF s e st, of "rx_left_fdfa rx"] by (auto simp: returns_def dirs)
    show ?thesis
    proof (cases r)
      case None
      then show ?thesis using r by (simp add: DirLeft regex_next_match_def regex_search_left_def)
    next
      case (Some a)
      then have a: "in_grid (t_dims t) a" "to_go t DirLeft (ri_end ri) a \<le> to_go t DirLeft (ri_end ri) (ri_point ri)" using r by auto
      obtain q where q: "search_point t a (ri_point ri) (rx_left_rdfa rx) = Some q"
        "pred_option (\<lambda>p. in_grid (t_dims t) p \<and> to_go t DirRight (ri_point ri) p \<le> to_go t DirRight (ri_point ri) a) q"
        using search [OF a(1) s st, of "rx_left_rdfa rx"] by (auto simp: returns_def dirs)
      have "on_path t DirLeft (ri_end ri) (ri_point ri) (a, b)" if "q = Some b" for b
        using that q(2) a path_between [OF lin [OF e] lin [OF s] lin [OF a(1)] lin, of b DirLeft DirRight]
        by (auto simp: on_path_def match_side_def to_go_def)
      then show ?thesis using r(1) q(1) Some by (cases q) (auto simp: DirLeft regex_next_match_def regex_search_left_def)
    qed
  qed
qed

subsection \<open>The iterator\<close>

lemma clamp_none_in: "wf_dims d \<Longrightarrow> topmost_line d \<le> l \<Longrightarrow> l \<le> bottommost_line d \<Longrightarrow> line_grid_clamp d BNone l = l"
  by (simp add: irem_nonpos bottommost_line_def topmost_line_def history_size_def wf_dims_def mod_pos_pos_trivial)

lemma clamp_none_over:
  assumes "wf_dims d"
  shows "line_grid_clamp d BNone (bottommost_line d + 1) = topmost_line d"
    "line_grid_clamp d BNone (topmost_line d - 1) = bottommost_line d"
proof -
  have "topmost_line d - 1 - int (screen_lines d) + 1 = - int (total_lines d)" "0 < total_lines d"
    using assms by (simp_all add: topmost_line_def history_size_def wf_dims_def)
  then show "line_grid_clamp d BNone (topmost_line d - 1) = bottommost_line d"
    by (simp add: irem_nonpos topmost_line_def)
  show "line_grid_clamp d BNone (bottommost_line d + 1) = topmost_line d"
    by (simp add: bottommost_line_def irem_def)
qed

lemma ends_at:
  assumes "wf_dims d" "in_grid d p"
  shows "lin d p < last_lin d \<longleftrightarrow> \<not> (p_line p = bottommost_line d \<and> p_column p = last_column d)"
    "first_lin d < lin d p \<longleftrightarrow> \<not> (p_line p = topmost_line d \<and> p_column p = 0)"
proof -
  have u: "unlin d (lin d p) = p" "unlin d (last_lin d) = Point (bottommost_line d) (last_column d)"
    "unlin d (first_lin d) = Point (topmost_line d) 0"
    using assms by (simp_all add: in_grid_def first_lin_def last_lin_def last_column_def wf_dims_def)
  have b: "lin d p \<le> last_lin d" "first_lin d \<le> lin d p" using assms in_grid_lin by simp_all
  have "lin d p = last_lin d \<longleftrightarrow> p = Point (bottommost_line d) (last_column d)"
    using u by (metis last_lin_def)
  then show "lin d p < last_lin d \<longleftrightarrow> \<not> (p_line p = bottommost_line d \<and> p_column p = last_column d)"
    using b(1) by (cases p) auto
  have "lin d p = first_lin d \<longleftrightarrow> p = Point (topmost_line d) 0"
    using u by (metis first_lin_def)
  then show "first_lin d < lin d p \<longleftrightarrow> \<not> (p_line p = topmost_line d \<and> p_column p = 0)"
    using b(2) by (cases p) auto
qed

lemma unlin_Point: "p_column q < columns d \<Longrightarrow> lin d q = i \<Longrightarrow> unlin d i = q"
  using unlin_lin by blast

lemma wrap_forward:
  assumes wf: "wf_dims d" and p: "in_grid d p"
  shows "point_add d BNone 1 p = unlin d (step_pos d DirRight (lin d p))"
proof -
  obtain l c where lc: "p = Point l c" by (cases p)
  have b: "topmost_line d \<le> l" "l \<le> bottommost_line d" "c < columns d" "0 < columns d"
    using p wf by (auto simp: lc in_grid_def wf_dims_def)
  note at = ends_at(1) [OF wf p]
  consider (inner) "c + 1 < columns d" | (next_line) "c + 1 = columns d" "l < bottommost_line d"
    | (wrap) "c + 1 = columns d" "l = bottommost_line d" using b by linarith
  then show ?thesis
  proof cases
    case inner
    have lt: "lin d p < last_lin d" using at inner by (auto simp: lc last_column_def)
    have "unlin d (lin d p + 1) = Point l (c + 1)" by (rule unlin_Point) (use inner in \<open>simp_all add: lc lin_def\<close>)
    then show ?thesis
      using inner lt b clamp_none_in [OF wf b(1,2)]
      by (simp del: line_grid_clamp.simps add: step_pos_def point_add_def point_grid_clamp_def lc Let_def last_column_def)
  next
    case next_line
    have lt: "lin d p < last_lin d" using at next_line by (auto simp: lc)
    have "unlin d (lin d p + 1) = Point (l + 1) 0"
      by (rule unlin_Point) (use next_line in \<open>auto simp: lc lin_def algebra_simps\<close>)
    then show ?thesis
      using next_line lt b clamp_none_in [OF wf, of "l + 1"]
      by (simp del: line_grid_clamp.simps add: step_pos_def point_add_def point_grid_clamp_def lc Let_def last_column_def)
  next
    case wrap
    have lt: "\<not> lin d p < last_lin d" using at wrap by (auto simp: lc last_column_def)
    have "unlin d (first_lin d) = Point (topmost_line d) 0" using b by (simp add: first_lin_def)
    then show ?thesis
      using wrap lt b clamp_none_over(1) [OF wf]
      by (simp del: line_grid_clamp.simps add: step_pos_def point_add_def point_grid_clamp_def lc Let_def last_column_def)
  qed
qed

lemma wrap_backward:
  assumes wf: "wf_dims d" and p: "in_grid d p"
  shows "point_sub d BNone 1 p = unlin d (step_pos d DirLeft (lin d p))"
proof -
  obtain l c where lc: "p = Point l c" by (cases p)
  have b: "topmost_line d \<le> l" "l \<le> bottommost_line d" "c < columns d" "0 < columns d"
    using p wf by (auto simp: lc in_grid_def wf_dims_def)
  note at = ends_at(2) [OF wf p]
  have bk: "(1 + columns d - 1 - c) div columns d = (if c = 0 then 1 else 0)"
    "(columns d + c - 1 mod columns d) mod columns d = (if c = 0 then columns d - 1 else c - 1)"
    using b by (auto simp: mod_if div_if)
  consider (inner) "0 < c" | (prev_line) "c = 0" "topmost_line d < l"
    | (wrap) "c = 0" "l = topmost_line d" using b by linarith
  then show ?thesis
  proof cases
    case inner
    have lt: "first_lin d < lin d p" using at inner by (auto simp: lc)
    have "unlin d (lin d p - 1) = Point l (c - 1)" by (rule unlin_Point) (use inner b in \<open>auto simp: lc lin_def of_nat_diff\<close>)
    then show ?thesis
      using inner lt b clamp_none_in [OF wf b(1,2)] bk
      by (simp del: line_grid_clamp.simps add: step_pos_def point_sub_def point_grid_clamp_def lc Let_def last_column_def)
  next
    case prev_line
    have lt: "first_lin d < lin d p" using at prev_line by (auto simp: lc)
    have "unlin d (lin d p - 1) = Point (l - 1) (columns d - 1)"
      by (rule unlin_Point) (use prev_line b in \<open>auto simp: lc lin_def algebra_simps of_nat_diff\<close>)
    then show ?thesis
      using prev_line lt b clamp_none_in [OF wf, of "l - 1"] bk
      by (simp del: line_grid_clamp.simps add: step_pos_def point_sub_def point_grid_clamp_def lc Let_def last_column_def)
  next
    case wrap
    have lt: "\<not> first_lin d < lin d p" using at wrap by (auto simp: lc)
    have "unlin d (last_lin d) = Point (bottommost_line d) (columns d - 1)" using b by (simp add: last_lin_def last_column_def)
    then show ?thesis
      using wrap lt b clamp_none_over(2) [OF wf] bk
      by (simp del: line_grid_clamp.simps add: step_pos_def point_sub_def point_grid_clamp_def lc Let_def last_column_def)
  qed
qed

lemma skip_narrow:
  assumes g: "grid_core_ok (t_grid t)" and n: "narrow t" and p: "in_grid (t_dims t) (ri_point ri)"
    and e: "in_grid (t_dims t) (ri_end ri)" and ne: "ri_point ri \<noteq> ri_end ri"
  shows "\<exists>q. regex_iter_skip t ri = Some (ri\<lparr>ri_point := q\<rparr>) \<and> in_grid (t_dims t) q
    \<and> to_go t (ri_direction ri) (ri_end ri) q = to_go t (ri_direction ri) (ri_end ri) (ri_point ri) - 1"
proof -
  let ?d = "t_dims t" and ?p = "ri_point ri" and ?dir = "ri_direction ri"
  have d: "grid_dims (t_grid t) = ?d" by (simp add: t_dims_def)
  have wf: "wf_dims ?d" using grid_core_ok_dims [OF g] by (simp add: d)
  have col: "0 < columns ?d" using wf by (simp add: wf_dims_def)
  have i: "pos_in ?d (lin ?d ?p)" "pos_in ?d (lin ?d (ri_end ri))" "lin ?d ?p \<noteq> lin ?d (ri_end ri)"
    using iter_from_at(2,3) [OF g, of ?p] iter_from_at(2,3) [OF g, of "ri_end ri"] p e ne by (auto simp: d dest: arg_cong [of _ _ "unlin ?d"])
  have "expand_wide t ?p ?dir = Some ?p"
    using grid_get_cell [OF g, of ?p] p narrow_flags [OF n p] by (cases ?dir) (simp_all add: expand_wide_def d)
  then have "regex_iter_skip t ri = Some (ri\<lparr>ri_point := unlin ?d (step_pos ?d ?dir (lin ?d ?p))\<rparr>)"
    using wrap_forward [OF wf p] wrap_backward [OF wf p] by (cases ?dir) (simp_all add: regex_iter_skip_def)
  then show ?thesis
    using path_dist_step [OF i(2,1,3), of ?dir] pos_in_unlin [OF wf] by (auto simp: to_go_def lin_unlin [OF col])
qed

definition iter_measure :: "terminal \<Rightarrow> regex_iter \<Rightarrow> nat" where
  "iter_measure t ri = (if ri_done ri then 0 else nat (to_go t (ri_direction ri) (ri_end ri) (ri_point ri)) + 1)"

definition iter_inv :: "terminal \<Rightarrow> regex_iter \<Rightarrow> bool" where
  "iter_inv t ri \<longleftrightarrow> in_grid (t_dims t) (ri_point ri) \<and> in_grid (t_dims t) (ri_end ri)"

text \<open>A match is on the path that is left, and the iterator goes on behind the end of the match, or is done.\<close>

lemma iter_next_narrow:
  assumes g: "grid_core_ok (t_grid t)" and n: "narrow t" and rx: "regex_ok rx" and ri: "iter_inv t ri"
  shows "returns (regex_iter_next t rx ri) (\<lambda>(ri', r). case r of
      None \<Rightarrow> True
    | Some m \<Rightarrow> on_path t (ri_direction ri) (ri_end ri) (ri_point ri) m \<and> iter_inv t ri'
        \<and> ri_end ri' = ri_end ri \<and> ri_direction ri' = ri_direction ri \<and> iter_measure t ri' < iter_measure t ri
        \<and> (ri_done ri' \<or> to_go t (ri_direction ri) (ri_end ri) (ri_point ri') < to_go t (ri_direction ri) (ri_end ri) (snd m)))"
proof (cases "ri_done ri")
  case True
  then show ?thesis by (simp add: regex_iter_next_def)
next
  case False
  define ri1 where "ri1 = (if ri_point ri = ri_end ri then ri\<lparr>ri_done := True\<rparr> else ri)"
  have ri1: "ri_point ri1 = ri_point ri" "ri_end ri1 = ri_end ri" "ri_direction ri1 = ri_direction ri" by (simp_all add: ri1_def)
  have p: "in_grid (t_dims t) (ri_point ri)" "in_grid (t_dims t) (ri_end ri)" using ri by (simp_all add: iter_inv_def)
  obtain r where r: "regex_next_match t rx ri1 = Some r" "pred_option (on_path t (ri_direction ri) (ri_end ri) (ri_point ri)) r"
    using next_match_narrow [OF g n rx, of ri1] p by (auto simp: returns_def ri1)
  show ?thesis
  proof (cases r)
    case None
    then show ?thesis using r False by (simp add: regex_iter_next_def ri1_def [symmetric] Let_def)
  next
    case (Some m)
    then have m: "on_path t (ri_direction ri) (ri_end ri) (ri_point ri) m" using r by simp
    have b: "in_grid (t_dims t) (snd m)"
      "to_go t (ri_direction ri) (ri_end ri) (snd m) \<le> to_go t (ri_direction ri) (ri_end ri) (ri_point ri)"
      using m by (cases "ri_direction ri"; auto simp: on_path_def match_side_def)+
    let ?ri2 = "ri1\<lparr>ri_point := snd m\<rparr>"
    show ?thesis
    proof (cases "snd m = ri_end ri")
      case True
      have "regex_iter_next t rx ri = Some (?ri2\<lparr>ri_done := True\<rparr>, Some m)"
        using r Some False True by (simp add: regex_iter_next_def ri1_def [symmetric] Let_def ri1)
      then show ?thesis using m p b False by (simp add: iter_inv_def iter_measure_def ri1)
    next
      case ne: False
      obtain q where q: "regex_iter_skip t ?ri2 = Some (?ri2\<lparr>ri_point := q\<rparr>)" "in_grid (t_dims t) q"
        "to_go t (ri_direction ri) (ri_end ri) q = to_go t (ri_direction ri) (ri_end ri) (snd m) - 1"
        using skip_narrow [OF g n, of ?ri2] p b ne by (auto simp: ri1)
      have "0 \<le> to_go t (ri_direction ri) (ri_end ri) q"
        using path_dist_bounds iter_from_at(2) [OF g] p q(2) by (simp add: to_go_def t_dims_def)
      moreover have "regex_iter_next t rx ri = Some (?ri2\<lparr>ri_point := q\<rparr>, Some m)"
        using r Some False ne q(1) by (simp add: regex_iter_next_def ri1_def [symmetric] Let_def ri1)
      ultimately show ?thesis using m p b q(2,3) False by (simp add: iter_inv_def iter_measure_def ri1)
    qed
  qed
qed

lemma on_path_mono:
  "on_path t dir e s' m \<Longrightarrow> to_go t dir e s' \<le> to_go t dir e s \<Longrightarrow> on_path t dir e s m"
  by (simp add: on_path_def)

lemma iter_next_point:
  assumes "grid_core_ok (t_grid t)" "narrow t" "regex_ok rx" "iter_inv t ri" "regex_iter_next t rx ri = Some (ri', Some m)"
  shows "on_path t (ri_direction ri) (ri_end ri) (ri_point ri) m" "iter_inv t ri'" "ri_end ri' = ri_end ri"
    "ri_direction ri' = ri_direction ri" "iter_measure t ri' < iter_measure t ri"
    "ri_done ri' \<or> to_go t (ri_direction ri) (ri_end ri) (ri_point ri') < to_go t (ri_direction ri) (ri_end ri) (snd m)"
    "to_go t (ri_direction ri) (ri_end ri) (snd m) \<le> to_go t (ri_direction ri) (ri_end ri) (ri_point ri)"
proof -
  note s = returnsD [OF iter_next_narrow [OF assms(1-4)] assms(5), simplified]
  show "on_path t (ri_direction ri) (ri_end ri) (ri_point ri) m" "iter_inv t ri'" "ri_end ri' = ri_end ri"
    "ri_direction ri' = ri_direction ri" "iter_measure t ri' < iter_measure t ri"
    "ri_done ri' \<or> to_go t (ri_direction ri) (ri_end ri) (ri_point ri') < to_go t (ri_direction ri) (ri_end ri) (snd m)"
    using s by blast+
  show "to_go t (ri_direction ri) (ri_end ri) (snd m) \<le> to_go t (ri_direction ri) (ri_end ri) (ri_point ri)"
    using s by (cases "ri_direction ri") (auto simp: on_path_def match_side_def)
qed

text \<open>A finished iterator yields nothing more, so the bound holds for it as well.\<close>

lemma done_collect: "ri_done ri \<Longrightarrow> regex_iter_collect t rx ri = Some []"
  by (subst regex_iter_collect.simps) (simp add: regex_iter_next_def)

lemma collect_narrow:
  assumes g: "grid_core_ok (t_grid t)" and n: "narrow t" and rx: "regex_ok rx"
  shows "iter_inv t ri \<Longrightarrow> ri_direction ri = DirRight \<Longrightarrow>
    returns (regex_iter_collect t rx ri) (\<lambda>ms. (\<forall>m \<in> set ms. on_path t DirRight (ri_end ri) (ri_point ri) m)
      \<and> sorted_wrt (\<lambda>m m'. to_go t DirRight (ri_end ri) (fst m') < to_go t DirRight (ri_end ri) (snd m)) ms)"
proof (induction "iter_measure t ri" arbitrary: ri rule: less_induct)
  case less
  obtain ri' r where r: "regex_iter_next t rx ri = Some (ri', r)"
    using iter_next_narrow [OF g n rx less.prems(1)] by (auto simp: returns_def)
  show ?case
  proof (cases r)
    case None
    then show ?thesis using r by (subst regex_iter_collect.simps) simp
  next
    case (Some m)
    note nx = iter_next_point [OF g n rx less.prems(1) r [unfolded Some]]
    obtain ms where ms: "regex_iter_collect t rx ri' = Some ms" "\<forall>m \<in> set ms. on_path t DirRight (ri_end ri) (ri_point ri') m"
      "sorted_wrt (\<lambda>m m'. to_go t DirRight (ri_end ri) (fst m') < to_go t DirRight (ri_end ri) (snd m)) ms"
      using less.hyps [OF nx(5,2)] nx(3,4) less.prems(2) by (auto simp: returns_def)
    have "\<forall>m' \<in> set ms. on_path t DirRight (ri_end ri) (ri_point ri) m'
        \<and> to_go t DirRight (ri_end ri) (fst m') < to_go t DirRight (ri_end ri) (snd m)"
    proof (cases "ri_done ri'")
      case True
      then show ?thesis using done_collect [OF True, of t rx] ms(1) by simp
    next
      case False
      then show ?thesis using nx(6,7) ms(2) less.prems(2) by (auto simp: on_path_def match_side_def)
    qed
    then show ?thesis
      using r Some ms nx(1) less.prems(2) by (subst regex_iter_collect.simps) simp
  qed
qed


lemma find_narrow:
  assumes g: "grid_core_ok (t_grid t)" and n: "narrow t" and rx: "regex_ok rx"
  shows "iter_inv t ri \<Longrightarrow> returns (regex_iter_find P t rx ri)
    (pred_option (\<lambda>m. P m \<and> in_grid (t_dims t) (fst m) \<and> in_grid (t_dims t) (snd m)))"
proof (induction "iter_measure t ri" arbitrary: ri rule: less_induct)
  case less
  obtain ri' r where r: "regex_iter_next t rx ri = Some (ri', r)"
    using iter_next_narrow [OF g n rx less.prems(1)] by (auto simp: returns_def)
  show ?case
  proof (cases r)
    case None
    then show ?thesis using r by (subst regex_iter_find.simps) simp
  next
    case (Some m)
    note nx = iter_next_point [OF g n rx less.prems(1) r [unfolded Some]]
    show ?thesis
      using r Some nx(1) less.hyps [OF nx(5,2)] by (subst regex_iter_find.simps) (simp add: on_path_def)
  qed
qed

lemma find_or_first_narrow:
  assumes g: "grid_core_ok (t_grid t)" and n: "narrow t" and rx: "regex_ok rx" and ri: "iter_inv t ri"
  shows "returns (find_or_first P t rx ri) (pred_option (\<lambda>m. in_grid (t_dims t) (fst m) \<and> in_grid (t_dims t) (snd m)))"
proof -
  obtain ri' r where r: "regex_iter_next t rx ri = Some (ri', r)"
    using iter_next_narrow [OF g n rx ri] by (auto simp: returns_def)
  show ?thesis
  proof (cases r)
    case None
    then show ?thesis using r by (simp add: find_or_first_def)
  next
    case (Some m)
    note nx = iter_next_point [OF g n rx ri r [unfolded Some]]
    have m: "in_grid (t_dims t) (fst m)" "in_grid (t_dims t) (snd m)" using nx(1) by (simp_all add: on_path_def)
    obtain f where f: "regex_iter_find P t rx ri' = Some f" "pred_option (\<lambda>m. P m \<and> in_grid (t_dims t) (fst m) \<and> in_grid (t_dims t) (snd m)) f"
      using find_narrow [OF g n rx nx(2), of P] by (auto simp: returns_def)
    show ?thesis using r Some m f by (cases f) (simp_all add: find_or_first_def)
  qed
qed

lemma clamped_line: "wf_dims d \<Longrightarrow> c < columns d \<Longrightarrow> in_grid d (Point (line_grid_clamp d b l) c)"
  using line_clamp_range [of d b l] by (simp add: in_grid_def)

lemma line_ends_in_grid:
  assumes "wf_term t" "in_grid (t_dims t) p"
  shows "returns (line_search_left t p) (in_grid (t_dims t))" "returns (line_search_right t p) (in_grid (t_dims t))"
proof -
  have wf: "wf_dims (t_dims t)" using assms(1) grid_core_ok_dims [OF wf_core] by (simp add: t_dims_def)
  have p: "topmost_line (t_dims t) \<le> p_line p" "p_line p \<le> bottommost_line (t_dims t)" using assms(2) by (auto simp: in_grid_def)
  have c: "0 < columns (t_dims t)" "last_column (t_dims t) < columns (t_dims t)" using wf by (auto simp: wf_dims_def last_column_def)
  show "returns (line_search_left t p) (in_grid (t_dims t))"
    unfolding line_search_left_def returns_bind
    by (rule returns_mono [OF line_search_up_returns [OF assms(1) p]]) (use p c in \<open>auto simp: in_grid_def\<close>)
  show "returns (line_search_right t p) (in_grid (t_dims t))"
    unfolding line_search_right_def returns_bind
    by (rule returns_mono [OF line_search_down_returns [OF assms(1) p]]) (use p c in \<open>auto simp: in_grid_def\<close>)
qed


subsection \<open>Concrete searches\<close>

text \<open>An automaton for the expression that is one space, with the delay of one byte with which matches are reported, and one
  that matches nothing.\<close>

definition space_dfa :: "nat dfa" where
  "space_dfa = \<lparr>d_start = (\<lambda>_. Some 0),
     d_next = (\<lambda>q b. Some (if q = 0 then (if b = 32 then 1 else 0) else if q = 1 then 2 else 3)),
     d_eoi = (\<lambda>q. Some (if q = 1 then 2 else q)), d_match = (\<lambda>q. q = 2), d_dead = (\<lambda>q. q = 3)\<rparr>"

definition mute_dfa :: "nat dfa" where
  "mute_dfa = \<lparr>d_start = (\<lambda>_. Some 0), d_next = (\<lambda>q b. Some 0), d_eoi = Some, d_match = (\<lambda>_. False), d_dead = (\<lambda>_. False)\<rparr>"

definition demo_regex :: "nat dfa \<Rightarrow> nat regex_search" where
  "demo_regex dfa = the (regex_search_new (\<lambda>_ _. Some dfa) (\<lambda>_. False))"

lemma demo_regex_new: "regex_search_new (\<lambda>_ _. Some dfa) (\<lambda>_. False) = Some (demo_regex dfa)"
  by (simp add: demo_regex_def regex_search_new_def lazy_dfa_new_def Let_def)

lemma space_regex_ok: "regex_ok (demo_regex space_dfa)"
  by (rule regex_search_new_ok [OF demo_regex_new]) (auto simp: space_dfa_def)

lemma mute_regex: "silent (rx_left_fdfa (demo_regex mute_dfa))" "lz_direction (rx_left_fdfa (demo_regex mute_dfa)) = DirLeft"
  by (simp_all add: demo_regex_def regex_search_new_def lazy_dfa_new_def Let_def silent_def mute_dfa_def)

lemma demo_no_wide_cells: "narrow demo_term"
  using demo_cell by (simp add: narrow_def t_dims_def default_cell_def)

text \<open>A terminal of two lines and three columns after the characters \<^verbatim>\<open>a\<close>, \<^verbatim>\<open>b\<close> and a wide one.\<close>

definition wrapped_rows :: "cell row list" where
  "wrapped_rows =
     [\<lparr>row_inner = [default_cell\<lparr>c_char := 0x4E2D, c_flags := WIDE_CHAR\<rparr>, default_cell\<lparr>c_flags := WIDE_CHAR_SPACER\<rparr>, default_cell],
       row_occ = 3\<rparr>,
      \<lparr>row_inner = [default_cell\<lparr>c_char := 97\<rparr>, default_cell\<lparr>c_char := 98\<rparr>,
         default_cell\<lparr>c_flags := LEADING_WIDE_CHAR_SPACER OR WRAPLINE\<rparr>], row_occ = 3\<rparr>]"

definition wrapped_term :: terminal where
  "wrapped_term = demo_term\<lparr>t_grid :=
     \<lparr>g_cursor = default_cursor, g_saved_cursor = default_cursor,
      g_raw = \<lparr>st_inner = wrapped_rows, st_zero = 0, st_visible_lines = 2, st_len = 2\<rparr>,
      g_columns = 3, g_lines = 2, g_display_offset = 0, g_max_scroll_limit = 0, g_auto_scroll_enabled = True\<rparr>\<rparr>"

lemma wrapped_core: "grid_core_ok (t_grid wrapped_term)"
  by (simp add: wrapped_term_def grid_core_ok_def storage_ok_def wrapped_rows_def row_ok_def grid_dims_def history_size_def)

lemma wrapped_dims: "t_dims wrapped_term = \<lparr>total_lines = 2, screen_lines = 2, columns = 3\<rparr>"
  by (simp add: wrapped_term_def t_dims_def grid_dims_def)

lemma wrapped_in_grid: "in_grid (t_dims wrapped_term) (Point 1 2)" "in_grid (t_dims wrapped_term) (Point 1 0)"
  by (simp_all add: wrapped_dims in_grid_def dims_defs)

lemma wrapped_cells: "wrapped_wide wrapped_term (Point 1 0)"
proof -
  have d: "grid_dims (t_grid wrapped_term) = t_dims wrapped_term" by (simp add: t_dims_def)
  have u: "unlin (t_dims wrapped_term) 2 = Point 0 2" "unlin (t_dims wrapped_term) 3 = Point 1 0"
    "unlin (t_dims wrapped_term) 4 = Point 1 (Suc 0)" "unlin (t_dims wrapped_term) 5 = Point 1 2"
    by (simp_all add: unlin_def wrapped_dims)
  have c: "c_flags (g_cell (t_grid wrapped_term) (Point 0 2)) = LEADING_WIDE_CHAR_SPACER OR WRAPLINE"
    "c_flags (g_cell (t_grid wrapped_term) (Point 1 0)) = WIDE_CHAR"
    "c_flags (g_cell (t_grid wrapped_term) (Point 1 (Suc 0))) = WIDE_CHAR_SPACER"
    "c_flags (g_cell (t_grid wrapped_term) (Point 1 2)) = 0"
    by (simp_all add: g_cell_def g_row_def st_row_def st_pos_def wrapped_term_def wrapped_rows_def default_cell_def)
  have l: "lin (t_dims wrapped_term) (Point 1 0) = 3" "first_lin (t_dims wrapped_term) = 0" "last_lin (t_dims wrapped_term) = 5"
    by (simp_all add: wrapped_dims lin_def first_lin_def last_lin_def dims_defs)
  show ?thesis
    by (simp add: wrapped_wide_def Let_def l flag_at_def d u c fl_contains_def flag_simps)
qed


theorem left_search_runs_forever_witness:
  "regex_search_left wrapped_term (demo_regex mute_dfa) (Point 1 2) (Point 1 0) = None"
  by (rule left_search_runs_forever [OF wrapped_core wrapped_in_grid wrapped_cells _ mute_regex]) simp



end
