(* ===== verification/Hints.thy ===== *)
theory Hints
  imports Regex_Search Term_Text Bindings
begin

text \<open>
  Keyboard hints: \<^verbatim>\<open>velacritty/src/display/hint.rs\<close>, with the configuration of a hint from \<^verbatim>\<open>config/ui_config.rs\<close>. The labels of
  the hints, the visible matches of an expression or of hyperlinks, the heuristics that shorten a match, and the selection
  of a hint by its label. \<open>build\<close> compiles an expression (\<^verbatim>\<open>RegexSearch::new\<close>). \<open>None\<close> is a panic or a loop that does not end.
\<close>

definition MAX_SEARCH_LINES :: int where
  "MAX_SEARCH_LINES = 100"

subsection \<open>Labels\<close>

record hint_labels =
  hl_alphabet :: "uchar list"
  hl_indices :: "nat list"
  hl_split_point :: nat

text \<open>The split is at half of the alphabet: \<^verbatim>\<open>HINT_SPLIT_PERCENTAGE\<close> is 0.5, and the product is truncated.\<close>

definition hint_labels_new :: "uchar list \<Rightarrow> hint_labels option" where
  "hint_labels_new alphabet = do {
     n \<leftarrow> usub (length alphabet) 1;
     Some \<lparr>hl_alphabet = alphabet, hl_indices = [0], hl_split_point = n div 2\<rparr>
   }"

fun increment_others :: "nat \<Rightarrow> nat \<Rightarrow> nat list \<Rightarrow> nat list" where
  "increment_others split len [] = [split + 1]"
| "increment_others split len (i # is) = (if i + 1 = len then (split + 1) # increment_others split len is else (i + 1) # is)"

definition label_increment :: "hint_labels \<Rightarrow> hint_labels option" where
  "label_increment l =
     (case hl_indices l of
        [] \<Rightarrow> None
      | i # is \<Rightarrow>
          Some (l\<lparr>hl_indices := (if i < hl_split_point l then (i + 1) # is
                                 else 0 # increment_others (hl_split_point l) (length (hl_alphabet l)) is)\<rparr>))"

fun chars_at :: "uchar list \<Rightarrow> nat list \<Rightarrow> uchar list option" where
  "chars_at alphabet [] = Some []"
| "chars_at alphabet (i # is) = do { c \<leftarrow> vget alphabet i; cs \<leftarrow> chars_at alphabet is; Some (c # cs) }"

definition label_next :: "hint_labels \<Rightarrow> (hint_labels \<times> uchar list) option" where
  "label_next l = do {
     characters \<leftarrow> chars_at (hl_alphabet l) (rev (hl_indices l));
     l \<leftarrow> label_increment l;
     Some (l, characters)
   }"

text \<open>The first n labels.\<close>

fun label_list :: "nat \<Rightarrow> hint_labels \<Rightarrow> uchar list list option" where
  "label_list 0 l = Some []"
| "label_list (Suc n) l = do { (l, cs) \<leftarrow> label_next l; css \<leftarrow> label_list n l; Some (cs # css) }"

text \<open>The alphabets the configuration accepts: \<open>width\<close> is the width of a character.\<close>

definition alphabet_ok :: "(uchar \<Rightarrow> nat option) \<Rightarrow> uchar list \<Rightarrow> bool" where
  "alphabet_ok width alphabet \<longleftrightarrow> list_all (\<lambda>c. width c = Some 1) alphabet \<and> \<not> length alphabet < 2"

definition default_alphabet :: "uchar list" where
  "default_alphabet = lit ''jfkdls;ahgurieowpq''"

subsection \<open>Expressions compiled on demand\<close>

datatype 'q lazy_regex = Compiled ustring "'q regex_search" | Pattern ustring | Uncompilable ustring

definition lazy_compiled :: "(ustring \<Rightarrow> 'q regex_search option) \<Rightarrow> 'q lazy_regex \<Rightarrow> 'q lazy_regex \<times> 'q regex_search option" where
  "lazy_compiled build v =
     (case v of
        Compiled _ rx \<Rightarrow> (v, Some rx)
      | Uncompilable _ \<Rightarrow> (v, None)
      | Pattern regex \<Rightarrow>
          (case build regex of
             Some rx \<Rightarrow> (Compiled regex rx, Some rx)
           | None \<Rightarrow> (Uncompilable regex, None)))"

text \<open>The stored variant is only a cache: asking again gives the same answer. A hint therefore keeps its variant.\<close>

lemma lazy_compiled_again: "lazy_compiled build (fst (lazy_compiled build v)) = lazy_compiled build v"
  by (cases v) (auto simp: lazy_compiled_def split: option.splits)

definition with_compiled :: "(ustring \<Rightarrow> 'q regex_search option) \<Rightarrow> 'q lazy_regex \<Rightarrow> 'q regex_search option" where
  "with_compiled build v = snd (lazy_compiled build v)"

subsection \<open>Hints\<close>

datatype hint_internal_action = HintCopy | HintPaste | HintSelect | MoveViModeCursor

datatype hint_action = HintAction hint_internal_action | HintCommand program

record hint_mouse =
  hm_enabled :: bool
  hm_mods :: modifiers

record 'q hint =
  hn_regex :: "'q lazy_regex option"
  hn_hyperlinks :: bool
  hn_action :: hint_action
  hn_post_processing :: bool
  hn_persist :: bool
  hn_mouse :: "hint_mouse option"

record 'q hint_match =
  hx_bounds :: regex_match
  hx_hyperlink :: "hyperlink option"
  hx_hint :: "'q hint"

definition match_contains :: "regex_match \<Rightarrow> point \<Rightarrow> bool" where
  "match_contains m p \<longleftrightarrow> fst m \<le> p \<and> p \<le> snd m"

definition should_highlight :: "'q hint_match \<Rightarrow> point \<Rightarrow> hyperlink option \<Rightarrow> bool" where
  "should_highlight h p pointed \<longleftrightarrow>
     hx_hyperlink h = pointed \<and> (hx_hyperlink h \<noteq> None \<or> match_contains (hx_bounds h) p)"

subsection \<open>Visible matches\<close>

text \<open>The iterator over the matches: it first skips those that end before the viewport, then takes them up to the first one that
  starts behind it.\<close>

record visible_iter =
  vm_iter :: regex_iter
  vm_start :: int
  vm_end :: int
  vm_skipping :: bool

definition visible_matches_new :: "terminal \<Rightarrow> visible_iter option" where
  "visible_matches_new t = do {
     let viewport_start = - int (g_display_offset (t_grid t));
     let viewport_end = viewport_start + bottommost_line (t_dims t);
     s \<leftarrow> line_search_left t (Point viewport_start 0);
     e \<leftarrow> line_search_right t (Point viewport_end 0);
     let s = Point (max (p_line s) (viewport_start - MAX_SEARCH_LINES)) (p_column s);
     let e = Point (min (p_line e) (viewport_end + MAX_SEARCH_LINES)) (p_column e);
     Some \<lparr>vm_iter = regex_iter_new s e DirRight, vm_start = viewport_start, vm_end = viewport_end, vm_skipping = True\<rparr>
   }"

partial_function (option) visible_next :: "terminal \<Rightarrow> 'q regex_search \<Rightarrow> visible_iter \<Rightarrow> (visible_iter \<times> regex_match option) option" where
  "visible_next t rx v = do {
     (ri, r) \<leftarrow> regex_iter_next t rx (vm_iter v);
     case r of
       None \<Rightarrow> Some (v\<lparr>vm_iter := ri\<rparr>, None)
     | Some m \<Rightarrow>
         if vm_skipping v \<and> p_line (snd m) < vm_start v then visible_next t rx (v\<lparr>vm_iter := ri\<rparr>)
         else Some (v\<lparr>vm_iter := ri, vm_skipping := False\<rparr>, if p_line (fst m) \<le> vm_end v then Some m else None)
   }"

partial_function (option) visible_collect :: "terminal \<Rightarrow> 'q regex_search \<Rightarrow> visible_iter \<Rightarrow> regex_match list option" where
  "visible_collect t rx v = do {
     (v, r) \<leftarrow> visible_next t rx v;
     case r of None \<Rightarrow> Some [] | Some m \<Rightarrow> do { ms \<leftarrow> visible_collect t rx v; Some (m # ms) }
   }"

partial_function (option) visible_find :: "point \<Rightarrow> terminal \<Rightarrow> 'q regex_search \<Rightarrow> visible_iter \<Rightarrow> regex_match option option" where
  "visible_find p t rx v = do {
     (v, r) \<leftarrow> visible_next t rx v;
     case r of None \<Rightarrow> Some None | Some m \<Rightarrow> if match_contains m p then Some (Some m) else visible_find p t rx v
   }"

subsection \<open>Post-processing\<close>

text \<open>Counting the open brackets: \<open>None\<close> is a closing bracket without an open one.\<close>

definition count_bracket :: "uchar \<Rightarrow> int \<times> int \<Rightarrow> (int \<times> int) option" where
  "count_bracket c counts =
     (case counts of (parents, brackets) \<Rightarrow>
       if c = 40 then Some (parents + 1, brackets)
       else if c = 91 then Some (parents, brackets + 1)
       else if c = 41 then (if parents = 0 then None else Some (parents - 1, brackets))
       else if c = 93 then (if brackets = 0 then None else Some (parents, brackets - 1))
       else Some (parents, brackets))"

definition trailing_delimiter :: "uchar \<Rightarrow> bool" where
  "trailing_delimiter c \<longleftrightarrow> c \<in> set (lit ''.,:;?!(['' @ [39])"

partial_function (option) balance_loop :: "grid \<Rightarrow> point \<Rightarrow> int \<times> int \<Rightarrow> grid_iter \<Rightarrow> uchar \<Rightarrow> (grid_iter \<times> uchar) option" where
  "balance_loop g e counts it c =
     (case count_bracket c counts of
        None \<Rightarrow> do { (it, _) \<leftarrow> iter_prev g it; Some (it, c) }
      | Some counts \<Rightarrow>
          if it_point it = e then Some (it, c)
          else do {
            (it, r) \<leftarrow> iter_next g it;
            case r of None \<Rightarrow> Some (it, c) | Some (_, x) \<Rightarrow> balance_loop g e counts it (c_char x)
          })"

partial_function (option) trim_loop :: "grid \<Rightarrow> point \<Rightarrow> grid_iter \<Rightarrow> uchar \<Rightarrow> grid_iter option" where
  "trim_loop g s it c =
     (if it_point it = s \<or> \<not> trailing_delimiter c then Some it
      else do {
        (it, r) \<leftarrow> iter_prev g it;
        case r of None \<Rightarrow> Some it | Some (_, x) \<Rightarrow> trim_loop g s it (c_char x)
      })"

definition hint_post_processing :: "terminal \<Rightarrow> regex_match \<Rightarrow> regex_match option option" where
  "hint_post_processing t m = do {
     let it = iter_from (t_grid t) (fst m);
     x \<leftarrow> iter_cell (t_grid t) it;
     (it, c) \<leftarrow> balance_loop (t_grid t) (snd m) (0, 0) it (c_char x);
     it \<leftarrow> trim_loop (t_grid t) (fst m) it c;
     Some (if fst m > it_point it then None else Some (fst m, it_point it))
   }"

record post_processor =
  pp_next_match :: "regex_match option"
  pp_start :: point
  pp_end :: point

partial_function (option) next_processed_match :: "terminal \<Rightarrow> 'q regex_search \<Rightarrow> post_processor \<Rightarrow> regex_match \<Rightarrow> post_processor option" where
  "next_processed_match t rx pp m = do {
     r \<leftarrow> hint_post_processing t m;
     case r of
       Some next_match \<Rightarrow>
         Some (pp\<lparr>pp_start := point_add (t_dims t) BGrid 1 (snd next_match), pp_next_match := Some next_match\<rparr>)
     | None \<Rightarrow> do {
         let pp = pp\<lparr>pp_start := point_add (t_dims t) BGrid 1 (fst m)\<rparr>;
         if pp_start pp > pp_end pp then Some pp
         else do {
           rm \<leftarrow> regex_search_right t rx (pp_start pp) (pp_end pp);
           case rm of None \<Rightarrow> Some pp | Some m \<Rightarrow> next_processed_match t rx pp m
         }
       }
   }"

definition post_processor_new :: "terminal \<Rightarrow> 'q regex_search \<Rightarrow> regex_match \<Rightarrow> post_processor option" where
  "post_processor_new t rx m = next_processed_match t rx \<lparr>pp_next_match = None, pp_start = fst m, pp_end = snd m\<rparr> m"

definition post_processor_next :: "terminal \<Rightarrow> 'q regex_search \<Rightarrow> post_processor \<Rightarrow> (post_processor \<times> regex_match option) option" where
  "post_processor_next t rx pp =
     (case pp_next_match pp of
        None \<Rightarrow> Some (pp, None)
      | Some next_match \<Rightarrow> do {
          let pp = pp\<lparr>pp_next_match := None\<rparr>;
          pp \<leftarrow> (if pp_start pp \<le> pp_end pp
                 then do {
                   r \<leftarrow> regex_search_right t rx (pp_start pp) (pp_end pp);
                   case r of None \<Rightarrow> Some pp | Some rm \<Rightarrow> next_processed_match t rx pp rm
                 }
                 else Some pp);
          Some (pp, Some next_match)
        })"

partial_function (option) post_processor_collect :: "terminal \<Rightarrow> 'q regex_search \<Rightarrow> post_processor \<Rightarrow> regex_match list option" where
  "post_processor_collect t rx pp = do {
     (pp, r) \<leftarrow> post_processor_next t rx pp;
     case r of None \<Rightarrow> Some [] | Some m \<Rightarrow> do { ms \<leftarrow> post_processor_collect t rx pp; Some (m # ms) }
   }"

partial_function (option) post_processor_find :: "point \<Rightarrow> terminal \<Rightarrow> 'q regex_search \<Rightarrow> post_processor \<Rightarrow> regex_match option option" where
  "post_processor_find p t rx pp = do {
     (pp, r) \<leftarrow> post_processor_next t rx pp;
     case r of None \<Rightarrow> Some None | Some m \<Rightarrow> if match_contains m p then Some (Some m) else post_processor_find p t rx pp
   }"

declare balance_loop.simps [code] trim_loop.simps [code] next_processed_match.simps [code]
  post_processor_collect.simps [code] post_processor_find.simps [code]
  visible_next.simps [code] visible_collect.simps [code] visible_find.simps [code]

fun processed_matches :: "terminal \<Rightarrow> 'q regex_search \<Rightarrow> regex_match list \<Rightarrow> regex_match list option" where
  "processed_matches t rx [] = Some []"
| "processed_matches t rx (m # ms) = do {
     pp \<leftarrow> post_processor_new t rx m;
     xs \<leftarrow> post_processor_collect t rx pp;
     ys \<leftarrow> processed_matches t rx ms;
     Some (xs @ ys)
   }"

definition regex_match_at :: "terminal \<Rightarrow> point \<Rightarrow> 'q regex_search \<Rightarrow> bool \<Rightarrow> regex_match option option" where
  "regex_match_at t p rx post_processing = do {
     v \<leftarrow> visible_matches_new t;
     r \<leftarrow> visible_find p t rx v;
     case r of
       None \<Rightarrow> Some None
     | Some m \<Rightarrow>
         if post_processing then do { pp \<leftarrow> post_processor_new t rx m; post_processor_find p t rx pp }
         else Some (Some m)
   }"

subsection \<open>Hyperlinks\<close>

definition display_cells :: "terminal \<Rightarrow> (point \<times> cell) list option" where
  "display_cells t = do {
     r \<leftarrow> next_loop (t_grid t) (\<lambda>xs p x. Inl (xs @ [(p, x)]) :: (point \<times> cell) list + unit) [] (display_iter (t_grid t));
     Some (case r of Inl xs \<Rightarrow> xs | Inr _ \<Rightarrow> [])
   }"

function unique_hyperlinks :: "hyperlink list \<Rightarrow> (point \<times> cell) list \<Rightarrow> regex_match list" where
  "unique_hyperlinks seen [] = []"
| "unique_hyperlinks seen ((p, x) # xs) =
     (case hyperlink x of
        None \<Rightarrow> unique_hyperlinks seen xs
      | Some link \<Rightarrow>
          if link \<in> set seen then unique_hyperlinks seen xs
          else
            let same = (\<lambda>(_, y). hyperlink y = Some link);
                e = last (p # map fst (takeWhile same xs))
            in (p, e) # unique_hyperlinks (link # seen) (dropWhile same xs))"
  by pat_completeness auto
termination
  by (relation "measure (length \<circ> snd)") (auto simp: less_Suc_eq_le length_dropWhile_le)

definition visible_unique_hyperlinks :: "terminal \<Rightarrow> regex_match list option" where
  "visible_unique_hyperlinks t = do { xs \<leftarrow> display_cells t; Some (unique_hyperlinks [] xs) }"

definition same_link :: "hyperlink \<Rightarrow> point \<Rightarrow> point \<Rightarrow> cell \<Rightarrow> point + point" where
  "same_link link s p x = (if hyperlink x = Some link then Inl p else Inr s)"

definition loop_result :: "'a + 'a \<Rightarrow> 'a" where
  "loop_result r = (case r of Inl s \<Rightarrow> s | Inr s \<Rightarrow> s)"

definition hyperlink_at :: "terminal \<Rightarrow> point \<Rightarrow> (hyperlink \<times> regex_match) option option" where
  "hyperlink_at t p = do {
     x \<leftarrow> grid_get (t_grid t) p;
     case hyperlink x of
       None \<Rightarrow> Some None
     | Some link \<Rightarrow> do {
         e \<leftarrow> next_loop (t_grid t) (same_link link) p (iter_from (t_grid t) p);
         s \<leftarrow> prev_loop (t_grid t) (same_link link) p (iter_from (t_grid t) p);
         Some (Some (link, (loop_result s, loop_result e)))
       }
   }"

subsection \<open>The state of the hint selection\<close>

record 'q hint_state =
  hs_hint :: "'q hint option"
  hs_alphabet :: "uchar list"
  hs_matches :: "regex_match list"
  hs_labels :: "uchar list list"
  hs_keys :: "uchar list"

definition hint_state_new :: "uchar list \<Rightarrow> 'q hint_state" where
  "hint_state_new alphabet = \<lparr>hs_hint = None, hs_alphabet = alphabet, hs_matches = [], hs_labels = [], hs_keys = []\<rparr>"

definition hint_active :: "'q hint_state \<Rightarrow> bool" where
  "hint_active hs \<longleftrightarrow> hs_hint hs \<noteq> None"

definition hint_start :: "'q hint \<Rightarrow> 'q hint_state \<Rightarrow> 'q hint_state" where
  "hint_start hint hs = hs\<lparr>hs_hint := Some hint\<rparr>"

definition hint_stop :: "'q hint_state \<Rightarrow> 'q hint_state" where
  "hint_stop hs = hs\<lparr>hs_matches := [], hs_labels := [], hs_keys := [], hs_hint := None\<rparr>"

definition update_alphabet :: "uchar list \<Rightarrow> 'q hint_state \<Rightarrow> 'q hint_state" where
  "update_alphabet alphabet hs = (if hs_alphabet hs \<noteq> alphabet then hs\<lparr>hs_alphabet := alphabet, hs_keys := []\<rparr> else hs)"

text \<open>Matches are sorted by their start, the longest first, and only the first one of each start is kept.\<close>

definition match_before :: "regex_match \<Rightarrow> regex_match \<Rightarrow> bool" where
  "match_before m n \<longleftrightarrow> fst m < fst n \<or> (fst m = fst n \<and> snd m \<ge> snd n)"

fun insert_match :: "regex_match \<Rightarrow> regex_match list \<Rightarrow> regex_match list" where
  "insert_match m [] = [m]"
| "insert_match m (n # ns) = (if match_before m n then m # n # ns else n # insert_match m ns)"

definition sort_matches :: "regex_match list \<Rightarrow> regex_match list" where
  "sort_matches ms = foldr insert_match ms []"

fun dedup_starts :: "regex_match list \<Rightarrow> regex_match list" where
  "dedup_starts (m # n # ms) = (if fst m = fst n then dedup_starts (m # ms) else m # dedup_starts (n # ms))"
| "dedup_starts ms = ms"

definition regex_matches :: "terminal \<Rightarrow> (ustring \<Rightarrow> 'q regex_search option) \<Rightarrow> 'q hint \<Rightarrow> regex_match list option" where
  "regex_matches t build hint =
     (case Option.bind (hn_regex hint) (with_compiled build) of
        None \<Rightarrow> Some []
      | Some rx \<Rightarrow> do {
          v \<leftarrow> visible_matches_new t;
          ms \<leftarrow> visible_collect t rx v;
          if hn_post_processing hint then processed_matches t rx ms else Some ms
        })"

definition all_matches :: "terminal \<Rightarrow> (ustring \<Rightarrow> 'q regex_search option) \<Rightarrow> 'q hint \<Rightarrow> regex_match list option" where
  "all_matches t build hint = do {
     links \<leftarrow> (if hn_hyperlinks hint then visible_unique_hyperlinks t else Some []);
     ms \<leftarrow> regex_matches t build hint;
     Some (links @ ms)
   }"

text \<open>The label of a match without the keys already pressed, or no label.\<close>

definition rest_of_label :: "uchar list \<Rightarrow> uchar list \<Rightarrow> uchar list" where
  "rest_of_label keys label =
     (if length keys \<le> length label \<and> take (length keys) label = keys then drop (length keys) label else [])"

definition match_labels :: "uchar list \<Rightarrow> uchar list \<Rightarrow> nat \<Rightarrow> uchar list list option" where
  "match_labels alphabet keys n = do {
     l \<leftarrow> hint_labels_new alphabet;
     labels \<leftarrow> label_list n l;
     Some (rev (map (rest_of_label keys) labels))
   }"

definition update_matches :: "terminal \<Rightarrow> (ustring \<Rightarrow> 'q regex_search option) \<Rightarrow> 'q hint_state \<Rightarrow> 'q hint_state option" where
  "update_matches t build hs =
     (case hs_hint hs of
        None \<Rightarrow> Some hs
      | Some hint \<Rightarrow> do {
          ms \<leftarrow> all_matches t build hint;
          if ms = [] then Some (hint_stop hs)
          else do {
            let ms = dedup_starts (sort_matches ms);
            labels \<leftarrow> match_labels (hs_alphabet hs) (hs_keys hs) (length ms);
            Some (hs\<lparr>hs_matches := ms, hs_labels := labels\<rparr>)
          }
        })"

text \<open>The last label that starts with a character.\<close>

definition find_label :: "uchar \<Rightarrow> uchar list list \<Rightarrow> (nat \<times> uchar list) option" where
  "find_label c labels = List.find (\<lambda>(_, label). label \<noteq> [] \<and> hd label = c) (rev (enumerate 0 labels))"

definition hint_keyboard_input ::
    "terminal \<Rightarrow> (ustring \<Rightarrow> 'q regex_search option) \<Rightarrow> uchar \<Rightarrow> 'q hint_state \<Rightarrow> ('q hint_state \<times> 'q hint_match option) option" where
  "hint_keyboard_input t build c hs = do {
     let hs = (if c \<in> {0x08, 0x1f} then hs\<lparr>hs_keys := butlast (hs_keys hs)\<rparr>
               else if c \<in> {0x1b, 0x03} then hint_stop hs else hs);
     hs \<leftarrow> update_matches t build hs;
     case hs_hint hs of
       None \<Rightarrow> Some (hs, None)
     | Some hint \<Rightarrow>
         (case find_label c (hs_labels hs) of
            None \<Rightarrow> Some (hs, None)
          | Some (index, label) \<Rightarrow>
              if length label = 1
              then do {
                bounds \<leftarrow> vget (hs_matches hs) index;
                let hs = (if hn_persist hint then hs\<lparr>hs_keys := []\<rparr> else hint_stop hs);
                x \<leftarrow> grid_get (t_grid t) (fst bounds);
                Some (hs, Some \<lparr>hx_bounds = bounds, hx_hyperlink = hyperlink x, hx_hint = hint\<rparr>)
              }
              else Some (hs\<lparr>hs_keys := hs_keys hs @ [c]\<rparr>, None))
   }"

text \<open>The text of a hint, checked against the current content of the terminal.\<close>

definition hint_text :: "terminal \<Rightarrow> (ustring \<Rightarrow> 'q regex_search option) \<Rightarrow> 'q hint_match \<Rightarrow> ustring option option" where
  "hint_text t build h =
     (case hx_hyperlink h of
        Some link \<Rightarrow> do {
          r \<leftarrow> hyperlink_at t (fst (hx_bounds h));
          Some (case r of
                  None \<Rightarrow> None
                | Some (validated, bounds) \<Rightarrow> if validated = link \<and> bounds = hx_bounds h then Some (hl_uri link) else None)
        }
      | None \<Rightarrow>
          (case Option.bind (hn_regex (hx_hint h)) (with_compiled build) of
             None \<Rightarrow> Some None
           | Some rx \<Rightarrow> do {
               r \<leftarrow> regex_match_at t (fst (hx_bounds h)) rx (hn_post_processing (hx_hint h));
               case r of
                 None \<Rightarrow> Some None
               | Some bounds \<Rightarrow>
                   if bounds = hx_bounds h then map_option Some (bounds_to_string t (fst bounds) (snd bounds)) else Some None
             }))"

definition mods_contain :: "modifiers \<Rightarrow> modifiers \<Rightarrow> bool" where
  "mods_contain m n \<longleftrightarrow> (m_shift n \<longrightarrow> m_shift m) \<and> (m_control n \<longrightarrow> m_control m) \<and> (m_alt n \<longrightarrow> m_alt m) \<and> (m_super n \<longrightarrow> m_super m)"

definition hint_highlights :: "terminal \<Rightarrow> modifiers \<Rightarrow> 'q hint \<Rightarrow> bool" where
  "hint_highlights t mods hint =
     (case hn_mouse hint of
        None \<Rightarrow> False
      | Some mouse \<Rightarrow> hm_enabled mouse \<and> mods_contain mods (hm_mods mouse)
          \<and> (\<not> fl_intersects (t_mode t) MOUSE_MODE \<or> m_shift mods))"

fun highlighted_at :: "terminal \<Rightarrow> (ustring \<Rightarrow> 'q regex_search option) \<Rightarrow> 'q hint list \<Rightarrow> point \<Rightarrow> modifiers \<Rightarrow> 'q hint_match option option" where
  "highlighted_at t build [] p mods = Some None"
| "highlighted_at t build (hint # hints) p mods =
     (if \<not> hint_highlights t mods hint then highlighted_at t build hints p mods
      else do {
        link \<leftarrow> (if hn_hyperlinks hint then hyperlink_at t p else Some None);
        case link of
          Some (link, bounds) \<Rightarrow> Some (Some \<lparr>hx_bounds = bounds, hx_hyperlink = Some link, hx_hint = hint\<rparr>)
        | None \<Rightarrow> do {
            r \<leftarrow> (case Option.bind (hn_regex hint) (with_compiled build) of
                    None \<Rightarrow> Some None
                  | Some rx \<Rightarrow> regex_match_at t p rx (hn_post_processing hint));
            case r of
              Some bounds \<Rightarrow> Some (Some \<lparr>hx_bounds = bounds, hx_hyperlink = None, hx_hint = hint\<rparr>)
            | None \<Rightarrow> highlighted_at t build hints p mods
          }
      })"

end
