(* ===== verification/Props_Hints.thy ===== *)
theory Props_Hints
  imports Hints Props_Search Props_Text "HOL-Library.Sublist"
begin

text \<open>
  Properties of the keyboard hints: the labels form a prefix code, so that typing a label selects its match and no other; the
  post-processing of matches ends, except at the last cell of the grid.
\<close>

subsection \<open>Labels form a prefix code\<close>

text \<open>The indices of a label, the last character first: the last character is before the split point, all others behind it.\<close>

definition indices_ok :: "nat \<Rightarrow> nat \<Rightarrow> nat list \<Rightarrow> bool" where
  "indices_ok split len is \<longleftrightarrow> (\<exists>i rest. is = i # rest \<and> i \<le> split \<and> (\<forall>j \<in> set rest. split < j \<and> j < len))"

text \<open>Labels are counted: the characters behind the split point are the digits, from one on, of a number system without zero.\<close>

fun digits_value :: "nat \<Rightarrow> nat \<Rightarrow> nat list \<Rightarrow> nat" where
  "digits_value split len [] = 0"
| "digits_value split len (i # is) = (i - split) + (len - 1 - split) * digits_value split len is"

definition label_value :: "nat \<Rightarrow> nat \<Rightarrow> nat list \<Rightarrow> nat" where
  "label_value split len is = hd is + (split + 1) * digits_value split len (tl is)"

lemma increment_others_ok:
  assumes "split + 1 < len" "\<forall>j \<in> set is. split < j \<and> j < len"
  shows "\<forall>j \<in> set (increment_others split len is). split < j \<and> j < len"
    "digits_value split len (increment_others split len is) = digits_value split len is + 1"
proof -
  show "\<forall>j \<in> set (increment_others split len is). split < j \<and> j < len"
    using assms by (induction split len "is" rule: increment_others.induct) auto
  show "digits_value split len (increment_others split len is) = digits_value split len is + 1"
    using assms
  proof (induction split len "is" rule: increment_others.induct)
    case (2 split len i "is")
    show ?case
    proof (cases "i + 1 = len")
      case True
      then have "i - split = len - 1 - split" by simp
      then show ?thesis using 2 True by (simp add: algebra_simps)
    next
      case False
      then show ?thesis using 2 by (auto simp: Suc_diff_le)
    qed
  qed simp
qed

definition labels_ok :: "hint_labels \<Rightarrow> bool" where
  "labels_ok l \<longleftrightarrow> hl_split_point l + 1 < length (hl_alphabet l)
     \<and> indices_ok (hl_split_point l) (length (hl_alphabet l)) (hl_indices l)"

definition value_of :: "hint_labels \<Rightarrow> nat" where
  "value_of l = label_value (hl_split_point l) (length (hl_alphabet l)) (hl_indices l)"

lemma chars_at_nth: "\<forall>i \<in> set is. i < length a \<Longrightarrow> chars_at a is = Some (map ((!) a) is)"
  by (induction "is") (simp_all add: vget_def)

lemma label_next_ok:
  assumes "labels_ok l"
  shows "\<exists>l'. label_next l = Some (l', map ((!) (hl_alphabet l)) (rev (hl_indices l)))
    \<and> labels_ok l' \<and> value_of l' = value_of l + 1 \<and> hl_alphabet l' = hl_alphabet l \<and> hl_split_point l' = hl_split_point l"
proof -
  let ?s = "hl_split_point l" and ?n = "length (hl_alphabet l)"
  obtain i rest where r: "hl_indices l = i # rest" "i \<le> ?s" "\<forall>j \<in> set rest. ?s < j \<and> j < ?n"
    using assms by (auto simp: labels_ok_def indices_ok_def)
  have b: "?s + 1 < ?n" using assms by (simp add: labels_ok_def)
  have c: "chars_at (hl_alphabet l) (rev (hl_indices l)) = Some (map ((!) (hl_alphabet l)) (rev (hl_indices l)))"
    by (rule chars_at_nth) (use r b in auto)
  show ?thesis
    using c r b increment_others_ok [OF b r(3)]
    by (cases "i < ?s") (auto simp: label_next_def label_increment_def labels_ok_def indices_ok_def value_of_def label_value_def)
qed

lemma label_list_ok:
  assumes "labels_ok l"
  shows "\<exists>css. label_list n l = Some css \<and> length css = n \<and> (\<forall>i < n. \<exists>is. indices_ok (hl_split_point l) (length (hl_alphabet l)) is
    \<and> label_value (hl_split_point l) (length (hl_alphabet l)) is = value_of l + i \<and> css ! i = map ((!) (hl_alphabet l)) (rev is))"
  using assms
proof (induction n arbitrary: l)
  case (Suc n)
  obtain l' where l': "label_next l = Some (l', map ((!) (hl_alphabet l)) (rev (hl_indices l)))" "labels_ok l'"
    "value_of l' = value_of l + 1" "hl_alphabet l' = hl_alphabet l" "hl_split_point l' = hl_split_point l"
    using label_next_ok [OF Suc.prems] by blast
  obtain css where css: "label_list n l' = Some css" "length css = n" "\<forall>i < n. \<exists>is. indices_ok (hl_split_point l) (length (hl_alphabet l)) is
    \<and> label_value (hl_split_point l) (length (hl_alphabet l)) is = value_of l + 1 + i \<and> css ! i = map ((!) (hl_alphabet l)) (rev is)"
    using Suc.IH [OF l'(2)] l'(3-5) by auto
  have "\<exists>is. indices_ok (hl_split_point l) (length (hl_alphabet l)) is \<and> label_value (hl_split_point l) (length (hl_alphabet l)) is = value_of l + i
      \<and> (map ((!) (hl_alphabet l)) (rev (hl_indices l)) # css) ! i = map ((!) (hl_alphabet l)) (rev is)" if "i < Suc n" for i
  proof (cases i)
    case 0
    then show ?thesis using Suc.prems by (auto simp: labels_ok_def value_of_def)
  next
    case (Suc k)
    then show ?thesis using css(3) that by auto
  qed
  then show ?case using l'(1) css(1,2) by auto
qed simp

lemma indices_prefix_free:
  assumes "indices_ok split len is" "indices_ok split len js" "prefix (rev is) (rev js)"
  shows "is = js"
proof -
  obtain i r where i: "is = i # r" "i \<le> split" using assms(1) by (auto simp: indices_ok_def)
  obtain j q where j: "js = j # q" "\<forall>k \<in> set q. split < k" using assms(2) by (auto simp: indices_ok_def)
  obtain zs where zs: "rev js = rev is @ zs" using assms(3) by (auto simp: prefix_def)
  show ?thesis
  proof (cases zs rule: rev_cases)
    case Nil
    then show ?thesis using zs by simp
  next
    case (snoc ys y)
    then have "rev q = rev r @ i # ys" using zs i j by simp
    then have "i \<in> set q" by (metis in_set_conv_decomp set_rev)
    then show ?thesis using i(2) j(2) by auto
  qed
qed

lemma prefix_map_nth:
  assumes "distinct a" "\<forall>i \<in> set is. i < length a" "\<forall>j \<in> set js. j < length a" "prefix (map ((!) a) is) (map ((!) a) js)"
  shows "prefix is js"
  using assms(2-4)
proof (induction "is" arbitrary: js)
  case (Cons i "is")
  then show ?case by (cases js) (auto simp: nth_eq_iff_index_eq [OF assms(1)])
qed simp

lemma indices_below: "indices_ok split len is \<Longrightarrow> split < len \<Longrightarrow> \<forall>i \<in> set is. i < len"
  by (auto simp: indices_ok_def)

lemma hint_labels_prefix_free':
  assumes "distinct alphabet" "2 \<le> length alphabet"
  shows "\<exists>labels. match_labels alphabet [] n = Some labels \<and> length labels = n
    \<and> (\<forall>i < n. \<forall>j < n. labels ! i \<noteq> [] \<and> (prefix (labels ! i) (labels ! j) \<longrightarrow> i = j))"
proof -
  define l where "l = \<lparr>hl_alphabet = alphabet, hl_indices = [0], hl_split_point = (length alphabet - 1) div 2\<rparr>"
  have new: "hint_labels_new alphabet = Some l" using assms(2) by (simp add: hint_labels_new_def l_def usub_def)
  have ok: "labels_ok l" using assms(2) by (auto simp: labels_ok_def indices_ok_def l_def)
  let ?s = "hl_split_point l" and ?n = "length alphabet"
  obtain css where css: "label_list n l = Some css" "length css = n" "\<forall>i < n. \<exists>is. indices_ok ?s ?n is
      \<and> label_value ?s ?n is = value_of l + i \<and> css ! i = map ((!) alphabet) (rev is)"
    using label_list_ok [OF ok, of n] by (auto simp: l_def)
  have s: "?s < ?n" using ok by (simp add: labels_ok_def l_def)
  have pf: "i = j" if ij: "i < n" "j < n" and p: "prefix (css ! i) (css ! j)" for i j
  proof -
    obtain "is" where i: "indices_ok ?s ?n is" "label_value ?s ?n is = value_of l + i" "css ! i = map ((!) alphabet) (rev is)"
      using css(3) ij by blast
    obtain js where j: "indices_ok ?s ?n js" "label_value ?s ?n js = value_of l + j" "css ! j = map ((!) alphabet) (rev js)"
      using css(3) ij by blast
    have "prefix (rev is) (rev js)"
      by (rule prefix_map_nth [OF assms(1)]) (use p i(3) j(3) indices_below [OF i(1) s] indices_below [OF j(1) s] in simp_all)
    then show ?thesis using indices_prefix_free [OF i(1) j(1)] i(2) j(2) by simp
  qed
  have ne: "css ! i \<noteq> []" if "i < n" for i using css(3) that by (auto simp: indices_ok_def)
  have rest: "rest_of_label [] = (\<lambda>x. x)" by (simp add: rest_of_label_def fun_eq_iff)
  have "match_labels alphabet [] n = Some (rev css)" using new css(1) by (simp add: match_labels_def rest)
  moreover have "rev css ! i \<noteq> [] \<and> (prefix (rev css ! i) (rev css ! j) \<longrightarrow> i = j)" if "i < n" "j < n" for i j
    using pf [of "n - Suc i" "n - Suc j"] ne [of "n - Suc i"] that css(2) by (auto simp: rev_nth)
  ultimately show ?thesis using css(2) by auto
qed

text \<open>C37: The labels of hints form a prefix code: for an alphabet of at least two different characters, no label is empty and no
  label begins with another one, however many there are.\<close>

theorem hint_labels_prefix_free:
  assumes "distinct alphabet" "2 \<le> length alphabet"
  shows "\<exists>labels. match_labels alphabet [] n = Some labels \<and> length labels = n
    \<and> (\<forall>i < n. \<forall>j < n. labels ! i \<noteq> [] \<and> (prefix (labels ! i) (labels ! j) \<longrightarrow> i = j))"
  by (rule hint_labels_prefix_free' [OF assms])

lemma chars_at_set: "chars_at a is = Some cs \<Longrightarrow> set cs \<subseteq> set a"
  by (induction "is" arbitrary: cs) (auto simp: vget_def bind_eq_Some_conv split: if_splits)

lemma label_list_set: "label_list n l = Some css \<Longrightarrow> cs \<in> set css \<Longrightarrow> set cs \<subseteq> set (hl_alphabet l)"
proof (induction n arbitrary: l css)
  case (Suc n)
  obtain l' cs' css' where s: "label_next l = Some (l', cs')" "label_list n l' = Some css'" "css = cs' # css'"
    using Suc.prems(1) by (auto simp: bind_eq_Some_conv)
  have "set cs' \<subseteq> set (hl_alphabet l)" "hl_alphabet l' = hl_alphabet l"
    using s(1) chars_at_set by (auto simp: label_next_def label_increment_def bind_eq_Some_conv split: list.splits)
  then show ?case using Suc.IH [OF s(2)] s(3) Suc.prems(2) by auto
qed simp

lemma match_labels_set: "match_labels alphabet [] n = Some labels \<Longrightarrow> cs \<in> set labels \<Longrightarrow> set cs \<subseteq> set alphabet"
  using label_list_set
  by (fastforce simp: match_labels_def hint_labels_new_def rest_of_label_def bind_eq_Some_conv)

subsection \<open>Typing a label\<close>

lemma rest_of_label_Nil: "rest_of_label [] = (\<lambda>x. x)"
  by (simp add: rest_of_label_def fun_eq_iff)

lemma match_labels_keys:
  assumes "match_labels alphabet [] n = Some labels"
  shows "match_labels alphabet keys n = Some (map (rest_of_label keys) labels)"
proof -
  obtain l css where "hint_labels_new alphabet = Some l" "label_list n l = Some css" "labels = rev css"
    using assms by (auto simp: match_labels_def rest_of_label_Nil bind_eq_Some_conv)
  then show ?thesis by (simp add: match_labels_def rev_map)
qed

lemma rest_of_label_prefix:
  "rest_of_label keys label \<noteq> [] \<and> hd (rest_of_label keys label) = c \<longleftrightarrow> prefix (keys @ [c]) label"
proof
  assume "rest_of_label keys label \<noteq> [] \<and> hd (rest_of_label keys label) = c"
  then have h: "take (length keys) label = keys" "drop (length keys) label \<noteq> []" "hd (drop (length keys) label) = c"
    by (auto simp: rest_of_label_def split: if_splits)
  have "label = take (length keys) label @ drop (length keys) label" by simp
  also have "\<dots> = (keys @ [c]) @ tl (drop (length keys) label)"
    using h by (cases "drop (length keys) label") auto
  finally show "prefix (keys @ [c]) label" by (metis prefixI)
next
  assume "prefix (keys @ [c]) label"
  then show "rest_of_label keys label \<noteq> [] \<and> hd (rest_of_label keys label) = c"
    by (auto simp: prefix_def rest_of_label_def)
qed

lemma find_label_some:
  assumes "find_label c labels = Some (j, label)"
  shows "j < length labels" "label = labels ! j" "label \<noteq> []" "hd label = c"
proof -
  have "(j, label) \<in> set (rev (enumerate 0 labels)) \<and> (\<lambda>(_, label). label \<noteq> [] \<and> hd label = c) (j, label)"
    using assms unfolding find_label_def find_Some_iff by (metis nth_mem)
  then show "j < length labels" "label = labels ! j" "label \<noteq> []" "hd label = c"
    by (auto simp: in_set_enumerate_eq)
qed

lemma find_label_none:
  assumes "find_label c labels = None" "i < length labels"
  shows "\<not> (labels ! i \<noteq> [] \<and> hd (labels ! i) = c)"
  using assms by (fastforce simp: find_label_def find_None_iff in_set_enumerate_eq)

text \<open>Typing a sequence of characters, with the result of each.\<close>

fun type_keys :: "terminal \<Rightarrow> (ustring \<Rightarrow> 'q regex_search option) \<Rightarrow> uchar list \<Rightarrow> 'q hint_state \<Rightarrow> 'q hint_match option list option" where
  "type_keys t build [] hs = Some []"
| "type_keys t build (c # cs) hs = do {
     (hs, r) \<leftarrow> hint_keyboard_input t build c hs;
     rs \<leftarrow> type_keys t build cs hs;
     Some (r # rs)
   }"

definition hint_control_keys :: "uchar set" where
  "hint_control_keys = {0x08, 0x1f, 0x1b, 0x03}"

lemma keyboard_input_label:
  assumes hint: "hs_hint hs = Some hint" and c: "c \<notin> hint_control_keys"
    and ms: "all_matches t build hint = Some ms0" "ms0 \<noteq> []" "ms = dedup_starts (sort_matches ms0)"
    and labels: "match_labels (hs_alphabet hs) [] (length ms) = Some labels" "length labels = length ms"
    and pf: "\<And>i j. i < length ms \<Longrightarrow> j < length ms \<Longrightarrow> prefix (labels ! i) (labels ! j) \<Longrightarrow> i = j"
    and i: "i < length ms" "prefix (hs_keys hs @ [c]) (labels ! i)"
    and x: "grid_get (t_grid t) (fst (ms ! i)) = Some x"
  shows "if labels ! i = hs_keys hs @ [c]
    then \<exists>hs'. hint_keyboard_input t build c hs = Some (hs', Some \<lparr>hx_bounds = ms ! i, hx_hyperlink = hyperlink x, hx_hint = hint\<rparr>)
    else \<exists>hs'. hint_keyboard_input t build c hs = Some (hs', None) \<and> hs_hint hs' = Some hint \<and> hs_keys hs' = hs_keys hs @ [c]
      \<and> hs_alphabet hs' = hs_alphabet hs"
proof -
  let ?k = "hs_keys hs"
  let ?ls = "map (rest_of_label ?k) labels"
  have up: "update_matches t build hs = Some (hs\<lparr>hs_matches := ms, hs_labels := ?ls\<rparr>)"
    using hint ms match_labels_keys [OF labels(1), of ?k] by (simp add: update_matches_def)
  have "find_label c ?ls \<noteq> None"
  proof
    assume "find_label c ?ls = None"
    from find_label_none [OF this, of i] have "\<not> (rest_of_label ?k (labels ! i) \<noteq> [] \<and> hd (rest_of_label ?k (labels ! i)) = c)"
      using i(1) labels(2) by simp
    then show False unfolding rest_of_label_prefix using i(2) by simp
  qed
  then obtain j l where j: "find_label c ?ls = Some (j, l)" by (metis option.exhaust_sel surj_pair)
  note jj = find_label_some [OF j]
  have jl: "j < length ms" "l = rest_of_label ?k (labels ! j)" using jj(1,2) labels(2) by simp_all
  have pj: "prefix (?k @ [c]) (labels ! j)" using rest_of_label_prefix [of ?k "labels ! j" c] jj(3,4) jl(2) by blast
  then obtain zs where zs: "labels ! j = ?k @ c # zs" by (auto simp: prefix_def)
  have l: "l = c # zs" by (simp add: jl(2) zs rest_of_label_def)
  have cc: "c \<notin> {0x08, 0x1f}" "c \<notin> {0x1b, 0x03}" using c by (auto simp: hint_control_keys_def)
  show ?thesis
  proof (cases "labels ! i = ?k @ [c]")
    case True
    have ji: "j = i" using pf [OF i(1) jl(1)] pj True by simp
    then have "zs = []" using zs True by simp
    then show ?thesis
      unfolding if_P [OF True]
      using True up j l ji hint x i(1) cc unfolding hint_keyboard_input_def if_not_P [OF cc(1)] if_not_P [OF cc(2)] Let_def
      by (simp add: vget_def)
  next
    case False
    have "zs \<noteq> []"
    proof
      assume "zs = []"
      then have "labels ! j = ?k @ [c]" using zs by simp
      then have "j = i" using pf [OF jl(1) i(1)] i(2) by simp
      then show False using \<open>labels ! j = ?k @ [c]\<close> False by simp
    qed
    then show ?thesis
      unfolding if_not_P [OF False]
      using up j l hint unfolding hint_keyboard_input_def if_not_P [OF cc(1)] if_not_P [OF cc(2)] Let_def
      by simp
  qed
qed

lemma type_label:
  assumes ms: "all_matches t build hint = Some ms0" "ms0 \<noteq> []" "ms = dedup_starts (sort_matches ms0)"
    and labels: "match_labels alphabet [] (length ms) = Some labels" "length labels = length ms"
    and pf: "\<And>i j. i < length ms \<Longrightarrow> j < length ms \<Longrightarrow> prefix (labels ! i) (labels ! j) \<Longrightarrow> i = j"
    and i: "i < length ms" and x: "grid_get (t_grid t) (fst (ms ! i)) = Some x"
  shows "labels ! i = hs_keys hs @ cs \<Longrightarrow> cs \<noteq> [] \<Longrightarrow> set cs \<inter> hint_control_keys = {} \<Longrightarrow> hs_hint hs = Some hint
    \<Longrightarrow> hs_alphabet hs = alphabet
    \<Longrightarrow> type_keys t build cs hs = Some (replicate (length cs - 1) None @ [Some \<lparr>hx_bounds = ms ! i, hx_hyperlink = hyperlink x, hx_hint = hint\<rparr>])"
proof (induction cs arbitrary: hs)
  case (Cons c cs)
  have c: "c \<notin> hint_control_keys" using Cons.prems(3) by simp
  have p: "prefix (hs_keys hs @ [c]) (labels ! i)" using Cons.prems(1) by simp
  note step = keyboard_input_label [OF Cons.prems(4) c ms labels [folded Cons.prems(5)] pf i p x]
  show ?case
  proof (cases "cs = []")
    case True
    then show ?thesis using step Cons.prems(1) by auto
  next
    case False
    then have ne: "labels ! i \<noteq> hs_keys hs @ [c]" using Cons.prems(1) by simp
    obtain hs' where hs': "hint_keyboard_input t build c hs = Some (hs', None)" "hs_hint hs' = Some hint"
      "hs_keys hs' = hs_keys hs @ [c]" "hs_alphabet hs' = hs_alphabet hs"
      using step unfolding if_not_P [OF ne] by blast
    have "type_keys t build cs hs' = Some (replicate (length cs - 1) None @ [Some \<lparr>hx_bounds = ms ! i, hx_hyperlink = hyperlink x, hx_hint = hint\<rparr>])"
      by (rule Cons.IH) (use hs' False Cons.prems in auto)
    then have "type_keys t build (c # cs) hs = Some (None # replicate (length cs - 1) None @ [Some \<lparr>hx_bounds = ms ! i, hx_hyperlink = hyperlink x, hx_hint = hint\<rparr>])"
      by (simp del: type_keys.simps add: type_keys.simps(2) [of t build c cs hs] hs'(1))
    moreover have "length (c # cs) - 1 = Suc (length cs - 1)" using False by simp
    ultimately show ?thesis by (simp only: replicate_Suc append_Cons)
  qed
qed simp

text \<open>C38: Typing the label of a match selects exactly this match: nothing is selected by the keys before the last one, and the last
  one selects the match with the hyperlink of its first cell.\<close>

theorem typed_label_selects:
  assumes "distinct (hs_alphabet hs)" "2 \<le> length (hs_alphabet hs)" "set (hs_alphabet hs) \<inter> hint_control_keys = {}"
    and "hs_hint hs = Some hint" "hs_keys hs = []"
    and "all_matches t build hint = Some ms0" "ms0 \<noteq> []" "ms = dedup_starts (sort_matches ms0)"
    and "i < length ms" "grid_get (t_grid t) (fst (ms ! i)) = Some x"
  shows "\<exists>labels. match_labels (hs_alphabet hs) [] (length ms) = Some labels \<and> length labels = length ms
    \<and> type_keys t build (labels ! i) hs =
        Some (replicate (length (labels ! i) - 1) None @ [Some \<lparr>hx_bounds = ms ! i, hx_hyperlink = hyperlink x, hx_hint = hint\<rparr>])"
proof -
  obtain labels where l: "match_labels (hs_alphabet hs) [] (length ms) = Some labels" "length labels = length ms"
    and pf: "\<And>i j. i < length ms \<Longrightarrow> j < length ms \<Longrightarrow> prefix (labels ! i) (labels ! j) \<Longrightarrow> i = j"
    and ne: "\<And>i. i < length ms \<Longrightarrow> labels ! i \<noteq> []"
    using hint_labels_prefix_free' [OF assms(1,2), of "length ms"] by blast
  have "set (labels ! i) \<subseteq> set (hs_alphabet hs)" using match_labels_set [OF l(1)] l(2) assms(9) by auto
  then have "set (labels ! i) \<inter> hint_control_keys = {}" using assms(3) by blast
  then have "type_keys t build (labels ! i) hs =
      Some (replicate (length (labels ! i) - 1) None @ [Some \<lparr>hx_bounds = ms ! i, hx_hyperlink = hyperlink x, hx_hint = hint\<rparr>])"
    by (intro type_label [OF assms(6-8) l pf assms(9,10)]) (use assms(4,5) ne [OF assms(9)] in simp_all)
  then show ?thesis using l by blast
qed

subsection \<open>Post-processing stays inside a match\<close>

lemma bracket_loop_ends:
  assumes g: "grid_core_ok g" and e: "pos_in (grid_dims g) E"
  shows "pos_in (grid_dims g) i \<Longrightarrow> i \<le> E \<Longrightarrow>
    \<exists>j c'. balance_loop g (unlin (grid_dims g) E) counts (iter_at g i) c = Some (iter_at g j, c')
      \<and> pos_in (grid_dims g) j \<and> j \<le> E \<and> (i \<le> j \<or> j = i - 1 \<and> \<not> trailing_delimiter c')"
proof (induction "nat (E - i)" arbitrary: i counts c)
  case 0
  then have i: "i = E" by simp
  have col: "0 < columns (grid_dims g)" using grid_core_ok_dims [OF g] by (simp add: wf_dims_def)
  show ?case
  proof (cases "count_bracket c counts")
    case None
    then have c: "\<not> trailing_delimiter c"
      by (auto simp: count_bracket_def trailing_delimiter_def lit_def split: prod.splits if_splits)
    show ?thesis
      using None iter_prev_at [OF g 0(2)] 0(2) c i
      by (subst balance_loop.simps) (auto simp: pos_in_def split: if_splits)
  next
    case (Some pb)
    then have "balance_loop g (unlin (grid_dims g) E) counts (iter_at g i) c = Some (iter_at g E, c)"
      using i by (subst balance_loop.simps) simp
    then show ?thesis using i 0(2) by (intro exI [of _ E] exI [of _ c]) simp
  qed
next
  case (Suc n)
  have col: "0 < columns (grid_dims g)" using grid_core_ok_dims [OF g] by (simp add: wf_dims_def)
  have lt: "i < E" using Suc.hyps(2) by simp
  have n: "n = nat (E - (i + 1))" using Suc.hyps(2) by simp
  have ne: "unlin (grid_dims g) i \<noteq> unlin (grid_dims g) E" using lt lin_unlin [OF col] by (metis less_irrefl)
  have nxt: "i < last_lin (grid_dims g)" "pos_in (grid_dims g) (i + 1)" using lt e Suc.prems by (auto simp: pos_in_def)
  show ?case
  proof (cases "count_bracket c counts")
    case None
    then have c: "\<not> trailing_delimiter c"
      by (auto simp: count_bracket_def trailing_delimiter_def lit_def split: prod.splits if_splits)
    show ?thesis
      using None iter_prev_at [OF g Suc.prems(1)] Suc.prems c
      by (subst balance_loop.simps) (auto simp: pos_in_def split: if_splits)
  next
    case (Some pb)
    let ?x = "g_cell g (unlin (grid_dims g) (i + 1))"
    obtain j c' where j: "balance_loop g (unlin (grid_dims g) E) pb (iter_at g (i + 1)) (c_char ?x) = Some (iter_at g j, c')"
      "pos_in (grid_dims g) j" "j \<le> E" "i + 1 \<le> j \<or> j = i + 1 - 1 \<and> \<not> trailing_delimiter c'"
      using Suc.hyps(1) [OF n nxt(2), of pb "c_char ?x"] lt by auto
    have "balance_loop g (unlin (grid_dims g) E) counts (iter_at g i) c = Some (iter_at g j, c')"
      using Some ne iter_next_at [OF g Suc.prems(1)] nxt(1) j(1) by (subst balance_loop.simps) simp
    then show ?thesis using j(2-4) by (intro exI [of _ j] exI [of _ c']) auto
  qed
qed

lemma trim_loop_ends:
  assumes g: "grid_core_ok g" and s: "pos_in (grid_dims g) S"
  shows "pos_in (grid_dims g) i \<Longrightarrow> S \<le> i \<Longrightarrow>
    \<exists>j. trim_loop g (unlin (grid_dims g) S) (iter_at g i) c = Some (iter_at g j) \<and> S \<le> j \<and> j \<le> i"
proof (induction "nat (i - S)" arbitrary: i c)
  case 0
  then have "i = S" by simp
  then have "trim_loop g (unlin (grid_dims g) S) (iter_at g i) c = Some (iter_at g S)" by (subst trim_loop.simps) simp
  then show ?case using \<open>i = S\<close> by (intro exI [of _ S]) simp
next
  case (Suc n)
  have col: "0 < columns (grid_dims g)" using grid_core_ok_dims [OF g] by (simp add: wf_dims_def)
  have lt: "S < i" using Suc.hyps(2) by simp
  have n: "n = nat (i - 1 - S)" using Suc.hyps(2) by simp
  have ne: "unlin (grid_dims g) i \<noteq> unlin (grid_dims g) S" using lt lin_unlin [OF col] by (metis less_irrefl)
  show ?case
  proof (cases "trailing_delimiter c")
    case False
    then show ?thesis using lt by (subst trim_loop.simps) auto
  next
    case True
    have p: "first_lin (grid_dims g) < i" "pos_in (grid_dims g) (i - 1)" using lt s Suc.prems by (auto simp: pos_in_def)
    let ?x = "g_cell g (unlin (grid_dims g) (i - 1))"
    obtain j where j: "trim_loop g (unlin (grid_dims g) S) (iter_at g (i - 1)) (c_char ?x) = Some (iter_at g j)" "S \<le> j" "j \<le> i - 1"
      using Suc.hyps(1) [OF n p(2), of "c_char ?x"] lt by auto
    have "trim_loop g (unlin (grid_dims g) S) (iter_at g i) c = Some (iter_at g j)"
      using True ne iter_prev_at [OF g Suc.prems(1)] p(1) j(1) by (subst trim_loop.simps) simp
    then show ?thesis using j(2,3) by auto
  qed
qed

lemma hint_post_processing_within:
  assumes g: "grid_core_ok (t_grid t)" and a: "in_grid (t_dims t) a" and b: "in_grid (t_dims t) b"
    and ab: "lin (t_dims t) a \<le> lin (t_dims t) b"
  shows "\<exists>r. hint_post_processing t (a, b) = Some r \<and> (\<forall>m. r = Some m \<longrightarrow> fst m = a \<and> in_grid (t_dims t) (snd m)
    \<and> lin (t_dims t) a \<le> lin (t_dims t) (snd m) \<and> lin (t_dims t) (snd m) \<le> lin (t_dims t) b)"
proof -
  let ?d = "t_dims t" and ?g = "t_grid t"
  have d: "grid_dims ?g = ?d" by (simp add: t_dims_def)
  have wf: "wf_dims ?d" using grid_core_ok_dims [OF g] by (simp add: d)
  have col: "0 < columns ?d" using wf by (simp add: wf_dims_def)
  note at = iter_from_at [OF g, unfolded d]
  let ?S = "lin ?d a" and ?E = "lin ?d b"
  obtain j c' where j: "balance_loop ?g b (0, 0) (iter_at ?g ?S) (c_char (g_cell ?g a)) = Some (iter_at ?g j, c')"
    "pos_in ?d j" "j \<le> ?E" "?S \<le> j \<or> j = ?S - 1 \<and> \<not> trailing_delimiter c'"
    using bracket_loop_ends [OF g, unfolded d, OF at(2) [OF b] at(2) [OF a] ab, of "(0, 0)" "c_char (g_cell ?g a)"] at(3) [OF b] by auto
  obtain k where k: "trim_loop ?g a (iter_at ?g j) c' = Some (iter_at ?g k)" "k \<le> j" "?S \<le> k \<or> k = ?S - 1" "pos_in ?d k"
  proof (cases "?S \<le> j")
    case True
    obtain k where "trim_loop ?g a (iter_at ?g j) c' = Some (iter_at ?g k)" "?S \<le> k" "k \<le> j"
      using trim_loop_ends [OF g, unfolded d, OF at(2) [OF a] j(2) True, of c'] at(3) [OF a] by auto
    then show ?thesis using that j(2) at(2) [OF a] by (auto simp: pos_in_def)
  next
    case False
    then have c: "j = ?S - 1" "\<not> trailing_delimiter c'" using j(4) by auto
    have "trim_loop ?g a (iter_at ?g j) c' = Some (iter_at ?g j)" using c(2) by (subst trim_loop.simps) simp
    then show ?thesis using that c(1) j(2) by simp
  qed
  have r: "hint_post_processing t (a, b) = Some (if a > unlin ?d k then None else Some (a, unlin ?d k))"
    using at(1) [OF a] cell_get_at [OF g, unfolded d, OF at(2) [OF a]] at(3) [OF a] j(1) k(1)
    by (simp add: hint_post_processing_def iter_cell_def Let_def d)
  have "a > unlin ?d k \<longleftrightarrow> ?S > k"
    using unlin_less [OF col, of k ?S] at(3) [OF a] by simp
  then show ?thesis using r k j(3) pos_in_unlin [OF wf k(4)] by (auto simp: lin_unlin [OF col])
qed

lemma add_one_at:
  assumes wf: "wf_dims d" and p: "in_grid d p"
  shows "point_add d BGrid 1 p = unlin d (min (last_lin d) (lin d p + 1))"
proof -
  have c: "0 < columns d" using wf by (simp add: wf_dims_def)
  have "lin d (point_add d BGrid 1 p) = min (last_lin d) (lin d p + 1)"
    using point_add_lin [OF wf, of p 1] p by (simp add: last_lin_def)
  moreover have "p_column (point_add d BGrid 1 p) < columns d"
    using point_add_in_grid [OF wf, of BGrid 1 p] by (simp add: in_grid_def)
  ultimately show ?thesis using unlin_lin by metis
qed

lemma search_right_within:
  assumes g: "grid_core_ok (t_grid t)" and n: "narrow t" and rx: "regex_ok rx"
    and s: "in_grid (t_dims t) s" and e: "in_grid (t_dims t) e" and se: "lin (t_dims t) s \<le> lin (t_dims t) e"
  shows "\<exists>r. regex_search_right t rx s e = Some r \<and> (\<forall>a b. r = Some (a, b) \<longrightarrow> in_grid (t_dims t) a \<and> in_grid (t_dims t) b
    \<and> lin (t_dims t) s \<le> lin (t_dims t) a \<and> lin (t_dims t) a \<le> lin (t_dims t) b \<and> lin (t_dims t) b \<le> lin (t_dims t) e)"
proof -
  define ri where "ri = regex_iter_new s e DirRight"
  have ri: "ri_point ri = s" "ri_end ri = e" "ri_direction ri = DirRight" by (simp_all add: ri_def regex_iter_new_def)
  have d: "grid_dims (t_grid t) = t_dims t" by (simp add: t_dims_def)
  have lin: "pos_in (t_dims t) (lin (t_dims t) p)" if "in_grid (t_dims t) p" for p
    using iter_from_at(2) [OF g, of p] that by (simp add: d)
  obtain r where r: "regex_search_right t rx s e = Some r" "pred_option (on_path t DirRight e s) r"
    using next_match_narrow [OF g n rx, of ri] s e ri by (auto simp: returns_def regex_next_match_def)
  have "in_grid (t_dims t) a \<and> in_grid (t_dims t) b \<and> lin (t_dims t) s \<le> lin (t_dims t) a
      \<and> lin (t_dims t) a \<le> lin (t_dims t) b \<and> lin (t_dims t) b \<le> lin (t_dims t) e" if "r = Some (a, b)" for a b
  proof -
    have p: "in_grid (t_dims t) a" "in_grid (t_dims t) b" "to_go t DirRight e b \<le> to_go t DirRight e a"
      "to_go t DirRight e a \<le> to_go t DirRight e s"
      using r(2) that by (auto simp: on_path_def match_side_def)
    show ?thesis
      using p lin [OF p(1)] lin [OF p(2)] lin [OF s] lin [OF e] se
      by (auto simp: to_go_def path_dist_def Let_def pos_in_def split: if_splits)
  qed
  then show ?thesis using r(1) by auto
qed

text \<open>A processed match lies between a position and the end, and the next search starts behind it.\<close>

definition processed :: "terminal \<Rightarrow> int \<Rightarrow> post_processor \<Rightarrow> bool" where
  "processed t i pp \<longleftrightarrow> in_grid (t_dims t) (pp_start pp) \<and>
     (\<forall>a b. pp_next_match pp = Some (a, b) \<longrightarrow> in_grid (t_dims t) a \<and> in_grid (t_dims t) b \<and> i \<le> lin (t_dims t) a
        \<and> lin (t_dims t) a \<le> lin (t_dims t) b \<and> lin (t_dims t) b \<le> lin (t_dims t) (pp_end pp)
        \<and> lin (t_dims t) (pp_start pp) = lin (t_dims t) b + 1)"

lemma next_processed_within:
  assumes g: "grid_core_ok (t_grid t)" and n: "narrow t" and rx: "regex_ok rx"
  shows "in_grid (t_dims t) (pp_end pp) \<Longrightarrow> lin (t_dims t) (pp_end pp) < last_lin (t_dims t) \<Longrightarrow> pp_next_match pp = None
    \<Longrightarrow> in_grid (t_dims t) a \<Longrightarrow> in_grid (t_dims t) b \<Longrightarrow> lin (t_dims t) a \<le> lin (t_dims t) b
    \<Longrightarrow> lin (t_dims t) b \<le> lin (t_dims t) (pp_end pp)
    \<Longrightarrow> \<exists>pp'. next_processed_match t rx pp (a, b) = Some pp' \<and> pp_end pp' = pp_end pp \<and> processed t (lin (t_dims t) a) pp'"
proof (induction "nat (lin (t_dims t) (pp_end pp) - lin (t_dims t) a)" arbitrary: pp a b rule: less_induct)
  case less
  let ?d = "t_dims t" and ?E = "lin (t_dims t) (pp_end pp)"
  have d: "grid_dims (t_grid t) = ?d" by (simp add: t_dims_def)
  have wf: "wf_dims ?d" using grid_core_ok_dims [OF g] by (simp add: d)
  have col: "0 < columns ?d" using wf by (simp add: wf_dims_def)
  note at = iter_from_at [OF g, unfolded d]
  have add1: "point_add ?d BGrid 1 p = unlin ?d (lin ?d p + 1)" "lin ?d (point_add ?d BGrid 1 p) = lin ?d p + 1"
    "in_grid ?d (point_add ?d BGrid 1 p)" if "in_grid ?d p" "lin ?d p \<le> ?E" for p
    using add_one_at [OF wf that(1)] that less.prems(2) point_add_in_grid [OF wf, of BGrid 1 p] by (simp_all add: lin_unlin [OF col])
  obtain r where r: "hint_post_processing t (a, b) = Some r" "\<And>m. r = Some m \<Longrightarrow> fst m = a \<and> in_grid ?d (snd m)
      \<and> lin ?d a \<le> lin ?d (snd m) \<and> lin ?d (snd m) \<le> lin ?d b"
    using hint_post_processing_within [OF g less.prems(4-6)] by blast
  show ?case
  proof (cases r)
    case (Some m)
    have m: "fst m = a" "in_grid ?d (snd m)" "lin ?d a \<le> lin ?d (snd m)" "lin ?d (snd m) \<le> lin ?d b" using r(2) [OF Some] by auto
    note e = add1 [OF m(2)]
    have "next_processed_match t rx pp (a, b) = Some (pp\<lparr>pp_start := point_add ?d BGrid 1 (snd m), pp_next_match := Some m\<rparr>)"
      using r(1) Some by (subst next_processed_match.simps) simp
    then show ?thesis using m e less.prems by (auto simp: processed_def)
  next
    case None
    have ae: "lin ?d a \<le> ?E" using less.prems(6,7) by simp
    note s = add1 [OF less.prems(4) ae]
    let ?pp = "pp\<lparr>pp_start := point_add ?d BGrid 1 a\<rparr>"
    show ?thesis
    proof (cases "point_add ?d BGrid 1 a > pp_end pp")
      case True
      then have "next_processed_match t rx pp (a, b) = Some ?pp"
        using r(1) None by (subst next_processed_match.simps) simp
      then show ?thesis using s less.prems(3) by (auto simp: processed_def)
    next
      case False
      then have le: "lin ?d (point_add ?d BGrid 1 a) \<le> ?E"
        using s(1,2) at(3) [OF less.prems(1)] unlin_less [OF col, of ?E "lin ?d a + 1"] by simp
      obtain q where q: "regex_search_right t rx (point_add ?d BGrid 1 a) (pp_end pp) = Some q"
        "\<And>a' b'. q = Some (a', b') \<Longrightarrow> in_grid ?d a' \<and> in_grid ?d b' \<and> lin ?d (point_add ?d BGrid 1 a) \<le> lin ?d a'
          \<and> lin ?d a' \<le> lin ?d b' \<and> lin ?d b' \<le> ?E"
        using search_right_within [OF g n rx s(3) less.prems(1) le] by blast
      show ?thesis
      proof (cases q)
        case q0: None
        have "next_processed_match t rx pp (a, b) = Some ?pp"
          using r(1) None False q(1) q0 by (subst next_processed_match.simps) simp
        then show ?thesis using s less.prems(3) by (auto simp: processed_def)
      next
        case (Some m')
        obtain a' b' where ab: "m' = (a', b')" by (cases m')
        have m': "in_grid ?d a'" "in_grid ?d b'" "lin ?d a + 1 \<le> lin ?d a'" "lin ?d a' \<le> lin ?d b'" "lin ?d b' \<le> ?E"
          using q(2) [OF Some [unfolded ab]] s(2) by auto
        have "nat (lin ?d (pp_end ?pp) - lin ?d a') < nat (?E - lin ?d a)" using m'(3-5) by simp
        from less.hyps [OF this] obtain pp' where pp': "next_processed_match t rx ?pp (a', b') = Some pp'" "pp_end pp' = pp_end pp"
          "processed t (lin ?d a') pp'"
          using less.prems m' by auto
        have "next_processed_match t rx pp (a, b) = Some pp'"
          using r(1) None False q(1) Some ab pp'(1) by (subst next_processed_match.simps) simp
        moreover have "processed t (lin ?d a) pp'" using pp'(3) m'(3) by (auto simp: processed_def)
        ultimately show ?thesis using pp'(2) by blast
      qed
    qed
  qed
qed

definition ordered_within :: "terminal \<Rightarrow> int \<Rightarrow> int \<Rightarrow> regex_match list \<Rightarrow> bool" where
  "ordered_within t i j ms \<longleftrightarrow>
     (\<forall>(a, b) \<in> set ms. in_grid (t_dims t) a \<and> in_grid (t_dims t) b \<and> i \<le> lin (t_dims t) a
        \<and> lin (t_dims t) a \<le> lin (t_dims t) b \<and> lin (t_dims t) b \<le> j)
     \<and> sorted_wrt (\<lambda>(a, b) (a', b'). lin (t_dims t) b < lin (t_dims t) a') ms"

lemma post_processor_collects:
  assumes g: "grid_core_ok (t_grid t)" and n: "narrow t" and rx: "regex_ok rx"
  shows "in_grid (t_dims t) (pp_end pp) \<Longrightarrow> lin (t_dims t) (pp_end pp) < last_lin (t_dims t) \<Longrightarrow> processed t i pp
    \<Longrightarrow> \<exists>ms. post_processor_collect t rx pp = Some ms \<and> ordered_within t i (lin (t_dims t) (pp_end pp)) ms"
proof (induction "nat (lin (t_dims t) (pp_end pp) + 1 - i)" arbitrary: pp i rule: less_induct)
  case less
  let ?d = "t_dims t" and ?E = "lin (t_dims t) (pp_end pp)"
  have d: "grid_dims (t_grid t) = ?d" by (simp add: t_dims_def)
  have wf: "wf_dims ?d" using grid_core_ok_dims [OF g] by (simp add: d)
  have col: "0 < columns ?d" using wf by (simp add: wf_dims_def)
  note at = iter_from_at [OF g, unfolded d]
  show ?case
  proof (cases "pp_next_match pp")
    case None
    then have "post_processor_collect t rx pp = Some []"
      by (subst post_processor_collect.simps) (simp add: post_processor_next_def)
    then show ?thesis by (simp add: ordered_within_def)
  next
    case (Some m)
    obtain a b where ab: "m = (a, b)" by (cases m)
    have m: "in_grid ?d a" "in_grid ?d b" "i \<le> lin ?d a" "lin ?d a \<le> lin ?d b" "lin ?d b \<le> ?E" "lin ?d (pp_start pp) = lin ?d b + 1"
      "in_grid ?d (pp_start pp)"
      using less.prems(3) Some ab by (auto simp: processed_def)
    let ?pp = "pp\<lparr>pp_next_match := None\<rparr>"
    have "\<exists>pp'. post_processor_next t rx pp = Some (pp', Some m) \<and> pp_end pp' = pp_end pp \<and> processed t (lin ?d b + 1) pp'"
    proof (cases "pp_start pp \<le> pp_end pp")
      case False
      then have "post_processor_next t rx pp = Some (?pp, Some m)" using Some by (simp add: post_processor_next_def)
      then show ?thesis using m(7) by (auto simp: processed_def)
    next
      case True
      then have le: "lin ?d (pp_start pp) \<le> ?E"
        using at(3) [OF less.prems(1)] at(3) [OF m(7)] unlin_mono [OF col, of "lin ?d (pp_start pp)" ?E] by simp
      obtain q where q: "regex_search_right t rx (pp_start pp) (pp_end pp) = Some q"
        "\<And>a' b'. q = Some (a', b') \<Longrightarrow> in_grid ?d a' \<and> in_grid ?d b' \<and> lin ?d (pp_start pp) \<le> lin ?d a'
          \<and> lin ?d a' \<le> lin ?d b' \<and> lin ?d b' \<le> ?E"
        using search_right_within [OF g n rx m(7) less.prems(1) le] by blast
      show ?thesis
      proof (cases q)
        case None
        then have "post_processor_next t rx pp = Some (?pp, Some m)" using Some True q(1) by (simp add: post_processor_next_def)
        then show ?thesis using m(7) by (auto simp: processed_def)
      next
        case q1: (Some m')
        obtain a' b' where ab': "m' = (a', b')" by (cases m')
        have m': "in_grid ?d a'" "in_grid ?d b'" "lin ?d b + 1 \<le> lin ?d a'" "lin ?d a' \<le> lin ?d b'" "lin ?d b' \<le> ?E"
          using q(2) [OF q1 [unfolded ab']] m(6) by auto
        obtain pp' where pp': "next_processed_match t rx ?pp (a', b') = Some pp'" "pp_end pp' = pp_end pp" "processed t (lin ?d a') pp'"
          using next_processed_within [OF g n rx, of ?pp a' b'] less.prems(1,2) m' by auto
        have "post_processor_next t rx pp = Some (pp', Some m)" using Some True q(1) q1 ab' pp'(1) by (simp add: post_processor_next_def)
        moreover have "processed t (lin ?d b + 1) pp'" using pp'(3) m'(3) by (auto simp: processed_def)
        ultimately show ?thesis using pp'(2) by blast
      qed
    qed
    then obtain pp' where pp': "post_processor_next t rx pp = Some (pp', Some m)" "pp_end pp' = pp_end pp" "processed t (lin ?d b + 1) pp'"
      by blast
    have dec: "nat (lin ?d (pp_end pp') + 1 - (lin ?d b + 1)) < nat (?E + 1 - i)" using m(3-5) pp'(2) by simp
    obtain ms where ms: "post_processor_collect t rx pp' = Some ms" "ordered_within t (lin ?d b + 1) ?E ms"
      using less.hyps [OF dec _ _ pp'(3)] less.prems(1,2) pp'(2) by auto
    have "post_processor_collect t rx pp = Some (m # ms)"
      using pp'(1) ms(1) by (subst post_processor_collect.simps) simp
    moreover have "ordered_within t i ?E (m # ms)" using ms(2) m(1-5) unfolding ab by (fastforce simp: ordered_within_def)
    ultimately show ?thesis by blast
  qed
qed


subsection \<open>A match in the last cell\<close>

lemma post_processor_never:
  assumes step: "\<And>pp. I pp \<Longrightarrow> \<exists>pp' m. post_processor_next t rx pp = Some (pp', Some m) \<and> I pp'"
    and s: "I pp"
  shows "post_processor_collect t rx pp = None"
proof -
  let ?P = "\<lambda>t' rx' pp ms. t' = t \<and> rx' = rx \<longrightarrow> \<not> I pp"
  have "?P t rx pp ms" if "post_processor_collect t rx pp = Some ms" for pp ms
  proof (rule post_processor_collect.raw_induct [where P = ?P, OF _ that])
    fix f t1 rx1 pp1 ms1
    assume IH: "\<And>t2 rx2 pp2 y. f t2 rx2 pp2 = Some y \<Longrightarrow> ?P t2 rx2 pp2 y"
      and eq: "post_processor_next t1 rx1 pp1 \<bind> (\<lambda>(pp, r). case r of None \<Rightarrow> Some []
        | Some m \<Rightarrow> f t1 rx1 pp \<bind> (\<lambda>ms. Some (m # ms))) = Some ms1"
    show "?P t1 rx1 pp1 ms1"
    proof (intro impI notI, elim conjE)
      assume p: "t1 = t" "rx1 = rx" "I pp1"
      obtain pp' m where n: "post_processor_next t rx pp1 = Some (pp', Some m)" "I pp'" using step [OF p(3)] by blast
      then show False using eq IH [of t rx pp'] p(1,2) by (cases "f t rx pp'") auto
    qed
  qed
  then show ?thesis using s by (cases "post_processor_collect t rx pp") auto
qed

text \<open>C40: If a match ends in the last cell of the grid and the expression also matches this cell alone, post-processing the match
  yields the last cell over and over and never ends: the start of the next search is clamped to the grid.\<close>

theorem post_processing_runs_forever:
  assumes "grid_core_ok (t_grid t)" "corner = Point (bottommost_line (t_dims t)) (last_column (t_dims t))"
    and "hint_post_processing t (a, corner) = Some (Some (a, corner))"
    and "regex_search_right t rx corner corner = Some (Some (corner, corner))"
    and "hint_post_processing t (corner, corner) = Some (Some (corner, corner))"
  shows "processed_matches t rx [(a, corner)] = None"
proof -
  let ?d = "t_dims t"
  have wf: "wf_dims ?d" using grid_core_ok_dims [OF assms(1)] by (simp add: t_dims_def)
  have c: "in_grid ?d corner" using wf by (auto simp: assms(2) in_grid_def wf_dims_def dims_defs)
  have l: "last_lin ?d = lin ?d corner" by (simp add: assms(2) last_lin_def)
  have u: "unlin ?d (lin ?d corner) = corner" using c by (simp add: in_grid_def)
  have "point_add ?d BGrid 1 corner = unlin ?d (min (last_lin ?d) (lin ?d corner + 1))" by (rule add_one_at [OF wf c])
  also have "\<dots> = corner" by (simp add: l u)
  finally have add: "point_add ?d BGrid 1 corner = corner" .
  define I where "I = (\<lambda>pp :: post_processor. pp_next_match pp \<noteq> None \<and> pp_start pp = corner \<and> pp_end pp = corner)"
  have "post_processor_new t rx (a, corner) = Some \<lparr>pp_next_match = Some (a, corner), pp_start = corner, pp_end = corner\<rparr>"
    unfolding post_processor_new_def by (subst next_processed_match.simps) (simp add: assms(3) add [unfolded One_nat_def])
  moreover have "post_processor_collect t rx \<lparr>pp_next_match = Some (a, corner), pp_start = corner, pp_end = corner\<rparr> = None"
  proof (rule post_processor_never [where I = I])
    fix pp assume p: "I pp"
    obtain m where m: "pp_next_match pp = Some m" using p by (auto simp: I_def)
    have "next_processed_match t rx (pp\<lparr>pp_next_match := None\<rparr>) (corner, corner) =
        Some (pp\<lparr>pp_start := corner, pp_next_match := Some (corner, corner)\<rparr>)"
      by (subst next_processed_match.simps) (simp add: assms(5) add [unfolded One_nat_def])
    then have "post_processor_next t rx pp = Some (pp\<lparr>pp_start := corner, pp_next_match := Some (corner, corner)\<rparr>, Some m)"
      using p m assms(4) by (simp add: post_processor_next_def I_def)
    then show "\<exists>pp' m. post_processor_next t rx pp = Some (pp', Some m) \<and> I pp'" using p by (auto simp: I_def)
  qed (simp add: I_def)
  ultimately show ?thesis by simp
qed

subsection \<open>Concrete hints\<close>

theorem hint_labels_prefix_free_witness:
  "\<exists>labels. match_labels default_alphabet [] 400 = Some labels \<and> length labels = 400
    \<and> (\<forall>i < 400. \<forall>j < 400. labels ! i \<noteq> [] \<and> (prefix (labels ! i) (labels ! j) \<longrightarrow> i = j))"
  by (rule hint_labels_prefix_free) code_simp+


text \<open>A terminal of one line with two links, and a hint for hyperlinks.\<close>

definition link_cell :: "uchar \<Rightarrow> cell" where
  "link_cell c = default_cell\<lparr>c_char := c, c_extra := Some (default_extra\<lparr>ce_hyperlink := Some \<lparr>hl_id = [c], hl_uri = [c]\<rparr>\<rparr>)\<rparr>"

definition link_term :: terminal where
  "link_term = demo_term\<lparr>t_grid :=
     \<lparr>g_cursor = default_cursor, g_saved_cursor = default_cursor,
      g_raw = \<lparr>st_inner = [\<lparr>row_inner = [link_cell 65, link_cell 66], row_occ = 2\<rparr>], st_zero = 0, st_visible_lines = 1, st_len = 1\<rparr>,
      g_columns = 2, g_lines = 1, g_display_offset = 0, g_max_scroll_limit = 0, g_auto_scroll_enabled = True\<rparr>\<rparr>"

definition link_hint :: "nat hint" where
  "link_hint = \<lparr>hn_regex = None, hn_hyperlinks = True, hn_action = HintAction HintCopy, hn_post_processing = False, hn_persist = False,
     hn_mouse = None\<rparr>"

lemma link_core: "grid_core_ok (t_grid link_term)"
  by (simp add: link_term_def grid_core_ok_def storage_ok_def row_ok_def grid_dims_def history_size_def)

lemma link_cells: "g_cell (t_grid link_term) (Point 0 0) = link_cell 65" "g_cell (t_grid link_term) (Point 0 (Suc 0)) = link_cell 66"
  by (simp_all add: g_cell_def g_row_def st_row_def st_pos_def link_term_def)

lemma link_dims: "grid_dims (t_grid link_term) = \<lparr>total_lines = 1, screen_lines = 1, columns = 2\<rparr>"
  by (simp add: link_term_def grid_dims_def)

lemma link_display: "display_cells link_term = Some [(Point 0 0, link_cell 65), (Point 0 1, link_cell 66)]"
proof -
  have "next_loop (t_grid link_term) (\<lambda>cs p x. Inl (cs @ [(p, x)])) [] (display_iter (t_grid link_term)) = Some (Inl
      (concat (map (row_cells (t_grid link_term)) (irange (- int (g_display_offset (t_grid link_term)))
        (int (g_lines (t_grid link_term)) - int (g_display_offset (t_grid link_term)))))) :: (point \<times> cell) list + unit)"
    by (rule display_iterator_yields_viewport [OF link_core]) (simp add: link_term_def)
  moreover have "g_display_offset (t_grid link_term) = 0" "g_lines (t_grid link_term) = 1" "g_columns (t_grid link_term) = 2"
    by (simp_all add: link_term_def)
  ultimately show ?thesis by (simp add: display_cells_def row_cells_def link_cells irange_def upt_rec numeral_2_eq_2)
qed

lemma link_matches: "all_matches link_term build link_hint = Some [(Point 0 0, Point 0 0), (Point 0 1, Point 0 1)]"
proof -
  have h: "hyperlink (link_cell c) = Some \<lparr>hl_id = [c], hl_uri = [c]\<rparr>" for c
    by (simp add: link_cell_def hyperlink_def)
  show ?thesis by (simp add: all_matches_def link_hint_def regex_matches_def visible_unique_hyperlinks_def link_display h Let_def)
qed

theorem typed_label_selects_witness:
  "\<exists>labels. match_labels default_alphabet [] 2 = Some labels \<and> length labels = 2
    \<and> type_keys link_term (\<lambda>_. None) (labels ! 1) \<lparr>hs_hint = Some link_hint, hs_alphabet = default_alphabet, hs_matches = [],
          hs_labels = [], hs_keys = []\<rparr> =
        Some (replicate (length (labels ! 1) - 1) None @
          [Some \<lparr>hx_bounds = (Point 0 1, Point 0 1), hx_hyperlink = hyperlink (link_cell 66), hx_hint = link_hint\<rparr>])"
proof -
  let ?hs = "\<lparr>hs_hint = Some link_hint, hs_alphabet = default_alphabet, hs_matches = [], hs_labels = [], hs_keys = []\<rparr>"
  let ?ms = "[(Point 0 0, Point 0 0), (Point 0 1, Point 0 1)] :: regex_match list"
  have a: "distinct default_alphabet" "2 \<le> length default_alphabet" by code_simp+
  have c: "set default_alphabet \<inter> hint_control_keys = {}" unfolding hint_control_keys_def by code_simp
  have s: "?ms = dedup_starts (sort_matches ?ms)" by (simp add: sort_matches_def match_before_def)
  have x: "grid_get (t_grid link_term) (fst (?ms ! 1)) = Some (link_cell 66)"
    using grid_get_cell [OF link_core, of "Point 0 1"] by (simp add: link_dims in_grid_def dims_defs link_cells)
  show ?thesis
    using typed_label_selects [of ?hs link_hint link_term "\<lambda>_. None" ?ms ?ms 1 "link_cell 66"] a c s x link_matches
    by (simp add: numeral_2_eq_2)
qed

text \<open>A space in the last cell.\<close>

lemma demo_space: "in_grid (t_dims demo_term) p \<Longrightarrow> g_cell (t_grid demo_term) p = default_cell"
  using demo_cell by (simp add: t_dims_def)

lemma space_here:
  assumes "in_grid (t_dims demo_term) p" "lz_dfa re = space_dfa"
  shows "search_point demo_term p p re = Some (Some p)"
proof -
  have g: "grid_core_ok (t_grid demo_term)" by (rule wf_core [OF demo_wf])
  have d: "grid_dims (t_grid demo_term) = t_dims demo_term" by (simp add: t_dims_def)
  have get: "grid_get (t_grid demo_term) p = Some default_cell"
    using grid_get_cell [OF g, of p] assms(1) demo_space [OF assms(1)] by (simp add: d)
  have sk: "skip_fullwidth demo_term (iter_from (t_grid demo_term) p) default_cell dir = Some (iter_from (t_grid demo_term) p, default_cell)" for dir
    by (cases dir) (simp_all add: skip_fullwidth_def default_cell_def flag_simps)
  have ch: "char_bytes dir 32 = [32]" for dir by (cases dir) (simp_all add: char_bytes_def utf8_char_def)
  have it: "iter_cell (t_grid demo_term) (iter_from (t_grid demo_term) p) = Some default_cell" "it_point (iter_from (t_grid demo_term) p) = p"
    using get by (simp_all add: iter_cell_def iter_from_def)
  have c: "c_char default_cell = 32" by (simp add: default_cell_def)
  show ?thesis
    unfolding search_point_def regex_search_internal_def
    apply (simp add: it sk assms(2) space_dfa_def c Let_def)
    apply (subst search_loop.simps)
    by (simp add: search_step_def ch assms(2) space_dfa_def at_end_def)
qed

theorem post_processing_runs_forever_witness:
  "processed_matches demo_term (demo_regex space_dfa) [(Point 2 3, Point 2 3)] = None"
proof -
  have g: "grid_core_ok (t_grid demo_term)" by (rule wf_core [OF demo_wf])
  have c: "Point 2 3 = Point (bottommost_line (t_dims demo_term)) (last_column (t_dims demo_term))" "in_grid (t_dims demo_term) (Point 2 3)"
    by (simp_all add: in_grid_def t_dims_def demo_simps dims_defs)
  have rx: "lz_dfa (rx_right_fdfa (demo_regex space_dfa)) = space_dfa" "lz_dfa (rx_right_rdfa (demo_regex space_dfa)) = space_dfa"
    by (simp_all add: demo_regex_def regex_search_new_def lazy_dfa_new_def Let_def)
  have r: "regex_search_right demo_term (demo_regex space_dfa) (Point 2 3) (Point 2 3) = Some (Some (Point 2 3, Point 2 3))"
    by (simp add: regex_search_right_def space_here [OF c(2)] rx)
  have get: "iter_cell (t_grid demo_term) (iter_from (t_grid demo_term) (Point 2 3)) = Some default_cell"
    "it_point (iter_from (t_grid demo_term) (Point 2 3)) = Point 2 3"
    using grid_get_cell [OF g, of "Point 2 3"] c(2) demo_space [OF c(2)] by (simp_all add: iter_cell_def iter_from_def t_dims_def)
  have h: "hint_post_processing demo_term (Point 2 3, Point 2 3) = Some (Some (Point 2 3, Point 2 3))"
    unfolding hint_post_processing_def
    by (subst balance_loop.simps, subst trim_loop.simps) (simp add: get Let_def default_cell_def count_bracket_def)
  show ?thesis by (rule post_processing_runs_forever [OF g c(1) h r h])
qed

end
