(* ===== verification/Ui_State.thy ===== *)
theory Ui_State
  imports Hints Mouse Vi_Mode Keyboard
begin

text \<open>
  The state behind the user interface of one window: \<^verbatim>\<open>ActionContext\<close> of \<^verbatim>\<open>velacritty/src/event.rs\<close> with the settings of the cursor
  from \<^verbatim>\<open>config/cursor.rs\<close>. This theory holds the state, scrolling, selections and the blinking of the cursor.

  What the code asks of the window, the clipboard, the pseudo terminal or the system is appended to the list \<open>ui_effects\<close>, in
  order. What it is told by them, and the configuration, is the record \<open>ui_env\<close>; the clock is read once per event. \<open>None\<close> is a
  panic or a loop that does not end.
\<close>

definition MAX_SEARCH_WHILE_TYPING :: "nat option" where "MAX_SEARCH_WHILE_TYPING = Some 1000"
definition MAX_SEARCH_HISTORY_SIZE :: nat where "MAX_SEARCH_HISTORY_SIZE = 255"
definition RESIZE_DEBOUNCE_DURATION :: nat where "RESIZE_DEBOUNCE_DURATION = 16"
definition BELL_CMD_COOLDOWN :: nat where "BELL_CMD_COOLDOWN = 100"

subsection \<open>Settings of the cursor\<close>

datatype cursor_blinking = BlinkNever | BlinkOff | BlinkOn | BlinkAlways

fun cursor_blinking_override :: "cursor_blinking \<Rightarrow> bool option" where
  "cursor_blinking_override BlinkNever = Some False"
| "cursor_blinking_override BlinkOff = None"
| "cursor_blinking_override BlinkOn = None"
| "cursor_blinking_override BlinkAlways = Some True"

definition cursor_blinks :: "cursor_blinking \<Rightarrow> bool" where
  "cursor_blinks b \<longleftrightarrow> b = BlinkOn \<or> b = BlinkAlways"

datatype config_cursor_style = ShapeOnly cursor_shape | WithBlinking cursor_shape cursor_blinking

fun style_blinking_override :: "config_cursor_style \<Rightarrow> bool option" where
  "style_blinking_override (ShapeOnly _) = None"
| "style_blinking_override (WithBlinking _ b) = cursor_blinking_override b"

fun vte_cursor_style :: "config_cursor_style \<Rightarrow> cursor_style" where
  "vte_cursor_style (ShapeOnly s) = \<lparr>cs_shape = s, cs_blinking = False\<rparr>"
| "vte_cursor_style (WithBlinking s b) = \<lparr>cs_shape = s, cs_blinking = cursor_blinks b\<rparr>"

definition MIN_BLINK_INTERVAL :: nat where "MIN_BLINK_INTERVAL = 10"
definition MIN_BLINK_CYCLES_BEFORE_PAUSE :: nat where "MIN_BLINK_CYCLES_BEFORE_PAUSE = 1"

record cursor_config =
  cc_style :: config_cursor_style
  cc_vi_mode_style :: "config_cursor_style option"
  cc_unfocused_hollow :: bool
  cc_blink_interval :: nat
  cc_blink_timeout :: nat

definition blink_interval :: "cursor_config \<Rightarrow> nat" where
  "blink_interval c = max (cc_blink_interval c) MIN_BLINK_INTERVAL"

text \<open>In milliseconds.\<close>

definition blink_timeout :: "cursor_config \<Rightarrow> nat" where
  "blink_timeout c =
     (if cc_blink_timeout c = 0 then 0
      else max (cc_blink_interval c * 2 * MIN_BLINK_CYCLES_BEFORE_PAUSE) (cc_blink_timeout c * 1000))"

subsection \<open>Text being composed by an input method\<close>

text \<open>The offset of the cursor is counted in bytes from the start, or in cells from the end; \<open>None\<close> stands for an offset that is
  not at the start of a character, where the code panics.\<close>

record preedit =
  pe_text :: ustring
  pe_byte_offset :: "(nat \<times> nat) option"
  pe_end_offset :: "(nat \<times> nat) option"

fun str_from :: "nat \<Rightarrow> ustring \<Rightarrow> ustring option" where
  "str_from 0 s = Some s"
| "str_from (Suc n) [] = None"
| "str_from (Suc n) (c # s) =
     (if length (utf8_encode [c]) \<le> Suc n then str_from (Suc n - length (utf8_encode [c])) s else None)"

definition cell_count :: "(uchar \<Rightarrow> nat option) \<Rightarrow> ustring \<Rightarrow> nat" where
  "cell_count width s = sum_list (map (\<lambda>c. case width c of Some w \<Rightarrow> w | None \<Rightarrow> 1) s)"

definition preedit_new :: "(uchar \<Rightarrow> nat option) \<Rightarrow> ustring \<Rightarrow> (nat \<times> nat) option \<Rightarrow> preedit option" where
  "preedit_new width text offset =
     (case offset of
        None \<Rightarrow> Some \<lparr>pe_text = text, pe_byte_offset = None, pe_end_offset = None\<rparr>
      | Some (a, b) \<Rightarrow> do {
          s \<leftarrow> str_from a text;
          e \<leftarrow> str_from b text;
          Some \<lparr>pe_text = text, pe_byte_offset = Some (a, b), pe_end_offset = Some (cell_count width s, cell_count width e)\<rparr>
        })"

subsection \<open>The state\<close>

datatype ui_event =
    TerminalEvent event | MessageEvent message | ScrollEvent scroll | BlinkCursorEvent | BlinkCursorTimeout | SearchNextEvent
  | FrameEvent | ResizeEvent nat nat

datatype ui_effect =
    Notify "nat list" | ClipboardStored clipboard_type ustring | SpawnDaemon ustring "ustring list" | SetImeAllowed bool
  | SetMouseVisible bool | SetWindowTitle ustring | SetUrgent bool | RingVisualBell | SetMouseCursor cursor_icon | ToggleFullscreenWindow
  | ToggleMaximizedWindow | SetVisible bool | SetMinimized bool | ReleaseHold | ChangeFontSize int | ResetFontSizeEffect
  | OpenWindow | ResizePty window_size

record 'q search_ui =
  su_direction :: direction
  su_history_index :: "nat option"
  su_display_offset_delta :: int
  su_origin :: point
  su_focused_match :: "regex_match option"
  su_history :: "ustring list"
  su_dfas :: "'q regex_search option"

definition search_ui_default :: "'q search_ui" where
  "search_ui_default = \<lparr>su_direction = DirRight, su_history_index = None, su_display_offset_delta = 0, su_origin = default_point,
     su_focused_match = None, su_history = [], su_dfas = None\<rparr>"

text \<open>The text of the expression, if a search is active.\<close>

definition search_text :: "'q search_ui \<Rightarrow> ustring option" where
  "search_text s = Option.bind (su_history_index s) (\<lambda>i. if i < length (su_history s) then Some (su_history s ! i) else None)"

record inline_search_state =
  is_char_pending :: bool
  is_character :: "uchar option"
  is_direction :: direction
  is_stop_short :: bool

definition inline_search_default :: inline_search_state where
  "inline_search_default = \<lparr>is_char_pending = False, is_character = None, is_direction = DirRight, is_stop_short = False\<rparr>"

record 'q ui =
  ui_term :: terminal
  ui_search :: "'q search_ui"
  ui_inline :: inline_search_state
  ui_hints :: "'q hint_state"
  ui_vi_hint :: "'q hint_match option"
  ui_highlighted_hint :: "'q hint_match option"
  ui_hint_mouse_point :: "point option"
  ui_mouse :: mouse
  ui_modifiers :: modifiers
  ui_scheduler :: "ui_event scheduler"
  ui_messages :: message_buffer
  ui_blink_timed_out :: bool
  ui_cursor_hidden :: bool
  ui_preedit :: "preedit option"
  ui_ime_enabled :: bool
  ui_auto_scroll :: bool
  ui_mouse_visible :: bool
  ui_dirty :: bool
  ui_pending_dirty :: bool
  ui_pending_dimensions :: "(nat \<times> nat) option"
  ui_fully_damaged :: bool
  ui_occluded :: bool
  ui_prev_bell :: "nat option"
  ui_effects :: "ui_effect list"

record 'q ui_env =
  ue_now :: nat
  ue_window :: nat
  ue_size :: size_info
  ue_build :: "ustring \<Rightarrow> 'q regex_search option"
  ue_hints :: "'q hint list"
  ue_clipboard :: "clipboard_type \<Rightarrow> ustring"
  ue_cursor :: cursor_config
  ue_hide_when_typing :: bool
  ue_save_to_clipboard :: bool
  ue_dynamic_title :: bool
  ue_preserve_title :: bool
  ue_title :: ustring
  ue_bell_command :: "program option"
  ue_args :: "ustring list"
  ue_colors :: "nat \<Rightarrow> rgb"
  ue_key_bindings :: "key_binding list"
  ue_hint_bindings :: "key_binding option list"
  ue_mouse_bindings :: "mouse_button binding list"
  ue_char_width :: "uchar \<Rightarrow> nat option"
  ue_key_text :: "named_key \<Rightarrow> ustring option"
  ue_lowercase :: "ustring \<Rightarrow> ustring"
  ue_lowercase_char :: "uchar \<Rightarrow> uchar"
  ue_min_scrolling_height :: int
  ue_scrolling_step :: int

definition upd_term :: "(terminal \<Rightarrow> terminal) \<Rightarrow> 'q ui \<Rightarrow> 'q ui" where
  "upd_term f u = u\<lparr>ui_term := f (ui_term u)\<rparr>"

definition effect :: "ui_effect \<Rightarrow> 'q ui \<Rightarrow> 'q ui" where
  "effect x u = u\<lparr>ui_effects := ui_effects u @ [x]\<rparr>"

definition ui_mark_dirty :: "'q ui \<Rightarrow> 'q ui" where
  "ui_mark_dirty u = u\<lparr>ui_dirty := True\<rparr>"

definition dirty_if :: "bool \<Rightarrow> 'q ui \<Rightarrow> 'q ui" where
  "dirty_if b u = u\<lparr>ui_dirty := ui_dirty u \<or> b\<rparr>"

text \<open>Nothing is written for an empty text.\<close>

definition write_to_pty :: "nat list \<Rightarrow> 'q ui \<Rightarrow> 'q ui" where
  "write_to_pty bytes u = (if bytes = [] then u else effect (Notify bytes) u)"

definition search_active :: "'q ui \<Rightarrow> bool" where
  "search_active u \<longleftrightarrow> su_history_index (ui_search u) \<noteq> None"

definition ui_vi :: "'q ui \<Rightarrow> bool" where
  "ui_vi u \<longleftrightarrow> has_mode (ui_term u) VI"

definition ui_timer :: "'q ui_env \<Rightarrow> topic \<Rightarrow> timer_id" where
  "ui_timer e topic = \<lparr>ti_topic = topic, ti_window = ue_window e\<rparr>"

definition ui_unschedule :: "'q ui_env \<Rightarrow> topic \<Rightarrow> 'q ui \<Rightarrow> 'q ui" where
  "ui_unschedule e topic u = u\<lparr>ui_scheduler := snd (unschedule (ui_timer e topic) (ui_scheduler u))\<rparr>"

definition ui_schedule :: "'q ui_env \<Rightarrow> topic \<Rightarrow> ui_event \<Rightarrow> nat \<Rightarrow> bool \<Rightarrow> 'q ui \<Rightarrow> 'q ui" where
  "ui_schedule e topic event interval repeat u =
     u\<lparr>ui_scheduler := schedule (ue_now e) event interval repeat (ui_timer e topic) (ui_scheduler u)\<rparr>"

definition ui_scheduled :: "'q ui_env \<Rightarrow> topic \<Rightarrow> 'q ui \<Rightarrow> bool" where
  "ui_scheduled e topic u = scheduled (ui_timer e topic) (ui_scheduler u)"

subsection \<open>Blinking\<close>

definition schedule_blinking :: "'q ui_env \<Rightarrow> 'q ui \<Rightarrow> 'q ui" where
  "schedule_blinking e = ui_schedule e BlinkCursor BlinkCursorEvent (blink_interval (ue_cursor e)) True"

definition schedule_blinking_timeout :: "'q ui_env \<Rightarrow> 'q ui \<Rightarrow> 'q ui" where
  "schedule_blinking_timeout e u =
     (let timeout = blink_timeout (ue_cursor e) in
      if timeout = 0 then u else ui_schedule e BlinkTimeout BlinkCursorTimeout timeout False u)"

definition update_cursor_blinking :: "'q ui_env \<Rightarrow> 'q ui \<Rightarrow> 'q ui" where
  "update_cursor_blinking e u =
     (let vi_mode = ui_vi u;
          cursor_style = (if vi_mode then (case cc_vi_mode_style (ue_cursor e) of Some s \<Rightarrow> s | None \<Rightarrow> cc_style (ue_cursor e))
                          else cc_style (ue_cursor e));
          terminal_blinking = cs_blinking (term_cursor_style (ui_term u));
          blinking = (case style_blinking_override cursor_style of Some b \<Rightarrow> b | None \<Rightarrow> terminal_blinking);
          blinking = (blinking \<and> (vi_mode \<or> has_mode (ui_term u) SHOW_CURSOR) \<and> ui_preedit u = None);
          u = ui_unschedule e BlinkTimeout (ui_unschedule e BlinkCursor u);
          u = u\<lparr>ui_blink_timed_out := False\<rparr>
      in if blinking \<and> t_is_focused (ui_term u)
         then schedule_blinking_timeout e (schedule_blinking e u)
         else ui_mark_dirty (u\<lparr>ui_cursor_hidden := False\<rparr>))"

definition on_typing_start :: "'q ui_env \<Rightarrow> 'q ui \<Rightarrow> 'q ui" where
  "on_typing_start e u =
     (let u = (case unschedule (ui_timer e BlinkCursor) (ui_scheduler u) of
                 (Some _, s) \<Rightarrow>
                   let u = schedule_blinking e (u\<lparr>ui_scheduler := s\<rparr>) in
                   if ui_cursor_hidden u then ui_mark_dirty (u\<lparr>ui_cursor_hidden := False\<rparr>) else u
               | (None, s) \<Rightarrow>
                   let u = u\<lparr>ui_scheduler := s\<rparr> in
                   if ui_blink_timed_out u then update_cursor_blinking e u else u)
      in if ue_hide_when_typing e \<and> ui_mouse_visible u
         then effect (SetMouseVisible False)
                (u\<lparr>ui_mouse_visible := False, ui_mouse := (ui_mouse u)\<lparr>ms_hint_highlight_dirty := True\<rparr>\<rparr>)
         else u)"

subsection \<open>Selections\<close>

definition ui_clipboard_store :: "clipboard_type \<Rightarrow> ustring \<Rightarrow> 'q ui \<Rightarrow> 'q ui" where
  "ui_clipboard_store ty text = effect (ClipboardStored ty text)"

definition copy_selection :: "'q ui_env \<Rightarrow> clipboard_type \<Rightarrow> 'q ui \<Rightarrow> 'q ui option" where
  "copy_selection e ty u = do {
     text \<leftarrow> selection_to_string (ui_term u);
     Some (case text of
             None \<Rightarrow> u
           | Some text \<Rightarrow>
               if text = [] then u
               else
                 let u = (if ty = SelectionClipboard \<and> ue_save_to_clipboard e then ui_clipboard_store Clipboard text u else u)
                 in ui_clipboard_store ty text u)
   }"

definition ui_selection_is_empty :: "'q ui \<Rightarrow> bool" where
  "ui_selection_is_empty u = (case t_selection (ui_term u) of None \<Rightarrow> True | Some s \<Rightarrow> selection_is_empty s)"

definition clear_selection :: "'q ui \<Rightarrow> 'q ui" where
  "clear_selection u =
     dirty_if (case t_selection (ui_term u) of None \<Rightarrow> False | Some s \<Rightarrow> \<not> selection_is_empty s)
       (upd_term (\<lambda>t. t\<lparr>t_selection := None\<rparr>) u)"

definition update_selection :: "point \<Rightarrow> side \<Rightarrow> 'q ui \<Rightarrow> 'q ui" where
  "update_selection p side u =
     (case t_selection (ui_term u) of
        None \<Rightarrow> u
      | Some s \<Rightarrow>
          let p = Point (min (p_line p) (bottommost_line (t_dims (ui_term u)))) (p_column p);
              s = selection_update p side s;
              follow = (ui_vi u \<and> \<not> search_active u);
              u = (if follow then upd_term (\<lambda>t. t\<lparr>t_vi_cursor := p\<rparr>) u else u);
              s = (if follow then include_all s else s)
          in ui_mark_dirty (upd_term (\<lambda>t. t\<lparr>t_selection := Some s\<rparr>) u))"

definition start_selection :: "'q ui_env \<Rightarrow> selection_type \<Rightarrow> point \<Rightarrow> side \<Rightarrow> 'q ui \<Rightarrow> 'q ui option" where
  "start_selection e ty p side u =
     copy_selection e SelectionClipboard (ui_mark_dirty (upd_term (\<lambda>t. t\<lparr>t_selection := Some (selection_new ty p side)\<rparr>) u))"

definition ui_toggle_selection :: "'q ui_env \<Rightarrow> selection_type \<Rightarrow> point \<Rightarrow> side \<Rightarrow> 'q ui \<Rightarrow> 'q ui option" where
  "ui_toggle_selection e ty p side u =
     (case t_selection (ui_term u) of
        Some s \<Rightarrow>
          if selection_is_empty s then start_selection e ty p side u
          else if sel_ty s = ty then Some (clear_selection u)
          else copy_selection e SelectionClipboard (ui_mark_dirty (upd_term (\<lambda>t. t\<lparr>t_selection := Some (s\<lparr>sel_ty := ty\<rparr>)\<rparr>) u))
      | None \<Rightarrow> start_selection e ty p side u)"

definition expand_selection :: "'q ui_env \<Rightarrow> 'q ui \<Rightarrow> 'q ui option" where
  "expand_selection e u =
     (if ms_click_state (ui_mouse u) = NoClick then Some u
      else
        let selection_type =
              (if m_control (ui_modifiers u) then Block
               else case ms_click_state (ui_mouse u) of DoubleClick \<Rightarrow> Semantic | TripleClick \<Rightarrow> Lines | _ \<Rightarrow> Simple)
        in do {
          p \<leftarrow> mouse_point (ue_size e) (g_display_offset (t_grid (ui_term u))) (ui_mouse u);
          case t_selection (ui_term u) of
            None \<Rightarrow> Some u
          | Some s \<Rightarrow> do {
              let u = upd_term (\<lambda>t. t\<lparr>t_selection := Some (s\<lparr>sel_ty := selection_type\<rparr>)\<rparr>) u;
              let u = update_selection p (ms_cell_side (ui_mouse u)) u;
              Some (if ui_vi u \<and> \<not> search_active u then upd_term (\<lambda>t. t\<lparr>t_vi_cursor := p\<rparr>) u else u)
            }
        })"

subsection \<open>Scrolling\<close>

definition ui_scroll :: "'q ui_env \<Rightarrow> scroll \<Rightarrow> 'q ui \<Rightarrow> 'q ui option" where
  "ui_scroll e sc u = do {
     let old_offset = int (g_display_offset (t_grid (ui_term u)));
     let old_vi_cursor = t_vi_cursor (ui_term u);
     let u = upd_term (scroll_display sc) u;
     let lines_changed = old_offset - int (g_display_offset (t_grid (ui_term u)));
     let u = (if search_active u
              then u\<lparr>ui_search := (ui_search u)\<lparr>su_display_offset_delta := su_display_offset_delta (ui_search u) + lines_changed\<rparr>\<rparr>
              else u);
     let vi_mode = ui_vi u;
     u \<leftarrow> (if vi_mode \<and> \<not> ui_selection_is_empty u
           then Some (update_selection (t_vi_cursor (ui_term u)) DirRight u)
           else if ms_left_pressed (ui_mouse u) \<or> ms_right_pressed (ui_mouse u)
           then do {
             p \<leftarrow> mouse_point (ue_size e) (g_display_offset (t_grid (ui_term u))) (ui_mouse u);
             Some (update_selection p (ms_cell_side (ui_mouse u)) u)
           }
           else Some u);
     let u = (if vi_mode then on_typing_start e u else u);
     Some (dirty_if (lines_changed \<noteq> 0 \<or> (vi_mode \<and> old_vi_cursor \<noteq> t_vi_cursor (ui_term u))) u)
   }"

definition ui_pop_message :: "'q ui \<Rightarrow> 'q ui" where
  "ui_pop_message u =
     (if ui_messages u = [] then u else u\<lparr>ui_pending_dirty := True, ui_messages := message_pop (ui_messages u)\<rparr>)"

end
