(* ===== verification/Ui_Search.thy ===== *)
theory Ui_Search
  imports Ui_State
begin

text \<open>
  Searching from the user interface: the search bar with its history, the focused match, and searches for a single character in
  vi mode (\<^verbatim>\<open>ActionContext\<close> of \<^verbatim>\<open>velacritty/src/event.rs\<close>).
\<close>

definition upd_search :: "('q search_ui \<Rightarrow> 'q search_ui) \<Rightarrow> 'q ui \<Rightarrow> 'q ui" where
  "upd_search f u = u\<lparr>ui_search := f (ui_search u)\<rparr>"

definition search_reset_state :: "'q ui_env \<Rightarrow> 'q ui \<Rightarrow> 'q ui" where
  "search_reset_state e u =
     (let u = ui_unschedule e DelayedSearch u;
          u = upd_search (\<lambda>s. s\<lparr>su_focused_match := None\<rparr>) u
      in if \<not> ui_vi u then u
         else
           let u = upd_term (\<lambda>t. t\<lparr>t_vi_cursor := su_origin (ui_search u)\<rparr>) u;
               u = upd_term (scroll_display (Delta (su_display_offset_delta (ui_search u)))) u
           in ui_mark_dirty (upd_search (\<lambda>s. s\<lparr>su_display_offset_delta := 0\<rparr>) u))"

definition goto_match :: "'q ui_env \<Rightarrow> nat option \<Rightarrow> 'q ui \<Rightarrow> 'q ui option" where
  "goto_match e limit u =
     (case su_dfas (ui_search u) of
        None \<Rightarrow> Some u
      | Some dfas \<Rightarrow> do {
          let limit = (case limit of Some n \<Rightarrow> if n \<le> total_lines (t_dims (ui_term u)) then Some n else None | None \<Rightarrow> None);
          let clamped_origin = point_grid_clamp (t_dims (ui_term u)) BGrid (su_origin (ui_search u));
          r \<leftarrow> search_next (ui_term u) dfas clamped_origin (su_direction (ui_search u)) DirLeft limit;
          Some (ui_mark_dirty
            (case r of
               Some m \<Rightarrow>
                 let old_offset = int (g_display_offset (t_grid (ui_term u)));
                     u = upd_term (if ui_vi u then vi_goto_point (fst m) else scroll_to_point (fst m)) u;
                     display_offset = int (g_display_offset (t_grid (ui_term u)));
                     u = upd_search (\<lambda>s. s\<lparr>su_focused_match := Some m,
                            su_display_offset_delta := su_display_offset_delta s + (old_offset - display_offset)\<rparr>) u
                 in ui_unschedule e DelayedSearch u
             | None \<Rightarrow>
                 if limit = None then search_reset_state e u
                 else
                   let u = (if ui_scheduled e DelayedSearch u then u
                            else ui_schedule e DelayedSearch SearchNextEvent TYPING_SEARCH_DELAY False u)
                   in upd_search (\<lambda>s. s\<lparr>su_focused_match := None\<rparr>) u))
        })"

definition update_search :: "'q ui_env \<Rightarrow> 'q ui \<Rightarrow> 'q ui option" where
  "update_search e u =
     (case search_text (ui_search u) of
        None \<Rightarrow> Some u
      | Some regex \<Rightarrow> do {
          let u = (if ue_hide_when_typing e then effect (SetMouseVisible False) (u\<lparr>ui_mouse_visible := False\<rparr>) else u);
          u \<leftarrow> (if regex = []
                then Some (upd_search (\<lambda>s. s\<lparr>su_dfas := None\<rparr>) (search_reset_state e u))
                else goto_match e MAX_SEARCH_WHILE_TYPING (upd_search (\<lambda>s. s\<lparr>su_dfas := ue_build e regex\<rparr>) u));
          Some (ui_mark_dirty u)
        })"

definition exit_search :: "'q ui_env \<Rightarrow> 'q ui \<Rightarrow> 'q ui" where
  "exit_search e u =
     (let u = effect (SetImeAllowed (\<not> ui_vi u)) u;
          u = u\<lparr>ui_fully_damaged := True, ui_pending_dirty := True\<rparr>
      in upd_search (\<lambda>s. s\<lparr>su_history_index := None, su_focused_match := None\<rparr>) u)"

definition start_search :: "direction \<Rightarrow> 'q ui \<Rightarrow> 'q ui" where
  "start_search dir u =
     (let s = ui_search u;
          h = (case su_history s of
                 [] \<Rightarrow> take MAX_SEARCH_HISTORY_SIZE [[]]
               | r # _ \<Rightarrow> if r \<noteq> [] then take MAX_SEARCH_HISTORY_SIZE ([] # su_history s) else su_history s);
          s = s\<lparr>su_history := h, su_history_index := Some 0, su_direction := dir, su_focused_match := None\<rparr>;
          t = ui_term u;
          s = (if ui_vi u
               then
                 let origin = t_vi_cursor t;
                     origin = (if p_line (cu_point (t_cursor t)) + 1 = int (g_lines (t_grid t))
                               then Point (p_line origin - 1) (p_column origin) else origin)
                 in s\<lparr>su_origin := origin, su_display_offset_delta := 0\<rparr>
               else
                 let viewport_top = - int (g_display_offset (t_grid t)) - 1;
                     viewport_bottom = viewport_top + bottommost_line (t_dims t)
                 in s\<lparr>su_origin := (case dir of
                        DirRight \<Rightarrow> Point viewport_top 0
                      | DirLeft \<Rightarrow> Point viewport_bottom (last_column (t_dims t)))\<rparr>);
          u = effect (SetImeAllowed True) (u\<lparr>ui_search := s\<rparr>)
      in u\<lparr>ui_fully_damaged := True, ui_pending_dirty := True\<rparr>)"

definition cancel_search :: "'q ui_env \<Rightarrow> 'q ui \<Rightarrow> 'q ui option" where
  "cancel_search e u = do {
     u \<leftarrow> (if ui_vi u then Some (search_reset_state e u)
           else
             case su_focused_match (ui_search u) of
               None \<Rightarrow> Some u
             | Some m \<Rightarrow> do {
                 u \<leftarrow> start_selection e Simple (fst m) DirLeft u;
                 copy_selection e SelectionClipboard (update_selection (snd m) DirRight u)
               });
     Some (exit_search e (upd_search (\<lambda>s. s\<lparr>su_dfas := None\<rparr>) u))
   }"

definition confirm_search :: "'q ui_env \<Rightarrow> 'q ui \<Rightarrow> 'q ui option" where
  "confirm_search e u =
     (if \<not> ui_vi u then cancel_search e u
      else do {
        u \<leftarrow> (if ui_scheduled e DelayedSearch u then goto_match e None u else Some u);
        Some (exit_search e u)
      })"

text \<open>The characters the search bar accepts.\<close>

definition search_printable :: "uchar \<Rightarrow> bool" where
  "search_printable c \<longleftrightarrow> (32 \<le> c \<and> c \<le> 126) \<or> (0xa0 \<le> c \<and> c \<le> 0x10ffff)"

definition search_input :: "'q ui_env \<Rightarrow> uchar \<Rightarrow> 'q ui \<Rightarrow> 'q ui option" where
  "search_input e c u =
     (case su_history_index (ui_search u) of
        None \<Rightarrow> Some u
      | Some index \<Rightarrow> do {
          u \<leftarrow> (if index = 0 then Some u
                else do {
                  regex \<leftarrow> vget (su_history (ui_search u)) index;
                  Some (upd_search (\<lambda>s. s\<lparr>su_history := (su_history s)[0 := regex], su_history_index := Some 0\<rparr>) u)
                });
          regex \<leftarrow> vget (su_history (ui_search u)) 0;
          if c \<in> {0x08, 0x7f} \<or> search_printable c
          then do {
            let regex = (if c \<in> {0x08, 0x7f} then butlast regex else regex @ [c]);
            let u = upd_search (\<lambda>s. s\<lparr>su_history := (su_history s)[0 := regex]\<rparr>) u;
            let u = (if ui_vi u then u else upd_term (\<lambda>t. t\<lparr>t_selection := None\<rparr>) u);
            update_search e u
          }
          else Some u
        })"

fun search_inputs :: "'q ui_env \<Rightarrow> uchar list \<Rightarrow> 'q ui \<Rightarrow> 'q ui option" where
  "search_inputs e [] u = Some u"
| "search_inputs e (c # cs) u = do { u \<leftarrow> search_input e c u; search_inputs e cs u }"

text \<open>Removing the last word: \<^verbatim>\<open>trim_end\<close>, and all behind the last space.\<close>

definition pop_word :: "ustring \<Rightarrow> ustring" where
  "pop_word regex = rev (dropWhile (\<lambda>c. c \<noteq> 32) (rev (trim_end regex)))"

definition search_pop_word :: "'q ui_env \<Rightarrow> 'q ui \<Rightarrow> 'q ui option" where
  "search_pop_word e u =
     (case (search_text (ui_search u), su_history_index (ui_search u)) of
        (Some regex, Some index) \<Rightarrow>
          update_search e (upd_search (\<lambda>s. s\<lparr>su_history := (su_history s)[index := pop_word regex]\<rparr>) u)
      | _ \<Rightarrow> Some u)"

definition search_history_previous :: "'q ui_env \<Rightarrow> 'q ui \<Rightarrow> 'q ui option" where
  "search_history_previous e u =
     (case su_history_index (ui_search u) of
        None \<Rightarrow> Some u
      | Some index \<Rightarrow>
          if index + 1 \<ge> length (su_history (ui_search u)) then Some u
          else update_search e (upd_search (\<lambda>s. s\<lparr>su_history_index := Some (index + 1)\<rparr>) u))"

definition search_history_next :: "'q ui_env \<Rightarrow> 'q ui \<Rightarrow> 'q ui option" where
  "search_history_next e u =
     (case su_history_index (ui_search u) of
        None \<Rightarrow> Some u
      | Some index \<Rightarrow>
          if index = 0 then Some u
          else update_search e (upd_search (\<lambda>s. s\<lparr>su_history_index := Some (index - 1)\<rparr>) u))"

definition advance_search_origin :: "'q ui_env \<Rightarrow> direction \<Rightarrow> 'q ui \<Rightarrow> 'q ui option" where
  "advance_search_origin e dir u = do {
     let u = (case su_focused_match (ui_search u) of
                None \<Rightarrow> u
              | Some m \<Rightarrow>
                  let new_origin = (case dir of
                        DirRight \<Rightarrow> point_add (t_dims (ui_term u)) BNone 1 (snd m)
                      | DirLeft \<Rightarrow> point_sub (t_dims (ui_term u)) BNone 1 (fst m))
                  in upd_search (\<lambda>s. s\<lparr>su_display_offset_delta := 0, su_origin := new_origin\<rparr>)
                       (upd_term (scroll_to_point new_origin) u));
     let search_direction = su_direction (ui_search u);
     u \<leftarrow> goto_match e None (upd_search (\<lambda>s. s\<lparr>su_direction := dir\<rparr>) u);
     let u = upd_search (\<lambda>s. s\<lparr>su_direction := search_direction\<rparr>) u;
     Some (case su_focused_match (ui_search u) of
             None \<Rightarrow> u
           | Some m \<Rightarrow>
               let new_origin = (case search_direction of DirRight \<Rightarrow> fst m | DirLeft \<Rightarrow> snd m);
                   old_display_offset = int (g_display_offset (t_grid (ui_term u)));
                   u = upd_term (scroll_to_point new_origin) u;
                   new_display_offset = int (g_display_offset (t_grid (ui_term u)));
                   delta = new_display_offset - old_display_offset;
                   u = upd_term (scroll_display (Delta (- delta))) u
               in upd_search (\<lambda>s. s\<lparr>su_display_offset_delta := delta, su_origin := new_origin\<rparr>) u)
   }"

definition ui_search_next :: "point \<Rightarrow> direction \<Rightarrow> side \<Rightarrow> 'q ui \<Rightarrow> regex_match option option" where
  "ui_search_next origin dir side u =
     (case su_dfas (ui_search u) of
        None \<Rightarrow> Some None
      | Some dfas \<Rightarrow> search_next (ui_term u) dfas origin dir side None)"

text \<open>The characters with a meaning in an expression.\<close>

definition regex_special :: "uchar \<Rightarrow> bool" where
  "regex_special c \<longleftrightarrow> c = 36 \<or> (40 \<le> c \<and> c \<le> 43) \<or> c = 63 \<or> (91 \<le> c \<and> c \<le> 94) \<or> (123 \<le> c \<and> c \<le> 125)"

definition escape_seed :: "ustring \<Rightarrow> ustring" where
  "escape_seed text = concat (map (\<lambda>c. if regex_special c then [92, c] else [c]) text)"

definition start_seeded_search :: "'q ui_env \<Rightarrow> direction \<Rightarrow> ustring \<Rightarrow> 'q ui \<Rightarrow> 'q ui option" where
  "start_seeded_search e dir text u = do {
     let origin = t_vi_cursor (ui_term u);
     let u = start_search dir (clear_selection u);
     u \<leftarrow> search_inputs e (escape_seed text) u;
     u \<leftarrow> confirm_search e u;
     if \<not> ui_vi u then Some u
     else do {
       r \<leftarrow> ui_search_next origin DirRight DirRight u;
       target \<leftarrow> (case r of
                    None \<Rightarrow> Some None
                  | Some rm \<Rightarrow>
                      (case dir of
                         DirRight \<Rightarrow> ui_search_next (point_add (t_dims (ui_term u)) BNone 1 (snd rm)) DirRight DirLeft u
                       | DirLeft \<Rightarrow> ui_search_next (point_sub (t_dims (ui_term u)) BNone 1 (fst rm)) DirLeft DirLeft u));
       Some (case target of None \<Rightarrow> u | Some m \<Rightarrow> ui_mark_dirty (upd_term (vi_goto_point (fst m)) u))
     }
   }"

subsection \<open>Searching one character in vi mode\<close>

definition upd_inline :: "(inline_search_state \<Rightarrow> inline_search_state) \<Rightarrow> 'q ui \<Rightarrow> 'q ui" where
  "upd_inline f u = u\<lparr>ui_inline := f (ui_inline u)\<rparr>"

definition start_inline_search :: "direction \<Rightarrow> bool \<Rightarrow> 'q ui \<Rightarrow> 'q ui" where
  "start_inline_search dir stop_short =
     upd_inline (\<lambda>s. s\<lparr>is_stop_short := stop_short, is_direction := dir, is_char_pending := True, is_character := None\<rparr>)"

definition inline_search :: "direction \<Rightarrow> 'q ui \<Rightarrow> 'q ui option" where
  "inline_search dir u =
     (case is_character (ui_inline u) of
        None \<Rightarrow> Some u
      | Some c \<Rightarrow> do {
          let t = ui_term u;
          r \<leftarrow> (case dir of
                  DirRight \<Rightarrow> inline_search_right t (t_vi_cursor t) [c]
                | DirLeft \<Rightarrow> inline_search_left t (t_vi_cursor t) [c]);
          case r of
            Inl _ \<Rightarrow> Some u
          | Inr p \<Rightarrow> do {
              p \<leftarrow> (if is_stop_short (ui_inline u)
                    then do {
                      (it, x) \<leftarrow> iter_move (opposite dir) (t_grid t) (iter_from (t_grid t) p);
                      Some (case x of None \<Rightarrow> p | Some (q, _) \<Rightarrow> q)
                    }
                    else Some p);
              Some (ui_mark_dirty (upd_term (vi_goto_point p) u))
            }
        })"

definition inline_search_next :: "'q ui \<Rightarrow> 'q ui option" where
  "inline_search_next u = inline_search (is_direction (ui_inline u)) u"

definition inline_search_previous :: "'q ui \<Rightarrow> 'q ui option" where
  "inline_search_previous u = inline_search (opposite (is_direction (ui_inline u))) u"

definition inline_search_input :: "ustring \<Rightarrow> 'q ui \<Rightarrow> 'q ui option" where
  "inline_search_input text u =
     (case text of
        [] \<Rightarrow> Some u
      | c # _ \<Rightarrow>
          inline_search_next (effect (SetImeAllowed False) (upd_inline (\<lambda>s. s\<lparr>is_char_pending := False, is_character := Some c\<rparr>) u)))"

end
