(* ===== verification/Ui_Actions.thy ===== *)
theory Ui_Actions
  imports Ui_Search
begin

text \<open>
  What a user can ask for: pasting, hints, vi mode, starting programs, and \<^verbatim>\<open>Action::execute\<close> of
  \<^verbatim>\<open>velacritty/src/input/mod.rs\<close> over the operations of \<^verbatim>\<open>ActionContext\<close> (\<^verbatim>\<open>velacritty/src/event.rs\<close>), for the
  platforms other than macOS and Windows.
\<close>

subsection \<open>Pasting\<close>

definition on_terminal_input_start :: "'q ui_env \<Rightarrow> 'q ui \<Rightarrow> 'q ui option" where
  "on_terminal_input_start e u =
     (let u = clear_selection (on_typing_start e u)
      in if ui_auto_scroll u \<and> g_display_offset (t_grid (ui_term u)) \<noteq> 0 then ui_scroll e Bottom u else Some u)"

text \<open>Without the characters that could end the bracketed paste.\<close>

definition paste_filter :: "ustring \<Rightarrow> ustring" where
  "paste_filter text = filter (\<lambda>c. c \<noteq> 0x1b \<and> c \<noteq> 0x03) text"

text \<open>The two replacements of line breaks by a carriage return.\<close>

fun replace_crlf :: "ustring \<Rightarrow> ustring" where
  "replace_crlf (a # b # s) = (if a = 13 \<and> b = 10 then 13 # replace_crlf s else a # replace_crlf (b # s))"
| "replace_crlf s = s"

definition keystroke_newlines :: "ustring \<Rightarrow> ustring" where
  "keystroke_newlines text = map (\<lambda>c. if c = 10 then 13 else c) (replace_crlf text)"

definition PASTE_BEGIN :: "nat list" where "PASTE_BEGIN = [27, 91, 50, 48, 48, 126]"
definition PASTE_END :: "nat list" where "PASTE_END = [27, 91, 50, 48, 49, 126]"

definition paste :: "'q ui_env \<Rightarrow> ustring \<Rightarrow> bool \<Rightarrow> 'q ui \<Rightarrow> 'q ui option" where
  "paste e text bracketed u =
     (if search_active u then search_inputs e text u
      else if is_char_pending (ui_inline u) then inline_search_input text u
      else if bracketed \<and> has_mode (ui_term u) BRACKETED_PASTE
      then do {
        u \<leftarrow> on_terminal_input_start e u;
        Some (write_to_pty PASTE_END (write_to_pty (utf8_encode (paste_filter text)) (write_to_pty PASTE_BEGIN u)))
      }
      else do {
        u \<leftarrow> on_terminal_input_start e u;
        Some (write_to_pty (utf8_encode (if bracketed then keystroke_newlines text else text)) u)
      })"

subsection \<open>Programs\<close>

fun program_name :: "program \<Rightarrow> ustring" where
  "program_name (Just p) = p"
| "program_name (WithArgs p _) = p"

fun program_args :: "program \<Rightarrow> ustring list" where
  "program_args (Just _) = []"
| "program_args (WithArgs _ args) = args"

text \<open>The arguments a new instance inherits.\<close>

fun inherited_args :: "ustring list \<Rightarrow> ustring list" where
  "inherited_args [] = []"
| "inherited_args (arg # args) =
     (if arg = lit ''-e'' \<or> arg = lit ''--command'' then []
      else if arg = lit ''--working-directory'' then (case args of [] \<Rightarrow> [] | _ # args \<Rightarrow> inherited_args args)
      else arg # inherited_args args)"

definition spawn_new_instance :: "'q ui_env \<Rightarrow> 'q ui \<Rightarrow> 'q ui option" where
  "spawn_new_instance e u =
     (case ue_args e of
        [] \<Rightarrow> None
      | program # args \<Rightarrow> Some (effect (SpawnDaemon program (inherited_args args)) u))"

subsection \<open>Hints\<close>

definition trigger_hint :: "'q ui_env \<Rightarrow> 'q hint_match \<Rightarrow> 'q ui \<Rightarrow> 'q ui option" where
  "trigger_hint e h u =
     (if ms_block_hint_launcher (ui_mouse u) then Some u
      else do {
        text \<leftarrow> hint_text (ui_term u) (ue_build e) h;
        case text of
          None \<Rightarrow> Some u
        | Some text \<Rightarrow>
            (case hn_action (hx_hint h) of
               HintCommand p \<Rightarrow> Some (effect (SpawnDaemon (program_name p) (program_args p @ [text])) u)
             | HintAction HintCopy \<Rightarrow> Some (ui_clipboard_store Clipboard text u)
             | HintAction HintPaste \<Rightarrow> paste e text True u
             | HintAction HintSelect \<Rightarrow> do {
                 u \<leftarrow> start_selection e Simple (fst (hx_bounds h)) DirLeft u;
                 copy_selection e SelectionClipboard (update_selection (snd (hx_bounds h)) DirRight u)
               }
             | HintAction MoveViModeCursor \<Rightarrow>
                 let u = (if ui_vi u then u else upd_term toggle_vi_mode u)
                 in Some (ui_mark_dirty (upd_term (vi_goto_point (fst (hx_bounds h))) u)))
      })"

definition hint_input :: "'q ui_env \<Rightarrow> uchar \<Rightarrow> 'q ui \<Rightarrow> 'q ui option" where
  "hint_input e c u = do {
     (hs, h) \<leftarrow> hint_keyboard_input (ui_term u) (ue_build e) c (ui_hints u);
     let u = u\<lparr>ui_hints := hs\<rparr>;
     u \<leftarrow> (case h of
             None \<Rightarrow> Some u
           | Some h \<Rightarrow> trigger_hint e h (u\<lparr>ui_mouse := (ui_mouse u)\<lparr>ms_block_hint_launcher := False\<rparr>\<rparr>));
     Some (ui_mark_dirty u)
   }"

subsection \<open>Vi mode\<close>

definition ui_toggle_vi_mode :: "'q ui_env \<Rightarrow> 'q ui \<Rightarrow> 'q ui option" where
  "ui_toggle_vi_mode e u = do {
     let was_in_vi_mode = ui_vi u;
     let u = (if was_in_vi_mode
              then let active = (su_dfas (ui_search u) \<noteq> None);
                       u = upd_search (\<lambda>s. s\<lparr>su_dfas := None\<rparr>) u
                   in if active then u\<lparr>ui_fully_damaged := True\<rparr> else u
              else clear_selection u);
     u \<leftarrow> (if search_active u then cancel_search e u else Some u);
     Some (ui_mark_dirty (upd_term toggle_vi_mode (effect (SetImeAllowed was_in_vi_mode) u)))
   }"

text \<open>The loop that leaves the separators after the end of the search to the right.\<close>

partial_function (option) leave_separators :: "terminal \<Rightarrow> point \<Rightarrow> point \<Rightarrow> point option option" where
  "leave_separators t search_end e = do {
     x \<leftarrow> grid_get (t_grid t) e;
     x \<leftarrow> (if fl_contains (c_flags x) WIDE_CHAR_SPACER then grid_get (t_grid t) (point_sub (t_dims t) BNone 1 e) else Some x);
     if c_char x \<notin> set (cfg_semantic_escape_chars (t_config t)) then Some (Some e)
     else do {
       e \<leftarrow> semantic_search_right t (point_add (t_dims t) BNone 1 e);
       if e = search_end then Some None else leave_separators t search_end e
     }
   }"

definition semantic_word :: "terminal \<Rightarrow> point \<Rightarrow> ustring option" where
  "semantic_word t p = do {
     e \<leftarrow> semantic_search_right t p;
     start_cell \<leftarrow> grid_get (t_grid t) p;
     let search_end = (if fl_intersects (c_flags start_cell) LEADING_WIDE_CHAR_SPACER then point_add (t_dims t) BNone 2 p
                       else if fl_intersects (c_flags start_cell) WIDE_CHAR then point_add (t_dims t) BNone 1 p
                       else p);
     r \<leftarrow> leave_separators t search_end e;
     case r of
       None \<Rightarrow> Some []
     | Some e \<Rightarrow> do { s \<leftarrow> semantic_search_left t e; bounds_to_string t s e }
   }"

definition action_toggle_selection :: "'q ui_env \<Rightarrow> selection_type \<Rightarrow> 'q ui \<Rightarrow> 'q ui option" where
  "action_toggle_selection e ty u =
     map_option (upd_term (\<lambda>t. t\<lparr>t_selection := map_option include_all (t_selection t)\<rparr>))
       (ui_toggle_selection e ty (t_vi_cursor (ui_term u)) DirLeft u)"

definition vi_beside :: "direction \<Rightarrow> terminal \<Rightarrow> point" where
  "vi_beside dir t = (case dir of DirRight \<Rightarrow> point_add (t_dims t) BNone 1 (t_vi_cursor t)
                             | DirLeft \<Rightarrow> point_sub (t_dims t) BNone 1 (t_vi_cursor t))"

definition vi_search :: "direction \<Rightarrow> side \<Rightarrow> (regex_match \<Rightarrow> point) \<Rightarrow> 'q ui \<Rightarrow> 'q ui option" where
  "vi_search dir side target u = do {
     r \<leftarrow> ui_search_next (vi_beside dir (ui_term u)) dir side u;
     Some (case r of None \<Rightarrow> u | Some m \<Rightarrow> ui_mark_dirty (upd_term (vi_goto_point (target m)) u))
   }"

definition semantic_search :: "'q ui_env \<Rightarrow> direction \<Rightarrow> 'q ui \<Rightarrow> 'q ui option" where
  "semantic_search e dir u = do {
     selected \<leftarrow> selection_to_string (ui_term u);
     seed \<leftarrow> (if selected \<noteq> None \<and> selected \<noteq> Some [] then selected else semantic_word (ui_term u) (t_vi_cursor (ui_term u)));
     if seed = [] then Some u else start_seeded_search e dir seed u
   }"

fun execute_vi :: "'q ui_env \<Rightarrow> vi_action \<Rightarrow> 'q ui \<Rightarrow> 'q ui option" where
  "execute_vi e ToggleNormalSelection u = action_toggle_selection e Simple u"
| "execute_vi e ToggleLineSelection u = action_toggle_selection e Lines u"
| "execute_vi e ToggleBlockSelection u = action_toggle_selection e Block u"
| "execute_vi e ToggleSemanticSelection u = action_toggle_selection e selection_type.Semantic u"
| "execute_vi e Open u =
     (case ui_vi_hint u of
        None \<Rightarrow> Some u
      | Some h \<Rightarrow> trigger_hint e h (u\<lparr>ui_mouse := (ui_mouse u)\<lparr>ms_block_hint_launcher := False\<rparr>\<rparr>))"
| "execute_vi e SearchNext u =
     (let u = on_typing_start e u in vi_search (su_direction (ui_search u)) DirLeft fst u)"
| "execute_vi e SearchPrevious u =
     (let u = on_typing_start e u in vi_search (opposite (su_direction (ui_search u))) DirLeft fst u)"
| "execute_vi e SearchStart u = vi_search DirLeft DirLeft fst u"
| "execute_vi e SearchEnd u = vi_search DirRight DirRight snd u"
| "execute_vi e CenterAroundViCursor u =
     (let t = ui_term u;
          target = - int (g_display_offset (t_grid t)) + int (g_lines (t_grid t)) div 2 - 1
      in ui_scroll e (Delta (target - p_line (t_vi_cursor t))) u)"
| "execute_vi e InlineSearchForward u = Some (start_inline_search DirRight False u)"
| "execute_vi e InlineSearchBackward u = Some (start_inline_search DirLeft False u)"
| "execute_vi e InlineSearchForwardShort u = Some (start_inline_search DirRight True u)"
| "execute_vi e InlineSearchBackwardShort u = Some (start_inline_search DirLeft True u)"
| "execute_vi e InlineSearchNext u = inline_search_next u"
| "execute_vi e InlineSearchPrevious u = inline_search_previous u"
| "execute_vi e SemanticSearchForward u = semantic_search e DirRight u"
| "execute_vi e SemanticSearchBackward u = semantic_search e DirLeft u"

subsection \<open>Actions\<close>

fun execute_search :: "'q ui_env \<Rightarrow> search_action \<Rightarrow> 'q ui \<Rightarrow> 'q ui option" where
  "execute_search e SearchFocusNext u = advance_search_origin e (su_direction (ui_search u)) u"
| "execute_search e SearchFocusPrevious u = advance_search_origin e (opposite (su_direction (ui_search u))) u"
| "execute_search e SearchConfirm u = confirm_search e u"
| "execute_search e SearchCancel u = cancel_search e u"
| "execute_search e SearchClear u = map_option (start_search (su_direction (ui_search u))) (cancel_search e u)"
| "execute_search e SearchDeleteWord u = search_pop_word e u"
| "execute_search e SearchHistoryPrevious u = search_history_previous e u"
| "execute_search e SearchHistoryNext u = search_history_next e u"

text \<open>Scrolling by pages moves the vi cursor too.\<close>

definition scroll_page :: "'q ui_env \<Rightarrow> scroll \<Rightarrow> int \<Rightarrow> 'q ui \<Rightarrow> 'q ui option" where
  "scroll_page e sc amount u = do {
     let old_vi_cursor = t_vi_cursor (ui_term u);
     p \<leftarrow> vi_cursor_scroll (ui_term u) amount old_vi_cursor;
     let u = upd_term (\<lambda>t. t\<lparr>t_vi_cursor := p\<rparr>) u;
     ui_scroll e sc (if old_vi_cursor \<noteq> p then ui_mark_dirty u else u)
   }"

definition scroll_vi_end :: "'q ui_env \<Rightarrow> scroll \<Rightarrow> (dims \<Rightarrow> int) \<Rightarrow> nat \<Rightarrow> 'q ui \<Rightarrow> 'q ui option" where
  "scroll_vi_end e sc line motions u = do {
     u \<leftarrow> ui_scroll e sc u;
     let t = ui_term u;
     let t = t\<lparr>t_vi_cursor := Point (line (t_dims t)) (p_column (t_vi_cursor t))\<rparr>;
     t \<leftarrow> term_vi_motion FirstOccupied t;
     t \<leftarrow> (if motions = 2 then term_vi_motion FirstOccupied t else Some t);
     Some (ui_mark_dirty (u\<lparr>ui_term := t\<rparr>))
   }"

definition screen :: "'q ui \<Rightarrow> int" where
  "screen u = int (g_lines (t_grid (ui_term u)))"

fun execute :: "'q ui_env \<Rightarrow> action \<Rightarrow> 'q ui \<Rightarrow> 'q ui option" where
  "execute e (Esc s) u = paste e s False u"
| "execute e (Command p) u = Some (effect (SpawnDaemon (program_name p) (program_args p)) u)"
| "execute e (ActHint n) u = do {
     hint \<leftarrow> vget (ue_hints e) n;
     Some (ui_mark_dirty (u\<lparr>ui_hints := hint_start hint (ui_hints u)\<rparr>))
   }"
| "execute e ActToggleViMode u = ui_toggle_vi_mode e (on_typing_start e u)"
| "execute e (ActViMotion m) u =
     (if \<not> ui_vi u then Some u
      else do {
        let u = on_typing_start e u;
        t \<leftarrow> term_vi_motion m (ui_term u);
        Some (ui_mark_dirty (u\<lparr>ui_term := t\<rparr>))
      })"
| "execute e (ActVi a) u = (if ui_vi u then execute_vi e a u else Some u)"
| "execute e (ActSearch a) u = (if search_active u then execute_search e a u else Some u)"
| "execute e (ActMouse ExpandSelection) u = expand_selection e u"
| "execute e ActSearchForward u = Some (start_search DirRight u)"
| "execute e ActSearchBackward u = Some (start_search DirLeft u)"
| "execute e ActCopy u = copy_selection e Clipboard u"
| "execute e ActCopySelection u = copy_selection e SelectionClipboard u"
| "execute e ActClearSelection u = Some (clear_selection u)"
| "execute e ActPaste u = paste e (ue_clipboard e Clipboard) True u"
| "execute e ActPasteSelection u = paste e (ue_clipboard e SelectionClipboard) True u"
| "execute e ActToggleFullscreen u = Some (effect ToggleFullscreenWindow u)"
| "execute e ActToggleMaximized u = Some (effect ToggleMaximizedWindow u)"
| "execute e ActHide u = Some (effect (SetVisible False) u)"
| "execute e ActMinimize u = Some (effect (SetMinimized True) u)"
| "execute e ActQuit u = Some (upd_term term_exit (effect ReleaseHold u))"
| "execute e ActIncreaseFontSize u = Some (effect (ChangeFontSize 1) u)"
| "execute e ActDecreaseFontSize u = Some (effect (ChangeFontSize (- 1)) u)"
| "execute e ActResetFontSize u = Some (effect ResetFontSizeEffect u)"
| "execute e ActScrollPageUp u = scroll_page e PageUp (screen u) u"
| "execute e ActScrollPageDown u = scroll_page e PageDown (- screen u) u"
| "execute e ActScrollHalfPageUp u = scroll_page e (Delta (screen u div 2)) (screen u div 2) u"
| "execute e ActScrollHalfPageDown u = scroll_page e (Delta (- (screen u div 2))) (- (screen u div 2)) u"
| "execute e ActScrollLineUp u = ui_scroll e (Delta 1) u"
| "execute e ActScrollLineDown u = ui_scroll e (Delta (- 1)) u"
| "execute e ActScrollToTop u = scroll_vi_end e Top topmost_line 1 u"
| "execute e ActScrollToBottom u = scroll_vi_end e Bottom bottommost_line 2 u"
| "execute e ActToggleAutoScroll u =
     (let b = (\<not> ui_auto_scroll u)
      in Some (ui_mark_dirty (upd_term (\<lambda>t. t\<lparr>t_grid := set_auto_scroll_enabled b (t_grid t)\<rparr>) (u\<lparr>ui_auto_scroll := b\<rparr>))))"
| "execute e ActClearHistory u = do { t \<leftarrow> clear_screen ClearSaved (ui_term u); Some (u\<lparr>ui_term := t\<rparr>) }"
| "execute e ActClearLogNotice u = Some (ui_pop_message u)"
| "execute e ActCreateNewWindow u = Some (effect OpenWindow u)"
| "execute e ActSpawnNewInstance u = spawn_new_instance e u"
| "execute e _ u = Some u"

end
