(* ===== verification/Ui_Events.thy ===== *)
theory Ui_Events
  imports Ui_Actions
begin

text \<open>
  Events of one window: \<^verbatim>\<open>Processor::handle_event\<close> of \<^verbatim>\<open>velacritty/src/event.rs\<close>, which composes the keyboard
  (theory \<open>Keyboard\<close>), the mouse (theory \<open>Mouse\<close>), the timers and the requests of the terminal with the state of the user
  interface, and the highlighting of hints (\<^verbatim>\<open>Display::update_highlighted_hints\<close> of \<^verbatim>\<open>velacritty/src/display/mod.rs\<close>).
\<close>

definition SELECTION_SCROLLING_INTERVAL :: nat where "SELECTION_SCROLLING_INTERVAL = 15"

subsection \<open>The mouse\<close>

definition mouse_env_of :: "'q ui_env \<Rightarrow> 'q ui \<Rightarrow> mouse_env" where
  "mouse_env_of e u = \<lparr>me_size = ue_size e, me_display_offset = g_display_offset (t_grid (ui_term u)), me_mode = t_mode (ui_term u),
     me_mods = ui_modifiers u, me_selection_empty = ui_selection_is_empty u, me_search_active = search_active u,
     me_mouse_bindings = ue_mouse_bindings e, me_messages = ui_messages u,
     me_highlighted_hint = (ui_highlighted_hint u \<noteq> None), me_now = ue_now e\<rparr>"

definition cursor_state :: "'q ui_env \<Rightarrow> 'q ui \<Rightarrow> cursor_icon option" where
  "cursor_state e u = do {
     p \<leftarrow> mouse_point (ue_size e) (g_display_offset (t_grid (ui_term u))) (ui_mouse u);
     x \<leftarrow> grid_get (t_grid (ui_term u)) p;
     bar \<leftarrow> message_bar_cursor_state (mouse_env_of e u) (ui_mouse u);
     Some (case bar of
             Some icon \<Rightarrow> icon
           | None \<Rightarrow>
               if (case ui_highlighted_hint u of Some h \<Rightarrow> should_highlight h p (Cell.hyperlink x) | None \<Rightarrow> False) then PointerIcon
               else if \<not> m_shift (ui_modifiers u) \<and> mouse_mode (mouse_env_of e u) then DefaultIcon
               else TextIcon)
   }"

definition reset_mouse_cursor :: "'q ui_env \<Rightarrow> 'q ui \<Rightarrow> 'q ui option" where
  "reset_mouse_cursor e u = map_option (\<lambda>icon. effect (SetMouseCursor icon) u) (cursor_state e u)"

definition modifiers_input :: "'q ui_env \<Rightarrow> modifiers \<Rightarrow> 'q ui \<Rightarrow> 'q ui option" where
  "modifiers_input e mods u =
     reset_mouse_cursor e (u\<lparr>ui_modifiers := mods, ui_mouse := (ui_mouse u)\<lparr>ms_hint_highlight_dirty := True\<rparr>\<rparr>)"

text \<open>The requests of the mouse handlers.\<close>

fun mouse_request :: "'q ui_env \<Rightarrow> mouse_call \<Rightarrow> 'q ui \<Rightarrow> 'q ui option" where
  "mouse_request e (WriteToPty bytes) u = Some (write_to_pty bytes u)"
| "mouse_request e ClearSelection u = Some (clear_selection u)"
| "mouse_request e (StartSelection ty p side) u = start_selection e ty p side u"
| "mouse_request e (UpdateSelection p side) u = Some (update_selection p side u)"
| "mouse_request e (SetViCursor p) u = Some (upd_term (\<lambda>t. t\<lparr>t_vi_cursor := p\<rparr>) u)"
| "mouse_request e MarkDirty u = Some (ui_mark_dirty u)"
| "mouse_request e (Execute a) u = execute e a u"
| "mouse_request e TriggerHint u = (case ui_highlighted_hint u of None \<Rightarrow> Some u | Some h \<Rightarrow> trigger_hint e h u)"
| "mouse_request e UnscheduleScrolling u = Some (ui_unschedule e SelectionScrolling u)"
| "mouse_request e (ScheduleScrolling n) u =
     Some (ui_schedule e SelectionScrolling (ScrollEvent (Delta n)) SELECTION_SCROLLING_INTERVAL True u)"
| "mouse_request e CopySelection u = copy_selection e SelectionClipboard u"
| "mouse_request e PopMessage u = Some (ui_pop_message u)"
| "mouse_request e (SetCursor icon) u = Some (effect (SetMouseCursor icon) u)"
| "mouse_request e UpdateCursor u = reset_mouse_cursor e u"

fun mouse_requests :: "'q ui_env \<Rightarrow> mouse_call list \<Rightarrow> 'q ui \<Rightarrow> 'q ui option" where
  "mouse_requests e [] u = Some u"
| "mouse_requests e (x # xs) u = do { u \<leftarrow> mouse_request e x u; mouse_requests e xs u }"

definition show_mouse :: "'q ui \<Rightarrow> 'q ui" where
  "show_mouse u = effect (SetMouseVisible True) (u\<lparr>ui_mouse_visible := True\<rparr>)"

definition ui_mouse_input :: "'q ui_env \<Rightarrow> bool \<Rightarrow> mouse_button \<Rightarrow> 'q ui \<Rightarrow> 'q ui option" where
  "ui_mouse_input e pressed button u = do {
     (m, calls) \<leftarrow> mouse_input (ue_char_width e) (mouse_env_of e u) pressed button (ui_mouse u);
     mouse_requests e calls (u\<lparr>ui_mouse := m\<rparr>)
   }"

definition ui_mouse_moved :: "'q ui_env \<Rightarrow> int \<Rightarrow> int \<Rightarrow> 'q ui \<Rightarrow> 'q ui option" where
  "ui_mouse_moved e x y u = do {
     (m, calls) \<leftarrow> mouse_moved (ue_min_scrolling_height e) (ue_scrolling_step e) (mouse_env_of e u) x y (ui_mouse u);
     mouse_requests e calls (u\<lparr>ui_mouse := m\<rparr>)
   }"

subsection \<open>The keyboard\<close>

text \<open>The operations of \<^verbatim>\<open>ActionContext\<close> that the keyboard uses. After a panic nothing more is done, as if text was being
  composed.\<close>

definition observe :: "'a \<Rightarrow> ('q ui \<Rightarrow> 'a) \<Rightarrow> 'q ui option \<Rightarrow> 'a" where
  "observe d f c = (case c of None \<Rightarrow> d | Some u \<Rightarrow> f u)"

definition key_context :: "'q ui_env \<Rightarrow> ('q ui option, ui_event) action_context" where
  "key_context e = \<lparr>
     ac_preedit = observe True (\<lambda>u. ui_preedit u \<noteq> None),
     ac_mode = observe 0 (\<lambda>u. t_mode (ui_term u)),
     ac_modifiers = observe no_mods ui_modifiers,
     ac_hint_active = observe False (\<lambda>u. hint_active (ui_hints u)),
     ac_char_pending = observe False (\<lambda>u. is_char_pending (ui_inline u)),
     ac_search_active = observe False search_active,
     ac_key_bindings = (\<lambda>_. ue_key_bindings e),
     ac_hint_bindings = (\<lambda>_. ue_hint_bindings e),
     ac_set_ime_allowed = (\<lambda>b. map_option (effect (SetImeAllowed b))),
     ac_hint_input = (\<lambda>ch c. Option.bind c (hint_input e ch)),
     ac_inline_search_input = (\<lambda>s c. Option.bind c (inline_search_input s)),
     ac_search_input = (\<lambda>ch c. Option.bind c (search_input e ch)),
     ac_window = (\<lambda>_. ue_window e),
     ac_scheduler_mut = (\<lambda>f. map_option (\<lambda>u. u\<lparr>ui_scheduler := f (ui_scheduler u)\<rparr>)),
     ac_execute = (\<lambda>a c. Option.bind c (execute e a)),
     ac_on_terminal_input_start = (\<lambda>c. Option.bind c (on_terminal_input_start e)),
     ac_write_to_pty = (\<lambda>bytes. map_option (write_to_pty bytes))\<rparr>"

definition ui_key_input :: "'q ui_env \<Rightarrow> key_event \<Rightarrow> 'q ui \<Rightarrow> 'q ui option" where
  "ui_key_input e key u =
     key_input (key_context e) (ue_key_text e) (ue_lowercase e) (ue_lowercase_char e) (ue_now e) key (Some u)"

subsection \<open>Requests of the terminal\<close>

definition ring_bell :: "'q ui_env \<Rightarrow> 'q ui \<Rightarrow> 'q ui" where
  "ring_bell e u =
     (let u = (if \<not> t_is_focused (ui_term u) \<and> has_mode (ui_term u) URGENCY_HINTS then effect (SetUrgent True) u else u);
          u = effect RingVisualBell u
      in case ue_bell_command e of
           None \<Rightarrow> u
         | Some p \<Rightarrow>
             if (case ui_prev_bell u of None \<Rightarrow> True | Some i \<Rightarrow> BELL_CMD_COOLDOWN \<le> ue_now e - i)
             then (effect (SpawnDaemon (program_name p) (program_args p)) u)\<lparr>ui_prev_bell := Some (ue_now e)\<rparr>
             else u)"

text \<open>\<^verbatim>\<open>From<SizeInfo<f32>> for WindowSize\<close>: the numbers of lines and columns wrap, the sizes of a cell are cast from a
  floating-point number and saturate.\<close>

definition window_size_of :: "size_info \<Rightarrow> window_size" where
  "window_size_of si = \<lparr>ws_num_lines = of_nat (si_screen_lines si), ws_num_cols = of_nat (si_columns si),
     ws_cell_width = of_nat (min 65535 (si_cell_width si)), ws_cell_height = of_nat (min 65535 (si_cell_height si))\<rparr>"

fun terminal_request :: "'q ui_env \<Rightarrow> event \<Rightarrow> 'q ui \<Rightarrow> 'q ui option" where
  "terminal_request e (Title title) u =
     Some (if \<not> ue_preserve_title e \<and> ue_dynamic_title e then effect (SetWindowTitle title) u else u)"
| "terminal_request e ResetTitle u =
     Some (if \<not> ue_preserve_title e \<and> ue_dynamic_title e then effect (SetWindowTitle (ue_title e)) u else u)"
| "terminal_request e Bell u = Some (ring_bell e u)"
| "terminal_request e (ClipboardStore ty content) u =
     Some (if t_is_focused (ui_term u) then ui_clipboard_store ty content u else u)"
| "terminal_request e (ClipboardLoad ty format) u =
     Some (if t_is_focused (ui_term u) then write_to_pty (utf8_encode (format (ue_clipboard e ty))) u else u)"
| "terminal_request e (ColorRequest index format) u = do {
     c \<leftarrow> colors_get (t_colors (ui_term u)) index;
     Some (case c of
             Some c \<Rightarrow> write_to_pty (utf8_encode (format c)) u
           | None \<Rightarrow> if index = CURSOR_COLOR then u else write_to_pty (utf8_encode (format (ue_colors e index))) u)
   }"
| "terminal_request e (TextAreaSizeRequest format) u = Some (write_to_pty (utf8_encode (format (window_size_of (ue_size e)))) u)"
| "terminal_request e (PtyWrite text) u = Some (write_to_pty (utf8_encode text) u)"
| "terminal_request e MouseCursorDirty u = reset_mouse_cursor e u"
| "terminal_request e CursorBlinkingChange u = Some (update_cursor_blinking e u)"
| "terminal_request e Exit u = Some u"
| "terminal_request e (ChildExit _) u = Some u"
| "terminal_request e Wakeup u = Some u"

fun user_event :: "'q ui_env \<Rightarrow> ui_event \<Rightarrow> 'q ui \<Rightarrow> 'q ui option" where
  "user_event e SearchNextEvent u = goto_match e None u"
| "user_event e (ScrollEvent sc) u = ui_scroll e sc u"
| "user_event e BlinkCursorEvent u =
     Some (if ui_blink_timed_out u then u else ui_mark_dirty (u\<lparr>ui_cursor_hidden := \<not> ui_cursor_hidden u\<rparr>))"
| "user_event e BlinkCursorTimeout u =
     Some (ui_mark_dirty ((ui_unschedule e BlinkCursor u)\<lparr>ui_blink_timed_out := True, ui_cursor_hidden := False\<rparr>))"
| "user_event e (MessageEvent m) u =
     Some (if is_queued m (ui_messages u) then u
           else u\<lparr>ui_messages := message_push m (ui_messages u), ui_pending_dirty := True\<rparr>)"
| "user_event e (TerminalEvent ev) u = terminal_request e ev u"
| "user_event e (ResizeEvent w h) u = Some (u\<lparr>ui_pending_dimensions := Some (w, h), ui_pending_dirty := True\<rparr>)"
| "user_event e FrameEvent u = Some u"

subsection \<open>Events of the window\<close>

datatype window_event =
    CloseRequested | Resized nat nat | KeyboardEvent key_event bool | ModifiersChanged modifiers | MouseEvent bool mouse_button
  | CursorMoved int int | Focused bool | Occluded bool | DroppedFile ustring | CursorLeft | ImeCommit ustring
  | ImePreedit ustring "(nat \<times> nat) option" | ImeEnabled | ImeDisabled | OtherEvent

text \<open>The flag of a keyboard event tells that it is synthetic. The mouse wheel, touch and changes of the scale factor, which compute with
  floating-point numbers, are not among the events.\<close>

fun on_window_event :: "'q ui_env \<Rightarrow> window_event \<Rightarrow> 'q ui \<Rightarrow> 'q ui option" where
  "on_window_event e CloseRequested u = Some (upd_term term_exit (effect ReleaseHold u))"
| "on_window_event e (Resized width height) u =
     Some (if width = 0 \<or> height = 0 then u
           else ui_schedule e ResizeDebounce (ResizeEvent width height) RESIZE_DEBOUNCE_DURATION False
                  (ui_unschedule e ResizeDebounce u))"
| "on_window_event e (KeyboardEvent key synthetic) u = (if synthetic then Some u else ui_key_input e key u)"
| "on_window_event e (ModifiersChanged mods) u = modifiers_input e mods u"
| "on_window_event e (MouseEvent pressed button) u = ui_mouse_input e pressed button (show_mouse u)"
| "on_window_event e (CursorMoved x y) u = ui_mouse_moved e x y (show_mouse u)"
| "on_window_event e (Focused is_focused) u =
     (let u = upd_term (\<lambda>t. t\<lparr>t_is_focused := is_focused\<rparr>) u;
          u = dirty_if (cc_unfocused_hollow (ue_cursor e)) u;
          u = (if is_focused then effect (SetUrgent False) u else u);
          u = update_cursor_blinking e u
      in mouse_requests e (on_focus_change (t_mode (ui_term u)) is_focused) u)"
| "on_window_event e (Occluded b) u = Some (u\<lparr>ui_occluded := b\<rparr>)"
| "on_window_event e (DroppedFile path) u = paste e (path @ lit '' '') True u"
| "on_window_event e CursorLeft u =
     Some (dirty_if (ui_highlighted_hint u \<noteq> None) (u\<lparr>ui_mouse := (ui_mouse u)\<lparr>ms_inside_text_area := False\<rparr>\<rparr>))"
| "on_window_event e (ImeCommit text) u =
     map_option (update_cursor_blinking e) (paste e text (length text > 1) (ui_mark_dirty u))"
| "on_window_event e (ImePreedit text offset) u = do {
     preedit \<leftarrow> (if text = [] then Some None else map_option Some (preedit_new (ue_char_width e) text offset));
     Some (if ui_preedit u = preedit then u else ui_mark_dirty (update_cursor_blinking e (u\<lparr>ui_preedit := preedit\<rparr>)))
   }"
| "on_window_event e ImeEnabled u = Some (ui_mark_dirty (u\<lparr>ui_ime_enabled := True\<rparr>))"
| "on_window_event e ImeDisabled u = Some (ui_mark_dirty (u\<lparr>ui_ime_enabled := False, ui_preedit := None\<rparr>))"
| "on_window_event e OtherEvent u = Some u"

datatype winit_event = UserEvent ui_event | WindowEvent window_event | LoopEvent

fun ui_handle_event :: "'q ui_env \<Rightarrow> winit_event \<Rightarrow> 'q ui \<Rightarrow> 'q ui option" where
  "ui_handle_event e (UserEvent ev) u = user_event e ev u"
| "ui_handle_event e (WindowEvent ev) u = on_window_event e ev u"
| "ui_handle_event e LoopEvent u = Some u"

text \<open>The events of a batch with the environment of each.\<close>

fun ui_handle_events :: "('q ui_env \<times> winit_event) list \<Rightarrow> 'q ui \<Rightarrow> 'q ui option" where
  "ui_handle_events [] u = Some u"
| "ui_handle_events ((e, ev) # evs) u = do { u \<leftarrow> ui_handle_event e ev u; ui_handle_events evs u }"

subsection \<open>Highlighted hints\<close>

definition all_mods :: modifiers where
  "all_mods = \<lparr>m_shift = True, m_control = True, m_alt = True, m_super = True\<rparr>"

text \<open>The flag tells whether something changed; the ages of the highlights only serve damage.\<close>

definition update_highlighted_hints :: "'q ui_env \<Rightarrow> 'q ui \<Rightarrow> ('q ui \<times> bool) option" where
  "update_highlighted_hints e u = do {
     let t = ui_term u;
     vi \<leftarrow> (if has_mode t VI then highlighted_at t (ue_build e) (ue_hints e) (t_vi_cursor t) all_mods else Some None);
     let dirty = (vi \<noteq> ui_vi_hint u);
     let u = u\<lparr>ui_vi_hint := vi, ui_fully_damaged := ui_fully_damaged u \<or> dirty\<rparr>;
     if \<not> ui_mouse_visible u \<or> \<not> ms_inside_text_area (ui_mouse u) \<or> \<not> ui_selection_is_empty u
     then Some (if ui_highlighted_hint u \<noteq> None then (u\<lparr>ui_highlighted_hint := None, ui_fully_damaged := True\<rparr>, True) else (u, dirty))
     else do {
       p \<leftarrow> mouse_point (ue_size e) (g_display_offset (t_grid t)) (ui_mouse u);
       h \<leftarrow> highlighted_at t (ue_build e) (ue_hints e) p (ui_modifiers u);
       let (u, dirty) =
             (if h \<noteq> None
              then (effect (SetMouseCursor PointerIcon) (u\<lparr>ui_hint_mouse_point := Some p\<rparr>),
                    case ui_hint_mouse_point u of Some q \<Rightarrow> p_line q \<noteq> p_line p | None \<Rightarrow> False)
              else if ui_highlighted_hint u \<noteq> None
              then (effect (SetMouseCursor (if mouse_mode (mouse_env_of e u) then DefaultIcon else TextIcon))
                      (u\<lparr>ui_hint_mouse_point := None\<rparr>), dirty)
              else (u, dirty));
       let changed = (ui_highlighted_hint u \<noteq> h);
       Some (u\<lparr>ui_highlighted_hint := h, ui_fully_damaged := ui_fully_damaged u \<or> changed\<rparr>, dirty \<or> changed)
     }
   }"

end
