(* ===== verification/Ui_Invariant.thy ===== *)
theory Ui_Invariant
  imports Ui_Events
begin

text \<open>
  Invariants of the user interface. The locale \<open>ui_invariant\<close> holds a predicate on the terminal with the search history and one
  on the timers, closed under the few ways in which the user interface changes them; in it every operation, and then every event,
  keeps both. Its interpretations are the invariant of the terminal, the bounds of the search history and the uniqueness of the
  timers.
\<close>

definition push_search :: "ustring list \<Rightarrow> ustring list" where
  "push_search h = (case h of [] \<Rightarrow> take MAX_SEARCH_HISTORY_SIZE [[]]
                    | r # _ \<Rightarrow> if r \<noteq> [] then take MAX_SEARCH_HISTORY_SIZE ([] # h) else h)"

named_theorems ui_keeps

lemma if_Some: "(if b then x else y) = Some z \<Longrightarrow> (b \<Longrightarrow> x = Some z \<Longrightarrow> thesis) \<Longrightarrow> (\<not> b \<Longrightarrow> y = Some z \<Longrightarrow> thesis) \<Longrightarrow> thesis"
  by (simp split: if_splits)

lemma ui_unschedule_sel [simp]:
  "ui_term (ui_unschedule e topic u) = ui_term u" "ui_search (ui_unschedule e topic u) = ui_search u"
  by (simp_all add: ui_unschedule_def)

text \<open>The mouse handlers schedule scrolling only right after cancelling it.\<close>

fun is_schedule :: "mouse_call \<Rightarrow> bool" where
  "is_schedule (ScheduleScrolling _) = True"
| "is_schedule _ = False"

fun paired_after :: "bool \<Rightarrow> mouse_call list \<Rightarrow> bool" where
  "paired_after b [] = True"
| "paired_after b (x # xs) \<longleftrightarrow> (is_schedule x \<longrightarrow> b) \<and> paired_after (x = UnscheduleScrolling) xs"

abbreviation paired :: "mouse_call list \<Rightarrow> bool" where
  "paired \<equiv> paired_after False"

lemma paired_mono: "paired xs \<Longrightarrow> paired_after b xs"
  by (cases xs) auto

lemma paired_append: "paired_after b xs \<Longrightarrow> paired ys \<Longrightarrow> paired_after b (xs @ ys)"
  by (induction xs arbitrary: b) (auto intro: paired_mono)

lemma paired_map_Execute [simp]: "paired (map (\<lambda>b. Execute (f b)) xs)"
  by (induction xs) auto

lemma mouse_report_paired: "mouse_report e m button b = Some calls \<Longrightarrow> paired calls"
  by (auto simp: mouse_report_def bind_eq_Some_conv sgr_mouse_report_def normal_mouse_report_def Let_def split: if_splits)

text \<open>What a handler asks for, if it returns.\<close>

definition paired_result :: "(mouse \<times> mouse_call list) option \<Rightarrow> bool" where
  "paired_result r \<longleftrightarrow> (\<forall>m calls. r = Some (m, calls) \<longrightarrow> paired calls)"

lemma paired_rules:
  "paired calls \<Longrightarrow> paired_result (Some (m, calls))"
  "paired (snd q) \<Longrightarrow> paired_result (Some q)"
  "(\<And>y. x = Some y \<Longrightarrow> paired_result (f y)) \<Longrightarrow> paired_result (Option.bind x f)"
  "paired_result (g z) \<Longrightarrow> paired_result (let y = z in g y)"
  "(b \<Longrightarrow> paired_result r) \<Longrightarrow> (\<not> b \<Longrightarrow> paired_result r') \<Longrightarrow> paired_result (if b then r else r')"
  "(w = None \<Longrightarrow> paired_result r) \<Longrightarrow> (\<And>y. w = Some y \<Longrightarrow> paired_result (h y))
   \<Longrightarrow> paired_result (case w of None \<Rightarrow> r | Some y \<Rightarrow> h y)"
  "paired a \<Longrightarrow> paired_result (map_option (\<lambda>c. (m, a @ c)) (mouse_report e m2 button p))"
  "paired_result (map_option (\<lambda>c. (m, c)) (mouse_report e m2 button p))"
  "paired_result t \<Longrightarrow> paired c \<Longrightarrow> paired_result (map_option (\<lambda>(m, calls). (m, calls @ c)) t)"
  by (auto simp: paired_result_def paired_append mouse_report_paired bind_eq_Some_conv split: option.splits)

lemma on_left_click_paired: "paired (snd (on_left_click e p m))"
  by (cases "ms_click_state m") (simp_all add: on_left_click_def Let_def)

lemma on_mouse_press_paired: "paired_result (on_mouse_press e button m)"
  unfolding on_mouse_press_def by (rule paired_rules | simp add: on_left_click_paired)+

lemma on_mouse_release_paired: "paired_result (on_mouse_release e button m)"
  unfolding on_mouse_release_def by (rule paired_rules | simp)+

lemma mouse_input_paired: "paired_result (mouse_input width e pressed button m)"
  unfolding mouse_input_def process_mouse_bindings_def
  by (rule paired_rules on_mouse_press_paired on_mouse_release_paired | simp add: Let_def paired_append flip: map_append)+

lemma scrolling_paired: "paired (update_selection_scrolling h st si y)"
  by (simp add: update_selection_scrolling_def Let_def)

lemma mouse_moved_paired: "paired_result (mouse_moved h st e x y m)"
  unfolding mouse_moved_def by (rule paired_rules | simp add: scrolling_paired paired_append)+

locale ui_invariant =
  fixes Q :: "terminal \<Rightarrow> ustring list \<Rightarrow> nat option \<Rightarrow> bool"
    and S :: "ui_event scheduler \<Rightarrow> bool"
  assumes Q_scroll: "Q t h i \<Longrightarrow> Q (scroll_display z t) h i"
    and Q_vi_cursor: "Q t h i \<Longrightarrow> Q (t\<lparr>t_vi_cursor := p\<rparr>) h i"
    and Q_selection: "Q t h i \<Longrightarrow> Q (t\<lparr>t_selection := sel\<rparr>) h i"
    and Q_toggle: "Q t h i \<Longrightarrow> Q (toggle_vi_mode t) h i"
    and Q_exit: "Q t h i \<Longrightarrow> Q (term_exit t) h i"
    and Q_focus: "Q t h i \<Longrightarrow> Q (t\<lparr>t_is_focused := b\<rparr>) h i"
    and Q_auto_scroll: "Q t h i \<Longrightarrow> Q (t\<lparr>t_grid := set_auto_scroll_enabled b (t_grid t)\<rparr>) h i"
    and Q_clear: "clear_screen ClearSaved t = Some t' \<Longrightarrow> Q t h i \<Longrightarrow> Q t' h i"
    and Q_leave: "Q t h i \<Longrightarrow> Q t h None"
    and Q_edit: "Q t h i \<Longrightarrow> Q t (h[j := r]) i"
    and Q_browse: "Q t h i \<Longrightarrow> j < length h \<Longrightarrow> Q t h (Some j)"
    and Q_back: "Q t h (Some j) \<Longrightarrow> Q t h (Some (j - 1))"
    and Q_start: "Q t h i \<Longrightarrow> Q t (push_search h) (Some 0)"
    and S_cancel: "S sc \<Longrightarrow> S (snd (unschedule tid sc))"
    and S_replace: "S sc \<Longrightarrow> S (schedule now ev d rep tid (snd (unschedule tid sc)))"
    and S_new: "S sc \<Longrightarrow> \<not> scheduled tid sc \<Longrightarrow> S (schedule now ev d rep tid sc)"
    and S_first: "S sc \<Longrightarrow> tid \<noteq> tid' \<Longrightarrow>
      S (schedule now ev d rep tid (snd (unschedule tid' (snd (unschedule tid sc)))))"
    and S_both: "S sc \<Longrightarrow> tid \<noteq> tid' \<Longrightarrow>
      S (schedule now ev' d' rep' tid' (schedule now ev d rep tid (snd (unschedule tid' (snd (unschedule tid sc))))))"
begin

definition P :: "'q ui \<Rightarrow> bool" where
  "P u \<longleftrightarrow> Q (ui_term u) (su_history (ui_search u)) (su_history_index (ui_search u)) \<and> S (ui_scheduler u)"

lemma P_frame:
  "P u \<Longrightarrow> ui_term v = ui_term u \<Longrightarrow> su_history (ui_search v) = su_history (ui_search u)
   \<Longrightarrow> su_history_index (ui_search v) = su_history_index (ui_search u) \<Longrightarrow> ui_scheduler v = ui_scheduler u \<Longrightarrow> P v"
  by (simp add: P_def)

lemma P_other [simp]:
  "P (effect x u) = P u" "P (ui_mark_dirty u) = P u" "P (dirty_if b u) = P u" "P (write_to_pty bytes u) = P u"
  "P (ui_clipboard_store ty text u) = P u" "P (u\<lparr>ui_mouse := m\<rparr>) = P u" "P (u\<lparr>ui_mouse_visible := b\<rparr>) = P u"
  "P (u\<lparr>ui_fully_damaged := b\<rparr>) = P u" "P (u\<lparr>ui_pending_dirty := b\<rparr>) = P u" "P (u\<lparr>ui_hints := hs\<rparr>) = P u"
  "P (u\<lparr>ui_blink_timed_out := b\<rparr>) = P u" "P (u\<lparr>ui_cursor_hidden := b\<rparr>) = P u" "P (u\<lparr>ui_messages := ms\<rparr>) = P u"
  "P (u\<lparr>ui_auto_scroll := b\<rparr>) = P u" "P (u\<lparr>ui_prev_bell := n\<rparr>) = P u" "P (u\<lparr>ui_occluded := b\<rparr>) = P u"
  "P (u\<lparr>ui_preedit := pe\<rparr>) = P u" "P (u\<lparr>ui_ime_enabled := b\<rparr>) = P u" "P (u\<lparr>ui_modifiers := mods\<rparr>) = P u"
  "P (upd_inline f u) = P u" "P (ui_pop_message u) = P u" "P (u\<lparr>ui_inline := il\<rparr>) = P u"
  "P (start_inline_search dir b u) = P u"
  "P (u\<lparr>ui_pending_dimensions := dims, ui_pending_dirty := b\<rparr>) = P u"
  by (simp_all add: P_def effect_def ui_mark_dirty_def dirty_if_def write_to_pty_def ui_clipboard_store_def upd_inline_def
      ui_pop_message_def start_inline_search_def)

lemma P_search [simp]:
  "P (upd_search (\<lambda>s. s\<lparr>su_focused_match := m\<rparr>) u) = P u" "P (upd_search (\<lambda>s. s\<lparr>su_dfas := d\<rparr>) u) = P u"
  "P (upd_search (\<lambda>s. s\<lparr>su_display_offset_delta := n\<rparr>) u) = P u" "P (upd_search (\<lambda>s. s\<lparr>su_direction := dir\<rparr>) u) = P u"
  "P (upd_search (\<lambda>s. s\<lparr>su_display_offset_delta := n, su_origin := q\<rparr>) u) = P u"
  "P (upd_search (\<lambda>s. s\<lparr>su_focused_match := m, su_display_offset_delta := f s\<rparr>) u) = P u"
  "P (u\<lparr>ui_search := (ui_search u)\<lparr>su_display_offset_delta := n\<rparr>\<rparr>) = P u"
  by (simp_all add: P_def upd_search_def)

lemma Q_scroll_to_point: "Q t h i \<Longrightarrow> Q (scroll_to_point p t) h i"
  by (simp add: scroll_to_point_def Let_def Q_scroll)

lemma Q_recompute: "Q t h i \<Longrightarrow> Q (vi_mode_recompute_selection t) h i"
  by (auto simp: vi_mode_recompute_selection_def Let_def intro: Q_selection split: option.split)

lemma Q_goto: "Q t h i \<Longrightarrow> Q (vi_goto_point p t) h i"
  by (simp add: vi_goto_point_def Let_def Q_recompute Q_vi_cursor Q_scroll_to_point)

lemma Q_motion: "term_vi_motion m t = Some t' \<Longrightarrow> Q t h i \<Longrightarrow> Q t' h i"
  by (auto simp: term_vi_motion_def vi_cursor_motion_def bind_eq_Some_conv Q_recompute Q_vi_cursor Q_scroll_to_point
      split: if_splits)

lemma P_term: "P u \<Longrightarrow> (\<And>h i. Q (ui_term u) h i \<Longrightarrow> Q t h i) \<Longrightarrow> P (u\<lparr>ui_term := t\<rparr>)"
  by (simp add: P_def)

lemma P_upd_term [intro!]:
  "P u \<Longrightarrow> P (upd_term (if b then vi_goto_point p else scroll_to_point p) u)"
  "P u \<Longrightarrow> P (upd_term (scroll_display sc) u)" "P u \<Longrightarrow> P (upd_term (scroll_to_point p) u)"
  "P u \<Longrightarrow> P (upd_term (vi_goto_point p) u)" "P u \<Longrightarrow> P (upd_term toggle_vi_mode u)" "P u \<Longrightarrow> P (upd_term term_exit u)"
  "P u \<Longrightarrow> P (upd_term (\<lambda>t. t\<lparr>t_vi_cursor := p\<rparr>) u)" "P u \<Longrightarrow> P (upd_term (\<lambda>t. t\<lparr>t_selection := s t\<rparr>) u)"
  "P u \<Longrightarrow> P (upd_term (\<lambda>t. t\<lparr>t_is_focused := b\<rparr>) u)"
  "P u \<Longrightarrow> P (upd_term (\<lambda>t. t\<lparr>t_grid := set_auto_scroll_enabled b (t_grid t)\<rparr>) u)"
  unfolding upd_term_def
  by (rule P_term, assumption, simp add: Q_scroll Q_scroll_to_point Q_goto Q_toggle Q_exit Q_vi_cursor Q_selection Q_focus
      Q_auto_scroll)+

lemma P_timers: "P u \<Longrightarrow> (S (ui_scheduler u) \<Longrightarrow> S sc) \<Longrightarrow> P (u\<lparr>ui_scheduler := sc\<rparr>)"
  by (simp add: P_def)

lemma P_unschedule [intro!]: "P u \<Longrightarrow> P (ui_unschedule e topic u)"
  unfolding ui_unschedule_def by (rule P_timers) (auto intro: S_cancel)

lemma P_replace [intro!]: "P u \<Longrightarrow> P (ui_schedule e topic ev d rep (ui_unschedule e topic u))"
  by (auto simp: ui_schedule_def ui_unschedule_def P_def intro: S_replace)

lemma P_schedule [intro]: "P u \<Longrightarrow> \<not> ui_scheduled e topic u \<Longrightarrow> P (ui_schedule e topic ev d rep u)"
  by (auto simp: ui_schedule_def ui_scheduled_def P_def intro: S_new)

text \<open>The operations of theory \<open>Ui_State\<close>.\<close>

lemma P_if [intro!]: "(b \<Longrightarrow> P u) \<Longrightarrow> (\<not> b \<Longrightarrow> P v) \<Longrightarrow> P (if b then u else v)"
  by simp

lemma P_same:
  "ui_term v = ui_term u \<Longrightarrow> ui_search v = ui_search u \<Longrightarrow> ui_scheduler v = ui_scheduler u \<Longrightarrow> P v = P u"
  by (simp add: P_def)

lemma P_blink_timers:
  assumes "P u" and v: "ui_term v = ui_term u" "ui_search v = ui_search u"
    "ui_scheduler v = ui_scheduler (ui_unschedule e BlinkTimeout (ui_unschedule e BlinkCursor u))"
  shows "P (schedule_blinking_timeout e (schedule_blinking e v))"
proof (cases "blink_timeout (ue_cursor e) = 0")
  case True
  then show ?thesis using assms
    by (simp add: schedule_blinking_timeout_def schedule_blinking_def ui_schedule_def ui_unschedule_def ui_timer_def P_def S_first)
next
  case False
  then show ?thesis using assms
    by (simp add: schedule_blinking_timeout_def schedule_blinking_def ui_schedule_def ui_unschedule_def ui_timer_def P_def S_both)
qed

lemma P_blinking [intro!]: "P u \<Longrightarrow> P (update_cursor_blinking e u)"
  unfolding update_cursor_blinking_def Let_def by (auto intro!: P_if P_blink_timers [of u])

lemma P_typing [intro!]:
  assumes "P u"
  shows "P (on_typing_start e u)"
proof -
  have "P (schedule_blinking e (u\<lparr>ui_scheduler := sc\<rparr>))" if "unschedule (ui_timer e BlinkCursor) (ui_scheduler u) = (r, sc)" for r sc
    using S_replace [of "ui_scheduler u" "ue_now e" _ _ _ "ui_timer e BlinkCursor"] assms that
    by (simp add: schedule_blinking_def ui_schedule_def P_def)
  moreover have "P (u\<lparr>ui_scheduler := sc\<rparr>)" if "unschedule (ui_timer e BlinkCursor) (ui_scheduler u) = (r, sc)" for r sc
    using S_cancel [of "ui_scheduler u" "ui_timer e BlinkCursor"] assms that by (simp add: P_def)
  ultimately show ?thesis
    by (auto simp: on_typing_start_def Let_def split: prod.split option.split)
qed

text \<open>The same for operations that can panic: what they return satisfies \<open>P\<close>. The rules follow the structure of a
  definition; the result of an operation on the state is again a state with \<open>P\<close>.\<close>

definition K :: "'q ui option \<Rightarrow> bool" where
  "K x \<longleftrightarrow> (\<forall>u. x = Some u \<longrightarrow> P u)"

lemma K_simps [simp]: "K None" "K (Some u) = P u"
  by (simp_all add: K_def)

lemma K_Some: "P u \<Longrightarrow> K (Some u)"
  by simp

lemma K_use: "K x \<Longrightarrow> x = Some u \<Longrightarrow> P u"
  by (simp add: K_def)

lemma K_bind_ui: "K x \<Longrightarrow> (\<And>u. P u \<Longrightarrow> K (f u)) \<Longrightarrow> K (Option.bind x f)"
  by (cases x) simp_all

lemma K_bind: "(\<And>y. x = Some y \<Longrightarrow> K (f y)) \<Longrightarrow> K (Option.bind x f)"
  by (cases x) simp_all

lemma K_map: "K x \<Longrightarrow> (\<And>u. P u \<Longrightarrow> P (f u)) \<Longrightarrow> K (map_option f x)"
  by (cases x) simp_all

lemma K_let: "K (f x) \<Longrightarrow> K (let y = x in f y)"
  by simp

lemma K_if: "(b \<Longrightarrow> K x) \<Longrightarrow> (\<not> b \<Longrightarrow> K y) \<Longrightarrow> K (if b then x else y)"
  by simp

lemma K_case:
  "(x = None \<Longrightarrow> K a) \<Longrightarrow> (\<And>y. x = Some y \<Longrightarrow> K (f y)) \<Longrightarrow> K (case x of None \<Rightarrow> a | Some y \<Rightarrow> f y)"
  "(\<And>v w. z = (v, w) \<Longrightarrow> K (g v w)) \<Longrightarrow> K (case z of (v, w) \<Rightarrow> g v w)"
  "(\<And>l. s = Inl l \<Longrightarrow> K (h l)) \<Longrightarrow> (\<And>r. s = Inr r \<Longrightarrow> K (k r)) \<Longrightarrow> K (case s of Inl l \<Rightarrow> h l | Inr r \<Rightarrow> k r)"
  "(xs = [] \<Longrightarrow> K a) \<Longrightarrow> (\<And>c cs. xs = c # cs \<Longrightarrow> K (m c cs)) \<Longrightarrow> K (case xs of [] \<Rightarrow> a | c # cs \<Rightarrow> m c cs)"
  by (auto split: option.split prod.split sum.split list.split)

lemma P_case:
  "(x = None \<Longrightarrow> P a) \<Longrightarrow> (\<And>y. x = Some y \<Longrightarrow> P (f y)) \<Longrightarrow> P (case x of None \<Rightarrow> a | Some y \<Rightarrow> f y)"
  "(\<And>v w. z = (v, w) \<Longrightarrow> P (g v w)) \<Longrightarrow> P (case z of (v, w) \<Rightarrow> g v w)"
  "P (f' x') \<Longrightarrow> P (let y = x' in f' y)"
  by (auto split: option.split prod.split)

lemmas K_rules = K_Some K_bind_ui K_bind K_map K_let K_if K_case P_case P_if

subsection \<open>Operations of theory \<open>Ui_State\<close>\<close>

lemma P_clear_selection [intro!]: "P u \<Longrightarrow> P (clear_selection u)"
  by (auto simp: clear_selection_def)

lemma P_update_selection [intro!]: "P u \<Longrightarrow> P (update_selection p side u)"
  by (auto simp: update_selection_def Let_def split: option.split)

lemma P_delay [intro!]:
  "P u \<Longrightarrow> P (if ui_scheduled e topic u then u else ui_schedule e topic ev d rep u)"
  by (auto intro: P_schedule)

lemmas P_rules = P_other [THEN iffD2] P_search [THEN iffD2] P_delay P_upd_term P_unschedule P_replace P_blinking P_typing P_clear_selection P_update_selection

lemma K_copy [ui_keeps]: "P u \<Longrightarrow> K (copy_selection e ty u)"
  unfolding copy_selection_def by (rule K_rules P_rules | assumption | simp)+

lemma K_start_selection [ui_keeps]: "P u \<Longrightarrow> K (start_selection e ty p side u)"
  unfolding start_selection_def by (rule ui_keeps) auto

lemma K_toggle_selection [ui_keeps]: "P u \<Longrightarrow> K (ui_toggle_selection e ty p side u)"
  unfolding ui_toggle_selection_def by (rule K_rules P_rules ui_keeps | assumption | simp)+

lemma K_expand_selection [ui_keeps]: "P u \<Longrightarrow> K (expand_selection e u)"
  unfolding expand_selection_def by (rule K_rules P_rules ui_keeps | assumption | simp)+

lemma K_scroll [ui_keeps]: "P u \<Longrightarrow> K (ui_scroll e z u)"
  unfolding ui_scroll_def by (rule K_rules P_rules ui_keeps | assumption | simp)+

subsection \<open>Operations of theory \<open>Ui_Search\<close>\<close>

lemma P_reset_search: "P u \<Longrightarrow> P (search_reset_state e u)"
  unfolding search_reset_state_def by (rule K_rules P_rules ui_keeps | assumption | simp)+

lemma P_exit_search: "P u \<Longrightarrow> P (exit_search e u)"
proof -
  have "P u \<Longrightarrow> P (upd_search (\<lambda>s. s\<lparr>su_history_index := None, su_focused_match := None\<rparr>) u)" for u :: "'a ui"
    by (auto simp: P_def upd_search_def intro: Q_leave)
  then show "P u \<Longrightarrow> P (exit_search e u)" by (simp add: exit_search_def Let_def)
qed

lemma P_start_search:
  assumes "P u"
  shows "P (start_search dir u)"
proof -
  have "ui_term (start_search dir u) = ui_term u" "ui_scheduler (start_search dir u) = ui_scheduler u"
    "su_history (ui_search (start_search dir u)) = push_search (su_history (ui_search u))"
    "su_history_index (ui_search (start_search dir u)) = Some 0"
    by (simp_all add: start_search_def Let_def effect_def push_search_def)
  then show ?thesis using assms by (auto simp: P_def intro: Q_start)
qed

lemma P_edit: "P u \<Longrightarrow> P (upd_search (\<lambda>s. s\<lparr>su_history := (su_history s)[j := r]\<rparr>) u)"
  by (auto simp: P_def upd_search_def intro: Q_edit)

lemma P_browse: "P u \<Longrightarrow> j < length (su_history (ui_search u)) \<Longrightarrow> P (upd_search (\<lambda>s. s\<lparr>su_history_index := Some j\<rparr>) u)"
  by (auto simp: P_def upd_search_def intro: Q_browse)

lemma P_back: "P u \<Longrightarrow> su_history_index (ui_search u) = Some j \<Longrightarrow> P (upd_search (\<lambda>s. s\<lparr>su_history_index := Some (j - 1)\<rparr>) u)"
  by (auto simp: P_def upd_search_def dest: Q_back)

lemma P_first:
  "P u \<Longrightarrow> vget (su_history (ui_search u)) j = Some r'
   \<Longrightarrow> P (upd_search (\<lambda>s. s\<lparr>su_history := (su_history s)[0 := r], su_history_index := Some 0\<rparr>) u)"
  using Q_edit [of "ui_term u" "su_history (ui_search u)" "su_history_index (ui_search u)" 0 r]
  by (auto simp: P_def upd_search_def vget_def intro!: Q_browse split: if_splits)

lemmas P_search_rules = P_reset_search P_exit_search P_start_search P_edit P_first

lemma K_goto_match [ui_keeps]: "P u \<Longrightarrow> K (goto_match e limit u)"
  unfolding goto_match_def by (rule K_rules P_rules P_search_rules ui_keeps | assumption | simp)+

lemma K_update_search [ui_keeps]: "P u \<Longrightarrow> K (update_search e u)"
  unfolding update_search_def by (rule K_rules P_rules P_search_rules ui_keeps | assumption | simp)+

lemma K_cancel_search [ui_keeps]: "P u \<Longrightarrow> K (cancel_search e u)"
  unfolding cancel_search_def by (rule K_rules P_rules P_search_rules ui_keeps | assumption | simp)+

lemma K_confirm_search [ui_keeps]: "P u \<Longrightarrow> K (confirm_search e u)"
  unfolding confirm_search_def by (rule K_rules P_rules P_search_rules ui_keeps | assumption | simp)+

lemma K_search_input [ui_keeps]: "P u \<Longrightarrow> K (search_input e c u)"
  unfolding search_input_def by (rule K_rules P_rules P_search_rules ui_keeps | assumption | simp)+

lemma K_search_inputs [ui_keeps]: "P u \<Longrightarrow> K (search_inputs e cs u)"
  by (induction cs arbitrary: u) (simp, unfold search_inputs.simps, (rule K_rules P_rules P_search_rules ui_keeps | assumption | simp)+)

lemma K_search_pop_word [ui_keeps]: "P u \<Longrightarrow> K (search_pop_word e u)"
  unfolding search_pop_word_def by (rule K_rules P_rules P_search_rules ui_keeps | assumption | simp)+

lemma K_search_history [ui_keeps]: "P u \<Longrightarrow> K (search_history_previous e u)" "P u \<Longrightarrow> K (search_history_next e u)"
  unfolding search_history_previous_def search_history_next_def
  by (rule K_rules P_back P_browse ui_keeps | assumption | simp)+

lemma K_advance_search_origin [ui_keeps]: "P u \<Longrightarrow> K (advance_search_origin e dir u)"
  unfolding advance_search_origin_def by (rule K_rules P_rules P_search_rules ui_keeps | assumption | simp)+

lemma K_start_seeded_search [ui_keeps]: "P u \<Longrightarrow> K (start_seeded_search e dir text u)"
  unfolding start_seeded_search_def by (rule K_rules P_rules P_search_rules ui_keeps | assumption | simp)+

lemma K_inline_search [ui_keeps]: "P u \<Longrightarrow> K (inline_search dir u)"
  unfolding inline_search_def by (rule K_rules P_rules P_search_rules ui_keeps | assumption | simp)+

lemma K_inline_search_next [ui_keeps]: "P u \<Longrightarrow> K (inline_search_next u)" "P u \<Longrightarrow> K (inline_search_previous u)"
  unfolding inline_search_next_def inline_search_previous_def by (rule K_rules P_rules P_search_rules ui_keeps | assumption | simp)+

lemma K_inline_search_input [ui_keeps]: "P u \<Longrightarrow> K (inline_search_input text u)"
  unfolding inline_search_input_def by (rule K_rules P_rules P_search_rules ui_keeps | assumption | simp)+

subsection \<open>Operations of theory \<open>Ui_Actions\<close>\<close>

lemma K_input_start [ui_keeps]: "P u \<Longrightarrow> K (on_terminal_input_start e u)"
  unfolding on_terminal_input_start_def by (rule K_rules P_rules P_search_rules ui_keeps | assumption | simp)+

lemma K_paste [ui_keeps]: "P u \<Longrightarrow> K (paste e text b u)"
  unfolding paste_def by (rule K_rules P_rules P_search_rules ui_keeps | assumption | simp)+

lemma K_spawn [ui_keeps]: "P u \<Longrightarrow> K (spawn_new_instance e u)"
  unfolding spawn_new_instance_def by (rule K_rules P_rules P_search_rules ui_keeps | assumption | simp)+

lemma K_case_hint:
  "(\<And>i. x = HintAction i \<Longrightarrow> K (f i)) \<Longrightarrow> (\<And>p. x = HintCommand p \<Longrightarrow> K (g p))
   \<Longrightarrow> K (case x of HintAction i \<Rightarrow> f i | HintCommand p \<Rightarrow> g p)"
  "K a1 \<Longrightarrow> K a2 \<Longrightarrow> K a3 \<Longrightarrow> K a4
   \<Longrightarrow> K (case y of HintCopy \<Rightarrow> a1 | HintPaste \<Rightarrow> a2 | HintSelect \<Rightarrow> a3 | MoveViModeCursor \<Rightarrow> a4)"
  by (auto split: hint_action.split hint_internal_action.split)

lemma K_trigger_hint [ui_keeps]: "P u \<Longrightarrow> K (trigger_hint e h u)"
  unfolding trigger_hint_def by (rule K_rules K_case_hint P_rules P_search_rules ui_keeps | assumption | simp)+

lemma K_hint_input [ui_keeps]: "P u \<Longrightarrow> K (hint_input e c u)"
  unfolding hint_input_def by (rule K_rules P_rules P_search_rules ui_keeps | assumption | simp)+

lemma K_toggle_vi_mode [ui_keeps]: "P u \<Longrightarrow> K (ui_toggle_vi_mode e u)"
  unfolding ui_toggle_vi_mode_def by (rule K_rules P_rules P_search_rules ui_keeps | assumption | simp)+

lemma K_vi_search [ui_keeps]: "P u \<Longrightarrow> K (vi_search dir side target u)"
  unfolding vi_search_def by (rule K_rules P_rules P_search_rules ui_keeps | assumption | simp)+

lemma K_action_toggle [ui_keeps]: "P u \<Longrightarrow> K (action_toggle_selection e ty u)"
  unfolding action_toggle_selection_def by (rule K_rules P_rules P_search_rules ui_keeps | assumption | simp)+

lemma K_semantic_search [ui_keeps]: "P u \<Longrightarrow> K (semantic_search e dir u)"
  unfolding semantic_search_def by (rule K_rules P_rules P_search_rules ui_keeps | assumption | simp)+

lemma K_execute_vi [ui_keeps]: "P u \<Longrightarrow> K (execute_vi e a u)"
  by (cases a; hypsubst; unfold execute_vi.simps) (rule K_rules P_rules P_search_rules ui_keeps | assumption | simp)+

lemma K_execute_search [ui_keeps]: "P u \<Longrightarrow> K (execute_search e a u)"
  by (cases a; hypsubst; unfold execute_search.simps) (rule K_rules P_rules P_search_rules ui_keeps | assumption | simp)+

lemma P_motion: "P u \<Longrightarrow> term_vi_motion m (ui_term u) = Some t \<Longrightarrow> P (u\<lparr>ui_term := t\<rparr>)"
  by (auto simp: P_def dest: Q_motion)

lemma P_clear: "P u \<Longrightarrow> clear_screen ClearSaved (ui_term u) = Some t \<Longrightarrow> P (u\<lparr>ui_term := t\<rparr>)"
  by (auto simp: P_def dest: Q_clear)

lemma K_scroll_page [ui_keeps]: "P u \<Longrightarrow> K (scroll_page e z n u)"
  unfolding scroll_page_def by (rule K_rules P_rules P_search_rules ui_keeps | assumption | simp)+

lemma K_scroll_vi_end [ui_keeps]: "P u \<Longrightarrow> K (scroll_vi_end e z line n u)"
proof -
  have after: "K (do { t \<leftarrow> term_vi_motion FirstOccupied t; t \<leftarrow> (if n = 2 then term_vi_motion FirstOccupied t else Some t);
      Some (ui_mark_dirty (u\<lparr>ui_term := t\<rparr>)) })"
    if "P u" "t = (ui_term u)\<lparr>t_vi_cursor := p\<rparr>" for u :: "'a ui" and t p
    using that by (auto simp: K_def P_def bind_eq_Some_conv ui_mark_dirty_def dest!: Q_motion split: if_splits intro: Q_vi_cursor)
  show "P u \<Longrightarrow> K (scroll_vi_end e z line n u)"
    unfolding scroll_vi_end_def by (rule K_bind_ui ui_keeps after K_let refl | assumption)+
qed

lemma K_execute [ui_keeps]: "P u \<Longrightarrow> K (execute e a u)"
proof (induction e a u rule: execute.induct)
qed ((unfold execute.simps, (rule K_rules P_rules P_search_rules P_motion P_clear ui_keeps | assumption | simp)+)+)

subsection \<open>Operations of theory \<open>Ui_Events\<close>\<close>

lemma K_reset_cursor [ui_keeps]: "P u \<Longrightarrow> K (reset_mouse_cursor e u)"
  by (auto simp: reset_mouse_cursor_def K_def)

lemma K_modifiers [ui_keeps]: "P u \<Longrightarrow> K (modifiers_input e mods u)"
  unfolding modifiers_input_def by (rule K_rules P_rules P_search_rules ui_keeps | assumption | simp)+

lemma K_mouse_request: "P u \<Longrightarrow> \<not> is_schedule x \<Longrightarrow> K (mouse_request e x u)"
  by (cases x; hypsubst; unfold mouse_request.simps) (rule K_rules P_rules P_search_rules ui_keeps | assumption | simp)+

lemma K_mouse_requests:
  "P u \<Longrightarrow> paired_after b xs \<Longrightarrow> (b \<Longrightarrow> \<exists>v. P v \<and> u = ui_unschedule e SelectionScrolling v) \<Longrightarrow> K (mouse_requests e xs u)"
proof (induction xs arbitrary: u b)
  case (Cons x xs)
  have "K (mouse_request e x u)"
  proof (cases "is_schedule x")
    case True
    then show ?thesis using Cons.prems by (cases x) (auto intro: P_replace)
  qed (simp add: K_mouse_request Cons.prems)
  then have "K (mouse_requests e xs v)" if "mouse_request e x u = Some v" for v
    using that Cons.prems by (intro Cons.IH [of v "x = UnscheduleScrolling"]) (auto simp: K_def)
  then show ?case by (auto intro: K_bind)
qed simp

lemma P_show_mouse: "P u \<Longrightarrow> P (show_mouse u)"
  by (simp add: show_mouse_def)

lemma K_mouse [ui_keeps]: "P u \<Longrightarrow> K (ui_mouse_input e b button u)" "P u \<Longrightarrow> K (ui_mouse_moved e x y u)"
  using mouse_input_paired [of "ue_char_width e" "mouse_env_of e u" b button "ui_mouse u"]
    mouse_moved_paired [of "ue_min_scrolling_height e" "ue_scrolling_step e" "mouse_env_of e u" x y "ui_mouse u"]
  by (auto simp: ui_mouse_input_def ui_mouse_moved_def paired_result_def intro!: K_bind K_mouse_requests [where b = False])

text \<open>The keyboard works on the state or a panic.\<close>

lemma unschedule_found: "unschedule tid sc = (Some tm, sc') \<Longrightarrow> tm_id tm = tid \<and> sc' = snd (unschedule tid sc)"
  by (auto simp: unschedule_def split: option.splits dest: position_Some)

lemma fold_inv: "R c \<Longrightarrow> (\<And>x c. R c \<Longrightarrow> R (f x c)) \<Longrightarrow> R (fold f xs c)"
  by (induction xs arbitrary: c) auto

lemma K_context [simp]:
  assumes "K c"
  shows "K (ac_set_ime_allowed (key_context e) b c)" "K (ac_hint_input (key_context e) ch c)"
    "K (ac_inline_search_input (key_context e) s c)" "K (ac_search_input (key_context e) ch c)"
    "K (ac_execute (key_context e) a c)" "K (ac_on_terminal_input_start (key_context e) c)"
    "K (ac_write_to_pty (key_context e) bytes c)"
  unfolding key_context_def action_context.simps
  by (insert assms, (rule K_rules P_rules ui_keeps | assumption | simp)+)

lemma K_search_delay [simp]:
  assumes "K c"
  shows "K (reset_search_delay (key_context e) now c)"
proof (cases c)
  case (Some u)
  let ?tid = "\<lparr>ti_topic = DelayedSearch, ti_window = ue_window e\<rparr>"
  have "S (case unschedule ?tid sc of (Some t, s) \<Rightarrow> schedule now (tm_event t) TYPING_SEARCH_DELAY False (tm_id t) s | (None, s) \<Rightarrow> s)"
    if "S sc" for sc
  proof (cases "unschedule ?tid sc")
    case (Pair r s)
    then show ?thesis using S_replace [OF that, of _ _ _ _ ?tid] S_cancel [OF that, of ?tid] unschedule_found [of ?tid sc _ s]
      by (auto split: option.split)
  qed
  then have "P (u\<lparr>ui_scheduler := (case unschedule ?tid (ui_scheduler u) of (Some t, s) \<Rightarrow>
      schedule now (tm_event t) TYPING_SEARCH_DELAY False (tm_id t) s | (None, s) \<Rightarrow> s)\<rparr>)"
    using assms Some by (auto intro: P_timers)
  then show ?thesis using assms Some by (simp add: reset_search_delay_def key_context_def)
qed (simp add: reset_search_delay_def key_context_def observe_def)

lemma K_binding_action: "K (snd st) \<Longrightarrow> K (snd (binding_action (key_context e) mode mods lk key b st))"
  by (auto simp: binding_action_def split: prod.split)

lemma K_bindings:
  assumes "K c"
  shows "K (snd (process_key_bindings (key_context e) lower key c))"
proof -
  have "K (snd (fold (binding_action (key_context e) mode mods lk key) bs (None, c)))" for mode mods lk bs
    by (rule fold_inv [where R = "\<lambda>st. K (snd st)"]) (simp_all add: assms K_binding_action)
  then have "K (snd (fold (\<lambda>hb st. case hb of Some b \<Rightarrow> binding_action (key_context e) mode mods lk key b st | None \<Rightarrow> st) hbs
      (fold (binding_action (key_context e) mode mods lk key) bs (None, c))))" for mode mods lk bs hbs
    by (rule fold_inv [where R = "\<lambda>st. K (snd st)"]) (auto simp: K_binding_action split: option.split)
  then show ?thesis by (simp add: process_key_bindings_def Let_def case_prod_unfold)
qed

lemma K_key_release: "K c \<Longrightarrow> K (key_release (key_context e) to_text lower_char key mode mods c)"
  by (simp add: key_release_def Let_def)

lemma K_key_input [ui_keeps]: "P u \<Longrightarrow> K (ui_key_input e key u)"
proof -
  assume "P u"
  then have u: "K (Some u)" by simp
  have hints: "K (fold (ac_hint_input (key_context e)) s c)" "K (fold (ac_search_input (key_context e)) s c)" if "K c" for s c
    using that by (auto intro: fold_inv)
  have bound: "K (snd (process_key_bindings (key_context e) lower key (reset_search_delay (key_context e) now c)))"
    if "K c" for lower now c
    by (rule K_bindings) (simp add: that)
  show ?thesis using u
    unfolding ui_key_input_def key_input_def Let_def
    by (auto simp: case_prod_unfold bound intro!: hints K_key_release)
qed

text \<open>Requests of the terminal, timers and events of the window.\<close>

lemma P_bell: "P u \<Longrightarrow> P (ring_bell e u)"
  unfolding ring_bell_def by (rule K_rules P_rules | assumption | simp)+

lemma K_terminal_request [ui_keeps]: "P u \<Longrightarrow> K (terminal_request e ev u)"
  by (cases ev; hypsubst; unfold terminal_request.simps) (rule K_rules P_rules P_bell ui_keeps | assumption | simp)+

lemma K_user_event [ui_keeps]: "P u \<Longrightarrow> K (user_event e ev u)"
  by (cases ev; hypsubst; unfold user_event.simps) (rule K_rules P_rules ui_keeps | assumption | simp)+

lemma K_focus_change: "P u \<Longrightarrow> K (mouse_requests e (on_focus_change mode b) u)"
  by (rule K_mouse_requests [where b = False]) (simp_all add: on_focus_change_def)

lemma K_window_event [ui_keeps]: "P u \<Longrightarrow> K (on_window_event e ev u)"
  by (cases ev; hypsubst; unfold on_window_event.simps)
    (rule K_rules P_rules P_show_mouse K_focus_change ui_keeps | assumption | simp)+

lemma K_event [ui_keeps]: "P u \<Longrightarrow> K (ui_handle_event e ev u)"
  by (cases ev; hypsubst; unfold ui_handle_event.simps) (rule ui_keeps K_rules | assumption | simp)+

lemma events_keep:
  assumes "ui_handle_events evs u = Some u'" "P u"
  shows "P u'"
  using assms
proof (induction evs arbitrary: u)
  case (Cons x evs)
  obtain e ev where x: "x = (e, ev)" by (cases x)
  obtain v where v: "ui_handle_event e ev u = Some v" "ui_handle_events evs v = Some u'"
    using Cons.prems(1) by (auto simp: x bind_eq_Some_conv)
  have "K (ui_handle_event e ev u)" by (rule K_event [OF Cons.prems(2)])
  then show ?case using v by (intro Cons.IH [OF v(2)]) simp
qed simp

end

subsection \<open>The three invariants\<close>

text \<open>The history is bounded, and the index of an active search is one of it.\<close>

definition search_history_ok :: "ustring list \<Rightarrow> nat option \<Rightarrow> bool" where
  "search_history_ok h i \<longleftrightarrow> length h \<le> MAX_SEARCH_HISTORY_SIZE \<and> (\<forall>j. i = Some j \<longrightarrow> j < length h)"

text \<open>The timers are sorted and no two of them have the same identifier.\<close>

definition timers_unique :: "'e scheduler \<Rightarrow> bool" where
  "timers_unique sc \<longleftrightarrow> sched_sorted sc \<and> distinct (map tm_id (sc_timers sc))"

lemma scheduled_schedule: "scheduled tid (schedule now ev d rep tid' sc) \<longleftrightarrow> tid' = tid \<or> scheduled tid sc"
proof -
  have "set (sc_timers sc) = set (takeWhile p (sc_timers sc)) \<union> set (dropWhile p (sc_timers sc))" for p
    by (subst takeWhile_dropWhile_id [of p, symmetric]) (simp only: set_append)
  then show ?thesis by (auto simp: scheduled_def schedule_timers list_ex_iff)
qed

lemma unique_schedule:
  assumes "timers_unique sc" "\<not> scheduled tid sc"
  shows "timers_unique (schedule now ev d rep tid sc)"
proof -
  let ?p = "\<lambda>t. tm_deadline t \<le> now + d"
  have "distinct (map tm_id (takeWhile ?p (sc_timers sc) @ dropWhile ?p (sc_timers sc)))"
    using assms(1) by (simp add: timers_unique_def)
  moreover have "tid \<notin> tm_id ` set (takeWhile ?p (sc_timers sc) @ dropWhile ?p (sc_timers sc))"
    using assms(2) by (auto simp: scheduled_def list_ex_iff)
  ultimately have "distinct (map tm_id (sc_timers (schedule now ev d rep tid sc)))"
    unfolding schedule_timers by (auto simp del: takeWhile_dropWhile_id)
  then show ?thesis using assms(1) by (simp add: timers_unique_def schedule_sorted)
qed

lemma unique_unschedule:
  assumes "timers_unique sc"
  shows "timers_unique (snd (unschedule tid sc)) \<and> \<not> scheduled tid (snd (unschedule tid sc))
    \<and> (scheduled tid' (snd (unschedule tid sc)) \<longrightarrow> scheduled tid' sc)"
proof (cases "position (\<lambda>t. tm_id t = tid) (sc_timers sc)")
  case None
  then have "unschedule tid sc = (None, sc)" by (simp add: unschedule_def)
  moreover have "\<not> scheduled tid sc" using None by (auto simp: scheduled_def list_ex_iff position_None)
  ultimately show ?thesis using assms by simp
next
  case (Some i)
  have i: "i < length (sc_timers sc)" "tm_id (sc_timers sc ! i) = tid" using position_Some [OF Some] by simp_all
  have split: "sc_timers sc = take i (sc_timers sc) @ sc_timers sc ! i # drop (Suc i) (sc_timers sc)"
    using i(1) by (simp add: id_take_nth_drop)
  have "distinct (map tm_id (take i (sc_timers sc) @ sc_timers sc ! i # drop (Suc i) (sc_timers sc)))"
    using assms split by (simp add: timers_unique_def)
  then have d: "distinct (map tm_id (take i (sc_timers sc) @ drop (Suc i) (sc_timers sc)))"
    and n: "tid \<notin> tm_id ` set (take i (sc_timers sc) @ drop (Suc i) (sc_timers sc))"
    using i(2) by auto
  have sub: "set (take i (sc_timers sc) @ drop (Suc i) (sc_timers sc)) \<subseteq> set (sc_timers sc)"
    by (auto dest: in_set_takeD in_set_dropD)
  have eq: "snd (unschedule tid sc) = sc\<lparr>sc_timers := take i (sc_timers sc) @ drop (Suc i) (sc_timers sc)\<rparr>"
    using Some by (simp add: unschedule_def)
  have "sched_sorted (snd (unschedule tid sc))" using assms by (simp add: timers_unique_def unschedule_sorted)
  then show ?thesis using d n sub by (auto simp: eq timers_unique_def scheduled_def list_ex_iff)
qed

lemma clear_saved_wf: "clear_screen m t = Some t' \<Longrightarrow> wf_term t \<Longrightarrow> wf_term t'"
  using returnsD [OF clear_screen_wf] by blast

interpretation terminal: ui_invariant "\<lambda>t h i. wf_term t" "\<lambda>sc. True"
  by unfold_locales (auto simp: scroll_display_wf pure_wf auto_scroll_wf term_exit_def intro: clear_saved_wf)

lemma push_search_ok: "search_history_ok h i \<Longrightarrow> search_history_ok (push_search h) (Some 0)"
  by (auto simp: search_history_ok_def push_search_def MAX_SEARCH_HISTORY_SIZE_def split: list.split)

interpretation history: ui_invariant "\<lambda>t h i. search_history_ok h i" "\<lambda>sc. True"
  by unfold_locales (auto simp: push_search_ok, auto simp: search_history_ok_def)

interpretation timers: ui_invariant "\<lambda>t h i. True" timers_unique
proof unfold_locales
  fix sc :: "ui_event scheduler" and tid tid' :: timer_id and now ev d rep ev' d' rep'
  assume sc: "timers_unique sc" and ne: "tid \<noteq> tid'"
  have gone: "\<not> scheduled tid (snd (unschedule tid' (snd (unschedule tid sc))))"
    "\<not> scheduled tid' (snd (unschedule tid' (snd (unschedule tid sc))))"
    using unique_unschedule sc by metis+
  have t: "timers_unique (snd (unschedule tid' (snd (unschedule tid sc))))" using unique_unschedule sc by metis
  show "timers_unique (schedule now ev d rep tid (snd (unschedule tid' (snd (unschedule tid sc)))))"
    by (rule unique_schedule [OF t gone(1)])
  then show "timers_unique (schedule now ev' d' rep' tid' (schedule now ev d rep tid (snd (unschedule tid' (snd (unschedule tid sc))))))"
    by (rule unique_schedule) (simp add: scheduled_schedule gone ne)
qed (auto simp: unique_unschedule unique_schedule)

end
