(* ===== verification/Ui_Window.thy ===== *)
theory Ui_Window
  imports Ui_Events Resize_Safety
begin

text \<open>
  The queue of events of a window and the update of its size: \<^verbatim>\<open>WindowContext::handle_event\<close> and
  \<^verbatim>\<open>WindowContext::submit_display_update\<close> of \<^verbatim>\<open>velacritty/src/window_context.rs\<close> and \<^verbatim>\<open>Display::handle_update\<close> of
  \<^verbatim>\<open>velacritty/src/display/mod.rs\<close>, without changes of the font.
\<close>

record 'q window =
  wn_ui :: "'q ui"
  wn_size :: size_info
  wn_tracker :: damage_tracker
  wn_queue :: "winit_event list"
  wn_renderer_resize :: bool
  wn_has_frame :: bool
  wn_redraw :: bool

record window_config =
  wc_padding :: "nat \<times> nat"
  wc_dynamic_padding :: bool

text \<open>The size of the grid in a window, without the lines of the message bar and the search bar. It is computed from the pending
  dimensions, or the current ones.\<close>

definition updated_size :: "'q ui_env \<Rightarrow> window_config \<Rightarrow> 'q window \<Rightarrow> size_info option" where
  "updated_size e wc w = do {
     let u = wn_ui w;
     let (width, height) = (case ui_pending_dimensions u of
           Some dimensions \<Rightarrow> dimensions | None \<Rightarrow> (si_width (wn_size w), si_height (wn_size w)));
     let new_size = size_info_new width height (si_cell_width (wn_size w)) (si_cell_height (wn_size w))
           (fst (wc_padding wc)) (snd (wc_padding wc)) (wc_dynamic_padding wc);
     message_bar_lines \<leftarrow> message_lines (ue_char_width e) new_size (ui_messages u);
     Some (reserve_lines (message_bar_lines + (if search_active u then 1 else 0)) new_size)
   }"

definition handle_update :: "'q ui_env \<Rightarrow> window_config \<Rightarrow> 'q window \<Rightarrow> 'q window option" where
  "handle_update e wc w = do {
     new_size \<leftarrow> updated_size e wc w;
     let w = w\<lparr>wn_ui := (wn_ui w)\<lparr>ui_pending_dimensions := None, ui_pending_dirty := False\<rparr>\<rparr>;
     w \<leftarrow> (if si_screen_lines (wn_size w) \<noteq> si_screen_lines new_size \<or> si_columns (wn_size w) \<noteq> si_columns new_size
           then do {
             let u = effect (ResizePty (window_size_of new_size)) (wn_ui w);
             t \<leftarrow> term_resize (si_columns new_size) (si_screen_lines new_size) (ui_term u);
             Some (w\<lparr>wn_ui := u\<lparr>ui_term := t\<rparr>,
                    wn_tracker := tracker_resize (si_screen_lines new_size) (si_columns new_size) (wn_tracker w)\<rparr>)
           }
           else Some w);
     let w = (if new_size \<noteq> wn_size w
              then w\<lparr>wn_renderer_resize := True, wn_ui := upd_search (\<lambda>s. s\<lparr>su_focused_match := None\<rparr>) (wn_ui w)\<rparr>
              else w);
     Some (w\<lparr>wn_size := new_size\<rparr>)
   }"

definition submit_display_update :: "'q ui_env \<Rightarrow> window_config \<Rightarrow> bool \<Rightarrow> 'q window \<Rightarrow> 'q window option" where
  "submit_display_update e wc old_is_searching w = do {
     let t = ui_term (wn_ui w);
     let num_lines = int (screen_lines (t_dims t));
     let cursor_at_bottom = (p_line (cu_point (t_cursor t)) + 1 = num_lines);
     let origin_at_bottom = (if has_mode t VI then p_line (t_vi_cursor t) = num_lines - 1
                             else su_direction (ui_search (wn_ui w)) = DirLeft);
     w \<leftarrow> handle_update e wc w;
     let u = wn_ui w;
     let display_offset = g_display_offset (t_grid (ui_term u));
     Some (if \<not> old_is_searching \<and> search_active u
           then if display_offset = 0 \<and> cursor_at_bottom \<and> \<not> origin_at_bottom
                then w\<lparr>wn_ui := upd_term (scroll_display (Delta 1)) u\<rparr>
                else if display_offset \<noteq> 0 \<and> origin_at_bottom
                then w\<lparr>wn_ui := upd_term (scroll_display (Delta (- 1))) u\<rparr>
                else w
           else w)
   }"

text \<open>What arrives at a window. Events are staged until the event loop is about to wait or a redraw is requested; the clock is read
  for each staged event.\<close>

datatype arrival = Staged winit_event | AboutToWait | RedrawRequested

definition staged :: "'q ui_env \<Rightarrow> (nat \<Rightarrow> nat) \<Rightarrow> 'q window \<Rightarrow> ('q ui_env \<times> winit_event) list" where
  "staged e clock w = map (\<lambda>(i, ev). (e\<lparr>ue_now := clock i, ue_size := wn_size w\<rparr>, ev)) (enumerate 0 (wn_queue w))"

definition process_queue :: "'q ui_env \<Rightarrow> window_config \<Rightarrow> (nat \<Rightarrow> nat) \<Rightarrow> bool \<Rightarrow> 'q window \<Rightarrow> 'q window option" where
  "process_queue e wc clock is_redraw w = do {
     let old_is_searching = search_active (wn_ui w);
     u \<leftarrow> ui_handle_events (staged e clock w) (wn_ui w);
     let w = w\<lparr>wn_ui := u, wn_queue := []\<rparr>;
     w \<leftarrow> (if ui_pending_dirty u
           then map_option (\<lambda>w. w\<lparr>wn_ui := ui_mark_dirty (wn_ui w)\<rparr>) (submit_display_update e wc old_is_searching w)
           else Some w);
     w \<leftarrow> (if ui_dirty (wn_ui w) \<or> ms_hint_highlight_dirty (ui_mouse (wn_ui w))
           then do {
             (u, changed) \<leftarrow> update_highlighted_hints (e\<lparr>ue_size := wn_size w\<rparr>) (wn_ui w);
             Some (w\<lparr>wn_ui := (dirty_if changed u)\<lparr>ui_mouse := (ui_mouse u)\<lparr>ms_hint_highlight_dirty := False\<rparr>\<rparr>\<rparr>)
           }
           else Some w);
     Some (if ui_dirty (wn_ui w) \<and> wn_has_frame w \<and> \<not> ui_occluded (wn_ui w) \<and> \<not> is_redraw then w\<lparr>wn_redraw := True\<rparr> else w)
   }"

fun window_handle_event :: "'q ui_env \<Rightarrow> window_config \<Rightarrow> (nat \<Rightarrow> nat) \<Rightarrow> arrival \<Rightarrow> 'q window \<Rightarrow> 'q window option" where
  "window_handle_event e wc clock (Staged ev) w = Some (w\<lparr>wn_queue := wn_queue w @ [ev]\<rparr>)"
| "window_handle_event e wc clock AboutToWait w = (if wn_queue w = [] then Some w else process_queue e wc clock False w)"
| "window_handle_event e wc clock RedrawRequested w = (if wn_queue w = [] then Some w else process_queue e wc clock True w)"

end
