(* ===== verification/Props_Events.thy ===== *)
theory Props_Events
  imports Ui_Invariant Ui_Window Props_Search
begin

text \<open>
  Properties of the user interface: its invariants under arbitrary sequences of events, pasting, the search bar, and the timers
  of the cursor and of resizing.
\<close>

subsection \<open>A small user interface\<close>

definition demo_ui :: "nat ui" where
  "demo_ui = \<lparr>ui_term = demo_term, ui_search = search_ui_default, ui_inline = inline_search_default, ui_hints = hint_state_new [],
     ui_vi_hint = None, ui_highlighted_hint = None, ui_hint_mouse_point = None, ui_mouse = mouse_default 0, ui_modifiers = no_mods,
     ui_scheduler = scheduler_new, ui_messages = [], ui_blink_timed_out = False, ui_cursor_hidden = False, ui_preedit = None,
     ui_ime_enabled = False, ui_auto_scroll = True, ui_mouse_visible = True, ui_dirty = False, ui_pending_dirty = False,
     ui_pending_dimensions = None,
     ui_fully_damaged = False, ui_occluded = False, ui_prev_bell = None, ui_effects = []\<rparr>"

definition demo_ui_size :: size_info where
  "demo_ui_size = \<lparr>si_width = 40, si_height = 60, si_cell_width = 10, si_cell_height = 20, si_padding_x = 0, si_padding_y = 0,
     si_screen_lines = 3, si_columns = 4\<rparr>"

definition demo_ui_env :: "nat \<Rightarrow> nat ui_env" where
  "demo_ui_env now = \<lparr>ue_now = now, ue_window = 7, ue_size = demo_ui_size, ue_build = (\<lambda>_. None), ue_hints = [], ue_clipboard = (\<lambda>_. []),
     ue_cursor = \<lparr>cc_style = WithBlinking CBlock BlinkAlways, cc_vi_mode_style = None, cc_unfocused_hollow = True,
       cc_blink_interval = 750, cc_blink_timeout = 5\<rparr>,
     ue_hide_when_typing = False, ue_save_to_clipboard = False, ue_dynamic_title = True, ue_preserve_title = False, ue_title = [],
     ue_bell_command = None, ue_args = [], ue_colors = (\<lambda>_. undefined), ue_key_bindings = [], ue_hint_bindings = [],
     ue_mouse_bindings = [], ue_char_width = (\<lambda>_. Some 1), ue_key_text = (\<lambda>_. None), ue_lowercase = (\<lambda>s. s),
     ue_lowercase_char = (\<lambda>c. c), ue_min_scrolling_height = 5, ue_scrolling_step = 20\<rparr>"

lemma demo_ui_sel [simp]:
  "ui_term demo_ui = demo_term" "ui_search demo_ui = search_ui_default" "ui_scheduler demo_ui = scheduler_new"
  "ui_inline demo_ui = inline_search_default" "ui_cursor_hidden demo_ui = False" "ui_mouse demo_ui = mouse_default 0"
  by (simp_all add: demo_ui_def)

lemma demo_ui_env_sel [simp]:
  "ue_window (demo_ui_env n) = 7" "ue_now (demo_ui_env n) = n" "ue_size (demo_ui_env n) = demo_ui_size" "ue_build (demo_ui_env n) = (\<lambda>_. None)"
  by (simp_all add: demo_ui_env_def)

lemma demo_ui_timers: "timers_unique (ui_scheduler demo_ui)"
  by (simp add: timers_unique_def scheduler_new_def sched_sorted_def)

subsection \<open>Invariants of all events\<close>


text \<open>C8: The search history never exceeds its bound, and an active search always has an expression, whatever events a window
  receives.\<close>

theorem events_keep_search_history:
  assumes "ui_handle_events evs u = Some u'" "search_history_ok (su_history (ui_search u)) (su_history_index (ui_search u))"
  shows "length (su_history (ui_search u')) \<le> 255 \<and> (search_active u' \<longrightarrow> search_text (ui_search u') \<noteq> None)"
proof -
  have "search_history_ok (su_history (ui_search u')) (su_history_index (ui_search u'))"
    using history.events_keep [OF assms(1)] assms(2) by (simp add: history.P_def)
  then show ?thesis
    by (auto simp: search_history_ok_def MAX_SEARCH_HISTORY_SIZE_def search_active_def search_text_def)
qed


subsection \<open>Timers\<close>

lemma filter_scheduled: "\<not> scheduled tid sc \<Longrightarrow> filter (\<lambda>t. tm_id t = tid) (sc_timers sc) = []"
  by (auto simp: scheduled_def list_ex_iff filter_empty_conv)

lemma filter_schedule:
  assumes "\<not> scheduled tid sc"
  shows "filter (\<lambda>t. tm_id t = tid) (sc_timers (schedule now ev d rep tid sc)) =
    [\<lparr>tm_deadline = now + d, tm_event = ev, tm_id = tid, tm_interval = (if rep then Some d else None)\<rparr>]"
proof -
  have "filter (\<lambda>t. tm_id t = tid) (takeWhile p (sc_timers sc)) = []" "filter (\<lambda>t. tm_id t = tid) (dropWhile p (sc_timers sc)) = []" for p
    using assms by (auto simp: scheduled_def list_ex_iff filter_empty_conv dest: set_takeWhileD set_dropWhileD)
  then show ?thesis by (simp add: schedule_timers)
qed

lemma resized_event:
  assumes "timers_unique (ui_scheduler u)" "0 < w" "0 < h"
  obtains sc where "on_window_event e (Resized w h) u = Some (u\<lparr>ui_scheduler := sc\<rparr>)" "timers_unique sc"
    "filter (\<lambda>t. tm_id t = ui_timer e ResizeDebounce) (sc_timers sc) =
      [\<lparr>tm_deadline = ue_now e + 16, tm_event = ResizeEvent w h, tm_id = ui_timer e ResizeDebounce, tm_interval = None\<rparr>]"
proof
  let ?sc = "schedule (ue_now e) (ResizeEvent w h) RESIZE_DEBOUNCE_DURATION False (ui_timer e ResizeDebounce)
    (snd (unschedule (ui_timer e ResizeDebounce) (ui_scheduler u)))"
  have gone: "\<not> scheduled (ui_timer e ResizeDebounce) (snd (unschedule (ui_timer e ResizeDebounce) (ui_scheduler u)))"
    using unique_unschedule [OF assms(1)] by blast
  show "on_window_event e (Resized w h) u = Some (u\<lparr>ui_scheduler := ?sc\<rparr>)"
    using assms(2,3) by (simp add: ui_schedule_def ui_unschedule_def)
  show "timers_unique ?sc" using unique_unschedule [OF assms(1)] by (blast intro: unique_schedule)
  show "filter (\<lambda>t. tm_id t = ui_timer e ResizeDebounce) (sc_timers ?sc) =
      [\<lparr>tm_deadline = ue_now e + 16, tm_event = ResizeEvent w h, tm_id = ui_timer e ResizeDebounce, tm_interval = None\<rparr>]"
    by (simp add: filter_schedule [OF gone] RESIZE_DEBOUNCE_DURATION_def)
qed

lemma handle_events_append: "ui_handle_events (xs @ ys) u = Option.bind (ui_handle_events xs u) (ui_handle_events ys)"
proof (induction xs arbitrary: u)
  case (Cons x xs)
  then show ?case by (cases x; cases "ui_handle_event (fst x) (snd x) u") simp_all
qed simp

lemma resized_events:
  assumes "timers_unique (ui_scheduler u)" "\<forall>(e, w, h) \<in> set xs. 0 < w \<and> 0 < h"
  shows "\<exists>sc. ui_handle_events (map (\<lambda>(e, w, h). (e, WindowEvent (Resized w h))) xs) u = Some (u\<lparr>ui_scheduler := sc\<rparr>) \<and> timers_unique sc"
  using assms
proof (induction xs arbitrary: u)
  case Nil
  then show ?case by (intro exI [of _ "ui_scheduler u"]) simp
next
  case (Cons x xs)
  obtain e w h where x: "x = (e, w, h)" by (cases x)
  obtain sc where sc: "on_window_event e (Resized w h) u = Some (u\<lparr>ui_scheduler := sc\<rparr>)" "timers_unique sc"
    using Cons.prems by (auto simp: x elim: resized_event [of u w h e])
  then obtain sc' where "ui_handle_events (map (\<lambda>(e, w, h). (e, WindowEvent (Resized w h))) xs) (u\<lparr>ui_scheduler := sc\<rparr>) =
      Some (u\<lparr>ui_scheduler := sc\<rparr>\<lparr>ui_scheduler := sc'\<rparr>)" "timers_unique sc'"
    using Cons.IH [of "u\<lparr>ui_scheduler := sc\<rparr>"] Cons.prems(2) by auto
  then show ?case using sc(1) by (auto simp: x)
qed

text \<open>C11: However many times a window is resized, nothing but its timers changes until one resize timer fires: exactly one is
  running, it carries the last size, and it is due 16 milliseconds after the last event.\<close>

theorem resizes_are_debounced:
  assumes "timers_unique (ui_scheduler u)" "\<forall>(e, w, h) \<in> set (xs @ [(e, w, h)]). 0 < w \<and> 0 < h"
  shows "\<exists>sc. ui_handle_events (map (\<lambda>(e, w, h). (e, WindowEvent (Resized w h))) (xs @ [(e, w, h)])) u = Some (u\<lparr>ui_scheduler := sc\<rparr>)
    \<and> filter (\<lambda>t. tm_id t = \<lparr>ti_topic = ResizeDebounce, ti_window = ue_window e\<rparr>) (sc_timers sc) =
        [\<lparr>tm_deadline = ue_now e + 16, tm_event = ResizeEvent w h, tm_id = \<lparr>ti_topic = ResizeDebounce, ti_window = ue_window e\<rparr>,
          tm_interval = None\<rparr>]"
proof -
  obtain sc where sc: "ui_handle_events (map (\<lambda>(e, w, h). (e, WindowEvent (Resized w h))) xs) u = Some (u\<lparr>ui_scheduler := sc\<rparr>)"
    "timers_unique sc"
    using resized_events [OF assms(1), of xs] assms(2) by auto
  obtain sc' where "on_window_event e (Resized w h) (u\<lparr>ui_scheduler := sc\<rparr>) = Some (u\<lparr>ui_scheduler := sc\<rparr>\<lparr>ui_scheduler := sc'\<rparr>)"
    "filter (\<lambda>t. tm_id t = ui_timer e ResizeDebounce) (sc_timers sc') =
      [\<lparr>tm_deadline = ue_now e + 16, tm_event = ResizeEvent w h, tm_id = ui_timer e ResizeDebounce, tm_interval = None\<rparr>]"
    using resized_event [of "u\<lparr>ui_scheduler := sc\<rparr>" w h e] sc(2) assms(2) by auto
  then show ?thesis using sc(1) by (auto simp: handle_events_append ui_timer_def simp del: on_window_event.simps)
qed

text \<open>C13: A blink of the cursor that is delivered after the window lost the focus hides the cursor for good: the timer that would
  show it again is no longer running.\<close>

theorem late_blink_hides_cursor:
  assumes "timers_unique (ui_scheduler u)"
  shows "\<exists>u'. ui_handle_events [(e, WindowEvent (Focused False)), (e', UserEvent BlinkCursorEvent)] u = Some u'
    \<and> ui_cursor_hidden u' \<and> \<not> t_is_focused (ui_term u') \<and> \<not> ui_scheduled e BlinkCursor u' \<and> \<not> ui_scheduled e BlinkTimeout u'"
proof -
  let ?v = "update_cursor_blinking e (dirty_if (cc_unfocused_hollow (ue_cursor e)) (upd_term (\<lambda>t. t\<lparr>t_is_focused := False\<rparr>) u))"
  let ?sc = "snd (unschedule (ui_timer e BlinkTimeout) (snd (unschedule (ui_timer e BlinkCursor) (ui_scheduler u))))"
  have v: "t_is_focused (ui_term ?v) = False" "ui_blink_timed_out ?v = False" "ui_scheduler ?v = ?sc"
    by (simp_all add: update_cursor_blinking_def Let_def upd_term_def dirty_if_def ui_unschedule_def ui_mark_dirty_def)
  have gone: "\<not> scheduled (ui_timer e BlinkCursor) ?sc" "\<not> scheduled (ui_timer e BlinkTimeout) ?sc"
    using unique_unschedule assms by metis+
  obtain w where w: "mouse_requests e (on_focus_change (t_mode (ui_term ?v)) False) ?v = Some w"
    "ui_term w = ui_term ?v" "ui_blink_timed_out w = False" "ui_scheduler w = ?sc" "ui_cursor_hidden w = ui_cursor_hidden ?v"
    using v by (cases "fl_contains (t_mode (ui_term ?v)) FOCUS_IN_OUT")
      (simp_all add: on_focus_change_def write_to_pty_def effect_def)
  have hidden: "ui_cursor_hidden ?v = False"
    by (simp add: update_cursor_blinking_def Let_def upd_term_def dirty_if_def ui_unschedule_def ui_mark_dirty_def)
  show ?thesis
    using w v hidden gone by (simp add: Let_def ui_mark_dirty_def ui_scheduled_def)
qed

subsection \<open>Pasting\<close>

text \<open>What is written to the pseudo terminal.\<close>

definition pty_output :: "'q ui \<Rightarrow> nat list list" where
  "pty_output u = concat (map (\<lambda>x. case x of Notify bytes \<Rightarrow> [bytes] | _ \<Rightarrow> []) (ui_effects u))"

definition size_ok :: "size_info \<Rightarrow> bool" where
  "size_ok si \<longleftrightarrow> 0 < si_cell_width si \<and> 0 < si_cell_height si \<and> 0 < si_columns si \<and> 0 < si_screen_lines si"

lemma mouse_point_returns: "size_ok si \<Longrightarrow> \<exists>p. mouse_point si n m = Some p"
  by (simp add: mouse_point_def size_ok_def udiv_def usub_def Let_def)

lemma pty_output_write: "pty_output (write_to_pty bytes u) = pty_output u @ (if bytes = [] then [] else [bytes])"
  by (simp add: pty_output_def write_to_pty_def effect_def)

lemma pty_output_cong: "ui_effects u = ui_effects v \<Longrightarrow> pty_output u = pty_output v"
  by (simp add: pty_output_def)

lemma pty_output_frame [simp]:
  "pty_output (effect (SetMouseVisible b) u) = pty_output u" "pty_output (ui_mark_dirty u) = pty_output u"
  "pty_output (dirty_if b u) = pty_output u" "pty_output (upd_term f u) = pty_output u"
  "pty_output (u\<lparr>ui_scheduler := sc\<rparr>) = pty_output u" "pty_output (u\<lparr>ui_cursor_hidden := b\<rparr>) = pty_output u"
  "pty_output (u\<lparr>ui_blink_timed_out := b\<rparr>) = pty_output u" "pty_output (u\<lparr>ui_search := s\<rparr>) = pty_output u"
  "pty_output (u\<lparr>ui_mouse_visible := b, ui_mouse := m\<rparr>) = pty_output u"
  "pty_output (ui_schedule e topic ev d rep u) = pty_output u" "pty_output (ui_unschedule e topic u) = pty_output u"
  by (simp_all add: pty_output_def effect_def ui_mark_dirty_def dirty_if_def upd_term_def ui_schedule_def ui_unschedule_def)

lemma pty_output_typing [simp]: "pty_output (on_typing_start e u) = pty_output u"
proof -
  have b: "pty_output (update_cursor_blinking e v) = pty_output v" for v :: "'a ui"
    by (simp add: update_cursor_blinking_def Let_def schedule_blinking_def schedule_blinking_timeout_def)
  show ?thesis
    by (cases "unschedule (ui_timer e BlinkCursor) (ui_scheduler u)")
      (simp add: on_typing_start_def Let_def b schedule_blinking_def split: option.split)
qed

lemma pty_output_selection [simp]:
  "pty_output (clear_selection u) = pty_output u" "pty_output (update_selection p side u) = pty_output u"
  by (simp_all add: clear_selection_def update_selection_def Let_def split: option.split)

lemma ui_scroll_returns:
  assumes "size_ok (ue_size e)"
  shows "\<exists>v. ui_scroll e z u = Some v \<and> pty_output v = pty_output u"
proof -
  define w where "w = (if search_active (upd_term (scroll_display z) u)
    then (upd_term (scroll_display z) u)\<lparr>ui_search := (ui_search (upd_term (scroll_display z) u))\<lparr>su_display_offset_delta :=
        su_display_offset_delta (ui_search (upd_term (scroll_display z) u)) + (int (g_display_offset (t_grid (ui_term u)))
          - int (g_display_offset (t_grid (ui_term (upd_term (scroll_display z) u)))))\<rparr>\<rparr> else upd_term (scroll_display z) u)"
  have w: "pty_output w = pty_output u" by (simp add: w_def)
  obtain p where p: "mouse_point (ue_size e) (g_display_offset (t_grid (ui_term w))) (ui_mouse w) = Some p"
    using mouse_point_returns [OF assms] by blast
  show ?thesis
    unfolding ui_scroll_def Let_def w_def [symmetric] by (auto simp: p w)
qed

lemma input_start_returns:
  assumes "size_ok (ue_size e)"
  shows "\<exists>v. on_terminal_input_start e u = Some v \<and> pty_output v = pty_output u"
  using ui_scroll_returns [OF assms, of Bottom "clear_selection (on_typing_start e u)"]
  by (auto simp: on_terminal_input_start_def Let_def)

lemma utf8_ascii_byte: "b \<in> set (utf8_encode s) \<Longrightarrow> b < 0x80 \<Longrightarrow> b \<in> set s"
  by (auto simp: utf8_encode_def utf8_char_def split: if_splits)

text \<open>C9: When the program asked for it, a text pasted outside of searches reaches it between the two marks of a bracketed paste, in
  one piece and without the characters that could end the paste early; nothing else is written.\<close>

theorem bracketed_paste_contained:
  assumes "size_ok (ue_size e)" "\<not> search_active u" "\<not> is_char_pending (ui_inline u)" "has_mode (ui_term u) BRACKETED_PASTE"
  shows "\<exists>v payload. paste e text True u = Some v
    \<and> pty_output v = pty_output u @ [PASTE_BEGIN] @ (if payload = [] then [] else [payload]) @ [PASTE_END]
    \<and> 0x1b \<notin> set payload \<and> 0x03 \<notin> set payload
    \<and> ((\<forall>c \<in> set text. scalar_value c) \<longrightarrow> utf8_decode payload = Some (filter (\<lambda>c. c \<noteq> 0x1b \<and> c \<noteq> 0x03) text))"
proof -
  obtain v where v: "on_terminal_input_start e u = Some v" "pty_output v = pty_output u" using input_start_returns [OF assms(1)] by blast
  let ?payload = "utf8_encode (paste_filter text)"
  have "0x1b \<notin> set ?payload" "0x03 \<notin> set ?payload"
    using utf8_ascii_byte [of "0x1b" "paste_filter text"] utf8_ascii_byte [of "0x03" "paste_filter text"]
    by (auto simp: paste_filter_def)
  moreover have "utf8_decode ?payload = Some (paste_filter text)" if "\<forall>c \<in> set text. scalar_value c"
    using utf8_roundtrip [of "paste_filter text"] that by (auto simp: paste_filter_def)
  ultimately show ?thesis using assms v
    by (intro exI [of _ "write_to_pty PASTE_END (write_to_pty ?payload (write_to_pty PASTE_BEGIN v))"] exI [of _ ?payload])
      (auto simp: paste_def pty_output_write paste_filter_def [symmetric] PASTE_BEGIN_def PASTE_END_def)
qed

subsection \<open>Searching\<close>

text \<open>What a user can do while the search bar is open, apart from moving to other matches: typing, deleting, going through the
  history and scrolling.\<close>

inductive browsing :: "'q ui_env \<Rightarrow> 'q ui \<Rightarrow> 'q ui \<Rightarrow> bool" for e u where
  opened: "browsing e u u"
| typed: "browsing e u v \<Longrightarrow> search_input e c v = Some w \<Longrightarrow> browsing e u w"
| deleted: "browsing e u v \<Longrightarrow> search_pop_word e v = Some w \<Longrightarrow> browsing e u w"
| previous: "browsing e u v \<Longrightarrow> search_history_previous e v = Some w \<Longrightarrow> browsing e u w"
| following: "browsing e u v \<Longrightarrow> search_history_next e v = Some w \<Longrightarrow> browsing e u w"
| scrolled: "browsing e u v \<Longrightarrow> ui_scroll e z v = Some w \<Longrightarrow> browsing e u w"

text \<open>The grid only differs by the display offset, and the difference is accounted for.\<close>

definition view_kept :: "grid \<Rightarrow> point \<Rightarrow> 'q ui \<Rightarrow> bool" where
  "view_kept g origin u \<longleftrightarrow> search_active u \<and> ui_vi u \<and> su_origin (ui_search u) = origin
     \<and> (\<exists>n. t_grid (ui_term u) = g\<lparr>g_display_offset := n\<rparr>
          \<and> int n + su_display_offset_delta (ui_search u) = int (g_display_offset g))"

definition returned :: "('a \<Rightarrow> bool) \<Rightarrow> 'a option \<Rightarrow> bool" where
  "returned R x \<longleftrightarrow> (\<forall>v. x = Some v \<longrightarrow> R v)"

lemma returned_rules:
  "R v \<Longrightarrow> returned R (Some v)"
  "(\<And>y. x = Some y \<Longrightarrow> returned R (f y)) \<Longrightarrow> returned R (Option.bind x f)"
  "returned R (g z) \<Longrightarrow> returned R (let y = z in g y)"
  "(b \<Longrightarrow> returned R p) \<Longrightarrow> (\<not> b \<Longrightarrow> returned R q) \<Longrightarrow> returned R (if b then p else q)"
  "(o1 = None \<Longrightarrow> returned R p) \<Longrightarrow> (\<And>y. o1 = Some y \<Longrightarrow> returned R (h y)) \<Longrightarrow> returned R (case o1 of None \<Rightarrow> p | Some y \<Rightarrow> h y)"
  by (auto simp: returned_def bind_eq_Some_conv split: option.splits)

lemma returned_bind: "returned R x \<Longrightarrow> (\<And>v. R v \<Longrightarrow> returned Q (f v)) \<Longrightarrow> returned Q (Option.bind x f)"
  by (cases x) (auto simp: returned_def)

lemma on_typing_start_sel [simp]:
  "ui_term (on_typing_start e u) = ui_term u" "ui_search (on_typing_start e u) = ui_search u"
proof -
  have b: "ui_term (update_cursor_blinking e v) = ui_term v" "ui_search (update_cursor_blinking e v) = ui_search v" for v :: "'a ui"
    by (simp_all add: update_cursor_blinking_def Let_def schedule_blinking_def schedule_blinking_timeout_def ui_schedule_def
        ui_mark_dirty_def)
  show "ui_term (on_typing_start e u) = ui_term u" "ui_search (on_typing_start e u) = ui_search u"
    by (cases "unschedule (ui_timer e BlinkCursor) (ui_scheduler u)",
        simp add: on_typing_start_def Let_def b schedule_blinking_def ui_schedule_def effect_def ui_mark_dirty_def split: option.split)+
qed

lemma term_scrolled:
  "t_grid (scroll_display z t) = (t_grid t)\<lparr>g_display_offset := scroll_target (t_grid t) z\<rparr>"
  "t_mode (scroll_display z t) = t_mode t"
  by (simp_all add: scroll_display_grid grid_scroll_display_def)

lemma term_goto:
  "\<exists>n. t_grid (scroll_to_point p t) = (t_grid t)\<lparr>g_display_offset := n\<rparr>" "t_mode (scroll_to_point p t) = t_mode t"
  "\<exists>n. t_grid (vi_goto_point p t) = (t_grid t)\<lparr>g_display_offset := n\<rparr>" "t_mode (vi_goto_point p t) = t_mode t"
proof -
  have moved: "\<exists>n. t_grid (scroll_display z t) = (t_grid t)\<lparr>g_display_offset := n\<rparr>" for z
    by (intro exI [of _ "scroll_target (t_grid t) z"]) (rule term_scrolled(1))
  have same: "\<exists>n. t_grid t = (t_grid t)\<lparr>g_display_offset := n\<rparr>" by (intro exI [of _ "g_display_offset (t_grid t)"]) simp
  show g: "\<exists>n. t_grid (scroll_to_point p t) = (t_grid t)\<lparr>g_display_offset := n\<rparr>"
    unfolding scroll_to_point_def Let_def by (simp only: moved same split: if_split) blast
  show m: "t_mode (scroll_to_point p t) = t_mode t" by (simp add: scroll_to_point_def Let_def term_scrolled)
  have v: "t_grid (vi_goto_point p t) = t_grid (scroll_to_point p t)" by (simp add: vi_goto_point_def Let_def)
  show "\<exists>n. t_grid (vi_goto_point p t) = (t_grid t)\<lparr>g_display_offset := n\<rparr>" unfolding v by (rule g)
  show "t_mode (vi_goto_point p t) = t_mode t" by (simp add: vi_goto_point_def Let_def m)
qed

lemma selection_sel [simp]:
  "t_grid (ui_term (update_selection p side u)) = t_grid (ui_term u)" "t_mode (ui_term (update_selection p side u)) = t_mode (ui_term u)"
  "ui_search (update_selection p side u) = ui_search u"
  by (simp_all add: update_selection_def Let_def upd_term_def ui_mark_dirty_def split: option.split)

lemma view_cong:
  "t_grid (ui_term v) = t_grid (ui_term u) \<Longrightarrow> t_mode (ui_term v) = t_mode (ui_term u)
   \<Longrightarrow> su_history_index (ui_search v) = su_history_index (ui_search u) \<Longrightarrow> su_origin (ui_search v) = su_origin (ui_search u)
   \<Longrightarrow> su_display_offset_delta (ui_search v) = su_display_offset_delta (ui_search u) \<Longrightarrow> view_kept g p v = view_kept g p u"
  by (simp add: view_kept_def search_active_def ui_vi_def has_mode_def)

lemma view_frame [simp]:
  "view_kept g p (ui_mark_dirty u) = view_kept g p u" "view_kept g p (dirty_if b u) = view_kept g p u"
  "view_kept g p (effect x u) = view_kept g p u" "view_kept g p (u\<lparr>ui_mouse_visible := b\<rparr>) = view_kept g p u"
  "view_kept g p (upd_search (\<lambda>s. s\<lparr>su_dfas := d\<rparr>) u) = view_kept g p u"
  "view_kept g p (upd_search (\<lambda>s. s\<lparr>su_focused_match := m\<rparr>) u) = view_kept g p u"
  "view_kept g p (upd_search (\<lambda>s. s\<lparr>su_history := h s\<rparr>) u) = view_kept g p u"
  "view_kept g p (ui_unschedule e topic u) = view_kept g p u" "view_kept g p (ui_schedule e topic ev iv rep u) = view_kept g p u"
  "view_kept g p (on_typing_start e u) = view_kept g p u" "view_kept g p (update_selection q side u) = view_kept g p u"
  by (rule view_cong;
      simp add: ui_mark_dirty_def dirty_if_def effect_def upd_search_def ui_schedule_def)+

lemma view_index:
  "view_kept g p u \<Longrightarrow> view_kept g p (upd_search (\<lambda>s. s\<lparr>su_history_index := Some i\<rparr>) u)"
  "view_kept g p u \<Longrightarrow> view_kept g p (upd_search (\<lambda>s. s\<lparr>su_history := h s, su_history_index := Some i\<rparr>) u)"
  by (simp_all add: view_kept_def search_active_def ui_vi_def upd_search_def)

text \<open>Scrolling that is accounted for.\<close>

lemma view_moved:
  assumes "view_kept g p u" "t_grid (ui_term v) = (t_grid (ui_term u))\<lparr>g_display_offset := n\<rparr>" "t_mode (ui_term v) = t_mode (ui_term u)"
    "su_history_index (ui_search v) = su_history_index (ui_search u)" "su_origin (ui_search v) = su_origin (ui_search u)"
    "su_display_offset_delta (ui_search v) =
       su_display_offset_delta (ui_search u) + (int (g_display_offset (t_grid (ui_term u))) - int (g_display_offset (t_grid (ui_term v))))"
  shows "view_kept g p v"
  using assms by (auto simp: view_kept_def search_active_def ui_vi_def has_mode_def)

lemma view_scrolled_back:
  assumes "t_grid t = g\<lparr>g_display_offset := n\<rparr>" "int n + d = int (g_display_offset g)" "g_display_offset g \<le> g_history_size g"
  shows "t_grid (scroll_display (Delta d) t) = g"
proof -
  have "g_history_size (t_grid t) = g_history_size g" by (simp add: assms(1) grid_dims_def)
  moreover have "nat (max (int n + d) 0) = g_display_offset g" using assms(2) by simp
  ultimately show ?thesis using assms(1,3) by (simp add: term_scrolled)
qed

lemma view_reset:
  assumes "view_kept g p u" "g_display_offset g \<le> g_history_size g"
  shows "view_kept g p (search_reset_state e u)" "t_grid (ui_term (search_reset_state e u)) = g"
    "line_visible g (p_line p) \<Longrightarrow> t_vi_cursor (ui_term (search_reset_state e u)) = p"
proof -
  obtain n where n: "t_grid (ui_term u) = g\<lparr>g_display_offset := n\<rparr>"
    "int n + su_display_offset_delta (ui_search u) = int (g_display_offset g)" and o: "su_origin (ui_search u) = p"
    using assms(1) by (auto simp: view_kept_def)
  let ?t = "(ui_term u)\<lparr>t_vi_cursor := p\<rparr>"
  have vi: "ui_vi u" using assms(1) by (simp add: view_kept_def)
  have t: "ui_term (search_reset_state e u) = scroll_display (Delta (su_display_offset_delta (ui_search u))) ?t"
    using vi o by (simp add: search_reset_state_def Let_def upd_search_def upd_term_def ui_mark_dirty_def ui_vi_def)
  show g: "t_grid (ui_term (search_reset_state e u)) = g"
    unfolding t by (rule view_scrolled_back [OF _ n(2) assms(2)]) (simp add: n(1))
  have m: "t_mode (ui_term (search_reset_state e u)) = t_mode (ui_term u)" by (simp add: t term_scrolled)
  have d: "su_display_offset_delta (ui_search (search_reset_state e u)) = 0"
    "su_history_index (ui_search (search_reset_state e u)) = su_history_index (ui_search u)"
    "su_origin (ui_search (search_reset_state e u)) = p"
    using vi o by (simp_all add: search_reset_state_def Let_def upd_search_def upd_term_def ui_mark_dirty_def ui_vi_def)
  show "view_kept g p (search_reset_state e u)"
    using assms(1) g m d by (auto simp: view_kept_def search_active_def ui_vi_def has_mode_def intro!: exI [of _ "g_display_offset g"])
  assume v: "line_visible g (p_line p)"
  have "t_grid (scroll_display (Delta (su_display_offset_delta (ui_search u))) ?t) = g" using g t by simp
  then have g': "(t_grid (ui_term u))\<lparr>g_display_offset := scroll_target (t_grid (ui_term u)) (Delta (su_display_offset_delta (ui_search u)))\<rparr> = g"
    by (simp add: term_scrolled)
  have off: "scroll_target (t_grid (ui_term u)) (Delta (su_display_offset_delta (ui_search u))) = g_display_offset g"
    using arg_cong [OF g', of g_display_offset] by simp
  have lines: "g_lines (t_grid (ui_term u)) = g_lines g" by (simp add: n(1))
  show "t_vi_cursor (ui_term (search_reset_state e u)) = p"
    using v unfolding t scroll_display_def Let_def
    by (cases p) (simp add: grid_scroll_display_def off lines line_visible_def bottommost_line_def send_event_def mark_fully_damaged_def
        del: scroll_target.simps)
qed

lemma view_goto_match: "view_kept g p u \<Longrightarrow> g_display_offset g \<le> g_history_size g \<Longrightarrow> returned (view_kept g p) (goto_match e limit u)"
proof -
  assume u: "view_kept g p u" and o: "g_display_offset g \<le> g_history_size g"
  have found: "view_kept g p (upd_search (\<lambda>s. s\<lparr>su_focused_match := Some m, su_display_offset_delta :=
        su_display_offset_delta s + (int (g_display_offset (t_grid (ui_term u))) - int (g_display_offset (t_grid (ui_term
          (upd_term (if ui_vi u then vi_goto_point q else scroll_to_point q) u)))))\<rparr>)
      (upd_term (if ui_vi u then vi_goto_point q else scroll_to_point q) u))" for m q
  proof -
    have vi: "ui_vi u" using u by (simp add: view_kept_def)
    obtain n where n: "t_grid (vi_goto_point q (ui_term u)) = (t_grid (ui_term u))\<lparr>g_display_offset := n\<rparr>"
      using term_goto(3) by blast
    show ?thesis by (rule view_moved [OF u, of _ n]) (simp_all add: vi n upd_term_def upd_search_def term_goto)
  qed
  show ?thesis
    unfolding goto_match_def
    by (rule returned_rules found view_reset(1) u o | simp add: u | (simp add: u found view_reset(1) [OF u o] Let_def split: option.split))+
qed

lemma view_if: "(b \<Longrightarrow> view_kept g p u) \<Longrightarrow> (\<not> b \<Longrightarrow> view_kept g p v) \<Longrightarrow> view_kept g p (if b then u else v)"
  by simp

lemma view_selection: "view_kept g p u \<Longrightarrow> view_kept g p (upd_term (\<lambda>t. t\<lparr>t_selection := s t\<rparr>) u)"
  using view_cong [of "upd_term (\<lambda>t. t\<lparr>t_selection := s t\<rparr>) u" u g p] by (simp add: upd_term_def)

lemmas view_rules = view_if view_index view_frame [THEN iffD2] view_selection

lemma view_update_search:
  "view_kept g p u \<Longrightarrow> g_display_offset g \<le> g_history_size g \<Longrightarrow> returned (view_kept g p) (update_search e u)"
  unfolding update_search_def
  by (rule returned_bind [where R = "view_kept g p"] returned_rules view_rules view_goto_match view_reset(1) | assumption | simp)+

lemma view_search_input:
  "view_kept g p u \<Longrightarrow> g_display_offset g \<le> g_history_size g \<Longrightarrow> returned (view_kept g p) (search_input e c u)"
  unfolding search_input_def
  by (rule returned_bind [where R = "view_kept g p"] returned_rules view_rules view_goto_match view_update_search view_reset(1) | assumption | simp)+

lemma view_history:
  "view_kept g p u \<Longrightarrow> g_display_offset g \<le> g_history_size g \<Longrightarrow> returned (view_kept g p) (search_pop_word e u)"
  "view_kept g p u \<Longrightarrow> g_display_offset g \<le> g_history_size g \<Longrightarrow> returned (view_kept g p) (search_history_previous e u)"
  "view_kept g p u \<Longrightarrow> g_display_offset g \<le> g_history_size g \<Longrightarrow> returned (view_kept g p) (search_history_next e u)"
  unfolding search_history_previous_def search_history_next_def
    apply (cases "search_text (ui_search u)"; cases "su_history_index (ui_search u)";
      simp add: search_pop_word_def returned_rules view_update_search)
  by (rule returned_bind [where R = "view_kept g p"] returned_rules view_rules view_goto_match view_update_search view_reset(1) | assumption | simp)+

lemma view_scroll:
  assumes "view_kept g p u"
  shows "returned (view_kept g p) (ui_scroll e z u)"
proof -
  let ?v = "upd_term (scroll_display z) u"
  define w where "w = (if search_active ?v
    then ?v\<lparr>ui_search := (ui_search ?v)\<lparr>su_display_offset_delta := su_display_offset_delta (ui_search ?v)
      + (int (g_display_offset (t_grid (ui_term u))) - int (g_display_offset (t_grid (ui_term ?v))))\<rparr>\<rparr> else ?v)"
  have "search_active ?v" using assms by (simp add: view_kept_def upd_term_def search_active_def)
  then have w: "view_kept g p w"
    by (intro view_moved [OF assms, of _ "scroll_target (t_grid (ui_term u)) z"]) (simp_all add: w_def upd_term_def term_scrolled)
  show ?thesis
    unfolding ui_scroll_def Let_def w_def [symmetric]
    by (rule returned_bind [where R = "view_kept g p"] returned_rules view_rules w | assumption | simp)+
qed

lemma browsing_keeps_view:
  assumes "browsing e u v" "view_kept g p u" "g_display_offset g \<le> g_history_size g"
  shows "view_kept g p v"
  using assms(1)
proof (induction rule: browsing.induct)
  case opened
  show ?case by (rule assms(2))
next
  case (typed v c w)
  then show ?case using view_search_input [OF typed(3) assms(3)] by (simp add: returned_def)
next
  case (deleted v w)
  then show ?case using view_history(1) [OF deleted(3) assms(3)] by (simp add: returned_def)
next
  case (previous v w)
  then show ?case using view_history(2) [OF previous(3) assms(3)] by (simp add: returned_def)
next
  case (following v w)
  then show ?case using view_history(3) [OF following(3) assms(3)] by (simp add: returned_def)
next
  case (scrolled v z w)
  then show ?case using view_scroll [OF scrolled(3)] by (simp add: returned_def)
qed


subsection \<open>The size of the window\<close>

lemma reserved_size_bounds:
  "1 \<le> si_screen_lines (reserve_lines n si)" "si_columns (reserve_lines n (size_info_new width height cw ch px py b)) \<ge> 2"
  by (simp_all add: reserve_lines_def size_info_new_def Let_def MIN_SCREEN_LINES_def MIN_COLUMNS_def)

lemma updated_size_bounds:
  assumes "updated_size e wc w = Some si"
  shows "1 \<le> si_screen_lines si \<and> 2 \<le> si_columns si"
proof -
  obtain width height where
    d: "(case ui_pending_dimensions (wn_ui w) of Some d \<Rightarrow> d | None \<Rightarrow> (si_width (wn_size w), si_height (wn_size w))) = (width, height)"
    by (cases "case ui_pending_dimensions (wn_ui w) of Some d \<Rightarrow> d | None \<Rightarrow> (si_width (wn_size w), si_height (wn_size w))")
  obtain n where "si = reserve_lines n (size_info_new width height (si_cell_width (wn_size w)) (si_cell_height (wn_size w))
      (fst (wc_padding wc)) (snd (wc_padding wc)) (wc_dynamic_padding wc))"
    using assms unfolding updated_size_def Let_def d prod.case bind_eq_Some_conv by blast
  then show ?thesis by (simp add: reserved_size_bounds del: One_nat_def)
qed

lemma resized_dims:
  assumes "wf_term t" "1 \<le> lines" "2 \<le> cols"
  shows "\<exists>t'. term_resize cols lines t = Some t' \<and> g_lines (t_grid t') = lines \<and> g_columns (t_grid t') = cols"
proof (cases "g_columns (t_grid t) = cols \<and> g_lines (t_grid t) = lines")
  case True
  then show ?thesis by (simp add: term_resize_def)
next
  case False
  then show ?thesis using term_resize_returns [OF assms(1,2,3) False] by (auto simp: returns_def term_shape_def)
qed

text \<open>C12: Updating the size of a window never panics once the lines of the message bar are known: terminal, display and pseudo
  terminal agree on the new number of lines and columns, which leave room for both bars; the pseudo terminal is told exactly
  when it changed, and otherwise the terminal is not touched.\<close>

theorem display_update_fits:
  assumes "wf_term (ui_term (wn_ui w))" "updated_size e wc w = Some si"
    and "g_lines (t_grid (ui_term (wn_ui w))) = si_screen_lines (wn_size w)" "g_columns (t_grid (ui_term (wn_ui w))) = si_columns (wn_size w)"
  defines "changed \<equiv> si_screen_lines si \<noteq> si_screen_lines (wn_size w) \<or> si_columns si \<noteq> si_columns (wn_size w)"
  shows "\<exists>w'. handle_update e wc w = Some w' \<and> wn_size w' = si
    \<and> g_lines (t_grid (ui_term (wn_ui w'))) = si_screen_lines si \<and> g_columns (t_grid (ui_term (wn_ui w'))) = si_columns si
    \<and> ui_effects (wn_ui w') = ui_effects (wn_ui w) @ (if changed then [ResizePty (window_size_of si)] else [])
    \<and> (\<not> changed \<longrightarrow> ui_term (wn_ui w') = ui_term (wn_ui w)) \<and> \<not> ui_pending_dirty (wn_ui w')"
proof (cases changed)
  case True
  obtain t' where "term_resize (si_columns si) (si_screen_lines si) (ui_term (wn_ui w)) = Some t'"
    "g_lines (t_grid t') = si_screen_lines si" "g_columns (t_grid t') = si_columns si"
    using resized_dims [OF assms(1)] updated_size_bounds [OF assms(2)] by blast
  moreover have "si_screen_lines (wn_size w) \<noteq> si_screen_lines si \<or> si_columns (wn_size w) \<noteq> si_columns si" "si \<noteq> wn_size w"
    using True by (auto simp: changed_def)
  ultimately show ?thesis using assms(2) True
    by (simp add: handle_update_def Let_def effect_def upd_search_def)
next
  case False
  then have "si_screen_lines (wn_size w) = si_screen_lines si" "si_columns (wn_size w) = si_columns si" by (auto simp: changed_def)
  then show ?thesis using assms(2,3,4) False
    by (cases "si = wn_size w") (simp_all add: handle_update_def Let_def upd_search_def)
qed

subsection \<open>Concrete cases\<close>

lemma demo_focus:
  "\<exists>v. ui_handle_events [(demo_ui_env 0, WindowEvent (Focused True)), (demo_ui_env 5, WindowEvent (Resized 50 60))] demo_ui = Some v"
proof -
  have "mode = t_mode demo_term \<Longrightarrow> \<exists>v. mouse_requests e (on_focus_change mode True) u = Some v" for mode e and u :: "nat ui"
    by (simp add: on_focus_change_def)
  then show ?thesis by (simp add: Let_def on_focus_change_def)
qed



lemma start_search_history:
  "ui_search u = search_ui_default \<Longrightarrow> su_history (ui_search (start_search dir u)) = [[]]"
  "su_history_index (ui_search (start_search dir u)) = Some 0"
  by (simp_all add: start_search_def Let_def search_ui_default_def MAX_SEARCH_HISTORY_SIZE_def effect_def)

definition demo_searching :: "nat ui" where
  "demo_searching = start_search DirRight demo_ui"

lemma demo_searching_sel:
  "ui_term demo_searching = demo_term" "su_history (ui_search demo_searching) = [[]]" "su_history_index (ui_search demo_searching) = Some 0"
  "search_active demo_searching"
  by (simp_all add: demo_searching_def start_search_def Let_def search_ui_default_def MAX_SEARCH_HISTORY_SIZE_def effect_def search_active_def)

lemma demo_typing:
  assumes "su_history (ui_search u) = [[]]" "su_history_index (ui_search u) = Some 0"
  shows "\<exists>v. search_input (demo_ui_env n) 97 u = Some v"
  using assms
  by (simp add: search_input_def vget_def search_printable_def Let_def upd_search_def upd_term_def update_search_def search_text_def
      goto_match_def)

theorem events_keep_search_history_witness:
  "\<exists>v. ui_handle_events [(demo_ui_env 0, WindowEvent (ImeCommit [97]))] demo_searching = Some v
     \<and> length (su_history (ui_search v)) \<le> 255 \<and> (search_active v \<longrightarrow> search_text (ui_search v) \<noteq> None)"
proof -
  have "\<exists>v. search_input (demo_ui_env 0) 97 (ui_mark_dirty demo_searching) = Some v"
    by (rule demo_typing) (simp_all add: ui_mark_dirty_def demo_searching_sel)
  moreover have "search_active (ui_mark_dirty demo_searching)"
    using demo_searching_sel(4) by (simp add: search_active_def ui_mark_dirty_def)
  ultimately obtain v where v: "ui_handle_events [(demo_ui_env 0, WindowEvent (ImeCommit [97]))] demo_searching = Some v"
    by (auto simp: paste_def)
  then show ?thesis
    using events_keep_search_history [OF v] by (simp add: search_history_ok_def demo_searching_sel MAX_SEARCH_HISTORY_SIZE_def)
qed

theorem resizes_are_debounced_witness:
  "\<exists>sc. ui_handle_events (map (\<lambda>(e, w, h). (e, WindowEvent (Resized w h))) ([(demo_ui_env 0, 800, 600), (demo_ui_env 3, 801, 600)] @ [(demo_ui_env 9, 802, 601)]))
      demo_ui = Some (demo_ui\<lparr>ui_scheduler := sc\<rparr>)
    \<and> filter (\<lambda>t. tm_id t = \<lparr>ti_topic = ResizeDebounce, ti_window = ue_window (demo_ui_env 9)\<rparr>) (sc_timers sc) =
        [\<lparr>tm_deadline = ue_now (demo_ui_env 9) + 16, tm_event = ResizeEvent 802 601,
          tm_id = \<lparr>ti_topic = ResizeDebounce, ti_window = ue_window (demo_ui_env 9)\<rparr>, tm_interval = None\<rparr>]"
  by (rule resizes_are_debounced [OF demo_ui_timers]) simp

theorem late_blink_hides_cursor_witness:
  "\<exists>u'. ui_handle_events [(demo_ui_env 0, WindowEvent (Focused False)), (demo_ui_env 1, UserEvent BlinkCursorEvent)] demo_ui = Some u'
    \<and> ui_cursor_hidden u' \<and> \<not> t_is_focused (ui_term u') \<and> \<not> ui_scheduled (demo_ui_env 0) BlinkCursor u' \<and> \<not> ui_scheduled (demo_ui_env 0) BlinkTimeout u'"
  by (rule late_blink_hides_cursor [OF demo_ui_timers])

theorem bracketed_paste_contained_witness:
  "\<exists>v payload. paste (demo_ui_env 0) [104, 0x1b, 105, 3] True (upd_term (insert_mode BRACKETED_PASTE) demo_ui) = Some v
    \<and> pty_output v = pty_output (upd_term (insert_mode BRACKETED_PASTE) demo_ui) @ [PASTE_BEGIN]
        @ (if payload = [] then [] else [payload]) @ [PASTE_END]
    \<and> 0x1b \<notin> set payload \<and> 0x03 \<notin> set payload
    \<and> ((\<forall>c \<in> set [104, 0x1b, 105, 3]. scalar_value c) \<longrightarrow>
         utf8_decode payload = Some (filter (\<lambda>c. c \<noteq> 0x1b \<and> c \<noteq> 0x03) [104, 0x1b, 105, 3]))"
  by (rule bracketed_paste_contained)
    (simp_all add: size_ok_def demo_ui_size_def search_active_def upd_term_def search_ui_default_def inline_search_default_def
      has_mode_def insert_mode_def fl_contains_def fl_insert_def)


definition demo_window :: "nat window" where
  "demo_window = \<lparr>wn_ui = demo_ui\<lparr>ui_pending_dimensions := Some (60, 120)\<rparr>, wn_size = demo_ui_size, wn_tracker = tracker_new 3 4,
     wn_queue = [], wn_renderer_resize = False, wn_has_frame = True, wn_redraw = False\<rparr>"

definition demo_window_config :: window_config where
  "demo_window_config = \<lparr>wc_padding = (0, 0), wc_dynamic_padding = False\<rparr>"

theorem display_update_fits_witness:
  "\<exists>w'. handle_update (demo_ui_env 0) demo_window_config demo_window = Some w' \<and> g_lines (t_grid (ui_term (wn_ui w'))) = 6
    \<and> g_columns (t_grid (ui_term (wn_ui w'))) = 6"
proof -
  have "ui_messages demo_ui = []" by (simp add: demo_ui_def)
  then obtain si where si: "updated_size (demo_ui_env 0) demo_window_config demo_window = Some si" "si_screen_lines si = 6" "si_columns si = 6"
    by (simp add: updated_size_def demo_window_def demo_window_config_def demo_ui_size_def message_lines_def current_message_def
        size_info_new_def reserve_lines_def MIN_SCREEN_LINES_def MIN_COLUMNS_def search_active_def search_ui_default_def)
  show ?thesis
    using display_update_fits [OF _ si(1)] si(2,3) by (auto simp: demo_window_def demo_ui_size_def demo_simps)
qed

end
