(* ===== verification/Spec2Isabelle.thy ===== *)
theory Spec2Isabelle
  imports Props_Grid Props_Term Props_Text Props_Resize Props_Loop Props_Ui Props_Keys Props_Mouse Props_Search Props_Hints
    Props_Events
begin

text \<open>
  \<^bold>\<open>A model of the velacritty terminal\<close>

  velacritty is a terminal emulator. Its crate \<^verbatim>\<open>velacritty_terminal\<close> holds the terminal itself: the parser of
  the third-party crate \<^verbatim>\<open>vte\<close> turns the bytes of the child process into calls of the trait \<^verbatim>\<open>Handler\<close>, which
  \<^verbatim>\<open>Term\<close> implements (\<^verbatim>\<open>term/mod.rs\<close>); \<^verbatim>\<open>Term\<close> keeps a primary and an alternate \<^verbatim>\<open>Grid\<close> (\<^verbatim>\<open>grid/mod.rs\<close>) of
  cells, whose rows (\<^verbatim>\<open>grid/row.rs\<close>) live in a ring buffer (\<^verbatim>\<open>grid/storage.rs\<close>) with the scrollback; the user
  interface reads the grid, asks for the damage since the last frame, scrolls the display, and keeps a selection
  (\<^verbatim>\<open>selection.rs\<close>). A thread connects the terminal with the child process (\<^verbatim>\<open>event_loop.rs\<close>). The crate \<^verbatim>\<open>velacritty\<close> is the user
  interface: it turns keys (\<^verbatim>\<open>input/keyboard.rs\<close>, \<^verbatim>\<open>config/bindings.rs\<close>) and the mouse (\<^verbatim>\<open>input/mod.rs\<close>) into bytes for the child
  or into actions, keeps timers (\<^verbatim>\<open>scheduler.rs\<close>) and messages (\<^verbatim>\<open>message_bar.rs\<close>), and tells the compositor which parts of
  a frame changed (\<^verbatim>\<open>display/damage.rs\<close>).

  \<^bold>\<open>Theories\<close>

  \<^item> \<^verbatim>\<open>Prelude\<close>: the judgement \<open>returns m Q\<close> (the call \<open>m\<close> does not panic and its result satisfies \<open>Q\<close>) with its rules,
    checked arithmetic, indexed access to vectors, loops, bit flags and decimal numbers.
  \<^item> \<^verbatim>\<open>Index_Types\<close> (\<^verbatim>\<open>index.rs\<close>, trait \<^verbatim>\<open>Dimensions\<close>): points, their order, clamping and saturating arithmetic,
    described by the position \<open>lin\<close> in reading order.
  \<^item> \<^verbatim>\<open>Cell\<close> (\<^verbatim>\<open>term/cell.rs\<close>): cells and their flags; the locale \<open>grid_cell\<close> is the contract of the trait \<^verbatim>\<open>GridCell\<close>
    with \<^verbatim>\<open>ResetDiscriminant\<close>, interpreted on cells.
  \<^item> \<^verbatim>\<open>Row\<close> (\<^verbatim>\<open>grid/row.rs\<close>): rows with their occupied bound; proved in \<open>grid_cell\<close>, hence for every cell type.
  \<^item> \<^verbatim>\<open>Storage\<close> (\<^verbatim>\<open>grid/storage.rs\<close>): the ring buffer; the locale \<open>line_buffer\<close> states what the grid relies on and proves
    the effect of its swap and reset loops once; it is interpreted on the storage, and on its mirror image for the
    loops that run downwards.
  \<^item> \<^verbatim>\<open>Grid\<close>, \<^verbatim>\<open>Grid_Cells\<close> (\<^verbatim>\<open>grid/mod.rs\<close>): scrolling, history, clearing, iterators, by rows and by cells.
  \<^item> \<^verbatim>\<open>Damage\<close>, \<^verbatim>\<open>Tabs\<close>, \<^verbatim>\<open>Selection\<close>, \<^verbatim>\<open>Utf8\<close>: the remaining parts of the state of \<^verbatim>\<open>Term\<close>, and the text functions of the
    standard library it uses.
  \<^item> \<^verbatim>\<open>Term_State\<close>, \<^verbatim>\<open>Term_Handler\<close> (\<^verbatim>\<open>term/mod.rs\<close>): the record \<open>terminal\<close> and one definition per method of \<^verbatim>\<open>Term\<close> and of
    the trait \<^verbatim>\<open>Handler\<close>.
  \<^item> \<^verbatim>\<open>Term_Invariant\<close>, \<^verbatim>\<open>Term_Safety\<close>, \<^verbatim>\<open>Term_Edit\<close>, \<^verbatim>\<open>Term_Actions\<close>, \<^verbatim>\<open>Term_Modes\<close>: the invariant \<open>wf_term\<close>, one lemma per method
    that it returns and what it returns, the action language \<open>exec\<close> with the inductive set of \<open>reachable\<close> states, and
    mode bits.
  \<^item> \<^verbatim>\<open>Grid_Iter\<close> (\<^verbatim>\<open>grid/mod.rs\<close>): loops over the grid iterator as loops over a list of cells, with invariant rules.
  \<^item> \<^verbatim>\<open>Search\<close> (\<^verbatim>\<open>term/search.rs\<close>): bracket, inline, semantic and line searches. \<^verbatim>\<open>Regex_Search\<close>: searches for
    regular expressions and the iterator over their matches, for arbitrary automata.
  \<^item> \<^verbatim>\<open>Term_Text\<close> (\<^verbatim>\<open>selection.rs\<close>, \<^verbatim>\<open>term/mod.rs\<close>): selected ranges, their text, the content for the renderer;
    \<^verbatim>\<open>Term_Typing\<close> composes printing and copying.
  \<^item> \<^verbatim>\<open>Vi_Mode\<close> (\<^verbatim>\<open>vi_mode.rs\<close>): the motions of the vi cursor.
  \<^item> \<^verbatim>\<open>Resize\<close> (\<^verbatim>\<open>grid/resize.rs\<close>, \<^verbatim>\<open>Term::resize\<close>): resizing with reflow; \<^verbatim>\<open>Resize_Safety\<close> shows that it ends without a panic
    and what shape it leaves, \<^verbatim>\<open>Resize_Content\<close> where the rows go.
  \<^item> \<^verbatim>\<open>Event_Loop\<close>, \<^verbatim>\<open>Event_Loop_Live\<close> (\<^verbatim>\<open>event_loop.rs\<close>): the event loop on an operating system whose answers are arbitrary,
    the stream of bytes it transports, and that it gets written.
  \<^item> \<^verbatim>\<open>Scheduler\<close> (\<^verbatim>\<open>scheduler.rs\<close>), \<^verbatim>\<open>Str_Shortener\<close> (\<^verbatim>\<open>string.rs\<close>), \<^verbatim>\<open>Message_Bar\<close> (\<^verbatim>\<open>message_bar.rs\<close>), \<^verbatim>\<open>Frame_Damage\<close>
    (\<^verbatim>\<open>display/damage.rs\<close>): timers, shortened texts, messages and the damage of a frame.
  \<^item> \<^verbatim>\<open>Keys\<close>, \<^verbatim>\<open>Bindings\<close> (\<^verbatim>\<open>config/bindings.rs\<close>), \<^verbatim>\<open>Keyboard\<close> (\<^verbatim>\<open>input/keyboard.rs\<close>): the events of the window library, key and
    mouse bindings with the default table, and what a key press does; \<^verbatim>\<open>Key_Sequences\<close> reads the escape sequences of keys
    back.
  \<^item> \<^verbatim>\<open>Mouse\<close> (\<^verbatim>\<open>SizeInfo\<close>, \<^verbatim>\<open>Mouse\<close>, \<^verbatim>\<open>input/mod.rs\<close>): the size of the grid in a window, clicks, motion and mouse reports.
  \<^item> \<^verbatim>\<open>Hints\<close> (\<^verbatim>\<open>display/hint.rs\<close>): labels, visible matches, post-processing and the selection of keyboard hints.
  \<^item> \<^verbatim>\<open>Ui_State\<close>, \<^verbatim>\<open>Ui_Search\<close>, \<^verbatim>\<open>Ui_Actions\<close>, \<^verbatim>\<open>Ui_Events\<close> (\<^verbatim>\<open>event.rs\<close>, \<^verbatim>\<open>input/mod.rs\<close>, \<^verbatim>\<open>config/cursor.rs\<close>): the record \<open>ui\<close>
    of the user interface of a window around its terminal, timers, messages, hints and mouse; the search bar; the actions of
    bindings; and the events of a window, which compose \<open>Keyboard\<close>, \<open>Mouse\<close>, \<open>Scheduler\<close>, \<open>Hints\<close> and the terminal. What the code
    asks of the window, the clipboard and the system is the list \<open>ui_effects\<close>; configuration and answers are the record \<open>ui_env\<close>.
    \<^verbatim>\<open>Ui_Window\<close> (\<^verbatim>\<open>window_context.rs\<close>, \<^verbatim>\<open>Display::handle_update\<close>): the queue of events of a window and its size.
    \<^verbatim>\<open>Ui_Invariant\<close>: the locale \<open>ui_invariant\<close> proves once that every operation and event keeps a predicate closed under the basic
    changes; it is interpreted for the terminal, the search history and the timers.
  \<^item> \<^verbatim>\<open>Demo\<close>: a small concrete terminal on which properties are applied. \<^verbatim>\<open>Props_Grid\<close>, \<^verbatim>\<open>Props_Term\<close>,
    \<^verbatim>\<open>Props_Text\<close>, \<^verbatim>\<open>Props_Resize\<close>, \<^verbatim>\<open>Props_Loop\<close>, \<^verbatim>\<open>Props_Ui\<close>, \<^verbatim>\<open>Props_Keys\<close>, \<^verbatim>\<open>Props_Mouse\<close>,
    \<^verbatim>\<open>Props_Search\<close>, \<^verbatim>\<open>Props_Hints\<close>, \<^verbatim>\<open>Props_Events\<close>: the properties.

  \<^bold>\<open>Conventions\<close>

  A method that may panic (index out of range, \<^verbatim>\<open>unwrap\<close>, assertion, unsigned underflow) returns an option, \<open>None\<close> for a
  panic; assertions that only debug builds check are checked in the model. Structures are records, enumerations are
  datatypes. \<^verbatim>\<open>usize\<close> is \<open>nat\<close> with checked subtraction, and the line numbers, \<^verbatim>\<open>i32\<close> in the code, are \<open>int\<close>: both stay
  far below their limits, since counts come from 16-bit parameters of escape sequences and sizes from a window.
  Numbers whose width matters (flags, modes, colours, the identifier counter of hyperlinks, window sizes) are words.
  Events that \<^verbatim>\<open>Term\<close> sends are appended to the list \<open>t_events\<close>. Third-party code is a parameter: the record
  \<open>externals\<close> holds the width of a character (\<^verbatim>\<open>unicode-width\<close>), character set mapping and raw mode numbers (\<^verbatim>\<open>vte\<close>),
  keyboard mode bits and base64. Loops are recursive functions with a termination proof, or partial functions in the
  option monad where the end of the loop depends on the content of the grid; the latter are proved to return, or not to. No fuel
  is needed.

  \<^bold>\<open>What is shown\<close>

  No sequence of handler and user interface calls makes the terminal panic, and the invariant holds throughout; the
  exact effect of scrolling, line feeds, printing, inserting, deleting, erasing and clearing on every cell of the
  grid; the ring buffer refines a list of rows and the optimised row reset equals the full one; round trips of
  screens, cursors, titles, viewport coordinates and UTF-8; damage reports cover every change; selections contain
  exactly the cells between their edges and follow the text; what is printed is what is copied; searches find the
  nearest match; regular expression searches end, except for one that jumps over its end; the renderer gets exactly the viewport; vi motions end and stay in the grid; resizing never panics and
  moves rows as documented; the event loop transports every byte in order; timers fire when due; texts and messages fit
  their space; the rectangles of a frame cover its damage; key sequences and mouse reports can be read back and mean one
  thing; typing reaches the child; a click goes either to the child or to the terminal; hint labels form a prefix code and typing
  one selects its match; a window, its terminal and the child agree on the size; every event of a window keeps the terminal well-formed, the search history bounded and the timers
  unique; a bracketed paste cannot be left by the pasted text; a cancelled search gives the viewport back; resizing is
  debounced; and errors the code makes on the way.

  \<^bold>\<open>Not modelled\<close>

  Process and window handling, rendering, configuration files and the command line are input and output or calls of
  libraries. Scrolling with the wheel, touch gestures, the scale factor and the size of the font compute with floating-point numbers.
  Of the application, only the events of a single window are modelled: not the creation and removal of windows, changes of the font,
  the reload of the configuration and the drawing that follows a batch of events. The actions of macOS do nothing here. Regular expressions are
  compiled and run by the third-party crate \<^verbatim>\<open>regex_automata\<close>: its automata are a parameter of the search, and their caches
  are left out.
\<close>

end
